(* ===== verification/Bridge_Prelude.thy ===== *)
theory Bridge_Prelude
  imports Main "HOL-Library.Word" "HOL-Library.Char_ord" "HOL-Library.List_Lexorder"
begin

text \<open>
  Shared vocabulary of the development: Rust strings and the few operations of
  \<^verbatim>\<open>str\<close> and \<^verbatim>\<open>[u8]\<close> the bridge uses, results, decimal printing, length-prefixed
  encodings, SQL-style table updates, and the lemmas about them that the component
  theories rely on.

  A Rust \<^verbatim>\<open>String\<close> is modelled by the list of its UTF-8 bytes, so \<open>length\<close> is
  \<^verbatim>\<open>len()\<close>, byte offsets are list indices and the order on strings is the byte order
  that \<^verbatim>\<open>Ord\<close> and SQLite's BINARY collation use. UTF-8 is self-synchronising, so
  searching for a character byte by byte finds the same offsets as searching character
  by character.
\<close>

section \<open>Collections of facts\<close>

named_theorems str_defs \<open>definitions of the string operations, for evaluation\<close>
named_theorems result_simps \<open>rewrite rules for results\<close>

section \<open>Machine integers\<close>

type_synonym u16 = "16 word"
type_synonym u32 = "32 word"
type_synonym u64 = "64 word"
type_synonym i64 = int

definition i64_max :: int where
  "i64_max = 9223372036854775807"

definition i64_min :: int where
  "i64_min = -9223372036854775808"

definition checked_add_u64 :: "u64 \<Rightarrow> u64 \<Rightarrow> u64 option" where
  "checked_add_u64 a b = (if a + b < a then None else Some (a + b))"

lemma add_wraps_iff: "a + b < a \<longleftrightarrow> 2 ^ 64 \<le> unat a + unat b" for a b :: u64
proof -
  have l: "unat (a + b) = (unat a + unat b) mod 2 ^ 64" by (simp add: unat_word_ariths)
  have b: "unat a < 2 ^ 64" "unat b < 2 ^ 64" using unsigned_less [of a] unsigned_less [of b] by simp_all
  show ?thesis
  proof (cases "unat a + unat b < 2 ^ 64")
    case True
    then show ?thesis using l by (simp add: word_less_nat_alt)
  next
    case False
    then have "unat (a + b) = unat a + unat b - 2 ^ 64" using l b by (simp add: mod_if)
    with False b show ?thesis by (simp add: word_less_nat_alt)
  qed
qed

lemma checked_add_u64_Some:
  "checked_add_u64 a b = Some c \<Longrightarrow> unat c = unat a + unat b"
  by (auto simp: checked_add_u64_def add_wraps_iff unat_word_ariths split: if_splits)

lemma checked_add_u64_None:
  "checked_add_u64 a b = None \<longleftrightarrow> 2 ^ 64 \<le> unat a + unat b"
  by (auto simp: checked_add_u64_def add_wraps_iff)

section \<open>Results\<close>

text \<open>
  \<^verbatim>\<open>Result<T, E>\<close> is \<open>'e + 't\<close> with \<open>Inl\<close> the error; the \<^verbatim>\<open>?\<close> operator is
  \<open>bind_r\<close>.
\<close>

definition bind_r :: "'e + 'a \<Rightarrow> ('a \<Rightarrow> 'e + 'b) \<Rightarrow> 'e + 'b" where
  "bind_r r f = (case r of Inl e \<Rightarrow> Inl e | Inr a \<Rightarrow> f a)"

definition ok_or :: "'e \<Rightarrow> 'a option \<Rightarrow> 'e + 'a" where
  "ok_or e x = (case x of None \<Rightarrow> Inl e | Some a \<Rightarrow> Inr a)"

definition map_err :: "('e \<Rightarrow> 'f) \<Rightarrow> 'e + 'a \<Rightarrow> 'f + 'a" where
  "map_err f r = (case r of Inl e \<Rightarrow> Inl (f e) | Inr a \<Rightarrow> Inr a)"

definition map_ok :: "('a \<Rightarrow> 'b) \<Rightarrow> 'e + 'a \<Rightarrow> 'e + 'b" where
  "map_ok f r = (case r of Inl e \<Rightarrow> Inl e | Inr a \<Rightarrow> Inr (f a))"

lemma bind_r_simps [simp, result_simps]:
  "bind_r (Inl e) f = Inl e" "bind_r (Inr a) f = f a"
  by (simp_all add: bind_r_def)

lemma ok_or_simps [simp, result_simps]:
  "ok_or e None = Inl e" "ok_or e (Some a) = Inr a"
  by (simp_all add: ok_or_def)

lemma map_err_simps [simp, result_simps]:
  "map_err f (Inl e) = Inl (f e)" "map_err f (Inr a) = Inr a"
  by (simp_all add: map_err_def)

lemma map_ok_simps [simp, result_simps]:
  "map_ok g (Inl e) = Inl e" "map_ok g (Inr a) = Inr (g a)"
  by (simp_all add: map_ok_def)

lemma bind_r_Inr_iff: "bind_r r f = Inr b \<longleftrightarrow> (\<exists>a. r = Inr a \<and> f a = Inr b)"
  by (cases r) auto

lemma ok_or_Inr_iff [simp]: "ok_or e x = Inr a \<longleftrightarrow> x = Some a"
  by (cases x) auto

lemma map_err_Inr_iff [simp]: "map_err f r = Inr a \<longleftrightarrow> r = Inr a"
  by (cases r) auto

text \<open>A call either returns or unwinds with a panic.\<close>

datatype 'a call = Returns 'a | Panicked

definition map_call :: "('a \<Rightarrow> 'b) \<Rightarrow> 'a call \<Rightarrow> 'b call" where
  "map_call f c = (case c of Returns a \<Rightarrow> Returns (f a) | Panicked \<Rightarrow> Panicked)"

definition bind_call :: "'a call \<Rightarrow> ('a \<Rightarrow> 'b call) \<Rightarrow> 'b call" where
  "bind_call c f = (case c of Returns a \<Rightarrow> f a | Panicked \<Rightarrow> Panicked)"

lemma map_call_simps [simp, result_simps]:
  "map_call f (Returns a) = Returns (f a)" "map_call f Panicked = Panicked"
  by (simp_all add: map_call_def)

lemma bind_call_simps [simp, result_simps]:
  "bind_call (Returns a) g = g a" "bind_call Panicked g = Panicked"
  by (simp_all add: bind_call_def)

lemma bind_call_Returns_iff:
  "bind_call c f = Returns b \<longleftrightarrow> (\<exists>a. c = Returns a \<and> f a = Returns b)"
  by (cases c) auto

lemma option_if_SomeE:
  assumes "(if b then Some x else r) = Some y"
  obtains "b" "x = y" | "\<not> b" "r = Some y"
  using assms by (auto split: if_splits)

text \<open>\<^verbatim>\<open>iter().map(f).collect::<Result<Vec<_>, _>>()\<close>: the first error wins.\<close>

fun collect_results :: "('a \<Rightarrow> 'e + 'b) \<Rightarrow> 'a list \<Rightarrow> 'e + 'b list" where
  "collect_results f [] = Inr []"
| "collect_results f (x # xs) =
     bind_r (f x) (\<lambda>y. bind_r (collect_results f xs) (\<lambda>ys. Inr (y # ys)))"

lemma collect_results_Inr:
  "collect_results f xs = Inr ys \<longleftrightarrow> list_all2 (\<lambda>x y. f x = Inr y) xs ys"
proof (induction xs arbitrary: ys)
  case Nil
  then show ?case by auto
next
  case (Cons x xs)
  then show ?case
    by (cases ys; cases "f x") (auto simp: bind_r_Inr_iff)
qed

section \<open>Characters and white space\<close>

abbreviation byte :: "char \<Rightarrow> nat" where
  "byte c \<equiv> of_char c"

definition LF :: char where
  "LF = CHR 0x0A"

definition CR :: char where
  "CR = CHR 0x0D"

definition is_ascii_digit :: "char \<Rightarrow> bool" where [str_defs]:
  "is_ascii_digit c \<longleftrightarrow> 48 \<le> byte c \<and> byte c \<le> 57"

definition is_ascii_uppercase :: "char \<Rightarrow> bool" where [str_defs]:
  "is_ascii_uppercase c \<longleftrightarrow> 65 \<le> byte c \<and> byte c \<le> 90"

definition is_ascii_lowercase :: "char \<Rightarrow> bool" where [str_defs]:
  "is_ascii_lowercase c \<longleftrightarrow> 97 \<le> byte c \<and> byte c \<le> 122"

definition is_ascii_alphabetic :: "char \<Rightarrow> bool" where [str_defs]:
  "is_ascii_alphabetic c \<longleftrightarrow> is_ascii_uppercase c \<or> is_ascii_lowercase c"

definition is_ascii_alphanumeric :: "char \<Rightarrow> bool" where [str_defs]:
  "is_ascii_alphanumeric c \<longleftrightarrow> is_ascii_alphabetic c \<or> is_ascii_digit c"

definition ascii_lower :: "char \<Rightarrow> char" where [str_defs]:
  "ascii_lower c = (if is_ascii_uppercase c then char_of (byte c + 32) else c)"

definition ascii_upper :: "char \<Rightarrow> char" where [str_defs]:
  "ascii_upper c = (if is_ascii_lowercase c then char_of (byte c - 32) else c)"

definition to_ascii_lowercase :: "string \<Rightarrow> string" where [str_defs]:
  "to_ascii_lowercase s = map ascii_lower s"

definition to_ascii_uppercase :: "string \<Rightarrow> string" where [str_defs]:
  "to_ascii_uppercase s = map ascii_upper s"

definition eq_ignore_ascii_case :: "string \<Rightarrow> string \<Rightarrow> bool" where [str_defs]:
  "eq_ignore_ascii_case s t \<longleftrightarrow> to_ascii_lowercase s = to_ascii_lowercase t"

lemma length_to_ascii_lowercase [simp]: "length (to_ascii_lowercase s) = length s"
  by (simp add: to_ascii_lowercase_def)

text \<open>
  The byte length of the \<^verbatim>\<open>char::is_whitespace\<close> character (Unicode White_Space) that
  starts a string, 0 if it starts with something else.
\<close>

fun ws_bytes :: "nat list \<Rightarrow> nat" where
  "ws_bytes [] = 0"
| "ws_bytes [a] = (if (9 \<le> a \<and> a \<le> 13) \<or> a = 32 then 1 else 0)"
| "ws_bytes [a, b] =
     (if (9 \<le> a \<and> a \<le> 13) \<or> a = 32 then 1
      else if a = 194 \<and> (b = 133 \<or> b = 160) then 2 else 0)"
| "ws_bytes (a # b # c # r) =
     (if (9 \<le> a \<and> a \<le> 13) \<or> a = 32 then 1
      else if a = 194 \<and> (b = 133 \<or> b = 160) then 2
      else if a = 225 \<and> b = 154 \<and> c = 128
         \<or> a = 226 \<and> b = 128 \<and> ((128 \<le> c \<and> c \<le> 138) \<or> c = 168 \<or> c = 169 \<or> c = 175)
         \<or> a = 226 \<and> b = 129 \<and> c = 159
         \<or> a = 227 \<and> b = 128 \<and> c = 128 then 3 else 0)"

definition ws_len :: "string \<Rightarrow> nat" where [str_defs]:
  "ws_len s = ws_bytes (map of_char (take 3 s))"

lemma ws_bytes_le: "ws_bytes xs \<le> length xs"
  by (cases xs rule: ws_bytes.cases) auto

lemma ws_len_le: "ws_len s \<le> length s"
proof -
  have "ws_len s \<le> length (take 3 s)"
    using ws_bytes_le [of "map of_char (take 3 s)"] by (simp add: ws_len_def)
  then show ?thesis by simp
qed

lemma ws_len_Nil [simp]: "ws_len [] = 0"
  by (simp add: ws_len_def)

text \<open>The length of the white-space character that ends a string.\<close>

definition ws_suffix_len :: "string \<Rightarrow> nat" where [str_defs]:
  "ws_suffix_len s =
     (let n = length s in
      if 1 \<le> n \<and> ws_len (drop (n - 1) s) = 1 then 1
      else if 2 \<le> n \<and> ws_len (drop (n - 2) s) = 2 then 2
      else if 3 \<le> n \<and> ws_len (drop (n - 3) s) = 3 then 3 else 0)"

lemma ws_suffix_len_le: "ws_suffix_len s \<le> length s"
  by (auto simp: ws_suffix_len_def Let_def)

function trim_start :: "string \<Rightarrow> string" where
  "trim_start s = (if ws_len s = 0 then s else trim_start (drop (ws_len s) s))"
  by pat_completeness auto
termination
proof (relation "measure length", goal_cases)
  case (2 s)
  then show ?case using ws_len_le [of s] by (cases "s = []") auto
qed simp

function trim_end :: "string \<Rightarrow> string" where
  "trim_end s =
     (if ws_suffix_len s = 0 then s else trim_end (take (length s - ws_suffix_len s) s))"
  by pat_completeness auto
termination
proof (relation "measure length", goal_cases)
  case (2 s)
  then show ?case using ws_suffix_len_le [of s] by (cases "s = []") auto
qed simp

declare trim_start.simps [simp del] trim_end.simps [simp del]

definition trim :: "string \<Rightarrow> string" where [str_defs]:
  "trim s = trim_end (trim_start s)"

text \<open>\<^verbatim>\<open>value.trim().is_empty()\<close>.\<close>

definition is_blank :: "string \<Rightarrow> bool" where [str_defs]:
  "is_blank s \<longleftrightarrow> trim s = []"

lemma trim_start_Nil [simp]: "trim_start [] = []"
  by (simp add: trim_start.simps)

lemma trim_end_Nil [simp]: "trim_end [] = []"
  by (subst trim_end.simps) (simp add: ws_suffix_len_def)

lemma is_blank_Nil [simp]: "is_blank []"
  by (simp add: is_blank_def trim_def)

lemma not_blank_nonempty: "\<not> is_blank s \<Longrightarrow> s \<noteq> []"
  by auto

section \<open>UTF-8\<close>

text \<open>The bytes of a string literal given by its code points, and \<^verbatim>\<open>std::str::from_utf8\<close>'s test.\<close>

definition utf8_char :: "nat \<Rightarrow> string" where [str_defs]:
  "utf8_char c =
     map char_of
       (if c < 128 then [c]
        else if c < 2048 then [192 + c div 64, 128 + c mod 64]
        else if c < 65536 then [224 + c div 4096, 128 + c div 64 mod 64, 128 + c mod 64]
        else [240 + c div 262144, 128 + c div 4096 mod 64, 128 + c div 64 mod 64, 128 + c mod 64])"

definition utf8_encode :: "nat list \<Rightarrow> string" where [str_defs]:
  "utf8_encode cs = concat (map utf8_char cs)"

definition cont_byte :: "nat \<Rightarrow> bool" where [str_defs]:
  "cont_byte b \<longleftrightarrow> 128 \<le> b \<and> b \<le> 191"

fun utf8_valid_bytes :: "nat list \<Rightarrow> bool" where
  "utf8_valid_bytes [] = True"
| "utf8_valid_bytes (a # r) =
     (if a < 128 then utf8_valid_bytes r
      else if 194 \<le> a \<and> a \<le> 223 then
        (case r of b # r' \<Rightarrow> cont_byte b \<and> utf8_valid_bytes r' | _ \<Rightarrow> False)
      else if 224 \<le> a \<and> a \<le> 239 then
        (case r of
           b # c # r' \<Rightarrow> cont_byte b \<and> (a = 224 \<longrightarrow> 160 \<le> b) \<and> (a = 237 \<longrightarrow> b \<le> 159)
             \<and> cont_byte c \<and> utf8_valid_bytes r'
         | _ \<Rightarrow> False)
      else if 240 \<le> a \<and> a \<le> 244 then
        (case r of
           b # c # d # r' \<Rightarrow> cont_byte b \<and> (a = 240 \<longrightarrow> 144 \<le> b) \<and> (a = 244 \<longrightarrow> b \<le> 143)
             \<and> cont_byte c \<and> cont_byte d \<and> utf8_valid_bytes r'
         | _ \<Rightarrow> False)
      else False)"

definition utf8_valid :: "string \<Rightarrow> bool" where [str_defs]:
  "utf8_valid s = utf8_valid_bytes (map of_char s)"

section \<open>Searching, splitting and joining\<close>

fun starts_with :: "string \<Rightarrow> string \<Rightarrow> bool" where
  "starts_with s [] = True"
| "starts_with [] (p # ps) = False"
| "starts_with (c # s) (p # ps) = (c = p \<and> starts_with s ps)"

lemma starts_with_iff: "starts_with s p \<longleftrightarrow> (\<exists>t. s = p @ t)"
  by (induction s p rule: starts_with.induct) auto

definition ends_with :: "string \<Rightarrow> string \<Rightarrow> bool" where [str_defs]:
  "ends_with s p = starts_with (rev s) (rev p)"

text \<open>The least offset whose suffix satisfies a predicate.\<close>

fun find_at :: "(string \<Rightarrow> bool) \<Rightarrow> string \<Rightarrow> nat option" where
  "find_at P [] = None"
| "find_at P (c # s) = (if P (c # s) then Some 0 else map_option Suc (find_at P s))"

lemma find_at_Some:
  "find_at P s = Some i \<Longrightarrow>
     i < length s \<and> P (drop i s) \<and> (\<forall>j < i. \<not> P (drop j s))"
proof (induction s arbitrary: i)
  case Nil
  then show ?case by simp
next
  case (Cons c s)
  show ?case
  proof (cases "P (c # s)")
    case True
    with Cons.prems show ?thesis by simp
  next
    case False
    with Cons.prems obtain k where k: "find_at P s = Some k" "i = Suc k" by auto
    from Cons.IH [OF k(1)] False k(2) show ?thesis
      by (auto simp: less_Suc_eq_0_disj)
  qed
qed

lemma find_at_None: "find_at P s = None \<longleftrightarrow> (\<forall>j < length s. \<not> P (drop j s))"
  by (induction s) (auto simp: less_Suc_eq_0_disj)

text \<open>\<^verbatim>\<open>str::find\<close> for a nonempty pattern and \<^verbatim>\<open>str::contains\<close>.\<close>

definition find_str :: "string \<Rightarrow> string \<Rightarrow> nat option" where [str_defs]:
  "find_str s p = find_at (\<lambda>t. starts_with t p) s"

definition contains_str :: "string \<Rightarrow> string \<Rightarrow> bool" where [str_defs]:
  "contains_str s p = (find_str s p \<noteq> None)"

definition contains_char :: "string \<Rightarrow> char \<Rightarrow> bool" where [str_defs]:
  "contains_char s c = (c \<in> set s)"

lemma find_str_bound: "find_str s p = Some i \<Longrightarrow> i + length p \<le> length s"
proof -
  assume "find_str s p = Some i"
  then have "i < length s" and "starts_with (drop i s) p"
    by (auto simp: find_str_def dest: find_at_Some)
  then obtain t where "drop i s = p @ t" by (auto simp: starts_with_iff)
  then have "length s - i = length p + length t"
    by (metis length_append length_drop)
  with \<open>i < length s\<close> show ?thesis by simp
qed

text \<open>\<^verbatim>\<open>split(c)\<close>, \<^verbatim>\<open>split_once(c)\<close> and \<^verbatim>\<open>join\<close>.\<close>

fun split_on :: "char \<Rightarrow> string \<Rightarrow> string list" where
  "split_on d [] = [[]]"
| "split_on d (c # s) =
     (if c = d then [] # split_on d s
      else (case split_on d s of [] \<Rightarrow> [[c]] | p # ps \<Rightarrow> (c # p) # ps))"

fun split_once :: "char \<Rightarrow> string \<Rightarrow> (string \<times> string) option" where
  "split_once d [] = None"
| "split_once d (c # s) =
     (if c = d then Some ([], s)
      else map_option (\<lambda>(a, b). (c # a, b)) (split_once d s))"

fun join_with :: "string \<Rightarrow> string list \<Rightarrow> string" where
  "join_with sep [] = []"
| "join_with sep [x] = x"
| "join_with sep (x # y # ys) = x @ sep @ join_with sep (y # ys)"

lemma split_on_nonempty [simp]: "split_on d s \<noteq> []"
  by (induction s) (auto split: list.splits)

lemma join_split_on: "join_with [d] (split_on d s) = s"
proof (induction s)
  case Nil
  then show ?case by simp
next
  case (Cons c s)
  obtain p ps where ps: "split_on d s = p # ps"
    by (cases "split_on d s") auto
  with Cons show ?case by (cases ps) auto
qed

lemma split_on_no_sep: "p \<in> set (split_on d s) \<Longrightarrow> d \<notin> set p"
proof (induction s arbitrary: p)
  case Nil
  then show ?case by simp
next
  case (Cons c s)
  obtain q qs where qs: "split_on d s = q # qs"
    by (cases "split_on d s") auto
  show ?case
  proof (cases "c = d")
    case True
    with Cons show ?thesis by auto
  next
    case False
    with Cons qs show ?thesis by auto
  qed
qed

lemma split_on_join:
  "ps \<noteq> [] \<Longrightarrow> \<forall>p \<in> set ps. d \<notin> set p \<Longrightarrow> split_on d (join_with [d] ps) = ps"
proof (induction ps rule: induct_list012)
  case 1
  then show ?case by simp
next
  case (2 x)
  then have "d \<notin> set x" by simp
  then show ?case by (induction x) auto
next
  case (3 x y zs)
  then have IH: "split_on d (join_with [d] (y # zs)) = y # zs" by simp
  have "d \<notin> set x \<Longrightarrow> split_on d (x @ d # t) = x # split_on d t" for t
    by (induction x) auto
  with 3 IH show ?case by simp
qed

lemma split_once_Some:
  "split_once d s = Some (a, b) \<longleftrightarrow> s = a @ d # b \<and> d \<notin> set a"
proof (induction s arbitrary: a)
  case Nil
  then show ?case by simp
next
  case (Cons c s)
  then show ?case by (cases a) auto
qed

lemma split_once_None: "split_once d s = None \<longleftrightarrow> d \<notin> set s"
  by (induction s) auto

section \<open>Decimal printing and big-endian bytes\<close>

definition digit_char :: "nat \<Rightarrow> char" where [str_defs]:
  "digit_char d = char_of (48 + d)"

fun nat_to_string :: "nat \<Rightarrow> string" where
  "nat_to_string n =
     (if n < 10 then [digit_char n] else nat_to_string (n div 10) @ [digit_char (n mod 10)])"

declare nat_to_string.simps [simp del]

definition int_to_string :: "int \<Rightarrow> string" where [str_defs]:
  "int_to_string i =
     (if i < 0 then CHR ''-'' # nat_to_string (nat (- i)) else nat_to_string (nat i))"

lemma byte_digit_char: "d < 10 \<Longrightarrow> byte (digit_char d) = 48 + d"
  by (simp add: digit_char_def)

lemma digit_char_inj: "d < 10 \<Longrightarrow> e < 10 \<Longrightarrow> digit_char d = digit_char e \<Longrightarrow> d = e"
  by (metis add_left_cancel byte_digit_char)

lemma nat_to_string_nonempty [simp]: "nat_to_string n \<noteq> []"
  by (subst nat_to_string.simps) simp

lemma nat_to_string_bytes: "c \<in> set (nat_to_string n) \<Longrightarrow> is_ascii_digit c"
proof (induction n rule: nat_to_string.induct)
  case (1 n)
  have dig: "d < 10 \<Longrightarrow> is_ascii_digit (digit_char d)" for d
    by (simp add: is_ascii_digit_def byte_digit_char)
  show ?case
  proof (cases "n < 10")
    case True
    with "1.prems" show ?thesis by (subst (asm) nat_to_string.simps) (simp add: dig)
  next
    case False
    with "1.prems" have "c \<in> set (nat_to_string (n div 10)) \<or> c = digit_char (n mod 10)"
      by (subst (asm) nat_to_string.simps) auto
    with False "1.IH" show ?thesis by (auto simp: dig)
  qed
qed

lemma nat_to_string_inj: "nat_to_string m = nat_to_string n \<Longrightarrow> m = n"
proof (induction m arbitrary: n rule: nat_to_string.induct)
  case (1 m)
  have len1: "length (nat_to_string k) = 1 \<longleftrightarrow> k < 10" for k
    by (subst nat_to_string.simps) simp
  show ?case
  proof (cases "m < 10")
    case True
    then have "n < 10" using "1.prems" len1 [of m] len1 [of n] by simp
    with True "1.prems" show ?thesis
      by (simp add: nat_to_string.simps [of m] nat_to_string.simps [of n] digit_char_inj)
  next
    case False
    then have n: "\<not> n < 10" using "1.prems" len1 [of m] len1 [of n] by simp
    with False "1.prems" have eq: "nat_to_string (m div 10) = nat_to_string (n div 10)"
      "digit_char (m mod 10) = digit_char (n mod 10)"
      by (simp_all add: nat_to_string.simps [of m] nat_to_string.simps [of n])
    from eq(1) have "m div 10 = n div 10" using "1.IH" [OF False] by simp
    moreover from eq(2) have "m mod 10 = n mod 10" using digit_char_inj by simp
    ultimately show ?thesis by (metis div_mult_mod_eq)
  qed
qed

lemma nat_to_string_no_minus: "nat_to_string n \<noteq> CHR ''-'' # t"
  using nat_to_string_bytes [of "CHR ''-''" n] by (auto simp: is_ascii_digit_def)

lemma int_to_string_inj: "int_to_string i = int_to_string j \<Longrightarrow> i = j"
  using nat_to_string_no_minus
  by (auto simp: int_to_string_def dest!: nat_to_string_inj split: if_splits)
     (metis nat_to_string_no_minus)+

fun be_bytes :: "nat \<Rightarrow> nat \<Rightarrow> string" where
  "be_bytes 0 n = []"
| "be_bytes (Suc k) n = be_bytes k (n div 256) @ [char_of (n mod 256)]"

lemma length_be_bytes [simp]: "length (be_bytes k n) = k"
  by (induction k arbitrary: n) auto

lemma be_bytes_inj: "m < 256 ^ k \<Longrightarrow> n < 256 ^ k \<Longrightarrow> be_bytes k m = be_bytes k n \<Longrightarrow> m = n"
proof (induction k arbitrary: m n)
  case 0
  then show ?case by simp
next
  case (Suc k)
  have "(char_of (m mod 256) :: char) = char_of (n mod 256)"
    and eq: "be_bytes k (m div 256) = be_bytes k (n div 256)"
    using Suc.prems(3) by auto
  then have "byte (char_of (m mod 256)) = byte (char_of (n mod 256))" by simp
  then have "m mod 256 = n mod 256" by simp
  moreover have "m div 256 = n div 256"
    using Suc.prems(1,2) eq by (intro Suc.IH) (auto simp: less_mult_imp_div_less mult.commute)
  ultimately show ?case by (metis div_mult_mod_eq)
qed

text \<open>
  A part preceded by \<^verbatim>\<open>(len as u64).to_be_bytes()\<close>; \<open>be_bytes 8\<close> keeps the low eight bytes,
  as the conversion does.
\<close>

definition length_prefixed :: "string \<Rightarrow> string" where [str_defs]:
  "length_prefixed p = be_bytes 8 (length p) @ p"

lemma length_length_prefixed: "length (length_prefixed p) = 8 + length p"
  by (simp add: length_prefixed_def del: be_bytes.simps)

lemma length_prefixed_cancel:
  assumes "length a < 2 ^ 64" "length b < 2 ^ 64"
    and "length_prefixed a @ x = length_prefixed b @ y"
  shows "a = b \<and> x = y"
proof -
  have "be_bytes 8 (length a) @ (a @ x) = be_bytes 8 (length b) @ (b @ y)"
    using assms(3) by (simp only: length_prefixed_def append_assoc)
  then have "be_bytes 8 (length a) = be_bytes 8 (length b) \<and> a @ x = b @ y"
    by (subst (asm) append_eq_append_conv) (auto simp only: length_be_bytes)
  then have "be_bytes 8 (length a) = be_bytes 8 (length b)" and eq: "a @ x = b @ y"
    by simp_all
  then have "length a = length b"
    using assms(1,2) by (rule_tac be_bytes_inj [of _ 8]) simp_all
  with eq show ?thesis by simp
qed

lemma length_prefixed_parts_inj:
  assumes "list_all (\<lambda>p. length p < 2 ^ 64) ps" "list_all (\<lambda>p. length p < 2 ^ 64) qs"
    and "length ps = length qs"
    and "concat (map length_prefixed ps) @ x = concat (map length_prefixed qs) @ y"
  shows "ps = qs \<and> x = y"
  using assms(3,1,2,4)
proof (induction ps qs arbitrary: x y rule: list_induct2)
  case Nil
  then show ?case by simp
next
  case (Cons p ps q qs)
  have len: "length p < 2 ^ 64" "length q < 2 ^ 64"
    and tails: "list_all (\<lambda>p. length p < 2 ^ 64) ps" "list_all (\<lambda>p. length p < 2 ^ 64) qs"
    using Cons.prems(1,2) by (simp_all only: list.pred_inject)
  have "length_prefixed p @ (concat (map length_prefixed ps) @ x)
      = length_prefixed q @ (concat (map length_prefixed qs) @ y)"
    using Cons.prems(3) by (simp only: list.map concat.simps append_assoc)
  from length_prefixed_cancel [OF len this] Cons.IH [OF tails] show ?case by blast
qed

section \<open>Tables\<close>

text \<open>
  A SQL table is the list of its rows; \<^verbatim>\<open>UPDATE ... WHERE\<close> rewrites the matching rows
  and reports how many there were (\<^verbatim>\<open>rows_affected\<close>).
\<close>

definition sql_update :: "('r \<Rightarrow> bool) \<Rightarrow> ('r \<Rightarrow> 'r) \<Rightarrow> 'r list \<Rightarrow> 'r list \<times> nat" where
  "sql_update P f rs = (map (\<lambda>r. if P r then f r else r) rs, length (filter P rs))"

lemma sql_update_none: "filter P rs = [] \<Longrightarrow> sql_update P f rs = (rs, 0)"
  by (auto simp: sql_update_def filter_empty_conv intro!: map_idI)

lemma filter_unique_key:
  assumes "distinct (map k rs)" "r \<in> set rs"
  shows "filter (\<lambda>x. k x = k r) rs = [r]"
  using assms
proof (induction rs)
  case Nil
  then show ?case by simp
next
  case (Cons a rs)
  then show ?case
    by (cases "a = r") (auto simp: filter_empty_conv image_iff)
qed

lemma find_unique_key:
  assumes "distinct (map k rs)" "r \<in> set rs"
  shows "find (\<lambda>x. k x = k r) rs = Some r"
proof -
  have "find (\<lambda>x. k x = k r) rs = Some (hd (filter (\<lambda>x. k x = k r) rs))"
    using filter_unique_key [OF assms] by (induction rs) auto
  then show ?thesis by (simp add: filter_unique_key [OF assms])
qed

lemma find_in_set: "find P xs = Some x \<Longrightarrow> x \<in> set xs \<and> P x"
  by (induction xs) (auto split: if_splits)

lemma find_append:
  "find P (xs @ ys) = (case find P xs of None \<Rightarrow> find P ys | Some x \<Rightarrow> Some x)"
  by (induction xs) auto

lemma find_map_keys:
  assumes "\<And>r. k (f r) = k r"
  shows "find (\<lambda>x. k x = i) (map f rs) = map_option f (find (\<lambda>x. k x = i) rs)"
  by (induction rs) (auto simp: assms)

end
