(* ===== verification/Json_Value.thy ===== *)
theory Json_Value
  imports Bridge_Prelude
begin

text \<open>
  \<^verbatim>\<open>serde_json::Value\<close> and the accessors the bridge calls on it. An object is the list of
  its members; a number that is not an integer keeps its text and is not interpreted.
  Parsing and printing belong to \<^verbatim>\<open>serde_json\<close> and are arguments where they are used.
\<close>

datatype json_number = PosInt nat | NegInt int | FloatNum string

datatype json =
    JNull
  | JBool bool
  | JNumber json_number
  | JString string
  | JArray "json list"
  | JObject "(string \<times> json) list"

fun json_get :: "json \<Rightarrow> string \<Rightarrow> json option" where
  "json_get (JObject ms) k = map_of ms k"
| "json_get _ k = None"

fun as_str :: "json \<Rightarrow> string option" where
  "as_str (JString s) = Some s"
| "as_str _ = None"

fun as_bool :: "json \<Rightarrow> bool option" where
  "as_bool (JBool b) = Some b"
| "as_bool _ = None"

fun as_array :: "json \<Rightarrow> json list option" where
  "as_array (JArray xs) = Some xs"
| "as_array _ = None"

fun as_object :: "json \<Rightarrow> (string \<times> json) list option" where
  "as_object (JObject ms) = Some ms"
| "as_object _ = None"

fun as_u64 :: "json \<Rightarrow> nat option" where
  "as_u64 (JNumber (PosInt n)) = (if n < 2 ^ 64 then Some n else None)"
| "as_u64 _ = None"

definition get_str :: "json \<Rightarrow> string \<Rightarrow> string option" where
  "get_str v k = Option.bind (json_get v k) as_str"

definition get_bool :: "json \<Rightarrow> string \<Rightarrow> bool option" where
  "get_bool v k = Option.bind (json_get v k) as_bool"

fun as_i64 :: "json \<Rightarrow> i64 option" where
  "as_i64 (JNumber (PosInt n)) = (if int n \<le> i64_max then Some (int n) else None)"
| "as_i64 (JNumber (NegInt i)) = Some i"
| "as_i64 _ = None"

definition get_i64 :: "json \<Rightarrow> string \<Rightarrow> i64 option" where
  "get_i64 v k = Option.bind (json_get v k) as_i64"

text \<open>\<^verbatim>\<open>Value::pointer\<close>, on a path given by its tokens: a token that is a number without sign and
  leading zero indexes an array.\<close>

definition pointer_index :: "string \<Rightarrow> nat option" where
  "pointer_index k =
     (if k = [] \<or> \<not> list_all is_ascii_digit k \<or> (hd k = CHR ''0'' \<and> k \<noteq> ''0'') then None
      else Some (foldl (\<lambda>n c. 10 * n + (of_char c - 48)) 0 k))"

fun json_child :: "json \<Rightarrow> string \<Rightarrow> json option" where
  "json_child (JObject ms) k = map_of ms k"
| "json_child (JArray xs) k =
     (case pointer_index k of Some i \<Rightarrow> if i < length xs then Some (xs ! i) else None | None \<Rightarrow> None)"
| "json_child _ k = None"

fun json_pointer :: "json \<Rightarrow> string list \<Rightarrow> json option" where
  "json_pointer v [] = Some v"
| "json_pointer v (k # ks) = Option.bind (json_child v k) (\<lambda>w. json_pointer w ks)"

end
