(* ===== verification/Redaction.thy ===== *)
theory Redaction
  imports Bridge_Prelude
begin

text \<open>
  \<^verbatim>\<open>src/modules/bridge/redaction.rs\<close>: the filter every free-text error detail passes
  before it is stored or shown. Slices of the source are taken at offsets where an ASCII
  character has just been matched or at the end of the text, so they never split a
  character; the one primitive that can panic is \<^verbatim>\<open>String::replace_range\<close>, which is
  checked here as the standard library checks it (order, bounds, character boundaries).
\<close>

section \<open>Constants and byte-level helpers\<close>

definition SENSITIVE_KEYS :: "string list" where
  "SENSITIVE_KEYS = [
     ''authorization'',
     ''cookie'',
     ''x-csrf-token'',
     ''csrf-token'',
     ''csrf_token'',
     ''csrf'',
     ''bot-token'',
     ''bot_token'',
     ''bot token'',
     ''api-key'',
     ''api key'',
     ''api_key'',
     ''apikey'',
     ''access-token'',
     ''access_token'',
     ''provider-key'',
     ''provider_key'',
     ''password'',
     ''token'',
     ''secret'']"

definition REDACTED :: string where
  "REDACTED = ''[REDACTED]''"

definition PATH_REDACTED :: string where
  "PATH_REDACTED = ''[PATH_REDACTED]''"

definition is_quote :: "char \<Rightarrow> bool" where
  "is_quote c \<longleftrightarrow> c = CHR 0x22 \<or> c = CHR 0x27"

text \<open>\<^verbatim>\<open>str::is_char_boundary\<close>: not inside a multi-byte character.\<close>

definition is_char_boundary :: "string \<Rightarrow> nat \<Rightarrow> bool" where
  "is_char_boundary t i \<longleftrightarrow>
     i = 0 \<or> i = length t \<or> (i < length t \<and> \<not> (128 \<le> byte (t ! i) \<and> byte (t ! i) < 192))"

definition replace_range :: "string \<Rightarrow> nat \<Rightarrow> nat \<Rightarrow> string \<Rightarrow> string call" where
  "replace_range t a b r =
     (if a \<le> b \<and> b \<le> length t \<and> is_char_boundary t a \<and> is_char_boundary t b
      then Returns (take a t @ r @ drop b t) else Panicked)"

text \<open>
  \<^verbatim>\<open>for (start, end) in ranges.into_iter().rev()\<close> with a replacement in each round; the
  ranges were computed on the text before the first replacement.
\<close>

fun replace_ranges_rev :: "(nat \<times> nat) list \<Rightarrow> string \<Rightarrow> string \<Rightarrow> string call" where
  "replace_ranges_rev [] r t = Returns t"
| "replace_ranges_rev ((a, b) # rs) r t =
     bind_call (replace_range t a b r) (replace_ranges_rev rs r)"

definition replace_ranges :: "(nat \<times> nat) list \<Rightarrow> string \<Rightarrow> string \<Rightarrow> string call" where
  "replace_ranges rs r t = replace_ranges_rev (rev rs) r t"

text \<open>\<^verbatim>\<open>chars().take(n).collect()\<close>: whole characters only.\<close>

definition is_continuation :: "char \<Rightarrow> bool" where
  "is_continuation c \<longleftrightarrow> 128 \<le> byte c \<and> byte c < 192"

fun take_chars :: "nat \<Rightarrow> string \<Rightarrow> string" where
  "take_chars n [] = []"
| "take_chars n (c # s) =
     (if is_continuation c then c # take_chars n s
      else (case n of 0 \<Rightarrow> [] | Suc m \<Rightarrow> c # take_chars m s))"

definition char_count :: "string \<Rightarrow> nat" where
  "char_count s = length (filter (\<lambda>c. \<not> is_continuation c) s)"

section \<open>Key/value pairs\<close>

definition find_case_insensitive :: "string \<Rightarrow> string \<Rightarrow> nat option" where
  "find_case_insensitive haystack needle =
     find_str (to_ascii_lowercase haystack) (to_ascii_lowercase needle)"

definition is_key_boundary :: "string \<Rightarrow> nat \<Rightarrow> nat \<Rightarrow> bool" where
  "is_key_boundary t key_start key_end =
     (let word = (\<lambda>c. is_ascii_alphanumeric c \<or> c = CHR ''_'');
          head_text = take key_start t; tail_text = drop key_end t in
      \<not> (head_text \<noteq> [] \<and> word (last head_text)) \<and> \<not> (tail_text \<noteq> [] \<and> word (hd tail_text)))"

function skip_whitespace :: "string \<Rightarrow> nat \<Rightarrow> nat" where
  "skip_whitespace t off =
     (if ws_len (drop off t) = 0 then off else skip_whitespace t (off + ws_len (drop off t)))"
  by pat_completeness auto
termination
proof (relation "measure (\<lambda>(t, off). length t - off)", goal_cases)
  case (2 t off)
  then have "off < length t" by (metis drop_all linorder_not_less ws_len_Nil)
  with 2 show ?case by simp
qed simp

declare skip_whitespace.simps [simp del]

definition locate_value_start :: "string \<Rightarrow> nat \<Rightarrow> (nat \<times> char option) option" where
  "locate_value_start t key_end =
     (let c0 = skip_whitespace t key_end;
          c1 = (case drop c0 t of q # _ \<Rightarrow> (if is_quote q then skip_whitespace t (c0 + 1) else c0)
                | [] \<Rightarrow> c0) in
      (case drop c1 t of
         [] \<Rightarrow> None
       | d # _ \<Rightarrow>
          (if d \<noteq> CHR '':'' \<and> d \<noteq> CHR ''='' then None
           else (let c2 = skip_whitespace t (c1 + 1) in
             (case drop c2 t of
                q # _ \<Rightarrow> (if is_quote q then Some (c2 + 1, Some q) else Some (c2, None))
              | [] \<Rightarrow> Some (c2, None))))))"

definition unquoted_stop :: "string \<Rightarrow> bool" where
  "unquoted_stop s \<longleftrightarrow>
     0 < ws_len s \<or> (case s of [] \<Rightarrow> False | c # _ \<Rightarrow> c \<in> set '',;&#}]'' \<or> is_quote c)"

definition scan_unquoted_end :: "string \<Rightarrow> nat \<Rightarrow> nat" where
  "scan_unquoted_end t value_start =
     (case find_at unquoted_stop (drop value_start t) of
        Some i \<Rightarrow> value_start + i
      | None \<Rightarrow> value_start + length (drop value_start t))"

definition scan_line_end :: "string \<Rightarrow> nat \<Rightarrow> nat" where
  "scan_line_end t value_start =
     (case find_at (\<lambda>s. hd s = CHR 0x0D \<or> hd s = CHR 0x0A) (drop value_start t) of
        Some i \<Rightarrow> value_start + i
      | None \<Rightarrow> length t)"

fun quoted_end :: "char \<Rightarrow> bool \<Rightarrow> string \<Rightarrow> nat option" where
  "quoted_end q escaped [] = None"
| "quoted_end q escaped (c # s) =
     (if escaped then map_option Suc (quoted_end q False s)
      else if c = CHR 0x5C then map_option Suc (quoted_end q True s)
      else if c = q then Some 0
      else map_option Suc (quoted_end q False s))"

definition scan_quoted_end :: "string \<Rightarrow> nat \<Rightarrow> char \<Rightarrow> nat" where
  "scan_quoted_end t value_start q =
     (case quoted_end q False (drop value_start t) of
        Some i \<Rightarrow> value_start + i
      | None \<Rightarrow> length t)"

definition authorization_value_end :: "string \<Rightarrow> nat \<Rightarrow> nat \<Rightarrow> nat" where
  "authorization_value_end t value_start first_end =
     (let scheme = take (first_end - value_start) (drop value_start t) in
      if \<not> eq_ignore_ascii_case scheme ''bearer'' \<and> \<not> eq_ignore_ascii_case scheme ''basic''
      then first_end
      else (let credential_start = skip_whitespace t first_end;
                credential_end = scan_unquoted_end t credential_start in
            if credential_start < credential_end then credential_end else first_end))"

definition value_end_for :: "string \<Rightarrow> string \<Rightarrow> nat \<Rightarrow> char option \<Rightarrow> nat" where
  "value_end_for t key value_start value_quote =
     (case value_quote of
        Some q \<Rightarrow> scan_quoted_end t value_start q
      | None \<Rightarrow>
         (if eq_ignore_ascii_case key ''cookie'' then scan_line_end t value_start
          else (let first_end = scan_unquoted_end t value_start in
                if eq_ignore_ascii_case key ''authorization''
                then authorization_value_end t value_start first_end else first_end)))"

lemma skip_whitespace_ge: "off \<le> skip_whitespace t off"
proof (induction t off rule: skip_whitespace.induct)
  case (1 t off)
  then show ?case
    by (subst skip_whitespace.simps) (auto intro: le_trans [OF le_add1])
qed

lemma locate_value_start_gt: "locate_value_start t ke = Some (vs, q) \<Longrightarrow> ke < vs"
proof -
  assume a: "locate_value_start t ke = Some (vs, q)"
  define c0 where "c0 = skip_whitespace t ke"
  define c1 where "c1 = (case drop c0 t of q # _ \<Rightarrow> (if is_quote q then skip_whitespace t (c0 + 1) else c0)
                | [] \<Rightarrow> c0)"
  have "ke \<le> c0" by (simp add: c0_def skip_whitespace_ge)
  also have "c0 \<le> c1"
    using skip_whitespace_ge [of "c0 + 1" t] by (auto simp: c1_def split: list.splits)
  finally have le: "ke \<le> c1" .
  have "c1 + 1 \<le> vs"
    using a skip_whitespace_ge [of "c1 + 1" t]
    unfolding locate_value_start_def Let_def c0_def [symmetric] c1_def [symmetric]
    by (auto split: list.splits if_splits)
  with le show ?thesis by simp
qed

text \<open>
  The loop of \<^verbatim>\<open>redact_key_value\<close>. The keys of \<open>SENSITIVE_KEYS\<close> are not empty; the
  guard on \<open>key\<close> only makes the function total.
\<close>

function redact_key_value_from :: "string \<Rightarrow> nat \<Rightarrow> string \<Rightarrow> string" where
  "redact_key_value_from key off t =
     (if off < length t \<and> key \<noteq> [] then
        (case find_case_insensitive (drop off t) key of
           None \<Rightarrow> t
         | Some rel \<Rightarrow>
            (let key_start = off + rel; key_end = key_start + length key in
             if \<not> is_key_boundary t key_start key_end then redact_key_value_from key key_end t
             else (case locate_value_start t key_end of
                 None \<Rightarrow> redact_key_value_from key key_end t
               | Some (value_start, value_quote) \<Rightarrow>
                  (let value_end = value_end_for t key value_start value_quote in
                   if value_end \<le> value_start
                   then redact_key_value_from key (value_start + 1) t
                   else redact_key_value_from key (value_start + length REDACTED)
                          (take value_start t @ REDACTED @ drop value_end t)))))
      else t)"
  by pat_completeness auto
termination
proof (relation "measure (\<lambda>(key, off, t). length t - off)", goal_cases)
  case 1
  then show ?case by simp
next
  case (2 key off t rel ks ke)
  then have "off < length t" "off < ke" by auto
  then show ?case by (simp add: diff_less_mono2)
next
  case (3 key off t rel ks ke)
  then have "off < length t" "off < ke" by auto
  then show ?case by (simp add: diff_less_mono2)
next
  case (4 key off t rel ks ke p vs q ve)
  then have "ke < vs" by (auto dest: locate_value_start_gt)
  with 4 have "off < length t" "off < vs" by auto
  then show ?case by (simp add: diff_less_mono2)
next
  case (5 key off t rel ks ke p vs q ve)
  then have "ke < vs" by (auto dest: locate_value_start_gt)
  with 5 have "off < length t" "off < ve" by auto
  then have "length t - ve < length t - off" by (rule diff_less_mono2 [rotated])
  moreover have "length (take vs t @ REDACTED @ drop ve t) - (vs + length REDACTED) \<le> length t - ve"
    by simp
  ultimately show ?case by simp
qed

declare redact_key_value_from.simps [simp del]

definition redact_key_value :: "string \<Rightarrow> string \<Rightarrow> string" where
  "redact_key_value t key = redact_key_value_from key 0 t"

section \<open>User information in URLs\<close>

definition authority_stop :: "string \<Rightarrow> bool" where
  "authority_stop s \<longleftrightarrow>
     0 < ws_len s \<or> (case s of [] \<Rightarrow> False | c # _ \<Rightarrow> c = CHR ''/'' \<or> is_quote c)"

function redact_url_userinfo_from :: "nat \<Rightarrow> string \<Rightarrow> string" where
  "redact_url_userinfo_from off t =
     (if off < length t then
        (case find_str (drop off t) ''://'' of
           None \<Rightarrow> t
         | Some rel \<Rightarrow>
            (let authority_start = off + rel + 3;
                 authority_end =
                   (case find_at authority_stop (drop authority_start t) of
                      Some i \<Rightarrow> authority_start + i
                    | None \<Rightarrow> length t) in
             (case find_at (\<lambda>s. hd s = CHR ''@'')
                 (take (authority_end - authority_start) (drop authority_start t)) of
                None \<Rightarrow> redact_url_userinfo_from authority_end t
              | Some at_offset \<Rightarrow>
                 (let at = authority_start + at_offset in
                  if authority_start < at
                  then redact_url_userinfo_from (authority_start + length REDACTED + 1)
                         (take authority_start t @ REDACTED @ drop at t)
                  else redact_url_userinfo_from authority_end t))))
      else t)"
  by pat_completeness auto
termination
proof (relation "measure (\<lambda>(off, t). length t - off)", goal_cases)
  case 1
  then show ?case by simp
next
  case (2 off t rel as ae)
  have "as \<le> length t"
    using find_str_bound [of "drop off t" "''://''" rel] 2 by simp
  with 2 have "off < ae" "off < length t" by (auto split: option.splits)
  then show ?case by (simp add: diff_less_mono2)
next
  case (3 off t rel as ae ato at)
  then have "off < length t" "off < at" by auto
  then have "length t - (at + 1) < length t - off" by (intro diff_less_mono2) auto
  moreover have "length (take as t @ REDACTED @ drop at t) - (as + length REDACTED + 1)
      \<le> length t - (at + 1)"
    by simp
  ultimately show ?case by simp
next
  case (4 off t rel as ae ato at)
  have "as \<le> length t"
    using find_str_bound [of "drop off t" "''://''" rel] 4 by simp
  with 4 have "off < ae" "off < length t" by (auto split: option.splits)
  then show ?case by (simp add: diff_less_mono2)
qed

declare redact_url_userinfo_from.simps [simp del]

definition redact_url_userinfo :: "string \<Rightarrow> string" where
  "redact_url_userinfo t = redact_url_userinfo_from 0 t"

section \<open>Token-like runs\<close>

definition token_character :: "char \<Rightarrow> bool" where
  "token_character c \<longleftrightarrow> is_ascii_alphanumeric c \<or> c = CHR ''_'' \<or> c = CHR ''-''"

text \<open>
  The scan of \<^verbatim>\<open>redact_token_like\<close>: \<open>start\<close> is \<^verbatim>\<open>token_start\<close>; the final
  \<^verbatim>\<open>'\0'\<close> of the source closes a run at the end of the text.
\<close>

fun token_ranges :: "nat \<Rightarrow> nat option \<Rightarrow> bool \<Rightarrow> bool \<Rightarrow> string \<Rightarrow> (nat \<times> nat) list" where
  "token_ranges i start al dg [] =
     (case start of None \<Rightarrow> []
      | Some st \<Rightarrow> if 32 \<le> i - st \<and> al \<and> dg then [(st, i)] else [])"
| "token_ranges i start al dg (c # s) =
     (if token_character c then
        (case start of
           None \<Rightarrow> token_ranges (Suc i) (Some i) (is_ascii_alphabetic c) (is_ascii_digit c) s
         | Some st \<Rightarrow> token_ranges (Suc i) (Some st)
                       (al \<or> is_ascii_alphabetic c) (dg \<or> is_ascii_digit c) s)
      else
        (case start of
           None \<Rightarrow> token_ranges (Suc i) None al dg s
         | Some st \<Rightarrow>
            (if 32 \<le> i - st \<and> al \<and> dg then (st, i) # token_ranges (Suc i) None al dg s
             else token_ranges (Suc i) None al dg s)))"

definition redact_token_like :: "string \<Rightarrow> string call" where
  "redact_token_like t = replace_ranges (token_ranges 0 None False False t) REDACTED t"

section \<open>Sensitive paths\<close>

definition sensitive_prefixes :: "string list" where
  "sensitive_prefixes =
     [''/srv/'', ''/home/'', ''/var/'', ''/root/'', ''/opt/'', ''/etc/'', ''/users/'', ''/private/'']"

definition is_slash :: "char \<Rightarrow> bool" where
  "is_slash c \<longleftrightarrow> c = CHR 0x5C \<or> c = CHR ''/''"

definition is_path_boundary :: "string \<Rightarrow> nat \<Rightarrow> bool" where
  "is_path_boundary t i \<longleftrightarrow>
     i = 0 \<or> (let c = t ! (i - 1) in \<not> is_ascii_alphanumeric c \<and> c \<noteq> CHR ''_'' \<and> \<not> is_slash c)"

definition is_unc_path :: "string \<Rightarrow> nat \<Rightarrow> bool" where
  "is_unc_path t i =
     (if \<not> starts_with (drop i t) [CHR 0x5C, CHR 0x5C] \<or> length t \<le> i + 2 then False
      else (case find_at (\<lambda>s. is_slash (hd s)) (drop (i + 2) t) of
          None \<Rightarrow> False
        | Some sep \<Rightarrow>
           (if sep = 0 then False
            else (let share_start = i + 2 + sep + 1 in
              share_start < length t \<and>
              \<not> (is_slash (t ! share_start) \<or> t ! share_start = CHR '' '' \<or> t ! share_start = CHR 0x09)))))"

definition is_drive_path :: "string \<Rightarrow> nat \<Rightarrow> bool" where
  "is_drive_path t i \<longleftrightarrow>
     i + 2 < length t \<and> is_ascii_alphabetic (t ! i) \<and> t ! (i + 1) = CHR '':'' \<and> is_slash (t ! (i + 2))"

definition path_stop :: "string \<Rightarrow> bool" where
  "path_stop s \<longleftrightarrow>
     0 < ws_len s \<or> (case s of [] \<Rightarrow> False | c # _ \<Rightarrow> c \<in> set '',;&#)]}'' \<or> is_quote c)"

definition path_range_at :: "string \<Rightarrow> nat \<Rightarrow> (nat \<times> nat) option" where
  "path_range_at t i =
     (let unix_path = list_ex (\<lambda>p. starts_with (drop i t) p) sensitive_prefixes in
      if (\<not> is_drive_path t i \<and> \<not> is_unc_path t i \<and> \<not> unix_path) \<or> \<not> is_path_boundary t i then None
      else Some (i, case find_at path_stop (drop i t) of Some r \<Rightarrow> i + r | None \<Rightarrow> length t))"

definition path_ranges :: "string \<Rightarrow> (nat \<times> nat) list" where
  "path_ranges t = List.map_filter (path_range_at t) [0..<length t]"

definition redact_sensitive_paths :: "string \<Rightarrow> string call" where
  "redact_sensitive_paths t = replace_ranges (path_ranges t) PATH_REDACTED t"

section \<open>The whole filter\<close>

definition forbidden_detail :: "string \<Rightarrow> bool" where
  "forbidden_detail v =
     (let lowered = to_ascii_lowercase v in
      contains_str lowered ''prompt'' \<or> contains_str lowered ''chat_metadata''
      \<or> contains_str lowered ''content_original''
      \<or> contains_str lowered [CHR 0x22, CHR ''m'', CHR ''e'', CHR ''s'', CHR 0x22])"

definition redact_detail :: "string \<Rightarrow> string option call" where
  "redact_detail input =
     (if is_blank input then Returns None
      else
        (let v1 = fold (\<lambda>key v. redact_key_value v key) SENSITIVE_KEYS input;
             v2 = redact_url_userinfo v1 in
         bind_call (redact_token_like v2) (\<lambda>v3.
         bind_call (redact_sensitive_paths v3) (\<lambda>v4.
           let value = take_chars 300 v4 in
           Returns (if forbidden_detail value then None
                    else if is_blank value then None else Some value)))))"

section \<open>The token pass rewrites runs\<close>

text \<open>
  A reference definition of the token pass: walk the text once, collect each maximal run of
  token characters and replace the run if it is token-like.
\<close>

definition token_like :: "string \<Rightarrow> bool" where
  "token_like run \<longleftrightarrow>
     32 \<le> length run \<and> list_ex is_ascii_alphabetic run \<and> list_ex is_ascii_digit run"

definition flush_run :: "string \<Rightarrow> string" where
  "flush_run run = (if token_like run then REDACTED else run)"

fun rewrite_runs :: "string \<Rightarrow> string \<Rightarrow> string" where
  "rewrite_runs run [] = flush_run run"
| "rewrite_runs run (c # s) =
     (if token_character c then rewrite_runs (run @ [c]) s
      else flush_run run @ c # rewrite_runs [] s)"

lemma replace_ranges_rev_append:
  "replace_ranges_rev (xs @ ys) r t = bind_call (replace_ranges_rev xs r t) (replace_ranges_rev ys r)"
proof (induction xs r t rule: replace_ranges_rev.induct)
  case (2 a b rs r t)
  then show ?case by (cases "replace_range t a b r") simp_all
qed simp

lemma replace_ranges_Nil [simp]: "replace_ranges [] r t = Returns t"
  by (simp add: replace_ranges_def)

lemma bind_call_Returns [simp]: "bind_call c Returns = c"
  by (cases c) simp_all

lemma replace_ranges_Cons:
  "replace_ranges ((a, b) # rs) r t = bind_call (replace_ranges rs r t) (\<lambda>t'. replace_range t' a b r)"
proof -
  have "replace_ranges_rev [] r = Returns" by (rule ext) simp
  then show ?thesis
    by (cases "replace_ranges_rev (rev rs) r t")
       (simp_all add: replace_ranges_def replace_ranges_rev_append)
qed

text \<open>In UTF-8 text no continuation byte follows an ASCII byte.\<close>

fun ascii_bounded :: "string \<Rightarrow> bool" where
  "ascii_bounded (c # d # s) = ((byte c < 128 \<longrightarrow> \<not> is_continuation d) \<and> ascii_bounded (d # s))"
| "ascii_bounded _ = True"

lemma ascii_bounded_append:
  "ascii_bounded (p @ c # d # s) \<Longrightarrow> byte c < 128 \<Longrightarrow> \<not> is_continuation d"
  by (induction p rule: ascii_bounded.induct) auto

lemma token_character_ascii: "token_character c \<Longrightarrow> byte c < 128"
  by (auto simp: token_character_def is_ascii_alphanumeric_def is_ascii_alphabetic_def
      is_ascii_uppercase_def is_ascii_lowercase_def is_ascii_digit_def)

lemma boundary_ascii: "i < length t \<Longrightarrow> byte (t ! i) < 128 \<Longrightarrow> is_char_boundary t i"
  by (simp add: is_char_boundary_def)

text \<open>Replacing a finished run \<open>run\<close> that is followed by \<open>rest\<close>.\<close>

lemma replace_run:
  assumes "run \<noteq> []" "list_all token_character run"
    and "rest = [] \<or> \<not> is_continuation (hd rest)"
  shows "replace_range (q @ run @ rest) (length q) (length q + length run) r = Returns (q @ r @ rest)"
proof -
  have "is_char_boundary (q @ run @ rest) (length q)"
    using assms(1,2) by (cases run) (auto intro!: boundary_ascii token_character_ascii simp: nth_append)
  moreover have "is_char_boundary (q @ run @ rest) (length q + length run)"
    using assms(3) by (cases rest) (auto simp: is_char_boundary_def is_continuation_def nth_append)
  ultimately show ?thesis by (simp add: replace_range_def)
qed

definition run_start :: "nat \<Rightarrow> string \<Rightarrow> nat option" where
  "run_start i run = (if run = [] then None else Some (i - length run))"

lemma token_pass:
  assumes "ascii_bounded (q @ run @ s)" "list_all token_character run"
    and "run \<noteq> [] \<Longrightarrow> al = list_ex is_ascii_alphabetic run \<and> dg = list_ex is_ascii_digit run"
  shows "replace_ranges (token_ranges (length q + length run) (run_start (length q + length run) run) al dg s)
      REDACTED (q @ run @ s) = Returns (q @ rewrite_runs run s)"
  using assms
proof (induction s arbitrary: q run al dg)
  case Nil
  show ?case
  proof (cases "run = []")
    case True
    then show ?thesis by (simp add: run_start_def flush_run_def token_like_def)
  next
    case False
    with Nil show ?thesis
      using replace_run [of run "[]" q REDACTED]
      by (simp add: run_start_def flush_run_def token_like_def replace_ranges_Cons)
  qed
next
  case (Cons c s)
  show ?case
  proof (cases "token_character c")
    case True
    have IH: "replace_ranges (token_ranges (length q + length (run @ [c]))
        (run_start (length q + length (run @ [c])) (run @ [c])) al' dg' s) REDACTED (q @ (run @ [c]) @ s)
      = Returns (q @ rewrite_runs (run @ [c]) s)"
      if "al' = list_ex is_ascii_alphabetic (run @ [c])" "dg' = list_ex is_ascii_digit (run @ [c])" for al' dg'
      using Cons.prems True that by (intro Cons.IH) auto
    show ?thesis
    proof (cases "run = []")
      case True
      with IH \<open>token_character c\<close> show ?thesis by (simp add: run_start_def)
    next
      case False
      with IH \<open>token_character c\<close> Cons.prems(3) show ?thesis by (simp add: run_start_def)
    qed
  next
    case False
    have "ascii_bounded ((q @ run @ [c]) @ [] @ s)" using Cons.prems(1) by simp
    from Cons.IH [OF this]
    have IH: "replace_ranges (token_ranges (Suc (length q + length run)) None al dg s) REDACTED (q @ run @ c # s)
        = Returns (q @ run @ c # rewrite_runs [] s)" for al dg
      by (simp add: run_start_def)
    show ?thesis
    proof (cases "run = []")
      case True
      with IH False show ?thesis
        by (simp add: run_start_def flush_run_def token_like_def)
    next
      case run: False
      have "\<not> is_continuation c"
        using Cons.prems(1,2) run ascii_bounded_append [of "q @ butlast run"] token_character_ascii
        by (cases run rule: rev_cases) auto
      then have "replace_range (q @ run @ c # rewrite_runs [] s) (length q) (length q + length run) REDACTED
          = Returns (q @ REDACTED @ c # rewrite_runs [] s)"
        using Cons.prems(2) run by (intro replace_run) simp_all
      with IH False run Cons.prems(3) show ?thesis
        by (simp add: run_start_def flush_run_def token_like_def replace_ranges_Cons)
    qed
  qed
qed

lemma redact_token_like_spec:
  "ascii_bounded t \<Longrightarrow> redact_token_like t = Returns (rewrite_runs [] t)"
  using token_pass [of "[]" "[]" t False False]
  by (simp add: redact_token_like_def run_start_def)

lemma token_ranges_run:
  "list_all token_character run \<Longrightarrow>
     token_ranges i (Some st) al dg (run @ rest)
     = token_ranges (i + length run) (Some st) (al \<or> list_ex is_ascii_alphabetic run)
         (dg \<or> list_ex is_ascii_digit run) rest"
  by (induction run arbitrary: i al dg) (auto simp: disj_assoc)

lemma token_ranges_run_None:
  "list_all token_character run \<Longrightarrow> run \<noteq> [] \<Longrightarrow>
     token_ranges i None al dg (run @ rest)
     = token_ranges (i + length run) (Some i) (list_ex is_ascii_alphabetic run)
         (list_ex is_ascii_digit run) rest"
  using token_ranges_run [of "tl run" "Suc i" i] by (cases run) auto

lemma token_ranges_REDACTED:
  "token_ranges i None al dg (REDACTED @ rest) = token_ranges (i + 10) None True False rest"
  by (simp add: REDACTED_def token_character_def is_ascii_alphanumeric_def is_ascii_alphabetic_def
      is_ascii_uppercase_def is_ascii_lowercase_def is_ascii_digit_def eval_nat_numeral)

lemma token_ranges_flush:
  assumes "list_all token_character run" "rest = [] \<or> \<not> token_character (hd rest)"
    and "\<And>i al dg. token_ranges i None al dg (drop 1 rest) = []"
  shows "token_ranges i None al dg (flush_run run @ rest) = []"
proof (cases "token_like run")
  case True
  then show ?thesis
    using assms(2,3) token_ranges_REDACTED [of i al dg "[]"]
    by (cases rest) (simp_all add: flush_run_def token_ranges_REDACTED)
next
  case False
  then show ?thesis
    using assms token_ranges_run_None [OF assms(1), of i al dg rest]
    by (cases rest; cases "run = []") (auto simp: flush_run_def token_like_def)
qed

lemma rewrite_runs_no_tokens:
  "list_all token_character run \<Longrightarrow> token_ranges i None al dg (rewrite_runs run s) = []"
proof (induction s arbitrary: run i al dg)
  case Nil
  then show ?case using token_ranges_flush [of run "[]"] by simp
next
  case (Cons c s)
  then show ?case
    using token_ranges_flush [of run "c # rewrite_runs [] s" i al dg] by simp
qed

lemma char_count_take_chars: "char_count (take_chars n s) \<le> n"
  by (induction n s rule: take_chars.induct) (auto simp: char_count_def split: nat.splits)

section \<open>Properties\<close>

text \<open>C36. The token pass of the redaction filter never panics on UTF-8 text, agrees with the
  run-by-run reference definition, and is complete: its result contains no run of 32 or more
  token characters with a letter and a digit.\<close>

theorem token_redaction_complete:
  assumes "ascii_bounded t"
  shows "redact_token_like t = Returns (rewrite_runs [] t)
    \<and> token_ranges 0 None False False (rewrite_runs [] t) = []"
  using redact_token_like_spec [OF assms] rewrite_runs_no_tokens [of "[]"] by simp

theorem token_redaction_complete_witness:
  "redact_token_like ''key=abcdefghijklmnopqrstuvwxyz0123456789 end'' = Returns ''key=[REDACTED] end''"
proof -
  have "ascii_bounded ''key=abcdefghijklmnopqrstuvwxyz0123456789 end''"
    "rewrite_runs [] ''key=abcdefghijklmnopqrstuvwxyz0123456789 end'' = ''key=[REDACTED] end''"
    by code_simp+
  then show ?thesis
    using token_redaction_complete [of "''key=abcdefghijklmnopqrstuvwxyz0123456789 end''"] by simp
qed

text \<open>A detail that passes the redaction filter has at most 300 characters, is not blank and
  contains none of the markers of prompt or chat content.\<close>

theorem redacted_detail_bounded:
  assumes "redact_detail x = Returns (Some d)"
  shows "char_count d \<le> 300 \<and> \<not> forbidden_detail d \<and> \<not> is_blank d"
  using assms char_count_take_chars [of 300]
  by (auto simp: redact_detail_def Let_def bind_call_Returns_iff split: if_splits)

theorem redacted_detail_bounded_witness:
  "\<exists>d. redact_detail ''token=abc failed'' = Returns (Some d) \<and> d = ''token=[REDACTED] failed''
     \<and> char_count d \<le> 300 \<and> \<not> forbidden_detail d \<and> \<not> is_blank d"
proof -
  have "redact_detail ''token=abc failed'' = Returns (Some ''token=[REDACTED] failed'')" by code_simp
  with redacted_detail_bounded [OF this] show ?thesis by simp
qed

text \<open>C37. The path pass panics when two sensitive paths overlap: if a second path starts inside
  the first, both run to the end of the text and the second is longer than the replacement
  text, then \<^verbatim>\<open>replace_range\<close> is called with an end beyond the shortened text.\<close>

theorem overlapping_paths_panic:
  assumes "path_ranges t = [(a, length t), (b, length t)]" "b + length PATH_REDACTED < length t"
  shows "redact_sensitive_paths t = Panicked"
  using assms
  by (auto simp: redact_sensitive_paths_def replace_ranges_Cons replace_range_def)

theorem overlapping_paths_panic_witness:
  "redact_sensitive_paths ''PATH=/opt/a:/home/user/project/data'' = Panicked"
proof -
  let ?t = "''PATH=/opt/a:/home/user/project/data''"
  have "path_ranges ?t = [(5, length ?t), (12, length ?t)]" "12 + length PATH_REDACTED < length ?t"
    by code_simp+
  then show ?thesis by (rule overlapping_paths_panic)
qed

end
