(* ===== verification/Bridge_Errors.thy ===== *)
theory Bridge_Errors
  imports Bridge_Prelude Redaction
begin

text \<open>
  The error vocabulary of the bridge: \<^verbatim>\<open>src/modules/bridge/errors.rs\<close> (stages, commit
  states, retry actions, the 38 error codes and \<^verbatim>\<open>StBridgeError\<close>) and
  \<^verbatim>\<open>src/error.rs\<close> (\<^verbatim>\<open>AppError\<close> and its HTTP statuses). The two random identifiers
  an error carries come from \<^verbatim>\<open>crate::ids\<close> and are an argument \<open>u\<close> of the
  constructors. A call whose detail redaction panics has the outcome \<open>Panicked\<close>.
\<close>

section \<open>Stages, commit states, retry actions and codes\<close>

datatype st_error_stage =
    Stage_Control
  | Stage_Connect
  | Stage_Session
  | Stage_Catalog
  | Stage_Snapshot
  | Stage_Prompt
  | Stage_Generation
  | Stage_Commit
  | Stage_Delivery

primrec stage_as_str :: "st_error_stage \<Rightarrow> string" where
  "stage_as_str Stage_Control = ''control''"
| "stage_as_str Stage_Connect = ''connect''"
| "stage_as_str Stage_Session = ''session''"
| "stage_as_str Stage_Catalog = ''catalog''"
| "stage_as_str Stage_Snapshot = ''snapshot''"
| "stage_as_str Stage_Prompt = ''prompt''"
| "stage_as_str Stage_Generation = ''generation''"
| "stage_as_str Stage_Commit = ''commit''"
| "stage_as_str Stage_Delivery = ''delivery''"

definition stage_parse :: "string \<Rightarrow> st_error_stage option" where
  "stage_parse v = (
     if v = ''control'' then Some Stage_Control
     else if v = ''connect'' then Some Stage_Connect
     else if v = ''session'' then Some Stage_Session
     else if v = ''catalog'' then Some Stage_Catalog
     else if v = ''snapshot'' then Some Stage_Snapshot
     else if v = ''prompt'' then Some Stage_Prompt
     else if v = ''generation'' then Some Stage_Generation
     else if v = ''commit'' then Some Stage_Commit
     else if v = ''delivery'' then Some Stage_Delivery
     else None)"

datatype commit_state =
    CS_NotStarted
  | CS_NotApplied
  | CS_Applied
  | CS_Unknown

primrec commit_state_as_str :: "commit_state \<Rightarrow> string" where
  "commit_state_as_str CS_NotStarted = ''not_started''"
| "commit_state_as_str CS_NotApplied = ''not_applied''"
| "commit_state_as_str CS_Applied = ''applied''"
| "commit_state_as_str CS_Unknown = ''unknown''"

definition commit_state_parse :: "string \<Rightarrow> commit_state option" where
  "commit_state_parse v = (
     if v = ''not_started'' then Some CS_NotStarted
     else if v = ''not_applied'' then Some CS_NotApplied
     else if v = ''applied'' then Some CS_Applied
     else if v = ''unknown'' then Some CS_Unknown
     else None)"

datatype retry_action =
    RetryDirect
  | RetryExplicit
  | RetryFromLatestSnapshot
  | ReconcileSameOperation
  | RetryDeliveryOnly
  | NoRetry

primrec retry_action_as_str :: "retry_action \<Rightarrow> string" where
  "retry_action_as_str RetryDirect = ''retry_direct''"
| "retry_action_as_str RetryExplicit = ''retry_explicit''"
| "retry_action_as_str RetryFromLatestSnapshot = ''retry_from_latest_snapshot''"
| "retry_action_as_str ReconcileSameOperation = ''reconcile_same_operation''"
| "retry_action_as_str RetryDeliveryOnly = ''retry_delivery_only''"
| "retry_action_as_str NoRetry = ''no_retry''"

datatype st_error_code =
    StConnectFailed
  | StRequestTimeout
  | StCsrfFetchFailed
  | StCsrfMissing
  | StSessionRejected
  | StCharacterListFailed
  | StChatListFailed
  | StChatNotFound
  | StChatPayloadInvalid
  | StSettingsInvalid
  | StGenerateRejected
  | StGenerateRateLimited
  | StGenerateUpstream5xx
  | StGenerateIdleTimeout
  | StGenerateHardTimeout
  | StGenerateStreamInvalid
  | StGenerateEmpty
  | StGenerateStateUnknown
  | StConnectorUnavailable
  | StConnectorAuthFailed
  | StConnectorVersionMismatch
  | StConnectorMediaTypeRejected
  | StWriteNotReady
  | StTestScopeRequired
  | StPollerNotOwner
  | StPollerEpochMismatch
  | StChatLocatorRejected
  | StChatIntegrityMissing
  | StChatConflict
  | StOperationIdReused
  | StBackupFailed
  | StBackupQuotaExceeded
  | StWriteVerifyFailed
  | StCommitPayloadTooLarge
  | StCommitValidationFailed
  | StCommitFailed
  | StCommitStateUnknown
  | StDeliveryFailed

primrec code_as_str :: "st_error_code \<Rightarrow> string" where
  "code_as_str StConnectFailed = ''ST_CONNECT_FAILED''"
| "code_as_str StRequestTimeout = ''ST_REQUEST_TIMEOUT''"
| "code_as_str StCsrfFetchFailed = ''ST_CSRF_FETCH_FAILED''"
| "code_as_str StCsrfMissing = ''ST_CSRF_MISSING''"
| "code_as_str StSessionRejected = ''ST_SESSION_REJECTED''"
| "code_as_str StCharacterListFailed = ''ST_CHARACTER_LIST_FAILED''"
| "code_as_str StChatListFailed = ''ST_CHAT_LIST_FAILED''"
| "code_as_str StChatNotFound = ''ST_CHAT_NOT_FOUND''"
| "code_as_str StChatPayloadInvalid = ''ST_CHAT_PAYLOAD_INVALID''"
| "code_as_str StSettingsInvalid = ''ST_SETTINGS_INVALID''"
| "code_as_str StGenerateRejected = ''ST_GENERATE_REJECTED''"
| "code_as_str StGenerateRateLimited = ''ST_GENERATE_RATE_LIMITED''"
| "code_as_str StGenerateUpstream5xx = ''ST_GENERATE_UPSTREAM_5XX''"
| "code_as_str StGenerateIdleTimeout = ''ST_GENERATE_IDLE_TIMEOUT''"
| "code_as_str StGenerateHardTimeout = ''ST_GENERATE_HARD_TIMEOUT''"
| "code_as_str StGenerateStreamInvalid = ''ST_GENERATE_STREAM_INVALID''"
| "code_as_str StGenerateEmpty = ''ST_GENERATE_EMPTY''"
| "code_as_str StGenerateStateUnknown = ''ST_GENERATE_STATE_UNKNOWN''"
| "code_as_str StConnectorUnavailable = ''ST_CONNECTOR_UNAVAILABLE''"
| "code_as_str StConnectorAuthFailed = ''ST_CONNECTOR_AUTH_FAILED''"
| "code_as_str StConnectorVersionMismatch = ''ST_CONNECTOR_VERSION_MISMATCH''"
| "code_as_str StConnectorMediaTypeRejected = ''ST_CONNECTOR_MEDIA_TYPE_REJECTED''"
| "code_as_str StWriteNotReady = ''ST_WRITE_NOT_READY''"
| "code_as_str StTestScopeRequired = ''ST_TEST_SCOPE_REQUIRED''"
| "code_as_str StPollerNotOwner = ''ST_POLLER_NOT_OWNER''"
| "code_as_str StPollerEpochMismatch = ''ST_POLLER_EPOCH_MISMATCH''"
| "code_as_str StChatLocatorRejected = ''ST_CHAT_LOCATOR_REJECTED''"
| "code_as_str StChatIntegrityMissing = ''ST_CHAT_INTEGRITY_MISSING''"
| "code_as_str StChatConflict = ''ST_CHAT_CONFLICT''"
| "code_as_str StOperationIdReused = ''ST_OPERATION_ID_REUSED''"
| "code_as_str StBackupFailed = ''ST_BACKUP_FAILED''"
| "code_as_str StBackupQuotaExceeded = ''ST_BACKUP_QUOTA_EXCEEDED''"
| "code_as_str StWriteVerifyFailed = ''ST_WRITE_VERIFY_FAILED''"
| "code_as_str StCommitPayloadTooLarge = ''ST_COMMIT_PAYLOAD_TOO_LARGE''"
| "code_as_str StCommitValidationFailed = ''ST_COMMIT_VALIDATION_FAILED''"
| "code_as_str StCommitFailed = ''ST_COMMIT_FAILED''"
| "code_as_str StCommitStateUnknown = ''ST_COMMIT_STATE_UNKNOWN''"
| "code_as_str StDeliveryFailed = ''ST_DELIVERY_FAILED''"

definition code_parse :: "string \<Rightarrow> st_error_code option" where
  "code_parse v = (
     if v = ''ST_CONNECT_FAILED'' then Some StConnectFailed
     else if v = ''ST_REQUEST_TIMEOUT'' then Some StRequestTimeout
     else if v = ''ST_CSRF_FETCH_FAILED'' then Some StCsrfFetchFailed
     else if v = ''ST_CSRF_MISSING'' then Some StCsrfMissing
     else if v = ''ST_SESSION_REJECTED'' then Some StSessionRejected
     else if v = ''ST_CHARACTER_LIST_FAILED'' then Some StCharacterListFailed
     else if v = ''ST_CHAT_LIST_FAILED'' then Some StChatListFailed
     else if v = ''ST_CHAT_NOT_FOUND'' then Some StChatNotFound
     else if v = ''ST_CHAT_PAYLOAD_INVALID'' then Some StChatPayloadInvalid
     else if v = ''ST_SETTINGS_INVALID'' then Some StSettingsInvalid
     else if v = ''ST_GENERATE_REJECTED'' then Some StGenerateRejected
     else if v = ''ST_GENERATE_RATE_LIMITED'' then Some StGenerateRateLimited
     else if v = ''ST_GENERATE_UPSTREAM_5XX'' then Some StGenerateUpstream5xx
     else if v = ''ST_GENERATE_IDLE_TIMEOUT'' then Some StGenerateIdleTimeout
     else if v = ''ST_GENERATE_HARD_TIMEOUT'' then Some StGenerateHardTimeout
     else if v = ''ST_GENERATE_STREAM_INVALID'' then Some StGenerateStreamInvalid
     else if v = ''ST_GENERATE_EMPTY'' then Some StGenerateEmpty
     else if v = ''ST_GENERATE_STATE_UNKNOWN'' then Some StGenerateStateUnknown
     else if v = ''ST_CONNECTOR_UNAVAILABLE'' then Some StConnectorUnavailable
     else if v = ''ST_CONNECTOR_AUTH_FAILED'' then Some StConnectorAuthFailed
     else if v = ''ST_CONNECTOR_VERSION_MISMATCH'' then Some StConnectorVersionMismatch
     else if v = ''ST_CONNECTOR_MEDIA_TYPE_REJECTED'' then Some StConnectorMediaTypeRejected
     else if v = ''ST_WRITE_NOT_READY'' then Some StWriteNotReady
     else if v = ''ST_TEST_SCOPE_REQUIRED'' then Some StTestScopeRequired
     else if v = ''ST_POLLER_NOT_OWNER'' then Some StPollerNotOwner
     else if v = ''ST_POLLER_EPOCH_MISMATCH'' then Some StPollerEpochMismatch
     else if v = ''ST_CHAT_LOCATOR_REJECTED'' then Some StChatLocatorRejected
     else if v = ''ST_CHAT_INTEGRITY_MISSING'' then Some StChatIntegrityMissing
     else if v = ''ST_CHAT_CONFLICT'' then Some StChatConflict
     else if v = ''ST_OPERATION_ID_REUSED'' then Some StOperationIdReused
     else if v = ''ST_BACKUP_FAILED'' then Some StBackupFailed
     else if v = ''ST_BACKUP_QUOTA_EXCEEDED'' then Some StBackupQuotaExceeded
     else if v = ''ST_WRITE_VERIFY_FAILED'' then Some StWriteVerifyFailed
     else if v = ''ST_COMMIT_PAYLOAD_TOO_LARGE'' then Some StCommitPayloadTooLarge
     else if v = ''ST_COMMIT_VALIDATION_FAILED'' then Some StCommitValidationFailed
     else if v = ''ST_COMMIT_FAILED'' then Some StCommitFailed
     else if v = ''ST_COMMIT_STATE_UNKNOWN'' then Some StCommitStateUnknown
     else if v = ''ST_DELIVERY_FAILED'' then Some StDeliveryFailed
     else None)"

lemma stage_parse_iff: "stage_parse v = Some s \<longleftrightarrow> v = stage_as_str s"
  by (cases s) (auto simp: stage_parse_def)

lemma commit_state_parse_iff: "commit_state_parse v = Some s \<longleftrightarrow> v = commit_state_as_str s"
  by (cases s) (auto simp: commit_state_parse_def)

lemma code_parse_as_str: "code_parse (code_as_str c) = Some c"
  by (cases c) (simp_all add: code_parse_def)

lemma code_parse_sound: "code_parse v = Some c \<Longrightarrow> v = code_as_str c"
  unfolding code_parse_def by (elim option_if_SomeE) simp_all

lemma code_parse_iff: "code_parse v = Some c \<longleftrightarrow> v = code_as_str c"
  using code_parse_as_str code_parse_sound by blast

section \<open>StBridgeError\<close>

type_synonym ids = "string \<times> string"

record st_bridge_error =
  err_code :: st_error_code
  err_stage :: st_error_stage
  safe_message :: string
  safe_detail :: "string option"
  upstream_http_status :: "u16 option"
  upstream_code :: "string option"
  endpoint_class :: "string option"
  err_retryable :: bool
  err_commit_state :: commit_state
  err_operation_id :: "string option"
  err_request_id :: string
  err_trace_id :: string
  duration_ms :: "u64 option"
  attempt :: u32

definition st_bridge_error_new ::
    "ids \<Rightarrow> st_error_code \<Rightarrow> st_error_stage \<Rightarrow> string \<Rightarrow> bool \<Rightarrow> commit_state \<Rightarrow> st_bridge_error"
where
  "st_bridge_error_new u c stg msg retry cs =
     \<lparr> err_code = c, err_stage = stg, safe_message = msg, safe_detail = None,
       upstream_http_status = None, upstream_code = None, endpoint_class = None,
       err_retryable = retry, err_commit_state = cs, err_operation_id = None,
       err_request_id = fst u, err_trace_id = snd u, duration_ms = None, attempt = 1 \<rparr>"

definition with_safe_detail :: "st_bridge_error \<Rightarrow> string \<Rightarrow> st_bridge_error call" where
  "with_safe_detail e detail = map_call (\<lambda>d. e\<lparr>safe_detail := d\<rparr>) (redact_detail detail)"

definition retry_action_for :: "st_bridge_error \<Rightarrow> retry_action" where
  "retry_action_for e =
     (let c = err_code e in
      if c = StDeliveryFailed \<and> err_commit_state e = CS_Applied then RetryDeliveryOnly
      else if c = StChatConflict then RetryFromLatestSnapshot
      else if c = StCommitStateUnknown \<or> c = StGenerateStateUnknown then ReconcileSameOperation
      else if \<not> err_retryable e then NoRetry
      else if c \<in> {StConnectFailed, StRequestTimeout, StCharacterListFailed, StChatListFailed}
        then RetryDirect
      else if c \<in> {StGenerateUpstream5xx, StGenerateRateLimited, StGenerateIdleTimeout,
                   StGenerateHardTimeout, StGenerateEmpty, StGenerateStreamInvalid,
                   StCommitFailed, StBackupFailed} then RetryExplicit
      else NoRetry)"

section \<open>AppError\<close>

datatype status_code =
    UNAUTHORIZED | FORBIDDEN | NOT_FOUND | BAD_REQUEST | CONFLICT | GONE
  | TOO_MANY_REQUESTS | SERVICE_UNAVAILABLE | INTERNAL_SERVER_ERROR | BAD_GATEWAY

record app_error =
  app_code :: string
  app_message :: string
  app_status :: status_code
  app_st :: "st_bridge_error option"

type_synonym 'a app_result = "app_error + 'a"
type_synonym 'a st_result = "st_bridge_error + 'a"

definition app_error_new :: "string \<Rightarrow> string \<Rightarrow> status_code \<Rightarrow> app_error" where
  "app_error_new c msg st = \<lparr> app_code = c, app_message = msg, app_status = st, app_st = None \<rparr>"

definition not_found :: "string \<Rightarrow> string \<Rightarrow> app_error" where
  "not_found c msg = app_error_new c msg NOT_FOUND"

definition bad_request :: "string \<Rightarrow> string \<Rightarrow> app_error" where
  "bad_request c msg = app_error_new c msg BAD_REQUEST"

definition conflict :: "string \<Rightarrow> string \<Rightarrow> app_error" where
  "conflict c msg = app_error_new c msg CONFLICT"

definition service_unavailable :: "string \<Rightarrow> string \<Rightarrow> app_error" where
  "service_unavailable c msg = app_error_new c msg SERVICE_UNAVAILABLE"

definition internal :: "string \<Rightarrow> app_error" where
  "internal msg = app_error_new ''INTERNAL_ERROR'' msg INTERNAL_SERVER_ERROR"

definition bad_gateway :: "string \<Rightarrow> string \<Rightarrow> app_error" where
  "bad_gateway c msg = app_error_new c msg BAD_GATEWAY"

lemmas app_error_defs =
  app_error_new_def not_found_def bad_request_def conflict_def service_unavailable_def
  internal_def bad_gateway_def

text \<open>\<^verbatim>\<open>From<sqlx::Error>\<close>: every database failure is the same internal error.\<close>

definition db_error :: app_error where
  "db_error = internal ''database error''"

text \<open>\<^verbatim>\<open>#[error("{code}: {message}")]\<close>.\<close>

definition app_error_to_string :: "app_error \<Rightarrow> string" where
  "app_error_to_string e = app_code e @ '': '' @ app_message e"

definition from_st :: "st_bridge_error \<Rightarrow> app_error" where
  "from_st e =
     \<lparr> app_code = code_as_str (err_code e), app_message = safe_message e,
       app_status =
         (case err_code e of
            StWriteNotReady \<Rightarrow> CONFLICT
          | StChatConflict \<Rightarrow> CONFLICT
          | StChatNotFound \<Rightarrow> NOT_FOUND
          | StGenerateRateLimited \<Rightarrow> TOO_MANY_REQUESTS
          | StSessionRejected \<Rightarrow> FORBIDDEN
          | StCsrfMissing \<Rightarrow> FORBIDDEN
          | StConnectorAuthFailed \<Rightarrow> FORBIDDEN
          | _ \<Rightarrow> if err_retryable e then BAD_GATEWAY else BAD_REQUEST),
       app_st = Some e \<rparr>"

end
