(* ===== verification/St_Domain.thy ===== *)
theory St_Domain
  imports Json_Value Bridge_Errors
begin

text \<open>
  The domain types of \<^verbatim>\<open>src/domain/st.rs\<close> (write modes and the write gate, fences,
  locators, mutations, commits), the persisted locator hash of
  \<^verbatim>\<open>src/domain/locator.rs\<close>, and the process-wide write switch of
  \<^verbatim>\<open>src/st_readiness.rs\<close>. SHA-256 with hex encoding is the argument \<open>sha256_hex\<close>.
\<close>

unbundle bit_operations_syntax

section \<open>Write modes\<close>

datatype st_write_mode = Disabled | ReadOnly | TestWrite | ProductionWrite

primrec mode_repr :: "st_write_mode \<Rightarrow> nat" where
  "mode_repr Disabled = 0"
| "mode_repr ReadOnly = 1"
| "mode_repr TestWrite = 2"
| "mode_repr ProductionWrite = 3"

lemma mode_repr_inject [simp]: "mode_repr a = mode_repr b \<longleftrightarrow> a = b"
  by (cases a; cases b) auto

text \<open>\<^verbatim>\<open>derive(PartialOrd, Ord)\<close>: the order of the discriminants.\<close>

instantiation st_write_mode :: linorder
begin

definition less_eq_st_write_mode :: "st_write_mode \<Rightarrow> st_write_mode \<Rightarrow> bool" where
  "less_eq_st_write_mode a b \<longleftrightarrow> mode_repr a \<le> mode_repr b"

definition less_st_write_mode :: "st_write_mode \<Rightarrow> st_write_mode \<Rightarrow> bool" where
  "less_st_write_mode a b \<longleftrightarrow> mode_repr a < mode_repr b"

instance
  by standard (auto simp: less_eq_st_write_mode_def less_st_write_mode_def)

end

lemmas mode_order = less_eq_st_write_mode_def less_st_write_mode_def

definition allows_write :: "st_write_mode \<Rightarrow> bool" where
  "allows_write m \<longleftrightarrow> m = TestWrite \<or> m = ProductionWrite"

definition allows_read :: "st_write_mode \<Rightarrow> bool" where
  "allows_read m \<longleftrightarrow> m \<noteq> Disabled"

definition write_mode_parse :: "string \<Rightarrow> st_write_mode option" where
  "write_mode_parse v =
     (let t = trim v in
      if t = ''disabled'' then Some Disabled
      else if t = ''read_only'' then Some ReadOnly
      else if t = ''test_write'' then Some TestWrite
      else if t = ''production_write'' then Some ProductionWrite
      else None)"

definition effective :: "st_write_mode \<Rightarrow> st_write_mode \<Rightarrow> st_write_mode" where
  "effective m connector = min m connector"

record write_facts =
  handshake_valid :: bool
  profile_matches :: bool
  integrity_enabled :: bool
  ownership_valid :: bool
  approved_locator :: bool
  connector_created_test :: bool
  test_name_prefix :: bool

definition check_write :: "st_write_mode \<Rightarrow> write_facts \<Rightarrow> string + unit" where
  "check_write m facts =
     (if m < TestWrite then Inl ''ST_WRITE_NOT_READY''
      else if \<not> (handshake_valid facts \<and> profile_matches facts \<and> integrity_enabled facts
                 \<and> ownership_valid facts \<and> approved_locator facts)
        then Inl ''ST_WRITE_PREFLIGHT_REJECTED''
      else if m = TestWrite \<and> \<not> (connector_created_test facts \<and> test_name_prefix facts)
        then Inl ''ST_TEST_SCOPE_REQUIRED''
      else Inr ())"

datatype st_write_scope = TestChat | ProductionChat

primrec scope_mode :: "st_write_scope \<Rightarrow> st_write_mode" where
  "scope_mode TestChat = TestWrite"
| "scope_mode ProductionChat = ProductionWrite"

record handshake_response =
  hs_version :: string
  hs_handle :: string
  hs_profile :: string
  hs_connector_mode :: st_write_mode
  hs_scopes :: "st_write_scope list"
  hs_snapshot :: bool
  hs_integrity_enabled :: bool
  hs_typed_mutations :: bool
  hs_integrity_rotation :: bool
  hs_operation_replay :: bool
  hs_durable_write :: bool
  handshake_at_unix :: i64
  expires_at_unix :: i64

definition is_valid_at :: "handshake_response \<Rightarrow> i64 \<Rightarrow> bool" where
  "is_valid_at h now_unix \<longleftrightarrow>
     \<not> is_blank (hs_version h) \<and> \<not> is_blank (hs_handle h) \<and> \<not> is_blank (hs_profile h)
     \<and> handshake_at_unix h > 0 \<and> expires_at_unix h > handshake_at_unix h
     \<and> now_unix \<ge> handshake_at_unix h \<and> now_unix < expires_at_unix h"

definition supports_scope :: "handshake_response \<Rightarrow> st_write_scope \<Rightarrow> bool" where
  "supports_scope h sc \<longleftrightarrow> sc \<in> set (hs_scopes h)"

record st_capabilities =
  cap_mode :: st_write_mode
  cap_snapshot :: bool
  cap_typed_mutations :: bool
  cap_integrity_rotation :: bool
  cap_operation_replay :: bool

record st_status =
  available :: bool
  st_version :: "string option"
  st_handle :: string
  capabilities :: st_capabilities

definition write_ready :: "st_status \<Rightarrow> bool" where
  "write_ready s \<longleftrightarrow>
     allows_write (cap_mode (capabilities s)) \<and> cap_snapshot (capabilities s)
     \<and> cap_typed_mutations (capabilities s) \<and> cap_integrity_rotation (capabilities s)
     \<and> cap_operation_replay (capabilities s)"

section \<open>Locators, fences, mutations and commits\<close>

record st_chat_locator =
  loc_handle :: string
  loc_avatar :: string
  loc_character_name :: string
  loc_chat_file :: string

definition locator_encoding :: "string \<Rightarrow> string \<Rightarrow> string \<Rightarrow> string" where
  "locator_encoding handle avatar chat_file =
     concat (map length_prefixed [handle, avatar, chat_file])"

definition locator_hash :: "(string \<Rightarrow> string) \<Rightarrow> string \<Rightarrow> string \<Rightarrow> string \<Rightarrow> string" where
  "locator_hash sha256_hex handle avatar chat_file =
     sha256_hex (locator_encoding handle avatar chat_file)"

record poller_runtime_fence =
  fence_telegram_bot_id :: i64
  fence_owner :: string
  fence_epoch :: u64
  fence_internal_bot_id :: string
  fence_runtime_instance_id :: string

definition fence_is_valid :: "poller_runtime_fence \<Rightarrow> bool" where
  "fence_is_valid f \<longleftrightarrow>
     fence_telegram_bot_id f > 0 \<and> fence_owner f = ''rust_bridge'' \<and> fence_epoch f > 0
     \<and> \<not> is_blank (fence_internal_bot_id f) \<and> \<not> is_blank (fence_runtime_instance_id f)"

record st_chat_message =
  msg_name :: string
  msg_is_user :: bool
  msg_mes :: string
  msg_send_date :: "string option"
  msg_extra :: "(string \<times> json) list"

record st_compression_extra_patch =
  display_text :: "string option"
  compressed :: "bool option"

record st_message_patch =
  patch_index :: u32
  expected_message_sha256 :: string
  patch_mes :: "string option"
  patch_extra :: "st_compression_extra_patch option"

datatype st_mutation =
    AppendTurn st_chat_message st_chat_message
  | UndoLastTurn string string
  | ReplaceLastAssistant string st_chat_message
  | CompressMessages "st_message_patch list"

record create_st_chat =
  cr_operation_id :: string
  cr_locator :: st_chat_locator
  cr_opening_message :: json
  cr_scope :: st_write_scope
  cr_fence :: poller_runtime_fence

record commit_st_chat =
  co_operation_id :: string
  co_locator :: st_chat_locator
  co_expected_sha256 :: string
  co_expected_integrity :: string
  co_mutation :: st_mutation
  co_fence :: poller_runtime_fence

datatype st_commit_status = SC_Applied | SC_AlreadyApplied | SC_NotApplied | SC_Unknown

record st_commit_result =
  res_status :: st_commit_status
  res_new_sha256 :: "string option"
  res_new_integrity :: "string option"
  res_byte_length :: "u64 option"
  res_message_count :: "u64 option"

record st_chat_snapshot =
  snap_locator :: st_chat_locator
  parsed_chat :: "json list"
  source_sha256 :: string
  source_integrity :: string
  source_byte_length :: u64
  source_message_count :: u64

text \<open>\<^verbatim>\<open>BridgeOperationOrigin\<close> of \<^verbatim>\<open>src/seams/st_bridge_engine.rs\<close>.\<close>

record bridge_operation_origin =
  or_internal_bot_id :: string
  or_telegram_update_id :: i64
  or_channel_context_key :: string

definition origin_is_valid :: "bridge_operation_origin \<Rightarrow> bool" where
  "origin_is_valid og \<longleftrightarrow>
     \<not> is_blank (or_internal_bot_id og) \<and> or_telegram_update_id og > 0
     \<and> \<not> is_blank (or_channel_context_key og)"

section \<open>The process-wide write switch\<close>

record st_write_readiness =
  backend_connected :: bool
  write_enabled :: bool

definition readiness_frozen :: st_write_readiness where
  "readiness_frozen = \<lparr> backend_connected = False, write_enabled = False \<rparr>"

definition can_write :: "st_write_readiness \<Rightarrow> bool" where
  "can_write r \<longleftrightarrow> backend_connected r \<and> write_enabled r"

text \<open>The stored byte: bit 0 is the connection, bit 1 the write capability.\<close>

definition readiness_store :: "bool \<Rightarrow> bool \<Rightarrow> 8 word" where
  "readiness_store connected enabled = of_bool connected OR push_bit 1 (of_bool enabled)"

definition readiness_current :: "8 word \<Rightarrow> st_write_readiness" where
  "readiness_current w =
     \<lparr> backend_connected = (w AND 1 \<noteq> 0), write_enabled = (w AND 2 \<noteq> 0) \<rparr>"

definition ST_WRITE_NOT_READY_MESSAGE :: string where
  "ST_WRITE_NOT_READY_MESSAGE =
     ''ST backend '' @ utf8_encode [26410, 25509, 20837, 65292, 32842, 22825, 21151, 33021,
     24050, 20923, 32467, 65292, 26412, 27425, 26410, 20889, 20837] @ '' SillyTavern''
     @ utf8_encode [12290]"

definition readiness_require_write :: "st_write_readiness \<Rightarrow> unit app_result" where
  "readiness_require_write r =
     (if can_write r then Inr ()
      else Inl (app_error_new ''ST_WRITE_NOT_READY'' ST_WRITE_NOT_READY_MESSAGE CONFLICT))"

definition require_write :: "8 word \<Rightarrow> unit app_result" where
  "require_write w = readiness_require_write (readiness_current w)"

section \<open>Lemmas\<close>

lemma readiness_roundtrip:
  "readiness_current (readiness_store a b) = \<lparr> backend_connected = a, write_enabled = b \<rparr>"
  by (cases a; cases b) (simp_all add: readiness_current_def readiness_store_def)

lemma check_write_Inr:
  "check_write m facts = Inr () \<longleftrightarrow>
     (m = TestWrite \<and> connector_created_test facts \<and> test_name_prefix facts \<or> m = ProductionWrite)
     \<and> handshake_valid facts \<and> profile_matches facts \<and> integrity_enabled facts
     \<and> ownership_valid facts \<and> approved_locator facts"
  by (cases m) (auto simp: check_write_def mode_order)

lemma check_write_mono:
  assumes "m \<le> m'" "check_write m facts = Inr ()"
  shows "check_write m' facts = Inr ()"
  using assms by (cases m; cases m') (auto simp: check_write_Inr mode_order)

lemma effective_le: "effective m c \<le> m" "effective m c \<le> c"
  by (simp_all add: effective_def)

lemma locator_encoding_inj:
  assumes "length h < 2 ^ 64" "length a < 2 ^ 64" "length f < 2 ^ 64"
    and "length h' < 2 ^ 64" "length a' < 2 ^ 64" "length f' < 2 ^ 64"
    and "locator_encoding h a f = locator_encoding h' a' f'"
  shows "h = h' \<and> a = a' \<and> f = f'"
proof -
  have "[h, a, f] = [h', a', f'] \<and> ([] :: string) = []"
    using assms
    by (intro length_prefixed_parts_inj) (simp_all only: list.pred_inject locator_encoding_def
        append_Nil2 simp_thms list.size)
  then show ?thesis by simp
qed

section \<open>Properties\<close>

text \<open>The write gate opens exactly when the mode in force, the weaker of the bridge's and the
  connector's, allows writing and every precondition holds: a valid handshake, a matching
  profile, integrity, ownership and an approved locator, and in test mode also a test chat
  created by the connector. Strengthening a mode never closes the gate.\<close>

theorem write_gate_exact:
  "(check_write (effective m c) facts = Inr () \<longleftrightarrow>
     allows_write m \<and> allows_write c
     \<and> handshake_valid facts \<and> profile_matches facts \<and> integrity_enabled facts
     \<and> ownership_valid facts \<and> approved_locator facts
     \<and> (m = TestWrite \<or> c = TestWrite \<longrightarrow> connector_created_test facts \<and> test_name_prefix facts))
   \<and> (check_write (effective m c) facts = Inr () \<and> m \<le> m' \<longrightarrow> check_write (effective m' c) facts = Inr ())"
proof -
  have "effective m c \<le> effective m' c" if "m \<le> m'"
    using that by (auto simp: effective_def min_def)
  moreover have "check_write (effective m c) facts = Inr () \<longleftrightarrow>
     allows_write m \<and> allows_write c
     \<and> handshake_valid facts \<and> profile_matches facts \<and> integrity_enabled facts
     \<and> ownership_valid facts \<and> approved_locator facts
     \<and> (m = TestWrite \<or> c = TestWrite \<longrightarrow> connector_created_test facts \<and> test_name_prefix facts)"
    unfolding check_write_Inr effective_def
    by (cases m; cases c) (auto simp: min_def mode_order allows_write_def)
  ultimately show ?thesis using check_write_mono by blast
qed

theorem write_gate_exact_witness:
  "check_write (effective ProductionWrite TestWrite)
     \<lparr> handshake_valid = True, profile_matches = True, integrity_enabled = True, ownership_valid = True,
       approved_locator = True, connector_created_test = True, test_name_prefix = True \<rparr> = Inr ()"
  using write_gate_exact by (simp add: allows_write_def)

text \<open>The process-wide write switch keeps both facts in one byte without loss, and writing is
  admitted exactly when the backend is connected and write capable.\<close>

theorem write_switch_roundtrip:
  "readiness_current (readiness_store a b) = \<lparr> backend_connected = a, write_enabled = b \<rparr>
   \<and> (require_write (readiness_store a b) = Inr () \<longleftrightarrow> a \<and> b)"
  by (simp add: readiness_roundtrip require_write_def readiness_require_write_def can_write_def)

end
