(* ===== verification/Operations.thy ===== *)
theory Operations
  imports St_Domain
begin

text \<open>
  \<^verbatim>\<open>src/modules/bridge/operations.rs\<close>: the life cycle of a bridge operation (its status
  machine and its commit state), the typed recovery payload and its validation, and the
  additional authenticated data that binds an encrypted payload to its operation.
\<close>

section \<open>Kinds and statuses\<close>

definition KIND_SEND :: string where [str_defs]: "KIND_SEND = ''send''"
definition KIND_UNDO :: string where [str_defs]: "KIND_UNDO = ''undo''"
definition KIND_REVOKE :: string where [str_defs]: "KIND_REVOKE = ''revoke''"
definition KIND_START :: string where [str_defs]: "KIND_START = ''start''"
definition KIND_REGENERATE :: string where [str_defs]: "KIND_REGENERATE = ''regenerate''"
definition KIND_COMPRESS :: string where [str_defs]: "KIND_COMPRESS = ''compress''"

datatype bridge_operation_status =
    Received
  | SnapshotReady
  | Generating
  | Generated
  | Committing
  | Committed
  | Delivered
  | Conflict
  | Failed
  | Interrupted

primrec status_as_str :: "bridge_operation_status \<Rightarrow> string" where
  "status_as_str Received = ''received''"
| "status_as_str SnapshotReady = ''snapshot_ready''"
| "status_as_str Generating = ''generating''"
| "status_as_str Generated = ''generated''"
| "status_as_str Committing = ''committing''"
| "status_as_str Committed = ''committed''"
| "status_as_str Delivered = ''delivered''"
| "status_as_str Conflict = ''conflict''"
| "status_as_str Failed = ''failed''"
| "status_as_str Interrupted = ''interrupted''"

definition status_parse :: "string \<Rightarrow> bridge_operation_status option" where
  "status_parse v = (
     if v = ''received'' then Some Received
     else if v = ''snapshot_ready'' then Some SnapshotReady
     else if v = ''generating'' then Some Generating
     else if v = ''generated'' then Some Generated
     else if v = ''committing'' then Some Committing
     else if v = ''committed'' then Some Committed
     else if v = ''delivered'' then Some Delivered
     else if v = ''conflict'' then Some Conflict
     else if v = ''failed'' then Some Failed
     else if v = ''interrupted'' then Some Interrupted
     else None)"

definition is_terminal :: "bridge_operation_status \<Rightarrow> bool" where
  "is_terminal s \<longleftrightarrow> s \<in> {Delivered, Conflict, Failed, Interrupted}"

fun can_transition_to :: "bridge_operation_status \<Rightarrow> bridge_operation_status \<Rightarrow> bool" where
  "can_transition_to Received SnapshotReady = True"
| "can_transition_to SnapshotReady Generating = True"
| "can_transition_to SnapshotReady Generated = True"
| "can_transition_to Generating Generated = True"
| "can_transition_to Generated Committing = True"
| "can_transition_to Committing Committed = True"
| "can_transition_to Committed Delivered = True"
| "can_transition_to Received Failed = True"
| "can_transition_to SnapshotReady Failed = True"
| "can_transition_to Generating Failed = True"
| "can_transition_to Generating Interrupted = True"
| "can_transition_to Generated Failed = True"
| "can_transition_to Committing Conflict = True"
| "can_transition_to Committing Failed = True"
| "can_transition_to Committing Interrupted = True"
| "can_transition_to _ _ = False"

definition transition ::
    "bridge_operation_status \<Rightarrow> bridge_operation_status \<Rightarrow> bridge_operation_status app_result"
where
  "transition s nxt =
     (if can_transition_to s nxt then Inr nxt
      else Inl (conflict ''BRIDGE_OPERATION_INVALID_TRANSITION''
             (''cannot transition from '' @ status_as_str s @ '' to '' @ status_as_str nxt)))"

datatype operation_commit_state = OCS_NotStarted | OCS_NotApplied | OCS_Applied | OCS_Unknown

primrec ocs_as_str :: "operation_commit_state \<Rightarrow> string" where
  "ocs_as_str OCS_NotStarted = ''not_started''"
| "ocs_as_str OCS_NotApplied = ''not_applied''"
| "ocs_as_str OCS_Applied = ''applied''"
| "ocs_as_str OCS_Unknown = ''unknown''"

definition ocs_parse :: "string \<Rightarrow> operation_commit_state option" where
  "ocs_parse v = (
     if v = ''not_started'' then Some OCS_NotStarted
     else if v = ''not_applied'' then Some OCS_NotApplied
     else if v = ''applied'' then Some OCS_Applied
     else if v = ''unknown'' then Some OCS_Unknown
     else None)"

section \<open>Recovery payloads\<close>

record recovery_snapshot =
  rp_mutation :: st_mutation
  rp_expected_sha256 :: string
  rp_expected_integrity :: string
  rp_fence :: poller_runtime_fence

text \<open>The four mutation variants of the enum carry the same four fields.\<close>

datatype operation_recovery_payload =
    RP_Append recovery_snapshot
  | RP_Replace recovery_snapshot
  | RP_Undo recovery_snapshot
  | RP_Create create_st_chat
  | RP_Compress recovery_snapshot

primrec payload_mutation :: "operation_recovery_payload \<Rightarrow> st_mutation option" where
  "payload_mutation (RP_Append p) = Some (rp_mutation p)"
| "payload_mutation (RP_Replace p) = Some (rp_mutation p)"
| "payload_mutation (RP_Undo p) = Some (rp_mutation p)"
| "payload_mutation (RP_Compress p) = Some (rp_mutation p)"
| "payload_mutation (RP_Create c) = None"

primrec payload_fence :: "operation_recovery_payload \<Rightarrow> poller_runtime_fence" where
  "payload_fence (RP_Create c) = cr_fence c"
| "payload_fence (RP_Append p) = rp_fence p"
| "payload_fence (RP_Replace p) = rp_fence p"
| "payload_fence (RP_Undo p) = rp_fence p"
| "payload_fence (RP_Compress p) = rp_fence p"

definition identity_missing :: "recovery_snapshot \<Rightarrow> bool" where
  "identity_missing p \<longleftrightarrow> is_blank (rp_expected_sha256 p) \<or> is_blank (rp_expected_integrity p)"

definition snapshot_identity_required :: "recovery_snapshot \<Rightarrow> unit app_result" where
  "snapshot_identity_required p =
     (if identity_missing p
      then Inl (bad_request ''PAYLOAD_RECOVERY_INVALID'' ''recovery snapshot identity is required'')
      else Inr ())"

definition recovery_kind_invalid :: app_error where
  "recovery_kind_invalid =
     bad_request ''PAYLOAD_RECOVERY_INVALID'' ''recovery payload mutation kind is not allowed''"

definition validate_payload :: "operation_recovery_payload \<Rightarrow> unit app_result" where
  "validate_payload p =
     (if \<not> fence_is_valid (payload_fence p)
      then Inl (bad_request ''PAYLOAD_FENCE_INVALID''
                  ''operation recovery payload runtime fence is invalid'')
      else
        (case p of
           RP_Create c \<Rightarrow>
             if is_blank (cr_operation_id c)
             then Inl (bad_request ''PAYLOAD_RECOVERY_INVALID'' ''create operation id is required'')
             else Inr ()
         | RP_Append q \<Rightarrow>
             (case rp_mutation q of AppendTurn _ _ \<Rightarrow> snapshot_identity_required q
              | _ \<Rightarrow> Inl recovery_kind_invalid)
         | RP_Replace q \<Rightarrow>
             (case rp_mutation q of ReplaceLastAssistant _ _ \<Rightarrow> snapshot_identity_required q
              | _ \<Rightarrow> Inl recovery_kind_invalid)
         | RP_Undo q \<Rightarrow>
             (case rp_mutation q of UndoLastTurn _ _ \<Rightarrow> snapshot_identity_required q
              | _ \<Rightarrow> Inl recovery_kind_invalid)
         | RP_Compress q \<Rightarrow>
             (case rp_mutation q of CompressMessages _ \<Rightarrow> snapshot_identity_required q
              | _ \<Rightarrow> Inl recovery_kind_invalid)))"

section \<open>Authenticated data\<close>

record operation_aad =
  aad_version :: u16
  aad_operation_id :: string
  aad_locator_hash :: string
  aad_operation_kind :: string
  aad_actor_id :: string
  aad_bot_id :: string
  aad_runtime_fence :: "poller_runtime_fence option"

definition aad_new :: "string \<Rightarrow> string \<Rightarrow> string \<Rightarrow> string \<Rightarrow> string \<Rightarrow> operation_aad" where
  "aad_new oid lhash kind actor bot_id =
     \<lparr> aad_version = 1, aad_operation_id = oid, aad_locator_hash = lhash,
       aad_operation_kind = kind, aad_actor_id = actor, aad_bot_id = bot_id,
       aad_runtime_fence = None \<rparr>"

definition aad_new_with_fence ::
    "string \<Rightarrow> string \<Rightarrow> string \<Rightarrow> string \<Rightarrow> poller_runtime_fence \<Rightarrow> operation_aad" where
  "aad_new_with_fence oid lhash kind actor fence =
     (aad_new oid lhash kind actor (fence_internal_bot_id fence))
       \<lparr> aad_runtime_fence := Some fence \<rparr>"

definition AAD_DOMAIN :: string where
  "AAD_DOMAIN = ''im-bridge/operation-payload'' @ [char_of (0::nat)]"

definition aad_parts :: "operation_aad \<Rightarrow> string list" where
  "aad_parts a =
     [aad_operation_id a, aad_locator_hash a, aad_operation_kind a, aad_actor_id a, aad_bot_id a]"

definition fence_parts :: "poller_runtime_fence \<Rightarrow> string list" where
  "fence_parts f =
     [int_to_string (fence_telegram_bot_id f), fence_owner f,
      nat_to_string (unat (fence_epoch f)), fence_internal_bot_id f,
      fence_runtime_instance_id f]"

primrec fence_suffix :: "poller_runtime_fence option \<Rightarrow> string" where
  "fence_suffix None = []"
| "fence_suffix (Some f) = concat (map length_prefixed (fence_parts f))"

definition aad_encode :: "operation_aad \<Rightarrow> string" where
  "aad_encode a =
     AAD_DOMAIN @ be_bytes 2 (unat (aad_version a))
       @ concat (map length_prefixed (aad_parts a))
       @ fence_suffix (aad_runtime_fence a)"

section \<open>Records\<close>

record encrypted_operation_payload =
  ep_ciphertext :: string
  ep_nonce :: string
  ep_key_version :: u32

record bridge_operation_record =
  rec_id :: string
  rec_actor_id :: string
  rec_bot_id :: string
  rec_telegram_update_id :: i64
  rec_channel_context_key :: string
  rec_operation_kind :: string
  rec_locator :: st_chat_locator
  rec_status :: bridge_operation_status
  rec_commit_state :: operation_commit_state
  rec_source_sha256 :: "string option"
  rec_source_integrity :: "string option"
  rec_source_size :: "i64 option"
  rec_message_count :: "i64 option"
  rec_mutation_digest :: "string option"
  rec_payload :: "encrypted_operation_payload option"
  rec_connector_result_json :: "string option"
  rec_error_stage :: "string option"
  rec_error_code :: "string option"
  rec_error_summary :: "string option"
  rec_retryable :: bool
  rec_attempt_count :: u32
  rec_request_id :: string
  rec_trace_id :: string
  rec_created_at :: string
  rec_updated_at :: string

definition record_aad :: "bridge_operation_record \<Rightarrow> string \<Rightarrow> operation_aad" where
  "record_aad r lhash =
     aad_new (rec_id r) lhash (rec_operation_kind r) (rec_actor_id r) (rec_bot_id r)"

section \<open>Lemmas\<close>

lemma status_parse_iff: "status_parse v = Some s \<longleftrightarrow> v = status_as_str s"
  by (cases s) (auto simp: status_parse_def)

lemma ocs_parse_iff: "ocs_parse v = Some s \<longleftrightarrow> v = ocs_as_str s"
  by (cases s) (auto simp: ocs_parse_def)

lemma status_parse_as_str [simp]: "status_parse (status_as_str s) = Some s"
  by (simp add: status_parse_iff)

lemma ocs_parse_as_str [simp]: "ocs_parse (ocs_as_str s) = Some s"
  by (simp add: ocs_parse_iff)

lemma status_as_str_inject [simp]: "status_as_str s = status_as_str t \<longleftrightarrow> s = t"
  using status_parse_iff by (metis option.inject)

lemma ocs_as_str_inject [simp]: "ocs_as_str s = ocs_as_str t \<longleftrightarrow> s = t"
  using ocs_parse_iff by (metis option.inject)

text \<open>A rank that every transition increases: the machine has no cycle.\<close>

primrec status_rank :: "bridge_operation_status \<Rightarrow> nat" where
  "status_rank Received = 0"
| "status_rank SnapshotReady = 1"
| "status_rank Generating = 2"
| "status_rank Generated = 3"
| "status_rank Committing = 4"
| "status_rank Committed = 5"
| "status_rank Delivered = 6"
| "status_rank Conflict = 6"
| "status_rank Failed = 6"
| "status_rank Interrupted = 6"

lemma can_transition_rank: "can_transition_to s t \<Longrightarrow> status_rank s < status_rank t"
  by (induction s t rule: can_transition_to.induct) auto

lemma terminal_no_transition: "is_terminal s \<longleftrightarrow> (\<forall>t. \<not> can_transition_to s t)"
proof
  assume "is_terminal s"
  then show "\<forall>t. \<not> can_transition_to s t" by (auto simp: is_terminal_def)
next
  assume no: "\<forall>t. \<not> can_transition_to s t"
  show "is_terminal s"
    using no [rule_format, of Failed] no [rule_format, of Delivered]
    by (cases s) (auto simp: is_terminal_def)
qed

inductive status_path :: "bridge_operation_status \<Rightarrow> bridge_operation_status \<Rightarrow> bool" where
  path_refl: "status_path s s"
| path_step: "status_path s t \<Longrightarrow> can_transition_to t u \<Longrightarrow> status_path s u"

lemma status_path_rank: "status_path s t \<Longrightarrow> s = t \<or> status_rank s < status_rank t"
  by (induction rule: status_path.induct) (auto dest: can_transition_rank)

lemma status_path_terminal: "status_path s t \<Longrightarrow> is_terminal s \<Longrightarrow> t = s"
  by (induction rule: status_path.induct) (auto simp: terminal_no_transition)

text \<open>A payload that passes validation carries the mutation its tag announces.\<close>

lemma validate_payload_Inr:
  "validate_payload p = Inr () \<longleftrightarrow>
     fence_is_valid (payload_fence p) \<and>
     (case p of
        RP_Create c \<Rightarrow> \<not> is_blank (cr_operation_id c)
      | RP_Append q \<Rightarrow> (\<exists>u a. rp_mutation q = AppendTurn u a) \<and> \<not> identity_missing q
      | RP_Replace q \<Rightarrow> (\<exists>d a. rp_mutation q = ReplaceLastAssistant d a) \<and> \<not> identity_missing q
      | RP_Undo q \<Rightarrow> (\<exists>d e. rp_mutation q = UndoLastTurn d e) \<and> \<not> identity_missing q
      | RP_Compress q \<Rightarrow> (\<exists>ps. rp_mutation q = CompressMessages ps) \<and> \<not> identity_missing q)"
  by (auto simp: validate_payload_def snapshot_identity_required_def
      split: operation_recovery_payload.splits st_mutation.splits)

text \<open>The encoding of the authenticated data is injective on parts of realistic length.\<close>

definition short_parts :: "string list \<Rightarrow> bool" where
  "short_parts ps \<longleftrightarrow> list_all (\<lambda>p. length p < 2 ^ 64) ps"

definition aad_short :: "operation_aad \<Rightarrow> bool" where
  "aad_short a \<longleftrightarrow> short_parts (aad_parts a)
     \<and> (case aad_runtime_fence a of None \<Rightarrow> True | Some f \<Rightarrow> short_parts (fence_parts f))"

lemma fence_parts_inj: "fence_parts f = fence_parts g \<Longrightarrow> f = g"
proof -
  assume eq: "fence_parts f = fence_parts g"
  then have "fence_telegram_bot_id f = fence_telegram_bot_id g"
    and "fence_epoch f = fence_epoch g"
    by (auto simp: fence_parts_def unsigned_word_eqI dest: int_to_string_inj nat_to_string_inj)
  with eq show "f = g"
    by (cases f; cases g) (simp add: fence_parts_def)
qed

lemma length_fence_suffix_Some: "fence_suffix (Some f) \<noteq> []"
proof -
  have "length_prefixed p \<noteq> []" for p
    using length_length_prefixed [of p] by auto
  then show ?thesis by (simp add: fence_parts_def)
qed

lemma fence_suffix_inj:
  assumes "case x of None \<Rightarrow> True | Some f \<Rightarrow> short_parts (fence_parts f)"
    and "case y of None \<Rightarrow> True | Some f \<Rightarrow> short_parts (fence_parts f)"
    and "fence_suffix x = fence_suffix y"
  shows "x = y"
proof (cases x; cases y)
  fix f g
  assume fg: "x = Some f" "y = Some g"
  have "fence_parts f = fence_parts g \<and> ([] :: string) = []"
    using assms unfolding fg short_parts_def
    by (intro length_prefixed_parts_inj) (simp_all only: option.case fence_suffix.simps
        fence_parts_def list.size append_Nil2)
  then show "x = y" using fg fence_parts_inj by simp
qed (use assms length_fence_suffix_Some in \<open>metis fence_suffix.simps(1)\<close>)+

lemma aad_encode_inj_parts:
  assumes short: "aad_short a" "aad_short b" and eq: "aad_encode a = aad_encode b"
  shows "a = b"
proof -
  let ?body = "\<lambda>x. concat (map length_prefixed (aad_parts x)) @ fence_suffix (aad_runtime_fence x)"
  from eq have "be_bytes 2 (unat (aad_version a)) @ ?body a = be_bytes 2 (unat (aad_version b)) @ ?body b"
    by (simp only: aad_encode_def same_append_eq)
  then have ver: "be_bytes 2 (unat (aad_version a)) = be_bytes 2 (unat (aad_version b))"
    and rest: "?body a = ?body b"
    by (simp_all only: append_eq_append_conv length_be_bytes simp_thms)
  have "unat (aad_version a) < 256 ^ 2" "unat (aad_version b) < 256 ^ 2"
    using unsigned_less [of "aad_version a"] unsigned_less [of "aad_version b"] by simp_all
  with ver have v: "aad_version a = aad_version b"
    using be_bytes_inj unsigned_word_eqI by blast
  have "aad_parts a = aad_parts b \<and> fence_suffix (aad_runtime_fence a) = fence_suffix (aad_runtime_fence b)"
    using short rest unfolding aad_short_def short_parts_def
    by (intro length_prefixed_parts_inj) (simp_all only: aad_parts_def list.size)
  moreover from this have "aad_runtime_fence a = aad_runtime_fence b"
    using short by (intro fence_suffix_inj) (simp_all only: aad_short_def)
  ultimately show ?thesis
    using v by (cases a; cases b) (simp add: aad_parts_def)
qed

section \<open>Properties\<close>

text \<open>The status machine of an operation has no cycles and its terminal statuses are exactly
  the dead ends: two statuses that can reach each other are equal, and a status is terminal if
  and only if it can reach nothing but itself.\<close>

theorem status_machine_acyclic:
  "(status_path s t \<and> status_path t s \<longleftrightarrow> s = t) \<and> (is_terminal s \<longleftrightarrow> (\<forall>u. status_path s u \<longrightarrow> u = s))"
proof
  show "status_path s t \<and> status_path t s \<longleftrightarrow> s = t"
    using status_path_rank [of s t] status_path_rank [of t s] by (auto intro: path_refl)
  show "is_terminal s \<longleftrightarrow> (\<forall>u. status_path s u \<longrightarrow> u = s)"
  proof
    show "is_terminal s \<Longrightarrow> \<forall>u. status_path s u \<longrightarrow> u = s" by (auto dest: status_path_terminal)
    assume only: "\<forall>u. status_path s u \<longrightarrow> u = s"
    have "\<not> can_transition_to s u" for u
      using only path_step [OF path_refl] can_transition_rank by (metis less_irrefl)
    then show "is_terminal s" by (simp add: terminal_no_transition)
  qed
qed

theorem status_machine_acyclic_witness:
  "is_terminal Delivered \<and> status_path Delivered Delivered \<and> \<not> status_path Delivered Received
   \<and> {u. status_path Delivered u} = {Delivered}"
  using status_machine_acyclic [of Delivered Delivered] by (auto simp: is_terminal_def)

end
