(* ===== verification/Operation_Store.thy ===== *)
theory Operation_Store
  imports Operations
begin

text \<open>
  \<^verbatim>\<open>src/modules/bridge/operation_store.rs\<close>: the durable ledger of bridge operations, its
  wrapped-key references and its execution leases. The database is the record \<open>op_db\<close> of
  the tables the store touches, with the constraints of the migrations
  (\<^verbatim>\<open>migrations/0004_st_sidecar.sql\<close> and
  \<^verbatim>\<open>migrations/202609060001_final_operation_recovery.sql\<close>). Each SQL statement consumes
  one entry of \<open>faults\<close>; a statement whose entry is \<open>True\<close> fails without effect, as a
  SQLite statement that returns an error does. Clock readings (\<^verbatim>\<open>now_rfc3339\<close>) and fresh
  identifiers (\<^verbatim>\<open>new_id\<close>) are arguments.
\<close>

named_theorems store_defs \<open>definitions of the store operations\<close>

section \<open>Tables\<close>

record operation_row =
  op_id :: string
  op_actor_id :: string
  op_bot_id :: string
  op_telegram_update_id :: i64
  op_channel_context_key :: string
  op_operation_kind :: string
  op_st_handle :: "string option"
  op_st_character_avatar :: "string option"
  op_st_chat_file :: "string option"
  op_status :: string
  op_source_sha256 :: "string option"
  op_source_integrity :: "string option"
  op_source_size :: "i64 option"
  op_message_count :: "i64 option"
  op_payload_ciphertext :: "string option"
  op_payload_nonce :: "string option"
  op_payload_key_version :: "i64 option"
  op_mutation_digest :: "string option"
  op_connector_result_json :: "string option"
  op_error_stage :: "string option"
  op_error_code :: "string option"
  op_error_summary :: "string option"
  op_retryable :: i64
  op_commit_state :: string
  op_attempt_count :: i64
  op_request_id :: "string option"
  op_trace_id :: "string option"
  op_created_at :: string
  op_updated_at :: string

record key_ref_row =
  kr_operation_id :: string
  kr_wrapped_secret_id :: string
  kr_key_version :: i64
  kr_created_at :: string
  kr_updated_at :: string

record lease_row =
  le_operation_id :: string
  le_instance_id :: string
  le_generation :: i64
  le_until :: string
  le_created_at :: string
  le_updated_at :: string

record op_db =
  ops :: "operation_row list"
  key_refs :: "key_ref_row list"
  leases :: "lease_row list"
  account_ids :: "string list"
  bot_ids :: "string list"
  secret_ids :: "string list"
  faults :: "bool list"

record claim_operation_request =
  cl_id :: string
  cl_actor_id :: string
  cl_bot_id :: string
  cl_telegram_update_id :: i64
  cl_channel_context_key :: string
  cl_operation_kind :: string
  cl_locator :: st_chat_locator
  cl_request_id :: string
  cl_trace_id :: string

record operation_key_reference =
  ref_wrapped_secret_id :: string
  ref_key_version :: u32

record operation_execution_lease =
  lease_operation_id :: string
  lease_instance_id :: string
  lease_generation :: u64
  lease_until :: string

datatype operation_claim_error =
    DuplicateClaim bridge_operation_record
  | ClaimFailed app_error

definition confirmed_commit :: "operation_claim_error \<Rightarrow> bool" where
  "confirmed_commit e \<longleftrightarrow>
     (case e of
        DuplicateClaim r \<Rightarrow>
          rec_status r \<in> {Committed, Delivered} \<and> rec_commit_state r = OCS_Applied
      | ClaimFailed _ \<Rightarrow> False)"

section \<open>Statements\<close>

type_synonym ('e, 'a) store_m = "op_db \<Rightarrow> ('e + 'a) \<times> op_db"

definition store_return :: "'a \<Rightarrow> ('e, 'a) store_m" where
  "store_return a db = (Inr a, db)"

definition store_lift :: "'e + 'a \<Rightarrow> ('e, 'a) store_m" where
  "store_lift r db = (r, db)"

definition store_bind :: "('e, 'a) store_m \<Rightarrow> ('a \<Rightarrow> ('e, 'b) store_m) \<Rightarrow> ('e, 'b) store_m" where
  "store_bind m f db = (case m db of (Inl e, db') \<Rightarrow> (Inl e, db') | (Inr a, db') \<Rightarrow> f a db')"

definition store_map_err :: "('e \<Rightarrow> 'f) \<Rightarrow> ('e, 'a) store_m \<Rightarrow> ('f, 'a) store_m" where
  "store_map_err g m db = (case m db of (r, db') \<Rightarrow> (map_err g r, db'))"

text \<open>Why a statement failed: a constraint violation or any other database error.\<close>

datatype sql_error = UniqueViolation | OtherSqlError

definition sql_stmt :: "(op_db \<Rightarrow> (sql_error + 'a) \<times> op_db) \<Rightarrow> (sql_error, 'a) store_m" where
  "sql_stmt body db =
     (case faults db of
        [] \<Rightarrow> body db
      | f # fs \<Rightarrow>
          if f then (Inl OtherSqlError, db\<lparr>faults := fs\<rparr>) else body (db\<lparr>faults := fs\<rparr>))"

definition app_sql :: "(sql_error, 'a) store_m \<Rightarrow> (app_error, 'a) store_m" where
  "app_sql m = store_map_err (\<lambda>_. db_error) m"

text \<open>\<^verbatim>\<open>UPDATE bridge_operations SET f WHERE P\<close> and its \<^verbatim>\<open>rows_affected\<close>.\<close>

definition update_ops ::
    "(op_db \<Rightarrow> operation_row \<Rightarrow> bool) \<Rightarrow> (operation_row \<Rightarrow> operation_row) \<Rightarrow> (app_error, nat) store_m"
where
  "update_ops P f = app_sql (sql_stmt (\<lambda>db.
     let (rs, n) = sql_update (P db) f (ops db) in (Inr n, db\<lparr>ops := rs\<rparr>)))"

definition select_ops ::
    "(operation_row \<Rightarrow> bool) \<Rightarrow> (app_error, operation_row list) store_m" where
  "select_ops P = app_sql (sql_stmt (\<lambda>db. (Inr (filter P (ops db)), db)))"

definition u32_try_from :: "i64 \<Rightarrow> u32 option" where
  "u32_try_from i = (if 0 \<le> i \<and> i < 2 ^ 32 then Some (of_int i) else None)"

definition u64_try_from :: "i64 \<Rightarrow> u64 option" where
  "u64_try_from i = (if 0 \<le> i then Some (of_int i) else None)"

definition i64_try_from :: "u64 \<Rightarrow> i64 option" where
  "i64_try_from w = (if uint w \<le> i64_max then Some (uint w) else None)"

section \<open>Rows and records\<close>

fun map_payload ::
    "string option \<Rightarrow> string option \<Rightarrow> i64 option \<Rightarrow> encrypted_operation_payload option app_result"
where
  "map_payload None None None = Inr None"
| "map_payload (Some ct) (Some nonce) (Some kv) =
     (if length nonce \<noteq> 24
      then Inl (internal ''operation payload nonce has invalid length'')
      else
        (case u32_try_from kv of
           None \<Rightarrow> Inl (internal ''operation payload key_version is invalid'')
         | Some k \<Rightarrow> Inr (Some \<lparr> ep_ciphertext = ct, ep_nonce = nonce, ep_key_version = k \<rparr>)))"
| "map_payload _ _ _ =
     Inl (internal ''operation payload ciphertext/nonce/key_version are inconsistent'')"

definition unwrap_or_default :: "string option \<Rightarrow> string" where
  "unwrap_or_default s = (case s of None \<Rightarrow> [] | Some x \<Rightarrow> x)"

definition into_record :: "operation_row \<Rightarrow> bridge_operation_record app_result" where
  "into_record r =
     bind_r (ok_or (internal (''unknown bridge operation status '' @ op_status r))
               (status_parse (op_status r))) (\<lambda>st.
     bind_r (ok_or (internal (''unknown bridge operation commit_state '' @ op_commit_state r))
               (ocs_parse (op_commit_state r))) (\<lambda>cs.
     bind_r (map_payload (op_payload_ciphertext r) (op_payload_nonce r)
               (op_payload_key_version r)) (\<lambda>pl.
     bind_r (ok_or (internal ''operation attempt count is invalid'')
               (u32_try_from (op_attempt_count r))) (\<lambda>att.
     Inr \<lparr> rec_id = op_id r, rec_actor_id = op_actor_id r, rec_bot_id = op_bot_id r,
           rec_telegram_update_id = op_telegram_update_id r,
           rec_channel_context_key = op_channel_context_key r,
           rec_operation_kind = op_operation_kind r,
           rec_locator =
             \<lparr> loc_handle = unwrap_or_default (op_st_handle r),
               loc_avatar = unwrap_or_default (op_st_character_avatar r),
               loc_character_name = [],
               loc_chat_file = unwrap_or_default (op_st_chat_file r) \<rparr>,
           rec_status = st, rec_commit_state = cs,
           rec_source_sha256 = op_source_sha256 r,
           rec_source_integrity = op_source_integrity r,
           rec_source_size = op_source_size r, rec_message_count = op_message_count r,
           rec_mutation_digest = op_mutation_digest r, rec_payload = pl,
           rec_connector_result_json = op_connector_result_json r,
           rec_error_stage = op_error_stage r, rec_error_code = op_error_code r,
           rec_error_summary = op_error_summary r, rec_retryable = (op_retryable r \<noteq> 0),
           rec_attempt_count = att,
           rec_request_id = unwrap_or_default (op_request_id r),
           rec_trace_id = unwrap_or_default (op_trace_id r),
           rec_created_at = op_created_at r, rec_updated_at = op_updated_at r \<rparr>))))"

definition matches_claim :: "bridge_operation_record \<Rightarrow> claim_operation_request \<Rightarrow> bool" where
  "matches_claim r q \<longleftrightarrow>
     (is_blank (cl_id q) \<or> rec_id r = cl_id q)
     \<and> rec_actor_id r = cl_actor_id q
     \<and> rec_bot_id r = cl_bot_id q
     \<and> rec_telegram_update_id r = cl_telegram_update_id q
     \<and> rec_channel_context_key r = cl_channel_context_key q
     \<and> rec_operation_kind r = cl_operation_kind q
     \<and> loc_handle (rec_locator r) = loc_handle (cl_locator q)
     \<and> loc_avatar (rec_locator r) = loc_avatar (cl_locator q)
     \<and> loc_chat_file (rec_locator r) = loc_chat_file (cl_locator q)"

section \<open>Reads\<close>

definition first_record ::
    "operation_row list \<Rightarrow> bridge_operation_record option app_result" where
  "first_record rs = (case rs of [] \<Rightarrow> Inr None | r # _ \<Rightarrow> map_ok Some (into_record r))"

definition get_operation ::
    "string \<Rightarrow> (app_error, bridge_operation_record option) store_m" where [store_defs]:
  "get_operation i =
     store_bind (select_ops (\<lambda>r. op_id r = i)) (\<lambda>rs. store_lift (first_record rs))"

definition get_by_claim ::
    "string \<Rightarrow> i64 \<Rightarrow> string \<Rightarrow> (app_error, bridge_operation_record option) store_m"
where [store_defs]:
  "get_by_claim b u k =
     store_bind
       (select_ops (\<lambda>r. op_bot_id r = b \<and> op_telegram_update_id r = u \<and> op_operation_kind r = k))
       (\<lambda>rs. store_lift (first_record rs))"

text \<open>\<^verbatim>\<open>ORDER BY created_at ASC, id ASC\<close>: two stable sorts.\<close>

definition order_by_created :: "operation_row list \<Rightarrow> operation_row list" where
  "order_by_created rs = sort_key op_created_at (sort_key op_id rs)"

definition order_by_updated :: "operation_row list \<Rightarrow> operation_row list" where
  "order_by_updated rs = sort_key op_updated_at (sort_key op_id rs)"

definition list_by_status ::
    "bridge_operation_status \<Rightarrow> (app_error, bridge_operation_record list) store_m" where
  "list_by_status st =
     store_bind (select_ops (\<lambda>r. op_status r = status_as_str st))
       (\<lambda>rs. store_lift (collect_results into_record (order_by_created rs)))"

definition list_unknown_commits :: "(app_error, bridge_operation_record list) store_m" where
  "list_unknown_commits =
     store_bind (select_ops (\<lambda>r. op_status r = ''committing'' \<and> op_commit_state r = ''unknown''))
       (\<lambda>rs. store_lift (collect_results into_record (order_by_created rs)))"

definition recovery_candidate :: "string \<Rightarrow> operation_row \<Rightarrow> bool" where
  "recovery_candidate b r \<longleftrightarrow>
     op_bot_id r = b
     \<and> (op_status r \<in> {''generated'', ''committing''}
        \<or> op_status r = ''committed'' \<and> op_commit_state r = ''applied'')"

text \<open>\<^verbatim>\<open>limit.clamp(1, 256)\<close> always fits an \<^verbatim>\<open>i64\<close>.\<close>

definition list_recovery_candidates_for_bot ::
    "string \<Rightarrow> nat \<Rightarrow> (app_error, bridge_operation_record list) store_m" where
  "list_recovery_candidates_for_bot b limit =
     (if is_blank b
      then store_lift (Inl (bad_request ''OPERATION_BOT_ID_REQUIRED''
                              ''operation recovery bot id is required''))
      else
        store_bind (select_ops (recovery_candidate b))
          (\<lambda>rs. store_lift (collect_results into_record
                  (take (max 1 (min 256 limit)) (order_by_updated rs)))))"

definition dry_run_retention_cleanup :: "string \<Rightarrow> (app_error, string list) store_m" where
  "dry_run_retention_cleanup cutoff =
     store_bind
       (select_ops (\<lambda>r. op_status r = ''delivered'' \<and> op_commit_state r = ''applied''
                        \<and> op_created_at r < cutoff))
       (\<lambda>rs. store_return (map op_id (order_by_created rs)))"

definition assert_cas ::
    "nat \<Rightarrow> string \<Rightarrow> string \<Rightarrow> string \<Rightarrow> (app_error, bridge_operation_record) store_m" where
  "assert_cas affected i expected_from expected_to =
     (if affected \<noteq> 1
      then store_lift (Inl (conflict ''BRIDGE_OPERATION_CAS_CONFLICT''
             (''operation '' @ i @ '' rejected transition '' @ expected_from @ '' -> ''
              @ expected_to)))
      else
        store_bind (get_operation i)
          (\<lambda>r. store_lift (ok_or (internal ''operation missing after cas update'') r)))"

section \<open>Claims\<close>

definition claim_key :: "string \<Rightarrow> i64 \<Rightarrow> string \<Rightarrow> string" where
  "claim_key b u k = b @ '':'' @ int_to_string u @ '':'' @ k"

text \<open>
  One turn of the loop of \<^verbatim>\<open>acquire_in_process\<close> on the set of keys held in this process
  (\<open>None\<close>: the key is held, the task yields and tries again), and the guard's \<^verbatim>\<open>drop\<close>.
\<close>

definition acquire_in_process :: "string \<Rightarrow> string set \<Rightarrow> string set option" where
  "acquire_in_process k held = (if k \<in> held then None else Some (insert k held))"

definition drop_in_process :: "string \<Rightarrow> string set \<Rightarrow> string set" where
  "drop_in_process k held = held - {k}"

definition claimed_row ::
    "string \<Rightarrow> string \<Rightarrow> claim_operation_request \<Rightarrow> operation_row" where
  "claimed_row now i q =
     \<lparr> op_id = i, op_actor_id = cl_actor_id q, op_bot_id = cl_bot_id q,
       op_telegram_update_id = cl_telegram_update_id q,
       op_channel_context_key = cl_channel_context_key q,
       op_operation_kind = cl_operation_kind q,
       op_st_handle = Some (loc_handle (cl_locator q)),
       op_st_character_avatar = Some (loc_avatar (cl_locator q)),
       op_st_chat_file = Some (loc_chat_file (cl_locator q)),
       op_status = ''received'', op_source_sha256 = None, op_source_integrity = None,
       op_source_size = None, op_message_count = None, op_payload_ciphertext = None,
       op_payload_nonce = None, op_payload_key_version = None, op_mutation_digest = None,
       op_connector_result_json = None, op_error_stage = None, op_error_code = None,
       op_error_summary = None, op_retryable = 0, op_commit_state = ''not_started'',
       op_attempt_count = 1, op_request_id = Some (cl_request_id q),
       op_trace_id = Some (cl_trace_id q), op_created_at = now, op_updated_at = now \<rparr>"

text \<open>
  The \<^verbatim>\<open>INSERT\<close>: the primary key and \<^verbatim>\<open>UNIQUE (bot_id, telegram_update_id, operation_kind)\<close>
  are checked per row, the foreign keys at the end of the statement.
\<close>

definition op_claim :: "operation_row \<Rightarrow> string \<times> i64 \<times> string" where
  "op_claim r = (op_bot_id r, op_telegram_update_id r, op_operation_kind r)"

definition insert_operation :: "operation_row \<Rightarrow> (sql_error, unit) store_m" where
  "insert_operation row = sql_stmt (\<lambda>db.
     if op_id row \<in> op_id ` set (ops db) \<or> op_claim row \<in> op_claim ` set (ops db)
     then (Inl UniqueViolation, db)
     else if op_actor_id row \<notin> set (account_ids db) \<or> op_bot_id row \<notin> set (bot_ids db)
     then (Inl OtherSqlError, db)
     else (Inr (), db\<lparr>ops := ops db @ [row]\<rparr>))"

definition claim_operation ::
    "string \<Rightarrow> string \<Rightarrow> claim_operation_request
      \<Rightarrow> (operation_claim_error, bridge_operation_record) store_m" where
  "claim_operation now fresh_id q db =
     (let i = (if is_blank (cl_id q) then fresh_id else cl_id q) in
      case insert_operation (claimed_row now i q) db of
        (Inr _, db1) \<Rightarrow>
          store_bind (store_map_err ClaimFailed (get_operation i))
            (\<lambda>r. store_lift (ok_or (ClaimFailed
                    (internal ''claimed operation missing after insert'')) r)) db1
      | (Inl UniqueViolation, db1) \<Rightarrow>
          store_bind (store_map_err ClaimFailed
              (get_by_claim (cl_bot_id q) (cl_telegram_update_id q) (cl_operation_kind q)))
            (\<lambda>r. case r of
                None \<Rightarrow> store_lift (Inl (ClaimFailed (conflict ''BRIDGE_OPERATION_DUPLICATE_CLAIM''
                    ''duplicate claim unique constraint fired but existing row was not found'')))
              | Some existing \<Rightarrow>
                  if \<not> matches_claim existing q
                  then store_lift (Inl (ClaimFailed (conflict ''ST_OPERATION_ID_REUSED''
                         ''operation identity does not match the existing claim'')))
                  else store_lift (Inl (DuplicateClaim existing))) db1
      | (Inl OtherSqlError, db1) \<Rightarrow> (Inl (ClaimFailed db_error), db1))"

section \<open>Compare-and-set updates\<close>

definition update_snapshot_ready ::
    "string \<Rightarrow> string \<Rightarrow> string option \<Rightarrow> string option \<Rightarrow> i64 option \<Rightarrow> i64 option
      \<Rightarrow> (app_error, bridge_operation_record) store_m" where [store_defs]:
  "update_snapshot_ready now i sha integ sz count =
     store_bind
       (update_ops
          (\<lambda>db r. op_id r = i \<and> op_status r = ''received'' \<and> op_commit_state r = ''not_started'')
          (\<lambda>r. r\<lparr> op_status := ''snapshot_ready'', op_source_sha256 := sha,
                  op_source_integrity := integ, op_source_size := sz,
                  op_message_count := count, op_updated_at := now \<rparr>))
       (\<lambda>n. assert_cas n i ''received'' ''snapshot_ready'')"

definition update_generating ::
    "string \<Rightarrow> string \<Rightarrow> (app_error, bridge_operation_record) store_m" where [store_defs]:
  "update_generating now i =
     store_bind
       (update_ops
          (\<lambda>db r. op_id r = i \<and> op_status r = ''snapshot_ready'' \<and> op_commit_state r = ''not_started'')
          (\<lambda>r. r\<lparr> op_status := ''generating'', op_updated_at := now \<rparr>))
       (\<lambda>n. assert_cas n i ''snapshot_ready'' ''generating'')"

definition update_generated ::
    "string \<Rightarrow> string \<Rightarrow> encrypted_operation_payload \<Rightarrow> string
      \<Rightarrow> (app_error, bridge_operation_record) store_m" where [store_defs]:
  "update_generated now i pl digest =
     store_bind
       (update_ops
          (\<lambda>db r. op_id r = i \<and> op_status r \<in> {''snapshot_ready'', ''generating''}
             \<and> op_commit_state r = ''not_started''
             \<and> list_ex (\<lambda>k. kr_operation_id k = op_id r
                            \<and> kr_key_version k = uint (ep_key_version pl)) (key_refs db))
          (\<lambda>r. r\<lparr> op_status := ''generated'', op_payload_ciphertext := Some (ep_ciphertext pl),
                  op_payload_nonce := Some (ep_nonce pl),
                  op_payload_key_version := Some (uint (ep_key_version pl)),
                  op_mutation_digest := Some digest, op_updated_at := now \<rparr>))
       (\<lambda>n. assert_cas n i ''snapshot_ready|generating'' ''generated'')"

definition mark_committing ::
    "string \<Rightarrow> string \<Rightarrow> (app_error, bridge_operation_record) store_m" where [store_defs]:
  "mark_committing now i =
     store_bind
       (update_ops
          (\<lambda>db r. op_id r = i \<and> op_status r = ''generated'' \<and> op_commit_state r = ''not_started'')
          (\<lambda>r. r\<lparr> op_status := ''committing'', op_updated_at := now \<rparr>))
       (\<lambda>n. assert_cas n i ''generated'' ''committing'')"

definition mark_committed_with_state ::
    "string \<Rightarrow> string \<Rightarrow> string \<Rightarrow> operation_commit_state
      \<Rightarrow> (app_error, bridge_operation_record) store_m" where [store_defs]:
  "mark_committed_with_state now i result_json expected =
     store_bind
       (update_ops
          (\<lambda>db r. op_id r = i \<and> op_status r = ''committing'' \<and> op_commit_state r = ocs_as_str expected)
          (\<lambda>r. r\<lparr> op_status := ''committed'', op_commit_state := ''applied'',
                  op_connector_result_json := Some result_json, op_updated_at := now \<rparr>))
       (\<lambda>n. assert_cas n i (''committing/'' @ ocs_as_str expected) ''committed/applied'')"

definition mark_committed ::
    "string \<Rightarrow> string \<Rightarrow> string \<Rightarrow> (app_error, bridge_operation_record) store_m" where
  "mark_committed now i result_json = mark_committed_with_state now i result_json OCS_NotStarted"

definition mark_delivered ::
    "string \<Rightarrow> string \<Rightarrow> (app_error, bridge_operation_record) store_m" where [store_defs]:
  "mark_delivered now i =
     store_bind
       (update_ops
          (\<lambda>db r. op_id r = i \<and> op_status r = ''committed'' \<and> op_commit_state r = ''applied'')
          (\<lambda>r. r\<lparr> op_status := ''delivered'', op_updated_at := now \<rparr>))
       (\<lambda>n. assert_cas n i ''committed'' ''delivered'')"

definition mark_conflict ::
    "string \<Rightarrow> string \<Rightarrow> string \<Rightarrow> (app_error, bridge_operation_record) store_m" where [store_defs]:
  "mark_conflict now i summary =
     store_bind
       (update_ops
          (\<lambda>db r. op_id r = i \<and> op_status r = ''committing'' \<and> op_commit_state r = ''not_started'')
          (\<lambda>r. r\<lparr> op_status := ''conflict'', op_error_stage := Some ''commit'',
                  op_error_code := Some ''ST_CHAT_CONFLICT'', op_error_summary := Some summary,
                  op_commit_state := ''not_applied'', op_updated_at := now \<rparr>))
       (\<lambda>n. assert_cas n i ''committing'' ''conflict'')"

definition mark_failed_with_state ::
    "string \<Rightarrow> string \<Rightarrow> string \<Rightarrow> string \<Rightarrow> string \<Rightarrow> bool \<Rightarrow> operation_commit_state
      \<Rightarrow> (app_error, bridge_operation_record) store_m" where [store_defs]:
  "mark_failed_with_state now i stg code summary retry cs =
     store_bind
       (update_ops
          (\<lambda>db r. op_id r = i
             \<and> op_status r \<in> {''received'', ''snapshot_ready'', ''generating'', ''generated'', ''committing''}
             \<and> op_commit_state r = ''not_started'')
          (\<lambda>r. r\<lparr> op_status := ''failed'', op_error_stage := Some stg,
                  op_error_code := Some code, op_error_summary := Some summary,
                  op_retryable := of_bool retry, op_commit_state := ocs_as_str cs,
                  op_updated_at := now \<rparr>))
       (\<lambda>n. assert_cas n i ''pre-commit'' ''failed'')"

definition mark_failed ::
    "string \<Rightarrow> string \<Rightarrow> string \<Rightarrow> string \<Rightarrow> string \<Rightarrow> bool
      \<Rightarrow> (app_error, bridge_operation_record) store_m" where
  "mark_failed now i stg code summary retry =
     mark_failed_with_state now i stg code summary retry OCS_NotStarted"

definition mark_interrupted ::
    "string \<Rightarrow> string \<Rightarrow> (app_error, bridge_operation_record) store_m" where [store_defs]:
  "mark_interrupted now i =
     store_bind
       (update_ops
          (\<lambda>db r. op_id r = i \<and> op_status r = ''generating'' \<and> op_commit_state r = ''not_started'')
          (\<lambda>r. r\<lparr> op_status := ''interrupted'', op_updated_at := now \<rparr>))
       (\<lambda>n. assert_cas n i ''generating'' ''interrupted'')"

definition mark_commit_unknown ::
    "string \<Rightarrow> string \<Rightarrow> (app_error, bridge_operation_record) store_m" where [store_defs]:
  "mark_commit_unknown now i =
     store_bind
       (update_ops
          (\<lambda>db r. op_id r = i \<and> op_status r = ''committing'' \<and> op_commit_state r = ''not_started'')
          (\<lambda>r. r\<lparr> op_commit_state := ''unknown'', op_updated_at := now \<rparr>))
       (\<lambda>n. assert_cas n i ''committing'' ''committing(unknown)'')"

definition interrupt_stale_generating ::
    "string \<Rightarrow> string \<Rightarrow> (app_error, string list) store_m" where
  "interrupt_stale_generating now cutoff = app_sql (sql_stmt (\<lambda>db.
     let stale = (\<lambda>r. op_status r = ''generating'' \<and> op_updated_at r < cutoff) in
     (Inr (map op_id (filter stale (ops db))),
      db\<lparr>ops := fst (sql_update stale
            (\<lambda>r. r\<lparr> op_status := ''interrupted'', op_updated_at := now \<rparr>) (ops db))\<rparr>)))"

section \<open>Key references and leases\<close>

definition get_operation_key_reference ::
    "string \<Rightarrow> (app_error, operation_key_reference option) store_m" where
  "get_operation_key_reference i =
     store_bind (app_sql (sql_stmt (\<lambda>db. (Inr (find (\<lambda>k. kr_operation_id k = i) (key_refs db)), db))))
       (\<lambda>row. store_lift (case row of
            None \<Rightarrow> Inr None
          | Some k \<Rightarrow>
              if is_blank (kr_wrapped_secret_id k)
              then Inl (internal ''operation wrapped secret reference is invalid'')
              else bind_r (ok_or (internal ''operation key version is invalid'')
                             (u32_try_from (kr_key_version k))) (\<lambda>v.
                   if v = 0 then Inl (internal ''operation key version is invalid'')
                   else Inr (Some \<lparr> ref_wrapped_secret_id = kr_wrapped_secret_id k,
                                    ref_key_version = v \<rparr>))))"

definition insert_key_ref :: "key_ref_row \<Rightarrow> (sql_error, nat) store_m" where
  "insert_key_ref row = sql_stmt (\<lambda>db.
     if kr_operation_id row \<in> kr_operation_id ` set (key_refs db) then (Inr 0, db)
     else if kr_operation_id row \<notin> op_id ` set (ops db)
       \<or> kr_wrapped_secret_id row \<notin> set (secret_ids db) then (Inl OtherSqlError, db)
     else (Inr 1, db\<lparr>key_refs := key_refs db @ [row]\<rparr>))"

definition put_operation_key_reference ::
    "string \<Rightarrow> string \<Rightarrow> string \<Rightarrow> u32 \<Rightarrow> (app_error, unit) store_m" where
  "put_operation_key_reference now i secret kv =
     (if is_blank i \<or> is_blank secret \<or> kv = 0
      then store_lift (Inl (bad_request ''PAYLOAD_KEY_REFERENCE_INVALID''
                              ''operation wrapped secret reference is invalid''))
      else
        store_bind (app_sql (insert_key_ref
            \<lparr> kr_operation_id = i, kr_wrapped_secret_id = secret, kr_key_version = uint kv,
              kr_created_at = now, kr_updated_at = now \<rparr>)) (\<lambda>n.
          if n = 1 then store_return ()
          else
            store_bind (get_operation_key_reference i) (\<lambda>ref.
              store_lift (case ref of
                  None \<Rightarrow> Inl (internal ''operation key reference disappeared after conflict'')
                | Some existing \<Rightarrow>
                    if ref_wrapped_secret_id existing \<noteq> secret \<or> ref_key_version existing \<noteq> kv
                    then Inl (conflict ''PAYLOAD_KEY_REFERENCE_CONFLICT''
                                ''operation already has a different wrapped key reference'')
                    else Inr ()))))"

text \<open>The upsert of a lease with its \<^verbatim>\<open>RETURNING\<close> row.\<close>

definition lease_takeable :: "string \<Rightarrow> string \<Rightarrow> lease_row \<Rightarrow> bool" where
  "lease_takeable now inst l \<longleftrightarrow>
     (le_instance_id l = inst \<or> le_until l \<le> now) \<and> le_generation l < 9223372036854775807"

definition lease_upsert ::
    "string \<Rightarrow> string \<Rightarrow> string \<Rightarrow> string \<Rightarrow> string \<Rightarrow> op_db \<Rightarrow> lease_row option \<times> op_db" where
  "lease_upsert now i b inst until db =
     (if \<not> list_ex (\<lambda>r. op_id r = i \<and> op_bot_id r = b) (ops db) then (None, db)
      else
        (case find (\<lambda>l. le_operation_id l = i) (leases db) of
           None \<Rightarrow>
             let l = \<lparr> le_operation_id = i, le_instance_id = inst, le_generation = 1,
                       le_until = until, le_created_at = now, le_updated_at = now \<rparr>
             in (Some l, db\<lparr>leases := leases db @ [l]\<rparr>)
         | Some l \<Rightarrow>
             if lease_takeable now inst l
             then
               let l' = l\<lparr> le_instance_id := inst, le_generation := le_generation l + 1,
                           le_until := until, le_updated_at := now \<rparr>
               in (Some l',
                   db\<lparr>leases := fst (sql_update (\<lambda>x. le_operation_id x = i) (\<lambda>_. l') (leases db))\<rparr>)
             else (None, db)))"

definition upsert_lease ::
    "string \<Rightarrow> string \<Rightarrow> string \<Rightarrow> string \<Rightarrow> string \<Rightarrow> (sql_error, lease_row option) store_m" where
  "upsert_lease now i b inst until = sql_stmt (\<lambda>db.
     case lease_upsert now i b inst until db of (row, db') \<Rightarrow> (Inr row, db'))"

definition try_acquire_execution_lease ::
    "string \<Rightarrow> string \<Rightarrow> string \<Rightarrow> string \<Rightarrow> string
      \<Rightarrow> (app_error, operation_execution_lease option) store_m" where
  "try_acquire_execution_lease now i b inst until =
     (if is_blank i \<or> is_blank b \<or> is_blank inst \<or> is_blank until
      then store_lift (Inl (bad_request ''OPERATION_LEASE_INVALID''
                              ''operation execution lease identity is incomplete''))
      else
        store_bind (app_sql (upsert_lease now i b inst until)) (\<lambda>row. store_lift
          (case row of
             None \<Rightarrow> Inr None
           | Some l \<Rightarrow>
               bind_r (ok_or (internal ''operation lease generation is invalid'')
                         (u64_try_from (le_generation l))) (\<lambda>g.
               if g = 0 then Inl (internal ''operation lease generation is invalid'')
               else Inr (Some \<lparr> lease_operation_id = le_operation_id l,
                                lease_instance_id = le_instance_id l,
                                lease_generation = g, lease_until = le_until l \<rparr>)))))"

definition release_execution_lease ::
    "operation_execution_lease \<Rightarrow> (app_error, bool) store_m" where
  "release_execution_lease l =
     store_bind (store_lift (ok_or (internal ''operation lease generation is invalid'')
                               (i64_try_from (lease_generation l)))) (\<lambda>g.
     app_sql (sql_stmt (\<lambda>db.
       let mine = (\<lambda>x. le_operation_id x = lease_operation_id l
                     \<and> le_instance_id x = lease_instance_id l \<and> le_generation x = g) in
       (Inr (length (filter mine (leases db)) = 1),
        db\<lparr>leases := filter (\<lambda>x. \<not> mine x) (leases db)\<rparr>))))"

end
