(* ===== verification/Operation_Ledger.thy ===== *)
theory Operation_Ledger
  imports Operation_Store
begin

text \<open>
  What the operation store promises. The abstract machine \<open>phase_step\<close> moves one operation
  through its status and commit state; the locale \<open>ledger\<close> states the contract of a store of
  such operations (every operation keeps the invariant, moves an operation only along
  \<open>phase_step\<close>, and never loses one) and proves what follows for arbitrary runs;
  \<open>payload_ledger\<close> adds the recovery payload. Both are interpreted on the store.
\<close>

named_theorems row_changes \<open>each update of the store changes a row as the machine allows\<close>

section \<open>The abstract machine\<close>

type_synonym phase = "bridge_operation_status \<times> operation_commit_state"

definition pre_commit :: "bridge_operation_status \<Rightarrow> bool" where
  "pre_commit s \<longleftrightarrow> s \<in> {Received, SnapshotReady, Generating, Generated, Committing}"

inductive phase_step :: "phase \<Rightarrow> phase \<Rightarrow> bool" where
  snapshot: "phase_step (Received, OCS_NotStarted) (SnapshotReady, OCS_NotStarted)"
| generating: "phase_step (SnapshotReady, OCS_NotStarted) (Generating, OCS_NotStarted)"
| generated: "s \<in> {SnapshotReady, Generating} \<Longrightarrow>
    phase_step (s, OCS_NotStarted) (Generated, OCS_NotStarted)"
| committing: "phase_step (Generated, OCS_NotStarted) (Committing, OCS_NotStarted)"
| commit_unknown: "phase_step (Committing, OCS_NotStarted) (Committing, OCS_Unknown)"
| committed: "c \<in> {OCS_NotStarted, OCS_Unknown} \<Longrightarrow>
    phase_step (Committing, c) (Committed, OCS_Applied)"
| delivered: "phase_step (Committed, OCS_Applied) (Delivered, OCS_Applied)"
| conflicted: "phase_step (Committing, OCS_NotStarted) (Conflict, OCS_NotApplied)"
| failed: "pre_commit s \<Longrightarrow> phase_step (s, OCS_NotStarted) (Failed, c)"
| interrupted: "phase_step (Generating, OCS_NotStarted) (Interrupted, OCS_NotStarted)"

inductive_cases phase_stepE: "phase_step p q"

definition initial_phase :: phase where
  "initial_phase = (Received, OCS_NotStarted)"

fun phase_coherent :: "phase \<Rightarrow> bool" where
  "phase_coherent (s, c) =
     (if s \<in> {Received, SnapshotReady, Generating, Generated, Interrupted} then c = OCS_NotStarted
      else if s = Committing then c \<in> {OCS_NotStarted, OCS_Unknown}
      else if s \<in> {Committed, Delivered} then c = OCS_Applied
      else if s = Conflict then c = OCS_NotApplied
      else True)"

lemma phase_step_coherent: "phase_step p q \<Longrightarrow> phase_coherent p \<and> phase_coherent q"
  by (auto elim!: phase_stepE simp: pre_commit_def)

lemma phase_step_status:
  "phase_step p q \<Longrightarrow> fst p = fst q \<or> can_transition_to (fst p) (fst q)"
  by (auto elim!: phase_stepE simp: pre_commit_def)

lemma phase_step_committed:
  "phase_step p q \<Longrightarrow> fst p \<in> {Committed, Delivered} \<Longrightarrow>
     fst q \<in> {Committed, Delivered} \<and> snd q = OCS_Applied"
  by (auto elim!: phase_stepE simp: pre_commit_def)

lemma phase_step_terminal: "phase_step p q \<Longrightarrow> \<not> is_terminal (fst p)"
  by (auto elim!: phase_stepE simp: pre_commit_def is_terminal_def)

lemma phase_step_unknown:
  "phase_step p q \<Longrightarrow> p = (Committing, OCS_Unknown) \<Longrightarrow> q = (Committed, OCS_Applied)"
  by (auto elim!: phase_stepE simp: pre_commit_def)

text \<open>Two steps from the same commit state cannot report both outcomes of a commit.\<close>

definition phase_rank :: "phase \<Rightarrow> nat" where
  "phase_rank p = 2 * status_rank (fst p) + of_bool (snd p = OCS_Unknown)"

lemma phase_step_rank: "phase_step p q \<Longrightarrow> phase_rank p < phase_rank q"
  by (auto elim!: phase_stepE simp: pre_commit_def phase_rank_def)

lemma phase_path_coherent: "phase_step\<^sup>*\<^sup>* p q \<Longrightarrow> phase_coherent p \<Longrightarrow> phase_coherent q"
  by (induction rule: rtranclp_induct) (auto dest: phase_step_coherent)

lemma phase_path_committed:
  "phase_step\<^sup>*\<^sup>* p q \<Longrightarrow> p = (s, OCS_Applied) \<Longrightarrow> s \<in> {Committed, Delivered} \<Longrightarrow>
     fst q \<in> {Committed, Delivered} \<and> snd q = OCS_Applied"
  by (induction rule: rtranclp_induct) (auto dest!: phase_step_committed)

lemma phase_path_terminal: "phase_step\<^sup>*\<^sup>* p q \<Longrightarrow> is_terminal (fst p) \<Longrightarrow> q = p"
  by (induction rule: rtranclp_induct) (auto dest: phase_step_terminal)

lemma phase_path_status: "phase_step\<^sup>*\<^sup>* p q \<Longrightarrow> status_path (fst p) (fst q)"
  by (induction rule: rtranclp_induct)
     (auto intro: path_refl path_step dest: phase_step_status)

section \<open>The contract of a ledger\<close>

locale ledger =
  fixes apply_op :: "'op \<Rightarrow> 's \<Rightarrow> 's"
    and typed :: "'op \<Rightarrow> bool"
    and inv :: "'s \<Rightarrow> bool"
    and phase :: "'s \<Rightarrow> 'id \<Rightarrow> phase option"
  assumes inv_apply: "typed a \<Longrightarrow> inv s \<Longrightarrow> inv (apply_op a s)"
    and phase_apply: "typed a \<Longrightarrow> inv s \<Longrightarrow> phase s i = Some p \<Longrightarrow>
          \<exists>q. phase (apply_op a s) i = Some q \<and> (q = p \<or> phase_step p q)"
    and phase_new: "typed a \<Longrightarrow> inv s \<Longrightarrow> phase s i = None \<Longrightarrow>
          phase (apply_op a s) i \<in> {None, Some initial_phase}"
begin

lemma run_inv: "list_all typed as \<Longrightarrow> inv s \<Longrightarrow> inv (fold apply_op as s)"
  by (induction as arbitrary: s) (auto intro: inv_apply)

lemma run_path:
  "list_all typed as \<Longrightarrow> inv s \<Longrightarrow> phase s i = Some p \<Longrightarrow>
     \<exists>q. phase (fold apply_op as s) i = Some q \<and> phase_step\<^sup>*\<^sup>* p q"
proof (induction as arbitrary: s p)
  case Nil
  then show ?case by simp
next
  case (Cons a as)
  from Cons.prems have "typed a" "inv s" by simp_all
  with Cons.prems(3) obtain q where q: "phase (apply_op a s) i = Some q" "q = p \<or> phase_step p q"
    using phase_apply by blast
  from Cons.IH [OF _ inv_apply [OF \<open>typed a\<close> \<open>inv s\<close>] q(1)] Cons.prems(1)
  obtain r where r: "phase (fold apply_op as (apply_op a s)) i = Some r" "phase_step\<^sup>*\<^sup>* q r"
    by auto
  have "phase_step\<^sup>*\<^sup>* p r"
    using q(2) r(2) by (auto intro: converse_rtranclp_into_rtranclp)
  with r(1) show ?case by simp
qed

lemma run_from_new:
  "list_all typed as \<Longrightarrow> inv s \<Longrightarrow> phase s i = None \<Longrightarrow>
     phase (fold apply_op as s) i = Some q \<Longrightarrow> phase_step\<^sup>*\<^sup>* initial_phase q"
proof (induction as arbitrary: s)
  case Nil
  then show ?case by simp
next
  case (Cons a as)
  then have "typed a" "inv s" and as: "list_all typed as" by simp_all
  note inv' = inv_apply [OF this(1,2)]
  from phase_new [OF \<open>typed a\<close> \<open>inv s\<close> Cons.prems(3)]
  consider "phase (apply_op a s) i = None" | "phase (apply_op a s) i = Some initial_phase"
    by auto
  then show ?case
  proof cases
    case 1
    from Cons.IH [OF as inv' 1] Cons.prems(4) show ?thesis by simp
  next
    case 2
    from run_path [OF as inv' 2] Cons.prems(4) show ?thesis by auto
  qed
qed

lemma run_new_coherent:
  assumes "list_all typed as" "inv s" "phase s i = None" "phase (fold apply_op as s) i = Some q"
  shows "phase_coherent q"
  using run_from_new [OF assms] phase_path_coherent by (auto simp: initial_phase_def)

lemma run_committed:
  assumes "list_all typed as" "inv s" "phase s i = Some (st, OCS_Applied)" "st \<in> {Committed, Delivered}"
  shows "\<exists>st' \<in> {Committed, Delivered}. phase (fold apply_op as s) i = Some (st', OCS_Applied)"
proof -
  from run_path [OF assms(1-3)] obtain q
    where q: "phase (fold apply_op as s) i = Some q" "phase_step\<^sup>*\<^sup>* (st, OCS_Applied) q" by blast
  from phase_path_committed [OF q(2) refl assms(4)] q(1) show ?thesis by (cases q) auto
qed

lemma run_terminal:
  assumes "list_all typed as" "inv s" "phase s i = Some p" "is_terminal (fst p)"
  shows "phase (fold apply_op as s) i = Some p"
  using run_path [OF assms(1-3)] phase_path_terminal assms(4) by blast

lemma run_status:
  assumes "list_all typed as" "inv s" "phase s i = Some p"
  shows "\<exists>q. phase (fold apply_op as s) i = Some q \<and> status_path (fst p) (fst q)"
  using run_path [OF assms] phase_path_status by blast

end

locale payload_ledger = ledger apply_op typed inv phase
  for apply_op :: "'op \<Rightarrow> 's \<Rightarrow> 's" and typed inv and phase :: "'s \<Rightarrow> 'id \<Rightarrow> phase option" +
  fixes payload :: "'s \<Rightarrow> 'id \<Rightarrow> 'p option"
  assumes payload_kept: "typed a \<Longrightarrow> inv s \<Longrightarrow> payload s i = Some x \<Longrightarrow>
          payload (apply_op a s) i = Some x"
    and payload_present: "inv s \<Longrightarrow> phase s i = Some p \<Longrightarrow>
          fst p \<in> {Generated, Committing, Committed, Delivered, Conflict} \<Longrightarrow> payload s i \<noteq> None"
begin

lemma run_payload_kept:
  "list_all typed as \<Longrightarrow> inv s \<Longrightarrow> payload s i = Some x \<Longrightarrow> payload (fold apply_op as s) i = Some x"
  by (induction as arbitrary: s) (auto simp: payload_kept inv_apply)

lemma run_recoverable:
  assumes "list_all typed as" "inv s" "phase (fold apply_op as s) i = Some (st, c)"
    and "st \<in> {Generated, Committing, Committed}"
  shows "\<exists>x. payload (fold apply_op as s) i = Some x"
  using payload_present [OF run_inv [OF assms(1,2)] assms(3)] assms(4) by auto

end

section \<open>The store's operations as one type\<close>

text \<open>Every operation of the store that writes; the first string is the clock reading.\<close>

datatype store_op =
    Op_Claim string string claim_operation_request
  | Op_Snapshot string string "string option" "string option" "i64 option" "i64 option"
  | Op_Generating string string
  | Op_Generated string string encrypted_operation_payload string
  | Op_Committing string string
  | Op_Committed string string string operation_commit_state
  | Op_Delivered string string
  | Op_Conflict string string string
  | Op_Failed string string string string string bool operation_commit_state
  | Op_Interrupted string string
  | Op_CommitUnknown string string
  | Op_InterruptStale string string
  | Op_PutKey string string string u32
  | Op_AcquireLease string string string string string
  | Op_ReleaseLease operation_execution_lease

primrec apply_store_op :: "store_op \<Rightarrow> op_db \<Rightarrow> op_db" where
  "apply_store_op (Op_Claim now fresh q) db = snd (claim_operation now fresh q db)"
| "apply_store_op (Op_Snapshot now i sha integ sz cnt) db =
     snd (update_snapshot_ready now i sha integ sz cnt db)"
| "apply_store_op (Op_Generating now i) db = snd (update_generating now i db)"
| "apply_store_op (Op_Generated now i pl digest) db = snd (update_generated now i pl digest db)"
| "apply_store_op (Op_Committing now i) db = snd (mark_committing now i db)"
| "apply_store_op (Op_Committed now i json expected) db =
     snd (mark_committed_with_state now i json expected db)"
| "apply_store_op (Op_Delivered now i) db = snd (mark_delivered now i db)"
| "apply_store_op (Op_Conflict now i summary) db = snd (mark_conflict now i summary db)"
| "apply_store_op (Op_Failed now i stg code summary retry cs) db =
     snd (mark_failed_with_state now i stg code summary retry cs db)"
| "apply_store_op (Op_Interrupted now i) db = snd (mark_interrupted now i db)"
| "apply_store_op (Op_CommitUnknown now i) db = snd (mark_commit_unknown now i db)"
| "apply_store_op (Op_InterruptStale now cutoff) db = snd (interrupt_stale_generating now cutoff db)"
| "apply_store_op (Op_PutKey now i secret kv) db =
     snd (put_operation_key_reference now i secret kv db)"
| "apply_store_op (Op_AcquireLease now i b inst until) db =
     snd (try_acquire_execution_lease now i b inst until db)"
| "apply_store_op (Op_ReleaseLease l) db = snd (release_execution_lease l db)"

text \<open>What the Rust types guarantee: a payload's nonce is a \<^verbatim>\<open>[u8; 24]\<close>.\<close>

definition op_typed :: "store_op \<Rightarrow> bool" where
  "op_typed a \<longleftrightarrow>
     (case a of Op_Generated _ _ pl _ \<Rightarrow> length (ep_nonce pl) = 24 | _ \<Rightarrow> True)"

section \<open>The invariant of the database\<close>

definition row_phase :: "operation_row \<Rightarrow> phase option" where
  "row_phase r =
     (case status_parse (op_status r) of
        None \<Rightarrow> None
      | Some s \<Rightarrow> (case ocs_parse (op_commit_state r) of None \<Rightarrow> None | Some c \<Rightarrow> Some (s, c)))"

definition row_payload :: "operation_row \<Rightarrow> (string \<times> string \<times> i64 \<times> string) option" where
  "row_payload r =
     (case (op_payload_ciphertext r, op_payload_nonce r, op_payload_key_version r,
            op_mutation_digest r) of
        (Some ct, Some n, Some kv, Some d) \<Rightarrow> Some (ct, n, kv, d)
      | _ \<Rightarrow> None)"

definition has_key_ref :: "key_ref_row list \<Rightarrow> string \<Rightarrow> i64 \<Rightarrow> bool" where
  "has_key_ref ks i kv \<longleftrightarrow> list_ex (\<lambda>k. kr_operation_id k = i \<and> kr_key_version k = kv) ks"

text \<open>
  A row either has no payload columns at all, or a complete payload whose key version is
  the one of the operation's key reference; from \<open>Generated\<close> on it has one.
\<close>

definition payload_ok :: "key_ref_row list \<Rightarrow> operation_row \<Rightarrow> bool" where
  "payload_ok ks r \<longleftrightarrow>
     (case row_payload r of
        None \<Rightarrow> op_payload_ciphertext r = None \<and> op_payload_nonce r = None
          \<and> op_payload_key_version r = None \<and> op_mutation_digest r = None
      | Some (ct, n, kv, d) \<Rightarrow> length n = 24 \<and> 0 \<le> kv \<and> kv < 2 ^ 32 \<and> has_key_ref ks (op_id r) kv)"

definition row_ok :: "key_ref_row list \<Rightarrow> operation_row \<Rightarrow> bool" where
  "row_ok ks r \<longleftrightarrow>
     (\<exists>p. row_phase r = Some p \<and> phase_coherent p
        \<and> (fst p \<in> {Generated, Committing, Committed, Delivered, Conflict} \<longrightarrow> row_payload r \<noteq> None)
        \<and> (fst p \<in> {Received, SnapshotReady, Generating} \<longrightarrow> row_payload r = None)
        \<and> (fst p \<in> {Committed, Delivered} \<longrightarrow> op_connector_result_json r \<noteq> None))
     \<and> payload_ok ks r \<and> 0 \<le> op_attempt_count r \<and> op_attempt_count r < 2 ^ 32"

definition key_ref_ok :: "op_db \<Rightarrow> key_ref_row \<Rightarrow> bool" where
  "key_ref_ok db k \<longleftrightarrow>
     0 < kr_key_version k \<and> kr_key_version k < 2 ^ 32 \<and> \<not> is_blank (kr_wrapped_secret_id k)
     \<and> kr_operation_id k \<in> op_id ` set (ops db) \<and> kr_wrapped_secret_id k \<in> set (secret_ids db)"

definition lease_ok :: "op_db \<Rightarrow> lease_row \<Rightarrow> bool" where
  "lease_ok db l \<longleftrightarrow>
     0 < le_generation l \<and> le_generation l \<le> i64_max \<and> le_operation_id l \<in> op_id ` set (ops db)"

definition store_inv :: "op_db \<Rightarrow> bool" where
  "store_inv db \<longleftrightarrow>
     distinct (map op_id (ops db)) \<and> distinct (map op_claim (ops db))
     \<and> (\<forall>r \<in> set (ops db). row_ok (key_refs db) r
          \<and> op_actor_id r \<in> set (account_ids db) \<and> op_bot_id r \<in> set (bot_ids db))
     \<and> distinct (map kr_operation_id (key_refs db)) \<and> (\<forall>k \<in> set (key_refs db). key_ref_ok db k)
     \<and> distinct (map le_operation_id (leases db)) \<and> (\<forall>l \<in> set (leases db). lease_ok db l)"

definition row_of :: "op_db \<Rightarrow> string \<Rightarrow> operation_row option" where
  "row_of db i = find (\<lambda>r. op_id r = i) (ops db)"

definition store_phase :: "op_db \<Rightarrow> string \<Rightarrow> phase option" where
  "store_phase db i = Option.bind (row_of db i) row_phase"

definition store_payload :: "op_db \<Rightarrow> string \<Rightarrow> (string \<times> string \<times> i64 \<times> string) option" where
  "store_payload db i = Option.bind (row_of db i) row_payload"

section \<open>Effects of statements\<close>

text \<open>Equality of all tables: everything but the schedule of faults.\<close>

definition same_tables :: "op_db \<Rightarrow> op_db \<Rightarrow> bool" where
  "same_tables db db' \<longleftrightarrow>
     ops db' = ops db \<and> key_refs db' = key_refs db \<and> leases db' = leases db
     \<and> account_ids db' = account_ids db \<and> bot_ids db' = bot_ids db \<and> secret_ids db' = secret_ids db"

lemma same_tables_refl [simp]: "same_tables db db" "same_tables db (db\<lparr>faults := fs\<rparr>)"
  by (simp_all add: same_tables_def)

lemmas same_tables_fields = same_tables_def [THEN iffD1]

lemma same_tables_trans: "same_tables a b \<Longrightarrow> same_tables b c \<Longrightarrow> same_tables a c"
  by (simp add: same_tables_def)

lemma store_inv_same: "same_tables db db' \<Longrightarrow> store_inv db' = store_inv db"
  by (auto dest!: same_tables_fields simp: store_inv_def key_ref_ok_def lease_ok_def)

lemma store_views_same:
  "same_tables db db' \<Longrightarrow> row_of db' i = row_of db i"
  "same_tables db db' \<Longrightarrow> store_phase db' i = store_phase db i"
  "same_tables db db' \<Longrightarrow> store_payload db' i = store_payload db i"
  by (auto dest!: same_tables_fields simp: row_of_def store_phase_def store_payload_def)

lemma snd_store_lift [simp]: "snd (store_lift r db) = db" "fst (store_lift r db) = r"
  by (simp_all add: store_lift_def)

lemma store_bind_simps:
  "m db = (Inl e, db') \<Longrightarrow> store_bind m f db = (Inl e, db')"
  "m db = (Inr a, db') \<Longrightarrow> store_bind m f db = f a db'"
  by (simp_all add: store_bind_def)

text \<open>A statement either fails without effect or runs its body on the same tables.\<close>

lemma sql_stmt_cases:
  obtains (fault) fs where "sql_stmt body db = (Inl OtherSqlError, db\<lparr>faults := fs\<rparr>)"
  | (runs) fs where "sql_stmt body db = body (db\<lparr>faults := fs\<rparr>)"
proof (cases "faults db")
  case Nil
  then have "sql_stmt body db = body (db\<lparr>faults := []\<rparr>)"
    by (simp add: sql_stmt_def) (metis op_db.surjective op_db.update_convs(7))
  then show ?thesis by (rule runs)
next
  case (Cons f fs)
  then show ?thesis
    using fault [of fs] runs [of fs] by (cases f) (auto simp: sql_stmt_def)
qed

lemma sql_stmt_snd:
  assumes "\<And>fs. R (db\<lparr>faults := fs\<rparr>)" "\<And>fs. R (snd (body (db\<lparr>faults := fs\<rparr>)))"
  shows "R (snd (sql_stmt body db))"
  by (cases rule: sql_stmt_cases [of body db]) (simp_all add: assms)

lemma snd_app_sql [simp]: "snd (app_sql m db) = snd (m db)"
  by (simp add: app_sql_def store_map_err_def split: prod.splits)

definition read_only :: "('e, 'a) store_m \<Rightarrow> bool" where
  "read_only m \<longleftrightarrow> (\<forall>db. same_tables db (snd (m db)))"

lemma read_only_lift [intro, simp]: "read_only (store_lift r)" "read_only (store_return a)"
  by (simp_all add: read_only_def store_return_def)

lemma read_only_map_err [intro]: "read_only m \<Longrightarrow> read_only (store_map_err g m)"
  by (auto simp: read_only_def store_map_err_def split: prod.splits) (metis snd_conv)

lemma read_only_app_sql [intro]: "read_only m \<Longrightarrow> read_only (app_sql m)"
  unfolding app_sql_def by (rule read_only_map_err)

lemma read_only_bind [intro]:
  assumes "read_only m" "\<And>a. read_only (f a)"
  shows "read_only (store_bind m f)"
  unfolding read_only_def
proof
  fix db
  obtain r db1 where m: "m db = (r, db1)" by fastforce
  with assms(1) have 1: "same_tables db db1" by (metis read_only_def snd_conv)
  show "same_tables db (snd (store_bind m f db))"
  proof (cases r)
    case (Inl e)
    with m 1 show ?thesis by (simp add: store_bind_def)
  next
    case (Inr a)
    have "same_tables db1 (snd (f a db1))" using assms(2) by (simp add: read_only_def)
    with m 1 Inr show ?thesis by (auto simp: store_bind_def intro: same_tables_trans)
  qed
qed

lemma read_only_stmt: "(\<And>db. snd (body db) = db) \<Longrightarrow> read_only (sql_stmt body)"
  unfolding read_only_def
proof
  fix db
  assume "\<And>db. snd (body db) = db"
  then show "same_tables db (snd (sql_stmt body db))"
    by (cases rule: sql_stmt_cases [of body db]) (auto simp: same_tables_def)
qed

lemma read_only_reads [intro, simp]:
  "read_only (select_ops P)" "read_only (get_operation i)" "read_only (get_by_claim b u k)"
  "read_only (assert_cas n i a b)" "read_only (get_operation_key_reference i)"
proof -
  show sel: "read_only (select_ops P)" for P
    unfolding select_ops_def by (intro read_only_app_sql read_only_stmt) simp
  show get: "read_only (get_operation i)" for i
    unfolding get_operation_def by (intro read_only_bind sel read_only_lift)
  show "read_only (get_by_claim b u k)"
    unfolding get_by_claim_def by (intro read_only_bind sel read_only_lift)
  show "read_only (assert_cas n i a b)"
    by (auto simp: assert_cas_def intro!: read_only_bind get)
  show "read_only (get_operation_key_reference i)"
    unfolding get_operation_key_reference_def
    by (intro read_only_bind read_only_app_sql read_only_stmt read_only_lift) simp
qed

section \<open>Row changes\<close>

text \<open>The columns that identify an operation: no update touches them.\<close>

definition op_identity where
  "op_identity r =
     (op_id r, op_claim r, op_actor_id r, op_channel_context_key r, op_st_handle r,
      op_st_character_avatar r, op_st_chat_file r)"

text \<open>What an update may do to a well-formed row.\<close>

definition row_change :: "key_ref_row list \<Rightarrow> operation_row \<Rightarrow> operation_row \<Rightarrow> bool" where
  "row_change ks r r' \<longleftrightarrow>
     op_identity r' = op_identity r \<and> row_ok ks r'
     \<and> (\<exists>p q. row_phase r = Some p \<and> row_phase r' = Some q \<and> phase_step p q)
     \<and> (\<forall>x. row_payload r = Some x \<longrightarrow> row_payload r' = Some x)"

definition payload_columns where
  "payload_columns r =
     (op_payload_ciphertext r, op_payload_nonce r, op_payload_key_version r, op_mutation_digest r)"

lemma row_payload_cong: "payload_columns r' = payload_columns r \<Longrightarrow> row_payload r' = row_payload r"
  by (simp add: payload_columns_def row_payload_def)

lemma payload_ok_cong:
  assumes "payload_columns r' = payload_columns r" "op_id r' = op_id r"
  shows "payload_ok ks r' = payload_ok ks r"
proof -
  from assms(1) have "op_payload_ciphertext r' = op_payload_ciphertext r"
    "op_payload_nonce r' = op_payload_nonce r"
    "op_payload_key_version r' = op_payload_key_version r"
    "op_mutation_digest r' = op_mutation_digest r"
    by (simp_all add: payload_columns_def)
  with row_payload_cong [OF assms(1)] assms(2) show ?thesis
    by (simp only: payload_ok_def)
qed

text \<open>A change that leaves the payload columns alone and follows \<open>phase_step\<close>.\<close>

lemma row_change_keep:
  assumes ok: "row_ok ks r" and p: "row_phase r = Some p"
    and q: "row_phase r' = Some q" "phase_step p q" "fst q \<noteq> Generated"
    and same: "op_identity r' = op_identity r"
      "op_attempt_count r' = op_attempt_count r" "payload_columns r' = payload_columns r"
    and json: "fst q \<in> {Committed, Delivered} \<Longrightarrow> op_connector_result_json r' \<noteq> None"
  shows "row_change ks r r'"
proof -
  have "op_id r' = op_id r" using same(1) by (simp add: op_identity_def)
  note pl = row_payload_cong [OF same(3)] payload_ok_cong [OF same(3) this]
  have early: "fst q \<in> {Received, SnapshotReady, Generating} \<Longrightarrow>
      fst p \<in> {Received, SnapshotReady, Generating}"
    using q(2) by (auto elim!: phase_stepE)
  have late: "fst q \<in> {Generated, Committing, Committed, Delivered, Conflict} \<Longrightarrow>
      fst p \<in> {Generated, Committing, Committed, Delivered, Conflict}"
    using q(2,3) by (auto elim!: phase_stepE simp: pre_commit_def)
  from ok p have old: "fst p \<in> {Generated, Committing, Committed, Delivered, Conflict} \<longrightarrow> row_payload r \<noteq> None"
    "fst p \<in> {Received, SnapshotReady, Generating} \<longrightarrow> row_payload r = None"
    "payload_ok ks r" "0 \<le> op_attempt_count r" "op_attempt_count r < 2 ^ 32"
    by (simp_all add: row_ok_def)
  have "phase_coherent q" using phase_step_coherent [OF q(2)] by simp
  then have "row_ok ks r'"
    unfolding row_ok_def pl same(2) q(1) using old early late json by blast
  with p q(1,2) same(1) show ?thesis by (auto simp: row_change_def pl)
qed

lemmas row_change_simps =
  row_phase_def op_identity_def op_claim_def payload_columns_def status_parse_def ocs_parse_def

lemma snapshot_row_change [row_changes]:
  assumes "op_status r = ''received''" "op_commit_state r = ''not_started''" "row_ok ks r"
  shows "row_change ks r (r\<lparr> op_status := ''snapshot_ready'', op_source_sha256 := sha,
      op_source_integrity := integ, op_source_size := sz, op_message_count := cnt,
      op_updated_at := now \<rparr>)"
  using assms
  by (intro row_change_keep [OF _ _ _ phase_step.snapshot]) (simp_all add: row_change_simps)


lemma generating_row_change [row_changes]:
  assumes "op_status r = ''snapshot_ready''" "op_commit_state r = ''not_started''" "row_ok ks r"
  shows "row_change ks r (r\<lparr> op_status := ''generating'', op_updated_at := now \<rparr>)"
  using assms
  by (intro row_change_keep [OF _ _ _ phase_step.generating]) (simp_all add: row_change_simps)


lemma generated_row_change [row_changes]:
  assumes "op_status r \<in> {''snapshot_ready'', ''generating''}" "op_commit_state r = ''not_started''"
    and "row_ok ks r" "length (ep_nonce pl) = 24"
    and "has_key_ref ks (op_id r) (uint (ep_key_version pl))"
  shows "row_change ks r (r\<lparr> op_status := ''generated'',
      op_payload_ciphertext := Some (ep_ciphertext pl), op_payload_nonce := Some (ep_nonce pl),
      op_payload_key_version := Some (uint (ep_key_version pl)),
      op_mutation_digest := Some digest, op_updated_at := now \<rparr>)"
proof -
  have kv: "uint (ep_key_version pl) < 2 ^ 32"
    using uint_lt2p [of "ep_key_version pl"] by simp
  obtain s where s: "s \<in> {SnapshotReady, Generating}" "row_phase r = Some (s, OCS_NotStarted)"
    using assms(1,2) that by (auto simp: row_phase_def status_parse_def ocs_parse_def)
  then have none: "row_payload r = None"
    using assms(3) by (auto simp: row_ok_def)
  have step: "phase_step (s, OCS_NotStarted) (Generated, OCS_NotStarted)"
    using s(1) by (rule phase_step.generated)
  show ?thesis
    using assms(2-5) s(2) none kv step
    by (auto simp: row_change_def row_ok_def payload_ok_def row_payload_def row_phase_def
        status_parse_def ocs_parse_def op_identity_def op_claim_def)
qed


lemma committing_row_change [row_changes]:
  assumes "op_status r = ''generated''" "op_commit_state r = ''not_started''" "row_ok ks r"
  shows "row_change ks r (r\<lparr> op_status := ''committing'', op_updated_at := now \<rparr>)"
  using assms
  by (intro row_change_keep [OF _ _ _ phase_step.committing]) (simp_all add: row_change_simps)


lemma committed_row_change [row_changes]:
  assumes "op_status r = ''committing''" "op_commit_state r = ocs_as_str c" "row_ok ks r"
  shows "row_change ks r (r\<lparr> op_status := ''committed'', op_commit_state := ''applied'',
      op_connector_result_json := Some json, op_updated_at := now \<rparr>)"
proof -
  have c: "c \<in> {OCS_NotStarted, OCS_Unknown}" and p: "row_phase r = Some (Committing, c)"
    using assms by (cases c; simp add: row_ok_def row_phase_def status_parse_def ocs_parse_def)+
  show ?thesis
    by (rule row_change_keep [OF assms(3) p _ phase_step.committed [OF c]])
       (simp_all add: row_change_simps)
qed


lemma delivered_row_change [row_changes]:
  assumes "op_status r = ''committed''" "op_commit_state r = ''applied''" "row_ok ks r"
  shows "row_change ks r (r\<lparr> op_status := ''delivered'', op_updated_at := now \<rparr>)"
  using assms
  by (intro row_change_keep [OF _ _ _ phase_step.delivered])
     (auto simp: row_change_simps row_ok_def)


lemma conflict_row_change [row_changes]:
  assumes "op_status r = ''committing''" "op_commit_state r = ''not_started''" "row_ok ks r"
  shows "row_change ks r (r\<lparr> op_status := ''conflict'', op_error_stage := stg,
      op_error_code := code, op_error_summary := summary,
      op_commit_state := ''not_applied'', op_updated_at := now \<rparr>)"
  using assms
  by (intro row_change_keep [OF _ _ _ phase_step.conflicted]) (simp_all add: row_change_simps)


lemma failed_row_change [row_changes]:
  assumes "op_status r \<in> {''received'', ''snapshot_ready'', ''generating'', ''generated'', ''committing''}"
    and "op_commit_state r = ''not_started''" "row_ok ks r"
  shows "row_change ks r (r\<lparr> op_status := ''failed'', op_error_stage := stg,
      op_error_code := code, op_error_summary := summary, op_retryable := retry,
      op_commit_state := ocs_as_str c, op_updated_at := now \<rparr>)"
proof -
  obtain s where s: "op_status r = status_as_str s" "pre_commit s"
    using assms(1) that [of Received] that [of SnapshotReady] that [of Generating]
      that [of Generated] that [of Committing] by (auto simp: pre_commit_def)
  have "row_phase r = Some (s, OCS_NotStarted)"
    using s(1) assms(2) by (simp add: row_phase_def ocs_parse_def)
  with assms(3) show ?thesis
    using phase_step.failed [OF s(2), of c]
    by (intro row_change_keep) (auto simp: row_phase_def status_parse_def op_identity_def op_claim_def payload_columns_def)
qed


lemma interrupted_row_change [row_changes]:
  assumes "op_status r = ''generating''" "row_ok ks r"
  shows "row_change ks r (r\<lparr> op_status := ''interrupted'', op_updated_at := now \<rparr>)"
proof -
  from assms have "op_commit_state r = ocs_as_str OCS_NotStarted"
    by (auto simp: row_ok_def row_phase_def status_parse_def ocs_parse_iff split: option.splits)
  with assms show ?thesis
    by (intro row_change_keep [OF _ _ _ phase_step.interrupted]) (simp_all add: row_change_simps)
qed


lemma unknown_row_change [row_changes]:
  assumes "op_status r = ''committing''" "op_commit_state r = ''not_started''" "row_ok ks r"
  shows "row_change ks r (r\<lparr> op_commit_state := ''unknown'', op_updated_at := now \<rparr>)"
  using assms
  by (intro row_change_keep [OF _ _ _ phase_step.commit_unknown]) (simp_all add: row_change_simps)


section \<open>Database changes\<close>

text \<open>
  The effect of a store operation on the tables: nothing (up to other tables), a change of
  some rows, or one more row in the initial phase.
\<close>

definition rows_changed :: "op_db \<Rightarrow> op_db \<Rightarrow> bool" where
  "rows_changed db db' \<longleftrightarrow>
     list_all2 (\<lambda>r r'. r' = r \<or> row_change (key_refs db) r r') (ops db) (ops db')
     \<and> key_refs db' = key_refs db \<and> leases db' = leases db
     \<and> account_ids db' = account_ids db \<and> bot_ids db' = bot_ids db \<and> secret_ids db' = secret_ids db"

lemma list_all2_map_eq:
  assumes "list_all2 R xs ys" "\<And>x y. R x y \<Longrightarrow> f y = f x"
  shows "map f ys = map f xs"
  using assms by (induction rule: list_all2_induct) auto

lemma rows_changed_keys:
  assumes "rows_changed db db'"
  shows "map op_id (ops db') = map op_id (ops db)" "map op_claim (ops db') = map op_claim (ops db)"
    and "map op_actor_id (ops db') = map op_actor_id (ops db)"
    and "op_id ` set (ops db') = op_id ` set (ops db)"
proof -
  from assms have all: "list_all2 (\<lambda>r r'. r' = r \<or> row_change (key_refs db) r r') (ops db) (ops db')"
    by (simp add: rows_changed_def)
  show ids: "map op_id (ops db') = map op_id (ops db)"
    and "map op_claim (ops db') = map op_claim (ops db)"
    and "map op_actor_id (ops db') = map op_actor_id (ops db)"
    by (rule list_all2_map_eq [OF all]; auto simp: row_change_def op_identity_def)+
  from ids show "op_id ` set (ops db') = op_id ` set (ops db)" by (metis set_map)
qed

lemma rows_changed_inv:
  assumes inv: "store_inv db" and ch: "rows_changed db db'"
  shows "store_inv db'"
proof -
  note keys = rows_changed_keys [OF ch]
  have rows: "\<forall>r' \<in> set (ops db'). row_ok (key_refs db) r'
      \<and> op_actor_id r' \<in> set (account_ids db) \<and> op_bot_id r' \<in> set (bot_ids db)"
  proof
    fix r' assume "r' \<in> set (ops db')"
    then obtain r where "r \<in> set (ops db)" "r' = r \<or> row_change (key_refs db) r r'"
      using ch unfolding rows_changed_def list_all2_conv_all_nth by (metis in_set_conv_nth)
    with inv show "row_ok (key_refs db) r'
      \<and> op_actor_id r' \<in> set (account_ids db) \<and> op_bot_id r' \<in> set (bot_ids db)"
      by (auto simp: store_inv_def row_change_def op_identity_def op_claim_def)
  qed
  show ?thesis
    using inv ch rows keys
    by (simp add: store_inv_def rows_changed_def key_ref_ok_def lease_ok_def)
qed

lemma rows_changed_row_of:
  assumes "rows_changed db db'"
  shows "rel_option (\<lambda>r r'. r' = r \<or> row_change (key_refs db) r r') (row_of db i) (row_of db' i)"
proof -
  have "list_all2 (\<lambda>r r'. r' = r \<or> row_change ks r r') rs rs' \<Longrightarrow>
      rel_option (\<lambda>r r'. r' = r \<or> row_change ks r r')
        (find (\<lambda>r. op_id r = i) rs) (find (\<lambda>r. op_id r = i) rs')" for ks rs rs'
    by (induction rule: list_all2_induct) (auto simp: row_change_def op_identity_def)
  with assms show ?thesis by (simp add: rows_changed_def row_of_def)
qed

lemma rows_changed_refl [simp]: "rows_changed db db"
  by (simp add: rows_changed_def list_all2_refl)

lemma rows_changed_same:
  "rows_changed db db' \<Longrightarrow> same_tables db' db'' \<Longrightarrow> rows_changed db db''"
  by (simp add: rows_changed_def same_tables_def)

lemma bind_snd_same:
  assumes "\<And>a. read_only (f a)"
  shows "same_tables (snd (m db)) (snd (store_bind m f db))"
proof -
  obtain r db1 where m: "m db = (r, db1)" by fastforce
  with assms show ?thesis by (cases r) (auto simp: store_bind_def read_only_def)
qed

lemma update_ops_changed:
  assumes "store_inv db"
    and "\<And>fs r. P (db\<lparr>faults := fs\<rparr>) r \<Longrightarrow> row_ok (key_refs db) r \<Longrightarrow> row_change (key_refs db) r (f r)"
  shows "rows_changed db (snd (update_ops P f db))"
proof (cases rule: sql_stmt_cases [of "\<lambda>db. let (rs, n) = sql_update (P db) f (ops db) in
     ((Inr n :: sql_error + nat), db\<lparr>ops := rs\<rparr>)" db])
  case (fault fs)
  then show ?thesis
    by (simp add: update_ops_def app_sql_def store_map_err_def rows_changed_def list_all2_refl)
next
  case (runs fs)
  have "list_all2 (\<lambda>r r'. r' = r \<or> row_change (key_refs db) r r') (ops db)
      (map (\<lambda>r. if P (db\<lparr>faults := fs\<rparr>) r then f r else r) (ops db))"
    using assms unfolding store_inv_def
    by (auto simp: list_all2_conv_all_nth)
  with runs show ?thesis
    by (simp add: update_ops_def app_sql_def store_map_err_def rows_changed_def sql_update_def)
qed

text \<open>A compare-and-set: an update followed by reads.\<close>

lemma cas_changed:
  assumes "store_inv db"
    and "\<And>fs r. P (db\<lparr>faults := fs\<rparr>) r \<Longrightarrow> row_ok (key_refs db) r \<Longrightarrow> row_change (key_refs db) r (f r)"
  shows "rows_changed db (snd (store_bind (update_ops P f) (\<lambda>n. assert_cas n i a b) db))"
  using update_ops_changed [OF assms] bind_snd_same by (rule rows_changed_same) auto

lemma cas_ops_changed:
  assumes inv: "store_inv db"
  shows "rows_changed db (snd (update_snapshot_ready now i sha integ sz cnt db))"
    and "rows_changed db (snd (update_generating now i db))"
    and "length (ep_nonce pl) = 24 \<Longrightarrow> rows_changed db (snd (update_generated now i pl digest db))"
    and "rows_changed db (snd (mark_committing now i db))"
    and "rows_changed db (snd (mark_committed_with_state now i json c db))"
    and "rows_changed db (snd (mark_delivered now i db))"
    and "rows_changed db (snd (mark_conflict now i summary db))"
    and "rows_changed db (snd (mark_failed_with_state now i stg code summary retry c db))"
    and "rows_changed db (snd (mark_interrupted now i db))"
    and "rows_changed db (snd (mark_commit_unknown now i db))"
  unfolding store_defs
  by (rule cas_changed [OF inv], elim conjE, rule row_changes,
      (assumption | (simp add: has_key_ref_def; fail))+)+

lemma interrupt_stale_changed:
  assumes "store_inv db"
  shows "rows_changed db (snd (interrupt_stale_generating now cutoff db))"
proof -
  let ?stale = "\<lambda>r. op_status r = ''generating'' \<and> op_updated_at r < cutoff"
  let ?f = "\<lambda>r. r\<lparr> op_status := ''interrupted'', op_updated_at := now \<rparr>"
  have "rows_changed db (snd (update_ops (\<lambda>_. ?stale) ?f db))"
    using assms interrupted_row_change by (intro update_ops_changed) auto
  moreover have "snd (interrupt_stale_generating now cutoff db) = snd (update_ops (\<lambda>_. ?stale) ?f db)"
    by (auto simp: interrupt_stale_generating_def update_ops_def app_sql_def store_map_err_def
        sql_stmt_def sql_update_def Let_def split: list.splits)
  ultimately show ?thesis by simp
qed

text \<open>A claim adds at most one row, in the initial phase, with an unused identity.\<close>

definition row_added :: "op_db \<Rightarrow> op_db \<Rightarrow> bool" where
  "row_added db db' \<longleftrightarrow>
     (\<exists>r. ops db' = ops db @ [r] \<and> op_id r \<notin> op_id ` set (ops db)
        \<and> op_claim r \<notin> op_claim ` set (ops db) \<and> row_phase r = Some initial_phase
        \<and> payload_columns r = (None, None, None, None) \<and> op_attempt_count r = 1
        \<and> op_actor_id r \<in> set (account_ids db) \<and> op_bot_id r \<in> set (bot_ids db))
     \<and> key_refs db' = key_refs db \<and> leases db' = leases db
     \<and> account_ids db' = account_ids db \<and> bot_ids db' = bot_ids db \<and> secret_ids db' = secret_ids db"

lemma row_added_same: "row_added db db' \<Longrightarrow> same_tables db' db'' \<Longrightarrow> row_added db db''"
  by (simp add: row_added_def same_tables_def)

lemma row_added_inv:
  assumes inv: "store_inv db" and add: "row_added db db'"
  shows "store_inv db'"
proof -
  from add obtain r where r: "ops db' = ops db @ [r]" "op_id r \<notin> op_id ` set (ops db)"
    "op_claim r \<notin> op_claim ` set (ops db)" "row_phase r = Some initial_phase"
    "payload_columns r = (None, None, None, None)" "op_attempt_count r = 1"
    "op_actor_id r \<in> set (account_ids db)" "op_bot_id r \<in> set (bot_ids db)"
    by (auto simp: row_added_def)
  have "row_ok (key_refs db) r"
    using r(4-6) by (simp add: row_ok_def initial_phase_def payload_ok_def row_payload_def
        payload_columns_def)
  with inv add r show ?thesis
    by (auto simp: store_inv_def row_added_def key_ref_ok_def lease_ok_def)
qed

lemma insert_operation_effect:
  "(fst (insert_operation row db) = Inr () \<and>
      (\<exists>fs. snd (insert_operation row db) = db\<lparr>faults := fs, ops := ops db @ [row]\<rparr>) \<and>
      op_id row \<notin> op_id ` set (ops db) \<and> op_claim row \<notin> op_claim ` set (ops db) \<and>
      op_actor_id row \<in> set (account_ids db) \<and> op_bot_id row \<in> set (bot_ids db))
   \<or> (\<exists>e. fst (insert_operation row db) = Inl e) \<and> same_tables db (snd (insert_operation row db))"
  unfolding insert_operation_def
  by (cases rule: sql_stmt_cases [of "\<lambda>db. if op_id row \<in> op_id ` set (ops db) \<or> op_claim row \<in> op_claim ` set (ops db)
     then (Inl UniqueViolation, db)
     else if op_actor_id row \<notin> set (account_ids db) \<or> op_bot_id row \<notin> set (bot_ids db)
     then (Inl OtherSqlError, db)
     else (Inr (), db\<lparr>ops := ops db @ [row]\<rparr>)" db]) auto

lemma claimed_row_initial:
  "row_phase (claimed_row now i q) = Some initial_phase"
  "payload_columns (claimed_row now i q) = (None, None, None, None)"
  "op_attempt_count (claimed_row now i q) = 1"
  by (simp_all add: claimed_row_def row_phase_def status_parse_def ocs_parse_def
      initial_phase_def payload_columns_def)

lemma claim_operation_effect:
  "same_tables db (snd (claim_operation now fresh q db))
   \<or> row_added db (snd (claim_operation now fresh q db))"
proof -
  define i where "i = (if is_blank (cl_id q) then fresh else cl_id q)"
  obtain res db1 where ins: "insert_operation (claimed_row now i q) db = (res, db1)" by fastforce
  show ?thesis
  proof (cases res)
    case (Inr u)
    then have "row_added db db1"
      using insert_operation_effect [of "claimed_row now i q" db] ins claimed_row_initial [of now i q]
      by (auto simp: row_added_def)
    moreover have "same_tables db1 (snd (claim_operation now fresh q db))"
      using ins Inr by (auto simp: claim_operation_def i_def [symmetric] Let_def
          intro!: read_only_bind [unfolded read_only_def, rule_format]
          read_only_map_err [unfolded read_only_def, rule_format]
          simp: read_only_reads [unfolded read_only_def, rule_format])
    ultimately show ?thesis by (blast intro: row_added_same)
  next
    case (Inl e)
    then have "same_tables db db1"
      using insert_operation_effect [of "claimed_row now i q" db] ins by auto
    moreover have "same_tables db1 (snd (claim_operation now fresh q db))"
    proof (cases e)
      case UniqueViolation
      let ?k = "\<lambda>r. case r of
                None \<Rightarrow> store_lift (Inl (ClaimFailed (conflict ''BRIDGE_OPERATION_DUPLICATE_CLAIM''
                    ''duplicate claim unique constraint fired but existing row was not found'')))
              | Some existing \<Rightarrow>
                  if \<not> matches_claim existing q
                  then store_lift (Inl (ClaimFailed (conflict ''ST_OPERATION_ID_REUSED''
                         ''operation identity does not match the existing claim'')))
                  else store_lift (Inl (DuplicateClaim existing) :: operation_claim_error + bridge_operation_record)"
      have "read_only (store_bind (store_map_err ClaimFailed
              (get_by_claim (cl_bot_id q) (cl_telegram_update_id q) (cl_operation_kind q))) ?k)"
        by (intro read_only_bind read_only_map_err read_only_reads) (auto split: option.splits)
      with ins Inl UniqueViolation show ?thesis
        by (simp add: claim_operation_def i_def [symmetric] Let_def read_only_def)
    next
      case OtherSqlError
      with ins Inl show ?thesis
        by (simp add: claim_operation_def i_def [symmetric] Let_def)
    qed
    ultimately show ?thesis by (blast intro: same_tables_trans)
  qed
qed

text \<open>Key references are only ever added, leases are independent of the operations.\<close>

definition key_added :: "op_db \<Rightarrow> op_db \<Rightarrow> bool" where
  "key_added db db' \<longleftrightarrow>
     (\<exists>k. key_refs db' = key_refs db @ [k] \<and> kr_operation_id k \<notin> kr_operation_id ` set (key_refs db)
        \<and> key_ref_ok db k)
     \<and> ops db' = ops db \<and> leases db' = leases db
     \<and> account_ids db' = account_ids db \<and> bot_ids db' = bot_ids db \<and> secret_ids db' = secret_ids db"

definition leases_changed :: "op_db \<Rightarrow> op_db \<Rightarrow> bool" where
  "leases_changed db db' \<longleftrightarrow>
     distinct (map le_operation_id (leases db')) \<and> (\<forall>l \<in> set (leases db'). lease_ok db l)
     \<and> ops db' = ops db \<and> key_refs db' = key_refs db
     \<and> account_ids db' = account_ids db \<and> bot_ids db' = bot_ids db \<and> secret_ids db' = secret_ids db"

lemma row_ok_more_keys: "row_ok ks r \<Longrightarrow> row_ok (ks @ ks') r"
  unfolding row_ok_def payload_ok_def has_key_ref_def
  by (auto split: option.splits)

lemma key_added_inv: "store_inv db \<Longrightarrow> key_added db db' \<Longrightarrow> store_inv db'"
  unfolding store_inv_def key_added_def key_ref_ok_def lease_ok_def
  by (elim conjE exE) (simp add: row_ok_more_keys)

lemma leases_changed_inv: "store_inv db \<Longrightarrow> leases_changed db db' \<Longrightarrow> store_inv db'"
  by (auto simp: store_inv_def leases_changed_def key_ref_ok_def lease_ok_def)

lemma insert_key_ref_effect:
  assumes "0 < kr_key_version k" "kr_key_version k < 2 ^ 32" "\<not> is_blank (kr_wrapped_secret_id k)"
  shows "same_tables db (snd (insert_key_ref k db)) \<or> key_added db (snd (insert_key_ref k db))"
  unfolding insert_key_ref_def
  by (rule sql_stmt_snd [where R = "\<lambda>d. same_tables db d \<or> key_added db d"])
     (use assms in \<open>auto simp: key_added_def key_ref_ok_def\<close>)

lemma put_key_effect:
  "same_tables db (snd (put_operation_key_reference now i secret kv db))
   \<or> key_added db (snd (put_operation_key_reference now i secret kv db))"
proof (cases "is_blank i \<or> is_blank secret \<or> kv = 0")
  case True
  then show ?thesis by (simp add: put_operation_key_reference_def)
next
  case False
  let ?k = "\<lparr> kr_operation_id = i, kr_wrapped_secret_id = secret, kr_key_version = uint kv,
              kr_created_at = now, kr_updated_at = now \<rparr>"
  have "0 < uint kv" "uint kv < 2 ^ 32"
    using False uint_lt2p [of kv] by (auto simp: word_neq_0_conv word_less_def)
  with False have eff: "same_tables db (snd (app_sql (insert_key_ref ?k) db))
      \<or> key_added db (snd (app_sql (insert_key_ref ?k) db))"
    using insert_key_ref_effect [of ?k db] by simp
  have "same_tables (snd (app_sql (insert_key_ref ?k) db))
      (snd (put_operation_key_reference now i secret kv db))"
    unfolding put_operation_key_reference_def if_not_P [OF False]
    by (intro bind_snd_same) auto
  with eff show ?thesis by (auto intro: same_tables_trans simp: key_added_def same_tables_def)
qed

lemma lease_upsert_effect:
  assumes "store_inv db"
  shows "leases_changed db (snd (lease_upsert now i b inst until db))"
proof -
  have ok: "\<forall>l \<in> set (leases db). lease_ok db l" and dist: "distinct (map le_operation_id (leases db))"
    using assms by (auto simp: store_inv_def)
  show ?thesis
  proof (cases "find (\<lambda>l. le_operation_id l = i) (leases db)")
    case None
    then have "i \<notin> le_operation_id ` set (leases db)" by (auto simp: find_None_iff)
    with None ok dist show ?thesis
      by (auto simp: lease_upsert_def leases_changed_def lease_ok_def i64_max_def list_ex_iff Let_def)
  next
    case (Some l)
    then have l: "l \<in> set (leases db)" "le_operation_id l = i"
      by (auto dest: find_in_set)
    have ids: "map (le_operation_id \<circ> (\<lambda>x. if le_operation_id x = i then l' else x)) ls
        = map le_operation_id ls" if "le_operation_id l' = i" for l' ls
      using that by (induction ls) auto
    show ?thesis
      using ok dist l Some
      by (auto simp: lease_upsert_def leases_changed_def lease_ok_def i64_max_def Let_def
          sql_update_def lease_takeable_def ids)
  qed
qed

lemma leases_changed_faults:
  "leases_changed (db\<lparr>faults := fs\<rparr>) db' = leases_changed db db'"
  by (simp add: leases_changed_def lease_ok_def)

lemma upsert_lease_effect:
  assumes "store_inv db"
  shows "leases_changed db (snd (upsert_lease now i b inst until db))"
  unfolding upsert_lease_def
proof (rule sql_stmt_snd [where R = "leases_changed db"])
  fix fs
  have inv: "store_inv (db\<lparr>faults := fs\<rparr>)"
    using assms store_inv_same [of db "db\<lparr>faults := fs\<rparr>"] by simp
  show "leases_changed db (db\<lparr>faults := fs\<rparr>)"
    using assms by (simp add: leases_changed_def store_inv_def)
  show "leases_changed db (snd (case lease_upsert now i b inst until (db\<lparr>faults := fs\<rparr>) of
      (row, db') \<Rightarrow> (Inr row :: sql_error + lease_row option, db')))"
    using lease_upsert_effect [OF inv, of now i b inst until]
    by (simp add: leases_changed_faults case_prod_unfold)
qed

lemma leases_changed_same:
  "leases_changed db db' \<Longrightarrow> same_tables db' db'' \<Longrightarrow> leases_changed db db''"
  by (simp add: leases_changed_def same_tables_def)

lemma same_leases_changed: "store_inv db \<Longrightarrow> same_tables db db' \<Longrightarrow> leases_changed db db'"
  by (simp add: leases_changed_def same_tables_def store_inv_def)

lemma acquire_lease_effect:
  assumes "store_inv db"
  shows "leases_changed db (snd (try_acquire_execution_lease now i b inst until db))"
proof (cases "is_blank i \<or> is_blank b \<or> is_blank inst \<or> is_blank until")
  case True
  then show ?thesis
    using assms by (simp add: try_acquire_execution_lease_def same_leases_changed)
next
  case False
  have "leases_changed db (snd (app_sql (upsert_lease now i b inst until) db))"
    using upsert_lease_effect [OF assms] by simp
  then show ?thesis
    unfolding try_acquire_execution_lease_def if_not_P [OF False]
    by (rule leases_changed_same) (rule bind_snd_same, simp)
qed

lemma release_lease_effect:
  assumes "store_inv db"
  shows "leases_changed db (snd (release_execution_lease l db))"
proof (cases "i64_try_from (lease_generation l)")
  case None
  then show ?thesis
    using assms by (simp add: release_execution_lease_def store_bind_def store_lift_def same_leases_changed)
next
  case (Some g)
  let ?mine = "\<lambda>x. le_operation_id x = lease_operation_id l
                     \<and> le_instance_id x = lease_instance_id l \<and> le_generation x = g"
  have "leases_changed db (db\<lparr>faults := fs, leases := filter (\<lambda>x. \<not> ?mine x) (leases db)\<rparr>)" for fs
    using assms by (auto simp: leases_changed_def store_inv_def distinct_map_filter)
  then show ?thesis
    using Some assms
    by (cases rule: sql_stmt_cases [of "\<lambda>db. (Inr (length (filter ?mine (leases db)) = 1),
        db\<lparr>leases := filter (\<lambda>x. \<not> ?mine x) (leases db)\<rparr>)" db])
       (auto simp: release_execution_lease_def store_bind_def store_lift_def Let_def
          intro!: same_leases_changed)
qed

section \<open>The store is a ledger\<close>

fun lease_op :: "store_op \<Rightarrow> bool" where
  "lease_op (Op_AcquireLease _ _ _ _ _) = True"
| "lease_op (Op_ReleaseLease _) = True"
| "lease_op _ = False"

lemma non_lease_op_effect:
  assumes "op_typed a" "store_inv db" "\<not> lease_op a"
  shows "rows_changed db (apply_store_op a db) \<or> row_added db (apply_store_op a db)
    \<or> key_added db (apply_store_op a db)"
proof -
  have same: "same_tables db db' \<Longrightarrow> rows_changed db db'" for db'
    using rows_changed_same rows_changed_refl by blast
  show ?thesis
  proof (cases a)
    case (Op_Claim now fresh q)
    then show ?thesis using claim_operation_effect [of db now fresh q] same by auto
  next
    case (Op_PutKey now i secret kv)
    then show ?thesis using put_key_effect [of db now i secret kv] same by auto
  qed (use assms in \<open>simp_all add: cas_ops_changed interrupt_stale_changed op_typed_def\<close>)
qed

lemma lease_op_effect:
  "store_inv db \<Longrightarrow> lease_op a \<Longrightarrow> leases_changed db (apply_store_op a db)"
  by (cases a) (simp_all add: acquire_lease_effect release_lease_effect)

lemma apply_store_op_effect:
  assumes "op_typed a" "store_inv db"
  shows "rows_changed db (apply_store_op a db) \<or> row_added db (apply_store_op a db)
    \<or> key_added db (apply_store_op a db) \<or> leases_changed db (apply_store_op a db)"
  using non_lease_op_effect [OF assms] lease_op_effect [OF assms(2)] by blast

lemma store_inv_apply: "op_typed a \<Longrightarrow> store_inv db \<Longrightarrow> store_inv (apply_store_op a db)"
  using apply_store_op_effect [of a db] rows_changed_inv row_added_inv key_added_inv leases_changed_inv
  by blast

lemma row_of_apply:
  assumes "op_typed a" "store_inv db" "row_of db i = Some r"
  shows "\<exists>r'. row_of (apply_store_op a db) i = Some r' \<and> (r' = r \<or> row_change (key_refs db) r r')"
  using apply_store_op_effect [OF assms(1,2)]
proof (elim disjE)
  assume "rows_changed db (apply_store_op a db)"
  from rows_changed_row_of [OF this, of i] assms(3) show ?thesis
    by (auto simp: option_rel_Some1)
next
  assume "row_added db (apply_store_op a db)"
  with assms(3) show ?thesis
    by (auto simp: row_added_def row_of_def find_append)
next
  assume "key_added db (apply_store_op a db)"
  with assms(3) show ?thesis by (simp add: key_added_def row_of_def)
next
  assume "leases_changed db (apply_store_op a db)"
  with assms(3) show ?thesis by (simp add: leases_changed_def row_of_def)
qed

lemma row_of_Some: "row_of db i = Some r \<Longrightarrow> r \<in> set (ops db) \<and> op_id r = i"
  unfolding row_of_def by (drule find_in_set) simp

lemma row_of_ok: "store_inv db \<Longrightarrow> row_of db i = Some r \<Longrightarrow> row_ok (key_refs db) r"
  by (drule row_of_Some) (simp add: store_inv_def)

lemma row_ok_phase: "row_ok ks r \<Longrightarrow> row_phase r \<noteq> None"
  unfolding row_ok_def by (elim conjE exE) simp

lemma store_phase_apply:
  assumes "op_typed a" "store_inv db" "store_phase db i = Some p"
  shows "\<exists>q. store_phase (apply_store_op a db) i = Some q \<and> (q = p \<or> phase_step p q)"
proof -
  from assms(3) obtain r where r: "row_of db i = Some r" "row_phase r = Some p"
    by (auto simp: store_phase_def Option.bind_eq_Some_conv)
  from row_of_apply [OF assms(1,2) r(1)] obtain r'
    where "row_of (apply_store_op a db) i = Some r'" "r' = r \<or> row_change (key_refs db) r r'" by blast
  with r(2) show ?thesis
    by (cases p) (auto simp: store_phase_def row_change_def)
qed

lemma store_phase_new:
  assumes "op_typed a" "store_inv db" "store_phase db i = None"
  shows "store_phase (apply_store_op a db) i \<in> {None, Some initial_phase}"
proof -
  have none: "row_of db i = None"
    using assms(3) row_ok_phase [OF row_of_ok [OF assms(2), of i]]
    by (cases "row_of db i") (auto simp: store_phase_def)
  show ?thesis
    using apply_store_op_effect [OF assms(1,2)]
  proof (elim disjE)
    assume "rows_changed db (apply_store_op a db)"
    from rows_changed_row_of [OF this, of i] none show ?thesis by (simp add: store_phase_def)
  next
    assume "row_added db (apply_store_op a db)"
    with none show ?thesis by (auto simp: row_added_def row_of_def find_append store_phase_def)
  next
    assume "key_added db (apply_store_op a db)"
    with none show ?thesis by (simp add: key_added_def row_of_def store_phase_def)
  next
    assume "leases_changed db (apply_store_op a db)"
    with none show ?thesis by (simp add: leases_changed_def row_of_def store_phase_def)
  qed
qed

lemma store_payload_kept:
  assumes "op_typed a" "store_inv db" "store_payload db i = Some x"
  shows "store_payload (apply_store_op a db) i = Some x"
proof -
  from assms(3) obtain r where r: "row_of db i = Some r" "row_payload r = Some x"
    by (auto simp: store_payload_def Option.bind_eq_Some_conv)
  from row_of_apply [OF assms(1,2) r(1)] obtain r'
    where "row_of (apply_store_op a db) i = Some r'" "r' = r \<or> row_change (key_refs db) r r'" by blast
  with r(2) show ?thesis by (auto simp: store_payload_def row_change_def)
qed

lemma store_payload_present:
  assumes "store_inv db" "store_phase db i = Some p"
    and "fst p \<in> {Generated, Committing, Committed, Delivered, Conflict}"
  shows "store_payload db i \<noteq> None"
proof -
  from assms(2) obtain r where r: "row_of db i = Some r" "row_phase r = Some p"
    by (auto simp: store_phase_def Option.bind_eq_Some_conv)
  with row_of_ok [OF assms(1) r(1)] assms(3) show ?thesis
    by (auto simp: row_ok_def store_payload_def)
qed

interpretation store: ledger apply_store_op op_typed store_inv store_phase
  by unfold_locales (rule store_inv_apply store_phase_apply store_phase_new; assumption)+

interpretation store: payload_ledger apply_store_op op_typed store_inv store_phase store_payload
  by unfold_locales (rule store_payload_kept store_payload_present; assumption)+

section \<open>Outcomes of reads and updates\<close>

text \<open>On a database that satisfies the invariant, decoding a row never fails.\<close>

lemma into_record_ok:
  assumes "row_ok ks r"
  shows "\<exists>b. into_record r = Inr b \<and> row_phase r = Some (rec_status b, rec_commit_state b) \<and> rec_id b = op_id r"
proof -
  from assms obtain p where p: "row_phase r = Some p" and pl: "payload_ok ks r"
    and att: "0 \<le> op_attempt_count r" "op_attempt_count r < 2 ^ 32"
    unfolding row_ok_def by (elim conjE exE) simp
  from p obtain s c where sc: "status_parse (op_status r) = Some s" "ocs_parse (op_commit_state r) = Some c"
    by (auto simp: row_phase_def split: option.splits)
  have "\<exists>x. map_payload (op_payload_ciphertext r) (op_payload_nonce r) (op_payload_key_version r) = Inr x"
  proof (cases "row_payload r")
    case None
    with pl show ?thesis by (simp add: payload_ok_def)
  next
    case (Some y)
    with pl show ?thesis
      by (auto simp: payload_ok_def row_payload_def u32_try_from_def split: option.splits)
  qed
  with sc att show ?thesis
    by (auto simp: into_record_def u32_try_from_def row_phase_def)
qed

lemma update_ops_no_fault:
  "faults db = [] \<Longrightarrow> update_ops P f db =
     (Inr (length (filter (P db) (ops db))), db\<lparr>ops := map (\<lambda>r. if P db r then f r else r) (ops db)\<rparr>)"
  by (simp add: update_ops_def app_sql_def store_map_err_def sql_stmt_def sql_update_def)

lemma select_ops_no_fault: "faults db = [] \<Longrightarrow> select_ops P db = (Inr (filter P (ops db)), db)"
  by (simp add: select_ops_def app_sql_def store_map_err_def sql_stmt_def)

lemma filter_id_row:
  assumes "store_inv db"
  shows "filter (\<lambda>r. op_id r = i) (ops db) = (case row_of db i of None \<Rightarrow> [] | Some r \<Rightarrow> [r])"
proof (cases "row_of db i")
  case None
  then have "\<forall>r \<in> set (ops db). op_id r \<noteq> i" by (auto simp: row_of_def find_None_iff)
  with None show ?thesis by (simp add: filter_empty_conv)
next
  case (Some r)
  with row_of_Some [OF Some] assms filter_unique_key [of op_id "ops db" r] show ?thesis
    by (auto simp: store_inv_def)
qed

lemma get_operation_no_fault:
  assumes "store_inv db" "faults db = []"
  shows "get_operation i db =
    (case row_of db i of None \<Rightarrow> Inr None | Some r \<Rightarrow> map_ok Some (into_record r), db)"
  using assms
  by (simp add: get_operation_def store_bind_def select_ops_no_fault filter_id_row store_lift_def
      first_record_def split: option.splits)

definition cas_rejected :: "string \<Rightarrow> string \<Rightarrow> string \<Rightarrow> app_error" where
  "cas_rejected i from_s to_s = conflict ''BRIDGE_OPERATION_CAS_CONFLICT''
     (''operation '' @ i @ '' rejected transition '' @ from_s @ '' -> '' @ to_s)"

text \<open>
  The outcome of every compare-and-set when no statement fails: it rewrites exactly the row it
  names and returns its record, or it rejects the transition and changes nothing.
\<close>

lemma cas_outcome:
  assumes inv: "store_inv db" and nf: "faults db = []"
    and P: "\<And>r. P db r \<Longrightarrow> op_id r = i" and f: "\<And>r. op_id (f r) = op_id r"
  shows "store_bind (update_ops P f) (\<lambda>n. assert_cas n i a b) db =
    (case row_of db i of
       None \<Rightarrow> (Inl (cas_rejected i a b), db)
     | Some r \<Rightarrow>
         if P db r
         then (into_record (f r), db\<lparr>ops := map (\<lambda>x. if op_id x = i then f x else x) (ops db)\<rparr>)
         else (Inl (cas_rejected i a b), db))"
proof -
  have rejected: "assert_cas 0 i a b d = (Inl (cas_rejected i a b), d)" for d
    by (simp add: assert_cas_def store_lift_def cas_rejected_def)
  have idle: "db\<lparr>ops := map (\<lambda>r. if P db r then f r else r) (ops db)\<rparr> = db"
    if "\<forall>r \<in> set (ops db). \<not> P db r"
  proof -
    have "map (\<lambda>r. if P db r then f r else r) (ops db) = ops db"
      using that by (intro map_idI) auto
    then show ?thesis by simp
  qed
  have eq_row: "r' = r" if "row_of db i = Some r" "r' \<in> set (ops db)" "op_id r' = i" for r r'
  proof -
    have "r' \<in> set (filter (\<lambda>r. op_id r = i) (ops db))" using that(2,3) by simp
    then show ?thesis using that(1) by (simp only: filter_id_row [OF inv]) simp
  qed
  show ?thesis
  proof (cases "row_of db i")
    case None
    then have none: "\<forall>r \<in> set (ops db). \<not> P db r"
      using P by (auto simp: row_of_def find_None_iff)
    then have "filter (P db) (ops db) = []" by (simp add: filter_empty_conv)
    then show ?thesis
      using None rejected idle [OF none] by (simp add: store_bind_def update_ops_no_fault [OF nf])
  next
    case (Some r)
    note r = row_of_Some [OF Some]
    show ?thesis
    proof (cases "P db r")
      case False
      then have none: "\<forall>r \<in> set (ops db). \<not> P db r" using eq_row [OF Some] P by blast
      then have "filter (P db) (ops db) = []" by (simp add: filter_empty_conv)
      then show ?thesis
        using Some False rejected idle [OF none]
        by (simp add: store_bind_def update_ops_no_fault [OF nf])
    next
      case True
      then have iff: "P db r' \<longleftrightarrow> op_id r' = i" if "r' \<in> set (ops db)" for r'
        using that P eq_row [OF Some] by blast
      then have flt: "filter (P db) (ops db) = [r]"
        using filter_id_row [OF inv, of i] Some by (metis (mono_tags, lifting) filter_cong option.simps(5))
      have upd: "map (\<lambda>x. if P db x then f x else x) (ops db)
          = map (\<lambda>x. if op_id x = i then f x else x) (ops db)"
        using iff by (intro map_cong) auto
      let ?db = "db\<lparr>ops := map (\<lambda>x. if op_id x = i then f x else x) (ops db)\<rparr>"
      have "filter (\<lambda>x. op_id x = i) (ops ?db) = [f r]"
        using filter_id_row [OF inv, of i] Some f r
        by (simp add: filter_map comp_def if_distrib [of op_id] cong: if_cong)
      then have "get_operation i ?db = (map_ok Some (into_record (f r)), ?db)"
        using nf by (simp add: get_operation_def store_bind_def select_ops_no_fault store_lift_def
            first_record_def)
      moreover have "update_ops P f db = (Inr 1, ?db)"
        by (simp only: update_ops_no_fault [OF nf] flt upd) simp
      ultimately show ?thesis
        using Some True
        by (cases "into_record (f r)") (simp_all add: store_bind_def assert_cas_def store_lift_def)
    qed
  qed
qed

section \<open>Leases\<close>

definition lease_of :: "op_db \<Rightarrow> string \<Rightarrow> lease_row option" where
  "lease_of db i = find (\<lambda>l. le_operation_id l = i) (leases db)"

text \<open>
  Operations that leave the lease \<open>l\<close> alone: everything that is not a lease operation of its
  holder, and acquisitions by other instances before it runs out.
\<close>

fun foreign_to :: "lease_row \<Rightarrow> store_op \<Rightarrow> bool" where
  "foreign_to l (Op_AcquireLease now i b inst until) =
     (i \<noteq> le_operation_id l \<or> inst \<noteq> le_instance_id l \<and> now < le_until l)"
| "foreign_to l (Op_ReleaseLease m) =
     (lease_operation_id m \<noteq> le_operation_id l \<or> lease_instance_id m \<noteq> le_instance_id l
      \<or> uint (lease_generation m) \<noteq> le_generation l)"
| "foreign_to l _ = True"

lemma find_filter_keep:
  "find P xs = Some x \<Longrightarrow> Q x \<Longrightarrow> find P (filter Q xs) = Some x"
  by (induction xs) (auto split: if_splits)

lemma lease_upsert_foreign:
  assumes "lease_of db j = Some l" "foreign_to l (Op_AcquireLease now i b inst until)"
  shows "lease_of (snd (lease_upsert now i b inst until db)) j = Some l"
proof -
  have l: "le_operation_id l = j"
    using assms(1) by (auto simp: lease_of_def dest: find_in_set)
  have upd: "find (\<lambda>l. le_operation_id l = j) (map (\<lambda>x. if le_operation_id x = i then l' else x) ls)
      = find (\<lambda>l. le_operation_id l = j) ls" if "i \<noteq> j" "le_operation_id l' = i" for l' :: lease_row and ls
    using that by (induction ls) auto
  show ?thesis
  proof (cases "i = j")
    case True
    with assms l have "\<not> lease_takeable now inst l"
      by (auto simp: lease_takeable_def)
    with True assms(1) show ?thesis by (auto simp: lease_upsert_def lease_of_def)
  next
    case False
    show ?thesis
    proof (cases "find (\<lambda>l. le_operation_id l = i) (leases db)")
      case None
      with False assms(1) show ?thesis
        by (simp add: lease_upsert_def lease_of_def Let_def find_append)
    next
      case (Some m)
      then have "le_operation_id m = i" by (auto dest: find_in_set)
      with Some False assms(1) show ?thesis
        by (simp add: lease_upsert_def lease_of_def Let_def sql_update_def upd)
    qed
  qed
qed

lemma lease_of_faults [simp]: "lease_of (db\<lparr>faults := fs\<rparr>) j = lease_of db j"
  by (simp add: lease_of_def)

lemma acquire_foreign:
  assumes "lease_of db j = Some l" "foreign_to l (Op_AcquireLease now i b inst until)"
  shows "lease_of (snd (try_acquire_execution_lease now i b inst until db)) j = Some l"
proof (cases "is_blank i \<or> is_blank b \<or> is_blank inst \<or> is_blank until")
  case True
  then show ?thesis using assms(1) by (simp add: try_acquire_execution_lease_def)
next
  case False
  have "lease_of (snd (upsert_lease now i b inst until db)) j = Some l"
    unfolding upsert_lease_def
    by (rule sql_stmt_snd [where R = "\<lambda>d. lease_of d j = Some l"])
       (use assms in \<open>simp_all add: case_prod_unfold lease_upsert_foreign\<close>)
  moreover have "same_tables (snd (app_sql (upsert_lease now i b inst until) db))
      (snd (try_acquire_execution_lease now i b inst until db))"
    unfolding try_acquire_execution_lease_def if_not_P [OF False] by (rule bind_snd_same) simp
  ultimately show ?thesis by (simp add: same_tables_def lease_of_def)
qed

lemma release_foreign:
  assumes "lease_of db j = Some l" "foreign_to l (Op_ReleaseLease m)"
  shows "lease_of (snd (release_execution_lease m db)) j = Some l"
proof (cases "i64_try_from (lease_generation m)")
  case None
  then show ?thesis
    using assms by (simp add: release_execution_lease_def store_bind_def store_lift_def)
next
  case (Some g)
  then have g: "g = uint (lease_generation m)" by (auto simp: i64_try_from_def split: if_splits)
  let ?keep = "\<lambda>x. \<not> (le_operation_id x = lease_operation_id m
      \<and> le_instance_id x = lease_instance_id m \<and> le_generation x = g)"
  have "?keep l" using assms(2) g by auto
  then have "lease_of (db\<lparr>faults := fs, leases := filter ?keep (leases db)\<rparr>) j = Some l" for fs
    using assms(1) by (simp add: lease_of_def find_filter_keep)
  then show ?thesis
    using Some assms(1)
    by (simp add: release_execution_lease_def store_bind_def store_lift_def Let_def)
       (rule sql_stmt_snd [where R = "\<lambda>d. lease_of d j = Some l"], simp_all)
qed

lemma foreign_keeps_lease:
  assumes "op_typed a" "store_inv db" "lease_of db j = Some l" "foreign_to l a"
  shows "lease_of (apply_store_op a db) j = Some l"
proof (cases "lease_op a")
  case True
  then consider (acquire) now i b inst until where "a = Op_AcquireLease now i b inst until"
    | (release) m where "a = Op_ReleaseLease m"
    by (elim lease_op.elims) simp_all
  then show ?thesis
  proof cases
    case acquire
    with acquire_foreign [OF assms(3)] assms(4) show ?thesis by (simp only: apply_store_op.simps)
  next
    case release
    with release_foreign [OF assms(3)] assms(4) show ?thesis by (simp only: apply_store_op.simps)
  qed
next
  case False
  then have "leases (apply_store_op a db) = leases db"
    using non_lease_op_effect [OF assms(1,2) False]
    by (elim disjE) (simp_all only: rows_changed_def row_added_def key_added_def)
  with assms(3) show ?thesis by (simp only: lease_of_def)
qed

lemma run_foreign_keeps_lease:
  "list_all op_typed as \<Longrightarrow> list_all (foreign_to l) as \<Longrightarrow> store_inv db \<Longrightarrow> lease_of db j = Some l \<Longrightarrow>
     lease_of (fold apply_store_op as db) j = Some l"
proof (induction as arbitrary: db)
  case Nil
  then show ?case by simp
next
  case (Cons a as)
  then show ?case using foreign_keeps_lease [of a db j l] store_inv_apply [of a db] by simp
qed

section \<open>Claims\<close>

lemma into_record_fields:
  assumes "into_record row = Inr b"
  shows "rec_id b = op_id row" "rec_actor_id b = op_actor_id row" "rec_bot_id b = op_bot_id row"
    "rec_telegram_update_id b = op_telegram_update_id row"
    "rec_channel_context_key b = op_channel_context_key row"
    "rec_operation_kind b = op_operation_kind row"
    "loc_handle (rec_locator b) = unwrap_or_default (op_st_handle row)"
    "loc_avatar (rec_locator b) = unwrap_or_default (op_st_character_avatar row)"
    "loc_chat_file (rec_locator b) = unwrap_or_default (op_st_chat_file row)"
    "row_phase row = Some (rec_status b, rec_commit_state b)"
  using assms by (auto simp: into_record_def bind_r_Inr_iff row_phase_def)

lemma matches_claim_identity:
  assumes "into_record row = Inr b" "op_identity row = op_identity (claimed_row now i q)"
    and "is_blank (cl_id q) \<or> i = cl_id q"
  shows "matches_claim b q"
  using assms(2,3) into_record_fields [OF assms(1)]
  by (simp add: matches_claim_def op_identity_def op_claim_def claimed_row_def unwrap_or_default_def)

lemma run_identity:
  "list_all op_typed as \<Longrightarrow> store_inv db \<Longrightarrow> row_of db i = Some r \<Longrightarrow>
     \<exists>r'. row_of (fold apply_store_op as db) i = Some r' \<and> op_identity r' = op_identity r"
proof (induction as arbitrary: db r)
  case Nil
  then show ?case by simp
next
  case (Cons a as)
  then have a: "op_typed a" "list_all op_typed as" by simp_all
  from row_of_apply [OF a(1) Cons.prems(2,3)] obtain r1
    where r1: "row_of (apply_store_op a db) i = Some r1" "op_identity r1 = op_identity r"
    by (auto simp: row_change_def)
  from Cons.IH [OF a(2) store_inv_apply [OF a(1) Cons.prems(2)] r1(1)] r1(2) show ?case by simp
qed

lemma claimed_row_keys [simp]:
  "op_id (claimed_row now i q) = i" "op_actor_id (claimed_row now i q) = cl_actor_id q"
  "op_bot_id (claimed_row now i q) = cl_bot_id q"
  "op_claim (claimed_row now i q) = (cl_bot_id q, cl_telegram_update_id q, cl_operation_kind q)"
  by (simp_all add: claimed_row_def op_claim_def)

lemma get_operation_SomeD:
  assumes "store_inv db" "get_operation i db = (Inr (Some b), db')"
  shows "\<exists>row. row_of db i = Some row \<and> into_record row = Inr b"
proof -
  from assms(2) obtain rs where "fst (select_ops (\<lambda>r. op_id r = i) db) = Inr rs" "first_record rs = Inr (Some b)"
    by (auto simp: get_operation_def store_bind_def store_lift_def split: prod.splits sum.splits)
  moreover from this(1) have "rs = filter (\<lambda>r. op_id r = i) (ops db)"
    by (auto simp: select_ops_def app_sql_def store_map_err_def sql_stmt_def
        split: prod.splits list.splits if_splits)
  ultimately show ?thesis
    using filter_id_row [OF assms(1), of i]
    by (auto simp: first_record_def map_ok_def split: option.splits sum.splits)
qed

text \<open>A successful claim leaves the claimed row in the table.\<close>

lemma claim_InrD:
  assumes inv: "store_inv db" and claim: "claim_operation now fresh q db = (Inr b, db1)"
  defines "i \<equiv> (if is_blank (cl_id q) then fresh else cl_id q)"
  shows "store_inv db1" "row_of db i = None" "row_of db1 i = Some (claimed_row now i q)"
    "into_record (claimed_row now i q) = Inr b"
proof -
  show inv1: "store_inv db1"
    using claim_operation_effect [of db now fresh q] claim inv
    by (auto simp: row_added_inv store_inv_same)
  obtain res d where ins: "insert_operation (claimed_row now i q) db = (res, d)" by fastforce
  have "res = Inr ()"
  proof (cases res)
    case (Inl e)
    with ins claim show ?thesis
      by (cases e) (auto simp: claim_operation_def i_def [symmetric] Let_def store_bind_def
          store_lift_def store_map_err_def split: prod.splits sum.splits option.splits if_splits)
  qed simp
  with ins insert_operation_effect [of "claimed_row now i q" db] obtain fs
    where d: "d = db\<lparr>faults := fs, ops := ops db @ [claimed_row now i q]\<rparr>"
      and new: "i \<notin> op_id ` set (ops db)" and added: "row_added db d"
    using claimed_row_initial [of now i q] by (auto simp: row_added_def)
  show none: "row_of db i = None"
    using new by (auto simp: row_of_def find_None_iff)
  then have row: "row_of d i = Some (claimed_row now i q)"
    using d by (simp add: row_of_def find_append)
  from claim ins \<open>res = Inr ()\<close> have got: "get_operation i d = (Inr (Some b), db1)"
    by (auto simp: claim_operation_def i_def [symmetric] Let_def store_bind_def store_lift_def
        store_map_err_def split: prod.splits sum.splits option.splits)
  then have "same_tables d db1"
    using read_only_reads(2) [of i] by (metis read_only_def snd_conv)
  then show "row_of db1 i = Some (claimed_row now i q)"
    using row by (simp add: store_views_same)
  show "into_record (claimed_row now i q) = Inr b"
    using get_operation_SomeD [OF row_added_inv [OF inv added] got] row by simp
qed

text \<open>A claim whose identity columns match an existing row is reported as a duplicate.\<close>

lemma claim_duplicate:
  assumes inv: "store_inv db" and nf: "faults db = []" and row: "row_of db i = Some row"
    and same: "op_identity row = op_identity (claimed_row now0 i q)"
    and i: "is_blank (cl_id q) \<or> i = cl_id q"
  shows "\<exists>b. claim_operation now fresh q db = (Inl (DuplicateClaim b), db) \<and> into_record row = Inr b"
proof -
  obtain b where b: "into_record row = Inr b"
    using into_record_ok [OF row_of_ok [OF inv row]] by blast
  have key: "op_claim row = (cl_bot_id q, cl_telegram_update_id q, cl_operation_kind q)"
    using same by (simp add: op_identity_def)
  let ?i = "if is_blank (cl_id q) then fresh else cl_id q"
  have "op_claim (claimed_row now ?i q) \<in> op_claim ` set (ops db)"
    using row_of_Some [OF row] key by (auto simp: image_iff intro!: bexI [of _ row])
  then have ins: "insert_operation (claimed_row now ?i q) db = (Inl UniqueViolation, db)"
    using nf by (simp add: insert_operation_def sql_stmt_def)
  have "filter (\<lambda>r. op_claim r = op_claim row) (ops db) = [row]"
    using inv row_of_Some [OF row] by (intro filter_unique_key) (auto simp: store_inv_def)
  then have "filter (\<lambda>r. op_bot_id r = cl_bot_id q \<and> op_telegram_update_id r = cl_telegram_update_id q
      \<and> op_operation_kind r = cl_operation_kind q) (ops db) = [row]"
    by (simp add: key) (simp add: op_claim_def)
  then have "get_by_claim (cl_bot_id q) (cl_telegram_update_id q) (cl_operation_kind q) db = (Inr (Some b), db)"
    using b by (simp add: get_by_claim_def store_bind_def select_ops_no_fault [OF nf] store_lift_def
        first_record_def)
  then have "claim_operation now fresh q db = (Inl (DuplicateClaim b), db)"
    using ins matches_claim_identity [OF b same i]
    by (simp add: claim_operation_def Let_def store_bind_def store_map_err_def store_lift_def
        del: claimed_row_keys)
  with b show ?thesis by blast
qed

section \<open>Lease outcomes\<close>

lemma upsert_lease_SomeD:
  assumes "upsert_lease now i b inst until db = (Inr (Some l), db1)"
  shows "lease_of db1 i = Some l \<and> le_operation_id l = i \<and> le_instance_id l = inst \<and> le_until l = until"
proof -
  from assms obtain fs where up: "lease_upsert now i b inst until (db\<lparr>faults := fs\<rparr>) = (Some l, db1)"
    unfolding upsert_lease_def
    by (cases rule: sql_stmt_cases [of "\<lambda>db. case lease_upsert now i b inst until db of
        (row, db') \<Rightarrow> ((Inr row :: sql_error + lease_row option), db')" db])
       (auto split: prod.splits)
  have upd: "find (\<lambda>l. le_operation_id l = i) (map (\<lambda>x. if le_operation_id x = i then l' else x) ls) = Some l'"
    if "le_operation_id l' = i" "find (\<lambda>l. le_operation_id l = i) ls = Some m" for l' m :: lease_row and ls
    using that by (induction ls) (auto split: if_splits)
  show ?thesis
  proof (cases "find (\<lambda>l. le_operation_id l = i) (leases db)")
    case None
    with up show ?thesis
      by (auto simp: lease_upsert_def lease_of_def Let_def find_append split: if_splits)
  next
    case (Some m)
    then have m: "le_operation_id m = i" by (auto dest: find_in_set)
    from Some up show ?thesis
      by (auto simp: lease_upsert_def lease_of_def Let_def sql_update_def m upd [OF _ Some] split: if_splits)
  qed
qed

lemma acquire_SomeD:
  assumes inv: "store_inv db"
    and acq: "try_acquire_execution_lease now i b inst until db = (Inr (Some g), db1)"
  shows "\<exists>l. lease_of db1 i = Some l \<and> le_operation_id l = i \<and> le_instance_id l = inst
    \<and> le_until l = until \<and> le_generation l = uint (lease_generation g)"
proof -
  from acq obtain l where up: "upsert_lease now i b inst until db = (Inr (Some l), db1)"
    and g: "u64_try_from (le_generation l) = Some (lease_generation g)"
    by (auto simp: try_acquire_execution_lease_def store_bind_def store_lift_def app_sql_def
        store_map_err_def bind_r_Inr_iff map_err_def
        split: prod.splits sum.splits option.splits if_splits)
  note l = upsert_lease_SomeD [OF up]
  have "leases_changed db db1" using acquire_lease_effect [OF inv, of now i b inst until] acq by simp
  moreover have "l \<in> set (leases db1)" using l by (auto simp: lease_of_def dest: find_in_set)
  ultimately have "0 < le_generation l" "le_generation l \<le> i64_max"
    by (auto simp: leases_changed_def lease_ok_def)
  then have "uint (of_int (le_generation l) :: u64) = le_generation l"
    by (simp add: uint_word_of_int i64_max_def)
  then have "le_generation l = uint (lease_generation g)"
    using g by (auto simp: u64_try_from_def split: if_splits)
  with l show ?thesis by blast
qed

lemma acquire_refused:
  assumes "lease_of db i = Some l" "inst \<noteq> le_instance_id l" "now < le_until l"
  shows "fst (try_acquire_execution_lease now i b inst until db) \<noteq> Inr (Some g)"
proof
  assume "fst (try_acquire_execution_lease now i b inst until db) = Inr (Some g)"
  then obtain db1 where "try_acquire_execution_lease now i b inst until db = (Inr (Some g), db1)"
    by (metis prod.collapse)
  then obtain m where up: "upsert_lease now i b inst until db = (Inr (Some m), db1)"
    by (auto simp: try_acquire_execution_lease_def store_bind_def store_lift_def app_sql_def
        store_map_err_def bind_r_Inr_iff map_err_def
        split: prod.splits sum.splits option.splits if_splits)
  have "le_operation_id l = i" using assms(1) by (auto simp: lease_of_def dest: find_in_set)
  with assms have "lease_of db1 i = Some l"
    using acquire_foreign [of db i l now i b inst until] up
    by (auto simp: upsert_lease_def sql_stmt_def lease_of_def lease_upsert_def lease_takeable_def
        split: list.splits if_splits prod.splits)
  with upsert_lease_SomeD [OF up] assms(2) show False by simp
qed

lemma row_phase_iff:
  "row_phase r = Some (s, c) \<longleftrightarrow> op_status r = status_as_str s \<and> op_commit_state r = ocs_as_str c"
  by (auto simp: row_phase_def status_parse_iff ocs_parse_iff split: option.splits)

section \<open>A concrete database\<close>

text \<open>A database with one account, bot and secret, one claim, and a run of it to a commit.\<close>

definition demo_db :: op_db where
  "demo_db = \<lparr> ops = [], key_refs = [], leases = [], account_ids = [''account''],
     bot_ids = [''bot''], secret_ids = [''secret''], faults = [] \<rparr>"

definition demo_claim :: claim_operation_request where
  "demo_claim = \<lparr> cl_id = ''op-1'', cl_actor_id = ''account'', cl_bot_id = ''bot'',
     cl_telegram_update_id = 7, cl_channel_context_key = ''ctx'', cl_operation_kind = KIND_SEND,
     cl_locator = \<lparr> loc_handle = ''h'', loc_avatar = ''a'', loc_character_name = [],
       loc_chat_file = ''f'' \<rparr>, cl_request_id = ''rq'', cl_trace_id = ''tr'' \<rparr>"

definition demo_payload :: encrypted_operation_payload where
  "demo_payload = \<lparr> ep_ciphertext = ''cipher'', ep_nonce = replicate 24 (CHR ''n''), ep_key_version = 1 \<rparr>"

definition demo_claimed :: op_db where
  "demo_claimed = snd (claim_operation ''t0'' ''id'' demo_claim demo_db)"

definition demo_run :: "store_op list" where
  "demo_run =
     [Op_Snapshot ''t1'' ''op-1'' (Some ''sha'') (Some ''int'') (Some 10) (Some 2),
      Op_PutKey ''t2'' ''op-1'' ''secret'' 1,
      Op_Generated ''t3'' ''op-1'' demo_payload ''digest'',
      Op_Committing ''t4'' ''op-1'',
      Op_CommitUnknown ''t5'' ''op-1'',
      Op_Committed ''t6'' ''op-1'' ''{}'' OCS_Unknown]"

lemma demo_facts:
  "store_inv demo_db" "list_all op_typed demo_run"
  "faults (fold apply_store_op demo_run demo_claimed) = []"
  "store_phase demo_claimed ''op-1'' = Some (Received, OCS_NotStarted)"
  "store_phase (fold apply_store_op demo_run demo_claimed) ''op-1'' = Some (Committed, OCS_Applied)"
proof -
  show "store_inv demo_db" by (simp add: store_inv_def demo_db_def)
qed code_simp+

lemma demo_claim_ok: "\<exists>b. claim_operation ''t0'' ''id'' demo_claim demo_db = (Inr b, demo_claimed)"
proof -
  have "\<not> isl (fst (claim_operation ''t0'' ''id'' demo_claim demo_db))" by code_simp
  then show ?thesis
    unfolding demo_claimed_def
    by (cases "claim_operation ''t0'' ''id'' demo_claim demo_db"; cases "fst (claim_operation ''t0'' ''id'' demo_claim demo_db)") auto
qed

lemma demo_claimed_inv: "store_inv demo_claimed"
  using demo_claim_ok claim_InrD(1) [OF demo_facts(1)] by blast

definition demo_lease where
  "demo_lease = try_acquire_execution_lease ''10'' ''op-1'' ''bot'' ''inst-a'' ''20'' demo_claimed"

definition demo_lease_row :: lease_row where
  "demo_lease_row = \<lparr> le_operation_id = ''op-1'', le_instance_id = ''inst-a'', le_generation = 1,
     le_until = ''20'', le_created_at = ''10'', le_updated_at = ''10'' \<rparr>"

lemma demo_lease_facts:
  "fst demo_lease = Inr (Some \<lparr> lease_operation_id = ''op-1'', lease_instance_id = ''inst-a'',
     lease_generation = 1, lease_until = ''20'' \<rparr>)"
  "lease_of (snd demo_lease) ''op-1'' = Some demo_lease_row"
  "list_all (foreign_to demo_lease_row)
     (Op_AcquireLease ''15'' ''op-1'' ''bot'' ''inst-b'' ''30'' # demo_run)"
  "list_all op_typed (Op_AcquireLease ''15'' ''op-1'' ''bot'' ''inst-b'' ''30'' # demo_run)"
  by code_simp+

section \<open>Properties\<close>

text \<open>C4. Every operation of the store, and every sequence of them with any pattern of failing
  statements, keeps the invariant of the database: unique identities and claims, decodable
  rows, coherent status and commit state, complete payloads bound to an existing key
  reference, positive lease generations and intact foreign keys.\<close>

theorem store_run_keeps_invariant:
  assumes "list_all op_typed as" "store_inv db"
  shows "store_inv (fold apply_store_op as db)"
  using assms by (rule store.run_inv)

theorem store_run_keeps_invariant_witness:
  "list_all op_typed demo_run \<and> store_inv demo_claimed
   \<and> store_inv (fold apply_store_op demo_run demo_claimed)"
  using store_run_keeps_invariant [OF demo_facts(2) demo_claimed_inv] demo_facts(2) demo_claimed_inv
  by blast

text \<open>An operation once recorded is never lost, and whatever the store is asked to do its
  status only moves along the transitions of the status machine of operations.rs.\<close>

theorem store_run_follows_lifecycle:
  assumes "list_all op_typed as" "store_inv db" "store_phase db i = Some p"
  shows "\<exists>q. store_phase (fold apply_store_op as db) i = Some q \<and> status_path (fst p) (fst q)"
  using assms by (rule store.run_status)

theorem store_run_follows_lifecycle_witness:
  "\<exists>q. store_phase (fold apply_store_op demo_run demo_claimed) ''op-1'' = Some q
     \<and> status_path Received (fst q) \<and> fst q = Committed"
  using store_run_follows_lifecycle [OF demo_facts(2) demo_claimed_inv demo_facts(4)] demo_facts(5)
  by auto

text \<open>C5. A commit that was recorded as applied stays applied: no later sequence of store
  operations moves the operation to a status other than committed or delivered or to another
  commit state.\<close>

theorem applied_commit_is_final:
  assumes "list_all op_typed as" "store_inv db" "store_phase db i = Some (st, OCS_Applied)"
    and "st \<in> {Committed, Delivered}"
  shows "\<exists>st' \<in> {Committed, Delivered}.
    store_phase (fold apply_store_op as db) i = Some (st', OCS_Applied)"
  using assms by (rule store.run_committed)

theorem applied_commit_is_final_witness:
  "\<exists>st' \<in> {Committed, Delivered}. store_phase (fold apply_store_op demo_run
     (fold apply_store_op demo_run demo_claimed)) ''op-1'' = Some (st', OCS_Applied)"
  using applied_commit_is_final [OF demo_facts(2) store.run_inv [OF demo_facts(2) demo_claimed_inv]
      demo_facts(5)] by simp

text \<open>Whenever an operation is generated, committing or committed, its encrypted payload is
  complete (24-byte nonce, key version, mutation digest) and its key reference has the same
  key version, so recovery has what it needs to replay it.\<close>

theorem pending_operation_is_recoverable:
  assumes "list_all op_typed as" "store_inv db"
    and "store_phase (fold apply_store_op as db) i = Some (st, c)"
    and "st \<in> {Generated, Committing, Committed}"
  shows "\<exists>ct n kv d. store_payload (fold apply_store_op as db) i = Some (ct, n, kv, d)
    \<and> length n = 24 \<and> has_key_ref (key_refs (fold apply_store_op as db)) i kv"
proof -
  let ?db = "fold apply_store_op as db"
  obtain x where x: "store_payload ?db i = Some x"
    using store.run_recoverable [OF assms] by blast
  then obtain r where r: "row_of ?db i = Some r" "row_payload r = Some x"
    by (auto simp: store_payload_def Option.bind_eq_Some_conv)
  have "payload_ok (key_refs ?db) r"
    using row_of_ok [OF store.run_inv [OF assms(1,2)] r(1)] unfolding row_ok_def by simp
  with x r row_of_Some [OF r(1)] show ?thesis by (cases x) (auto simp: payload_ok_def)
qed

theorem pending_operation_is_recoverable_witness:
  "\<exists>ct n kv d. store_payload (fold apply_store_op demo_run demo_claimed) ''op-1'' = Some (ct, n, kv, d)
    \<and> length n = 24 \<and> has_key_ref (key_refs (fold apply_store_op demo_run demo_claimed)) ''op-1'' kv"
  using pending_operation_is_recoverable [OF demo_facts(2) demo_claimed_inv demo_facts(5)] by simp

text \<open>C13. A Telegram update is claimed at most once per operation kind: after a successful claim
  and any further store operations, claiming again with the same request inserts nothing and
  reports the original operation as a duplicate, at whatever point of its life it is.\<close>

theorem claim_exactly_once:
  assumes "store_inv db" "claim_operation now fresh q db = (Inr b, db1)"
    and "list_all op_typed as" "faults (fold apply_store_op as db1) = []"
  shows "\<exists>b'. claim_operation now' fresh' q (fold apply_store_op as db1)
      = (Inl (DuplicateClaim b'), fold apply_store_op as db1)
    \<and> rec_id b' = rec_id b \<and> status_path (rec_status b) (rec_status b')"
proof -
  define i where "i = (if is_blank (cl_id q) then fresh else cl_id q)"
  note c = claim_InrD [OF assms(1,2), folded i_def]
  let ?db = "fold apply_store_op as db1"
  from run_identity [OF assms(3) c(1,3)] obtain row
    where row: "row_of ?db i = Some row" "op_identity row = op_identity (claimed_row now i q)" by blast
  have i: "is_blank (cl_id q) \<or> i = cl_id q" by (simp add: i_def)
  from claim_duplicate [OF store.run_inv [OF assms(3) c(1)] assms(4) row i, of now' fresh']
  obtain b' where b': "claim_operation now' fresh' q ?db = (Inl (DuplicateClaim b'), ?db)"
    "into_record row = Inr b'" by blast
  have "store_phase db1 i = Some (rec_status b, rec_commit_state b)"
    using c(3) into_record_fields(10) [OF c(4)] by (simp add: store_phase_def)
  moreover have "store_phase ?db i = Some (rec_status b', rec_commit_state b')"
    using row(1) into_record_fields(10) [OF b'(2)] by (simp add: store_phase_def)
  ultimately have "status_path (rec_status b) (rec_status b')"
    using store.run_status [OF assms(3) c(1)] by fastforce
  moreover have "rec_id b' = rec_id b"
    using into_record_fields(1) [OF b'(2)] into_record_fields(1) [OF c(4)] row(2)
    by (simp add: op_identity_def)
  ultimately show ?thesis using b'(1) by blast
qed

theorem claim_exactly_once_witness:
  "\<exists>b b'. claim_operation ''t0'' ''id'' demo_claim demo_db = (Inr b, demo_claimed)
    \<and> claim_operation ''t9'' ''id2'' demo_claim (fold apply_store_op demo_run demo_claimed)
      = (Inl (DuplicateClaim b'), fold apply_store_op demo_run demo_claimed)
    \<and> rec_id b' = rec_id b \<and> status_path (rec_status b) (rec_status b')"
  using demo_claim_ok claim_exactly_once [OF demo_facts(1) _ demo_facts(2,3), of "''t0''" "''id''" demo_claim]
  by blast

text \<open>An execution lease is exclusive until it runs out: after one instance acquired it and
  any operations other than its own lease operations, an acquisition by another instance
  before the expiry never succeeds, and the lease is still the holder's.\<close>

theorem lease_exclusive_until_expiry:
  assumes "store_inv db"
    and "try_acquire_execution_lease now i b inst until db = (Inr (Some g), db1)"
    and "list_all op_typed as" "list_all (foreign_to l) as" "lease_of db1 i = Some l"
    and "inst' \<noteq> inst" "now' < until"
  shows "fst (try_acquire_execution_lease now' i b' inst' until' (fold apply_store_op as db1))
      \<noteq> Inr (Some g')
    \<and> lease_of (fold apply_store_op as db1) i = Some l
    \<and> le_instance_id l = inst \<and> le_generation l = uint (lease_generation g)"
proof -
  have l: "le_instance_id l = inst" "le_until l = until" "le_generation l = uint (lease_generation g)"
    using acquire_SomeD [OF assms(1,2)] assms(5) by auto
  have "store_inv db1"
    using leases_changed_inv [OF assms(1) acquire_lease_effect [OF assms(1), of now i b inst until]]
      assms(2) by simp
  then have kept: "lease_of (fold apply_store_op as db1) i = Some l"
    using assms(3-5) by (intro run_foreign_keeps_lease)
  show ?thesis
    using kept l assms(6,7) acquire_refused [OF kept, of inst' now'] by simp
qed

theorem lease_exclusive_until_expiry_witness:
  "(\<forall>g'. fst (try_acquire_execution_lease ''19'' ''op-1'' ''bot'' ''inst-b'' ''40''
      (fold apply_store_op (Op_AcquireLease ''15'' ''op-1'' ''bot'' ''inst-b'' ''30'' # demo_run)
        (snd demo_lease))) \<noteq> Inr (Some g'))
   \<and> lease_of (fold apply_store_op (Op_AcquireLease ''15'' ''op-1'' ''bot'' ''inst-b'' ''30'' # demo_run)
        (snd demo_lease)) ''op-1'' = Some demo_lease_row"
proof -
  let ?g = "\<lparr> lease_operation_id = ''op-1'', lease_instance_id = ''inst-a'',
     lease_generation = 1, lease_until = ''20'' \<rparr>"
  have acq: "try_acquire_execution_lease ''10'' ''op-1'' ''bot'' ''inst-a'' ''20'' demo_claimed
      = (Inr (Some ?g), snd demo_lease)"
    using demo_lease_facts(1) by (metis demo_lease_def prod.collapse)
  have "''inst-b'' \<noteq> ''inst-a''" "''19'' < (''20'' :: string)" by code_simp+
  note refused = lease_exclusive_until_expiry [OF demo_claimed_inv acq demo_lease_facts(4,3,2) this]
  show ?thesis
    by (intro conjI allI, rule refused [THEN conjunct1], rule refused [THEN conjunct2, THEN conjunct1])
qed

text \<open>Recording an applied commit when no statement fails: it succeeds exactly when the
  operation is committing with the expected commit state, then returns the operation as
  committed and applied; otherwise it rejects the transition and leaves the database
  unchanged.\<close>

theorem mark_committed_outcome:
  assumes "store_inv db" "faults db = []"
  shows "case mark_committed_with_state now i json c db of
      (Inr b, db') \<Rightarrow> store_phase db i = Some (Committing, c) \<and> rec_id b = i
        \<and> rec_status b = Committed \<and> rec_commit_state b = OCS_Applied
        \<and> store_phase db' i = Some (Committed, OCS_Applied)
    | (Inl e, db') \<Rightarrow> store_phase db i \<noteq> Some (Committing, c) \<and> app_status e = CONFLICT \<and> db' = db"
proof -
  let ?f = "\<lambda>r. r\<lparr> op_status := ''committed'', op_commit_state := ''applied'',
                  op_connector_result_json := Some json, op_updated_at := now \<rparr>"
  note out = mark_committed_with_state_def
    cas_outcome [OF assms, where i = i and f = ?f and P = "\<lambda>db r. op_id r = i \<and> op_status r = ''committing'' \<and> op_commit_state r = ocs_as_str c"]
  have phase: "row_phase r = Some (Committing, c) \<longleftrightarrow> op_status r = ''committing'' \<and> op_commit_state r = ocs_as_str c" for r
    by (simp add: row_phase_iff)
  show ?thesis
  proof (cases "row_of db i")
    case None
    then show ?thesis by (simp add: out store_phase_def cas_rejected_def conflict_def app_error_new_def)
  next
    case (Some r)
    note r = row_of_Some [OF Some]
    show ?thesis
    proof (cases "row_phase r = Some (Committing, c)")
      case False
      with Some r phase [of r] show ?thesis
        by (auto simp: out store_phase_def cas_rejected_def conflict_def app_error_new_def)
    next
      case True
      then have ok: "row_ok (key_refs db) (?f r)"
        using committed_row_change row_of_ok [OF assms(1) Some] phase [of r] unfolding row_change_def by blast
      then obtain b where b: "into_record (?f r) = Inr b" using into_record_ok by blast
      have "row_of (db\<lparr>ops := map (\<lambda>x. if op_id x = i then ?f x else x) (ops db)\<rparr>) i = Some (?f r)"
        using Some r find_map_keys [of op_id "\<lambda>x. if op_id x = i then ?f x else x" i "ops db"]
        by (simp add: row_of_def)
      moreover have "row_phase (?f r) = Some (Committed, OCS_Applied)"
        by (simp add: row_phase_def status_parse_def ocs_parse_def)
      ultimately show ?thesis
        using Some r True phase [of r] b into_record_fields(1,10) [OF b]
        by (simp add: out store_phase_def)
    qed
  qed
qed

theorem mark_committed_outcome_witness:
  "case mark_committed_with_state ''t'' ''op-1'' ''{}'' OCS_Unknown
      (fold apply_store_op (take 5 demo_run) demo_claimed) of
      (Inr b, db') \<Rightarrow> rec_status b = Committed \<and> rec_commit_state b = OCS_Applied
    | (Inl e, db') \<Rightarrow> False"
proof -
  let ?db = "fold apply_store_op (take 5 demo_run) demo_claimed"
  have "list_all op_typed (take 5 demo_run)" by code_simp
  then have inv: "store_inv ?db" using demo_claimed_inv by (rule store.run_inv)
  have "faults ?db = []" "store_phase ?db ''op-1'' = Some (Committing, OCS_Unknown)" by code_simp+
  with mark_committed_outcome [OF inv, where now = "''t''" and i = "''op-1''" and json = "''{}''" and c = OCS_Unknown] show ?thesis
    by (auto split: prod.splits sum.splits)
qed

end
