(* ===== verification/Store_Evolution.thy ===== *)
theory Store_Evolution
  imports Operation_Ledger
begin

text \<open>
  What the clients of the store rely on when other tasks use the same database: any number of
  store operations and reads, with any statement failing, may happen between two of their own
  steps, and new accounts, bots and secrets may appear in the tables the store refers to. A
  move is one of these (a read only consumes fault entries); a database evolves by moves. The
  ledger contract holds for moves as it does for operations.
\<close>

datatype db_move =
    Store store_op
  | Reads "bool list"
  | Add_Secret string
  | Add_Account string
  | Add_Bot string

primrec apply_move :: "db_move \<Rightarrow> op_db \<Rightarrow> op_db" where
  "apply_move (Store a) db = apply_store_op a db"
| "apply_move (Reads fs) db = db\<lparr>faults := fs\<rparr>"
| "apply_move (Add_Secret x) db = db\<lparr>secret_ids := secret_ids db @ [x]\<rparr>"
| "apply_move (Add_Account x) db = db\<lparr>account_ids := account_ids db @ [x]\<rparr>"
| "apply_move (Add_Bot x) db = db\<lparr>bot_ids := bot_ids db @ [x]\<rparr>"

primrec move_typed :: "db_move \<Rightarrow> bool" where
  "move_typed (Store a) = op_typed a"
| "move_typed (Reads fs) = True"
| "move_typed (Add_Secret x) = True"
| "move_typed (Add_Account x) = True"
| "move_typed (Add_Bot x) = True"

lemma reads_views:
  "store_inv (db\<lparr>faults := fs\<rparr>) = store_inv db" "row_of (db\<lparr>faults := fs\<rparr>) i = row_of db i"
  "store_phase (db\<lparr>faults := fs\<rparr>) i = store_phase db i"
  "store_payload (db\<lparr>faults := fs\<rparr>) i = store_payload db i"
  by (simp_all add: store_inv_same store_views_same)

lemma added_views:
  "store_inv db \<Longrightarrow> store_inv (db\<lparr>secret_ids := secret_ids db @ [x]\<rparr>)"
  "store_inv db \<Longrightarrow> store_inv (db\<lparr>account_ids := account_ids db @ [x]\<rparr>)"
  "store_inv db \<Longrightarrow> store_inv (db\<lparr>bot_ids := bot_ids db @ [x]\<rparr>)"
  "row_of (db\<lparr>secret_ids := xs\<rparr>) i = row_of db i" "row_of (db\<lparr>account_ids := xs\<rparr>) i = row_of db i"
  "row_of (db\<lparr>bot_ids := xs\<rparr>) i = row_of db i"
  by (simp_all add: store_inv_def row_of_def key_ref_ok_def lease_ok_def)

lemmas move_views = reads_views added_views store_phase_def store_payload_def

interpretation moves: ledger apply_move move_typed store_inv store_phase
proof
  fix a db i p
  assume t: "move_typed a" "store_inv db"
  show "store_inv (apply_move a db)"
    using t by (cases a) (simp_all add: store_inv_apply reads_views added_views)
  show "\<exists>q. store_phase (apply_move a db) i = Some q \<and> (q = p \<or> phase_step p q)"
    if "store_phase db i = Some p"
    using t that store_phase_apply by (cases a) (auto simp: move_views)
  show "store_phase (apply_move a db) i \<in> {None, Some initial_phase}" if "store_phase db i = None"
    using t that store_phase_new by (cases a) (auto simp: move_views)
qed

interpretation moves: payload_ledger apply_move move_typed store_inv store_phase store_payload
proof
  fix a db i x
  assume "move_typed a" "store_inv db" "store_payload db i = Some x"
  then show "store_payload (apply_move a db) i = Some x"
    using store_payload_kept by (cases a) (auto simp: move_views)
qed (rule store_payload_present)

definition evolves :: "op_db \<Rightarrow> op_db \<Rightarrow> bool" where
  "evolves db db' \<longleftrightarrow> (\<exists>ms. list_all move_typed ms \<and> db' = fold apply_move ms db)"

lemma evolves_refl [simp, intro]: "evolves db db"
  unfolding evolves_def by (intro exI [of _ "[]"]) simp

lemma evolves_trans [trans]: "evolves a b \<Longrightarrow> evolves b c \<Longrightarrow> evolves a c"
proof -
  assume "evolves a b" "evolves b c"
  then obtain ms ns where "list_all move_typed (ms @ ns)" "c = fold apply_move (ms @ ns) a"
    by (auto simp: evolves_def)
  then show "evolves a c" unfolding evolves_def by blast
qed

lemma evolves_op: "op_typed a \<Longrightarrow> evolves db (apply_store_op a db)"
  unfolding evolves_def by (intro exI [of _ "[Store a]"]) simp

lemma evolves_faults: "evolves db (db\<lparr>faults := fs\<rparr>)"
  unfolding evolves_def by (intro exI [of _ "[Reads fs]"]) simp

lemma same_tables_faults: "same_tables db db' \<Longrightarrow> db' = db\<lparr>faults := faults db'\<rparr>"
  by (cases db; cases db') (simp add: same_tables_def)

lemma evolves_same: "same_tables db db' \<Longrightarrow> evolves db db'"
  using evolves_faults same_tables_faults by metis

lemma evolves_read: "read_only m \<Longrightarrow> evolves db (snd (m db))"
  by (simp add: read_only_def evolves_same)

lemma evolves_inv: "evolves db db' \<Longrightarrow> store_inv db \<Longrightarrow> store_inv db'"
  unfolding evolves_def using moves.run_inv by blast

lemma evolves_phase:
  "evolves db db' \<Longrightarrow> store_inv db \<Longrightarrow> store_phase db i = Some p \<Longrightarrow>
     \<exists>q. store_phase db' i = Some q \<and> phase_step\<^sup>*\<^sup>* p q"
  unfolding evolves_def using moves.run_path by blast

lemma evolves_committed:
  assumes "evolves db db'" "store_inv db" "store_phase db i = Some (st, OCS_Applied)"
    and "st \<in> {Committed, Delivered}"
  shows "\<exists>st' \<in> {Committed, Delivered}. store_phase db' i = Some (st', OCS_Applied)"
  using assms moves.run_committed unfolding evolves_def by blast

lemma evolves_store_ops:
  "evolves db (snd (claim_operation now fresh q db))"
  "evolves db (snd (update_snapshot_ready now i sha integ sz cnt db))"
  "evolves db (snd (update_generating now i db))"
  "length (ep_nonce pl) = 24 \<Longrightarrow> evolves db (snd (update_generated now i pl dg db))"
  "evolves db (snd (mark_committing now i db))"
  "evolves db (snd (mark_committed_with_state now i json c db))"
  "evolves db (snd (mark_delivered now i db))"
  "evolves db (snd (mark_failed_with_state now i stg code summary retry c db))"
  "evolves db (snd (mark_failed now i stg code summary retry db))"
  "evolves db (snd (mark_commit_unknown now i db))"
  "evolves db (snd (put_operation_key_reference now i sec kv db))"
  "evolves db (snd (try_acquire_execution_lease now i b inst until db))"
  "evolves db (snd (release_execution_lease l db))"
  using evolves_op [of "Op_Claim now fresh q" db] evolves_op [of "Op_Snapshot now i sha integ sz cnt" db]
    evolves_op [of "Op_Generating now i" db] evolves_op [of "Op_Generated now i pl dg" db]
    evolves_op [of "Op_Committing now i" db] evolves_op [of "Op_Committed now i json c" db]
    evolves_op [of "Op_Delivered now i" db] evolves_op [of "Op_Failed now i stg code summary retry c" db]
    evolves_op [of "Op_Failed now i stg code summary retry OCS_NotStarted" db]
    evolves_op [of "Op_CommitUnknown now i" db] evolves_op [of "Op_PutKey now i sec kv" db]
    evolves_op [of "Op_AcquireLease now i b inst until" db] evolves_op [of "Op_ReleaseLease l" db]
  by (simp_all add: op_typed_def mark_failed_def)

section \<open>Successful compare-and-set updates\<close>

text \<open>Whatever statements fail, an update that returns a record has rewritten its row.\<close>

lemma app_sql_InrD:
  assumes "app_sql (sql_stmt body) db = (Inr x, db')"
  shows "\<exists>fs. body (db\<lparr>faults := fs\<rparr>) = (Inr x, db')"
  using assms
  by (cases rule: sql_stmt_cases [of body db])
     (auto simp: app_sql_def store_map_err_def split: prod.splits)

lemma store_bind_InrD:
  assumes "store_bind m f db = (Inr x, db')"
  shows "\<exists>a db1. m db = (Inr a, db1) \<and> f a db1 = (Inr x, db')"
  using assms by (auto simp: store_bind_def split: prod.splits sum.splits)

lemma loaded_operation_row:
  assumes "store_inv db" "get_operation i db = (Inr (Some rec), db')"
  shows "\<exists>r. row_of db i = Some r \<and> into_record r = Inr rec \<and> same_tables db db'"
proof -
  from store_bind_InrD [OF assms(2) [unfolded get_operation_def]] obtain rs db1
    where sel: "select_ops (\<lambda>r. op_id r = i) db = (Inr rs, db1)"
      and first: "first_record rs = Inr (Some rec)" "db' = db1"
    by (auto simp: store_lift_def)
  from app_sql_InrD [OF sel [unfolded select_ops_def]]
  have "rs = filter (\<lambda>r. op_id r = i) (ops db)" "same_tables db db1" by auto
  with first show ?thesis
    by (cases "row_of db i") (auto simp: filter_id_row [OF assms(1)] first_record_def map_ok_def
        split: sum.splits)
qed

lemma cas_InrD:
  assumes inv: "store_inv db"
    and ok: "store_bind (update_ops P f) (\<lambda>n. assert_cas n i a b) db = (Inr rec, db')"
    and P: "\<And>fs r. P (db\<lparr>faults := fs\<rparr>) r = Q r" "\<And>r. Q r \<Longrightarrow> op_id r = i"
    and f: "\<And>r. op_id (f r) = op_id r"
    and change: "\<And>r. Q r \<Longrightarrow> row_ok (key_refs db) r \<Longrightarrow> row_change (key_refs db) r (f r)"
  shows "\<exists>r. row_of db i = Some r \<and> Q r \<and> row_of db' i = Some (f r) \<and> into_record (f r) = Inr rec"
proof -
  from store_bind_InrD [OF ok] obtain n db1
    where u: "update_ops P f db = (Inr n, db1)" and c: "assert_cas n i a b db1 = (Inr rec, db')" by blast
  have PQ: "P (db\<lparr>faults := fs\<rparr>) = Q" for fs using P(1) by (intro ext)
  have inv': "store_inv (snd (update_ops P f db))"
    by (intro rows_changed_inv [OF inv] update_ops_changed [OF inv]) (simp add: PQ change)
  from app_sql_InrD [OF u [unfolded update_ops_def]]
  have n: "n = length (filter Q (ops db))" and ops1: "ops db1 = map (\<lambda>r. if Q r then f r else r) (ops db)"
    by (auto simp: sql_update_def PQ Let_def)
  from c have "n = 1" and g: "get_operation i db1 = (Inr (Some rec), db')"
    by (auto simp: assert_cas_def store_lift_def split: if_splits dest!: store_bind_InrD)
  from \<open>n = 1\<close> n have "filter Q (ops db) \<noteq> []" by auto
  then obtain r where r: "r \<in> set (ops db)" "Q r" by (auto simp: filter_empty_conv)
  then have "r \<in> set (filter (\<lambda>x. op_id x = i) (ops db))" using P(2) by simp
  then have row: "row_of db i = Some r"
    by (cases "row_of db i") (simp_all only: filter_id_row [OF inv], simp_all)
  have "row_of db1 i = Some (f r)"
    using row r find_map_keys [of op_id "\<lambda>x. if Q x then f x else x" i "ops db"] f
    by (simp add: row_of_def ops1)
  moreover from loaded_operation_row [OF _ g] inv' u obtain r' where "row_of db1 i = Some r'"
    "into_record r' = Inr rec" "same_tables db1 db'" by auto
  ultimately show ?thesis using row r by (auto simp: store_views_same)
qed

text \<open>Whatever statements fail, an update leaves a row alone or rewrites it where its guard holds.\<close>

lemma cas_row_cases:
  assumes P: "\<And>fs r. P (db\<lparr>faults := fs\<rparr>) r = Q r" and f: "\<And>r. op_id (f r) = op_id r"
    and db': "db' = snd (store_bind (update_ops P f) (\<lambda>n. assert_cas n i a b) db)"
  shows "row_of db' j = row_of db j
    \<or> (\<exists>r. row_of db j = Some r \<and> Q r \<and> row_of db' j = Some (f r))"
proof -
  let ?db1 = "snd (update_ops P f db)"
  have PQ: "P (db\<lparr>faults := fs\<rparr>) = Q" for fs using P by (intro ext)
  have same: "row_of db' j = row_of ?db1 j"
    unfolding db' by (intro store_views_same bind_snd_same) simp
  have row: "row_of ?db1 j = row_of db j
      \<or> row_of ?db1 j = map_option (\<lambda>r. if Q r then f r else r) (row_of db j)"
    unfolding update_ops_def snd_app_sql
  proof (rule sql_stmt_snd)
    fix fs
    let ?x = "snd (let (rs, n) = sql_update (P (db\<lparr>faults := fs\<rparr>)) f (ops (db\<lparr>faults := fs\<rparr>))
        in (Inr n :: sql_error + nat, db\<lparr>faults := fs, ops := rs\<rparr>))"
    have "ops ?x = map (\<lambda>r. if Q r then f r else r) (ops db)"
      by (simp add: sql_update_def PQ Let_def)
    then have "row_of ?x j = map_option (\<lambda>r. if Q r then f r else r) (row_of db j)"
      using find_map_keys [of op_id "\<lambda>x. if Q x then f x else x" j "ops db"] f
      by (simp add: row_of_def)
    then show "row_of ?x j = row_of db j
      \<or> row_of ?x j = map_option (\<lambda>r. if Q r then f r else r) (row_of db j)" ..
  qed (simp add: reads_views)
  then show ?thesis
    using same by (cases "row_of db j") (auto split: if_splits)
qed

text \<open>Both facts for an update whose new phase does not depend on the row.\<close>

lemma cas_phase_InrD:
  assumes inv: "store_inv db"
    and ok: "store_bind (update_ops P f) (\<lambda>n. assert_cas n i a b) db = (Inr rec, db')"
    and P: "\<And>fs r. P (db\<lparr>faults := fs\<rparr>) r = Q r" "\<And>r. Q r \<Longrightarrow> op_id r = i"
    and f: "\<And>r. op_id (f r) = op_id r" "\<And>r. Q r \<Longrightarrow> row_phase (f r) = Some q"
    and change: "\<And>r. Q r \<Longrightarrow> row_ok (key_refs db) r \<Longrightarrow> row_change (key_refs db) r (f r)"
  shows "\<exists>r. row_of db i = Some r \<and> Q r" "store_phase db' i = Some q" "rec_id rec = i"
    "(rec_status rec, rec_commit_state rec) = q"
proof -
  from cas_InrD [OF inv ok P f(1) change] obtain r
    where r: "row_of db i = Some r" "Q r" "row_of db' i = Some (f r)" "into_record (f r) = Inr rec" by blast
  then show "\<exists>r. row_of db i = Some r \<and> Q r" by blast
  show "store_phase db' i = Some q" using r f(2) by (simp add: store_phase_def)
  show "rec_id rec = i" using into_record_fields(1) [OF r(4)] r(2) P(2) f(1) by simp
  show "(rec_status rec, rec_commit_state rec) = q"
    using into_record_fields(10) [OF r(4)] f(2) [OF r(2)] by simp
qed

lemma mark_committing_InrD:
  assumes "store_inv db" "mark_committing now i db = (Inr rec, db')"
  shows "store_phase db i = Some (Generated, OCS_NotStarted)"
    and "store_phase db' i = Some (Committing, OCS_NotStarted)"
proof -
  let ?Q = "\<lambda>r. op_id r = i \<and> op_status r = ''generated'' \<and> op_commit_state r = ''not_started''"
  note cas = cas_phase_InrD [OF assms(1) assms(2) [unfolded mark_committing_def],
      where Q = ?Q and q = "(Committing, OCS_NotStarted)"]
  have "\<exists>r. row_of db i = Some r \<and> ?Q r"
    by (rule cas) (simp_all add: row_phase_iff committing_row_change)
  then show "store_phase db i = Some (Generated, OCS_NotStarted)"
    by (auto simp: store_phase_def row_phase_iff)
  show "store_phase db' i = Some (Committing, OCS_NotStarted)"
    by (rule cas) (simp_all add: row_phase_iff committing_row_change)
qed

lemma mark_committed_InrD:
  assumes "store_inv db" "mark_committed_with_state now i json c db = (Inr rec, db')"
  shows "store_phase db i = Some (Committing, c)"
    and "store_phase db' i = Some (Committed, OCS_Applied)" "rec_id rec = i"
    and "(rec_status rec, rec_commit_state rec) = (Committed, OCS_Applied)"
proof -
  let ?Q = "\<lambda>r. op_id r = i \<and> op_status r = ''committing'' \<and> op_commit_state r = ocs_as_str c"
  note cas = cas_phase_InrD [OF assms(1) assms(2) [unfolded mark_committed_with_state_def],
      where Q = ?Q and q = "(Committed, OCS_Applied)"]
  have "\<exists>r. row_of db i = Some r \<and> ?Q r"
    by (rule cas) (simp_all add: row_phase_iff committed_row_change)
  then show "store_phase db i = Some (Committing, c)"
    by (auto simp: store_phase_def row_phase_iff)
  show "store_phase db' i = Some (Committed, OCS_Applied)" "rec_id rec = i"
    "(rec_status rec, rec_commit_state rec) = (Committed, OCS_Applied)"
    by (rule cas; simp add: row_phase_iff committed_row_change)+
qed

lemma mark_failed_InrD:
  assumes "store_inv db" "mark_failed_with_state now i stg code summary retry c db = (Inr rec, db')"
  shows "store_phase db' i = Some (Failed, c)"
  by (rule cas_phase_InrD(2) [OF assms(1) assms(2) [unfolded mark_failed_with_state_def],
      where Q = "\<lambda>r. op_id r = i
        \<and> op_status r \<in> {''received'', ''snapshot_ready'', ''generating'', ''generated'', ''committing''}
        \<and> op_commit_state r = ''not_started''"])
     (simp_all add: row_phase_iff failed_row_change)

lemma mark_commit_unknown_InrD:
  assumes "store_inv db" "mark_commit_unknown now i db = (Inr rec, db')"
  shows "store_phase db' i = Some (Committing, OCS_Unknown)"
  by (rule cas_phase_InrD(2) [OF assms(1) assms(2) [unfolded mark_commit_unknown_def],
      where Q = "\<lambda>r. op_id r = i \<and> op_status r = ''committing'' \<and> op_commit_state r = ''not_started''"])
     (simp_all add: row_phase_iff unknown_row_change)

text \<open>The phases an operation can be in after an update that may have failed.\<close>

lemma cas_phase_cases:
  assumes eq: "store_bind (update_ops P f) (\<lambda>n. assert_cas n i a b) db = (r, db')"
    and P: "\<And>fs r. P (db\<lparr>faults := fs\<rparr>) r = Q r"
    and f: "\<And>r. op_id (f r) = op_id r" "\<And>r. Q r \<Longrightarrow> row_phase (f r) = Some q"
  shows "store_phase db' j \<in> {store_phase db j, Some q}"
proof -
  have "db' = snd (store_bind (update_ops P f) (\<lambda>n. assert_cas n i a b) db)" using eq by simp
  from cas_row_cases [of P db Q f, OF P f(1) this, of j] show ?thesis
    using f(2) by (auto simp: store_phase_def)
qed

lemma mark_committed_phases:
  assumes "mark_committed_with_state now i json c db = (r, db')"
  shows "store_phase db' j \<in> {store_phase db j, Some (Committed, OCS_Applied)}"
  by (rule cas_phase_cases [OF assms [unfolded mark_committed_with_state_def] refl])
     (simp_all add: row_phase_iff)

lemma mark_commit_unknown_phases:
  assumes "mark_commit_unknown now i db = (r, db')"
  shows "store_phase db' j \<in> {store_phase db j, Some (Committing, OCS_Unknown)}"
  by (rule cas_phase_cases [OF assms [unfolded mark_commit_unknown_def] refl])
     (simp_all add: row_phase_iff)

lemma mark_failed_phases:
  assumes "mark_failed_with_state now i stg code summary retry c db = (r, db')"
  shows "store_phase db' j \<in> {store_phase db j, Some (Failed, c)}"
  by (rule cas_phase_cases [OF assms [unfolded mark_failed_with_state_def] refl])
     (simp_all add: row_phase_iff)

lemma mark_committing_phases:
  assumes "mark_committing now i db = (r, db')"
  shows "store_phase db' j \<in> {store_phase db j, Some (Committing, OCS_NotStarted)}"
  by (rule cas_phase_cases [OF assms [unfolded mark_committing_def] refl])
     (simp_all add: row_phase_iff)

section \<open>Updates that cannot fail\<close>

text \<open>With no failing statement an update whose guard holds succeeds.\<close>

lemma cas_success:
  assumes inv: "store_inv db" and nf: "faults db = []" and r: "row_of db i = Some r" "P db r"
    and P: "\<And>x. P db x \<Longrightarrow> op_id x = i" and f: "\<And>x. op_id (f x) = op_id x"
    and change: "row_change (key_refs db) r (f r)"
  shows "\<exists>rec db'. store_bind (update_ops P f) (\<lambda>n. assert_cas n i a b) db = (Inr rec, db')
    \<and> faults db' = [] \<and> row_of db' i = Some (f r)"
proof -
  let ?db = "db\<lparr>ops := map (\<lambda>x. if op_id x = i then f x else x) (ops db)\<rparr>"
  from change have "row_ok (key_refs db) (f r)" by (simp add: row_change_def)
  then obtain rec where rec: "into_record (f r) = Inr rec" using into_record_ok by blast
  have "row_of ?db i = Some (f r)"
    using r row_of_Some [OF r(1)] find_map_keys [of op_id "\<lambda>x. if op_id x = i then f x else x" i "ops db"] f
    by (simp add: row_of_def)
  moreover have "store_bind (update_ops P f) (\<lambda>n. assert_cas n i a b) db = (Inr rec, ?db)"
    using cas_outcome [where a = a and b = b, OF inv nf P f] r rec by simp
  moreover have "faults ?db = []" using nf by simp
  ultimately show ?thesis by blast
qed

text \<open>The four updates of a commit as functions on phases.\<close>

lemma store_phase_row:
  "store_phase db i = Some (s, c) \<longleftrightarrow>
     (\<exists>r. row_of db i = Some r \<and> op_status r = status_as_str s \<and> op_commit_state r = ocs_as_str c)"
  by (cases "row_of db i") (auto simp: store_phase_def row_phase_iff)

lemma mark_committing_success:
  assumes "store_inv db" "faults db = []" "store_phase db i = Some (Generated, OCS_NotStarted)"
  shows "\<exists>rec db'. mark_committing now i db = (Inr rec, db') \<and> faults db' = []
    \<and> store_phase db' i = Some (Committing, OCS_NotStarted)"
proof -
  from assms(3) obtain r where r: "row_of db i = Some r" "op_status r = ''generated''"
    "op_commit_state r = ''not_started''"
    by (auto simp: store_phase_row)
  have "\<exists>rec db'. mark_committing now i db = (Inr rec, db') \<and> faults db' = []
    \<and> row_of db' i = Some (r\<lparr> op_status := ''committing'', op_updated_at := now \<rparr>)"
    unfolding mark_committing_def
    by (rule cas_success [OF assms(1,2) r(1)])
       (use row_of_Some [OF r(1)] r(2,3) committing_row_change [OF r(2,3) row_of_ok [OF assms(1) r(1)]] in simp_all)
  then show ?thesis using r(3) by (auto simp: store_phase_row)
qed

lemma mark_committed_success:
  assumes "store_inv db" "faults db = []" "store_phase db i = Some (Committing, c)"
  shows "\<exists>rec db'. mark_committed_with_state now i json c db = (Inr rec, db')"
proof -
  from assms(3) obtain r where r: "row_of db i = Some r" "op_status r = ''committing''"
    "op_commit_state r = ocs_as_str c"
    by (auto simp: store_phase_row)
  have "\<exists>rec db'. mark_committed_with_state now i json c db = (Inr rec, db') \<and> faults db' = []
    \<and> row_of db' i = Some (r\<lparr> op_status := ''committed'', op_commit_state := ''applied'',
      op_connector_result_json := Some json, op_updated_at := now \<rparr>)"
    unfolding mark_committed_with_state_def
    by (rule cas_success [OF assms(1,2) r(1)])
       (use row_of_Some [OF r(1)] r(2,3) committed_row_change [OF r(2,3) row_of_ok [OF assms(1) r(1)]] in simp_all)
  then show ?thesis by blast
qed

lemma mark_failed_success:
  assumes "store_inv db" "faults db = []" "store_phase db i = Some (Committing, OCS_NotStarted)"
  shows "\<exists>rec db'. mark_failed_with_state now i stg code summary retry c db = (Inr rec, db')"
proof -
  from assms(3) obtain r where r: "row_of db i = Some r" "op_status r = ''committing''"
    "op_commit_state r = ''not_started''"
    by (auto simp: store_phase_row)
  have "\<exists>rec db'. mark_failed_with_state now i stg code summary retry c db = (Inr rec, db') \<and> faults db' = []
    \<and> row_of db' i = Some (r\<lparr> op_status := ''failed'', op_error_stage := Some stg, op_error_code := Some code,
      op_error_summary := Some summary, op_retryable := of_bool retry,
      op_commit_state := ocs_as_str c, op_updated_at := now \<rparr>)"
    unfolding mark_failed_with_state_def
    by (rule cas_success [OF assms(1,2) r(1)])
       (use row_of_Some [OF r(1)] r(2,3) failed_row_change [OF _ r(3) row_of_ok [OF assms(1) r(1)]] in simp_all)
  then show ?thesis by blast
qed

lemma mark_commit_unknown_success:
  assumes "store_inv db" "faults db = []" "store_phase db i = Some (Committing, OCS_NotStarted)"
  shows "\<exists>rec db'. mark_commit_unknown now i db = (Inr rec, db')"
proof -
  from assms(3) obtain r where r: "row_of db i = Some r" "op_status r = ''committing''"
    "op_commit_state r = ''not_started''"
    by (auto simp: store_phase_row)
  have "\<exists>rec db'. mark_commit_unknown now i db = (Inr rec, db') \<and> faults db' = []
    \<and> row_of db' i = Some (r\<lparr> op_commit_state := ''unknown'', op_updated_at := now \<rparr>)"
    unfolding mark_commit_unknown_def
    by (rule cas_success [OF assms(1,2) r(1)])
       (use row_of_Some [OF r(1)] r(2,3) unknown_row_change [OF r(2,3) row_of_ok [OF assms(1) r(1)]] in simp_all)
  then show ?thesis by blast
qed

end
