(* ===== verification/Operation_Payload.thy ===== *)
theory Operation_Payload
  imports Store_Evolution
begin

text \<open>
  \<^verbatim>\<open>src/modules/bridge/operation_payload.rs\<close>: encryption of recovery payloads under
  operation-scoped keys and the key provider that wraps those keys in the secret vault.
  XChaCha20-Poly1305 is the pair of functions \<open>aead_seal\<close> and \<open>aead_open\<close> of a \<open>crypto\<close> record,
  the vault the functions of a \<open>vault\<close> record; random bytes (keys, nonces) are arguments.
  A \<open>world\<close> is the database together with whatever state the external parties keep.
\<close>

section \<open>World and ports\<close>

record 'w world =
  w_db :: op_db
  w_ext :: 'w

type_synonym ('w, 'a) app_m = "'w world \<Rightarrow> 'a app_result \<times> 'w world"

definition app_return :: "'a \<Rightarrow> ('w, 'a) app_m" where
  "app_return a w = (Inr a, w)"

definition app_fail :: "app_error \<Rightarrow> ('w, 'a) app_m" where
  "app_fail e w = (Inl e, w)"

definition app_bind :: "('w, 'a) app_m \<Rightarrow> ('a \<Rightarrow> ('w, 'b) app_m) \<Rightarrow> ('w, 'b) app_m" where
  "app_bind m f w = (case m w of (Inl e, w') \<Rightarrow> (Inl e, w') | (Inr a, w') \<Rightarrow> f a w')"

definition on_store :: "(app_error, 'a) store_m \<Rightarrow> ('w, 'a) app_m" where
  "on_store m w = (case m (w_db w) of (r, db) \<Rightarrow> (r, w\<lparr>w_db := db\<rparr>))"

record crypto =
  aead_seal :: "string \<Rightarrow> string \<Rightarrow> string \<Rightarrow> string \<Rightarrow> string option"
  aead_open :: "string \<Rightarrow> string \<Rightarrow> string \<Rightarrow> string \<Rightarrow> string option"
  sha256_hex :: "string \<Rightarrow> string"

record 'w vault =
  vault_put :: "string \<Rightarrow> string \<Rightarrow> string \<Rightarrow> ('w, string) app_m"
  vault_get :: "string \<Rightarrow> ('w, string) app_m"

text \<open>
  What the documentation of the AEAD promises: opening undoes sealing, and a ciphertext
  produced for some associated data opens under no other.
\<close>

definition aead_correct :: "crypto \<Rightarrow> bool" where
  "aead_correct C \<longleftrightarrow>
     (\<forall>k n a m c. aead_seal C k n a m = Some c \<longrightarrow> aead_open C k n a c = Some m)"

definition aead_binding :: "crypto \<Rightarrow> bool" where
  "aead_binding C \<longleftrightarrow>
     (\<forall>k n a m c a' m'. aead_seal C k n a m = Some c \<longrightarrow> aead_open C k n a' c = Some m' \<longrightarrow> a' = a)"

section \<open>Encryption\<close>

definition KEY_LEN :: nat where "KEY_LEN = 32"
definition NONCE_LEN :: nat where "NONCE_LEN = 24"
definition OPERATION_DEK_KIND :: string where "OPERATION_DEK_KIND = ''operation_dek_v1''"

record operation_payload_encryptor =
  enc_operation_dek :: string
  enc_key_version :: u32
  enc_wrapped_secret_id :: "string option"

definition encryptor_new :: "string \<Rightarrow> u32 \<Rightarrow> operation_payload_encryptor" where
  "encryptor_new dek kv =
     \<lparr> enc_operation_dek = dek, enc_key_version = kv, enc_wrapped_secret_id = None \<rparr>"

definition decrypt_failed :: app_error where
  "decrypt_failed =
     app_error_new ''PAYLOAD_DECRYPT_FAILED'' ''operation payload could not be decrypted'' BAD_REQUEST"

definition validate_aad :: "operation_aad \<Rightarrow> unit app_result" where
  "validate_aad a =
     (if aad_version a = 0 \<or> is_blank (aad_operation_id a) \<or> is_blank (aad_locator_hash a)
         \<or> is_blank (aad_operation_kind a) \<or> is_blank (aad_actor_id a) \<or> is_blank (aad_bot_id a)
      then Inl (bad_request ''PAYLOAD_AAD_INVALID''
                  ''operation payload authenticated identity is incomplete'')
      else Inr ())"

definition payload_encrypt ::
    "crypto \<Rightarrow> operation_payload_encryptor \<Rightarrow> string \<Rightarrow> string \<Rightarrow> operation_aad
      \<Rightarrow> encrypted_operation_payload app_result" where
  "payload_encrypt C enc nonce plaintext a =
     bind_r (validate_aad a) (\<lambda>_.
     bind_r (ok_or (app_error_new ''PAYLOAD_ENCRYPT_FAILED'' ''operation payload encryption failed''
                      INTERNAL_SERVER_ERROR)
               (aead_seal C (enc_operation_dek enc) nonce (aad_encode a) plaintext)) (\<lambda>ct.
     Inr \<lparr> ep_ciphertext = ct, ep_nonce = nonce, ep_key_version = enc_key_version enc \<rparr>))"

definition payload_decrypt ::
    "crypto \<Rightarrow> operation_payload_encryptor \<Rightarrow> encrypted_operation_payload \<Rightarrow> operation_aad
      \<Rightarrow> string app_result" where
  "payload_decrypt C enc pl a =
     (if ep_key_version pl \<noteq> enc_key_version enc then Inl decrypt_failed
      else
        bind_r (map_err (\<lambda>_. decrypt_failed) (validate_aad a)) (\<lambda>_.
        ok_or decrypt_failed
          (aead_open C (enc_operation_dek enc) (ep_nonce pl) (aad_encode a) (ep_ciphertext pl))))"

section \<open>Wrapped keys\<close>

definition create_wrapped ::
    "'w vault \<Rightarrow> string \<Rightarrow> string \<Rightarrow> u32 \<Rightarrow> ('w, operation_payload_encryptor) app_m" where
  "create_wrapped V dek oid kv =
     (if is_blank oid
      then app_fail (bad_request ''PAYLOAD_OPERATION_ID_REQUIRED''
                       ''operation id is required for operation DEK'')
      else
        app_bind (vault_put V (''operation:'' @ oid) OPERATION_DEK_KIND dek) (\<lambda>secret_id.
        app_return \<lparr> enc_operation_dek = dek, enc_key_version = kv,
                     enc_wrapped_secret_id = Some secret_id \<rparr>))"

definition from_wrapped ::
    "'w vault \<Rightarrow> string \<Rightarrow> u32 \<Rightarrow> ('w, operation_payload_encryptor) app_m" where
  "from_wrapped V secret_id kv =
     (if is_blank secret_id
      then app_fail (bad_request ''PAYLOAD_KEY_REQUIRED'' ''wrapped operation DEK id is required'')
      else
        app_bind (vault_get V secret_id) (\<lambda>bytes.
          if length bytes \<noteq> KEY_LEN then app_fail decrypt_failed
          else app_return \<lparr> enc_operation_dek = bytes, enc_key_version = kv,
                            enc_wrapped_secret_id = Some secret_id \<rparr>))"

text \<open>\<^verbatim>\<open>OperationPayloadKeyProvider::with_key_version\<close>.\<close>

definition provider_key_version :: "u32 \<Rightarrow> u32" where
  "provider_key_version kv = max kv 1"

definition for_operation ::
    "'w vault \<Rightarrow> u32 \<Rightarrow> string \<Rightarrow> string \<Rightarrow> string \<Rightarrow> ('w, operation_payload_encryptor) app_m" where
  "for_operation V kv now dek oid =
     app_bind (on_store (get_operation_key_reference oid)) (\<lambda>ref.
       case ref of
         Some r \<Rightarrow> from_wrapped V (ref_wrapped_secret_id r) (ref_key_version r)
       | None \<Rightarrow>
           app_bind (create_wrapped V dek oid (provider_key_version kv)) (\<lambda>enc.
           case enc_wrapped_secret_id enc of
             None \<Rightarrow> app_fail (internal ''operation DEK reference was not returned'')
           | Some secret_id \<Rightarrow> \<lambda>w.
               (case on_store (put_operation_key_reference now oid secret_id (enc_key_version enc)) w of
                  (Inr _, w') \<Rightarrow> (Inr enc, w')
                | (Inl err, w') \<Rightarrow>
                    app_bind (on_store (get_operation_key_reference oid)) (\<lambda>ref.
                      case ref of
                        Some r \<Rightarrow> from_wrapped V (ref_wrapped_secret_id r) (ref_key_version r)
                      | None \<Rightarrow> app_fail err) w')))"

definition restore_for_operation ::
    "'w vault \<Rightarrow> string \<Rightarrow> ('w, operation_payload_encryptor) app_m" where
  "restore_for_operation V oid =
     app_bind (on_store (get_operation_key_reference oid)) (\<lambda>ref.
       case ref of
         None \<Rightarrow> app_fail (service_unavailable ''PAYLOAD_KEY_REFERENCE_MISSING''
                    ''operation payload key reference is missing'')
       | Some r \<Rightarrow> from_wrapped V (ref_wrapped_secret_id r) (ref_key_version r))"

section \<open>Lemmas\<close>

lemma payload_encrypt_InrD:
  assumes "payload_encrypt C enc nonce plaintext a = Inr pl"
  shows "validate_aad a = Inr ()"
    "aead_seal C (enc_operation_dek enc) nonce (aad_encode a) plaintext = Some (ep_ciphertext pl)"
    "ep_nonce pl = nonce" "ep_key_version pl = enc_key_version enc"
  using assms by (auto simp: payload_encrypt_def bind_r_Inr_iff)

lemma payload_decrypt_Inr_iff:
  "payload_decrypt C enc pl a = Inr m \<longleftrightarrow>
     ep_key_version pl = enc_key_version enc \<and> validate_aad a = Inr ()
     \<and> aead_open C (enc_operation_dek enc) (ep_nonce pl) (aad_encode a) (ep_ciphertext pl) = Some m"
  by (auto simp: payload_decrypt_def bind_r_Inr_iff)

lemma payload_decrypt_Inl: "payload_decrypt C enc pl a = Inl e \<Longrightarrow> e = decrypt_failed"
  by (cases "validate_aad a")
     (auto simp: payload_decrypt_def ok_or_def split: if_splits option.splits)

text \<open>An AEAD for examples: the ciphertext spells out the associated data.\<close>

fun delimited :: "string \<Rightarrow> string" where
  "delimited [] = ''0''"
| "delimited (c # s) = CHR ''1'' # c # delimited s"

lemma delimited_cancel: "delimited a @ x = delimited b @ y \<Longrightarrow> a = b \<and> x = y"
proof (induction a arbitrary: b)
  case Nil
  then show ?case by (cases b) auto
next
  case (Cons c a)
  then show ?case by (cases b) auto
qed

definition plain_crypto :: crypto where
  "plain_crypto =
     \<lparr> aead_seal = (\<lambda>k n a m. Some (delimited (k @ n) @ delimited a @ m)),
       aead_open = (\<lambda>k n a c.
         let h = delimited (k @ n) @ delimited a in
         if starts_with c h then Some (drop (length h) c) else None),
       sha256_hex = (\<lambda>s. s) \<rparr>"

lemma plain_crypto_laws: "aead_correct plain_crypto" "aead_binding plain_crypto"
proof -
  show "aead_correct plain_crypto"
    by (auto simp: aead_correct_def plain_crypto_def starts_with_iff Let_def)
  show "aead_binding plain_crypto"
    by (auto simp: aead_binding_def plain_crypto_def starts_with_iff Let_def
        dest!: delimited_cancel split: if_splits)
qed

section \<open>Properties\<close>

text \<open>C34. A recovery payload decrypts to what was encrypted under the same key and the same
  authenticated identity, and under no other: with a different operation, locator, kind,
  actor, bot or runtime fence in the authenticated data decryption fails.\<close>

theorem payload_roundtrip_bound_to_identity:
  assumes "aead_correct C" "aead_binding C" "payload_encrypt C enc nonce m a = Inr pl"
    and "aad_short a" "aad_short b"
  shows "payload_decrypt C enc pl b = (if b = a then Inr m else Inl decrypt_failed)"
proof (cases "b = a")
  case True
  with payload_encrypt_InrD [OF assms(3)] assms(1) show ?thesis
    by (simp add: payload_decrypt_Inr_iff aead_correct_def)
next
  case False
  have "payload_decrypt C enc pl b \<noteq> Inr m'" for m'
  proof
    assume "payload_decrypt C enc pl b = Inr m'"
    then have "aead_open C (enc_operation_dek enc) nonce (aad_encode b) (ep_ciphertext pl) = Some m'"
      using payload_encrypt_InrD(3) [OF assms(3)] by (simp add: payload_decrypt_Inr_iff)
    then have "aad_encode b = aad_encode a"
      using assms(2) payload_encrypt_InrD(2) [OF assms(3)] unfolding aead_binding_def by blast
    with False assms(4,5) aad_encode_inj_parts show False by blast
  qed
  then show ?thesis
    using False by (cases "payload_decrypt C enc pl b") (auto dest: payload_decrypt_Inl)
qed

definition demo_fence :: poller_runtime_fence where
  "demo_fence = \<lparr> fence_telegram_bot_id = 42, fence_owner = ''rust_bridge'', fence_epoch = 3,
     fence_internal_bot_id = ''bot'', fence_runtime_instance_id = ''instance-1'' \<rparr>"

definition demo_aad :: "poller_runtime_fence \<Rightarrow> operation_aad" where
  "demo_aad f = aad_new_with_fence ''op-1'' ''lhash'' KIND_SEND ''account'' f"

theorem payload_roundtrip_bound_to_identity_witness:
  "\<exists>pl. payload_encrypt plain_crypto (encryptor_new ''key'' 1) ''nonce'' ''payload'' (demo_aad demo_fence) = Inr pl
    \<and> payload_decrypt plain_crypto (encryptor_new ''key'' 1) pl (demo_aad demo_fence) = Inr ''payload''
    \<and> payload_decrypt plain_crypto (encryptor_new ''key'' 1) pl
        (demo_aad (demo_fence\<lparr>fence_runtime_instance_id := ''instance-2''\<rparr>)) = Inl decrypt_failed"
proof -
  let ?enc = "encryptor_new ''key'' 1"
  let ?a = "demo_aad demo_fence" and ?b = "demo_aad (demo_fence\<lparr>fence_runtime_instance_id := ''instance-2''\<rparr>)"
  have short: "aad_short ?a" "aad_short ?b"
    by (simp_all add: aad_short_def short_parts_def aad_parts_def fence_parts_def demo_aad_def
        aad_new_with_fence_def aad_new_def demo_fence_def KIND_SEND_def int_to_string_def
        nat_to_string.simps)
  have "validate_aad ?a = Inr ()" by code_simp
  then obtain pl where pl: "payload_encrypt plain_crypto ?enc ''nonce'' ''payload'' ?a = Inr pl"
    by (simp add: payload_encrypt_def plain_crypto_def)
  have "?b \<noteq> ?a" by (simp add: demo_aad_def aad_new_with_fence_def aad_new_def demo_fence_def)
  with pl payload_roundtrip_bound_to_identity [OF plain_crypto_laws pl short(1) short(1)]
    payload_roundtrip_bound_to_identity [OF plain_crypto_laws pl short]
  show ?thesis by simp
qed

end
