(* ===== verification/Operation_Journal.thy ===== *)
theory Operation_Journal
  imports St_Domain
begin

text \<open>
  The two journals that witness what the connector did with an operation:
  \<^verbatim>\<open>src/seams/st_operation_journal.rs\<close> (the record the coordinator reads and the in-memory
  journal) and \<^verbatim>\<open>src/modules/bridge/connector_journal.rs\<close> (the connector's own
  prepare/apply/fail machine with replay). A journal is a map from operation ids to records.
\<close>

section \<open>The operation journal seam\<close>

datatype st_operation_journal_status = SJ_Prepared | SJ_Applied | SJ_NotApplied | SJ_Unknown

record st_operation_journal_record =
  sj_operation_id :: string
  sj_locator_hash :: string
  sj_mutation_digest :: string
  sj_status :: st_operation_journal_status
  sj_before_sha256 :: "string option"
  sj_before_integrity :: "string option"
  sj_after_sha256 :: "string option"
  sj_after_integrity :: "string option"
  sj_after_byte_length :: "u64 option"
  sj_after_message_count :: "u64 option"

definition identity_matches ::
    "st_operation_journal_record \<Rightarrow> string \<Rightarrow> string \<Rightarrow> string \<Rightarrow> bool" where
  "identity_matches r oid lhash digest \<longleftrightarrow>
     sj_operation_id r = oid \<and> sj_locator_hash r = lhash \<and> sj_mutation_digest r = digest"

definition unavailable_lookup :: "string \<Rightarrow> st_operation_journal_record option app_result" where
  "unavailable_lookup oid =
     Inl (service_unavailable ''ST_OPERATION_JOURNAL_UNAVAILABLE''
            ''connector operation journal is unavailable'')"

type_synonym memory_journal = "string \<rightharpoonup> st_operation_journal_record"

definition memory_insert ::
    "st_operation_journal_record \<Rightarrow> memory_journal \<Rightarrow> unit app_result \<times> memory_journal" where
  "memory_insert r j =
     (if is_blank (sj_operation_id r) \<or> is_blank (sj_locator_hash r) \<or> is_blank (sj_mutation_digest r)
      then (Inl (bad_request ''ST_OPERATION_JOURNAL_INVALID''
                   ''operation journal identity is incomplete''), j)
      else (Inr (), j(sj_operation_id r \<mapsto> r)))"

definition memory_mark_applied ::
    "string \<Rightarrow> string \<Rightarrow> string \<Rightarrow> memory_journal \<Rightarrow> unit app_result \<times> memory_journal" where
  "memory_mark_applied oid sha integ j =
     (case j oid of
        None \<Rightarrow> (Inl (not_found ''ST_OPERATION_JOURNAL_MISSING''
                       ''operation journal record missing''), j)
      | Some r \<Rightarrow>
          if sj_status r = SJ_Applied
             \<and> (sj_after_sha256 r \<noteq> Some sha \<or> sj_after_integrity r \<noteq> Some integ)
          then (Inl (conflict ''ST_OPERATION_JOURNAL_CONFLICT''
                       ''operation journal applied result conflicts''), j)
          else (Inr (), j(oid \<mapsto> r\<lparr> sj_after_sha256 := Some sha,
                                     sj_after_integrity := Some integ,
                                     sj_status := SJ_Applied \<rparr>)))"

definition memory_lookup ::
    "string \<Rightarrow> memory_journal \<Rightarrow> st_operation_journal_record option app_result" where
  "memory_lookup oid j = Inr (j oid)"

section \<open>The connector journal\<close>

datatype connector_journal_status = CJ_Prepared | CJ_Applied | CJ_Failed | CJ_Unknown

record connector_journal_record =
  cj_operation_id :: string
  cj_locator_hash :: string
  cj_mutation_digest :: string
  cj_status :: connector_journal_status
  cj_before_sha256 :: "string option"
  cj_after_sha256 :: "string option"
  cj_before_integrity :: "string option"
  cj_after_integrity :: "string option"

datatype journal_error =
    JE_DuplicatePrepare | JE_InvalidTransition | JE_OperationIdReused | JE_Missing | JE_Conflict

primrec journal_error_as_str :: "journal_error \<Rightarrow> string" where
  "journal_error_as_str JE_DuplicatePrepare = ''duplicate prepare''"
| "journal_error_as_str JE_InvalidTransition = ''invalid journal transition''"
| "journal_error_as_str JE_OperationIdReused = ''operation id reused''"
| "journal_error_as_str JE_Missing = ''journal record missing''"
| "journal_error_as_str JE_Conflict = ''journal conflict''"

datatype replay_outcome =
    RO_AlreadyApplied
  | RO_Continue connector_journal_status
  | RO_FailedTerminal
  | RO_NotFound

type_synonym connector_journal = "string \<rightharpoonup> connector_journal_record"

definition journal_prepare ::
    "connector_journal_record \<Rightarrow> connector_journal \<Rightarrow> (journal_error + unit) \<times> connector_journal"
where
  "journal_prepare r j =
     (if j (cj_operation_id r) \<noteq> None then (Inl JE_DuplicatePrepare, j)
      else if cj_status r \<noteq> CJ_Prepared \<or> cj_locator_hash r = [] \<or> cj_mutation_digest r = []
      then (Inl JE_InvalidTransition, j)
      else (Inr (), j(cj_operation_id r \<mapsto> r)))"

definition journal_mark_applied ::
    "string \<Rightarrow> string \<Rightarrow> string \<Rightarrow> connector_journal
      \<Rightarrow> (journal_error + connector_journal_status) \<times> connector_journal" where
  "journal_mark_applied oid sha integ j =
     (case j oid of
        None \<Rightarrow> (Inl JE_Missing, j)
      | Some r \<Rightarrow>
          (case cj_status r of
             CJ_Applied \<Rightarrow>
               (if cj_after_sha256 r = Some sha \<and> cj_after_integrity r = Some integ
                then Inr CJ_Applied else Inl JE_Conflict, j)
           | CJ_Failed \<Rightarrow> (Inl JE_InvalidTransition, j)
           | _ \<Rightarrow>
               (Inr CJ_Applied,
                j(oid \<mapsto> r\<lparr> cj_after_sha256 := Some sha, cj_after_integrity := Some integ,
                            cj_status := CJ_Applied \<rparr>))))"

definition journal_mark_failed ::
    "string \<Rightarrow> connector_journal \<Rightarrow> (journal_error + unit) \<times> connector_journal" where
  "journal_mark_failed oid j =
     (case j oid of
        None \<Rightarrow> (Inl JE_Missing, j)
      | Some r \<Rightarrow>
          if cj_status r \<in> {CJ_Prepared, CJ_Unknown}
          then (Inr (), j(oid \<mapsto> r\<lparr> cj_status := CJ_Failed \<rparr>))
          else (Inl JE_InvalidTransition, j))"

definition journal_mark_unknown ::
    "string \<Rightarrow> connector_journal \<Rightarrow> (journal_error + unit) \<times> connector_journal" where
  "journal_mark_unknown oid j =
     (case j oid of
        None \<Rightarrow> (Inl JE_Missing, j)
      | Some r \<Rightarrow>
          if cj_status r = CJ_Prepared
          then (Inr (), j(oid \<mapsto> r\<lparr> cj_status := CJ_Unknown \<rparr>))
          else (Inl JE_InvalidTransition, j))"

definition journal_replay ::
    "string \<Rightarrow> string \<Rightarrow> string \<Rightarrow> connector_journal \<Rightarrow> journal_error + replay_outcome" where
  "journal_replay oid lhash digest j =
     (case j oid of
        None \<Rightarrow> Inr RO_NotFound
      | Some r \<Rightarrow>
          if cj_locator_hash r \<noteq> lhash \<or> cj_mutation_digest r \<noteq> digest
          then Inl JE_OperationIdReused
          else
            (case cj_status r of
               CJ_Applied \<Rightarrow> Inr RO_AlreadyApplied
             | CJ_Failed \<Rightarrow> Inr RO_FailedTerminal
             | s \<Rightarrow> Inr (RO_Continue s)))"

section \<open>The contract of a journal\<close>

text \<open>
  What a client of a journal relies on: a step never forgets an operation, never changes the
  identity it was recorded with, and never takes back a final verdict.
\<close>

locale verdict_journal =
  fixes step :: "'op \<Rightarrow> 'j \<Rightarrow> 'j"
    and identity :: "'j \<Rightarrow> string \<Rightarrow> 'i option"
    and verdict :: "'j \<Rightarrow> string \<Rightarrow> 'v option"
  assumes identity_kept: "identity j oid = Some x \<Longrightarrow> identity (step a j) oid = Some x"
    and verdict_kept: "verdict j oid = Some v \<Longrightarrow> verdict (step a j) oid = Some v"
begin

lemma run_identity_kept: "identity j oid = Some x \<Longrightarrow> identity (fold step as j) oid = Some x"
  by (induction as arbitrary: j) (auto intro: identity_kept)

lemma run_verdict_kept: "verdict j oid = Some v \<Longrightarrow> verdict (fold step as j) oid = Some v"
  by (induction as arbitrary: j) (auto intro: verdict_kept)

lemma run_verdict_unique:
  "verdict (fold step as j) oid = Some v \<Longrightarrow> verdict (fold step bs (fold step as j)) oid = Some w \<Longrightarrow> v = w"
  using run_verdict_kept by fastforce

end

datatype journal_op =
    J_Prepare connector_journal_record
  | J_Applied string string string
  | J_Failed string
  | J_Unknown string

primrec journal_step :: "journal_op \<Rightarrow> connector_journal \<Rightarrow> connector_journal" where
  "journal_step (J_Prepare r) j = snd (journal_prepare r j)"
| "journal_step (J_Applied oid sha integ) j = snd (journal_mark_applied oid sha integ j)"
| "journal_step (J_Failed oid) j = snd (journal_mark_failed oid j)"
| "journal_step (J_Unknown oid) j = snd (journal_mark_unknown oid j)"

definition cj_identity :: "connector_journal \<Rightarrow> string \<Rightarrow> (string \<times> string) option" where
  "cj_identity j oid = map_option (\<lambda>r. (cj_locator_hash r, cj_mutation_digest r)) (j oid)"

text \<open>The final verdict: failed, or applied with its result.\<close>

definition cj_verdict ::
    "connector_journal \<Rightarrow> string \<Rightarrow> (string option \<times> string option) option option" where
  "cj_verdict j oid =
     Option.bind (j oid) (\<lambda>r. case cj_status r of
         CJ_Applied \<Rightarrow> Some (Some (cj_after_sha256 r, cj_after_integrity r))
       | CJ_Failed \<Rightarrow> Some None
       | _ \<Rightarrow> None)"

lemmas journal_op_defs =
  journal_prepare_def journal_mark_applied_def journal_mark_failed_def journal_mark_unknown_def

lemma cj_verdict_iff:
  "cj_verdict j oid = Some v \<longleftrightarrow>
     (\<exists>r. j oid = Some r \<and> (cj_status r = CJ_Applied \<and> v = Some (cj_after_sha256 r, cj_after_integrity r)
        \<or> cj_status r = CJ_Failed \<and> v = None))"
  by (cases "j oid") (auto simp: cj_verdict_def split: connector_journal_status.splits)

interpretation cj: verdict_journal journal_step cj_identity cj_verdict
proof
  fix j :: connector_journal and oid x a
  assume "cj_identity j oid = Some x"
  then show "cj_identity (journal_step a j) oid = Some x"
    by (cases a) (auto simp: cj_identity_def journal_op_defs
        split: option.splits connector_journal_status.splits)
next
  fix j :: connector_journal and oid v a
  assume "cj_verdict j oid = Some v"
  then obtain r where "j oid = Some r" "cj_status r = CJ_Applied \<or> cj_status r = CJ_Failed"
    and v: "cj_verdict j oid = Some v"
    by (auto simp: cj_verdict_iff)
  then have "journal_step a j oid = j oid"
    by (cases a) (auto simp: journal_op_defs split: option.splits connector_journal_status.splits)
  with v show "cj_verdict (journal_step a j) oid = Some v"
    by (simp add: cj_verdict_def)
qed

text \<open>The in-memory journal keeps applied results as long as records are not inserted again.\<close>

definition sj_identity :: "memory_journal \<Rightarrow> string \<Rightarrow> (string \<times> string) option" where
  "sj_identity j oid = map_option (\<lambda>r. (sj_locator_hash r, sj_mutation_digest r)) (j oid)"

definition sj_verdict :: "memory_journal \<Rightarrow> string \<Rightarrow> (string option \<times> string option) option" where
  "sj_verdict j oid =
     Option.bind (j oid) (\<lambda>r. if sj_status r = SJ_Applied
       then Some (sj_after_sha256 r, sj_after_integrity r) else None)"

definition memory_step :: "string \<times> string \<times> string \<Rightarrow> memory_journal \<Rightarrow> memory_journal" where
  "memory_step a j = (case a of (oid, sha, integ) \<Rightarrow> snd (memory_mark_applied oid sha integ j))"

interpretation sj: verdict_journal memory_step sj_identity sj_verdict
proof
  fix j :: memory_journal and oid x a
  assume "sj_identity j oid = Some x"
  then show "sj_identity (memory_step a j) oid = Some x"
    by (cases a) (auto simp: sj_identity_def memory_step_def memory_mark_applied_def
        split: option.splits)
next
  fix j :: memory_journal and oid v and a :: "string \<times> string \<times> string"
  assume "sj_verdict j oid = Some v"
  then obtain r where r: "j oid = Some r" "sj_status r = SJ_Applied"
    "v = (sj_after_sha256 r, sj_after_integrity r)"
    by (cases "j oid") (auto simp: sj_verdict_def split: if_splits)
  obtain i sha integ where a: "a = (i, sha, integ)" by (cases a)
  show "sj_verdict (memory_step a j) oid = Some v"
  proof (cases "i = oid \<and> sj_after_sha256 r = Some sha \<and> sj_after_integrity r = Some integ")
    case True
    with a r show ?thesis by (simp add: memory_step_def memory_mark_applied_def sj_verdict_def)
  next
    case False
    with a r have "memory_step a j oid = j oid"
      by (cases "j i") (auto simp: memory_step_def memory_mark_applied_def)
    with r show ?thesis by (simp add: sj_verdict_def)
  qed
qed

lemma replay_applied_iff:
  "journal_replay oid lhash digest j = Inr RO_AlreadyApplied \<longleftrightarrow>
     cj_identity j oid = Some (lhash, digest) \<and> (\<exists>res. cj_verdict j oid = Some (Some res))"
  by (auto simp: journal_replay_def cj_identity_def cj_verdict_def
      split: option.splits connector_journal_status.splits)

section \<open>Properties\<close>

text \<open>Replaying an operation against the connector journal is stable: once the journal
  answered that the operation was already applied, no sequence of later prepare, applied,
  failed or unknown reports changes the answer, and a replay under another locator or
  mutation is refused as a reused operation id.\<close>

theorem replay_stays_applied:
  assumes "journal_replay oid lhash digest j = Inr RO_AlreadyApplied"
  shows "journal_replay oid lhash digest (fold journal_step as j) = Inr RO_AlreadyApplied
    \<and> ((lhash', digest') \<noteq> (lhash, digest) \<longrightarrow>
        journal_replay oid lhash' digest' (fold journal_step as j) = Inl JE_OperationIdReused)"
proof -
  from assms obtain res where "cj_identity j oid = Some (lhash, digest)" "cj_verdict j oid = Some (Some res)"
    by (auto simp: replay_applied_iff)
  then have id: "cj_identity (fold journal_step as j) oid = Some (lhash, digest)"
    and "cj_verdict (fold journal_step as j) oid = Some (Some res)"
    by (auto intro: cj.run_identity_kept cj.run_verdict_kept)
  then have "journal_replay oid lhash digest (fold journal_step as j) = Inr RO_AlreadyApplied"
    by (auto simp: replay_applied_iff)
  with id show ?thesis
    by (auto simp: journal_replay_def cj_identity_def)
qed

definition demo_journal :: connector_journal where
  "demo_journal = fold journal_step
     [J_Prepare \<lparr> cj_operation_id = ''op-1'', cj_locator_hash = ''l'', cj_mutation_digest = ''d'',
        cj_status = CJ_Prepared, cj_before_sha256 = None, cj_after_sha256 = None,
        cj_before_integrity = None, cj_after_integrity = None \<rparr>,
      J_Unknown ''op-1'', J_Applied ''op-1'' ''s1'' ''i1''] Map.empty"

theorem replay_stays_applied_witness:
  "journal_replay ''op-1'' ''l'' ''d'' (fold journal_step [J_Failed ''op-1''] demo_journal)
     = Inr RO_AlreadyApplied
   \<and> journal_replay ''op-1'' ''l'' ''e'' (fold journal_step [J_Failed ''op-1''] demo_journal)
     = Inl JE_OperationIdReused"
proof -
  have "journal_replay ''op-1'' ''l'' ''d'' demo_journal = Inr RO_AlreadyApplied"
    by (simp add: demo_journal_def journal_replay_def journal_op_defs)
  from replay_stays_applied [OF this, where as = "[J_Failed ''op-1'']" and lhash' = "''l''" and digest' = "''e''"]
  show ?thesis by simp
qed

end
