(* ===== verification/Error_Mapper.thy ===== *)
theory Error_Mapper
  imports St_Domain
begin

text \<open>
  \<^verbatim>\<open>src/modules/bridge/error_mapper.rs\<close>: from the facts of a failed call to SillyTavern or
  the connector to the typed error the bridge reports. \<^verbatim>\<open>sha2\<close> with \<^verbatim>\<open>hex\<close> is the argument
  \<open>sha256_hex\<close>, \<^verbatim>\<open>serde_json::from_slice\<close> the argument \<open>from_slice\<close> (\<open>None\<close>: not JSON), and
  \<open>u\<close> the identifiers a new error draws. Bodies are redacted into the error's detail, and
  redaction may panic, so the mapper returns a \<open>call\<close>.
\<close>

section \<open>Facts\<close>

datatype st_failure_facts =
    Connect
  | Timeout
  | Http u16 "string option" "string option"
  | DecodeInvalidPayload
  | DecodeSettings
  | ConnectorUnavailable
  | ConnectorAuth
  | ConnectorVersion
  | ConnectorMediaType
  | Control st_error_code

record st_error_facts =
  ef_stage :: st_error_stage
  ef_endpoint_class :: "string option"
  ef_operation_id :: "string option"
  ef_commit_state :: commit_state
  ef_attempt :: u32
  ef_duration_ms :: "u64 option"
  ef_failure :: st_failure_facts

definition default_retryable :: "st_error_code \<Rightarrow> bool" where
  "default_retryable c \<longleftrightarrow>
     c \<in> {StConnectFailed, StRequestTimeout, StCsrfFetchFailed, StCharacterListFailed,
          StChatListFailed, StGenerateRateLimited, StGenerateUpstream5xx, StGenerateIdleTimeout,
          StGenerateHardTimeout, StGenerateStreamInvalid, StGenerateEmpty,
          StConnectorUnavailable, StChatConflict, StBackupFailed, StCommitFailed,
          StDeliveryFailed}"

primrec safe_message_for :: "st_error_code \<Rightarrow> string" where
  "safe_message_for StConnectFailed =
       utf8_encode [26080, 27861, 36830, 25509] @ '' SillyTavern'' @ utf8_encode [65292,
       26412, 27425, 27809, 26377, 20889, 20837, 32842, 22825, 12290]"
| "safe_message_for StRequestTimeout =
       utf8_encode [35831, 27714] @ '' SillyTavern '' @ utf8_encode [36229, 26102, 65292,
       26412, 27425, 27809, 26377, 20889, 20837, 32842, 22825, 12290]"
| "safe_message_for StCsrfFetchFailed =
       utf8_encode [26080, 27861, 33719, 21462] @ '' SillyTavern '' @ utf8_encode [20250,
       35805, 20973, 35777, 65292, 26412, 27425, 27809, 26377, 20889, 20837, 32842, 22825,
       12290]"
| "safe_message_for StCsrfMissing =
       ''SillyTavern '' @ utf8_encode [20250, 35805, 32570, 23569, 24517, 35201, 20973,
       35777, 65292, 26412, 27425, 27809, 26377, 20889, 20837, 32842, 22825, 12290]"
| "safe_message_for StSessionRejected =
       ''SillyTavern '' @ utf8_encode [25298, 32477, 20102, 26412, 27425, 20250, 35805,
       65292, 26412, 27425, 27809, 26377, 20889, 20837, 32842, 22825, 12290]"
| "safe_message_for StCharacterListFailed =
       utf8_encode [26080, 27861, 35835, 21462] @ '' SillyTavern '' @ utf8_encode [35282,
       33394, 21015, 34920, 65292, 26412, 27425, 27809, 26377, 20889, 20837, 32842, 22825,
       12290]"
| "safe_message_for StChatListFailed =
       utf8_encode [26080, 27861, 35835, 21462] @ '' SillyTavern '' @ utf8_encode [32842,
       22825, 21015, 34920, 65292, 26412, 27425, 27809, 26377, 20889, 20837, 32842, 22825,
       12290]"
| "safe_message_for StChatNotFound =
       utf8_encode [25214, 19981, 21040, 23545, 24212, 30340] @ '' SillyTavern ''
       @ utf8_encode [32842, 22825, 65292, 26412, 27425, 27809, 26377, 20889, 20837, 12290]"
| "safe_message_for StChatPayloadInvalid =
       ''SillyTavern '' @ utf8_encode [36820, 22238, 30340, 32842, 22825, 20869, 23481,
       26080, 27861, 35299, 26512, 65292, 26412, 27425, 27809, 26377, 20889, 20837, 32842,
       22825, 12290]"
| "safe_message_for StSettingsInvalid =
       ''SillyTavern '' @ utf8_encode [35774, 32622, 26080, 25928, 25110, 26080, 27861,
       35299, 26512, 65292, 26412, 27425, 27809, 26377, 20889, 20837, 32842, 22825, 12290]"
| "safe_message_for StGenerateRejected =
       ''SillyTavern '' @ utf8_encode [25298, 32477, 20102, 26412, 27425, 29983, 25104,
       35831, 27714, 65292, 20869, 23481, 27809, 26377, 20889, 20837, 32842, 22825, 12290]"
| "safe_message_for StGenerateRateLimited =
       ''SillyTavern '' @ utf8_encode [29983, 25104, 35831, 27714, 36807, 20110, 39057,
       32321, 65292, 26412, 27425, 20869, 23481, 27809, 26377, 20889, 20837, 32842, 22825,
       12290]"
| "safe_message_for StGenerateUpstream5xx =
       ''ST '' @ utf8_encode [30340, 27169, 22411, 21518, 31471, 36820, 22238, 38169, 35823,
       65292, 26412, 27425, 20869, 23481, 27809, 26377, 20889, 20837, 32842, 22825, 12290]"
| "safe_message_for StGenerateIdleTimeout =
       ''SillyTavern '' @ utf8_encode [29983, 25104, 38271, 26102, 38388, 27809, 26377,
       36755, 20986, 65292, 26412, 27425, 20869, 23481, 27809, 26377, 20889, 20837, 32842,
       22825, 12290]"
| "safe_message_for StGenerateHardTimeout =
       ''SillyTavern '' @ utf8_encode [29983, 25104, 36798, 21040, 26102, 38388, 19978,
       38480, 65292, 26412, 27425, 20869, 23481, 27809, 26377, 20889, 20837, 32842, 22825,
       12290]"
| "safe_message_for StGenerateStreamInvalid =
       ''SillyTavern '' @ utf8_encode [29983, 25104, 27969, 26684, 24335, 26080, 25928,
       65292, 26412, 27425, 20869, 23481, 27809, 26377, 20889, 20837, 32842, 22825, 12290]"
| "safe_message_for StGenerateEmpty =
       ''SillyTavern '' @ utf8_encode [29983, 25104, 32467, 26463, 20294, 27809, 26377,
       25991, 26412, 65292, 26412, 27425, 20869, 23481, 27809, 26377, 20889, 20837, 32842,
       22825, 12290]"
| "safe_message_for StGenerateStateUnknown =
       utf8_encode [26080, 27861, 30830, 35748] @ '' SillyTavern '' @ utf8_encode [26159,
       21542, 24050, 29983, 25104, 65292, 35831, 20808, 23545, 36134, 21518, 20877, 22788,
       29702, 12290]"
| "safe_message_for StConnectorUnavailable =
       utf8_encode [26080, 27861, 36830, 25509, 20889, 20837, 26381, 21153, 65292, 26412,
       27425, 27809, 26377, 20889, 20837, 32842, 22825, 12290]"
| "safe_message_for StConnectorAuthFailed =
       utf8_encode [20889, 20837, 26381, 21153, 37492, 26435, 22833, 36133, 65292, 26412,
       27425, 27809, 26377, 20889, 20837, 32842, 22825, 12290]"
| "safe_message_for StConnectorVersionMismatch =
       utf8_encode [20889, 20837, 26381, 21153, 29256, 26412, 19981, 20860, 23481, 65292,
       26412, 27425, 27809, 26377, 20889, 20837, 32842, 22825, 12290]"
| "safe_message_for StConnectorMediaTypeRejected =
       utf8_encode [20889, 20837, 35831, 27714, 26684, 24335, 34987, 25298, 32477, 65292,
       26412, 27425, 27809, 26377, 20889, 20837, 32842, 22825, 12290]"
| "safe_message_for StWriteNotReady =
       ST_WRITE_NOT_READY_MESSAGE"
| "safe_message_for StTestScopeRequired =
       utf8_encode [24403, 21069, 21482, 33021, 20889, 20837, 27979, 35797, 32842, 22825,
       65292, 26412, 27425, 27809, 26377, 20889, 20837, 12290]"
| "safe_message_for StPollerNotOwner =
       utf8_encode [24403, 21069, 36816, 34892, 23454, 20363, 19981, 26159, 35813]
       @ '' Bot '' @ utf8_encode [30340, 25152, 26377, 32773, 65292, 26412, 27425, 27809,
       26377, 20889, 20837, 12290]"
| "safe_message_for StPollerEpochMismatch =
       utf8_encode [24403, 21069, 36816, 34892, 23454, 20363, 25345, 26377, 36807, 26399,
       25152, 26377, 26435, 65292, 26412, 27425, 27809, 26377, 20889, 20837, 12290]"
| "safe_message_for StChatLocatorRejected =
       utf8_encode [32842, 22825, 23450, 20301, 20449, 24687, 19981, 21512, 27861, 65292,
       26412, 27425, 27809, 26377, 20889, 20837, 12290]"
| "safe_message_for StChatIntegrityMissing =
       utf8_encode [32842, 22825, 32570, 23569, 23436, 25972, 24615, 26631, 35760, 65292,
       26412, 27425, 27809, 26377, 20889, 20837, 12290]"
| "safe_message_for StChatConflict =
       utf8_encode [29983, 25104, 26399, 38388, 35813, 32842, 22825, 24050, 34987, 26356,
       26032, 65292, 26412, 27425, 27809, 26377, 35206, 30422, 26032, 20869, 23481, 12290]"
| "safe_message_for StOperationIdReused =
       utf8_encode [25805, 20316, 26631, 35782, 34987, 37325, 22797, 20351, 29992, 65292,
       26412, 27425, 27809, 26377, 20889, 20837, 12290]"
| "safe_message_for StBackupFailed =
       utf8_encode [20889, 20837, 21069, 22791, 20221, 22833, 36133, 65292, 26412, 27425,
       27809, 26377, 20889, 20837, 32842, 22825, 12290]"
| "safe_message_for StBackupQuotaExceeded =
       utf8_encode [22791, 20221, 31354, 38388, 19981, 36275, 65292, 26412, 27425, 27809,
       26377, 20889, 20837, 32842, 22825, 12290]"
| "safe_message_for StWriteVerifyFailed =
       utf8_encode [20889, 20837, 21518, 26657, 39564, 22833, 36133, 65292, 23578, 26410,
       30830, 35748, 32842, 22825, 26159, 21542, 24050, 26356, 26032, 12290]"
| "safe_message_for StCommitPayloadTooLarge =
       utf8_encode [20889, 20837, 20869, 23481, 36807, 22823, 65292, 26412, 27425, 27809,
       26377, 20889, 20837, 32842, 22825, 12290]"
| "safe_message_for StCommitValidationFailed =
       utf8_encode [20889, 20837, 20869, 23481, 26410, 36890, 36807, 26657, 39564, 65292,
       26412, 27425, 27809, 26377, 20889, 20837, 32842, 22825, 12290]"
| "safe_message_for StCommitFailed =
       utf8_encode [20445, 23384, 32842, 22825, 22833, 36133, 65292, 26412, 27425, 27809,
       26377, 20889, 20837, 12290]"
| "safe_message_for StCommitStateUnknown =
       utf8_encode [26080, 27861, 30830, 35748, 32842, 22825, 26159, 21542, 24050, 20445,
       23384, 65292, 35831, 20808, 23545, 36134, 21518, 20877, 22788, 29702, 12290]"
| "safe_message_for StDeliveryFailed =
       ''ST '' @ utf8_encode [20869, 23481, 24050, 20889, 20837, 65307] @ ''Telegram ''
       @ utf8_encode [25237, 36882, 22833, 36133, 12290]"

section \<open>Bodies\<close>

definition is_json_body :: "string option \<Rightarrow> string \<Rightarrow> bool" where
  "is_json_body content_type body =
     (let ct = to_ascii_lowercase (case content_type of None \<Rightarrow> [] | Some t \<Rightarrow> t) in
      if contains_str ct ''json'' then True
      else if ct \<noteq> [] then False
      else
        (let trimmed = (if utf8_valid body then trim body else []) in
         starts_with trimmed ''{'' \<or> starts_with trimmed ''[''))"

definition json_error_fields ::
    "(string \<Rightarrow> json option) \<Rightarrow> string \<Rightarrow> (string option \<times> string option) option" where
  "json_error_fields from_slice body =
     Option.bind (from_slice body) (\<lambda>v.
     Option.bind (json_get v ''error'') (\<lambda>err.
       let code = get_str err ''code''; kind = get_str err ''type''; msg = get_str err ''message'' in
       Some (case code of None \<Rightarrow> kind | Some c \<Rightarrow> Some c, msg)))"

definition json_upstream_code ::
    "(string \<Rightarrow> json option) \<Rightarrow> string option \<Rightarrow> string option \<Rightarrow> string option" where
  "json_upstream_code from_slice content_type body =
     Option.bind body (\<lambda>b.
       if \<not> is_json_body content_type b then None
       else Option.bind (json_error_fields from_slice b) fst)"

definition http_metadata ::
    "(string \<Rightarrow> string) \<Rightarrow> u16 \<Rightarrow> string option \<Rightarrow> string \<Rightarrow> string" where
  "http_metadata sha256_hex status content_type body =
     ''status='' @ nat_to_string (unat status) @ ''; len='' @ nat_to_string (length body)
     @ ''; sha256='' @ sha256_hex body
     @ (case content_type of None \<Rightarrow> [] | Some t \<Rightarrow> ''; content-type='' @ t)"

definition http_detail ::
    "(string \<Rightarrow> string) \<Rightarrow> (string \<Rightarrow> json option) \<Rightarrow> u16 \<Rightarrow> string option \<Rightarrow> string \<Rightarrow> string call" where
  "http_detail sha256_hex from_slice status content_type body =
     (let metadata = http_metadata sha256_hex status content_type body in
      if is_json_body content_type body then
        Returns
          (case json_error_fields from_slice body of
             None \<Rightarrow> metadata
           | Some (code, msg) \<Rightarrow>
               metadata
               @ (case code of None \<Rightarrow> [] | Some c \<Rightarrow> ''; upstream_code='' @ c)
               @ (case msg of None \<Rightarrow> [] | Some m \<Rightarrow> ''; message='' @ m))
      else if utf8_valid body then
        map_call (\<lambda>excerpt. case excerpt of
            None \<Rightarrow> metadata | Some e \<Rightarrow> metadata @ ''; excerpt='' @ e) (redact_detail body)
      else Returns metadata)"

definition http_safe_detail ::
    "(string \<Rightarrow> string) \<Rightarrow> (string \<Rightarrow> json option) \<Rightarrow> u16 \<Rightarrow> string option \<Rightarrow> string option
      \<Rightarrow> string option call" where
  "http_safe_detail sha256_hex from_slice status content_type body =
     (let b = (case body of None \<Rightarrow> [] | Some x \<Rightarrow> x) in
      bind_call (http_detail sha256_hex from_slice status content_type b) (\<lambda>detail.
      bind_call (redact_detail detail) (\<lambda>r.
      case r of
        Some d \<Rightarrow> Returns (Some d)
      | None \<Rightarrow> redact_detail (http_metadata sha256_hex status content_type b))))"

section \<open>Mapping\<close>

record mapped_extras =
  mx_http_status :: "u16 option"
  mx_upstream_code :: "string option"
  mx_safe_detail :: "string option"

definition mapped ::
    "ids \<Rightarrow> st_error_facts \<Rightarrow> st_error_code \<Rightarrow> st_error_stage \<Rightarrow> bool \<Rightarrow> commit_state
      \<Rightarrow> mapped_extras \<Rightarrow> st_bridge_error" where
  "mapped u facts c stg retry cs ex =
     (st_bridge_error_new u c stg (safe_message_for c) retry cs)
       \<lparr> endpoint_class := ef_endpoint_class facts,
         err_operation_id := ef_operation_id facts,
         attempt := ef_attempt facts,
         duration_ms := ef_duration_ms facts,
         upstream_http_status := mx_http_status ex,
         upstream_code := mx_upstream_code ex,
         safe_detail := mx_safe_detail ex \<rparr>"

definition mapped_plain ::
    "ids \<Rightarrow> st_error_facts \<Rightarrow> st_error_code \<Rightarrow> st_error_stage \<Rightarrow> bool \<Rightarrow> commit_state
      \<Rightarrow> st_bridge_error" where
  "mapped_plain u facts c stg retry cs =
     mapped u facts c stg retry cs
       \<lparr> mx_http_status = None, mx_upstream_code = None, mx_safe_detail = None \<rparr>"

definition catalog_code :: "string option \<Rightarrow> st_error_code" where
  "catalog_code cls =
     (if contains_str (to_ascii_lowercase (case cls of None \<Rightarrow> [] | Some c \<Rightarrow> c)) ''chat''
      then StChatListFailed else StCharacterListFailed)"

type_synonym verdict = "st_error_code \<times> st_error_stage \<times> bool \<times> commit_state"

definition map_5xx :: "st_error_facts \<Rightarrow> verdict" where
  "map_5xx facts =
     (case ef_stage facts of
        Stage_Generation \<Rightarrow>
          (StGenerateUpstream5xx, ef_stage facts, True, ef_commit_state facts)
      | Stage_Commit \<Rightarrow>
          (StCommitFailed, ef_stage facts, True,
           if ef_commit_state facts = CS_Unknown then CS_Unknown else CS_NotApplied)
      | Stage_Session \<Rightarrow> (StCsrfFetchFailed, ef_stage facts, True, ef_commit_state facts)
      | Stage_Connect \<Rightarrow> (StConnectFailed, Stage_Connect, True, ef_commit_state facts)
      | _ \<Rightarrow> (catalog_code (ef_endpoint_class facts), ef_stage facts, True, ef_commit_state facts))"

definition map_other_4xx :: "st_error_facts \<Rightarrow> verdict" where
  "map_other_4xx facts =
     (case ef_stage facts of
        Stage_Generation \<Rightarrow> (StGenerateRejected, ef_stage facts, False, ef_commit_state facts)
      | Stage_Commit \<Rightarrow> (StCommitValidationFailed, ef_stage facts, False, ef_commit_state facts)
      | Stage_Session \<Rightarrow> (StCsrfMissing, Stage_Session, False, ef_commit_state facts)
      | Stage_Catalog \<Rightarrow>
          (catalog_code (ef_endpoint_class facts), ef_stage facts, True, ef_commit_state facts)
      | Stage_Snapshot \<Rightarrow> (StChatPayloadInvalid, ef_stage facts, False, ef_commit_state facts)
      | Stage_Connect \<Rightarrow> (StConnectFailed, Stage_Connect, True, ef_commit_state facts)
      | _ \<Rightarrow> (StSessionRejected, ef_stage facts, False, ef_commit_state facts))"

definition http_verdict :: "st_error_facts \<Rightarrow> nat \<Rightarrow> verdict" where
  "http_verdict facts status =
     (if status = 403 then (StSessionRejected, Stage_Session, False, ef_commit_state facts)
      else if status = 401 then (StSessionRejected, Stage_Session, False, ef_commit_state facts)
      else if status = 404 then (StChatNotFound, Stage_Snapshot, False, ef_commit_state facts)
      else if status = 409 \<and> ef_stage facts = Stage_Commit
        then (StChatConflict, Stage_Commit, True, CS_NotApplied)
      else if status = 413
        then (StCommitPayloadTooLarge, Stage_Commit, False, ef_commit_state facts)
      else if status = 429
        then (StGenerateRateLimited, ef_stage facts, True, ef_commit_state facts)
      else if 200 \<le> status \<and> status \<le> 299
        then (StChatPayloadInvalid, ef_stage facts, False, ef_commit_state facts)
      else if 500 \<le> status \<and> status \<le> 599 then map_5xx facts
      else if 400 \<le> status \<and> status \<le> 499 then map_other_4xx facts
      else map_other_4xx facts)"

definition upstream_verdict ::
    "(string \<Rightarrow> json option) \<Rightarrow> st_error_facts \<Rightarrow> string option \<Rightarrow> string option
      \<Rightarrow> (string \<times> verdict) option" where
  "upstream_verdict from_slice facts content_type body =
     Option.bind body (\<lambda>b.
     if \<not> is_json_body content_type b then None
     else
       Option.bind (from_slice b) (\<lambda>v.
       Option.bind (json_get v ''error'') (\<lambda>err.
       Option.bind (get_str err ''code'') (\<lambda>code.
       Option.bind (code_parse code) (\<lambda>parsed.
         Some (code, parsed,
           (case Option.bind (get_str err ''stage'') stage_parse of
              None \<Rightarrow> ef_stage facts | Some s \<Rightarrow> s),
           (case get_bool err ''retryable'' of
              None \<Rightarrow> default_retryable parsed | Some r \<Rightarrow> r),
           (case Option.bind (get_str err ''commitState'') commit_state_parse of
              None \<Rightarrow> ef_commit_state facts | Some c \<Rightarrow> c)))))))"

definition map_upstream_st_error ::
    "(string \<Rightarrow> string) \<Rightarrow> (string \<Rightarrow> json option) \<Rightarrow> ids \<Rightarrow> st_error_facts \<Rightarrow> u16
      \<Rightarrow> string option \<Rightarrow> string option \<Rightarrow> st_bridge_error call option" where
  "map_upstream_st_error sha256_hex from_slice u facts status content_type body =
     map_option (\<lambda>(code, c, stg, retry, cs).
       map_call (\<lambda>d. mapped u facts c stg retry cs
           \<lparr> mx_http_status = Some status, mx_upstream_code = Some code, mx_safe_detail = d \<rparr>)
         (http_safe_detail sha256_hex from_slice status content_type body))
       (upstream_verdict from_slice facts content_type body)"

definition mapped_http ::
    "(string \<Rightarrow> string) \<Rightarrow> (string \<Rightarrow> json option) \<Rightarrow> ids \<Rightarrow> st_error_facts \<Rightarrow> u16
      \<Rightarrow> string option \<Rightarrow> string option \<Rightarrow> verdict \<Rightarrow> st_bridge_error call" where
  "mapped_http sha256_hex from_slice u facts status content_type body v =
     (case v of (c, stg, retry, cs) \<Rightarrow>
        map_call (\<lambda>d. mapped u facts c stg retry cs
            \<lparr> mx_http_status = Some status,
              mx_upstream_code = json_upstream_code from_slice content_type body,
              mx_safe_detail = d \<rparr>)
          (http_safe_detail sha256_hex from_slice status content_type body))"

definition map_http ::
    "(string \<Rightarrow> string) \<Rightarrow> (string \<Rightarrow> json option) \<Rightarrow> ids \<Rightarrow> st_error_facts \<Rightarrow> u16
      \<Rightarrow> string option \<Rightarrow> string option \<Rightarrow> st_bridge_error call" where
  "map_http sha256_hex from_slice u facts status content_type body =
     (if status = 0 then
        mapped_http sha256_hex from_slice u facts status content_type body
          (StConnectFailed, Stage_Connect, True, ef_commit_state facts)
      else
        (case map_upstream_st_error sha256_hex from_slice u facts status content_type body of
           Some e \<Rightarrow> e
         | None \<Rightarrow>
             mapped_http sha256_hex from_slice u facts status content_type body
               (http_verdict facts (unat status))))"

definition map_st_error ::
    "(string \<Rightarrow> string) \<Rightarrow> (string \<Rightarrow> json option) \<Rightarrow> ids \<Rightarrow> st_error_facts \<Rightarrow> st_bridge_error call"
where
  "map_st_error sha256_hex from_slice u facts =
     (let cs = ef_commit_state facts; stg = ef_stage facts in
      case ef_failure facts of
        Connect \<Rightarrow> Returns (mapped_plain u facts StConnectFailed Stage_Connect True cs)
      | Timeout \<Rightarrow> Returns (mapped_plain u facts StRequestTimeout stg True cs)
      | Http status content_type body \<Rightarrow>
          map_http sha256_hex from_slice u facts status content_type body
      | DecodeInvalidPayload \<Rightarrow> Returns (mapped_plain u facts StChatPayloadInvalid stg False cs)
      | DecodeSettings \<Rightarrow> Returns (mapped_plain u facts StSettingsInvalid stg False cs)
      | ConnectorUnavailable \<Rightarrow>
          Returns (mapped_plain u facts StConnectorUnavailable stg True cs)
      | ConnectorAuth \<Rightarrow> Returns (mapped_plain u facts StConnectorAuthFailed stg False cs)
      | ConnectorVersion \<Rightarrow>
          Returns (mapped_plain u facts StConnectorVersionMismatch stg False cs)
      | ConnectorMediaType \<Rightarrow>
          Returns (mapped_plain u facts StConnectorMediaTypeRejected stg False cs)
      | Control c \<Rightarrow> Returns (mapped_plain u facts c stg (default_retryable c) cs))"

section \<open>Lemmas\<close>

lemma mapped_fields [simp]:
  "err_code (mapped u facts c stg retry cs ex) = c"
  "err_stage (mapped u facts c stg retry cs ex) = stg"
  "err_retryable (mapped u facts c stg retry cs ex) = retry"
  "err_commit_state (mapped u facts c stg retry cs ex) = cs"
  "safe_message (mapped u facts c stg retry cs ex) = safe_message_for c"
  "err_operation_id (mapped u facts c stg retry cs ex) = ef_operation_id facts"
  "attempt (mapped u facts c stg retry cs ex) = ef_attempt facts"
  "upstream_http_status (mapped u facts c stg retry cs ex) = mx_http_status ex"
  "safe_detail (mapped u facts c stg retry cs ex) = mx_safe_detail ex"
  by (simp_all add: mapped_def st_bridge_error_new_def)

text \<open>The status verdicts change an unknown commit state only for a conflict at commit.\<close>

lemma http_verdict_commit_state:
  assumes "http_verdict facts status = (c, stg, retry, cs)" "ef_commit_state facts = CS_Unknown"
  shows "cs = CS_Unknown \<or> status = 409 \<and> ef_stage facts = Stage_Commit \<and> cs = CS_NotApplied"
  using assms
  by (auto simp: http_verdict_def map_5xx_def map_other_4xx_def
      split: if_splits st_error_stage.splits)

text \<open>The commit state an upstream error object states in so many words.\<close>

definition upstream_commit_state ::
    "(string \<Rightarrow> json option) \<Rightarrow> string option \<Rightarrow> commit_state option" where
  "upstream_commit_state from_slice body =
     Option.bind body (\<lambda>b. Option.bind (from_slice b) (\<lambda>v.
     Option.bind (json_get v ''error'') (\<lambda>err.
     Option.bind (get_str err ''commitState'') commit_state_parse)))"

lemma upstream_verdict_commit_state:
  assumes "upstream_verdict from_slice facts content_type body = Some (code, c, stg, retry, cs)"
  shows "cs = ef_commit_state facts \<or> upstream_commit_state from_slice body = Some cs"
  using assms
  by (auto simp: upstream_verdict_def upstream_commit_state_def Option.bind_eq_Some_conv
      split: if_splits option.splits)

lemma map_http_commit_state:
  assumes "map_http sha256_hex from_slice u facts status content_type body = Returns e"
    and "ef_commit_state facts = CS_Unknown" "err_commit_state e \<noteq> CS_Unknown"
  shows "unat status = 409 \<and> ef_stage facts = Stage_Commit \<and> err_commit_state e = CS_NotApplied
    \<or> upstream_commit_state from_slice body = Some (err_commit_state e)"
proof (cases "status = 0")
  case True
  with assms show ?thesis
    by (auto simp: map_http_def mapped_http_def map_call_def split: call.splits)
next
  case False
  show ?thesis
  proof (cases "upstream_verdict from_slice facts content_type body")
    case None
    obtain c stg retry cs where v: "http_verdict facts (unat status) = (c, stg, retry, cs)"
      using prod_cases4 by blast
    with None False assms(1) have "err_commit_state e = cs"
      by (auto simp: map_http_def map_upstream_st_error_def mapped_http_def map_call_def
          split: call.splits)
    with http_verdict_commit_state [OF v assms(2)] assms(3) show ?thesis by auto
  next
    case (Some w)
    obtain code c stg retry cs where w: "w = (code, c, stg, retry, cs)" using prod_cases5 by blast
    with Some False assms(1) have "err_commit_state e = cs"
      by (auto simp: map_http_def map_upstream_st_error_def map_call_def split: call.splits)
    with upstream_verdict_commit_state [OF Some [unfolded w]] assms(2,3) show ?thesis by auto
  qed
qed

section \<open>Properties\<close>

text \<open>The mapper never turns an unknown commit state into a known one by itself: when the
  caller does not know whether a write was applied, the reported error says unknown, unless
  the upstream answered a conflict (409) to a commit, which means not applied, or its error
  object states the commit state.\<close>

theorem unknown_commit_state_preserved:
  assumes "map_st_error sha256_hex from_slice u facts = Returns e"
    and "ef_commit_state facts = CS_Unknown" "err_commit_state e \<noteq> CS_Unknown"
  shows "\<exists>status content_type body. ef_failure facts = Http status content_type body
    \<and> (unat status = 409 \<and> ef_stage facts = Stage_Commit \<and> err_commit_state e = CS_NotApplied
       \<or> upstream_commit_state from_slice body = Some (err_commit_state e))"
  using assms map_http_commit_state [of sha256_hex from_slice u facts _ _ _ e]
  by (cases "ef_failure facts") (auto simp: map_st_error_def mapped_plain_def Let_def)

definition demo_facts409 :: st_error_facts where
  "demo_facts409 =
     \<lparr> ef_stage = Stage_Commit, ef_endpoint_class = None, ef_operation_id = Some ''op-1'',
       ef_commit_state = CS_Unknown, ef_attempt = 1, ef_duration_ms = None,
       ef_failure = Http 409 None None \<rparr>"

theorem unknown_commit_state_preserved_witness:
  "\<exists>e. map_st_error (\<lambda>_. ''00'') (\<lambda>_. None) (''rq'', ''tr'') demo_facts409 = Returns e
     \<and> err_commit_state e = CS_NotApplied \<and> ef_stage demo_facts409 = Stage_Commit"
proof -
  let ?H = "\<lambda>_. ''00''" and ?J = "\<lambda>_. None"
  have "redact_detail ''status=409; len=0; sha256=00'' = Returns (Some ''status=409; len=0; sha256=00'')"
    by code_simp
  moreover have "http_metadata ?H 409 None [] = ''status=409; len=0; sha256=00''"
    "\<not> is_json_body None []" "redact_detail [] = Returns None" "utf8_valid []"
    by code_simp+
  ultimately have "http_safe_detail ?H ?J 409 None None = Returns (Some ''status=409; len=0; sha256=00'')"
    by (simp add: http_safe_detail_def http_detail_def)
  then obtain e where e: "map_st_error ?H ?J (''rq'', ''tr'') demo_facts409 = Returns e"
    "err_commit_state e = CS_NotApplied"
    by (simp add: map_st_error_def map_http_def demo_facts409_def map_upstream_st_error_def
        upstream_verdict_def mapped_http_def http_verdict_def)
  moreover from unknown_commit_state_preserved [OF e(1)] e(2)
  have "ef_stage demo_facts409 = Stage_Commit"
    by (auto simp: upstream_commit_state_def demo_facts409_def)
  ultimately show ?thesis by blast
qed

text \<open>A text body from the upstream server can make the mapper panic instead of returning
  an error: the body below is not JSON, is excerpted through the redaction filter, and its two
  overlapping paths panic there, whatever the status, stage and identifiers.\<close>

theorem upstream_body_can_panic_mapper:
  assumes "status \<noteq> 0"
    and "ef_failure facts =
      Http status (Some ''text/plain'') (Some ''PATH=/opt/a:/home/user/project/data'')"
  shows "map_st_error sha256_hex from_slice u facts = Panicked"
proof -
  let ?b = "''PATH=/opt/a:/home/user/project/data''"
  have nojson: "\<not> is_json_body (Some ''text/plain'') ?b" and valid: "utf8_valid ?b"
    and panic: "redact_detail ?b = Panicked"
    by code_simp+
  then have "http_safe_detail sha256_hex from_slice status (Some ''text/plain'') (Some ?b) = Panicked"
    by (simp add: http_safe_detail_def http_detail_def Let_def)
  moreover have "upstream_verdict from_slice facts (Some ''text/plain'') (Some ?b) = None"
    using nojson by (simp add: upstream_verdict_def)
  ultimately show ?thesis
    using assms
    by (simp add: map_st_error_def map_http_def map_upstream_st_error_def mapped_http_def
        case_prod_unfold Let_def)
qed

theorem upstream_body_can_panic_mapper_witness:
  "map_st_error (\<lambda>_. ''00'') (\<lambda>_. None) (''rq'', ''tr'')
     (demo_facts409\<lparr>ef_failure :=
        Http 500 (Some ''text/plain'') (Some ''PATH=/opt/a:/home/user/project/data'')\<rparr>) = Panicked"
  by (rule upstream_body_can_panic_mapper [of 500]) simp_all

end
