(* ===== verification/Operation_Coordinator.thy ===== *)
theory Operation_Coordinator
  imports Operation_Payload Operation_Journal Error_Mapper
begin

text \<open>
  \<^verbatim>\<open>src/modules/bridge/operation_coordinator.rs\<close>: the coordinator that couples the durable
  ledger with the mutation boundary of the backend. Its collaborators are the fields of the
  record \<open>coordinator\<close>: the backend, the operation journal, the secret vault and the AEAD are
  functions on the world, JSON printing and parsing plain functions. A backend call may change
  the world in any way, the database included, which is where other tasks run. Every call
  reads the clock and draws error identifiers in sequence: \<open>clk n\<close> and \<open>uid n\<close> are the \<open>n\<close>-th
  readings of a call.
\<close>

section \<open>Ports and monad\<close>

type_synonym ('w, 'a) st_m = "'w world \<Rightarrow> 'a st_result call \<times> 'w world"

definition st_return :: "'a \<Rightarrow> ('w, 'a) st_m" where
  "st_return a w = (Returns (Inr a), w)"

definition st_fail :: "st_bridge_error call \<Rightarrow> ('w, 'a) st_m" where
  "st_fail e w = (map_call Inl e, w)"

definition st_bind :: "('w, 'a) st_m \<Rightarrow> ('a \<Rightarrow> ('w, 'b) st_m) \<Rightarrow> ('w, 'b) st_m" where
  "st_bind m f w =
     (case m w of
        (Panicked, w') \<Rightarrow> (Panicked, w')
      | (Returns (Inl e), w') \<Rightarrow> (Returns (Inl e), w')
      | (Returns (Inr a), w') \<Rightarrow> f a w')"

record 'w coordinator =
  co_create_chat :: "create_st_chat \<Rightarrow> ('w, st_commit_result) st_m"
  co_commit :: "commit_st_chat \<Rightarrow> ('w, st_commit_result) st_m"
  co_journal_lookup :: "string \<Rightarrow> ('w, st_operation_journal_record option) app_m"
  co_vault :: "'w vault"
  co_crypto :: crypto
  co_payload_encryptor :: "operation_payload_encryptor option"
  co_key_provider :: "u32 option"
  co_result_to_string :: "st_commit_result \<Rightarrow> string option"
  co_value_to_string :: "json \<Rightarrow> string"
  co_mutation_to_vec :: "st_mutation \<Rightarrow> string option"
  co_payload_from_slice :: "string \<Rightarrow> operation_recovery_payload option"
  co_json_from_slice :: "string \<Rightarrow> json option"

section \<open>Errors\<close>

definition bridge_error_from_app :: "ids \<Rightarrow> app_error \<Rightarrow> string \<Rightarrow> st_bridge_error" where
  "bridge_error_from_app u e oid =
     (st_bridge_error_new u StCommitFailed Stage_Control (app_message e) False CS_NotStarted)
       \<lparr> err_operation_id := Some oid \<rparr>"

definition operation_state_persistence_error ::
    "ids \<Rightarrow> string \<Rightarrow> st_error_code \<Rightarrow> app_error \<Rightarrow> commit_state \<Rightarrow> st_bridge_error" where
  "operation_state_persistence_error u oid original persistence cs =
     (st_bridge_error_new u StCommitStateUnknown Stage_Control
        (''operation state persistence failed (original error code '' @ code_as_str original
         @ ''; persistence error code '' @ app_code persistence @ '')'') False cs)
       \<lparr> err_operation_id := Some oid,
         safe_detail := Some (''original_code='' @ code_as_str original @ ''; persistence_code=''
                              @ app_code persistence) \<rparr>"

definition unknown_commit_error :: "ids \<Rightarrow> string \<Rightarrow> string \<Rightarrow> st_bridge_error call" where
  "unknown_commit_error u oid detail =
     map_call (\<lambda>d.
       (st_bridge_error_new u StCommitStateUnknown Stage_Commit
          ''SillyTavern commit state is unknown; reconciliation is required'' False CS_Unknown)
         \<lparr> err_operation_id := Some oid, safe_detail := d \<rparr>)
       (redact_detail detail)"

text \<open>An application computation whose error becomes a bridge error.\<close>

definition st_app :: "ids \<Rightarrow> string \<Rightarrow> ('w, 'a) app_m \<Rightarrow> ('w, 'a) st_m" where
  "st_app u oid m w =
     (case m w of (r, w') \<Rightarrow> (Returns (map_err (\<lambda>e. bridge_error_from_app u e oid) r), w'))"

definition st_store :: "ids \<Rightarrow> string \<Rightarrow> (app_error, 'a) store_m \<Rightarrow> ('w, 'a) st_m" where
  "st_store u oid m = st_app u oid (on_store m)"

section \<open>Claims and plain transitions\<close>

datatype claim_disposition = Fresh | Resume | AlreadyDelivered | Rejected

fun duplicate_disposition ::
    "bridge_operation_status \<Rightarrow> operation_commit_state \<Rightarrow> claim_disposition" where
  "duplicate_disposition Delivered OCS_Applied = AlreadyDelivered"
| "duplicate_disposition Committed OCS_Applied = Resume"
| "duplicate_disposition Committed OCS_NotApplied = Rejected"
| "duplicate_disposition Delivered OCS_NotApplied = Rejected"
| "duplicate_disposition Committed OCS_Unknown = Resume"
| "duplicate_disposition Delivered OCS_Unknown = Resume"
| "duplicate_disposition s c =
     (if c = OCS_NotApplied \<or> s \<in> {Conflict, Failed, Interrupted} then Rejected else Resume)"

record claimed_operation =
  co_disposition :: claim_disposition
  co_record :: bridge_operation_record

definition coordinator_claim ::
    "string \<Rightarrow> string \<Rightarrow> claim_operation_request
      \<Rightarrow> (operation_claim_error, claimed_operation) store_m" where
  "coordinator_claim now fresh q db =
     (case claim_operation now fresh q db of
        (Inr r, db') \<Rightarrow> (Inr \<lparr> co_disposition = Fresh, co_record = r \<rparr>, db')
      | (Inl (DuplicateClaim r), db') \<Rightarrow>
          (Inr \<lparr> co_disposition = duplicate_disposition (rec_status r) (rec_commit_state r),
                 co_record = r \<rparr>, db')
      | (Inl e, db') \<Rightarrow> (Inl e, db'))"

definition mark_snapshot_ready ::
    "string \<Rightarrow> ids \<Rightarrow> string \<Rightarrow> string option \<Rightarrow> string option \<Rightarrow> i64 option \<Rightarrow> i64 option
      \<Rightarrow> ('w, bridge_operation_record) st_m" where
  "mark_snapshot_ready now u oid sha integ sz cnt =
     st_store u oid (update_snapshot_ready now oid sha integ sz cnt)"

definition mark_generating :: "string \<Rightarrow> ids \<Rightarrow> string \<Rightarrow> ('w, bridge_operation_record) st_m" where
  "mark_generating now u oid = st_store u oid (update_generating now oid)"

definition coordinator_mark_committing ::
    "string \<Rightarrow> ids \<Rightarrow> string \<Rightarrow> ('w, bridge_operation_record) st_m" where
  "coordinator_mark_committing now u oid = st_store u oid (mark_committing now oid)"

definition mark_committed_result ::
    "'w coordinator \<Rightarrow> string \<Rightarrow> ids \<Rightarrow> string \<Rightarrow> st_commit_result \<Rightarrow> operation_commit_state
      \<Rightarrow> ('w, bridge_operation_record) st_m" where
  "mark_committed_result K now u oid res expected =
     (case co_result_to_string K res of
        None \<Rightarrow> st_fail (unknown_commit_error u oid ''connector result serialization failed'')
      | Some encoded \<Rightarrow> st_store u oid (mark_committed_with_state now oid encoded expected))"

definition mark_unknown :: "string \<Rightarrow> ids \<Rightarrow> string \<Rightarrow> ('w, bridge_operation_record) st_m" where
  "mark_unknown now u oid = st_store u oid (mark_commit_unknown now oid)"

definition mark_generated ::
    "string \<Rightarrow> ids \<Rightarrow> string \<Rightarrow> encrypted_operation_payload \<Rightarrow> string
      \<Rightarrow> ('w, bridge_operation_record) st_m" where
  "mark_generated now u oid pl digest = st_store u oid (update_generated now oid pl digest)"

definition coordinator_mark_delivered ::
    "string \<Rightarrow> ids \<Rightarrow> string \<Rightarrow> ('w, bridge_operation_record) st_m" where
  "coordinator_mark_delivered now u oid = st_store u oid (mark_delivered now oid)"

definition settle_generation_failure ::
    "string \<Rightarrow> ids \<Rightarrow> string \<Rightarrow> st_bridge_error \<Rightarrow> 'w world \<Rightarrow> st_bridge_error \<times> 'w world" where
  "settle_generation_failure now u oid e w =
     (case on_store (mark_failed now oid (stage_as_str (err_stage e)) (code_as_str (err_code e))
              (safe_message e) (err_retryable e)) w of
        (Inr _, w') \<Rightarrow> (e, w')
      | (Inl pe, w') \<Rightarrow>
          (operation_state_persistence_error u oid (err_code e) pe CS_NotStarted, w'))"

section \<open>Payload keys and recovery payloads\<close>

definition key_unavailable :: app_error where
  "key_unavailable =
     service_unavailable ''PAYLOAD_KEY_UNAVAILABLE'' ''operation payload key is unavailable''"

definition payload_encryptor_for_operation ::
    "'w coordinator \<Rightarrow> string \<Rightarrow> string \<Rightarrow> string \<Rightarrow> ('w, operation_payload_encryptor) app_m" where
  "payload_encryptor_for_operation K now dek oid =
     (case co_key_provider K of
        Some kv \<Rightarrow> for_operation (co_vault K) kv now dek oid
      | None \<Rightarrow>
          (case co_payload_encryptor K of
             Some enc \<Rightarrow> app_return enc
           | None \<Rightarrow> app_fail key_unavailable))"

definition restore_payload_encryptor_for_operation ::
    "'w coordinator \<Rightarrow> string \<Rightarrow> ('w, operation_payload_encryptor) app_m" where
  "restore_payload_encryptor_for_operation K oid =
     (case co_key_provider K of
        Some kv \<Rightarrow> restore_for_operation (co_vault K) oid
      | None \<Rightarrow>
          (case co_payload_encryptor K of
             Some enc \<Rightarrow> app_return enc
           | None \<Rightarrow> app_fail key_unavailable))"

definition recovery_payload ::
    "bridge_operation_record \<Rightarrow> encrypted_operation_payload app_result" where
  "recovery_payload r =
     (case rec_payload r of
        None \<Rightarrow> Inl (bad_request ''PAYLOAD_MISSING'' ''operation recovery payload is missing'')
      | Some pl \<Rightarrow>
          if is_blank (rec_id r) \<or> is_blank (rec_bot_id r)
          then Inl (bad_request ''PAYLOAD_AAD_INVALID'' ''operation payload identity is incomplete'')
          else Inr pl)"

text \<open>\<^verbatim>\<open>mutation_digest\<close> of \<^verbatim>\<open>st_ops.rs\<close>.\<close>

definition mutation_digest :: "'w coordinator \<Rightarrow> st_mutation \<Rightarrow> string" where
  "mutation_digest K m =
     sha256_hex (co_crypto K) (case co_mutation_to_vec K m of Some s \<Rightarrow> s | None \<Rightarrow> ''{}'')"

definition record_locator_hash :: "'w coordinator \<Rightarrow> bridge_operation_record \<Rightarrow> string" where
  "record_locator_hash K r =
     locator_hash (sha256_hex (co_crypto K)) (loc_handle (rec_locator r))
       (loc_avatar (rec_locator r)) (loc_chat_file (rec_locator r))"

definition recovery_aad ::
    "'w coordinator \<Rightarrow> bridge_operation_record \<Rightarrow> poller_runtime_fence \<Rightarrow> operation_aad" where
  "recovery_aad K r fence =
     aad_new_with_fence (rec_id r) (record_locator_hash K r) (rec_operation_kind r)
       (rec_actor_id r) fence"

definition decode_and_validate_recovery_payload ::
    "'w coordinator \<Rightarrow> operation_payload_encryptor \<Rightarrow> bridge_operation_record
      \<Rightarrow> encrypted_operation_payload \<Rightarrow> poller_runtime_fence
      \<Rightarrow> operation_recovery_payload app_result" where
  "decode_and_validate_recovery_payload K enc r pl fence =
     bind_r (payload_decrypt (co_crypto K) enc pl (recovery_aad K r fence)) (\<lambda>plaintext.
     bind_r (ok_or (bad_request ''PAYLOAD_RECOVERY_INVALID'' ''operation recovery payload is invalid'')
               (co_payload_from_slice K plaintext)) (\<lambda>payload.
     bind_r (validate_payload payload) (\<lambda>_.
       case rec_mutation_digest r of
         None \<Rightarrow> Inr payload
       | Some expected \<Rightarrow>
           let actual = (case payload_mutation payload of
                 Some m \<Rightarrow> mutation_digest K m
               | None \<Rightarrow> sha256_hex (co_crypto K) plaintext) in
           if actual \<noteq> expected
           then Inl (conflict ''PAYLOAD_DIGEST_MISMATCH'' ''operation recovery payload digest mismatch'')
           else Inr payload)))"

definition decrypt_recovery_payload ::
    "'w coordinator \<Rightarrow> bridge_operation_record \<Rightarrow> string \<Rightarrow> poller_runtime_fence
      \<Rightarrow> operation_recovery_payload app_result" where
  "decrypt_recovery_payload K r bot_id fence =
     bind_r (ok_or key_unavailable (co_payload_encryptor K)) (\<lambda>enc.
     bind_r (recovery_payload r) (\<lambda>pl.
       if \<not> fence_is_valid fence \<or> is_blank bot_id \<or> bot_id \<noteq> rec_bot_id r
          \<or> fence_internal_bot_id fence \<noteq> rec_bot_id r
       then Inl (conflict ''PAYLOAD_AAD_INVALID''
                   ''operation payload runtime fence does not match the historical operation'')
       else decode_and_validate_recovery_payload K enc r pl fence))"

definition decrypt_recovery_payload_for_operation ::
    "'w coordinator \<Rightarrow> bridge_operation_record \<Rightarrow> poller_runtime_fence
      \<Rightarrow> ('w, operation_recovery_payload) app_m" where
  "decrypt_recovery_payload_for_operation K r fence =
     app_bind (restore_payload_encryptor_for_operation K (rec_id r)) (\<lambda>enc w.
       (bind_r (recovery_payload r) (\<lambda>pl.
          if \<not> fence_is_valid fence \<or> fence_internal_bot_id fence \<noteq> rec_bot_id r
          then Inl (conflict ''PAYLOAD_AAD_INVALID''
                      ''operation recovery fence does not match the historical operation'')
          else decode_and_validate_recovery_payload K enc r pl fence), w))"

section \<open>Commits\<close>

definition not_applied_error :: "'w coordinator \<Rightarrow> ids \<Rightarrow> string \<Rightarrow> st_bridge_error call" where
  "not_applied_error K u oid =
     map_st_error (sha256_hex (co_crypto K)) (co_json_from_slice K) u
       \<lparr> ef_stage = Stage_Commit, ef_endpoint_class = Some ''connector'',
         ef_operation_id = Some oid, ef_commit_state = CS_NotApplied, ef_attempt = 1,
         ef_duration_ms = None, ef_failure = Control StCommitFailed \<rparr>"

text \<open>
  The branches shared by \<^verbatim>\<open>create\<close>, \<^verbatim>\<open>commit\<close> and \<^verbatim>\<open>replay_generated\<close>: the outcome is
  known not to be applied, is unknown, or is applied.
\<close>

definition settle_not_applied ::
    "string \<Rightarrow> ids \<Rightarrow> string \<Rightarrow> string \<Rightarrow> st_bridge_error call \<Rightarrow> ('w, 'a) st_m" where
  "settle_not_applied now u oid summary original w =
     (case original of
        Panicked \<Rightarrow> (Panicked, w)
      | Returns e \<Rightarrow>
          (case on_store (mark_failed_with_state now oid ''commit'' (code_as_str StCommitFailed)
                   summary False OCS_NotApplied) w of
             (Inr _, w') \<Rightarrow> (Returns (Inl e), w')
           | (Inl pe, w') \<Rightarrow>
               (Returns (Inl (operation_state_persistence_error u oid (err_code e) pe CS_NotApplied)), w')))"

definition settle_unknown ::
    "string \<Rightarrow> ids \<Rightarrow> ids \<Rightarrow> string \<Rightarrow> string \<Rightarrow> ('w, 'a) st_m" where
  "settle_unknown now u u' oid detail w =
     (case unknown_commit_error u oid detail of
        Panicked \<Rightarrow> (Panicked, w)
      | Returns e \<Rightarrow>
          (case on_store (mark_commit_unknown now oid) w of
             (Inr _, w') \<Rightarrow> (Returns (Inl e), w')
           | (Inl pe, w') \<Rightarrow>
               (Returns (Inl (operation_state_persistence_error u' oid (err_code e) pe CS_Unknown)), w')))"

definition settle_applied ::
    "'w coordinator \<Rightarrow> (nat \<Rightarrow> string) \<Rightarrow> (nat \<Rightarrow> ids) \<Rightarrow> string \<Rightarrow> st_commit_result
      \<Rightarrow> ('w, st_commit_result) st_m" where
  "settle_applied K clk uid oid res w =
     (case co_result_to_string K res of
        None \<Rightarrow> st_fail (unknown_commit_error (uid 0) oid ''connector result serialization failed'') w
      | Some encoded \<Rightarrow>
          (case on_store (mark_committed_with_state (clk 1) oid encoded OCS_NotStarted) w of
             (Inr _, w') \<Rightarrow> (Returns (Inr res), w')
           | (Inl e, w') \<Rightarrow>
               (case on_store (mark_commit_unknown (clk 2) oid) w' of
                  (Inr _, w'') \<Rightarrow>
                    (Returns (Inl (operation_state_persistence_error (uid 0) oid
                       StCommitStateUnknown e CS_Unknown)), w'')
                | (Inl pe, w'') \<Rightarrow>
                    (Returns (Inl (operation_state_persistence_error (uid 0) oid
                       StCommitStateUnknown pe CS_Unknown)), w''))))"

text \<open>The applied branch of \<^verbatim>\<open>replay_generated\<close>.\<close>

definition replay_applied ::
    "'w coordinator \<Rightarrow> (nat \<Rightarrow> string) \<Rightarrow> (nat \<Rightarrow> ids) \<Rightarrow> string \<Rightarrow> st_commit_result
      \<Rightarrow> ('w, st_commit_result) st_m" where
  "replay_applied K clk uid oid res w =
     (case co_result_to_string K res of
        None \<Rightarrow> st_fail (unknown_commit_error (uid 0) oid ''connector result serialization failed'') w
      | Some encoded \<Rightarrow>
          (case on_store (mark_committed_with_state (clk 1) oid encoded OCS_NotStarted) w of
             (Inr _, w') \<Rightarrow> (Returns (Inr res), w')
           | (Inl e, w') \<Rightarrow> st_fail (unknown_commit_error (uid 0) oid (app_error_to_string e)) w'))"

text \<open>The \<^verbatim>\<open>match result\<close> of the three operations, with their wording.\<close>

record settle_words =
  sw_not_applied :: string
  sw_unknown :: string
  sw_rejected :: string

definition settle_result ::
    "'w coordinator \<Rightarrow> (nat \<Rightarrow> string) \<Rightarrow> (nat \<Rightarrow> ids) \<Rightarrow> string \<Rightarrow> settle_words
      \<Rightarrow> (st_commit_result \<Rightarrow> ('w, st_commit_result) st_m) \<Rightarrow> st_commit_result st_result
      \<Rightarrow> ('w, st_commit_result) st_m" where
  "settle_result K clk uid oid words applied r =
     (case r of
        Inr res \<Rightarrow>
          (case res_status res of
             SC_Applied \<Rightarrow> applied res
           | SC_AlreadyApplied \<Rightarrow> applied res
           | SC_NotApplied \<Rightarrow>
               settle_not_applied (clk 1) (uid 1) oid (sw_not_applied words)
                 (not_applied_error K (uid 0) oid)
           | SC_Unknown \<Rightarrow> settle_unknown (clk 1) (uid 0) (uid 1) oid (sw_unknown words))
      | Inl e \<Rightarrow>
          if err_commit_state e = CS_NotApplied
          then settle_not_applied (clk 1) (uid 1) oid (sw_rejected words) (Returns e)
          else settle_unknown (clk 1) (uid 0) (uid 1) oid (sw_unknown words))"

text \<open>Awaiting the backend and handing its result on.\<close>

definition after_backend ::
    "('w, st_commit_result) st_m \<Rightarrow> (st_commit_result st_result \<Rightarrow> ('w, st_commit_result) st_m)
      \<Rightarrow> ('w, st_commit_result) st_m" where
  "after_backend m settle w =
     (case m w of
        (Panicked, w') \<Rightarrow> (Panicked, w')
      | (Returns r, w') \<Rightarrow> settle r w')"

definition create ::
    "'w coordinator \<Rightarrow> (nat \<Rightarrow> string) \<Rightarrow> (nat \<Rightarrow> ids) \<Rightarrow> create_st_chat
      \<Rightarrow> ('w, st_commit_result) st_m" where
  "create K clk uid cmd =
     (let oid = cr_operation_id cmd in
      st_bind (st_store (uid 0) oid (mark_committing (clk 0) oid)) (\<lambda>_.
        after_backend (co_create_chat K cmd)
          (settle_result K clk uid oid
             \<lparr> sw_not_applied = ''create was not applied'',
               sw_unknown = ''connector create outcome is not known'',
               sw_rejected = ''create was rejected before mutation'' \<rparr>
             (settle_applied K clk uid oid))))"

definition commit ::
    "'w coordinator \<Rightarrow> (nat \<Rightarrow> string) \<Rightarrow> (nat \<Rightarrow> ids) \<Rightarrow> commit_st_chat
      \<Rightarrow> ('w, st_commit_result) st_m" where
  "commit K clk uid cmd =
     (let oid = co_operation_id cmd in
      if \<not> fence_is_valid (co_fence cmd)
      then st_fail (unknown_commit_error (uid 0) oid ''runtime fence is invalid'')
      else
        st_bind (st_store (uid 0) oid (mark_committing (clk 0) oid)) (\<lambda>_.
          after_backend (co_commit K cmd)
            (settle_result K clk uid oid
               \<lparr> sw_not_applied = ''commit was not applied'',
                 sw_unknown = ''connector commit outcome is not known'',
                 sw_rejected = ''commit was rejected before mutation'' \<rparr>
               (settle_applied K clk uid oid))))"

definition replay_command :: "bridge_operation_record \<Rightarrow> recovery_snapshot \<Rightarrow> commit_st_chat" where
  "replay_command r q =
     \<lparr> co_operation_id = rec_id r, co_locator = rec_locator r,
       co_expected_sha256 = rp_expected_sha256 q, co_expected_integrity = rp_expected_integrity q,
       co_mutation = rp_mutation q, co_fence = rp_fence q \<rparr>"

primrec replay_backend ::
    "'w coordinator \<Rightarrow> bridge_operation_record \<Rightarrow> operation_recovery_payload
      \<Rightarrow> ('w, st_commit_result) st_m" where
  "replay_backend K r (RP_Create c) = co_create_chat K c"
| "replay_backend K r (RP_Append q) = co_commit K (replay_command r q)"
| "replay_backend K r (RP_Replace q) = co_commit K (replay_command r q)"
| "replay_backend K r (RP_Undo q) = co_commit K (replay_command r q)"
| "replay_backend K r (RP_Compress q) = co_commit K (replay_command r q)"

definition replay_generated ::
    "'w coordinator \<Rightarrow> (nat \<Rightarrow> string) \<Rightarrow> (nat \<Rightarrow> ids) \<Rightarrow> bridge_operation_record \<Rightarrow> string
      \<Rightarrow> poller_runtime_fence \<Rightarrow> ('w, st_commit_result) st_m" where
  "replay_generated K clk uid r bot_id fence =
     (let oid = rec_id r in
      if \<not> fence_is_valid fence \<or> is_blank bot_id \<or> bot_id \<noteq> rec_bot_id r
         \<or> fence_internal_bot_id fence \<noteq> rec_bot_id r
      then st_fail (Returns (bridge_error_from_app (uid 0) (conflict ''PAYLOAD_AAD_INVALID''
             ''operation replay bot identity does not match the historical operation'') oid))
      else if rec_status r \<noteq> Generated
      then st_fail (unknown_commit_error (uid 0) oid ''only a generated operation can be replayed'')
      else
        st_bind (st_app (uid 0) oid (decrypt_recovery_payload_for_operation K r fence)) (\<lambda>payload.
        st_bind (st_store (uid 0) oid (mark_committing (clk 0) oid)) (\<lambda>_.
          after_backend (replay_backend K r payload)
            (settle_result K clk uid oid
               \<lparr> sw_not_applied = ''replayed commit was not applied'',
                 sw_unknown = ''replayed commit outcome is unknown'',
                 sw_rejected = ''replayed commit was rejected before mutation'' \<rparr>
               (replay_applied K clk uid oid)))))"

section \<open>Reconciliation\<close>

definition option_json :: "('a \<Rightarrow> json) \<Rightarrow> 'a option \<Rightarrow> json" where
  "option_json f x = (case x of None \<Rightarrow> JNull | Some a \<Rightarrow> f a)"

definition journal_result_json :: "st_operation_journal_record \<Rightarrow> json" where
  "journal_result_json j =
     JObject [(''status'', JString ''already_applied''),
              (''newSha256'', option_json JString (sj_after_sha256 j)),
              (''newIntegrity'', option_json JString (sj_after_integrity j)),
              (''byteLength'', option_json (\<lambda>n. JNumber (PosInt (unat n))) (sj_after_byte_length j)),
              (''messageCount'', option_json (\<lambda>n. JNumber (PosInt (unat n))) (sj_after_message_count j))]"

definition reconcile_commit ::
    "'w coordinator \<Rightarrow> string \<Rightarrow> bridge_operation_record \<Rightarrow> string
      \<Rightarrow> ('w, bridge_operation_record option) app_m" where
  "reconcile_commit K now r lhash =
     (if rec_status r \<in> {Committed, Delivered} \<and> rec_commit_state r = OCS_Applied
      then app_return (Some r)
      else if rec_status r \<noteq> Committing then app_return None
      else
        (case rec_mutation_digest r of
           None \<Rightarrow> app_return None
         | Some digest \<Rightarrow>
             app_bind (co_journal_lookup K (rec_id r)) (\<lambda>entry.
               case entry of
                 None \<Rightarrow> app_return None
               | Some j \<Rightarrow>
                   if \<not> identity_matches j (rec_id r) lhash digest
                   then app_fail (conflict ''ST_OPERATION_ID_REUSED''
                          ''operation journal identity does not match'')
                   else if sj_status j \<noteq> SJ_Applied then app_return None
                   else
                     app_bind (on_store (mark_committed_with_state now (rec_id r)
                         (co_value_to_string K (journal_result_json j)) (rec_commit_state r)))
                       (\<lambda>x. app_return (Some x)))))"

section \<open>Evolution of the database under the coordinator\<close>

definition st_evolves :: "('w, 'a) st_m \<Rightarrow> bool" where
  "st_evolves m \<longleftrightarrow> (\<forall>w. evolves (w_db w) (w_db (snd (m w))))"

definition app_evolves :: "('w, 'a) app_m \<Rightarrow> bool" where
  "app_evolves m \<longleftrightarrow> (\<forall>w. evolves (w_db w) (w_db (snd (m w))))"

text \<open>
  The environment of a coordinator: while one of its collaborators runs, the database changes
  only by store operations and reads of other tasks and by new accounts, bots and secrets.
\<close>

definition environment_ok :: "'w coordinator \<Rightarrow> bool" where
  "environment_ok K \<longleftrightarrow>
     (\<forall>c. st_evolves (co_create_chat K c)) \<and> (\<forall>c. st_evolves (co_commit K c))
     \<and> (\<forall>i. app_evolves (co_journal_lookup K i))
     \<and> (\<forall>a b c. app_evolves (vault_put (co_vault K) a b c))
     \<and> (\<forall>a. app_evolves (vault_get (co_vault K) a))"

named_theorems evolves_intros \<open>computations under which the database evolves\<close>

lemma on_store_snd: "w_db (snd (on_store m w)) = snd (m (w_db w))"
  by (simp add: on_store_def split: prod.splits)

lemma on_store_eq:
  "on_store m w = (r, w') \<longleftrightarrow> (\<exists>db. m (w_db w) = (r, db) \<and> w' = w\<lparr>w_db := db\<rparr>)"
  by (auto simp: on_store_def split: prod.splits)

lemma app_evolves_on_store [evolves_intros]:
  "(\<And>db. evolves db (snd (m db))) \<Longrightarrow> app_evolves (on_store m)"
  by (simp add: app_evolves_def on_store_snd)

lemma app_evolves_simple [evolves_intros]: "app_evolves (app_return a)" "app_evolves (app_fail e)"
  by (simp_all add: app_evolves_def app_return_def app_fail_def)

lemma app_evolves_bind [evolves_intros]:
  assumes "app_evolves m" "\<And>a. app_evolves (f a)"
  shows "app_evolves (app_bind m f)"
  unfolding app_evolves_def
proof
  fix w
  obtain r w' where m: "m w = (r, w')" by force
  with assms(1) have "evolves (w_db w) (w_db w')" by (metis app_evolves_def snd_conv)
  with m assms(2) show "evolves (w_db w) (w_db (snd (app_bind m f w)))"
    by (cases r) (auto simp: app_bind_def app_evolves_def intro: evolves_trans)
qed

lemma st_evolves_simple [evolves_intros]: "st_evolves (st_return a)" "st_evolves (st_fail e)"
  by (simp_all add: st_evolves_def st_return_def st_fail_def)

lemma st_evolves_bind [evolves_intros]:
  assumes "st_evolves m" "\<And>a. st_evolves (f a)"
  shows "st_evolves (st_bind m f)"
  unfolding st_evolves_def
proof
  fix w
  obtain r w' where m: "m w = (r, w')" by force
  with assms(1) have "evolves (w_db w) (w_db w')" by (metis st_evolves_def snd_conv)
  with m assms(2) show "evolves (w_db w) (w_db (snd (st_bind m f w)))"
    by (auto simp: st_bind_def st_evolves_def intro: evolves_trans split: call.splits sum.splits)
qed

lemma st_evolves_app [evolves_intros]: "app_evolves m \<Longrightarrow> st_evolves (st_app u oid m)"
  by (auto simp: st_evolves_def app_evolves_def st_app_def split: prod.splits) (metis snd_conv)

lemma st_evolves_store [evolves_intros]:
  "(\<And>db. evolves db (snd (m db))) \<Longrightarrow> st_evolves (st_store u oid m)"
  unfolding st_store_def by (intro evolves_intros)

lemma st_evolves_after [evolves_intros]:
  assumes "st_evolves m" "\<And>r. st_evolves (f r)"
  shows "st_evolves (after_backend m f)"
  unfolding st_evolves_def
proof
  fix w
  obtain r w' where m: "m w = (r, w')" by force
  with assms(1) have "evolves (w_db w) (w_db w')" by (metis st_evolves_def snd_conv)
  with m assms(2) show "evolves (w_db w) (w_db (snd (after_backend m f w)))"
    by (auto simp: after_backend_def st_evolves_def intro: evolves_trans split: call.splits)
qed

lemma st_evolves_settle [evolves_intros]:
  "st_evolves (settle_not_applied now u oid summary original)"
  "st_evolves (settle_unknown now u u' oid detail)"
  "st_evolves (settle_applied K clk uid oid res)"
  "st_evolves (replay_applied K clk uid oid res)"
proof -
  show "st_evolves (settle_not_applied now u oid summary original)"
    unfolding st_evolves_def settle_not_applied_def
    by (auto split: call.splits prod.splits sum.splits simp: on_store_eq)
       (metis evolves_store_ops(8) snd_conv)+
  show "st_evolves (settle_unknown now u u' oid detail)"
    unfolding st_evolves_def settle_unknown_def
    by (auto split: call.splits prod.splits sum.splits simp: on_store_eq)
       (metis evolves_store_ops(10) snd_conv)+
  have committed: "evolves db db'" if "mark_committed_with_state now' oid' json c db = (r, db')"
    for now' oid' json c db db' r
    using evolves_store_ops(6) that by (metis snd_conv)
  have unknown: "evolves db db'" if "mark_commit_unknown now' oid' db = (r, db')" for now' oid' db db' r
    using evolves_store_ops(10) that by (metis snd_conv)
  show "st_evolves (settle_applied K clk uid oid res)"
    unfolding st_evolves_def settle_applied_def
    by (auto split: option.splits prod.splits sum.splits simp: on_store_eq st_fail_def
        dest!: committed unknown intro: evolves_trans)
  show "st_evolves (replay_applied K clk uid oid res)"
    unfolding st_evolves_def replay_applied_def
    by (auto split: option.splits prod.splits sum.splits simp: on_store_eq st_fail_def
        dest!: committed)
qed

lemma st_evolves_settle_result [evolves_intros]:
  assumes "\<And>res. st_evolves (applied res)"
  shows "st_evolves (settle_result K clk uid oid words applied r)"
  unfolding settle_result_def using assms
  by (auto intro: evolves_intros split: sum.splits st_commit_status.splits)

lemma st_evolves_commits [evolves_intros]:
  assumes "environment_ok K"
  shows "st_evolves (create K clk uid c)" "st_evolves (commit K clk uid d)"
  using assms unfolding create_def commit_def Let_def environment_ok_def
  by (auto intro!: evolves_intros evolves_store_ops)

lemma app_evolves_payload [evolves_intros]:
  assumes "environment_ok K"
  shows "app_evolves (from_wrapped (co_vault K) sid kv)"
    and "app_evolves (restore_payload_encryptor_for_operation K oid)"
    and "app_evolves (decrypt_recovery_payload_for_operation K r fence)"
proof -
  show fw: "app_evolves (from_wrapped (co_vault K) sid kv)" for sid kv
    using assms unfolding from_wrapped_def environment_ok_def by (auto intro!: evolves_intros)
  have ref: "app_evolves (on_store (get_operation_key_reference oid))" for oid
    by (intro evolves_intros evolves_read) simp
  show re: "app_evolves (restore_payload_encryptor_for_operation K oid)" for oid
    unfolding restore_payload_encryptor_for_operation_def restore_for_operation_def
    by (auto intro!: evolves_intros fw ref split: option.splits)
  show "app_evolves (decrypt_recovery_payload_for_operation K r fence)"
    unfolding decrypt_recovery_payload_for_operation_def
    by (intro evolves_intros re) (simp add: app_evolves_def)
qed

lemma st_evolves_replay [evolves_intros]:
  assumes "environment_ok K"
  shows "st_evolves (replay_generated K clk uid r b fence)"
proof -
  have "st_evolves (replay_backend K r p)" for p
    using assms by (cases p) (simp_all add: environment_ok_def)
  then show ?thesis
    unfolding replay_generated_def Let_def
    by (auto intro!: evolves_intros evolves_store_ops assms)
qed

lemma app_evolves_reconcile [evolves_intros]:
  assumes "environment_ok K"
  shows "app_evolves (reconcile_commit K now r lhash)"
  using assms unfolding reconcile_commit_def environment_ok_def
  by (auto intro!: evolves_intros evolves_store_ops split: option.splits)

section \<open>Outcomes\<close>

lemma st_store_eq:
  "st_store u oid m w = (Returns (Inr a), w') \<longleftrightarrow> (\<exists>db. m (w_db w) = (Inr a, db) \<and> w' = w\<lparr>w_db := db\<rparr>)"
  by (auto simp: st_store_def st_app_def on_store_eq split: prod.splits)

lemma st_bind_InrD:
  "st_bind m f w = (Returns (Inr b), w') \<Longrightarrow> \<exists>a w1. m w = (Returns (Inr a), w1) \<and> f a w1 = (Returns (Inr b), w')"
  by (auto simp: st_bind_def split: prod.splits call.splits sum.splits)

lemma after_backend_InrD:
  "after_backend m f w = (Returns (Inr b), w') \<Longrightarrow> \<exists>r w1. m w = (Returns r, w1) \<and> f r w1 = (Returns (Inr b), w')"
  by (auto simp: after_backend_def split: prod.splits call.splits)

lemma settle_not_Inr:
  "settle_not_applied now u oid summary original w \<noteq> (Returns (Inr a), w')"
  "settle_unknown now u u' oid detail w \<noteq> (Returns (Inr a), w')"
  by (auto simp: settle_not_applied_def settle_unknown_def split: call.splits prod.splits sum.splits)

lemma st_fail_not_Inr: "st_fail e w \<noteq> (Returns (Inr a), w')"
  by (cases e) (auto simp: st_fail_def)

text \<open>Only an applied result is handed to the caller, and only after it is recorded.\<close>

lemma settle_applied_InrD:
  assumes "settle_applied K clk uid oid res w = (Returns (Inr res'), w') \<or> replay_applied K clk uid oid res w = (Returns (Inr res'), w')"
    and "store_inv (w_db w)"
  shows "res' = res \<and> store_phase (w_db w') oid = Some (Committed, OCS_Applied)"
  using assms mark_committed_InrD(2) [OF assms(2)]
  by (auto simp: settle_applied_def replay_applied_def on_store_eq st_fail_not_Inr
      split: option.splits prod.splits sum.splits)

lemma settle_result_InrD:
  assumes "settle_result K clk uid oid words applied r w = (Returns (Inr res), w')"
    and "applied = settle_applied K clk uid oid \<or> applied = replay_applied K clk uid oid"
    and "store_inv (w_db w)"
  shows "r = Inr res \<and> res_status res \<in> {SC_Applied, SC_AlreadyApplied}
    \<and> store_phase (w_db w') oid = Some (Committed, OCS_Applied)"
proof -
  have "\<exists>res0. r = Inr res0 \<and> res_status res0 \<in> {SC_Applied, SC_AlreadyApplied}
      \<and> applied res0 w = (Returns (Inr res), w')"
    using assms(1) by (auto simp: settle_result_def settle_not_Inr
        split: sum.splits st_commit_status.splits if_splits)
  with settle_applied_InrD [OF _ assms(3)] assms(2) show ?thesis by blast
qed

lemma commit_path_InrD:
  assumes inv: "store_inv (w_db w)" and env: "st_evolves backend"
    and ok: "st_bind (st_store u oid (mark_committing now oid)) (\<lambda>_.
        after_backend backend (settle_result K clk uid oid words applied)) w = (Returns (Inr res), w')"
    and applied: "applied = settle_applied K clk uid oid \<or> applied = replay_applied K clk uid oid"
  shows "store_phase (w_db w) oid = Some (Generated, OCS_NotStarted)
    \<and> res_status res \<in> {SC_Applied, SC_AlreadyApplied}
    \<and> store_phase (w_db w') oid = Some (Committed, OCS_Applied)"
proof -
  from st_bind_InrD [OF ok] obtain b w1
    where "st_store u oid (mark_committing now oid) w = (Returns (Inr b), w1)"
      and after: "after_backend backend (settle_result K clk uid oid words applied) w1 = (Returns (Inr res), w')"
    by blast
  then have com: "mark_committing now oid (w_db w) = (Inr b, w_db w1)" by (auto simp: st_store_eq)
  from after_backend_InrD [OF after] obtain r w2 where r: "backend w1 = (Returns r, w2)"
    and settle: "settle_result K clk uid oid words applied r w2 = (Returns (Inr res), w')" by blast
  have "store_inv (w_db w1)" using evolves_inv [OF evolves_store_ops(5) inv] com by (metis snd_conv)
  then have "store_inv (w_db w2)" using env r evolves_inv unfolding st_evolves_def by (metis snd_conv)
  from settle_result_InrD [OF settle applied this] mark_committing_InrD(1) [OF inv com]
  show ?thesis by blast
qed

text \<open>The phase a commit that has reached the backend must end in, by the backend's answer.\<close>

definition settled_phase :: "st_commit_result st_result \<Rightarrow> phase" where
  "settled_phase r =
     (case r of
        Inr res \<Rightarrow>
          (case res_status res of
             SC_Applied \<Rightarrow> (Committed, OCS_Applied)
           | SC_AlreadyApplied \<Rightarrow> (Committed, OCS_Applied)
           | SC_NotApplied \<Rightarrow> (Failed, OCS_NotApplied)
           | SC_Unknown \<Rightarrow> (Committing, OCS_Unknown))
      | Inl e \<Rightarrow>
          if err_commit_state e = CS_NotApplied then (Failed, OCS_NotApplied)
          else (Committing, OCS_Unknown))"

lemma plain_commit_words:
  "redact_detail ''connector commit outcome is not known'' = Returns (Some ''connector commit outcome is not known'')"
  by code_simp

lemma plain_create_words:
  "redact_detail ''connector create outcome is not known'' = Returns (Some ''connector create outcome is not known'')"
  by code_simp

lemma not_applied_error_state:
  "\<exists>e. not_applied_error K u oid = Returns e \<and> err_commit_state e = CS_NotApplied"
  by (simp add: not_applied_error_def map_st_error_def mapped_plain_def)

text \<open>Settling when no statement fails.\<close>

lemma settle_result_no_fault:
  assumes inv: "store_inv (w_db w)" and nf: "faults (w_db w) = []"
    and ph: "store_phase (w_db w) oid = Some (Committing, OCS_NotStarted)"
    and enc: "\<And>res. co_result_to_string K res \<noteq> None"
    and words: "redact_detail (sw_unknown words) = Returns d"
    and applied: "applied = settle_applied K clk uid oid \<or> applied = replay_applied K clk uid oid"
  shows "\<exists>x w'. settle_result K clk uid oid words applied r w = (Returns x, w')
    \<and> store_phase (w_db w') oid = Some (settled_phase r)
    \<and> (case x of Inr res \<Rightarrow> r = Inr res \<and> snd (settled_phase r) = OCS_Applied
       | Inl e \<Rightarrow> snd (settled_phase r) = OCS_NotApplied \<and> err_commit_state e = CS_NotApplied
                \<or> snd (settled_phase r) = OCS_Unknown \<and> err_commit_state e = CS_Unknown)"
proof -
  have na: "\<exists>w'. settle_not_applied now u oid summary (Returns e) w = (Returns (Inl e :: st_commit_result st_result), w')
      \<and> store_phase (w_db w') oid = Some (Failed, OCS_NotApplied)" for now u summary e
  proof -
    obtain rec db' where rec: "mark_failed_with_state now oid ''commit'' (code_as_str StCommitFailed)
        summary False OCS_NotApplied (w_db w) = (Inr rec, db')"
      using mark_failed_success [OF inv nf ph] by blast
    with mark_failed_InrD [OF inv rec] show ?thesis by (simp add: settle_not_applied_def on_store_def)
  qed
  have un: "\<exists>e w'. settle_unknown now u u' oid (sw_unknown words) w = (Returns (Inl e :: st_commit_result st_result), w')
      \<and> err_commit_state e = CS_Unknown
      \<and> store_phase (w_db w') oid = Some (Committing, OCS_Unknown)" for now u u'
  proof -
    obtain rec db' where rec: "mark_commit_unknown now oid (w_db w) = (Inr rec, db')"
      using mark_commit_unknown_success [OF inv nf ph] by blast
    with mark_commit_unknown_InrD [OF inv rec] show ?thesis
      by (simp add: settle_unknown_def on_store_def unknown_commit_error_def words st_bridge_error_new_def)
  qed
  have ap: "\<exists>w'. applied res w = (Returns (Inr res), w')
      \<and> store_phase (w_db w') oid = Some (Committed, OCS_Applied)" for res
  proof -
    obtain json where json: "co_result_to_string K res = Some json" using enc by blast
    obtain rec db' where rec: "mark_committed_with_state (clk 1) oid json OCS_NotStarted (w_db w) = (Inr rec, db')"
      using mark_committed_success [OF inv nf ph] by blast
    with applied json mark_committed_InrD(2) [OF inv rec] show ?thesis
      by (auto simp: settle_applied_def replay_applied_def on_store_def)
  qed
  note defs = settle_result_def settled_phase_def
  obtain e0 where e0: "not_applied_error K (uid 0) oid = Returns e0" "err_commit_state e0 = CS_NotApplied"
    using not_applied_error_state by blast
  obtain e1 w1 where un1: "settle_unknown (clk 1) (uid 0) (uid 1) oid (sw_unknown words) w = (Returns (Inl e1 :: st_commit_result st_result), w1)"
    "err_commit_state e1 = CS_Unknown" "store_phase (w_db w1) oid = Some (Committing, OCS_Unknown)"
    using un by blast
  consider (applied) res where "r = Inr res" "res_status res \<in> {SC_Applied, SC_AlreadyApplied}"
    | (not_applied) res where "r = Inr res" "res_status res = SC_NotApplied"
    | (unknown) res where "r = Inr res" "res_status res = SC_Unknown"
    | (rejected) e where "r = Inl e" "err_commit_state e = CS_NotApplied"
    | (failed) e where "r = Inl e" "err_commit_state e \<noteq> CS_NotApplied"
    by (cases r) (auto, metis st_commit_status.exhaust)
  then show ?thesis
  proof cases
    case (applied res)
    with ap [of res] show ?thesis by (auto simp: defs)
  next
    case (not_applied res)
    obtain w' where "settle_not_applied (clk 1) (uid 1) oid (sw_not_applied words) (Returns e0) w
        = (Returns (Inl e0 :: st_commit_result st_result), w')" "store_phase (w_db w') oid = Some (Failed, OCS_NotApplied)"
      using na by blast
    with not_applied e0 show ?thesis by (auto simp: defs)
  next
    case (rejected e)
    obtain w' where "settle_not_applied (clk 1) (uid 1) oid (sw_rejected words) (Returns e) w
        = (Returns (Inl e :: st_commit_result st_result), w')" "store_phase (w_db w') oid = Some (Failed, OCS_NotApplied)"
      using na by blast
    with rejected show ?thesis by (auto simp: defs)
  qed (use un1 in \<open>auto simp: defs\<close>)
qed

section \<open>Duplicate claims\<close>

lemma get_by_claim_SomeD:
  assumes "get_by_claim b u k db = (Inr (Some rec), db')"
  shows "\<exists>row \<in> set (ops db). into_record row = Inr rec"
proof -
  let ?P = "\<lambda>r. op_bot_id r = b \<and> op_telegram_update_id r = u \<and> op_operation_kind r = k"
  from store_bind_InrD [OF assms [unfolded get_by_claim_def]] obtain rs db1
    where sel: "select_ops ?P db = (Inr rs, db1)" and first: "first_record rs = Inr (Some rec)"
    by (auto simp: store_lift_def)
  from app_sql_InrD [OF sel [unfolded select_ops_def]] have "set rs \<subseteq> set (ops db)" by auto
  with first show ?thesis
    by (cases rs) (auto simp: first_record_def map_ok_def split: sum.splits)
qed

lemma claim_Duplicate_matches:
  "claim_operation now fresh q db = (Inl (DuplicateClaim b), db') \<Longrightarrow> matches_claim b q"
  by (auto simp: claim_operation_def Let_def store_bind_def store_map_err_def store_lift_def ok_or_def map_err_def
      split: prod.splits sum.splits option.splits sql_error.splits if_splits)

lemma claim_DuplicateD:
  assumes "store_inv db" "claim_operation now fresh q db = (Inl (DuplicateClaim b), db')"
  shows "\<exists>row. row_of db (rec_id b) = Some row \<and> into_record row = Inr b" "same_tables db db'"
proof -
  define i where "i = (if is_blank (cl_id q) then fresh else cl_id q)"
  obtain x db1 where ins: "insert_operation (claimed_row now i q) db = (x, db1)" by force
  have x: "x = Inl UniqueViolation \<and> get_by_claim (cl_bot_id q) (cl_telegram_update_id q)
      (cl_operation_kind q) db1 = (Inr (Some b), db')"
  proof (cases x)
    case (Inr a)
    with ins assms(2) show ?thesis
      by (auto simp: claim_operation_def i_def Let_def store_bind_def store_map_err_def
          store_lift_def ok_or_def map_err_def split: prod.splits sum.splits option.splits)
  next
    case (Inl e)
    with ins assms(2) show ?thesis
      by (cases e) (auto simp: claim_operation_def i_def Let_def store_bind_def store_map_err_def
          store_lift_def map_err_def split: prod.splits sum.splits option.splits if_splits)
  qed
  have same: "same_tables db db1" using insert_operation_effect [of "claimed_row now i q" db] ins x by auto
  moreover have "same_tables db1 db'" using x read_only_reads(3) unfolding read_only_def by (metis snd_conv)
  ultimately show "same_tables db db'" by (rule same_tables_trans)
  from same x get_by_claim_SomeD obtain row where row: "row \<in> set (ops db)" "into_record row = Inr b"
    unfolding same_tables_def by metis
  then have "row \<in> set (filter (\<lambda>r. op_id r = rec_id b) (ops db))"
    using into_record_fields(1) [OF row(2)] by simp
  then show "\<exists>row. row_of db (rec_id b) = Some row \<and> into_record row = Inr b"
    using row(2) by (cases "row_of db (rec_id b)") (simp_all only: filter_id_row [OF assms(1)], simp_all)
qed

lemma duplicate_disposition_coherent:
  assumes "phase_coherent (st, c)"
  shows "duplicate_disposition st c =
    (if st = Delivered then AlreadyDelivered
     else if st \<in> {Conflict, Failed, Interrupted} then Rejected else Resume)"
  using assms by (cases st; cases c) auto

section \<open>Reconciliation needs evidence\<close>

lemma reconcile_commit_evidence:
  assumes "environment_ok K" "store_inv (w_db w)"
    and "reconcile_commit K now r lhash w = (Inr (Some r'), w')"
  shows "rec_status r \<in> {Committed, Delivered} \<and> rec_commit_state r = OCS_Applied \<and> r' = r \<and> w' = w
    \<or> rec_status r = Committing
      \<and> (\<exists>j w1 digest. co_journal_lookup K (rec_id r) w = (Inr (Some j), w1)
           \<and> rec_mutation_digest r = Some digest \<and> sj_status j = SJ_Applied
           \<and> sj_operation_id j = rec_id r \<and> sj_locator_hash j = lhash \<and> sj_mutation_digest j = digest)
      \<and> store_phase (w_db w') (rec_id r) = Some (Committed, OCS_Applied)
      \<and> rec_id r' = rec_id r \<and> rec_status r' = Committed \<and> rec_commit_state r' = OCS_Applied"
proof (cases "rec_status r \<in> {Committed, Delivered} \<and> rec_commit_state r = OCS_Applied")
  case True
  with assms(3) show ?thesis by (simp add: reconcile_commit_def app_return_def)
next
  case False
  with assms(3) obtain digest j w1 db
    where st: "rec_status r = Committing" "rec_mutation_digest r = Some digest"
      and j: "co_journal_lookup K (rec_id r) w = (Inr (Some j), w1)"
      and idm: "identity_matches j (rec_id r) lhash digest" "sj_status j = SJ_Applied"
      and m: "mark_committed_with_state now (rec_id r) (co_value_to_string K (journal_result_json j))
          (rec_commit_state r) (w_db w1) = (Inr r', db)" "w' = w1\<lparr>w_db := db\<rparr>"
    by (auto simp: reconcile_commit_def app_return_def app_fail_def app_bind_def on_store_eq
        split: if_splits option.splits prod.splits sum.splits)
  have "evolves (w_db w) (w_db w1)"
    using assms(1) j unfolding environment_ok_def app_evolves_def by (metis snd_conv)
  then have "store_inv (w_db w1)" using assms(2) evolves_inv by blast
  from mark_committed_InrD [OF this m(1)] show ?thesis
    using st j idm m(2) by (auto simp: identity_matches_def)
qed

lemma reconcile_commit_SomeD:
  assumes "environment_ok K" "store_inv (w_db w)" "rec_status r = Committing"
    and "reconcile_commit K now r lhash w = (Inr (Some r'), w')"
  shows "store_phase (w_db w') (rec_id r) = Some (Committed, OCS_Applied)"
  using reconcile_commit_evidence [OF assms(1,2,4)] assms(3) by auto

section \<open>A concrete coordinator\<close>

text \<open>A backend that always gives the same answer, with the example database and cipher.\<close>

definition demo_coordinator :: "st_commit_result st_result \<Rightarrow> unit coordinator" where
  "demo_coordinator answer =
     \<lparr> co_create_chat = (\<lambda>_ w. (Returns answer, w)), co_commit = (\<lambda>_ w. (Returns answer, w)),
       co_journal_lookup = (\<lambda>i w. (Inr (Some \<lparr> sj_operation_id = i, sj_locator_hash = ''l'',
         sj_mutation_digest = ''digest'', sj_status = SJ_Applied, sj_before_sha256 = None,
         sj_before_integrity = None, sj_after_sha256 = Some ''s2'', sj_after_integrity = Some ''i2'',
         sj_after_byte_length = None, sj_after_message_count = None \<rparr>), w)),
       co_vault = \<lparr> vault_put = (\<lambda>_ _ _ w. (Inr ''secret'', w)), vault_get = (\<lambda>_ w. (Inr ''key'', w)) \<rparr>,
       co_crypto = plain_crypto, co_payload_encryptor = None, co_key_provider = Some 1,
       co_result_to_string = (\<lambda>_. Some ''{}''), co_value_to_string = (\<lambda>_. ''{}''),
       co_mutation_to_vec = (\<lambda>_. None), co_payload_from_slice = (\<lambda>_. None),
       co_json_from_slice = (\<lambda>_. None) \<rparr>"

definition demo_result :: "st_commit_status \<Rightarrow> st_commit_result" where
  "demo_result s = \<lparr> res_status = s, res_new_sha256 = Some ''s2'', res_new_integrity = Some ''i2'',
     res_byte_length = None, res_message_count = None \<rparr>"

definition demo_commit :: commit_st_chat where
  "demo_commit = \<lparr> co_operation_id = ''op-1'', co_locator = cl_locator demo_claim,
     co_expected_sha256 = ''sha'', co_expected_integrity = ''int'', co_mutation = CompressMessages [],
     co_fence = demo_fence \<rparr>"

text \<open>The world after the first \<open>n\<close> store operations of the example run, with given faults.\<close>

definition demo_world :: "nat \<Rightarrow> bool list \<Rightarrow> unit world" where
  "demo_world n fs = \<lparr> w_db = (fold apply_store_op (take n demo_run) demo_claimed)\<lparr>faults := fs\<rparr>, w_ext = () \<rparr>"

lemma demo_world_inv: "store_inv (w_db (demo_world n fs))"
proof -
  have "list_all op_typed (take n demo_run)"
    using demo_facts(2) by (metis append_take_drop_id list_all_append)
  from store.run_inv [OF this demo_claimed_inv] show ?thesis
    by (simp add: demo_world_def reads_views)
qed

lemma demo_world_phases:
  "store_phase (w_db (demo_world 2 [])) ''op-1'' = Some (SnapshotReady, OCS_NotStarted)"
  "store_phase (w_db (demo_world 3 fs)) ''op-1'' = Some (Generated, OCS_NotStarted)"
  "store_phase (w_db (demo_world 5 [])) ''op-1'' = Some (Committing, OCS_Unknown)"
  "faults (w_db (demo_world 3 fs)) = fs" "fence_is_valid demo_fence"
proof -
  have "store_phase (w_db (demo_world 3 [])) ''op-1'' = Some (Generated, OCS_NotStarted)"
    by code_simp
  then show "store_phase (w_db (demo_world 3 fs)) ''op-1'' = Some (Generated, OCS_NotStarted)"
    by (simp add: demo_world_def reads_views)
  show "faults (w_db (demo_world 3 fs)) = fs" by (simp add: demo_world_def)
qed code_simp+

lemma demo_environment: "environment_ok (demo_coordinator answer)"
  by (simp add: environment_ok_def demo_coordinator_def st_evolves_def app_evolves_def)

section \<open>Properties\<close>

text \<open>Whatever the coordinator does through create, commit, replay or reconciliation, with
  any statement failing and other tasks using the store while its collaborators run, the
  database keeps its invariant and operations recorded as applied stay so.\<close>

theorem coordinator_preserves_ledger:
  assumes "environment_ok K" "store_inv (w_db w)"
    and "w' \<in> {snd (create K clk uid c w), snd (commit K clk uid d w),
               snd (replay_generated K clk uid r b fence w), snd (reconcile_commit K now r lhash w)}"
  shows "store_inv (w_db w') \<and>
    (\<forall>i st. store_phase (w_db w) i = Some (st, OCS_Applied) \<and> st \<in> {Committed, Delivered} \<longrightarrow>
      (\<exists>st' \<in> {Committed, Delivered}. store_phase (w_db w') i = Some (st', OCS_Applied)))"
proof -
  have "evolves (w_db w) (w_db w')"
    using assms(3) st_evolves_commits [OF assms(1)] st_evolves_replay [OF assms(1)]
      app_evolves_reconcile [OF assms(1)]
    unfolding st_evolves_def app_evolves_def by blast
  with assms(2) show ?thesis using evolves_inv evolves_committed by blast
qed

theorem coordinator_preserves_ledger_witness:
  "store_inv (w_db (snd (commit (demo_coordinator (Inr (demo_result SC_Applied))) (\<lambda>_. ''t'')
     (\<lambda>_. (''rq'', ''tr'')) demo_commit (demo_world 3 [False, False, True]))))"
  using coordinator_preserves_ledger [where w = "demo_world 3 [False, False, True]", OF demo_environment demo_world_inv]
  by blast

lemma commit_success:
  assumes "environment_ok K" "store_inv (w_db w)"
    and "commit K clk uid cmd w = (Returns (Inr res), w')
       \<and> oid = co_operation_id cmd
     \<or> create K clk uid cmd' w = (Returns (Inr res), w') \<and> oid = cr_operation_id cmd'"
  shows "store_phase (w_db w) oid = Some (Generated, OCS_NotStarted)
    \<and> res_status res \<in> {SC_Applied, SC_AlreadyApplied}
    \<and> store_phase (w_db w') oid = Some (Committed, OCS_Applied)"
  using assms(3)
proof (elim disjE conjE)
  assume "commit K clk uid cmd w = (Returns (Inr res), w')" and oid: "oid = co_operation_id cmd"
  then have ok: "st_bind (st_store (uid 0) oid (mark_committing (clk 0) oid)) (\<lambda>_.
      after_backend (co_commit K cmd) (settle_result K clk uid oid
               \<lparr> sw_not_applied = ''commit was not applied'',
                 sw_unknown = ''connector commit outcome is not known'',
                 sw_rejected = ''commit was rejected before mutation'' \<rparr>
               (settle_applied K clk uid oid))) w = (Returns (Inr res), w')"
    by (simp add: commit_def Let_def st_fail_not_Inr split: if_splits)
  have "st_evolves (co_commit K cmd)" using assms(1) by (simp add: environment_ok_def)
  from commit_path_InrD [OF assms(2) this ok] show ?thesis by simp
next
  assume "create K clk uid cmd' w = (Returns (Inr res), w')" and oid: "oid = cr_operation_id cmd'"
  then have ok: "st_bind (st_store (uid 0) oid (mark_committing (clk 0) oid)) (\<lambda>_.
      after_backend (co_create_chat K cmd') (settle_result K clk uid oid
             \<lparr> sw_not_applied = ''create was not applied'',
               sw_unknown = ''connector create outcome is not known'',
               sw_rejected = ''create was rejected before mutation'' \<rparr>
               (settle_applied K clk uid oid))) w = (Returns (Inr res), w')"
    by (simp add: create_def Let_def)
  have "st_evolves (co_create_chat K cmd')" using assms(1) by (simp add: environment_ok_def)
  from commit_path_InrD [OF assms(2) this ok] show ?thesis by simp
qed

text \<open>A commit or create that returns success is durable: its operation was generated and
  not started before, the connector reported the mutation as applied, and the ledger records
  it as committed and applied, even when statements fail or other tasks interfere while the
  backend works.\<close>

theorem successful_commit_is_durable:
  assumes "environment_ok K" "store_inv (w_db w)"
    and "commit K clk uid cmd w = (Returns (Inr res), w')
       \<and> oid = co_operation_id cmd
     \<or> create K clk uid cmd' w = (Returns (Inr res), w') \<and> oid = cr_operation_id cmd'"
  shows "store_phase (w_db w) oid = Some (Generated, OCS_NotStarted)
    \<and> res_status res \<in> {SC_Applied, SC_AlreadyApplied}
    \<and> store_phase (w_db w') oid = Some (Committed, OCS_Applied)"
  by (rule commit_success [OF assms])

theorem successful_commit_is_durable_witness:
  "\<exists>w'. commit (demo_coordinator (Inr (demo_result SC_Applied))) (\<lambda>_. ''t'') (\<lambda>_. (''rq'', ''tr''))
       demo_commit (demo_world 3 []) = (Returns (Inr (demo_result SC_Applied)), w')
     \<and> store_phase (w_db w') ''op-1'' = Some (Committed, OCS_Applied)"
proof -
  let ?c = "commit (demo_coordinator (Inr (demo_result SC_Applied))) (\<lambda>_. ''t'') (\<lambda>_. (''rq'', ''tr''))
       demo_commit (demo_world 3 [])"
  have "(case fst ?c of Returns (Inr res) \<Rightarrow> res = demo_result SC_Applied | _ \<Rightarrow> False)" by code_simp
  then have c: "?c = (Returns (Inr (demo_result SC_Applied)), snd ?c) \<and> ''op-1'' = co_operation_id demo_commit"
    by (cases ?c) (auto simp: demo_commit_def split: call.splits sum.splits)
  from successful_commit_is_durable [OF demo_environment demo_world_inv disjI1 [OF c]]
  have "store_phase (w_db (snd ?c)) ''op-1'' = Some (Committed, OCS_Applied)" by blast
  with c show ?thesis by blast
qed

text \<open>When no statement fails and the backend alone decides, a commit of a generated operation
  ends exactly as the backend's answer demands: applied or already applied becomes
  committed/applied and success; not applied, or an error known not to be applied, becomes
  failed/not applied; every other answer leaves the operation committing/unknown for
  reconciliation, and the error returned carries the recorded commit state.\<close>

theorem commit_records_backend_outcome:
  assumes inv: "store_inv (w_db w)" and nf: "faults (w_db w) = []"
    and ph: "store_phase (w_db w) (co_operation_id cmd) = Some (Generated, OCS_NotStarted)"
    and fence: "fence_is_valid (co_fence cmd)"
    and enc: "\<And>res. co_result_to_string K res \<noteq> None"
    and backend: "\<And>w1. \<exists>w2. co_commit K cmd w1 = (Returns r, w2) \<and> w_db w2 = w_db w1"
  shows "\<exists>x w'. commit K clk uid cmd w = (Returns x, w')
    \<and> store_phase (w_db w') (co_operation_id cmd) = Some (settled_phase r)
    \<and> (case x of Inr res \<Rightarrow> r = Inr res \<and> snd (settled_phase r) = OCS_Applied
       | Inl e \<Rightarrow> snd (settled_phase r) = OCS_NotApplied \<and> err_commit_state e = CS_NotApplied
                \<or> snd (settled_phase r) = OCS_Unknown \<and> err_commit_state e = CS_Unknown)"
proof -
  let ?oid = "co_operation_id cmd"
  let ?words = "\<lparr> sw_not_applied = ''commit was not applied'',
                 sw_unknown = ''connector commit outcome is not known'',
                 sw_rejected = ''commit was rejected before mutation'' \<rparr>"
  obtain b db1 where b: "mark_committing (clk 0) ?oid (w_db w) = (Inr b, db1)" "faults db1 = []"
    "store_phase db1 ?oid = Some (Committing, OCS_NotStarted)"
    using mark_committing_success [OF inv nf ph] by blast
  let ?w1 = "w\<lparr>w_db := db1\<rparr>"
  from backend obtain w2 where w2: "co_commit K cmd ?w1 = (Returns r, w2)" "w_db w2 = db1" by force
  have "commit K clk uid cmd w
      = settle_result K clk uid ?oid ?words (settle_applied K clk uid ?oid) r w2"
    using fence b(1) w2(1)
    by (simp add: commit_def Let_def st_bind_def st_store_def st_app_def on_store_def after_backend_def)
  moreover have "store_inv (w_db w2)"
    using evolves_inv [OF evolves_store_ops(5) inv] b(1) w2(2) by (metis snd_conv)
  ultimately show ?thesis
    using settle_result_no_fault [of w2 ?oid K ?words, OF _ _ _ enc, of "Some ''connector commit outcome is not known''"
        "settle_applied K clk uid ?oid" clk uid r] b w2 plain_commit_words by simp
qed

theorem commit_records_backend_outcome_witness:
  "\<exists>e w'. commit (demo_coordinator (Inr (demo_result SC_Unknown))) (\<lambda>_. ''t'') (\<lambda>_. (''rq'', ''tr''))
       demo_commit (demo_world 3 []) = (Returns (Inl e), w')
     \<and> err_commit_state e = CS_Unknown
     \<and> store_phase (w_db w') ''op-1'' = Some (Committing, OCS_Unknown)"
proof -
  let ?K = "demo_coordinator (Inr (demo_result SC_Unknown))"
  have id: "co_operation_id demo_commit = ''op-1''" "co_fence demo_commit = demo_fence"
    by (simp_all add: demo_commit_def)
  let ?r = "Inr (demo_result SC_Unknown) :: st_commit_result st_result"
  have phase: "settled_phase ?r = (Committing, OCS_Unknown)" by (simp add: settled_phase_def demo_result_def)
  have "\<exists>x w'. commit ?K (\<lambda>_. ''t'') (\<lambda>_. (''rq'', ''tr'')) demo_commit (demo_world 3 []) = (Returns x, w')
    \<and> store_phase (w_db w') ''op-1'' = Some (settled_phase ?r)
    \<and> (case x of Inr res \<Rightarrow> ?r = Inr res \<and> snd (settled_phase ?r) = OCS_Applied
       | Inl e \<Rightarrow> snd (settled_phase ?r) = OCS_NotApplied \<and> err_commit_state e = CS_NotApplied
                \<or> snd (settled_phase ?r) = OCS_Unknown \<and> err_commit_state e = CS_Unknown)"
    unfolding id(1) [symmetric]
    by (rule commit_records_backend_outcome [OF demo_world_inv])
       (use demo_world_phases(2,4,5) in \<open>simp_all add: id demo_coordinator_def\<close>)
  then obtain x w' where x: "commit ?K (\<lambda>_. ''t'') (\<lambda>_. (''rq'', ''tr'')) demo_commit (demo_world 3 []) = (Returns x, w')"
    "store_phase (w_db w') ''op-1'' = Some (Committing, OCS_Unknown)"
    and out: "case x of Inr res \<Rightarrow> ?r = Inr res \<and> snd (settled_phase ?r) = OCS_Applied
       | Inl e \<Rightarrow> snd (settled_phase ?r) = OCS_NotApplied \<and> err_commit_state e = CS_NotApplied
                \<or> snd (settled_phase ?r) = OCS_Unknown \<and> err_commit_state e = CS_Unknown"
    unfolding phase by blast
  from out obtain e where "x = Inl e" "err_commit_state e = CS_Unknown" by (cases x) (auto simp: phase)
  with x show ?thesis by blast
qed

text \<open>C6. A mutation the backend applied is never reported as not applied, whatever statements
  fail while the coordinator records it: either the commit succeeds and is recorded, or the
  caller gets an error whose commit state is unknown while the operation is still committing
  (or already committed), or the backend was never called and the error says not started.\<close>

theorem applied_never_reported_unapplied:
  assumes inv: "store_inv (w_db w)"
    and ph: "store_phase (w_db w) (co_operation_id cmd) = Some (Generated, OCS_NotStarted)"
    and fence: "fence_is_valid (co_fence cmd)"
    and enc: "\<And>res. co_result_to_string K res \<noteq> None"
    and backend: "\<And>w1. \<exists>w2. co_commit K cmd w1 = (Returns (Inr res), w2) \<and> w_db w2 = w_db w1"
    and applied: "res_status res \<in> {SC_Applied, SC_AlreadyApplied}"
  shows "\<exists>x w'. commit K clk uid cmd w = (Returns x, w') \<and>
    (x = Inr res \<and> store_phase (w_db w') (co_operation_id cmd) = Some (Committed, OCS_Applied)
     \<or> (\<exists>e. x = Inl e \<and> err_commit_state e = CS_Unknown
          \<and> store_phase (w_db w') (co_operation_id cmd)
              \<in> Some ` {(Committing, OCS_NotStarted), (Committing, OCS_Unknown), (Committed, OCS_Applied)})
     \<or> (\<exists>e. x = Inl e \<and> err_commit_state e = CS_NotStarted \<and> w_ext w' = w_ext w))"
proof -
  let ?oid = "co_operation_id cmd"
  obtain rc db1 where c: "mark_committing (clk 0) ?oid (w_db w) = (rc, db1)" by force
  let ?w1 = "w\<lparr>w_db := db1\<rparr>"
  show ?thesis
  proof (cases rc)
    case (Inl e)
    then have "commit K clk uid cmd w = (Returns (Inl (bridge_error_from_app (uid 0) e ?oid)), ?w1)"
      using fence c by (simp add: commit_def Let_def st_bind_def st_store_def st_app_def on_store_def)
    then show ?thesis by (simp add: bridge_error_from_app_def st_bridge_error_new_def)
  next
    case (Inr b)
    from backend obtain w2 where w2: "co_commit K cmd ?w1 = (Returns (Inr res), w2)" "w_db w2 = db1"
      by force
    have eq: "commit K clk uid cmd w = settle_applied K clk uid ?oid res w2"
      using fence c Inr w2(1) applied
      by (auto simp: commit_def Let_def st_bind_def st_store_def st_app_def on_store_def
          after_backend_def settle_result_def)
    have ph1: "store_phase (w_db w2) ?oid = Some (Committing, OCS_NotStarted)"
      and inv2: "store_inv (w_db w2)"
      using mark_committing_InrD(2) [OF inv] evolves_inv [OF evolves_store_ops(5) inv] c Inr w2(2)
      by (auto, metis snd_conv)
    obtain json where json: "co_result_to_string K res = Some json" using enc by blast
    obtain rm db3 where m: "mark_committed_with_state (clk 1) ?oid json OCS_NotStarted (w_db w2) = (rm, db3)"
      by force
    show ?thesis
    proof (cases rm)
      case (Inr b')
      with m mark_committed_InrD(2) [OF inv2, of "clk 1" ?oid json OCS_NotStarted b' db3] json eq
      show ?thesis by (simp add: settle_applied_def on_store_def)
    next
      case (Inl e)
      obtain ru db4 where u: "mark_commit_unknown (clk 2) ?oid db3 = (ru, db4)" by force
      have "store_phase db4 ?oid
          \<in> Some ` {(Committing, OCS_NotStarted), (Committing, OCS_Unknown), (Committed, OCS_Applied)}"
        using mark_commit_unknown_phases [OF u, of ?oid] mark_committed_phases [OF m, of ?oid] ph1 by auto
      with m Inl u json eq show ?thesis
        by (cases ru) (auto simp: settle_applied_def on_store_def operation_state_persistence_error_def
            st_bridge_error_new_def)
    qed
  qed
qed

text \<open>Recording the applied commit fails and so does marking it unknown.\<close>

theorem applied_never_reported_unapplied_witness:
  "\<exists>e w'. commit (demo_coordinator (Inr (demo_result SC_Applied))) (\<lambda>_. ''t'') (\<lambda>_. (''rq'', ''tr''))
       demo_commit (demo_world 3 [False, False, True, True]) = (Returns (Inl e), w')
     \<and> err_commit_state e = CS_Unknown"
proof -
  let ?K = "demo_coordinator (Inr (demo_result SC_Applied))" and ?w = "demo_world 3 [False, False, True, True]"
  let ?c = "commit ?K (\<lambda>_. ''t'') (\<lambda>_. (''rq'', ''tr'')) demo_commit ?w"
  have id: "co_operation_id demo_commit = ''op-1''" "co_fence demo_commit = demo_fence"
    by (simp_all add: demo_commit_def)
  have "(case fst ?c of Returns (Inl e) \<Rightarrow> err_commit_state e \<noteq> CS_NotStarted | _ \<Rightarrow> False)" by code_simp
  moreover have "\<exists>x w'. ?c = (Returns x, w') \<and>
    (x = Inr (demo_result SC_Applied) \<and> store_phase (w_db w') ''op-1'' = Some (Committed, OCS_Applied)
     \<or> (\<exists>e. x = Inl e \<and> err_commit_state e = CS_Unknown
          \<and> store_phase (w_db w') ''op-1''
              \<in> Some ` {(Committing, OCS_NotStarted), (Committing, OCS_Unknown), (Committed, OCS_Applied)})
     \<or> (\<exists>e. x = Inl e \<and> err_commit_state e = CS_NotStarted \<and> w_ext w' = w_ext ?w))"
    unfolding id(1) [symmetric]
    by (rule applied_never_reported_unapplied [OF demo_world_inv])
       (use demo_world_phases(2,5) in \<open>simp_all add: id demo_coordinator_def demo_result_def\<close>)
  ultimately show ?thesis by auto
qed

text \<open>Nothing is sent to the backend unless the operation is generated and not started and
  the fence is valid: otherwise a commit leaves everything outside the database untouched, the
  phases of all operations unchanged, and returns an error.\<close>

theorem commit_needs_generated_operation:
  assumes "store_inv (w_db w)"
    and "store_phase (w_db w) (co_operation_id cmd) \<noteq> Some (Generated, OCS_NotStarted)
       \<or> \<not> fence_is_valid (co_fence cmd)"
  shows "case commit K clk uid cmd w of (x, w') \<Rightarrow>
    w_ext w' = w_ext w \<and> (\<forall>i. store_phase (w_db w') i = store_phase (w_db w) i)
    \<and> (\<forall>res. x \<noteq> Returns (Inr res))"
proof (cases "fence_is_valid (co_fence cmd)")
  case False
  then show ?thesis
    by (cases "unknown_commit_error (uid 0) (co_operation_id cmd) ''runtime fence is invalid''")
       (auto simp: commit_def Let_def st_fail_def)
next
  case True
  let ?oid = "co_operation_id cmd"
  have ph: "store_phase (w_db w) ?oid \<noteq> Some (Generated, OCS_NotStarted)" using True assms(2) by simp
  obtain rc db1 where c: "mark_committing (clk 0) ?oid (w_db w) = (rc, db1)" by force
  with ph mark_committing_InrD(1) [OF assms(1)] obtain e where e: "rc = Inl e"
    by (cases rc) blast+
  have "store_phase db1 i = store_phase (w_db w) i" for i
  proof -
    let ?Q = "\<lambda>r. op_id r = ?oid \<and> op_status r = ''generated'' \<and> op_commit_state r = ''not_started''"
    have none: "\<not> ?Q r" if "row_of (w_db w) i = Some r" for r
      using that ph row_of_Some [OF that] by (auto simp: store_phase_row)
    have "db1 = snd (mark_committing (clk 0) ?oid (w_db w))" using c by simp
    from cas_row_cases [OF refl _ this [unfolded mark_committing_def], of i] none
    show ?thesis by (auto simp: store_phase_def)
  qed
  with True c e show ?thesis
    by (simp add: commit_def Let_def st_bind_def st_store_def st_app_def on_store_def)
qed

theorem commit_needs_generated_operation_witness:
  "case commit (demo_coordinator (Inr (demo_result SC_Applied))) (\<lambda>_. ''t'') (\<lambda>_. (''rq'', ''tr''))
     demo_commit (demo_world 2 []) of (x, w') \<Rightarrow> \<forall>res. x \<noteq> Returns (Inr res)"
  using commit_needs_generated_operation [where w = "demo_world 2 []" and cmd = demo_commit
      and K = "demo_coordinator (Inr (demo_result SC_Applied))" and clk = "\<lambda>_. ''t''"
      and uid = "\<lambda>_. (''rq'', ''tr'')", OF demo_world_inv] demo_world_phases(1)
  by (auto simp: demo_commit_def split: prod.splits)

text \<open>Reconciliation confirms a commit only on evidence: it returns a record only for an
  operation that was already recorded as applied, or for a committing one whose journal entry
  has the same operation, locator and mutation and says applied; in that case the ledger
  records it as committed and applied.\<close>

theorem reconcile_needs_applied_journal:
  assumes "environment_ok K" "store_inv (w_db w)"
    and "reconcile_commit K now r lhash w = (Inr (Some r'), w')"
  shows "rec_status r \<in> {Committed, Delivered} \<and> rec_commit_state r = OCS_Applied \<and> r' = r \<and> w' = w
    \<or> rec_status r = Committing
      \<and> (\<exists>j w1 digest. co_journal_lookup K (rec_id r) w = (Inr (Some j), w1)
           \<and> rec_mutation_digest r = Some digest \<and> sj_status j = SJ_Applied
           \<and> sj_operation_id j = rec_id r \<and> sj_locator_hash j = lhash \<and> sj_mutation_digest j = digest)
      \<and> store_phase (w_db w') (rec_id r) = Some (Committed, OCS_Applied)
      \<and> rec_id r' = rec_id r \<and> rec_status r' = Committed \<and> rec_commit_state r' = OCS_Applied"
  by (rule reconcile_commit_evidence [OF assms])

theorem reconcile_needs_applied_journal_witness:
  "\<exists>b r' w'. get_operation ''op-1'' (w_db (demo_world 5 [])) = (Inr (Some b), w_db (demo_world 5 []))
    \<and> reconcile_commit (demo_coordinator (Inl undefined)) ''t'' b ''l'' (demo_world 5 []) = (Inr (Some r'), w')
    \<and> store_phase (w_db w') (rec_id b) = Some (Committed, OCS_Applied)"
proof -
  let ?w = "demo_world 5 []"
  let ?b = "projr (fst (get_operation ''op-1'' (w_db ?w)))"
  have fields: "(case ?b of Some b \<Rightarrow> rec_status b = Committing \<and> rec_commit_state b = OCS_Unknown
      \<and> rec_mutation_digest b = Some ''digest'' \<and> rec_id b = ''op-1'' | None \<Rightarrow> False)"
    and g: "\<not> isl (fst (get_operation ''op-1'' (w_db ?w)))"
    by code_simp+
  then obtain b where b: "?b = Some b" "rec_status b = Committing" "rec_commit_state b = OCS_Unknown"
    "rec_mutation_digest b = Some ''digest''" "rec_id b = ''op-1''" by (auto split: option.splits)
  have "faults (w_db ?w) = []" by (simp add: demo_world_def)
  then have "get_operation ''op-1'' (w_db ?w) = (Inr (Some b), w_db ?w)"
    using get_operation_no_fault [OF demo_world_inv, of 5 "[]" "''op-1''"] b(1) g
    by (metis fst_conv isl_def sum.collapse(2))
  moreover obtain r' db where m: "mark_committed_with_state ''t'' ''op-1'' ''{}'' OCS_Unknown (w_db ?w) = (Inr r', db)"
    using mark_committed_success [OF demo_world_inv _ demo_world_phases(3)] \<open>faults (w_db ?w) = []\<close> by blast
  then have "reconcile_commit (demo_coordinator (Inl undefined)) ''t'' b ''l'' ?w = (Inr (Some r'), ?w\<lparr>w_db := db\<rparr>)"
    using b(2-) by (simp add: reconcile_commit_def demo_coordinator_def app_bind_def app_return_def
        on_store_def identity_matches_def)
  moreover from reconcile_needs_applied_journal [OF demo_environment demo_world_inv this] b(2)
  have "store_phase (w_db (?w\<lparr>w_db := db\<rparr>)) (rec_id b) = Some (Committed, OCS_Applied)" by simp
  ultimately show ?thesis by blast
qed

lemma claim_disposition:
  assumes "store_inv db" "coordinator_claim now fresh q db = (Inr c, db')"
  shows "if co_disposition c = Fresh
    then store_phase db (rec_id (co_record c)) = None
      \<and> store_phase db' (rec_id (co_record c)) = Some (Received, OCS_NotStarted)
    else (\<exists>st cs. store_phase db (rec_id (co_record c)) = Some (st, cs)
      \<and> co_disposition c = (if st = Delivered then AlreadyDelivered
          else if st \<in> {Conflict, Failed, Interrupted} then Rejected else Resume))
      \<and> (\<forall>i. store_phase db' i = store_phase db i)"
proof (cases "claim_operation now fresh q db")
  case (Pair x d)
  show ?thesis
  proof (cases x)
    case (Inr b)
    with Pair assms(2) have c: "c = \<lparr> co_disposition = Fresh, co_record = b \<rparr>" "db' = d"
      by (auto simp: coordinator_claim_def)
    note claim = claim_InrD [OF assms(1) Pair [unfolded Inr]]
    have "rec_id b = (if is_blank (cl_id q) then fresh else cl_id q)"
      using into_record_fields(1) [OF claim(4)] by (simp add: claimed_row_def)
    with claim(2,3) show ?thesis
      by (simp add: c store_phase_def claimed_row_initial(1) initial_phase_def)
  next
    case (Inl e)
    with Pair assms(2) obtain b where e: "e = DuplicateClaim b" and d: "db' = d"
      and c: "c = \<lparr> co_disposition = duplicate_disposition (rec_status b) (rec_commit_state b), co_record = b \<rparr>"
      by (cases e) (auto simp: coordinator_claim_def)
    from claim_DuplicateD(1) [OF assms(1) Pair [unfolded Inl e]] obtain row
      where row: "row_of db (rec_id b) = Some row" "into_record row = Inr b" by blast
    have ph: "row_phase row = Some (rec_status b, rec_commit_state b)"
      using into_record_fields(10) [OF row(2)] .
    moreover from row_of_ok [OF assms(1) row(1)] ph have "phase_coherent (rec_status b, rec_commit_state b)"
      by (auto simp: row_ok_def)
    moreover have "same_tables db d" by (rule claim_DuplicateD(2) [OF assms(1) Pair [unfolded Inl e]])
    ultimately show ?thesis
      using row by (simp add: c d duplicate_disposition_coherent store_phase_def store_views_same)
  qed
qed

text \<open>What a claim tells its caller is right: a fresh claim has just created the operation; a
  duplicate is reported as already delivered exactly when the operation is delivered, as
  rejected exactly when it ended in conflict, failure or interruption, and otherwise, when it
  is still under way or committed, as one to resume. A duplicate changes no operation.\<close>

theorem claim_disposition_sound:
  assumes "store_inv db" "coordinator_claim now fresh q db = (Inr c, db')"
  shows "if co_disposition c = Fresh
    then store_phase db (rec_id (co_record c)) = None
      \<and> store_phase db' (rec_id (co_record c)) = Some (Received, OCS_NotStarted)
    else (\<exists>st cs. store_phase db (rec_id (co_record c)) = Some (st, cs)
      \<and> co_disposition c = (if st = Delivered then AlreadyDelivered
          else if st \<in> {Conflict, Failed, Interrupted} then Rejected else Resume))
      \<and> (\<forall>i. store_phase db' i = store_phase db i)"
  by (rule claim_disposition [OF assms])

theorem claim_disposition_sound_witness:
  "\<exists>c db'. coordinator_claim ''t9'' ''id2'' demo_claim (w_db (demo_world 6 [])) = (Inr c, db')
    \<and> co_disposition c = Resume \<and> (\<forall>i. store_phase db' i = store_phase (w_db (demo_world 6 [])) i)"
proof -
  let ?r = "coordinator_claim ''t9'' ''id2'' demo_claim (w_db (demo_world 6 []))"
  have "(case fst ?r of Inr c \<Rightarrow> co_disposition c = Resume | _ \<Rightarrow> False)" by code_simp
  then obtain c where c: "?r = (Inr c, snd ?r)" "co_disposition c = Resume"
    by (cases ?r) (auto split: sum.splits)
  with claim_disposition_sound [OF demo_world_inv c(1)] show ?thesis by auto
qed

end
