(* ===== verification/Poller_Ownership.thy ===== *)
theory Poller_Ownership
  imports St_Domain
begin

text \<open>
  \<^verbatim>\<open>src/modules/bridge/poller_ownership.rs\<close>: who may poll and write for a numeric Telegram
  bot. The registry keeps one ownership record (owner and epoch) and at most one runtime
  binding per bot; a guard is the local handle of a runtime, with a life cycle its clones
  share. Locks are held for one operation each, so an operation is one step. The shared
  life-cycle cell cannot be poisoned by the code here and is modelled by its value.
\<close>

section \<open>Owners, errors, life cycles\<close>

datatype poller_owner = LegacyPlugin | RustBridge

primrec owner_as_str :: "poller_owner \<Rightarrow> string" where
  "owner_as_str LegacyPlugin = ''legacy_plugin''"
| "owner_as_str RustBridge = ''rust_bridge''"

record poller_ownership_record =
  own_telegram_bot_id :: i64
  own_owner :: poller_owner
  own_epoch :: u64

datatype poller_error =
    BootstrapClosed | NotRegistered | NotOwner | EpochMismatch | InvalidBotId
  | RegistryUnavailable | PollerConflict | LifecycleInvalid

primrec poller_error_as_str :: "poller_error \<Rightarrow> string" where
  "poller_error_as_str BootstrapClosed = ''poller bootstrap closed''"
| "poller_error_as_str NotRegistered = ''poller not registered for numeric bot id''"
| "poller_error_as_str NotOwner = ''poller not owner for numeric bot id''"
| "poller_error_as_str EpochMismatch = ''poller epoch mismatch for numeric bot id''"
| "poller_error_as_str InvalidBotId = ''invalid numeric bot id''"
| "poller_error_as_str RegistryUnavailable = ''poller ownership registry unavailable''"
| "poller_error_as_str PollerConflict = ''poller ownership conflict''"
| "poller_error_as_str LifecycleInvalid = ''poller runtime lifecycle is not writable''"

type_synonym 'a poller_result = "poller_error + 'a"

datatype poller_lifecycle = Starting | Running | Draining | Stopped

definition can_own :: "poller_lifecycle \<Rightarrow> bool" where
  "can_own l \<longleftrightarrow> l \<in> {Starting, Running}"

definition accepts_writes :: "poller_lifecycle \<Rightarrow> bool" where
  "accepts_writes l \<longleftrightarrow> l = Running"

record poller_runtime_binding =
  bind_internal_bot_id :: string
  bind_runtime_instance_id :: string
  bind_epoch :: u64
  bind_lifecycle :: poller_lifecycle

definition binding_new :: "string \<Rightarrow> string \<Rightarrow> u64 \<Rightarrow> poller_runtime_binding" where
  "binding_new bot_id inst ep =
     \<lparr> bind_internal_bot_id = bot_id, bind_runtime_instance_id = inst, bind_epoch = ep,
       bind_lifecycle = Starting \<rparr>"

definition binding_running :: "poller_runtime_binding \<Rightarrow> poller_runtime_binding" where
  "binding_running b = b\<lparr>bind_lifecycle := Running\<rparr>"

definition binding_draining :: "poller_runtime_binding \<Rightarrow> poller_runtime_binding" where
  "binding_draining b = b\<lparr>bind_lifecycle := Draining\<rparr>"

definition require_numeric_bot_id :: "i64 \<Rightarrow> unit poller_result" where
  "require_numeric_bot_id i = (if i \<le> 0 then Inl InvalidBotId else Inr ())"

section \<open>The registry\<close>

record memory_poller_registry =
  reg_records :: "i64 \<rightharpoonup> poller_ownership_record"
  reg_bindings :: "i64 \<rightharpoonup> poller_runtime_binding"
  reg_bootstrapped :: bool

definition empty_registry :: memory_poller_registry where
  "empty_registry =
     \<lparr> reg_records = Map.empty, reg_bindings = Map.empty, reg_bootstrapped = False \<rparr>"

definition bootstrap_legacy ::
    "i64 \<Rightarrow> memory_poller_registry \<Rightarrow> poller_ownership_record poller_result \<times> memory_poller_registry"
where
  "bootstrap_legacy i R =
     (case require_numeric_bot_id i of
        Inl e \<Rightarrow> (Inl e, R)
      | Inr _ \<Rightarrow>
          if reg_bootstrapped R \<or> reg_records R \<noteq> Map.empty then (Inl BootstrapClosed, R)
          else
            (let r = \<lparr> own_telegram_bot_id = i, own_owner = LegacyPlugin, own_epoch = 1 \<rparr> in
             (Inr r, R\<lparr> reg_records := (reg_records R)(i \<mapsto> r), reg_bootstrapped := True \<rparr>)))"

definition assert_can_start ::
    "i64 \<Rightarrow> poller_owner \<Rightarrow> u64 \<Rightarrow> memory_poller_registry \<Rightarrow> unit poller_result" where
  "assert_can_start i owner ep R =
     bind_r (require_numeric_bot_id i) (\<lambda>_.
     bind_r (ok_or NotRegistered (reg_records R i)) (\<lambda>r.
       if own_owner r \<noteq> owner then Inl NotOwner
       else if own_epoch r \<noteq> ep then Inl EpochMismatch
       else Inr ()))"

definition registry_heartbeat ::
    "i64 \<Rightarrow> poller_owner \<Rightarrow> u64 \<Rightarrow> memory_poller_registry \<Rightarrow> unit poller_result" where
  "registry_heartbeat i owner ep R = assert_can_start i owner ep R"

definition transfer ::
    "i64 \<Rightarrow> poller_owner \<Rightarrow> u64 \<Rightarrow> poller_owner \<Rightarrow> memory_poller_registry
      \<Rightarrow> poller_ownership_record poller_result \<times> memory_poller_registry" where
  "transfer i expected_owner expected_epoch new_owner R =
     (case bind_r (require_numeric_bot_id i) (\<lambda>_.
           bind_r (ok_or NotRegistered (reg_records R i)) (\<lambda>r.
             if own_owner r \<noteq> expected_owner then Inl NotOwner
             else if own_epoch r \<noteq> expected_epoch then Inl EpochMismatch
             else if new_owner = own_owner r then Inl NotOwner
             else bind_r (ok_or PollerConflict (checked_add_u64 (own_epoch r) 1)) (\<lambda>ep.
               Inr \<lparr> own_telegram_bot_id = i, own_owner = new_owner, own_epoch = ep \<rparr>))) of
        Inl e \<Rightarrow> (Inl e, R)
      | Inr u \<Rightarrow> (Inr u, R\<lparr> reg_records := (reg_records R)(i \<mapsto> u) \<rparr>))"

definition registry_claim_runtime ::
    "i64 \<Rightarrow> poller_runtime_binding \<Rightarrow> memory_poller_registry
      \<Rightarrow> unit poller_result \<times> memory_poller_registry" where
  "registry_claim_runtime i b R =
     (case bind_r (require_numeric_bot_id i) (\<lambda>_.
           if \<not> can_own (bind_lifecycle b) \<or> is_blank (bind_internal_bot_id b)
              \<or> is_blank (bind_runtime_instance_id b) then Inl LifecycleInvalid
           else bind_r (assert_can_start i RustBridge (bind_epoch b) R) (\<lambda>_.
             if reg_bindings R i \<noteq> None then Inl PollerConflict else Inr ())) of
        Inl e \<Rightarrow> (Inl e, R)
      | Inr _ \<Rightarrow> (Inr (), R\<lparr> reg_bindings := (reg_bindings R)(i \<mapsto> b) \<rparr>))"

definition registry_release_runtime ::
    "i64 \<Rightarrow> string \<Rightarrow> memory_poller_registry \<Rightarrow> unit poller_result \<times> memory_poller_registry" where
  "registry_release_runtime i inst R =
     (case require_numeric_bot_id i of
        Inl e \<Rightarrow> (Inl e, R)
      | Inr _ \<Rightarrow>
          (case reg_bindings R i of
             None \<Rightarrow> (Inl NotRegistered, R)
           | Some b \<Rightarrow>
               if bind_runtime_instance_id b \<noteq> inst then (Inl NotOwner, R)
               else (Inr (), R\<lparr> reg_bindings := (reg_bindings R)(i := None) \<rparr>)))"

definition get_ownership ::
    "i64 \<Rightarrow> memory_poller_registry \<Rightarrow> poller_ownership_record option poller_result" where
  "get_ownership i R = bind_r (require_numeric_bot_id i) (\<lambda>_. Inr (reg_records R i))"

text \<open>\<^verbatim>\<open>SharedMemoryPollerRegistry::assert_fence\<close>.\<close>

definition assert_fence ::
    "i64 \<Rightarrow> poller_owner \<Rightarrow> poller_runtime_binding \<Rightarrow> memory_poller_registry \<Rightarrow> unit poller_result" where
  "assert_fence i owner b R =
     (if \<not> accepts_writes (bind_lifecycle b) then Inl LifecycleInvalid
      else
        bind_r (assert_can_start i owner (bind_epoch b) R) (\<lambda>_.
        bind_r (ok_or NotRegistered (reg_bindings R i)) (\<lambda>cur.
          if bind_internal_bot_id cur \<noteq> bind_internal_bot_id b
             \<or> bind_runtime_instance_id cur \<noteq> bind_runtime_instance_id b then Inl PollerConflict
          else if bind_epoch cur \<noteq> bind_epoch b then Inl EpochMismatch
          else Inr ())))"

text \<open>The trait's default \<^verbatim>\<open>assert_fence\<close>, on any \<^verbatim>\<open>assert_can_start\<close>.\<close>

definition default_assert_fence ::
    "(i64 \<Rightarrow> poller_owner \<Rightarrow> u64 \<Rightarrow> unit poller_result) \<Rightarrow> i64 \<Rightarrow> poller_owner
      \<Rightarrow> poller_runtime_binding \<Rightarrow> unit poller_result" where
  "default_assert_fence can_start i owner b =
     (if is_blank (bind_internal_bot_id b) \<or> is_blank (bind_runtime_instance_id b)
      then Inl PollerConflict
      else if bind_epoch b = 0 \<or> \<not> accepts_writes (bind_lifecycle b) then Inl LifecycleInvalid
      else can_start i owner (bind_epoch b))"

definition default_claim_runtime ::
    "(i64 \<Rightarrow> poller_owner \<Rightarrow> u64 \<Rightarrow> unit poller_result) \<Rightarrow> i64
      \<Rightarrow> poller_runtime_binding \<Rightarrow> unit poller_result" where
  "default_claim_runtime can_start i b =
     (if is_blank (bind_internal_bot_id b) \<or> is_blank (bind_runtime_instance_id b)
         \<or> bind_epoch b = 0 \<or> \<not> can_own (bind_lifecycle b) then Inl LifecycleInvalid
      else can_start i RustBridge (bind_epoch b))"

section \<open>Guards\<close>

record poller_ownership_guard =
  g_numeric_bot_id :: i64
  g_owner :: poller_owner
  g_epoch :: u64
  g_internal_bot_id :: string
  g_runtime_instance_id :: string
  g_lifecycle :: poller_lifecycle

definition guard_new :: "string \<Rightarrow> i64 \<Rightarrow> poller_owner \<Rightarrow> u64 \<Rightarrow> poller_ownership_guard" where
  "guard_new fresh i owner ep =
     \<lparr> g_numeric_bot_id = i, g_owner = owner, g_epoch = ep, g_internal_bot_id = [],
       g_runtime_instance_id = fresh, g_lifecycle = Starting \<rparr>"

definition new_with_binding ::
    "i64 \<Rightarrow> poller_owner \<Rightarrow> poller_runtime_binding \<Rightarrow> poller_ownership_guard" where
  "new_with_binding i owner b =
     \<lparr> g_numeric_bot_id = i, g_owner = owner, g_epoch = bind_epoch b,
       g_internal_bot_id = bind_internal_bot_id b,
       g_runtime_instance_id = bind_runtime_instance_id b, g_lifecycle = bind_lifecycle b \<rparr>"

definition guard_binding :: "string \<Rightarrow> poller_ownership_guard \<Rightarrow> poller_runtime_binding" where
  "guard_binding supplied g =
     \<lparr> bind_internal_bot_id = (if is_blank supplied then g_internal_bot_id g else supplied),
       bind_runtime_instance_id = g_runtime_instance_id g, bind_epoch = g_epoch g,
       bind_lifecycle = g_lifecycle g \<rparr>"

definition guard_claim_runtime ::
    "poller_ownership_guard \<Rightarrow> memory_poller_registry \<Rightarrow> unit poller_result \<times> memory_poller_registry"
where
  "guard_claim_runtime g R = registry_claim_runtime (g_numeric_bot_id g) (guard_binding [] g) R"

definition guard_release_runtime ::
    "poller_ownership_guard \<Rightarrow> memory_poller_registry \<Rightarrow> unit poller_result \<times> memory_poller_registry"
where
  "guard_release_runtime g R =
     (if g_lifecycle g \<notin> {Draining, Stopped} then (Inl LifecycleInvalid, R)
      else registry_release_runtime (g_numeric_bot_id g) (g_runtime_instance_id g) R)"

definition runtime_fence :: "poller_ownership_guard \<Rightarrow> poller_runtime_fence option" where
  "runtime_fence g =
     (if g_owner g \<noteq> RustBridge \<or> g_lifecycle g \<noteq> Running \<or> g_numeric_bot_id g \<le> 0
         \<or> g_epoch g = 0 \<or> is_blank (g_internal_bot_id g) \<or> is_blank (g_runtime_instance_id g)
      then None
      else Some \<lparr> fence_telegram_bot_id = g_numeric_bot_id g,
                  fence_owner = owner_as_str (g_owner g), fence_epoch = g_epoch g,
                  fence_internal_bot_id = g_internal_bot_id g,
                  fence_runtime_instance_id = g_runtime_instance_id g \<rparr>)"

definition set_lifecycle ::
    "poller_lifecycle \<Rightarrow> poller_ownership_guard \<Rightarrow> unit poller_result \<times> poller_ownership_guard" where
  "set_lifecycle l g = (Inr (), g\<lparr>g_lifecycle := l\<rparr>)"

definition begin_draining ::
    "poller_ownership_guard \<Rightarrow> unit poller_result \<times> poller_ownership_guard" where
  "begin_draining g =
     (case g_lifecycle g of
        Starting \<Rightarrow> (Inr (), g\<lparr>g_lifecycle := Draining\<rparr>)
      | Running \<Rightarrow> (Inr (), g\<lparr>g_lifecycle := Draining\<rparr>)
      | Draining \<Rightarrow> (Inr (), g)
      | Stopped \<Rightarrow> (Inl LifecycleInvalid, g))"

definition mark_stopped ::
    "poller_ownership_guard \<Rightarrow> unit poller_result \<times> poller_ownership_guard" where
  "mark_stopped g =
     (if g_lifecycle g \<in> {Draining, Stopped} then (Inr (), g\<lparr>g_lifecycle := Stopped\<rparr>)
      else (Inl LifecycleInvalid, g))"

definition assert_valid ::
    "poller_ownership_guard \<Rightarrow> memory_poller_registry \<Rightarrow> unit poller_result" where
  "assert_valid g R = assert_fence (g_numeric_bot_id g) (g_owner g) (guard_binding [] g) R"

definition guard_heartbeat ::
    "poller_ownership_guard \<Rightarrow> memory_poller_registry \<Rightarrow> unit poller_result" where
  "guard_heartbeat g R = registry_heartbeat (g_numeric_bot_id g) (g_owner g) (g_epoch g) R"

section \<open>Registries as guards see them\<close>

text \<open>A guard keeps its registry as a trait object, and whoever checks a guard depends on the registry
  only through \<^verbatim>\<open>assert_fence\<close>. The operations that check guards take the answers of this method as an
  argument.\<close>

type_synonym fence_check = "i64 \<Rightarrow> poller_owner \<Rightarrow> poller_runtime_binding \<Rightarrow> unit poller_result"

definition assert_commit_fence :: "poller_ownership_guard \<Rightarrow> fence_check \<Rightarrow> unit poller_result" where
  "assert_commit_fence g check = check (g_numeric_bot_id g) (g_owner g) (guard_binding [] g)"

definition memory_fence :: "memory_poller_registry \<Rightarrow> fence_check" where
  "memory_fence R i owner b = assert_fence i owner b R"

lemma assert_commit_fence_memory [simp]: "assert_commit_fence g (memory_fence R) = assert_valid g R"
  by (simp add: assert_commit_fence_def memory_fence_def assert_valid_def)

text \<open>The registry of \<^verbatim>\<open>ConnectorClient\<close> in \<^verbatim>\<open>adapters/st/connector.rs\<close>, which asks the plugin: \<open>fetch\<close> is
  \<^verbatim>\<open>get_poller_ownership\<close>, \<open>send\<close> is \<^verbatim>\<open>post\<close> to a path below the plugin's, and \<open>to_vec\<close> prints JSON.\<close>

definition map_poller_error :: "st_bridge_error \<Rightarrow> poller_error" where
  "map_poller_error e =
     (case err_code e of
        StPollerNotOwner \<Rightarrow> NotOwner
      | StPollerEpochMismatch \<Rightarrow> EpochMismatch
      | StChatLocatorRejected \<Rightarrow> InvalidBotId
      | _ \<Rightarrow> RegistryUnavailable)"

definition connector_get_ownership ::
    "(i64 \<Rightarrow> poller_ownership_record option st_result) \<Rightarrow> i64 \<Rightarrow> poller_ownership_record option poller_result" where
  "connector_get_ownership fetch i = (if i \<le> 0 then Inl InvalidBotId else map_err map_poller_error (fetch i))"

definition connector_assert_can_start ::
    "(i64 \<Rightarrow> poller_ownership_record option st_result) \<Rightarrow> i64 \<Rightarrow> poller_owner \<Rightarrow> u64 \<Rightarrow> unit poller_result" where
  "connector_assert_can_start fetch i owner ep =
     bind_r (connector_get_ownership fetch i) (\<lambda>record.
       case record of
         None \<Rightarrow> Inl NotRegistered
       | Some r \<Rightarrow>
           if own_owner r \<noteq> owner then Inl NotOwner
           else if own_epoch r \<noteq> ep then Inl EpochMismatch
           else Inr ())"

primrec lifecycle_as_str :: "poller_lifecycle \<Rightarrow> string" where
  "lifecycle_as_str Starting = ''starting''"
| "lifecycle_as_str Running = ''running''"
| "lifecycle_as_str Draining = ''draining''"
| "lifecycle_as_str Stopped = ''stopped''"

definition json_of_i64 :: "i64 \<Rightarrow> json" where
  "json_of_i64 i = JNumber (if i < 0 then NegInt i else PosInt (nat i))"

definition runtime_body :: "i64 \<Rightarrow> poller_runtime_binding \<Rightarrow> json" where
  "runtime_body i b = JObject
     [(''telegramBotId'', json_of_i64 i), (''internalBotId'', JString (bind_internal_bot_id b)),
      (''runtimeInstanceId'', JString (bind_runtime_instance_id b)), (''epoch'', JNumber (PosInt (unat (bind_epoch b)))),
      (''lifecycle'', JString (lifecycle_as_str (bind_lifecycle b))), (''leaseUntil'', JNull)]"

definition connector_post ::
    "(json \<Rightarrow> string option) \<Rightarrow> (string \<Rightarrow> string \<Rightarrow> json st_result) \<Rightarrow> string \<Rightarrow> json \<Rightarrow> unit poller_result" where
  "connector_post to_vec send path body =
     (case to_vec body of
        None \<Rightarrow> Inl PollerConflict
      | Some bytes \<Rightarrow> (case send path bytes of Inl e \<Rightarrow> Inl (map_poller_error e) | Inr _ \<Rightarrow> Inr ()))"

definition connector_assert_fence ::
    "(json \<Rightarrow> string option) \<Rightarrow> (string \<Rightarrow> string \<Rightarrow> json st_result) \<Rightarrow> fence_check" where
  "connector_assert_fence to_vec send i owner b =
     (if owner \<noteq> RustBridge \<or> i \<le> 0 \<or> is_blank (bind_internal_bot_id b) \<or> is_blank (bind_runtime_instance_id b)
         \<or> bind_epoch b = 0 \<or> \<not> accepts_writes (bind_lifecycle b)
      then Inl LifecycleInvalid
      else connector_post to_vec send ''/api/plugins/st-im-bridge/connector/v1/poller-runtime/assert'' (runtime_body i b))"

definition connector_heartbeat ::
    "(json \<Rightarrow> string option) \<Rightarrow> (string \<Rightarrow> string \<Rightarrow> json st_result) \<Rightarrow> i64 \<Rightarrow> poller_owner \<Rightarrow> u64 \<Rightarrow> unit poller_result" where
  "connector_heartbeat to_vec send i owner ep =
     connector_post to_vec send ''/api/plugins/st-im-bridge/connector/v1/poller-ownership/heartbeat''
       (JObject [(''telegramBotId'', json_of_i64 i), (''owner'', JString (owner_as_str owner)),
                 (''epoch'', JNumber (PosInt (unat ep)))])"

definition connector_claim_runtime ::
    "(json \<Rightarrow> string option) \<Rightarrow> (string \<Rightarrow> string \<Rightarrow> json st_result) \<Rightarrow> i64 \<Rightarrow> poller_runtime_binding \<Rightarrow> unit poller_result" where
  "connector_claim_runtime to_vec send i b =
     (if i \<le> 0 \<or> is_blank (bind_internal_bot_id b) \<or> is_blank (bind_runtime_instance_id b)
         \<or> bind_epoch b = 0 \<or> \<not> can_own (bind_lifecycle b)
      then Inl LifecycleInvalid
      else connector_post to_vec send ''/api/plugins/st-im-bridge/connector/v1/poller-runtime/claim'' (runtime_body i b))"

definition connector_release_runtime ::
    "(json \<Rightarrow> string option) \<Rightarrow> (string \<Rightarrow> string \<Rightarrow> json st_result) \<Rightarrow> i64 \<Rightarrow> string \<Rightarrow> unit poller_result" where
  "connector_release_runtime to_vec send i inst =
     (if i \<le> 0 \<or> is_blank inst then Inl InvalidBotId
      else connector_post to_vec send ''/api/plugins/st-im-bridge/connector/v1/poller-runtime/release''
        (JObject [(''telegramBotId'', json_of_i64 i), (''runtimeInstanceId'', JString inst)]))"

text \<open>A guard passes this registry only while it is running for the bridge, and only if the plugin
  accepted a request that names its bot, its instance and its epoch.\<close>

lemma connector_fence_iff:
  "assert_commit_fence g (connector_assert_fence to_vec send) = Inr () \<longleftrightarrow>
     runtime_fence g \<noteq> None \<and> (\<exists>bytes reply. to_vec (runtime_body (g_numeric_bot_id g) (guard_binding [] g)) = Some bytes
       \<and> send ''/api/plugins/st-im-bridge/connector/v1/poller-runtime/assert'' bytes = Inr reply)"
proof -
  have "is_blank []" by code_simp
  then show ?thesis
    by (auto simp: assert_commit_fence_def connector_assert_fence_def connector_post_def runtime_fence_def guard_binding_def
        accepts_writes_def split: option.splits sum.splits)
qed

section \<open>Runs of the registry\<close>

datatype registry_op =
    R_Bootstrap i64
  | R_Transfer i64 poller_owner u64 poller_owner
  | R_Claim i64 poller_runtime_binding
  | R_Release i64 string

primrec registry_step :: "registry_op \<Rightarrow> memory_poller_registry \<Rightarrow> memory_poller_registry" where
  "registry_step (R_Bootstrap i) R = snd (bootstrap_legacy i R)"
| "registry_step (R_Transfer i ow ep new) R = snd (transfer i ow ep new R)"
| "registry_step (R_Claim i b) R = snd (registry_claim_runtime i b R)"
| "registry_step (R_Release i inst) R = snd (registry_release_runtime i inst R)"

definition reg_epoch :: "memory_poller_registry \<Rightarrow> i64 \<Rightarrow> u64 option" where
  "reg_epoch R i = map_option own_epoch (reg_records R i)"

definition reg_holder :: "memory_poller_registry \<Rightarrow> i64 \<Rightarrow> string option" where
  "reg_holder R i = map_option bind_runtime_instance_id (reg_bindings R i)"

definition releases :: "registry_op \<Rightarrow> i64 \<Rightarrow> string \<Rightarrow> bool" where
  "releases a i inst \<longleftrightarrow> a = R_Release i inst"

text \<open>
  The contract of an ownership registry: epochs never go back, and the instance that holds
  the runtime binding of a bot keeps it until that instance itself releases it.
\<close>

locale fencing_registry =
  fixes step :: "'op \<Rightarrow> 'r \<Rightarrow> 'r"
    and epoch :: "'r \<Rightarrow> 'i \<Rightarrow> 'e::order option"
    and holder :: "'r \<Rightarrow> 'i \<Rightarrow> 'h option"
    and release_of :: "'op \<Rightarrow> 'i \<Rightarrow> 'h \<Rightarrow> bool"
  assumes epoch_step: "epoch r i = Some e \<Longrightarrow> \<exists>e'. epoch (step a r) i = Some e' \<and> e \<le> e'"
    and holder_step: "holder r i = Some h \<Longrightarrow> \<not> release_of a i h \<Longrightarrow> holder (step a r) i = Some h"
begin

lemma run_epoch: "epoch r i = Some e \<Longrightarrow> \<exists>e'. epoch (fold step as r) i = Some e' \<and> e \<le> e'"
proof (induction as arbitrary: r e)
  case (Cons a as)
  from epoch_step [OF Cons.prems] obtain e1 where "epoch (step a r) i = Some e1" "e \<le> e1" by blast
  with Cons.IH [of "step a r" e1] show ?case by (auto intro: order_trans)
qed simp

lemma run_holder:
  "holder r i = Some h \<Longrightarrow> list_all (\<lambda>a. \<not> release_of a i h) as \<Longrightarrow> holder (fold step as r) i = Some h"
  by (induction as arbitrary: r) (auto intro: holder_step)

lemma stale_epoch_never_returns:
  assumes "epoch r i = Some e" "e0 < e"
  shows "epoch (fold step as r) i \<noteq> Some e0"
  using run_epoch [OF assms(1), of as] assms(2) by auto

end

lemma checked_add_u64_less: "checked_add_u64 a 1 = Some b \<Longrightarrow> a < b"
  using checked_add_u64_Some [of a 1 b] by (simp add: word_less_nat_alt)

lemma assert_can_start_iff:
  "assert_can_start i owner ep R = Inr () \<longleftrightarrow>
     0 < i \<and> (\<exists>r. reg_records R i = Some r \<and> own_owner r = owner \<and> own_epoch r = ep)"
  by (auto simp: assert_can_start_def require_numeric_bot_id_def bind_r_Inr_iff)

lemma transfer_cases:
  obtains (refused) e where "transfer i ow ep new R = (Inl e, R)"
  | (moved) r ep' where "reg_records R i = Some r" "own_owner r = ow" "own_epoch r = ep" "new \<noteq> ow"
      "checked_add_u64 ep 1 = Some ep'"
      "transfer i ow ep new R =
         (let u = \<lparr> own_telegram_bot_id = i, own_owner = new, own_epoch = ep' \<rparr>
          in (Inr u, R\<lparr> reg_records := (reg_records R)(i \<mapsto> u) \<rparr>))"
proof -
  let ?c = "bind_r (require_numeric_bot_id i) (\<lambda>_.
           bind_r (ok_or NotRegistered (reg_records R i)) (\<lambda>r.
             if own_owner r \<noteq> ow then Inl NotOwner
             else if own_epoch r \<noteq> ep then Inl EpochMismatch
             else if new = own_owner r then Inl NotOwner
             else bind_r (ok_or PollerConflict (checked_add_u64 (own_epoch r) 1)) (\<lambda>ep'.
               Inr \<lparr> own_telegram_bot_id = i, own_owner = new, own_epoch = ep' \<rparr>)))"
  show thesis
  proof (cases ?c)
    case (Inl e)
    then show thesis by (intro refused [of e]) (simp only: transfer_def sum.case)
  next
    case (Inr u)
    then obtain r ep' where "reg_records R i = Some r" "own_owner r = ow" "own_epoch r = ep" "new \<noteq> ow"
      "checked_add_u64 ep 1 = Some ep'" "u = \<lparr> own_telegram_bot_id = i, own_owner = new, own_epoch = ep' \<rparr>"
      by (auto simp: bind_r_Inr_iff split: if_splits)
    moreover have "transfer i ow ep new R = (Inr u, R\<lparr> reg_records := (reg_records R)(i \<mapsto> u) \<rparr>)"
      using Inr by (simp only: transfer_def sum.case)
    ultimately show thesis by (intro moved [of r ep']) (simp_all only: Let_def simp_thms)
  qed
qed

lemma bootstrap_cases:
  obtains (refused) e where "bootstrap_legacy i R = (Inl e, R)"
  | (opened) "0 < i" "reg_records R = Map.empty"
      "bootstrap_legacy i R =
         (let u = \<lparr> own_telegram_bot_id = i, own_owner = LegacyPlugin, own_epoch = 1 \<rparr>
          in (Inr u, R\<lparr> reg_records := [i \<mapsto> u], reg_bootstrapped := True \<rparr>))"
  by (cases "i \<le> 0"; cases "reg_bootstrapped R \<or> reg_records R \<noteq> Map.empty")
     (auto simp: bootstrap_legacy_def require_numeric_bot_id_def Let_def)

lemma case_commit_Inl:
  "fst (case x of Inl e \<Rightarrow> (Inl e, R) | Inr u \<Rightarrow> (Inr (g u), f u)) = Inl e
     \<Longrightarrow> (case x of Inl e \<Rightarrow> (Inl e, R) | Inr u \<Rightarrow> (Inr (g u), f u)) = (Inl e, R)"
  by (cases x) auto

lemma claim_cases:
  obtains (refused) e where "registry_claim_runtime i b R = (Inl e, R)"
  | (claimed) "assert_can_start i RustBridge (bind_epoch b) R = Inr ()" "can_own (bind_lifecycle b)"
      "\<not> is_blank (bind_internal_bot_id b)" "\<not> is_blank (bind_runtime_instance_id b)"
      "reg_bindings R i = None"
      "registry_claim_runtime i b R = (Inr (), R\<lparr> reg_bindings := (reg_bindings R)(i \<mapsto> b) \<rparr>)"
proof (cases "fst (registry_claim_runtime i b R)")
  case (Inl e)
  then have "registry_claim_runtime i b R = (Inl e, R)"
    unfolding registry_claim_runtime_def by (rule case_commit_Inl)
  then show thesis by (rule refused)
next
  case (Inr u)
  then show thesis
    by (intro claimed) (auto simp: registry_claim_runtime_def bind_r_Inr_iff
        split: sum.splits if_splits)
qed

lemma release_cases:
  obtains (refused) e where "registry_release_runtime i inst R = (Inl e, R)"
  | (released) b where "reg_bindings R i = Some b" "bind_runtime_instance_id b = inst"
      "registry_release_runtime i inst R = (Inr (), R\<lparr> reg_bindings := (reg_bindings R)(i := None) \<rparr>)"
proof -
  consider "i \<le> 0" | "0 < i" "reg_bindings R i = None"
    | b where "0 < i" "reg_bindings R i = Some b" "bind_runtime_instance_id b \<noteq> inst"
    | b where "0 < i" "reg_bindings R i = Some b" "bind_runtime_instance_id b = inst"
    by (cases "i \<le> 0"; cases "reg_bindings R i") auto
  then show thesis
    by cases (auto intro: refused released simp: registry_release_runtime_def require_numeric_bot_id_def)
qed

lemma step_epoch:
  assumes "reg_records R i = Some r"
  shows "\<exists>r'. reg_records (registry_step a R) i = Some r' \<and> own_epoch r \<le> own_epoch r'"
proof (cases a)
  case (R_Bootstrap j)
  with assms show ?thesis by (cases rule: bootstrap_cases [of j R]) auto
next
  case (R_Transfer j ow ep new)
  then show ?thesis
  proof (cases rule: transfer_cases [of j ow ep new R])
    case (moved q ep')
    with R_Transfer assms show ?thesis
      by (cases "j = i") (auto simp: Let_def dest!: checked_add_u64_less)
  qed (use R_Transfer assms in auto)
next
  case (R_Claim j b)
  with assms show ?thesis by (cases rule: claim_cases [of j b R]) auto
next
  case (R_Release j inst)
  with assms show ?thesis by (cases rule: release_cases [of j inst R]) auto
qed

lemma step_binding:
  assumes "reg_bindings R i = Some b" "a \<noteq> R_Release i (bind_runtime_instance_id b)"
  shows "reg_bindings (registry_step a R) i = Some b"
proof (cases a)
  case (R_Bootstrap j)
  with assms show ?thesis by (cases rule: bootstrap_cases [of j R]) (auto simp: Let_def)
next
  case (R_Transfer j ow ep new)
  with assms show ?thesis by (cases rule: transfer_cases [of j ow ep new R]) (auto simp: Let_def)
next
  case (R_Claim j c)
  with assms show ?thesis by (cases rule: claim_cases [of j c R]) auto
next
  case (R_Release j inst)
  with assms show ?thesis by (cases rule: release_cases [of j inst R]) auto
qed

interpretation mreg: fencing_registry registry_step reg_epoch reg_holder releases
proof
  fix R i e a
  assume "reg_epoch R i = Some e"
  then obtain r where "reg_records R i = Some r" "e = own_epoch r" by (auto simp: reg_epoch_def)
  with step_epoch [of R i r a] show "\<exists>e'. reg_epoch (registry_step a R) i = Some e' \<and> e \<le> e'"
    by (auto simp: reg_epoch_def)
next
  fix R i h a
  assume "reg_holder R i = Some h" "\<not> releases a i h"
  then obtain b where "reg_bindings R i = Some b" "h = bind_runtime_instance_id b"
    "a \<noteq> R_Release i (bind_runtime_instance_id b)"
    by (auto simp: reg_holder_def releases_def)
  with step_binding [of R i b a] show "reg_holder (registry_step a R) i = Some h"
    by (simp add: reg_holder_def)
qed

section \<open>The registry invariant\<close>

text \<open>
  Ownership starts with the legacy plugin at epoch 1 and every transfer flips the owner, so
  the epoch determines the owner; only the bootstrapped bot has a record.
\<close>

definition registry_inv :: "memory_poller_registry \<Rightarrow> bool" where
  "registry_inv R \<longleftrightarrow>
     (\<forall>i r. reg_records R i = Some r \<longrightarrow>
        0 < i \<and> own_telegram_bot_id r = i \<and> 0 < own_epoch r
        \<and> (own_owner r = LegacyPlugin \<longleftrightarrow> odd (unat (own_epoch r))))
     \<and> (\<forall>i j. reg_records R i \<noteq> None \<longrightarrow> reg_records R j \<noteq> None \<longrightarrow> i = j)
     \<and> (\<forall>i b. reg_bindings R i = Some b \<longrightarrow>
        (\<exists>r. reg_records R i = Some r \<and> bind_epoch b \<le> own_epoch r)
        \<and> even (unat (bind_epoch b)) \<and> \<not> is_blank (bind_internal_bot_id b)
        \<and> \<not> is_blank (bind_runtime_instance_id b))"

lemma registry_inv_empty: "registry_inv empty_registry"
  by (simp add: registry_inv_def empty_registry_def)

lemma registry_inv_owner:
  assumes "registry_inv R" "reg_records R i = Some r"
  shows "own_owner r = LegacyPlugin \<longleftrightarrow> odd (unat (own_epoch r))"
  using assms unfolding registry_inv_def by blast

lemma registry_inv_step:
  assumes inv: "registry_inv R"
  shows "registry_inv (registry_step a R)"
proof (cases a)
  case (R_Bootstrap j)
  then show ?thesis
  proof (cases rule: bootstrap_cases [of j R])
    case opened
    moreover from this inv have "reg_bindings R i = None" for i
      by (cases "reg_bindings R i") (auto simp: registry_inv_def)
    ultimately show ?thesis using R_Bootstrap by (simp add: registry_inv_def Let_def)
  qed (use R_Bootstrap inv in simp)
next
  case (R_Transfer j ow ep new)
  then show ?thesis
  proof (cases rule: transfer_cases [of j ow ep new R])
    case (moved q ep')
    let ?u = "\<lparr> own_telegram_bot_id = j, own_owner = new, own_epoch = ep' \<rparr>"
    have step: "registry_step a R = R\<lparr> reg_records := (reg_records R)(j \<mapsto> ?u) \<rparr>"
      using R_Transfer moved by (simp add: Let_def)
    have "unat ep' = unat ep + 1" using checked_add_u64_Some [OF moved(5)] by simp
    then have "0 < ep'" "ep < ep'" by (simp_all add: word_less_nat_alt)
    moreover have "ow = LegacyPlugin \<longleftrightarrow> odd (unat ep)"
      using registry_inv_owner [OF inv moved(1)] moved(2,3) by simp
    then have "new = LegacyPlugin \<longleftrightarrow> odd (unat ep')"
      using moved(4) \<open>unat ep' = unat ep + 1\<close> by (cases new; cases ow) simp_all
    moreover have "0 < j" using inv moved by (auto simp: registry_inv_def)
    ultimately show ?thesis
      using inv moved(1,3) unfolding step registry_inv_def
      by (intro conjI) (simp_all, force, force)
  qed (use R_Transfer inv in simp)
next
  case (R_Claim j b)
  then show ?thesis
  proof (cases rule: claim_cases [of j b R])
    case claimed
    then obtain r where r: "reg_records R j = Some r" "own_owner r = RustBridge" "own_epoch r = bind_epoch b"
      by (auto simp: assert_can_start_iff)
    moreover from this have "even (unat (bind_epoch b))" using registry_inv_owner [OF inv r(1)] by simp
    ultimately show ?thesis using R_Claim inv claimed(3-) by (auto simp: registry_inv_def)
  qed (use inv in simp)
next
  case (R_Release j inst)
  then show ?thesis
    using inv by (cases rule: release_cases [of j inst R]) (auto simp: registry_inv_def)
qed

lemma registry_inv_run: "registry_inv R \<Longrightarrow> registry_inv (fold registry_step as R)"
  by (induction as arbitrary: R) (simp_all add: registry_inv_step)

lemma assert_fence_iff:
  "assert_fence i owner b R = Inr () \<longleftrightarrow>
     bind_lifecycle b = Running \<and> assert_can_start i owner (bind_epoch b) R = Inr ()
     \<and> (\<exists>c. reg_bindings R i = Some c \<and> bind_internal_bot_id c = bind_internal_bot_id b
          \<and> bind_runtime_instance_id c = bind_runtime_instance_id b \<and> bind_epoch c = bind_epoch b)"
  by (auto simp: assert_fence_def accepts_writes_def bind_r_Inr_iff)

lemma assert_valid_epoch: "assert_valid g R = Inr () \<Longrightarrow> reg_epoch R (g_numeric_bot_id g) = Some (g_epoch g)"
  by (auto simp: assert_valid_def assert_fence_iff assert_can_start_iff reg_epoch_def guard_binding_def)

lemma assert_valid_holder:
  "assert_valid g R = Inr () \<Longrightarrow> reg_holder R (g_numeric_bot_id g) = Some (g_runtime_instance_id g)"
  by (auto simp: assert_valid_def assert_fence_iff reg_holder_def guard_binding_def)

lemma fenced_after_transfer:
  assumes "transfer i ow ep new R = (Inr u, R')"
    and "g_numeric_bot_id g = i" "g_epoch g \<le> ep"
  shows "assert_valid g (fold registry_step as R') \<noteq> Inr ()"
proof
  assume valid: "assert_valid g (fold registry_step as R') = Inr ()"
  from assms(1) obtain ep' where "reg_epoch R' i = Some ep'" "ep < ep'"
    by (cases rule: transfer_cases [of i ow ep new R])
       (auto simp: Let_def reg_epoch_def dest: checked_add_u64_less)
  then have "reg_epoch (fold registry_step as R') i \<noteq> Some (g_epoch g)"
    using assms(3) by (intro mreg.stale_epoch_never_returns [of R' i ep']) auto
  with assert_valid_epoch [OF valid] assms(2) show False by simp
qed

section \<open>Properties\<close>

text \<open>Every registry reachable from the empty one by bootstraps, transfers, claims and
  releases satisfies the registry invariant: at most one bot has an ownership record, its
  epoch is positive and determines the owner (odd for the legacy plugin, even for the bridge),
  and a runtime binding belongs to an epoch of the bridge not newer than the record's.\<close>

theorem registry_reachable_inv: "registry_inv (fold registry_step as empty_registry)"
  by (intro registry_inv_run registry_inv_empty)

text \<open>Fencing: after ownership of a bot was transferred away from an epoch, no guard that
  carries this epoch or an older one passes \<^verbatim>\<open>assert_valid\<close> again, whatever operations the
  registry goes through afterwards.\<close>

theorem transfer_fences_old_epochs:
  assumes "transfer i ow ep new R = (Inr u, R')"
    and "g_numeric_bot_id g = i" "g_epoch g \<le> ep"
  shows "assert_valid g (fold registry_step as R') \<noteq> Inr ()"
  using assms by (rule fenced_after_transfer)

definition demo_guard :: "string \<Rightarrow> u64 \<Rightarrow> poller_ownership_guard" where
  "demo_guard inst ep =
     new_with_binding 42 RustBridge (binding_running (binding_new ''bot'' inst ep))"

definition demo_registry :: memory_poller_registry where
  "demo_registry = fold registry_step
     [R_Bootstrap 42, R_Transfer 42 LegacyPlugin 1 RustBridge,
      R_Claim 42 (binding_new ''bot'' ''one'' 2)] empty_registry"

lemma demo_not_blank:
  "is_blank []" "\<not> is_blank ''bot''" "\<not> is_blank ''one''" "\<not> is_blank ''two''"
  by code_simp+

lemmas registry_eval = demo_not_blank Let_def
  bootstrap_legacy_def transfer_def registry_claim_runtime_def registry_release_runtime_def
  require_numeric_bot_id_def assert_can_start_def checked_add_u64_def binding_new_def
  binding_running_def can_own_def empty_registry_def bind_r_def ok_or_def
  new_with_binding_def guard_binding_def assert_valid_def assert_fence_def accepts_writes_def

text \<open>The guard is valid before the transfer and stays fenced when the bridge owns the bot again.\<close>

theorem transfer_fences_old_epochs_witness:
  "assert_valid (demo_guard ''one'' 2) demo_registry = Inr ()
   \<and> assert_valid (demo_guard ''one'' 2)
       (fold registry_step [R_Transfer 42 LegacyPlugin 3 RustBridge]
         (snd (transfer 42 RustBridge 2 LegacyPlugin demo_registry))) \<noteq> Inr ()"
proof -
  have "\<exists>u. transfer 42 RustBridge 2 LegacyPlugin demo_registry
      = (Inr u, snd (transfer 42 RustBridge 2 LegacyPlugin demo_registry))"
    by (simp add: demo_registry_def registry_eval)
  then obtain u where u: "transfer 42 RustBridge 2 LegacyPlugin demo_registry
      = (Inr u, snd (transfer 42 RustBridge 2 LegacyPlugin demo_registry))" ..
  have "assert_valid (demo_guard ''one'' 2) demo_registry = Inr ()"
    by (simp add: demo_registry_def demo_guard_def registry_eval)
  with transfer_fences_old_epochs [OF u, where g = "demo_guard ''one'' 2"
      and as = "[R_Transfer 42 LegacyPlugin 3 RustBridge]"]
  show ?thesis by (simp add: demo_guard_def new_with_binding_def binding_running_def binding_new_def)
qed

text \<open>Single writer: once a guard has claimed the runtime of a bot, then until its own
  instance releases it no other instance's claim succeeds and no guard of another instance
  passes \<^verbatim>\<open>assert_valid\<close>, whatever else happens to the registry.\<close>

theorem claimed_runtime_is_exclusive:
  assumes "guard_claim_runtime g R = (Inr (), R')"
    and "R_Release (g_numeric_bot_id g) (g_runtime_instance_id g) \<notin> set as"
    and "g_numeric_bot_id h = g_numeric_bot_id g"
    and "g_runtime_instance_id h \<noteq> g_runtime_instance_id g"
  shows "assert_valid h (fold registry_step as R') \<noteq> Inr ()
    \<and> fst (guard_claim_runtime h (fold registry_step as R')) \<noteq> Inr ()"
proof -
  let ?R = "fold registry_step as R'" and ?i = "g_numeric_bot_id g"
  have "reg_holder R' ?i = Some (g_runtime_instance_id g)"
    using assms(1) unfolding guard_claim_runtime_def
    by (cases rule: claim_cases [of ?i "guard_binding [] g" R])
       (auto simp: reg_holder_def guard_binding_def)
  then have held: "reg_holder ?R ?i = Some (g_runtime_instance_id g)"
    using assms(2) by (intro mreg.run_holder) (auto simp: releases_def list_all_iff)
  then have "assert_valid h ?R \<noteq> Inr ()"
    using assert_valid_holder [of h ?R] assms(3,4) by auto
  moreover have "fst (guard_claim_runtime h ?R) \<noteq> Inr ()"
    using held assms(3) unfolding guard_claim_runtime_def
    by (cases rule: claim_cases [of "g_numeric_bot_id h" "guard_binding [] h" ?R])
       (auto simp: reg_holder_def)
  ultimately show ?thesis ..
qed

theorem claimed_runtime_is_exclusive_witness:
  "\<exists>R R'. guard_claim_runtime (demo_guard ''one'' 2) R = (Inr (), R')
   \<and> assert_valid (demo_guard ''two'' 2) (fold registry_step [R_Release 42 ''two''] R') \<noteq> Inr ()
   \<and> fst (guard_claim_runtime (demo_guard ''two'' 2) (fold registry_step [R_Release 42 ''two''] R')) \<noteq> Inr ()"
proof -
  let ?R = "fold registry_step [R_Bootstrap 42, R_Transfer 42 LegacyPlugin 1 RustBridge] empty_registry"
  have "fst (guard_claim_runtime (demo_guard ''one'' 2) ?R) = Inr ()"
    by (simp add: guard_claim_runtime_def demo_guard_def registry_eval)
  then have c: "guard_claim_runtime (demo_guard ''one'' 2) ?R
      = (Inr (), snd (guard_claim_runtime (demo_guard ''one'' 2) ?R))"
    by (metis prod.collapse)
  from claimed_runtime_is_exclusive [OF c, where as = "[R_Release 42 ''two'']" and h = "demo_guard ''two'' 2"] c
  show ?thesis
    by (auto simp: demo_guard_def new_with_binding_def binding_running_def binding_new_def)
qed

text \<open>The write fence a guard hands to the store is valid and exists only while the guard is
  running: it names the bridge as owner, and draining or stopping the guard withdraws it, makes
  \<^verbatim>\<open>assert_valid\<close> fail, and no sequence of drain and stop requests brings it back.\<close>

theorem drained_guard_never_writes:
  "(\<forall>f. runtime_fence g = Some f \<longrightarrow> fence_is_valid f \<and> g_lifecycle g = Running)
   \<and> (let g' = fold (\<lambda>stop g. snd (if stop then mark_stopped g else begin_draining g)) stops
                 (snd (begin_draining g))
      in runtime_fence g' = None \<and> assert_valid g' R = Inl LifecycleInvalid)"
proof -
  let ?step = "\<lambda>stop g. snd (if stop then mark_stopped g else begin_draining g)"
  have done_step: "g_lifecycle (?step stop h) \<in> {Draining, Stopped}"
    if "g_lifecycle h \<in> {Draining, Stopped}" for stop h
    using that by (cases stop; cases "g_lifecycle h") (auto simp: mark_stopped_def begin_draining_def)
  have "g_lifecycle (fold ?step stops h) \<in> {Draining, Stopped}"
    if "g_lifecycle h \<in> {Draining, Stopped}" for h
    using that by (induction stops arbitrary: h) (use done_step in auto)
  moreover have "g_lifecycle (snd (begin_draining g)) \<in> {Draining, Stopped}"
    by (cases "g_lifecycle g") (auto simp: begin_draining_def)
  ultimately have "g_lifecycle (fold ?step stops (snd (begin_draining g))) \<noteq> Running"
    by force
  then show ?thesis
    by (auto simp: runtime_fence_def fence_is_valid_def word_gt_0 assert_valid_def assert_fence_def
        guard_binding_def accepts_writes_def Let_def split: if_splits)
qed

theorem drained_guard_never_writes_witness:
  "runtime_fence (demo_guard ''one'' 2) \<noteq> None
   \<and> runtime_fence (snd (mark_stopped (snd (begin_draining (demo_guard ''one'' 2))))) = None"
proof -
  have "runtime_fence (demo_guard ''one'' 2) \<noteq> None"
    by (simp add: runtime_fence_def demo_guard_def registry_eval)
  with drained_guard_never_writes [of "demo_guard ''one'' 2" "[True]" empty_registry]
  show ?thesis by (simp add: Let_def)
qed

end
