(* ===== verification/Operation_Recovery.thy ===== *)
theory Operation_Recovery
  imports Operation_Coordinator Poller_Ownership
begin

text \<open>
  \<^verbatim>\<open>src/modules/bridge/operation_recovery.rs\<close>: what a runtime does with the operations a
  previous run left behind. Each candidate is taken under an execution lease, the poller fence
  is checked, a generated operation is replayed and a committing one reconciled. The poller
  registry is read off the external state by \<open>reg\<close>; \<open>clk n m\<close> is the \<open>m\<close>-th clock reading for
  the \<open>n\<close>-th record and \<open>until\<close> the formatted lease deadline.
\<close>

section \<open>One candidate\<close>

definition st_error_to_string :: "st_bridge_error \<Rightarrow> string" where
  "st_error_to_string e = code_as_str (err_code e) @ '': '' @ safe_message e"

definition recover_record ::
    "'w coordinator \<Rightarrow> ('w \<Rightarrow> fence_check) \<Rightarrow> (nat \<Rightarrow> string) \<Rightarrow> (nat \<Rightarrow> ids)
      \<Rightarrow> poller_ownership_guard \<Rightarrow> string \<Rightarrow> poller_runtime_fence \<Rightarrow> bridge_operation_record
      \<Rightarrow> 'w world \<Rightarrow> bool app_result call \<times> 'w world" where
  "recover_record K reg clk uid g bot_id fence r w =
     (case assert_commit_fence g (reg (w_ext w)) of
        Inl e \<Rightarrow>
          (Returns (Inl (conflict ''ST_POLLER_EPOCH_MISMATCH''
             (''operation recovery fence rejected: '' @ poller_error_as_str e))), w)
      | Inr _ \<Rightarrow>
          (case rec_status r of
             Generated \<Rightarrow>
               (case replay_generated K clk uid r bot_id fence w of
                  (Panicked, w') \<Rightarrow> (Panicked, w')
                | (Returns (Inl e), w') \<Rightarrow>
                    (Returns (Inl (bad_gateway ''OPERATION_RECOVERY_REPLAY_FAILED''
                       (''operation '' @ rec_id r @ '' replay failed: '' @ code_as_str (err_code e)))), w')
                | (Returns (Inr _), w') \<Rightarrow> (Returns (Inr True), w'))
           | Committing \<Rightarrow>
               (case reconcile_commit K (clk 0) r (record_locator_hash K r) w of
                  (Inl e, w') \<Rightarrow>
                    (Returns (Inl (bad_gateway ''OPERATION_RECOVERY_RECONCILE_FAILED''
                       (''operation '' @ rec_id r @ '' reconciliation failed: '' @ app_code e))), w')
                | (Inr outcome, w') \<Rightarrow> (Returns (Inr (outcome \<noteq> None)), w'))
           | _ \<Rightarrow> (Returns (Inr False), w)))"

definition release_lease :: "operation_execution_lease \<Rightarrow> ('w, unit) app_m" where
  "release_lease l =
     app_bind (on_store (release_execution_lease l)) (\<lambda>released.
       if \<not> released
       then app_fail (conflict ''OPERATION_LEASE_LOST''
              ''operation execution lease changed before release'')
       else app_return ())"

section \<open>Recovery of a bot\<close>

fun recover_loop ::
    "'w coordinator \<Rightarrow> ('w \<Rightarrow> fence_check) \<Rightarrow> (nat \<Rightarrow> nat \<Rightarrow> string)
      \<Rightarrow> (nat \<Rightarrow> nat \<Rightarrow> ids) \<Rightarrow> poller_ownership_guard \<Rightarrow> string \<Rightarrow> poller_runtime_fence \<Rightarrow> string
      \<Rightarrow> nat \<Rightarrow> bridge_operation_record list \<Rightarrow> 'w world \<Rightarrow> string list app_result call \<times> 'w world"
where
  "recover_loop K reg clk uid g bot_id fence until n [] w = (Returns (Inr []), w)"
| "recover_loop K reg clk uid g bot_id fence until n (r # rs) w =
     (case on_store (try_acquire_execution_lease (clk n 0) (rec_id r) bot_id
                       (g_runtime_instance_id g) until) w of
        (Inl e, w1) \<Rightarrow> (Returns (Inl e), w1)
      | (Inr None, w1) \<Rightarrow> recover_loop K reg clk uid g bot_id fence until (Suc n) rs w1
      | (Inr (Some lease), w1) \<Rightarrow>
          (case recover_record K reg (\<lambda>m. clk n (Suc m)) (uid n) g bot_id fence r w1 of
             (Panicked, w2) \<Rightarrow> (Panicked, w2)
           | (Returns x, w2) \<Rightarrow>
               (case release_lease lease w2 of
                  (Inl e, w3) \<Rightarrow> (Returns (Inl e), w3)
                | (Inr _, w3) \<Rightarrow>
                    (case recover_loop K reg clk uid g bot_id fence until (Suc n) rs w3 of
                       (Returns (Inr recovered), w4) \<Rightarrow>
                         (Returns (Inr (if x = Inr True then rec_id r # recovered else recovered)), w4)
                     | (other, w4) \<Rightarrow> (other, w4)))))"

definition recover_for_bot ::
    "'w coordinator \<Rightarrow> ('w \<Rightarrow> fence_check) \<Rightarrow> (nat \<Rightarrow> nat \<Rightarrow> string)
      \<Rightarrow> (nat \<Rightarrow> nat \<Rightarrow> ids) \<Rightarrow> string option \<Rightarrow> poller_ownership_guard \<Rightarrow> string
      \<Rightarrow> 'w world \<Rightarrow> string list app_result call \<times> 'w world" where
  "recover_for_bot K reg clk uid deadline g bot_id w =
     (if is_blank bot_id \<or> g_internal_bot_id g \<noteq> bot_id
      then (Returns (Inl (bad_request ''OPERATION_RECOVERY_SCOPE_INVALID''
              ''operation recovery bot scope is invalid'')), w)
      else
        (case runtime_fence g of
           None \<Rightarrow> (Returns (Inl (service_unavailable ''ST_POLLER_EPOCH_MISMATCH''
              ''operation recovery requires a running runtime fence'')), w)
         | Some fence \<Rightarrow>
             (case deadline of
                None \<Rightarrow> (Returns (Inl (internal ''operation lease deadline format failed'')), w)
              | Some until \<Rightarrow>
                  (case on_store (list_recovery_candidates_for_bot bot_id 128) w of
                     (Inl e, w1) \<Rightarrow> (Returns (Inl e), w1)
                   | (Inr records, w1) \<Rightarrow>
                       recover_loop K reg clk uid g bot_id fence until 0 records w1))))"

section \<open>The other recovery entry points\<close>

definition find_dangling_committing_operations ::
    "(app_error, bridge_operation_record list) store_m" where
  "find_dangling_committing_operations = list_by_status Committing"

definition find_generated_operations :: "(app_error, bridge_operation_record list) store_m" where
  "find_generated_operations = list_by_status Generated"

definition find_undelivered_committed_operations ::
    "(app_error, bridge_operation_record list) store_m" where
  "find_undelivered_committed_operations = list_by_status Committed"

definition find_unknown_commit_operations ::
    "(app_error, bridge_operation_record list) store_m" where
  "find_unknown_commit_operations = list_unknown_commits"

definition mark_stale_in_flight_as_interrupted ::
    "string \<Rightarrow> string \<Rightarrow> (app_error, string list) store_m" where
  "mark_stale_in_flight_as_interrupted now cutoff = interrupt_stale_generating now cutoff"

fun replay_all ::
    "'w coordinator \<Rightarrow> (nat \<Rightarrow> nat \<Rightarrow> string) \<Rightarrow> (nat \<Rightarrow> nat \<Rightarrow> ids) \<Rightarrow> poller_runtime_fence
      \<Rightarrow> nat \<Rightarrow> bridge_operation_record list \<Rightarrow> 'w world
      \<Rightarrow> string list app_result call \<times> 'w world" where
  "replay_all K clk uid fence n [] w = (Returns (Inr []), w)"
| "replay_all K clk uid fence n (r # rs) w =
     (case replay_generated K (clk n) (uid n) r (rec_bot_id r) fence w of
        (Panicked, w') \<Rightarrow> (Panicked, w')
      | (Returns (Inl e), w') \<Rightarrow>
          (Returns (Inl (internal (''generated operation '' @ rec_id r @ '' recovery failed: ''
             @ st_error_to_string e))), w')
      | (Returns (Inr _), w') \<Rightarrow>
          (case replay_all K clk uid fence (Suc n) rs w' of
             (Returns (Inr recovered), w'') \<Rightarrow> (Returns (Inr (rec_id r # recovered)), w'')
           | (other, w'') \<Rightarrow> (other, w'')))"

definition recover_generated_operations ::
    "'w coordinator \<Rightarrow> (nat \<Rightarrow> nat \<Rightarrow> string) \<Rightarrow> (nat \<Rightarrow> nat \<Rightarrow> ids) \<Rightarrow> poller_ownership_guard
      \<Rightarrow> 'w world \<Rightarrow> string list app_result call \<times> 'w world" where
  "recover_generated_operations K clk uid g w =
     (case runtime_fence g of
        None \<Rightarrow> (Returns (Inl (service_unavailable ''ST_POLLER_EPOCH_MISMATCH''
           ''generated recovery requires a running runtime fence'')), w)
      | Some fence \<Rightarrow>
          (case on_store find_generated_operations w of
             (Inl e, w1) \<Rightarrow> (Returns (Inl e), w1)
           | (Inr records, w1) \<Rightarrow> replay_all K clk uid fence 0 records w1))"

fun reconcile_all ::
    "'w coordinator \<Rightarrow> (nat \<Rightarrow> string) \<Rightarrow> nat \<Rightarrow> bridge_operation_record list
      \<Rightarrow> ('w, string list) app_m" where
  "reconcile_all K clk n [] = app_return []"
| "reconcile_all K clk n (r # rs) =
     app_bind (reconcile_commit K (clk n) r (record_locator_hash K r)) (\<lambda>outcome.
     app_bind (reconcile_all K clk (Suc n) rs) (\<lambda>reconciled.
       app_return (if outcome \<noteq> None then rec_id r # reconciled else reconciled)))"

definition reconcile_committing_operations ::
    "'w coordinator \<Rightarrow> (nat \<Rightarrow> string) \<Rightarrow> ('w, string list) app_m" where
  "reconcile_committing_operations K clk =
     app_bind (on_store find_dangling_committing_operations) (reconcile_all K clk 0)"

section \<open>Lemmas\<close>

lemma replay_generated_InrD:
  assumes "environment_ok K" "store_inv (w_db w)"
    and "replay_generated K clk uid r b fence w = (Returns (Inr res), w')"
  shows "store_phase (w_db w') (rec_id r) = Some (Committed, OCS_Applied)"
proof -
  let ?oid = "rec_id r"
  let ?words = "\<lparr> sw_not_applied = ''replayed commit was not applied'',
                 sw_unknown = ''replayed commit outcome is unknown'',
                 sw_rejected = ''replayed commit was rejected before mutation'' \<rparr>"
  have "st_bind (st_app (uid 0) ?oid (decrypt_recovery_payload_for_operation K r fence)) (\<lambda>payload.
        st_bind (st_store (uid 0) ?oid (mark_committing (clk 0) ?oid)) (\<lambda>_.
          after_backend (replay_backend K r payload)
            (settle_result K clk uid ?oid ?words (replay_applied K clk uid ?oid)))) w = (Returns (Inr res), w')"
    using assms(3) by (simp add: replay_generated_def Let_def st_fail_not_Inr split: if_splits)
  from st_bind_InrD [OF this] obtain p w1
    where p: "st_app (uid 0) ?oid (decrypt_recovery_payload_for_operation K r fence) w = (Returns (Inr p), w1)"
      and rest: "st_bind (st_store (uid 0) ?oid (mark_committing (clk 0) ?oid)) (\<lambda>_.
          after_backend (replay_backend K r p)
            (settle_result K clk uid ?oid ?words (replay_applied K clk uid ?oid))) w1 = (Returns (Inr res), w')"
    by blast
  have "evolves (w_db w) (w_db w1)"
    using st_evolves_app [OF app_evolves_payload(3) [OF assms(1)], of "uid 0" ?oid r fence] p
    unfolding st_evolves_def by (metis snd_conv)
  then have "store_inv (w_db w1)" using assms(2) evolves_inv by blast
  moreover have "st_evolves (replay_backend K r p)"
    using assms(1) by (cases p) (simp_all add: environment_ok_def)
  ultimately show ?thesis using commit_path_InrD [OF _ _ rest] by blast
qed

lemma recover_record_evolves:
  assumes "environment_ok K" "recover_record K reg clk uid g b fence r w = (x, w')"
  shows "evolves (w_db w) (w_db w')"
proof -
  have "evolves (w_db w) (w_db (snd (replay_generated K clk uid r b fence w)))"
    using st_evolves_replay [OF assms(1)] by (simp add: st_evolves_def)
  moreover have "evolves (w_db w) (w_db (snd (reconcile_commit K (clk 0) r (record_locator_hash K r) w)))"
    using app_evolves_reconcile [OF assms(1)] by (simp add: app_evolves_def)
  ultimately show ?thesis
    using assms(2) by (auto simp: recover_record_def
        split: sum.splits prod.splits call.splits bridge_operation_status.splits)
qed

lemma recover_record_TrueD:
  assumes "environment_ok K" "store_inv (w_db w)"
    and "recover_record K reg clk uid g b fence r w = (Returns (Inr True), w')"
  shows "assert_commit_fence g (reg (w_ext w)) = Inr ()"
    and "store_phase (w_db w') (rec_id r) = Some (Committed, OCS_Applied)"
proof -
  show "assert_commit_fence g (reg (w_ext w)) = Inr ()"
    using assms(3) by (auto simp: recover_record_def split: sum.splits)
  consider res where "replay_generated K clk uid r b fence w = (Returns (Inr res), w')"
    | r' where "rec_status r = Committing"
        "reconcile_commit K (clk 0) r (record_locator_hash K r) w = (Inr (Some r'), w')"
    using assms(3) by (auto simp: recover_record_def
        split: sum.splits prod.splits call.splits bridge_operation_status.splits)
  then show "store_phase (w_db w') (rec_id r) = Some (Committed, OCS_Applied)"
    by cases (use assms(1,2) replay_generated_InrD reconcile_commit_SomeD in blast)+
qed

lemma release_lease_evolves: "release_lease l w = (x, w') \<Longrightarrow> evolves (w_db w) (w_db w')"
  using evolves_store_ops(13) [of "w_db w" l]
  by (auto simp: release_lease_def app_bind_def app_fail_def app_return_def on_store_def
      split: prod.splits sum.splits if_splits)

lemma lease_evolves:
  "on_store (try_acquire_execution_lease now i b inst until) w = (x, w') \<Longrightarrow> evolves (w_db w) (w_db w')"
  using evolves_store_ops(12) [of "w_db w" now i b inst until] by (auto simp: on_store_eq)

definition applied_in :: "op_db \<Rightarrow> string \<Rightarrow> bool" where
  "applied_in db i \<longleftrightarrow> (\<exists>st \<in> {Committed, Delivered}. store_phase db i = Some (st, OCS_Applied))"

lemma applied_in_evolves: "evolves db db' \<Longrightarrow> store_inv db \<Longrightarrow> applied_in db i \<Longrightarrow> applied_in db' i"
  unfolding applied_in_def using evolves_committed by blast

lemma recover_loop_InrD:
  assumes "environment_ok K" "store_inv (w_db w)"
    and "recover_loop K reg clk uid g b fence until n rs w = (Returns (Inr recovered), w')"
  shows "store_inv (w_db w') \<and> evolves (w_db w) (w_db w')
    \<and> (\<forall>i \<in> set recovered. applied_in (w_db w') i \<and> i \<in> rec_id ` set rs)"
  using assms(2,3)
proof (induction rs arbitrary: n w recovered w')
  case Nil
  then show ?case by simp
next
  case (Cons r rs)
  obtain x w1 where l: "on_store (try_acquire_execution_lease (clk n 0) (rec_id r) b
      (g_runtime_instance_id g) until) w = (x, w1)" by force
  note e1 = lease_evolves [OF l]
  note inv1 = evolves_inv [OF e1 Cons.prems(1)]
  show ?case
  proof (cases x)
    case (Inl e)
    with l Cons.prems(2) show ?thesis by simp
  next
    case (Inr lease)
    show ?thesis
    proof (cases lease)
      case None
      with l Inr Cons.prems(2) have "recover_loop K reg clk uid g b fence until (Suc n) rs w1 = (Returns (Inr recovered), w')"
        by simp
      from Cons.IH [OF inv1 this] e1 show ?thesis by (auto intro: evolves_trans)
    next
      case (Some lz)
      obtain y w2 where y: "recover_record K reg (\<lambda>m. clk n (Suc m)) (uid n) g b fence r w1 = (y, w2)" by force
      with l Inr Some Cons.prems(2) obtain z w3 where z: "y = Returns z" "release_lease lz w2 = (Inr (), w3)"
        by (auto split: call.splits prod.splits sum.splits)
      obtain q w4 where q: "recover_loop K reg clk uid g b fence until (Suc n) rs w3 = (q, w4)" by force
      with l Inr Some y z Cons.prems(2) obtain ids where ids: "q = Returns (Inr ids)" "w4 = w'"
        "recovered = (if z = Inr True then rec_id r # ids else ids)"
        by (auto split: call.splits sum.splits)
      note e2 = recover_record_evolves [OF assms(1) y]
      note e3 = release_lease_evolves [OF z(2)]
      have inv2: "store_inv (w_db w2)" and inv3: "store_inv (w_db w3)"
        using evolves_inv [OF e2 inv1] evolves_inv [OF evolves_trans [OF e2 e3] inv1] by auto
      note ih = Cons.IH [OF inv3 q [unfolded ids(1,2)]]
      have "applied_in (w_db w') (rec_id r)" if "z = Inr True"
      proof -
        have "store_phase (w_db w2) (rec_id r) = Some (Committed, OCS_Applied)"
          using recover_record_TrueD(2) [OF assms(1) inv1] y z(1) that by blast
        then have "applied_in (w_db w2) (rec_id r)" by (simp add: applied_in_def)
        with ih e3 inv2 show ?thesis using applied_in_evolves evolves_trans by blast
      qed
      with ih e1 e2 e3 ids(3) show ?thesis using evolves_trans by (auto split: if_splits)
    qed
  qed
qed

lemma collect_results_set:
  "collect_results f xs = Inr ys \<Longrightarrow> y \<in> set ys \<Longrightarrow> \<exists>x \<in> set xs. f x = Inr y"
  by (induction xs arbitrary: ys) (auto simp: bind_r_Inr_iff)

lemma candidates_belong_to_bot:
  assumes "store_inv db" "list_recovery_candidates_for_bot b limit db = (Inr rs, db')" "r \<in> set rs"
  shows "\<exists>row. row_of db (rec_id r) = Some row \<and> recovery_candidate b row \<and> into_record row = Inr r"
proof -
  have "store_bind (select_ops (recovery_candidate b)) (\<lambda>rs. store_lift (collect_results into_record
      (take (max 1 (min 256 limit)) (order_by_updated rs)))) db = (Inr rs, db')"
    using assms(2) by (auto simp: list_recovery_candidates_for_bot_def store_lift_def split: if_splits)
  from store_bind_InrD [OF this] obtain rows db1
    where sel: "select_ops (recovery_candidate b) db = (Inr rows, db1)"
      and c: "collect_results into_record (take (max 1 (min 256 limit)) (order_by_updated rows)) = Inr rs"
    by (auto simp: store_lift_def)
  from app_sql_InrD [OF sel [unfolded select_ops_def]]
  have rows: "rows = filter (recovery_candidate b) (ops db)" by auto
  from collect_results_set [OF c assms(3)] obtain row
    where row: "row \<in> set (order_by_updated rows)" "into_record row = Inr r"
    using in_set_takeD by fast
  then have "row \<in> set (ops db)" "recovery_candidate b row"
    by (auto simp: rows order_by_updated_def)
  moreover from this(1) have "row \<in> set (filter (\<lambda>x. op_id x = rec_id r) (ops db))"
    using into_record_fields(1) [OF row(2)] by simp
  ultimately show ?thesis
    using row(2) by (cases "row_of db (rec_id r)") (simp_all only: filter_id_row [OF assms(1)], simp_all)
qed

section \<open>Properties\<close>

text \<open>C19. Recovery reports only what is true: every operation a recovery pass returns as recovered
  was a recovery candidate of that bot and is recorded as committed and applied when the pass
  ends, whatever statements fail and whatever other tasks do meanwhile; and the pass runs at
  all only under a valid running fence of the same bot.\<close>

theorem recovered_operations_are_applied:
  assumes "environment_ok K" "store_inv (w_db w)"
    and "recover_for_bot K reg clk uid deadline g bot_id w = (Returns (Inr recovered), w')"
  shows "store_inv (w_db w')
    \<and> (\<exists>fence. runtime_fence g = Some fence \<and> fence_is_valid fence \<and> fence_internal_bot_id fence = bot_id)
    \<and> (\<forall>i \<in> set recovered. applied_in (w_db w') i
         \<and> (\<exists>row. row_of (w_db w) i = Some row \<and> recovery_candidate bot_id row))"
proof -
  from assms(3) obtain fence until rs w1
    where f: "g_internal_bot_id g = bot_id" "runtime_fence g = Some fence"
      and l: "on_store (list_recovery_candidates_for_bot bot_id 128) w = (Inr rs, w1)"
      and loop: "recover_loop K reg clk uid g bot_id fence until 0 rs w1 = (Returns (Inr recovered), w')"
    by (auto simp: recover_for_bot_def split: if_splits option.splits prod.splits sum.splits)
  from l obtain db where db: "list_recovery_candidates_for_bot bot_id 128 (w_db w) = (Inr rs, db)" "w_db w1 = db"
    by (auto simp: on_store_eq)
  have "read_only (list_recovery_candidates_for_bot bot_id 128)"
    unfolding list_recovery_candidates_for_bot_def by (auto intro!: read_only_bind)
  then have "store_inv (w_db w1)"
    using evolves_inv [OF evolves_read] assms(2) db by (metis snd_conv)
  from recover_loop_InrD [OF assms(1) this loop] candidates_belong_to_bot [OF assms(2) db(1)] f
  show ?thesis by (fastforce simp: runtime_fence_def fence_is_valid_def word_gt_0 split: if_splits)
qed

definition demo_journal_entry :: st_operation_journal_record where
  "demo_journal_entry = \<lparr> sj_operation_id = ''op-1'', sj_locator_hash = locator_encoding ''h'' ''a'' ''f'',
     sj_mutation_digest = ''digest'', sj_status = SJ_Applied, sj_before_sha256 = None,
     sj_before_integrity = None, sj_after_sha256 = Some ''s2'', sj_after_integrity = Some ''i2'',
     sj_after_byte_length = None, sj_after_message_count = None \<rparr>"

definition demo_ownership :: memory_poller_registry where
  "demo_ownership =
     \<lparr> reg_records = [42 \<mapsto> \<lparr> own_telegram_bot_id = 42, own_owner = RustBridge, own_epoch = 2 \<rparr>],
       reg_bindings = [42 \<mapsto> binding_new ''bot'' ''one'' 2], reg_bootstrapped = True \<rparr>"

definition demo_recovery :: "unit coordinator" where
  "demo_recovery = (demo_coordinator (Inr (demo_result SC_Applied)))
     \<lparr> co_journal_lookup := (\<lambda>i w. (Inr (Some demo_journal_entry), w)),
       co_payload_encryptor := Some (encryptor_new ''key'' 1), co_key_provider := None \<rparr>"

lemma demo_recovery_environment: "environment_ok demo_recovery"
  using demo_environment by (simp add: demo_recovery_def environment_ok_def app_evolves_def)

text \<open>An operation left committing with an unknown outcome is reconciled from the journal.\<close>

theorem recovered_operations_are_applied_witness:
  "\<exists>w'. recover_for_bot demo_recovery (\<lambda>_. memory_fence demo_ownership) (\<lambda>_ _. ''10'') (\<lambda>_ _. (''rq'', ''tr''))
       (Some ''20'') (demo_guard ''one'' 2) ''bot'' (demo_world 5 []) = (Returns (Inr [''op-1'']), w')
     \<and> applied_in (w_db w') ''op-1''"
proof -
  let ?c = "recover_for_bot demo_recovery (\<lambda>_. memory_fence demo_ownership) (\<lambda>_ _. ''10'') (\<lambda>_ _. (''rq'', ''tr''))
       (Some ''20'') (demo_guard ''one'' 2) ''bot'' (demo_world 5 [])"
  have "(case fst ?c of Returns (Inr ids) \<Rightarrow> ids = [''op-1''] | _ \<Rightarrow> False)" by code_simp
  then have c: "?c = (Returns (Inr [''op-1'']), snd ?c)"
    by (cases ?c) (auto split: call.splits sum.splits)
  with recovered_operations_are_applied [OF demo_recovery_environment demo_world_inv c] show ?thesis
    by auto
qed

text \<open>Without a running fence for the bot, recovery is refused before it reads or writes
  anything.\<close>

theorem recovery_refused_without_fence:
  assumes "runtime_fence g = None \<or> g_internal_bot_id g \<noteq> bot_id \<or> is_blank bot_id"
  shows "\<exists>e. recover_for_bot K reg clk uid deadline g bot_id w = (Returns (Inl e), w)
    \<and> app_code e \<in> {''OPERATION_RECOVERY_SCOPE_INVALID'', ''ST_POLLER_EPOCH_MISMATCH''}"
  using assms by (auto simp: recover_for_bot_def app_error_defs split: option.splits)

theorem recovery_refused_without_fence_witness:
  "\<exists>e. recover_for_bot demo_recovery (\<lambda>_. memory_fence demo_ownership) (\<lambda>_ _. ''10'') (\<lambda>_ _. (''rq'', ''tr''))
       (Some ''20'') (demo_guard ''one'' 2) ''other'' (demo_world 5 []) = (Returns (Inl e), demo_world 5 [])"
proof -
  have "g_internal_bot_id (demo_guard ''one'' 2) \<noteq> ''other''"
    by (simp add: demo_guard_def new_with_binding_def binding_running_def binding_new_def)
  then have none: "runtime_fence (demo_guard ''one'' 2) = None
      \<or> g_internal_bot_id (demo_guard ''one'' 2) \<noteq> ''other'' \<or> is_blank ''other''" by blast
  from recovery_refused_without_fence [OF none] show ?thesis by blast
qed

text \<open>The authenticated data of a recovery payload includes the runtime fence, so an operation
  generated under one fence cannot be replayed under another: after a restart, whose fence
  names a new runtime instance, the replay of every operation left generated ends with a
  decryption error before the backend is called and before the ledger is touched.\<close>

theorem replay_after_restart_fails:
  assumes "aead_correct (co_crypto K)" "aead_binding (co_crypto K)"
    and "payload_encrypt (co_crypto K) enc nonce m (recovery_aad K r old_fence) = Inr pl"
    and "rec_payload r = Some pl" "rec_status r = Generated"
    and "restore_payload_encryptor_for_operation K (rec_id r) w = (Inr enc, w1)"
    and "fence_runtime_instance_id fence \<noteq> fence_runtime_instance_id old_fence"
    and "fence_is_valid fence" "fence_internal_bot_id fence = rec_bot_id r"
    and "\<not> is_blank (rec_id r)" "\<not> is_blank (rec_bot_id r)"
    and "aad_short (recovery_aad K r fence)" "aad_short (recovery_aad K r old_fence)"
  shows "replay_generated K clk uid r (rec_bot_id r) fence w
    = (Returns (Inl (bridge_error_from_app (uid 0) decrypt_failed (rec_id r))), w1)"
proof -
  have "recovery_aad K r fence \<noteq> recovery_aad K r old_fence"
    using assms(7) by (auto simp: recovery_aad_def aad_new_with_fence_def aad_new_def)
  then have "aad_encode (recovery_aad K r fence) \<noteq> aad_encode (recovery_aad K r old_fence)"
    using assms(12,13) aad_encode_inj_parts by blast
  then have "payload_decrypt (co_crypto K) enc pl (recovery_aad K r fence) \<noteq> Inr x" for x
    using payload_encrypt_InrD(2,3) [OF assms(3)] assms(2)
    unfolding payload_decrypt_Inr_iff aead_binding_def by metis
  then have "payload_decrypt (co_crypto K) enc pl (recovery_aad K r fence) = Inl decrypt_failed"
    by (cases "payload_decrypt (co_crypto K) enc pl (recovery_aad K r fence)") (auto dest: payload_decrypt_Inl)
  with assms(4-6,8-11) show ?thesis
    by (simp add: replay_generated_def Let_def st_bind_def st_app_def app_bind_def
        decrypt_recovery_payload_for_operation_def recovery_payload_def
        decode_and_validate_recovery_payload_def)
qed

definition demo_record :: "encrypted_operation_payload \<Rightarrow> bridge_operation_record" where
  "demo_record pl = \<lparr> rec_id = ''op-1'', rec_actor_id = ''account'', rec_bot_id = ''bot'',
     rec_telegram_update_id = 7, rec_channel_context_key = ''ctx'', rec_operation_kind = KIND_SEND,
     rec_locator = cl_locator demo_claim, rec_status = Generated, rec_commit_state = OCS_NotStarted,
     rec_source_sha256 = None, rec_source_integrity = None, rec_source_size = None,
     rec_message_count = None, rec_mutation_digest = Some ''digest'', rec_payload = Some pl,
     rec_connector_result_json = None, rec_error_stage = None, rec_error_code = None,
     rec_error_summary = None, rec_retryable = False, rec_attempt_count = 1,
     rec_request_id = ''rq'', rec_trace_id = ''tr'', rec_created_at = ''t'', rec_updated_at = ''t'' \<rparr>"

theorem replay_after_restart_fails_witness:
  "\<exists>pl. replay_generated demo_recovery (\<lambda>_. ''t'') (\<lambda>_. (''rq'', ''tr'')) (demo_record pl) ''bot''
        (demo_fence\<lparr>fence_runtime_instance_id := ''instance-2''\<rparr>) (demo_world 3 [])
     = (Returns (Inl (bridge_error_from_app (''rq'', ''tr'') decrypt_failed ''op-1'')), demo_world 3 [])"
proof -
  let ?enc = "encryptor_new ''key'' 1" and ?new = "demo_fence\<lparr>fence_runtime_instance_id := ''instance-2''\<rparr>"
  have K: "co_crypto demo_recovery = plain_crypto"
    by (simp add: demo_recovery_def demo_coordinator_def)
  define a where "a = (\<lambda>fence. aad_new_with_fence ''op-1'' (locator_encoding ''h'' ''a'' ''f'') KIND_SEND ''account'' fence)"
  have aad: "recovery_aad demo_recovery (demo_record pl) fence = a fence" for pl fence
    by (simp add: a_def recovery_aad_def demo_record_def record_locator_hash_def locator_hash_def
        K plain_crypto_def demo_claim_def)
  have len: "length (locator_encoding ''h'' ''a'' ''f'') < 2 ^ 64"
    by (simp add: locator_encoding_def length_length_prefixed)
  then have short: "aad_short (a demo_fence)" "aad_short (a ?new)"
    by (simp_all add: aad_short_def short_parts_def aad_parts_def fence_parts_def a_def
        aad_new_with_fence_def aad_new_def demo_fence_def KIND_SEND_def int_to_string_def
        nat_to_string.simps)
  have "validate_aad (a demo_fence) = Inr ()" unfolding a_def by code_simp
  then obtain pl where pl: "payload_encrypt plain_crypto ?enc ''nonce'' ''m'' (a demo_fence) = Inr pl"
    by (simp add: payload_encrypt_def plain_crypto_def)
  have blank: "\<not> is_blank ''op-1''" "\<not> is_blank ''bot''" "fence_is_valid ?new" by code_simp+
  let ?r = "demo_record pl"
  have r: "rec_payload ?r = Some pl" "rec_status ?r = Generated" "rec_id ?r = ''op-1''" "rec_bot_id ?r = ''bot''"
    by (simp_all add: demo_record_def)
  have restore: "restore_payload_encryptor_for_operation demo_recovery (rec_id ?r) (demo_world 3 [])
      = (Inr ?enc, demo_world 3 [])"
    by (simp add: demo_recovery_def restore_payload_encryptor_for_operation_def app_return_def)
  have other: "fence_runtime_instance_id ?new \<noteq> fence_runtime_instance_id demo_fence"
    "fence_internal_bot_id ?new = rec_bot_id ?r"
    by (simp_all add: demo_fence_def demo_record_def)
  from replay_after_restart_fails [of demo_recovery ?enc "''nonce''" "''m''" ?r demo_fence pl,
      unfolded K aad, OF plain_crypto_laws pl r(1,2) restore other(1) blank(3) other(2) _ _ short(2,1),
      of "\<lambda>_. ''t''" "\<lambda>_. (''rq'', ''tr'')"] blank r
  show ?thesis by auto
qed

end
