(* ===== verification/Telegram_Inbox.thy ===== *)
theory Telegram_Inbox
  imports Poller_Ownership Json_Value
begin

text \<open>
  The durable Telegram inbox of \<^verbatim>\<open>src/modules/telegram/mod.rs\<close>: the tables
  \<^verbatim>\<open>telegram_updates\<close> and \<^verbatim>\<open>telegram_bot_offsets\<close> and the functions that write them
  (\<^verbatim>\<open>ingest_update\<close>, \<^verbatim>\<open>persist_update_batch\<close>, the claim at the head of
  \<^verbatim>\<open>process_and_deliver\<close>, \<^verbatim>\<open>mark_update_processed\<close>, the failure updates and the
  recovery of pending rows). A statement whose entry of \<open>ib_faults\<close> is \<open>True\<close> fails without
  effect. Printing and parsing of JSON, SHA-256 and SQLite's \<^verbatim>\<open>unixepoch\<close> are arguments.
  The dispatch and delivery of one update, between its claim and its completion, is the
  argument \<open>deliver\<close>: the inbox sees only whether it returned \<^verbatim>\<open>Ok\<close>.
\<close>

named_theorems inbox_defs \<open>definitions of the inbox\<close>

section \<open>Tables and statements\<close>

record update_row =
  u_bot_id :: string
  u_update_id :: i64
  u_raw_json :: string
  u_raw_sha256 :: "string option"
  u_status :: string
  u_attempt_count :: i64
  u_error_summary :: "string option"
  u_received_at :: string
  u_updated_at :: string

record offset_row =
  o_bot_id :: string
  o_next_offset :: i64
  o_updated_at :: string

record inbox_db =
  updates :: "update_row list"
  offsets :: "offset_row list"
  ib_bots :: "string list"
  ib_faults :: "bool list"

type_synonym 'a inbox_m = "inbox_db \<Rightarrow> 'a app_result \<times> inbox_db"

definition ib_return :: "'a \<Rightarrow> 'a inbox_m" where [inbox_defs]:
  "ib_return a db = (Inr a, db)"

definition ib_fail :: "app_error \<Rightarrow> 'a inbox_m" where [inbox_defs]:
  "ib_fail e db = (Inl e, db)"

definition ib_bind :: "'a inbox_m \<Rightarrow> ('a \<Rightarrow> 'b inbox_m) \<Rightarrow> 'b inbox_m" where [inbox_defs]:
  "ib_bind m f db = (case m db of (Inl e, db') \<Rightarrow> (Inl e, db') | (Inr a, db') \<Rightarrow> f a db')"

definition ib_stmt :: "(inbox_db \<Rightarrow> 'a app_result \<times> inbox_db) \<Rightarrow> 'a inbox_m" where [inbox_defs]:
  "ib_stmt body db =
     (case ib_faults db of
        [] \<Rightarrow> body db
      | f # fs \<Rightarrow> if f then (Inl db_error, db\<lparr>ib_faults := fs\<rparr>) else body (db\<lparr>ib_faults := fs\<rparr>))"

text \<open>\<^verbatim>\<open>pool.begin()\<close>, the body, \<^verbatim>\<open>tx.commit()\<close>: an error of the body drops the transaction
  and a failed commit rolls it back; either way the tables are those of its beginning.\<close>

definition transaction :: "'a inbox_m \<Rightarrow> 'a inbox_m" where [inbox_defs]:
  "transaction m db =
     (case ib_stmt (ib_return ()) db of
        (Inl e, db1) \<Rightarrow> (Inl e, db1)
      | (Inr _, db1) \<Rightarrow>
          (case m db1 of
             (Inl e, db2) \<Rightarrow> (Inl e, db1\<lparr>ib_faults := ib_faults db2\<rparr>)
           | (Inr a, db2) \<Rightarrow>
               (case ib_stmt (ib_return ()) db2 of
                  (Inl e, db3) \<Rightarrow> (Inl e, db1\<lparr>ib_faults := ib_faults db3\<rparr>)
                | (Inr _, db3) \<Rightarrow> (Inr a, db3))))"

definition row_key :: "update_row \<Rightarrow> string \<times> i64" where
  "row_key r = (u_bot_id r, u_update_id r)"

definition find_row :: "inbox_db \<Rightarrow> string \<Rightarrow> i64 \<Rightarrow> update_row option" where
  "find_row db bid i = find (\<lambda>r. row_key r = (bid, i)) (updates db)"

definition select_update :: "string \<Rightarrow> i64 \<Rightarrow> update_row option inbox_m" where [inbox_defs]:
  "select_update bid i = ib_stmt (\<lambda>db. (Inr (find_row db bid i), db))"

definition insert_update :: "update_row \<Rightarrow> unit inbox_m" where [inbox_defs]:
  "insert_update r = ib_stmt (\<lambda>db.
     if row_key r \<in> set (map row_key (updates db)) \<or> u_bot_id r \<notin> set (ib_bots db) then (Inl db_error, db)
     else (Inr (), db\<lparr>updates := updates db @ [r]\<rparr>))"

definition received_row :: "string \<Rightarrow> string \<Rightarrow> i64 \<Rightarrow> string \<Rightarrow> string \<Rightarrow> update_row" where
  "received_row now bid i raw sha =
     \<lparr>u_bot_id = bid, u_update_id = i, u_raw_json = raw, u_raw_sha256 = Some sha, u_status = ''received'',
      u_attempt_count = 0, u_error_summary = None, u_received_at = now, u_updated_at = now\<rparr>"

definition offset_of :: "inbox_db \<Rightarrow> string \<Rightarrow> i64 option" where
  "offset_of db bid = map_option o_next_offset (find (\<lambda>o'. o_bot_id o' = bid) (offsets db))"

text \<open>\<^verbatim>\<open>INSERT .. ON CONFLICT(bot_id) DO UPDATE SET next_offset = MAX(..)\<close>.\<close>

definition upsert_offset :: "string \<Rightarrow> string \<Rightarrow> i64 \<Rightarrow> unit inbox_m" where [inbox_defs]:
  "upsert_offset now bid n = ib_stmt (\<lambda>db.
     if bid \<notin> set (ib_bots db) then (Inl db_error, db)
     else if offset_of db bid = None
     then (Inr (), db\<lparr>offsets := offsets db @ [\<lparr>o_bot_id = bid, o_next_offset = n, o_updated_at = now\<rparr>]\<rparr>)
     else (Inr (), db\<lparr>offsets := map (\<lambda>o'. if o_bot_id o' = bid
             then o'\<lparr>o_next_offset := max (o_next_offset o') n, o_updated_at := now\<rparr> else o') (offsets db)\<rparr>))"

definition update_rows :: "(update_row \<Rightarrow> bool) \<Rightarrow> (update_row \<Rightarrow> update_row) \<Rightarrow> nat inbox_m" where [inbox_defs]:
  "update_rows P f = ib_stmt (\<lambda>db.
     case sql_update P f (updates db) of (rs, n) \<Rightarrow> (Inr n, db\<lparr>updates := rs\<rparr>))"

section \<open>Ids in updates\<close>

definition update_chat :: "json \<Rightarrow> i64 option" where
  "update_chat u =
     Option.bind
       (case json_pointer u [''message'', ''chat'', ''id''] of
          Some v \<Rightarrow> Some v
        | None \<Rightarrow> json_pointer u [''callback_query'', ''message'', ''chat'', ''id''])
       as_i64"

definition checked_add_one :: "i64 \<Rightarrow> i64 option" where
  "checked_add_one i = (if i < i64_max then Some (i + 1) else None)"

definition parse_numeric_bot_id :: "json \<Rightarrow> i64 app_result" where
  "parse_numeric_bot_id me =
     (case get_i64 me ''id'' of
        Some i \<Rightarrow> if i > 0 then Inr i else
          Inl (bad_gateway ''TELEGRAM_BOT_ID_INVALID'' ''Telegram bot numeric id is missing or invalid'')
      | None \<Rightarrow> Inl (bad_gateway ''TELEGRAM_BOT_ID_INVALID'' ''Telegram bot numeric id is missing or invalid''))"

section \<open>Ingesting updates\<close>

definition id_negative :: app_error where
  "id_negative = bad_request ''TELEGRAM_UPDATE_ID_INVALID'' ''Telegram update id must be non-negative''"

definition id_overflow :: app_error where
  "id_overflow = bad_request ''TELEGRAM_UPDATE_ID_INVALID'' ''Telegram update id overflow''"

definition identity_reused :: app_error where
  "identity_reused = conflict ''TELEGRAM_UPDATE_IDENTITY_REUSED''
     ''Telegram update identity was reused with a different body''"

definition ingest_update ::
    "(json \<Rightarrow> string) \<Rightarrow> (string \<Rightarrow> string) \<Rightarrow> string \<Rightarrow> string \<Rightarrow> i64 \<Rightarrow> json \<Rightarrow> bool inbox_m" where
  "ingest_update print sha now bid i raw =
     (if i < 0 then ib_fail id_negative
      else
        transaction
          (ib_bind (select_update bid i) (\<lambda>existing.
             case existing of
               Some r \<Rightarrow>
                 if u_raw_json r \<noteq> print raw \<or> u_raw_sha256 r \<noteq> Some (sha (print raw))
                 then ib_fail identity_reused
                 else ib_return False
             | None \<Rightarrow>
                 ib_bind (insert_update (received_row now bid i (print raw) (sha (print raw)))) (\<lambda>_.
                   case checked_add_one i of
                     None \<Rightarrow> ib_fail id_overflow
                   | Some n \<Rightarrow> ib_bind (upsert_offset now bid n) (\<lambda>_. ib_return True)))))"

text \<open>One turn of the loop of \<^verbatim>\<open>persist_update_batch\<close>: it extends the list of updates to
  process and the candidate offset.\<close>

definition persist_row ::
    "(json \<Rightarrow> string) \<Rightarrow> (string \<Rightarrow> string) \<Rightarrow> string \<Rightarrow> string \<Rightarrow> i64 \<Rightarrow> json
      \<Rightarrow> (i64 \<times> json) list \<Rightarrow> (i64 \<times> json) list inbox_m" where
  "persist_row print sha now bid i u persisted =
     ib_bind (select_update bid i) (\<lambda>existing.
       case existing of
         Some r \<Rightarrow>
           if u_raw_json r \<noteq> print u \<or> u_raw_sha256 r \<noteq> Some (sha (print u)) then ib_fail identity_reused
           else ib_return (if u_status r \<in> {''received'', ''failed''} then persisted @ [(i, u)] else persisted)
       | None \<Rightarrow>
           ib_bind (insert_update (received_row now bid i (print u) (sha (print u)))) (\<lambda>_.
             ib_return (persisted @ [(i, u)])))"

definition persist_one ::
    "(json \<Rightarrow> string) \<Rightarrow> (string \<Rightarrow> string) \<Rightarrow> string \<Rightarrow> string \<Rightarrow> json
      \<Rightarrow> (i64 \<times> json) list \<times> i64 \<Rightarrow> ((i64 \<times> json) list \<times> i64) inbox_m" where
  "persist_one print sha now bid u acc =
     (case get_i64 u ''update_id'' of
        None \<Rightarrow> ib_return acc
      | Some i \<Rightarrow>
          if i < 0 then ib_fail id_negative
          else
            ib_bind (persist_row print sha now bid i u (fst acc)) (\<lambda>persisted.
              case checked_add_one i of
                None \<Rightarrow> ib_fail id_overflow
              | Some n \<Rightarrow> ib_return (persisted, max (snd acc) n)))"

fun persist_loop ::
    "(json \<Rightarrow> string) \<Rightarrow> (string \<Rightarrow> string) \<Rightarrow> string \<Rightarrow> string \<Rightarrow> json list
      \<Rightarrow> (i64 \<times> json) list \<times> i64 \<Rightarrow> ((i64 \<times> json) list \<times> i64) inbox_m" where
  "persist_loop print sha now bid [] acc = ib_return acc"
| "persist_loop print sha now bid (u # us) acc =
     ib_bind (persist_one print sha now bid u acc) (persist_loop print sha now bid us)"

definition persist_update_batch ::
    "(json \<Rightarrow> string) \<Rightarrow> (string \<Rightarrow> string) \<Rightarrow> string \<Rightarrow> string \<Rightarrow> json list \<Rightarrow> i64
      \<Rightarrow> inbox_db \<Rightarrow> (i64 \<times> json) list app_result \<times> i64 \<times> inbox_db" where
  "persist_update_batch print sha now bid us off db =
     (case transaction
             (ib_bind (persist_loop print sha now bid us ([], off)) (\<lambda>acc.
                ib_bind (upsert_offset now bid (snd acc)) (\<lambda>_. ib_return acc))) db of
        (Inl e, db') \<Rightarrow> (Inl e, off, db')
      | (Inr (persisted, candidate), db') \<Rightarrow> (Inr persisted, candidate, db'))"

text \<open>The grouping by chat of a persisted batch; each group is then processed in order of
  update id by a task of its own.\<close>

definition group_of :: "i64 \<times> json \<Rightarrow> string" where
  "group_of p =
     (case update_chat (snd p) of
        Some c \<Rightarrow> ''chat:'' @ int_to_string c
      | None \<Rightarrow> ''update:'' @ int_to_string (fst p))"

definition group_updates :: "(i64 \<times> json) list \<Rightarrow> (string \<times> (i64 \<times> json) list) list" where
  "group_updates ps =
     map (\<lambda>g. (g, sort_key fst (filter (\<lambda>p. group_of p = g) ps))) (remdups (map group_of ps))"

section \<open>Processing and recovery\<close>

definition claim_update :: "string \<Rightarrow> string \<Rightarrow> i64 \<Rightarrow> nat inbox_m" where
  "claim_update now bid i =
     update_rows
       (\<lambda>r. u_bot_id r = bid \<and> u_update_id r = i \<and> u_status r \<in> {''received'', ''failed''} \<and> u_attempt_count r < 3)
       (\<lambda>r. r\<lparr>u_status := ''processing'', u_attempt_count := u_attempt_count r + 1, u_updated_at := now\<rparr>)"

definition mark_update_processed :: "string \<Rightarrow> string \<Rightarrow> i64 \<Rightarrow> unit inbox_m" where
  "mark_update_processed now bid i =
     ib_bind (update_rows (\<lambda>r. u_bot_id r = bid \<and> u_update_id r = i)
                (\<lambda>r. r\<lparr>u_status := ''processed'', u_updated_at := now\<rparr>)) (\<lambda>_. ib_return ())"

definition mark_update_failed :: "string \<Rightarrow> string \<Rightarrow> string \<Rightarrow> i64 \<Rightarrow> nat inbox_m" where
  "mark_update_failed now code bid i =
     update_rows (\<lambda>r. u_bot_id r = bid \<and> u_update_id r = i)
       (\<lambda>r. r\<lparr>u_status := ''failed'', u_error_summary := Some code, u_updated_at := now\<rparr>)"

definition quarantine_update :: "string \<Rightarrow> string \<Rightarrow> i64 \<Rightarrow> nat inbox_m" where
  "quarantine_update now bid i =
     update_rows (\<lambda>r. u_bot_id r = bid \<and> u_update_id r = i \<and> u_status r \<in> {''received'', ''failed''})
       (\<lambda>r. r\<lparr>u_status := ''failed'', u_attempt_count := 3,
              u_error_summary := Some ''TELEGRAM_INBOX_JSON_INVALID'', u_updated_at := now\<rparr>)"

definition reset_processing :: "string \<Rightarrow> string \<Rightarrow> nat inbox_m" where
  "reset_processing now bid =
     update_rows (\<lambda>r. u_bot_id r = bid \<and> u_status r = ''processing'')
       (\<lambda>r. r\<lparr>u_status := ''received'', u_updated_at := now\<rparr>)"

definition process_and_deliver ::
    "(i64 \<Rightarrow> json \<Rightarrow> unit app_result) \<Rightarrow> string \<Rightarrow> string \<Rightarrow> i64 \<Rightarrow> json \<Rightarrow> unit inbox_m" where
  "process_and_deliver deliver now bid i u =
     ib_bind (claim_update now bid i) (\<lambda>n.
       if n = 0 then ib_return ()
       else case update_chat u of
              None \<Rightarrow> mark_update_processed now bid i
            | Some c \<Rightarrow>
                (case deliver i u of
                   Inl e \<Rightarrow> ib_fail e
                 | Inr _ \<Rightarrow> mark_update_processed now bid i))"

text \<open>\<^verbatim>\<open>process_and_deliver\<close> as both its callers run it: an error is recorded on the row, and a
  failure to record it is only logged.\<close>

definition process_and_record ::
    "(i64 \<Rightarrow> json \<Rightarrow> unit app_result) \<Rightarrow> string \<Rightarrow> string \<Rightarrow> i64 \<Rightarrow> json \<Rightarrow> inbox_db \<Rightarrow> inbox_db" where
  "process_and_record deliver now bid i u db =
     (case process_and_deliver deliver now bid i u db of
        (Inr _, db1) \<Rightarrow> db1
      | (Inl e, db1) \<Rightarrow> snd (mark_update_failed now (app_code e) bid i db1))"

definition due_row :: "(string \<Rightarrow> i64 option) \<Rightarrow> string \<Rightarrow> i64 \<Rightarrow> update_row \<Rightarrow> bool" where
  "due_row unixepoch bid now r \<longleftrightarrow>
     u_bot_id r = bid \<and> u_status r \<in> {''received'', ''failed''} \<and> u_attempt_count r < 3
     \<and> (u_attempt_count r = 0
        \<or> (case unixepoch (u_updated_at r) of None \<Rightarrow> 0 | Some t \<Rightarrow> t)
            + (if u_attempt_count r \<le> 1 then 2 else 4) \<le> now)"

definition pending_inbox_batch ::
    "(string \<Rightarrow> i64 option) \<Rightarrow> string \<Rightarrow> i64 \<Rightarrow> (i64 \<times> string) list inbox_m" where
  "pending_inbox_batch unixepoch bid now = ib_stmt (\<lambda>db.
     (Inr (take 100 (map (\<lambda>r. (u_update_id r, u_raw_json r))
             (sort_key u_update_id (filter (due_row unixepoch bid now) (updates db))))), db))"

definition ownership_lost :: app_error where
  "ownership_lost = conflict ''POLLER_OWNERSHIP_LOST'' ''inbox recovery ownership is no longer valid''"

text \<open>The loop of \<^verbatim>\<open>recover_pending_updates\<close>; \<open>reg n\<close> is the ownership registry as the n-th
  check finds it.\<close>

fun recover_pending_loop ::
    "(string \<Rightarrow> json option) \<Rightarrow> (i64 \<Rightarrow> json \<Rightarrow> unit app_result) \<Rightarrow> (nat \<Rightarrow> fence_check)
      \<Rightarrow> (nat \<Rightarrow> string) \<Rightarrow> string \<Rightarrow> poller_ownership_guard option \<Rightarrow> nat \<Rightarrow> (i64 \<times> string) list \<Rightarrow> unit inbox_m" where
  "recover_pending_loop parse deliver reg clk bid g n [] db = (Inr (), db)"
| "recover_pending_loop parse deliver reg clk bid g n ((i, raw) # rows) db =
     (if (case g of None \<Rightarrow> False | Some g' \<Rightarrow> assert_commit_fence g' (reg n) \<noteq> Inr ()) then (Inl ownership_lost, db)
      else case parse raw of
        None \<Rightarrow>
          (case quarantine_update (clk n) bid i db of
             (Inl e, db1) \<Rightarrow> (Inl e, db1)
           | (Inr _, db1) \<Rightarrow> recover_pending_loop parse deliver reg clk bid g (Suc n) rows db1)
      | Some u \<Rightarrow>
          recover_pending_loop parse deliver reg clk bid g (Suc n) rows
            (process_and_record deliver (clk n) bid i u db))"

definition recover_pending_updates ::
    "(string \<Rightarrow> json option) \<Rightarrow> (i64 \<Rightarrow> json \<Rightarrow> unit app_result) \<Rightarrow> (nat \<Rightarrow> fence_check)
      \<Rightarrow> (nat \<Rightarrow> string) \<Rightarrow> (string \<Rightarrow> i64 option) \<Rightarrow> i64 \<Rightarrow> string \<Rightarrow> poller_ownership_guard option \<Rightarrow> unit inbox_m" where
  "recover_pending_updates parse deliver reg clk unixepoch now bid g =
     ib_bind (pending_inbox_batch unixepoch bid now) (recover_pending_loop parse deliver reg clk bid g 0)"

definition recover_startup_updates ::
    "(string \<Rightarrow> json option) \<Rightarrow> (i64 \<Rightarrow> json \<Rightarrow> unit app_result) \<Rightarrow> (nat \<Rightarrow> fence_check)
      \<Rightarrow> (nat \<Rightarrow> string) \<Rightarrow> (string \<Rightarrow> i64 option) \<Rightarrow> i64 \<Rightarrow> string \<Rightarrow> string \<Rightarrow> poller_ownership_guard option
      \<Rightarrow> unit inbox_m" where
  "recover_startup_updates parse deliver reg clk unixepoch now reset_at bid g =
     ib_bind (reset_processing reset_at bid) (\<lambda>_.
       recover_pending_updates parse deliver reg clk unixepoch now bid g)"

text \<open>The offset a poller starts from.\<close>

definition load_offset :: "string \<Rightarrow> i64 inbox_m" where
  "load_offset bid = ib_stmt (\<lambda>db. (Inr (case offset_of db bid of None \<Rightarrow> 0 | Some n \<Rightarrow> n), db))"

section \<open>Statements and transactions\<close>

definition same_inbox :: "inbox_db \<Rightarrow> inbox_db \<Rightarrow> bool" where
  "same_inbox db db' \<longleftrightarrow> updates db' = updates db \<and> offsets db' = offsets db \<and> ib_bots db' = ib_bots db"

definition attempts_ok :: "update_row \<Rightarrow> bool" where
  "attempts_ok r \<longleftrightarrow> 0 \<le> u_attempt_count r \<and> u_attempt_count r \<le> 3"

definition inbox_ok :: "inbox_db \<Rightarrow> bool" where
  "inbox_ok db \<longleftrightarrow> distinct (map row_key (updates db)) \<and> distinct (map o_bot_id (offsets db))
     \<and> list_all attempts_ok (updates db)"

lemma same_inbox_simps [simp]:
  "same_inbox db db" "same_inbox db (db'\<lparr>ib_faults := fs\<rparr>) = same_inbox db db'"
  "same_inbox (db\<lparr>ib_faults := fs\<rparr>) db' = same_inbox db db'"
  by (simp_all add: same_inbox_def)

lemma same_inbox_trans: "same_inbox db db' \<Longrightarrow> same_inbox db' db'' \<Longrightarrow> same_inbox db db''"
  by (simp add: same_inbox_def)

lemma same_inbox_views:
  assumes "same_inbox db db'"
  shows "find_row db' b i = find_row db b i" "offset_of db' b = offset_of db b" "inbox_ok db' = inbox_ok db"
  using assms by (simp_all add: same_inbox_def find_row_def offset_of_def inbox_ok_def)

lemma ib_stmt_cases:
  assumes "ib_stmt body db = (r, db')"
  obtains (fault) "r = Inl db_error" "same_inbox db db'"
  | (ran) fs where "body (db\<lparr>ib_faults := fs\<rparr>) = (r, db')"
proof (cases "ib_faults db")
  case Nil
  then have "db\<lparr>ib_faults := []\<rparr> = db" by (cases db) simp
  moreover from Nil assms have "body db = (r, db')" by (simp add: ib_stmt_def)
  ultimately show ?thesis using ran [of "[]"] by argo
next
  case (Cons f fs)
  with assms show ?thesis by (auto simp: ib_stmt_def split: if_splits intro: that)
qed

lemma ib_stmt_InrD:
  assumes "ib_stmt body db = (Inr a, db')"
  shows "\<exists>fs. body (db\<lparr>ib_faults := fs\<rparr>) = (Inr a, db')"
  using assms by (cases rule: ib_stmt_cases) auto

lemma ib_bind_InrD:
  assumes "ib_bind m f db = (Inr b, db')"
  obtains a db1 where "m db = (Inr a, db1)" "f a db1 = (Inr b, db')"
  using assms by (auto simp: ib_bind_def split: prod.splits sum.splits)

lemma commit_point:
  assumes "ib_stmt (ib_return ()) db = (r, db')"
  shows "same_inbox db db'"
  using assms by (cases rule: ib_stmt_cases) (auto simp: ib_return_def)

lemma transaction_InlD:
  assumes "transaction m db = (Inl e, db')"
  shows "same_inbox db db'"
  using assms unfolding transaction_def by (auto split: prod.splits sum.splits dest: commit_point)

lemma transaction_InrD:
  assumes "transaction m db = (Inr a, db')"
  obtains db1 db2 where "same_inbox db db1" "m db1 = (Inr a, db2)" "same_inbox db2 db'"
  using assms unfolding transaction_def by (auto split: prod.splits sum.splits dest!: commit_point intro: that)

section \<open>What a batch leaves behind\<close>

text \<open>An update is stored when its row has its exact text.\<close>

definition inbox_stored :: "(json \<Rightarrow> string) \<Rightarrow> string \<Rightarrow> inbox_db \<Rightarrow> json \<Rightarrow> bool" where
  "inbox_stored print bid db u \<longleftrightarrow>
     (case get_i64 u ''update_id'' of
        None \<Rightarrow> False
      | Some i \<Rightarrow> (case find_row db bid i of None \<Rightarrow> False | Some r \<Rightarrow> u_raw_json r = print u))"

definition durable_offset :: "string \<Rightarrow> inbox_db \<Rightarrow> i64" where
  "durable_offset bid db = (case offset_of db bid of None \<Rightarrow> 0 | Some n \<Rightarrow> n)"

lemma find_row_append:
  "find_row (db\<lparr>updates := updates db @ rs\<rparr>) b i
    = (case find_row db b i of None \<Rightarrow> find (\<lambda>r. row_key r = (b, i)) rs | Some r \<Rightarrow> Some r)"
  by (simp add: find_row_def find_append split: option.splits)

definition rows_added :: "inbox_db \<Rightarrow> inbox_db \<Rightarrow> bool" where
  "rows_added db db' \<longleftrightarrow> (\<exists>rs. updates db' = updates db @ rs) \<and> offsets db' = offsets db \<and> ib_bots db' = ib_bots db"

lemma rows_added_same: "same_inbox db db' \<Longrightarrow> rows_added db db'"
  by (simp add: rows_added_def same_inbox_def)

lemma rows_added_trans: "rows_added db db' \<Longrightarrow> rows_added db' db'' \<Longrightarrow> rows_added db db''"
  by (auto simp: rows_added_def)

lemma rows_added_find: "rows_added db db' \<Longrightarrow> find_row db b i = Some r \<Longrightarrow> find_row db' b i = Some r"
  by (auto simp: rows_added_def find_row_def find_append)

lemma rows_added_stored: "rows_added db db' \<Longrightarrow> inbox_stored print bid db u \<Longrightarrow> inbox_stored print bid db' u"
  by (auto simp: inbox_stored_def rows_added_find split: option.splits)

lemma select_update_InrD:
  assumes "select_update b i db = (Inr x, db')"
  shows "x = find_row db b i" "same_inbox db db'"
  using ib_stmt_InrD [OF assms [unfolded select_update_def]] by (auto simp: find_row_def)

lemma insert_update_InrD:
  assumes "insert_update r db = (Inr x, db')" "inbox_ok db" "attempts_ok r"
  shows "rows_added db db'" "inbox_ok db'" "find_row db' (u_bot_id r) (u_update_id r) = Some r"
proof -
  from ib_stmt_InrD [OF assms(1) [unfolded insert_update_def]] obtain fs
    where d: "db' = db\<lparr>ib_faults := fs, updates := updates db @ [r]\<rparr>" "row_key r \<notin> row_key ` set (updates db)"
    by (auto split: if_splits)
  moreover from d(2) have "find (\<lambda>x. row_key x = row_key r) (updates db) = None"
    by (auto simp: find_None_iff image_iff)
  ultimately show "rows_added db db'" "inbox_ok db'" "find_row db' (u_bot_id r) (u_update_id r) = Some r"
    using assms(2,3) by (auto simp: rows_added_def inbox_ok_def find_row_def find_append row_key_def)
qed

lemma upsert_offset_InrD:
  assumes "upsert_offset now b n db = (Inr x, db')" "inbox_ok db"
  shows "updates db' = updates db" "inbox_ok db'"
    and "offset_of db' b = Some (case offset_of db b of None \<Rightarrow> n | Some m \<Rightarrow> max m n)"
proof -
  let ?f = "\<lambda>o'. if o_bot_id o' = b then o'\<lparr>o_next_offset := max (o_next_offset o') n, o_updated_at := now\<rparr> else o'"
  from ib_stmt_InrD [OF assms(1) [unfolded upsert_offset_def]] obtain fs where
    d: "db' = db\<lparr>ib_faults := fs, offsets := (if offset_of db b = None
        then offsets db @ [\<lparr>o_bot_id = b, o_next_offset = n, o_updated_at = now\<rparr>] else map ?f (offsets db))\<rparr>"
    by (auto simp: offset_of_def split: if_splits)
  have keys: "map o_bot_id (map ?f os) = map o_bot_id os" for os by simp
  have found: "find (\<lambda>o'. o_bot_id o' = b) (map ?f os)
      = map_option (\<lambda>o'. o'\<lparr>o_next_offset := max (o_next_offset o') n, o_updated_at := now\<rparr>) (find (\<lambda>o'. o_bot_id o' = b) os)" for os
    by (induction os) auto
  from d show "updates db' = updates db" by simp
  show "inbox_ok db'"
  proof (cases "offset_of db b = None")
    case True
    then have "b \<notin> o_bot_id ` set (offsets db)" by (auto simp: offset_of_def find_None_iff)
    with True d assms(2) show ?thesis by (auto simp: inbox_ok_def)
  next
    case False
    then have "map o_bot_id (offsets db') = map o_bot_id (offsets db)" using d keys by simp
    with d assms(2) show ?thesis by (simp add: inbox_ok_def)
  qed
  show "offset_of db' b = Some (case offset_of db b of None \<Rightarrow> n | Some m \<Rightarrow> max m n)"
  proof (cases "offset_of db b = None")
    case True
    with d show ?thesis by (auto simp: offset_of_def find_append split: option.splits)
  next
    case False
    with d have "offsets db' = map ?f (offsets db)" by simp
    then have "offset_of db' b = map_option o_next_offset (find (\<lambda>o'. o_bot_id o' = b) (map ?f (offsets db)))"
      by (simp only: offset_of_def)
    with False show ?thesis by (auto simp only: found offset_of_def option.map_comp) (auto simp: comp_def)
  qed
qed

lemma checked_add_one_Some: "checked_add_one i = Some n \<Longrightarrow> n = i + 1"
  by (simp add: checked_add_one_def split: if_splits)

lemma persist_row_InrD:
  assumes ok: "inbox_ok db" and run: "persist_row print sha now bid i u ps db = (Inr ps', db')"
    and i: "get_i64 u ''update_id'' = Some i"
  shows "rows_added db db'" "inbox_ok db'" "inbox_stored print bid db' u"
proof -
  from run obtain ex db0 where sel: "select_update bid i db = (Inr ex, db0)"
    and rest: "(case ex of
         Some r \<Rightarrow>
           if u_raw_json r \<noteq> print u \<or> u_raw_sha256 r \<noteq> Some (sha (print u)) then ib_fail identity_reused
           else ib_return (if u_status r \<in> {''received'', ''failed''} then ps @ [(i, u)] else ps)
       | None \<Rightarrow>
           ib_bind (insert_update (received_row now bid i (print u) (sha (print u)))) (\<lambda>_.
             ib_return (ps @ [(i, u)]))) db0 = (Inr ps', db')"
    unfolding persist_row_def by (rule ib_bind_InrD)
  note same = select_update_InrD [OF sel]
  from same(2) ok have ok0: "inbox_ok db0" by (simp add: same_inbox_views)
  have "rows_added db0 db' \<and> inbox_ok db' \<and> inbox_stored print bid db' u"
  proof (cases ex)
    case None
    with rest obtain x where "insert_update (received_row now bid i (print u) (sha (print u))) db0 = (Inr x, db')"
      by (auto simp: ib_return_def elim!: ib_bind_InrD)
    from insert_update_InrD [OF this ok0] i show ?thesis
      by (simp add: received_row_def inbox_stored_def attempts_ok_def)
  next
    case (Some r)
    with rest have "u_raw_json r = print u" "db' = db0"
      by (auto simp: ib_return_def ib_fail_def split: if_splits)
    moreover have "find_row db0 bid i = Some r" using Some same by (simp add: same_inbox_views)
    ultimately show ?thesis using i ok0 by (simp add: inbox_stored_def rows_added_same)
  qed
  then show "rows_added db db'" "inbox_ok db'" "inbox_stored print bid db' u"
    using rows_added_trans [OF rows_added_same [OF same(2)]] by auto
qed

text \<open>One update of a batch: either it has no id and nothing happens, or it is stored.\<close>

lemma persist_one_InrD:
  assumes ok: "inbox_ok db" and run: "persist_one print sha now bid u acc db = (Inr acc', db')"
  shows "rows_added db db' \<and> inbox_ok db'
    \<and> (case get_i64 u ''update_id'' of
         None \<Rightarrow> acc' = acc
       | Some i \<Rightarrow> 0 \<le> i \<and> snd acc' = max (snd acc) (i + 1) \<and> inbox_stored print bid db' u)"
proof (cases "get_i64 u ''update_id''")
  case None
  with run show ?thesis using ok by (simp add: persist_one_def ib_return_def rows_added_same)
next
  case (Some i)
  from run Some have nonneg: "0 \<le> i" by (auto simp: persist_one_def ib_fail_def split: if_splits)
  with run Some have "ib_bind (persist_row print sha now bid i u (fst acc)) (\<lambda>persisted.
      case checked_add_one i of None \<Rightarrow> ib_fail id_overflow | Some n \<Rightarrow> ib_return (persisted, max (snd acc) n)) db
      = (Inr acc', db')" by (simp add: persist_one_def)
  then obtain ps db1 where row: "persist_row print sha now bid i u (fst acc) db = (Inr ps, db1)"
    and "(case checked_add_one i of None \<Rightarrow> ib_fail id_overflow | Some n \<Rightarrow> ib_return (ps, max (snd acc) n)) db1
      = (Inr acc', db')" by (rule ib_bind_InrD)
  then have "snd acc' = max (snd acc) (i + 1)" "db' = db1"
    by (auto simp: ib_return_def ib_fail_def split: option.splits dest: checked_add_one_Some)
  with persist_row_InrD [OF ok row Some] Some nonneg show ?thesis by simp
qed

lemma persist_loop_InrD:
  assumes "inbox_ok db" "persist_loop print sha now bid us acc db = (Inr acc', db')"
  shows "rows_added db db' \<and> inbox_ok db' \<and> snd acc \<le> snd acc'
    \<and> (\<forall>u \<in> set us. \<forall>i. get_i64 u ''update_id'' = Some i \<longrightarrow> i < snd acc' \<and> inbox_stored print bid db' u)
    \<and> (snd acc' = snd acc \<or> (\<exists>u \<in> set us. get_i64 u ''update_id'' = Some (snd acc' - 1)))"
  using assms
proof (induction us arbitrary: acc db)
  case Nil
  then show ?case by (simp add: ib_return_def rows_added_same)
next
  case (Cons u us)
  from Cons.prems(2) obtain acc1 db1 where one: "persist_one print sha now bid u acc db = (Inr acc1, db1)"
    and rest: "persist_loop print sha now bid us acc1 db1 = (Inr acc', db')"
    by (auto elim: ib_bind_InrD)
  note first = persist_one_InrD [OF Cons.prems(1) one]
  note tail = Cons.IH [OF _ rest]
  from first tail have "rows_added db1 db'" by blast
  then have keep: "inbox_stored print bid db1 u \<Longrightarrow> inbox_stored print bid db' u"
    by (rule rows_added_stored)
  show ?case
  proof (cases "get_i64 u ''update_id''")
    case None
    with first tail show ?thesis by (auto intro: rows_added_trans)
  next
    case (Some i)
    with first have "snd acc1 = max (snd acc) (i + 1)" "inbox_stored print bid db' u" using keep by auto
    moreover from first have "inbox_ok db1" by blast
    note tail [OF this]
    ultimately show ?thesis
      using Some first by (auto intro: rows_added_trans simp: max_def split: if_splits)
  qed
qed

lemma persist_batch_Inl:
  assumes "persist_update_batch print sha now bid us off db = (Inl e, off', db')"
  shows "off' = off" "same_inbox db db'"
  using assms by (auto simp: persist_update_batch_def split: prod.splits sum.splits dest: transaction_InlD)

text \<open>A batch that is persisted: every update with an id is stored, and the published offset is
  the larger of the old one and the successor of some id of the batch.\<close>

lemma persist_batch_Inr:
  assumes ok: "inbox_ok db" and run: "persist_update_batch print sha now bid us off db = (Inr ps, off', db')"
  shows "inbox_ok db' \<and> (\<exists>rs. updates db' = updates db @ rs) \<and> off \<le> off'
    \<and> (\<forall>u \<in> set us. \<forall>i. get_i64 u ''update_id'' = Some i \<longrightarrow> i < off' \<and> inbox_stored print bid db' u)
    \<and> (off' = off \<or> (\<exists>u \<in> set us. get_i64 u ''update_id'' = Some (off' - 1)))
    \<and> offset_of db' bid = Some (case offset_of db bid of None \<Rightarrow> off' | Some m \<Rightarrow> max m off')"
proof -
  from run obtain acc where tx: "transaction (ib_bind (persist_loop print sha now bid us ([], off)) (\<lambda>acc.
      ib_bind (upsert_offset now bid (snd acc)) (\<lambda>_. ib_return acc))) db = (Inr acc, db')" and off: "off' = snd acc"
    by (auto simp: persist_update_batch_def split: prod.splits sum.splits)
  from tx obtain db1 db2 where before: "same_inbox db db1"
    and body: "ib_bind (persist_loop print sha now bid us ([], off)) (\<lambda>acc.
      ib_bind (upsert_offset now bid (snd acc)) (\<lambda>_. ib_return acc)) db1 = (Inr acc, db2)"
    and after: "same_inbox db2 db'" by (rule transaction_InrD)
  from body obtain db3 x where loop: "persist_loop print sha now bid us ([], off) db1 = (Inr acc, db3)"
    and ups: "upsert_offset now bid (snd acc) db3 = (Inr x, db2)"
    by (auto simp: ib_return_def elim!: ib_bind_InrD)
  from before ok have "inbox_ok db1" by (simp add: same_inbox_views)
  note L = persist_loop_InrD [OF this loop]
  then have ok3: "inbox_ok db3" by blast
  note U = upsert_offset_InrD [OF ups ok3]
  have "find_row db' b i = find_row db3 b i" for b i
    using U(1) after by (simp add: find_row_def same_inbox_def)
  then have stored: "inbox_stored print bid db' u = inbox_stored print bid db3 u" for u
    by (auto simp: inbox_stored_def split: option.splits)
  have "offset_of db3 bid = offset_of db bid"
    using L before by (simp add: rows_added_def offset_of_def same_inbox_def)
  moreover have "\<exists>rs. updates db' = updates db @ rs"
    using L before after U(1) by (auto simp: rows_added_def same_inbox_def)
  ultimately show ?thesis
    unfolding off using L U stored same_inbox_views(2,3) [OF after] by simp
qed

section \<open>Polling without loss\<close>

text \<open>A poller and the queue of the Telegram server. The server confirms, and forgets, the
  updates below the offset of a request and answers with the first of the others
  (\<^verbatim>\<open>getUpdates\<close>); ids of later updates are larger. \<open>ps_sent\<close> remembers every update.\<close>

record ('u, 'db) poll_system =
  ps_db :: 'db
  ps_offset :: i64
  ps_pending :: "'u list"
  ps_sent :: "'u list"
  ps_next :: i64

definition unconfirmed :: "('u \<Rightarrow> i64 option) \<Rightarrow> i64 \<Rightarrow> 'u list \<Rightarrow> 'u list" where
  "unconfirmed ident off us = filter (\<lambda>u. case ident u of None \<Rightarrow> True | Some i \<Rightarrow> off \<le> i) us"

inductive poll_step ::
    "('u \<Rightarrow> i64 option) \<Rightarrow> ('db \<Rightarrow> i64 option \<times> 'db) \<Rightarrow> (string \<Rightarrow> 'u list \<Rightarrow> i64 \<Rightarrow> 'db \<Rightarrow> bool \<times> i64 \<times> 'db)
      \<Rightarrow> ('db \<Rightarrow> 'db \<Rightarrow> bool) \<Rightarrow> ('u, 'db) poll_system \<Rightarrow> ('u, 'db) poll_system \<Rightarrow> bool"
  for ident load save work where
  poll_arrive: "ident u = Some i \<Longrightarrow> ps_next s \<le> i
      \<Longrightarrow> poll_step ident load save work s
            (s\<lparr>ps_pending := ps_pending s @ [u], ps_sent := ps_sent s @ [u], ps_next := i + 1\<rparr>)"
| poll_batch: "save now (take n (unconfirmed ident (ps_offset s) (ps_pending s))) (ps_offset s) (ps_db s) = (b, off, db)
      \<Longrightarrow> poll_step ident load save work s
            (s\<lparr>ps_pending := unconfirmed ident (ps_offset s) (ps_pending s), ps_db := db, ps_offset := off\<rparr>)"
| poll_lost: "poll_step ident load save work s (s\<lparr>ps_pending := unconfirmed ident (ps_offset s) (ps_pending s)\<rparr>)"
| poll_restart: "load (ps_db s) = (Some off, db)
      \<Longrightarrow> poll_step ident load save work s (s\<lparr>ps_db := db, ps_offset := off\<rparr>)"
| poll_work: "work (ps_db s) db \<Longrightarrow> poll_step ident load save work s (s\<lparr>ps_db := db\<rparr>)"

inductive poll_reach for ident load save work s0 where
  poll_start: "poll_reach ident load save work s0 s0"
| poll_more: "poll_reach ident load save work s0 s \<Longrightarrow> poll_step ident load save work s s'
      \<Longrightarrow> poll_reach ident load save work s0 s'"

text \<open>What the poller relies on: a failed save changes nothing, a successful one stores the whole
  batch before it publishes an offset, and processing never loses a stored update.\<close>

locale acknowledged_queue =
  fixes ident :: "'u \<Rightarrow> i64 option"
    and stored :: "'db \<Rightarrow> 'u \<Rightarrow> bool"
    and durable :: "'db \<Rightarrow> i64"
    and db_ok :: "'db \<Rightarrow> bool"
    and load :: "'db \<Rightarrow> i64 option \<times> 'db"
    and save :: "string \<Rightarrow> 'u list \<Rightarrow> i64 \<Rightarrow> 'db \<Rightarrow> bool \<times> i64 \<times> 'db"
    and work :: "'db \<Rightarrow> 'db \<Rightarrow> bool"
  assumes save_ok: "db_ok db \<Longrightarrow> save now us off db = (b, off', db') \<Longrightarrow> db_ok db'"
    and save_keeps: "db_ok db \<Longrightarrow> save now us off db = (b, off', db') \<Longrightarrow> stored db u \<Longrightarrow> stored db' u"
    and save_failed: "db_ok db \<Longrightarrow> save now us off db = (False, off', db') \<Longrightarrow> off' = off \<and> durable db' = durable db"
    and save_stored: "db_ok db \<Longrightarrow> save now us off db = (True, off', db') \<Longrightarrow> u \<in> set us \<Longrightarrow> ident u = Some i \<Longrightarrow> stored db' u"
    and save_offset: "db_ok db \<Longrightarrow> save now us off db = (True, off', db')
      \<Longrightarrow> off' = off \<or> (\<exists>u \<in> set us. ident u = Some (off' - 1))"
    and save_durable: "db_ok db \<Longrightarrow> 0 \<le> off \<Longrightarrow> save now us off db = (True, off', db') \<Longrightarrow> durable db' = max (durable db) off'"
    and save_mono: "db_ok db \<Longrightarrow> save now us off db = (b, off', db') \<Longrightarrow> off \<le> off'"
    and load_exact: "load db = (r, db') \<Longrightarrow> (r = None \<or> r = Some (durable db)) \<and> stored db' = stored db
      \<and> durable db' = durable db \<and> (db_ok db' \<longleftrightarrow> db_ok db)"
    and work_ok: "db_ok db \<Longrightarrow> work db db' \<Longrightarrow> db_ok db' \<and> durable db' = durable db"
    and work_keeps: "db_ok db \<Longrightarrow> work db db' \<Longrightarrow> stored db u \<Longrightarrow> stored db' u"
begin

definition poll_inv :: "('u, 'db) poll_system \<Rightarrow> bool" where
  "poll_inv s \<longleftrightarrow> db_ok (ps_db s) \<and> 0 \<le> ps_offset s \<and> 0 \<le> durable (ps_db s)
     \<and> ps_offset s \<le> ps_next s \<and> durable (ps_db s) \<le> ps_next s
     \<and> sorted_wrt (\<lambda>u v. the (ident u) < the (ident v)) (ps_pending s)
     \<and> (\<forall>u \<in> set (ps_pending s). \<exists>i. ident u = Some i \<and> i < ps_next s)
     \<and> (\<forall>u \<in> set (ps_pending s). the (ident u) < max (ps_offset s) (durable (ps_db s)) \<longrightarrow> stored (ps_db s) u)
     \<and> (\<forall>u \<in> set (ps_sent s). u \<in> set (ps_pending s) \<or> stored (ps_db s) u)"

lemma unconfirmed_kept:
  assumes "poll_inv s"
  shows "poll_inv (s\<lparr>ps_pending := unconfirmed ident (ps_offset s) (ps_pending s)\<rparr>)"
proof -
  have "stored (ps_db s) u" if "u \<in> set (ps_pending s)" "u \<notin> set (unconfirmed ident (ps_offset s) (ps_pending s))" for u
    using assms that by (auto simp: poll_inv_def unconfirmed_def split: option.splits)
  moreover have "sorted_wrt (\<lambda>u v. the (ident u) < the (ident v)) (unconfirmed ident (ps_offset s) (ps_pending s))"
    using assms by (simp add: poll_inv_def unconfirmed_def sorted_wrt_filter)
  moreover have "set (unconfirmed ident (ps_offset s) (ps_pending s)) \<subseteq> set (ps_pending s)"
    by (auto simp: unconfirmed_def)
  ultimately show ?thesis
    using assms unfolding poll_inv_def by (simp; blast)
qed

lemma batch_kept:
  assumes inv: "poll_inv s" and fresh: "\<And>u. u \<in> set (ps_pending s) \<Longrightarrow> ps_offset s \<le> the (ident u)"
    and run: "save now (take n (ps_pending s)) (ps_offset s) (ps_db s) = (b, off, db)"
  shows "poll_inv (s\<lparr>ps_db := db, ps_offset := off\<rparr>)"
proof -
  from inv have ok: "db_ok (ps_db s)" and pos: "0 \<le> ps_offset s" by (simp_all add: poll_inv_def)
  note keep = save_keeps [OF ok run]
  have new: "stored db u" if "b" "u \<in> set (ps_pending s)" "the (ident u) < off" for u
  proof (cases "u \<in> set (take n (ps_pending s))")
    case True
    then show ?thesis
      using save_stored [OF ok run [unfolded \<open>b\<close> [THEN eqTrueI]]] inv that(2) by (auto simp: poll_inv_def)
  next
    case False
    then have u: "u \<in> set (drop n (ps_pending s))" using that(2) by (metis UnE append_take_drop_id set_append)
    from save_offset [OF ok run [unfolded \<open>b\<close> [THEN eqTrueI]]] fresh [OF that(2)] that(3)
    obtain v where v: "v \<in> set (take n (ps_pending s))" "ident v = Some (off - 1)" by force
    from inv have "sorted_wrt (\<lambda>u v. the (ident u) < the (ident v)) (take n (ps_pending s) @ drop n (ps_pending s))"
      by (simp add: poll_inv_def)
    with u v(1) have "the (ident v) < the (ident u)" by (simp only: sorted_wrt_append)
    with v(2) that(3) show ?thesis by simp
  qed
  have "off \<le> ps_next s \<and> durable db \<le> ps_next s \<and> 0 \<le> durable db"
  proof (cases b)
    case True
    with run have run': "save now (take n (ps_pending s)) (ps_offset s) (ps_db s) = (True, off, db)" by simp
    have "off \<le> ps_next s"
      using save_offset [OF ok run'] inv by (force simp: poll_inv_def dest: in_set_takeD)
    then show ?thesis using save_durable [OF ok pos run'] inv by (simp add: poll_inv_def le_max_iff_disj)
  next
    case False
    with run save_failed [OF ok] have "off = ps_offset s" "durable db = durable (ps_db s)" by simp_all
    with inv show ?thesis by (simp add: poll_inv_def)
  qed
  moreover have "stored db u" if "u \<in> set (ps_pending s)" "the (ident u) < max off (durable db)" for u
  proof (cases b)
    case True
    then have "durable db = max (durable (ps_db s)) off" using save_durable [OF ok pos] run by simp
    with that new [OF True that(1)] keep inv show ?thesis by (auto simp: poll_inv_def)
  next
    case False
    with run save_failed [OF ok] have "off = ps_offset s" "durable db = durable (ps_db s)" by simp_all
    with that keep inv show ?thesis by (auto simp: poll_inv_def)
  qed
  ultimately show ?thesis
    using inv keep save_ok [OF ok run] save_mono [OF ok run] by (auto simp: poll_inv_def)
qed

lemma poll_inv_step:
  assumes "poll_step ident load save work s s'" "poll_inv s"
  shows "poll_inv s'"
  using assms(1)
proof cases
  case (poll_arrive u i)
  with assms(2) show ?thesis
    by (auto simp: poll_inv_def sorted_wrt_append)
next
  case (poll_batch now n b off db)
  have "ps_offset s \<le> the (ident u)" if "u \<in> set (unconfirmed ident (ps_offset s) (ps_pending s))" for u
    using assms(2) that by (auto simp: poll_inv_def unconfirmed_def)
  then have "poll_inv ((s\<lparr>ps_pending := unconfirmed ident (ps_offset s) (ps_pending s)\<rparr>)\<lparr>ps_db := db, ps_offset := off\<rparr>)"
    using poll_batch(2) by (intro batch_kept [OF unconfirmed_kept [OF assms(2)]]) simp_all
  then show ?thesis unfolding poll_batch(1) by simp
next
  case poll_lost
  with unconfirmed_kept [OF assms(2)] show ?thesis by simp
next
  case (poll_restart off db)
  with assms(2) load_exact [of "ps_db s" "Some off" db] show ?thesis by (auto simp: poll_inv_def)
next
  case (poll_work db)
  with assms(2) work_ok [of "ps_db s" db] work_keeps [of "ps_db s" db] show ?thesis by (auto simp: poll_inv_def)
qed

lemma nothing_lost:
  assumes "poll_reach ident load save work s0 s" "poll_inv s0" "u \<in> set (ps_sent s)"
  shows "u \<in> set (ps_pending s) \<or> stored (ps_db s) u"
proof -
  from assms(1,2) have "poll_inv s" by induction (simp_all add: poll_inv_step)
  with assms(3) show ?thesis by (auto simp: poll_inv_def)
qed

end

section \<open>Processing keeps the rows\<close>

text \<open>How a row may change once it is stored: its identity and text stay, and the count of
  attempts only grows, up to three.\<close>

definition row_evolves :: "update_row \<Rightarrow> update_row \<Rightarrow> bool" where
  "row_evolves r r' \<longleftrightarrow> row_key r' = row_key r \<and> u_raw_json r' = u_raw_json r \<and> u_raw_sha256 r' = u_raw_sha256 r
     \<and> (attempts_ok r \<longrightarrow> u_attempt_count r \<le> u_attempt_count r' \<and> attempts_ok r')"

definition rows_evolve :: "inbox_db \<Rightarrow> inbox_db \<Rightarrow> bool" where
  "rows_evolve db db' \<longleftrightarrow> list_all2 row_evolves (updates db) (updates db')
     \<and> offsets db' = offsets db \<and> ib_bots db' = ib_bots db"

lemma row_evolves_refl: "row_evolves r r"
  by (simp add: row_evolves_def)

lemma row_evolves_trans: "row_evolves r s \<Longrightarrow> row_evolves s t \<Longrightarrow> row_evolves r t"
  by (auto simp: row_evolves_def)

lemma rows_evolve_same: "same_inbox db db' \<Longrightarrow> rows_evolve db db'"
  by (simp add: rows_evolve_def same_inbox_def list_all2_refl row_evolves_refl)

lemma rows_evolve_trans: "rows_evolve db db' \<Longrightarrow> rows_evolve db' db'' \<Longrightarrow> rows_evolve db db''"
  unfolding rows_evolve_def
  using list_all2_trans [of row_evolves row_evolves row_evolves, OF row_evolves_trans] by auto

lemma rows_evolve_find:
  assumes "rows_evolve db db'"
  shows "rel_option row_evolves (find_row db b i) (find_row db' b i)"
proof -
  have "list_all2 row_evolves xs ys \<Longrightarrow>
      rel_option row_evolves (find (\<lambda>r. row_key r = (b, i)) xs) (find (\<lambda>r. row_key r = (b, i)) ys)" for xs ys
    by (induction rule: list_all2_induct) (auto simp: row_evolves_def)
  with assms show ?thesis by (simp add: rows_evolve_def find_row_def)
qed

lemma rows_evolve_ok:
  assumes "rows_evolve db db'" "inbox_ok db"
  shows "inbox_ok db'"
proof -
  have "list_all2 row_evolves xs ys \<Longrightarrow> map row_key ys = map row_key xs
      \<and> (list_all attempts_ok xs \<longrightarrow> list_all attempts_ok ys)" for xs ys
    by (induction rule: list_all2_induct) (auto simp: row_evolves_def)
  with assms show ?thesis by (auto simp: rows_evolve_def inbox_ok_def)
qed

lemma rows_evolve_stored:
  assumes "rows_evolve db db'" "inbox_stored print b db u"
  shows "inbox_stored print b db' u"
proof (cases "get_i64 u ''update_id''")
  case (Some i)
  with assms(2) obtain r where "find_row db b i = Some r" "u_raw_json r = print u"
    by (auto simp: inbox_stored_def split: option.splits)
  with Some rows_evolve_find [OF assms(1), of b i] show ?thesis
    by (auto simp: inbox_stored_def row_evolves_def option_rel_Some1)
qed (use assms(2) in \<open>simp add: inbox_stored_def\<close>)

lemma update_rows_evolve:
  assumes "update_rows P f db = (x, db')" "\<And>r. P r \<Longrightarrow> row_evolves r (f r)"
  shows "rows_evolve db db'"
  using assms(1) unfolding update_rows_def
proof (cases rule: ib_stmt_cases)
  case fault
  then show ?thesis by (simp add: rows_evolve_same)
next
  case (ran fs)
  then show ?thesis
    using assms(2) by (auto simp: sql_update_def rows_evolve_def list_all2_conv_all_nth row_evolves_refl)
qed

lemma statements_evolve:
  "claim_update now b i db = (x, db') \<Longrightarrow> rows_evolve db db'"
  "mark_update_failed now c b i db = (x, db') \<Longrightarrow> rows_evolve db db'"
  "quarantine_update now b i db = (x, db') \<Longrightarrow> rows_evolve db db'"
  "reset_processing now b db = (x, db') \<Longrightarrow> rows_evolve db db'"
  unfolding claim_update_def mark_update_failed_def quarantine_update_def reset_processing_def
  by (erule update_rows_evolve, auto simp: row_evolves_def row_key_def attempts_ok_def)+

lemma processed_evolve: "mark_update_processed now b i db = (y, db') \<Longrightarrow> rows_evolve db db'"
  unfolding mark_update_processed_def ib_bind_def ib_return_def
  by (auto split: prod.splits sum.splits elim!: update_rows_evolve simp: row_evolves_def row_key_def attempts_ok_def)

lemma process_and_deliver_evolve:
  assumes "process_and_deliver deliver now b i u db = (y, db')"
  shows "rows_evolve db db'"
proof (cases "claim_update now b i db")
  case (Pair x db1)
  note claimed = statements_evolve(1) [OF this]
  from assms Pair have "db' = db1 \<or> mark_update_processed now b i db1 = (y, db')"
    by (auto simp: process_and_deliver_def ib_bind_def ib_return_def ib_fail_def split: sum.splits if_splits option.splits)
  with claimed show ?thesis by (auto intro: rows_evolve_trans dest: processed_evolve)
qed

lemma process_and_record_evolve: "rows_evolve db (process_and_record deliver now b i u db)"
  unfolding process_and_record_def
  by (auto split: prod.splits sum.splits dest!: process_and_deliver_evolve
      intro: rows_evolve_trans [OF _ statements_evolve(2) [OF surjective_pairing]])

lemma recover_loop_evolve: "rows_evolve db (snd (recover_pending_loop parse deliver reg clk b g n rows db))"
proof (induction rows arbitrary: n db)
  case Nil
  then show ?case by (simp add: rows_evolve_same)
next
  case (Cons row rows)
  obtain i raw where row: "row = (i, raw)" by (cases row)
  show ?case
    using Cons rows_evolve_trans [OF process_and_record_evolve Cons]
      rows_evolve_trans [OF statements_evolve(3) Cons] statements_evolve(3)
    by (auto simp: row rows_evolve_same split: option.splits prod.splits sum.splits)
qed

lemma recover_pending_evolve: "rows_evolve db (snd (recover_pending_updates parse deliver reg clk ue t b g db))"
proof (cases "pending_inbox_batch ue b t db")
  case (Pair x db1)
  then have "same_inbox db db1"
    unfolding pending_inbox_batch_def by (cases rule: ib_stmt_cases) auto
  then have "rows_evolve db db1" by (rule rows_evolve_same)
  with Pair show ?thesis
    by (auto simp: recover_pending_updates_def ib_bind_def split: sum.splits
        intro: rows_evolve_trans [OF _ recover_loop_evolve])
qed

lemma recover_startup_evolve: "rows_evolve db (snd (recover_startup_updates parse deliver reg clk ue t at b g db))"
proof (cases "reset_processing at b db")
  case (Pair x db1)
  with statements_evolve(4) [OF this] show ?thesis
    by (auto simp: recover_startup_updates_def ib_bind_def split: sum.splits
        intro: rows_evolve_trans [OF _ recover_pending_evolve])
qed

section \<open>The inbox keeps the poller's contract\<close>

definition inbox_save ::
    "(json \<Rightarrow> string) \<Rightarrow> (string \<Rightarrow> string) \<Rightarrow> string \<Rightarrow> string \<Rightarrow> json list \<Rightarrow> i64 \<Rightarrow> inbox_db \<Rightarrow> bool \<times> i64 \<times> inbox_db" where
  "inbox_save print sha bid now us off db =
     (case persist_update_batch print sha now bid us off db of
        (Inl _, off', db') \<Rightarrow> (False, off', db') | (Inr _, off', db') \<Rightarrow> (True, off', db'))"

definition inbox_load :: "string \<Rightarrow> inbox_db \<Rightarrow> i64 option \<times> inbox_db" where
  "inbox_load bid db = (case load_offset bid db of (Inl _, db') \<Rightarrow> (None, db') | (Inr n, db') \<Rightarrow> (Some n, db'))"

text \<open>What the poller runs between two requests.\<close>

inductive inbox_work for bid where
  work_process: "inbox_work bid db (process_and_record deliver now bid i u db)"
| work_recover: "inbox_work bid db (snd (recover_pending_updates parse deliver reg clk ue t bid g db))"
| work_startup: "inbox_work bid db (snd (recover_startup_updates parse deliver reg clk ue t at bid g db))"
| work_faults: "inbox_work bid db (db\<lparr>ib_faults := fs\<rparr>)"

lemma inbox_work_evolve: "inbox_work bid db db' \<Longrightarrow> rows_evolve db db'"
  by (induction rule: inbox_work.induct)
    (simp_all add: process_and_record_evolve recover_pending_evolve recover_startup_evolve rows_evolve_same)

lemma stored_views:
  assumes "updates db' = updates db"
  shows "inbox_stored print b db' u = inbox_stored print b db u"
  using assms by (cases "get_i64 u ''update_id''") (simp_all add: inbox_stored_def find_row_def)

lemma inbox_save_cases:
  assumes "inbox_save print sha bid now us off db = (b, off', db')"
  obtains (failed) e where "\<not> b" "persist_update_batch print sha now bid us off db = (Inl e, off', db')"
  | (saved) ps where "b" "persist_update_batch print sha now bid us off db = (Inr ps, off', db')"
  using assms by (auto simp: inbox_save_def split: prod.splits sum.splits intro: that)

interpretation inbox: acknowledged_queue "\<lambda>u. get_i64 u ''update_id''" "inbox_stored print bid"
  "durable_offset bid" inbox_ok "inbox_load bid" "inbox_save print sha bid" "inbox_work bid" for print sha bid
proof
  fix db db' :: inbox_db and now :: string and us :: "json list" and off off' i :: i64 and b :: bool and u :: json
    and r :: "i64 option"
  note split = prod.splits sum.splits
  show "inbox_ok db'" if "inbox_ok db" "inbox_save print sha bid now us off db = (b, off', db')"
    using that by (auto simp: inbox_save_def same_inbox_views split: split dest: persist_batch_Inl persist_batch_Inr)
  show "inbox_stored print bid db' u"
    if "inbox_ok db" "inbox_save print sha bid now us off db = (b, off', db')" "inbox_stored print bid db u"
  proof -
    have "\<exists>rs. updates db' = updates db @ rs"
      using that by (auto simp: inbox_save_def same_inbox_def split: split dest: persist_batch_Inl persist_batch_Inr)
    then show ?thesis
      using that(3) by (auto simp: inbox_stored_def find_row_def find_append split: option.splits)
  qed
  show "off' = off \<and> durable_offset bid db' = durable_offset bid db"
    if "inbox_ok db" "inbox_save print sha bid now us off db = (False, off', db')"
    using that by (auto simp: inbox_save_def durable_offset_def same_inbox_views split: split dest: persist_batch_Inl)
  show "inbox_stored print bid db' u"
    if "inbox_ok db" "inbox_save print sha bid now us off db = (True, off', db')" "u \<in> set us" "get_i64 u ''update_id'' = Some i"
    using that by (auto simp: inbox_save_def split: split dest: persist_batch_Inr)
  show "off' = off \<or> (\<exists>u \<in> set us. get_i64 u ''update_id'' = Some (off' - 1))"
    if "inbox_ok db" "inbox_save print sha bid now us off db = (True, off', db')"
    using that by (auto simp: inbox_save_def split: split dest: persist_batch_Inr)
  show "durable_offset bid db' = max (durable_offset bid db) off'"
    if "inbox_ok db" "0 \<le> off" "inbox_save print sha bid now us off db = (True, off', db')"
    using that(3)
  proof (cases rule: inbox_save_cases)
    case (saved ps)
    from persist_batch_Inr [OF that(1) this(2)] have "off \<le> off'"
      "offset_of db' bid = Some (case offset_of db bid of None \<Rightarrow> off' | Some m \<Rightarrow> max m off')" by simp_all
    with that(2) show ?thesis by (cases "offset_of db bid") (simp_all add: durable_offset_def)
  qed simp
  show "off \<le> off'" if "inbox_ok db" "inbox_save print sha bid now us off db = (b, off', db')"
    using that by (auto simp: inbox_save_def split: split dest: persist_batch_Inl persist_batch_Inr)
  show "(r = None \<or> r = Some (durable_offset bid db)) \<and> inbox_stored print bid db' = inbox_stored print bid db
      \<and> durable_offset bid db' = durable_offset bid db \<and> (inbox_ok db' \<longleftrightarrow> inbox_ok db)"
    if "inbox_load bid db = (r, db')"
  proof (cases "load_offset bid db")
    case (Pair x d)
    then have "same_inbox db d \<and> (\<forall>n. x = Inr n \<longrightarrow> n = durable_offset bid db)"
      unfolding load_offset_def by (cases rule: ib_stmt_cases) (auto simp: durable_offset_def offset_of_def)
    moreover have "d = db'" "r = (case x of Inl _ \<Rightarrow> None | Inr n \<Rightarrow> Some n)"
      using that Pair by (auto simp: inbox_load_def split: sum.splits)
    ultimately show ?thesis
      using same_inbox_views [of db db'] stored_views [of db' db print bid]
      by (auto simp: durable_offset_def same_inbox_def split: sum.splits)
  qed
  show "inbox_ok db' \<and> durable_offset bid db' = durable_offset bid db" if "inbox_ok db" "inbox_work bid db db'"
    using rows_evolve_ok [OF inbox_work_evolve [OF that(2)] that(1)] inbox_work_evolve [OF that(2)]
    by (simp add: durable_offset_def offset_of_def rows_evolve_def)
  show "inbox_stored print bid db' u" if "inbox_ok db" "inbox_work bid db db'" "inbox_stored print bid db u"
    using rows_evolve_stored [OF inbox_work_evolve [OF that(2)] that(3)] .
qed

section \<open>Attempts\<close>

text \<open>The statements that tasks issue against the inbox, in whatever order they interleave.\<close>

datatype inbox_op =
    Claim string string i64
  | Complete string string i64
  | Record_Failure string string string i64
  | Quarantine string string i64
  | Reset string string
  | Ingest string string i64 json
  | Persist string string "json list" i64
  | Faults "bool list"

fun apply_inbox_op :: "(json \<Rightarrow> string) \<Rightarrow> (string \<Rightarrow> string) \<Rightarrow> inbox_op \<Rightarrow> inbox_db \<Rightarrow> inbox_db" where
  "apply_inbox_op print sha (Claim now b i) db = snd (claim_update now b i db)"
| "apply_inbox_op print sha (Complete now b i) db = snd (mark_update_processed now b i db)"
| "apply_inbox_op print sha (Record_Failure now c b i) db = snd (mark_update_failed now c b i db)"
| "apply_inbox_op print sha (Quarantine now b i) db = snd (quarantine_update now b i db)"
| "apply_inbox_op print sha (Reset now b) db = snd (reset_processing now b db)"
| "apply_inbox_op print sha (Ingest now b i u) db = snd (ingest_update print sha now b i u db)"
| "apply_inbox_op print sha (Persist now b us off) db = snd (snd (persist_update_batch print sha now b us off db))"
| "apply_inbox_op print sha (Faults fs) db = db\<lparr>ib_faults := fs\<rparr>"

text \<open>Does this statement hand the update to \<open>deliver\<close>?\<close>

fun starts_attempt :: "string \<Rightarrow> i64 \<Rightarrow> inbox_op \<Rightarrow> inbox_db \<Rightarrow> bool" where
  "starts_attempt b i (Claim now b' i') db \<longleftrightarrow>
     b' = b \<and> i' = i \<and> (case fst (claim_update now b i db) of Inl _ \<Rightarrow> False | Inr n \<Rightarrow> n \<noteq> 0)"
| "starts_attempt b i _ db = False"

fun attempts_made ::
    "(json \<Rightarrow> string) \<Rightarrow> (string \<Rightarrow> string) \<Rightarrow> string \<Rightarrow> i64 \<Rightarrow> inbox_op list \<Rightarrow> inbox_db \<Rightarrow> nat" where
  "attempts_made print sha b i [] db = 0"
| "attempts_made print sha b i (a # as) db =
     (if starts_attempt b i a db then 1 else 0) + attempts_made print sha b i as (apply_inbox_op print sha a db)"

definition attempts_of :: "inbox_db \<Rightarrow> string \<Rightarrow> i64 \<Rightarrow> i64" where
  "attempts_of db b i = (case find_row db b i of None \<Rightarrow> 0 | Some r \<Rightarrow> u_attempt_count r)"

definition grows :: "inbox_db \<Rightarrow> inbox_db \<Rightarrow> bool" where
  "grows db db' \<longleftrightarrow> inbox_ok db' \<and> (\<forall>b i. attempts_of db b i \<le> attempts_of db' b i)"

lemma find_row_ok: "inbox_ok db \<Longrightarrow> find_row db b i = Some r \<Longrightarrow> attempts_ok r"
  by (auto simp: inbox_ok_def find_row_def list_all_iff dest: find_in_set)

lemma attempts_of_ok: "inbox_ok db \<Longrightarrow> 0 \<le> attempts_of db b i \<and> attempts_of db b i \<le> 3"
  by (auto simp: attempts_of_def attempts_ok_def split: option.splits dest: find_row_ok)

lemma rows_evolve_grows:
  assumes "rows_evolve db db'" "inbox_ok db"
  shows "grows db db'"
proof -
  have "attempts_of db b i \<le> attempts_of db' b i" for b i
    using rows_evolve_find [OF assms(1), of b i] find_row_ok [OF assms(2), of b i]
    by (cases "find_row db b i"; cases "find_row db' b i") (auto simp: attempts_of_def row_evolves_def)
  with rows_evolve_ok [OF assms] show ?thesis by (simp add: grows_def)
qed

lemma appended_grows:
  assumes "updates db' = updates db @ rs" "inbox_ok db'"
  shows "grows db db'"
proof -
  have "attempts_of db b i \<le> attempts_of db' b i" for b i
  proof (cases "find_row db b i")
    case None
    then show ?thesis using attempts_of_ok [OF assms(2), of b i] by (simp add: attempts_of_def)
  next
    case (Some r)
    with assms(1) have "find_row db' b i = Some r" by (simp add: find_row_def find_append)
    with Some show ?thesis by (simp add: attempts_of_def)
  qed
  with assms(2) show ?thesis by (simp add: grows_def)
qed

lemma ingest_update_cases:
  assumes ok: "inbox_ok db" and run: "ingest_update print sha now b i u db = (r, db')"
  shows "\<exists>rs. updates db' = updates db @ rs \<and> inbox_ok db'"
proof (cases r)
  case (Inl e)
  with run have "same_inbox db db'"
    by (auto simp: ingest_update_def ib_fail_def split: if_splits dest: transaction_InlD)
  with ok show ?thesis by (simp add: same_inbox_views) (simp add: same_inbox_def)
next
  case (Inr x)
  with run obtain db1 db2 where tx: "same_inbox db db1" "same_inbox db2 db'"
    and body: "ib_bind (select_update b i) (\<lambda>existing.
             case existing of
               Some r \<Rightarrow>
                 if u_raw_json r \<noteq> print u \<or> u_raw_sha256 r \<noteq> Some (sha (print u))
                 then ib_fail identity_reused
                 else ib_return False
             | None \<Rightarrow>
                 ib_bind (insert_update (received_row now b i (print u) (sha (print u)))) (\<lambda>_.
                   case checked_add_one i of
                     None \<Rightarrow> ib_fail id_overflow
                   | Some n \<Rightarrow> ib_bind (upsert_offset now b n) (\<lambda>_. ib_return True))) db1 = (Inr x, db2)"
    by (auto simp: ingest_update_def ib_fail_def split: if_splits elim: transaction_InrD)
  from body obtain ex db3 where sel: "select_update b i db1 = (Inr ex, db3)"
    and rest: "(case ex of
               Some r \<Rightarrow>
                 if u_raw_json r \<noteq> print u \<or> u_raw_sha256 r \<noteq> Some (sha (print u))
                 then ib_fail identity_reused
                 else ib_return False
             | None \<Rightarrow>
                 ib_bind (insert_update (received_row now b i (print u) (sha (print u)))) (\<lambda>_.
                   case checked_add_one i of
                     None \<Rightarrow> ib_fail id_overflow
                   | Some n \<Rightarrow> ib_bind (upsert_offset now b n) (\<lambda>_. ib_return True))) db3 = (Inr x, db2)"
    by (rule ib_bind_InrD)
  have same: "same_inbox db db3" using tx(1) select_update_InrD(2) [OF sel] by (rule same_inbox_trans)
  with ok have ok3: "inbox_ok db3" by (simp add: same_inbox_views)
  have "\<exists>rs. updates db2 = updates db3 @ rs \<and> inbox_ok db2"
  proof (cases ex)
    case None
    with rest obtain y n z db4 where ins: "insert_update (received_row now b i (print u) (sha (print u))) db3 = (Inr y, db4)"
      and ups: "upsert_offset now b n db4 = (Inr z, db2)"
      by (auto simp: ib_return_def ib_fail_def elim!: ib_bind_InrD split: option.splits)
    have "attempts_ok (received_row now b i (print u) (sha (print u)))"
      by (simp add: received_row_def attempts_ok_def)
    note I = insert_update_InrD [OF ins ok3 this]
    from upsert_offset_InrD [OF ups I(2)] I(1) show ?thesis by (auto simp: rows_added_def)
  next
    case (Some r)
    with rest ok3 show ?thesis by (auto simp: ib_return_def ib_fail_def split: if_splits)
  qed
  with same tx(2) show ?thesis by (auto simp: same_inbox_views) (auto simp: same_inbox_def)
qed

lemmas evolve_results = statements_evolve [OF surjective_pairing] processed_evolve [OF surjective_pairing]

lemma op_grows:
  assumes "inbox_ok db"
  shows "grows db (apply_inbox_op print sha a db)"
proof (cases a)
  case (Ingest now b i u)
  with ingest_update_cases [OF assms, of print sha now b i u] show ?thesis
    by (cases "ingest_update print sha now b i u db") (auto intro: appended_grows)
next
  case (Persist now b us off)
  obtain r off' db' where run: "persist_update_batch print sha now b us off db = (r, off', db')"
    by (metis prod_cases3)
  have "\<exists>rs. updates db' = updates db @ rs \<and> inbox_ok db'"
  proof (cases r)
    case (Inl e)
    from persist_batch_Inl(2) [OF run [unfolded Inl]] assms show ?thesis
      by (simp add: same_inbox_views) (simp add: same_inbox_def)
  next
    case (Inr ps)
    from persist_batch_Inr [OF assms run [unfolded Inr]] show ?thesis by blast
  qed
  with run Persist show ?thesis by (auto intro: appended_grows)
qed (use assms in \<open>simp_all add: rows_evolve_grows evolve_results rows_evolve_same\<close>)

lemma attempt_counted:
  assumes "inbox_ok db" "starts_attempt b i a db"
  shows "attempts_of (apply_inbox_op print sha a db) b i = attempts_of db b i + 1"
proof -
  from assms(2) obtain now n db' where a: "a = Claim now b i" and c: "claim_update now b i db = (Inr n, db')" and n: "n \<noteq> 0"
    by (cases a) (auto split: sum.splits prod.splits simp: prod_eq_iff)
  let ?P = "\<lambda>r. u_bot_id r = b \<and> u_update_id r = i \<and> u_status r \<in> {''received'', ''failed''} \<and> u_attempt_count r < 3"
  let ?f = "\<lambda>r. r\<lparr>u_status := ''processing'', u_attempt_count := u_attempt_count r + 1, u_updated_at := now\<rparr>"
  from ib_stmt_InrD [OF c [unfolded claim_update_def update_rows_def]]
  have u: "updates db' = map (\<lambda>r. if ?P r then ?f r else r) (updates db)" and "n = length (filter ?P (updates db))"
    by (auto simp: sql_update_def)
  with n obtain r where r: "r \<in> set (updates db)" "?P r"
    by (auto simp: filter_empty_conv)
  then have "row_key r = (b, i)" by (simp add: row_key_def)
  with find_unique_key [of row_key "updates db" r] r(1) assms(1) have found: "find_row db b i = Some r"
    by (simp add: inbox_ok_def find_row_def)
  have "find_row db' b i = map_option (\<lambda>r. if ?P r then ?f r else r) (find_row db b i)"
    unfolding find_row_def u by (rule find_map_keys) (simp add: row_key_def)
  with found r(2) a c show ?thesis by (simp add: attempts_of_def)
qed

lemma attempts_made_bound:
  assumes "inbox_ok db"
  shows "int (attempts_made print sha b i as db) + attempts_of db b i \<le> 3"
  using assms
proof (induction as arbitrary: db)
  case Nil
  then show ?case using attempts_of_ok by simp
next
  case (Cons a as)
  note g = op_grows [OF Cons.prems, of print sha a]
  then have "int (attempts_made print sha b i as (apply_inbox_op print sha a db))
      + attempts_of (apply_inbox_op print sha a db) b i \<le> 3"
    by (intro Cons.IH) (simp add: grows_def)
  moreover have "attempts_of db b i \<le> attempts_of (apply_inbox_op print sha a db) b i" using g by (simp add: grows_def)
  ultimately show ?case using attempt_counted [OF Cons.prems, of b i a print sha] by auto
qed

section \<open>Properties\<close>

definition demo_update :: json where
  "demo_update = JObject [(''update_id'', JNumber (PosInt 7))]"

definition demo_inbox :: inbox_db where
  "demo_inbox = \<lparr>updates = [], offsets = [], ib_bots = [''b''], ib_faults = []\<rparr>"

definition demo_print :: "json \<Rightarrow> string" where
  "demo_print u = (case get_i64 u ''update_id'' of None \<Rightarrow> [] | Some i \<Rightarrow> int_to_string i)"

text \<open>C7. No update is lost between the Telegram server and the inbox: however polls, failed
  statements and rolled back batches, lost responses, restarts, processing and recovery
  interleave, every update the server ever queued is still queued there or is stored in the
  inbox with its exact text. The offset that makes the server forget an update is published
  only after the update is stored.\<close>

theorem no_update_lost:
  assumes "poll_reach (\<lambda>u. get_i64 u ''update_id'') (inbox_load bid) (inbox_save print sha bid) (inbox_work bid) s0 s"
    and "inbox_ok (ps_db s0)" "ps_pending s0 = []" "ps_sent s0 = []"
    and "ps_offset s0 \<in> {0..ps_next s0}" "durable_offset bid (ps_db s0) \<in> {0..ps_next s0}"
    and "u \<in> set (ps_sent s)"
  shows "u \<in> set (ps_pending s) \<or> inbox_stored print bid (ps_db s) u"
  using inbox.nothing_lost [OF assms(1) _ assms(7)] assms(2-6) by (simp add: inbox.poll_inv_def)

lemma demo_persist:
  "persist_update_batch demo_print id ''t'' ''b'' [demo_update] 0 demo_inbox
    = (Inr [(7, demo_update)], 8,
       demo_inbox\<lparr>updates := [received_row ''t'' ''b'' 7 ''7'' ''7''],
         offsets := [\<lparr>o_bot_id = ''b'', o_next_offset = 8, o_updated_at = ''t''\<rparr>]\<rparr>)"
  by code_simp

theorem no_update_lost_witness:
  "\<exists>s :: (json, inbox_db) poll_system. ps_sent s = [demo_update] \<and> ps_pending s = [] \<and> ps_offset s = 8
     \<and> inbox_stored demo_print ''b'' (ps_db s) demo_update"
proof -
  let ?step = "poll_step (\<lambda>u. get_i64 u ''update_id'') (inbox_load ''b'') (inbox_save demo_print id ''b'') (inbox_work ''b'')"
  let ?reach = "poll_reach (\<lambda>u. get_i64 u ''update_id'') (inbox_load ''b'') (inbox_save demo_print id ''b'') (inbox_work ''b'')"
  let ?s0 = "\<lparr>ps_db = demo_inbox, ps_offset = 0, ps_pending = [], ps_sent = [], ps_next = 0\<rparr>"
  let ?s1 = "?s0\<lparr>ps_pending := [demo_update], ps_sent := [demo_update], ps_next := 8\<rparr>"
  let ?db = "snd (snd (persist_update_batch demo_print id ''t'' ''b'' [demo_update] 0 demo_inbox))"
  let ?s2 = "?s1\<lparr>ps_pending := [demo_update], ps_db := ?db, ps_offset := 8\<rparr>"
  let ?s3 = "?s2\<lparr>ps_pending := []\<rparr>"
  have i: "get_i64 demo_update ''update_id'' = Some 7" by code_simp
  have "?step ?s0 ?s1" using poll_arrive [of "\<lambda>u. get_i64 u ''update_id''" demo_update 7 ?s0] i by simp
  moreover have "?step ?s1 ?s2"
    using poll_batch [of "inbox_save demo_print id ''b''" "''t''" 1 "\<lambda>u. get_i64 u ''update_id''" ?s1 True 8 ?db] i
    by (simp add: unconfirmed_def inbox_save_def demo_persist)
  moreover have "?step ?s2 ?s3"
    using poll_lost [of "\<lambda>u. get_i64 u ''update_id''" _ _ _ ?s2] i by (simp add: unconfirmed_def)
  ultimately have reach: "?reach ?s0 ?s3" by (blast intro: poll_start poll_more)
  from no_update_lost [OF reach, of demo_update] have "inbox_stored demo_print ''b'' (ps_db ?s3) demo_update"
    by (simp add: inbox_ok_def demo_inbox_def durable_offset_def offset_of_def)
  then show ?thesis by (intro exI [of _ ?s3]) simp
qed

text \<open>C18. A batch of updates is persisted atomically. If it fails, the inbox, the durable offset
  and the published offset are unchanged. If it succeeds, every update that has an id is
  stored, rows are only added, and the published offset, which the database records, is past
  every id of the batch and is the old offset or the successor of an id of the batch.\<close>

theorem persist_batch_atomic:
  assumes "inbox_ok db" "persist_update_batch print sha now bid us off db = (r, off', db')"
  shows "case r of
      Inl e \<Rightarrow> off' = off \<and> same_inbox db db'
    | Inr ps \<Rightarrow>
        (\<exists>rs. updates db' = updates db @ rs)
        \<and> (\<forall>u \<in> set us. \<forall>i. get_i64 u ''update_id'' = Some i \<longrightarrow> i < off' \<and> inbox_stored print bid db' u)
        \<and> (off' = off \<or> (\<exists>u \<in> set us. get_i64 u ''update_id'' = Some (off' - 1)))
        \<and> off \<le> off' \<and> off' \<le> durable_offset bid db'"
proof (cases r)
  case (Inl e)
  from persist_batch_Inl [OF assms(2) [unfolded Inl]] Inl show ?thesis by simp
next
  case (Inr ps)
  from persist_batch_Inr [OF assms(1) assms(2) [unfolded Inr]] Inr show ?thesis
    by (cases "offset_of db bid") (simp_all add: durable_offset_def)
qed

theorem persist_batch_atomic_witness:
  "\<exists>db'. persist_update_batch demo_print id ''t'' ''b'' [demo_update] 0 demo_inbox = (Inr [(7, demo_update)], 8, db')
     \<and> inbox_stored demo_print ''b'' db' demo_update \<and> durable_offset ''b'' db' = 8"
proof -
  have "inbox_ok demo_inbox" "get_i64 demo_update ''update_id'' = Some 7" by (code_simp, code_simp)
  with persist_batch_atomic [OF _ demo_persist] demo_persist show ?thesis
    by (simp add: durable_offset_def offset_of_def)
qed

text \<open>C25. An update is handed to processing at most three times, whatever statements the poller,
  its tasks and recovery issue and in whatever order, across restarts.\<close>

theorem update_attempted_at_most_three_times:
  assumes "inbox_ok db"
  shows "attempts_made print sha bid i as db \<le> 3"
  using attempts_made_bound [OF assms, of print sha bid i as] attempts_of_ok [OF assms, of bid i] by linarith

definition demo_retries :: "inbox_op list" where
  "demo_retries = Persist ''t'' ''b'' [demo_update] 0
     # concat (replicate 5 [Claim ''t'' ''b'' 7, Record_Failure ''t'' ''E'' ''b'' 7])"

theorem update_attempted_at_most_three_times_witness:
  "attempts_made demo_print id ''b'' 7 demo_retries demo_inbox = 3
   \<and> attempts_made demo_print id ''b'' 7 demo_retries demo_inbox \<le> 3"
proof
  show "attempts_made demo_print id ''b'' 7 demo_retries demo_inbox = 3" by code_simp
  have "inbox_ok demo_inbox" by code_simp
  then show "attempts_made demo_print id ''b'' 7 demo_retries demo_inbox \<le> 3"
    by (rule update_attempted_at_most_three_times)
qed

text \<open>An update whose third attempt is cut short by a crash is reset at the next start to
  \<^verbatim>\<open>received\<close> with its three attempts, and is then never due and never claimed again: it stays
  \<^verbatim>\<open>received\<close> for ever, although exhausted rows are meant to stay visible as \<^verbatim>\<open>failed\<close>.\<close>

theorem crashed_last_attempt_is_stuck:
  assumes "inbox_ok db" "find_row db bid i = Some r" "u_status r = ''processing''" "u_attempt_count r = 3"
    and "reset_processing at bid db = (Inr n, db')"
  shows "\<exists>r'. find_row db' bid i = Some r' \<and> u_status r' = ''received''
    \<and> \<not> due_row unixepoch bid t r' \<and> attempts_made print sha bid i as db' = 0"
proof -
  let ?f = "\<lambda>r. if u_bot_id r = bid \<and> u_status r = ''processing'' then r\<lparr>u_status := ''received'', u_updated_at := at\<rparr> else r"
  from ib_stmt_InrD [OF assms(5) [unfolded reset_processing_def update_rows_def]]
  have u: "updates db' = map ?f (updates db)" by (auto simp: sql_update_def)
  have "find_row db' bid i = map_option ?f (find_row db bid i)"
    unfolding find_row_def u by (rule find_map_keys) (simp add: row_key_def)
  moreover have "u_bot_id r = bid" using assms(2) by (auto simp: find_row_def row_key_def dest: find_in_set)
  ultimately have found: "find_row db' bid i = Some (r\<lparr>u_status := ''received'', u_updated_at := at\<rparr>)"
    using assms(2,3) by simp
  have "inbox_ok db'" using rows_evolve_ok [OF statements_evolve(4) [OF assms(5)] assms(1)] .
  with attempts_made_bound [of db' print sha bid i as] found assms(4) show ?thesis
    by (simp add: attempts_of_def due_row_def)
qed

definition demo_crash :: "inbox_op list" where
  "demo_crash = [Persist ''t'' ''b'' [demo_update] 0, Claim ''t'' ''b'' 7, Record_Failure ''t'' ''E'' ''b'' 7,
     Claim ''t'' ''b'' 7, Record_Failure ''t'' ''E'' ''b'' 7, Claim ''t'' ''b'' 7]"

theorem crashed_last_attempt_is_stuck_witness:
  "\<exists>r db'. reset_processing ''t'' ''b'' (fold (apply_inbox_op demo_print id) demo_crash demo_inbox) = (Inr 1, db')
     \<and> find_row db' ''b'' 7 = Some r \<and> u_status r = ''received'' \<and> \<not> due_row (\<lambda>_. None) ''b'' 1000 r"
proof -
  let ?db = "fold (apply_inbox_op demo_print id) demo_crash demo_inbox"
  have "inbox_ok ?db" "map_option u_status (find_row ?db ''b'' 7) = Some ''processing''"
    "map_option u_attempt_count (find_row ?db ''b'' 7) = Some 3" "fst (reset_processing ''t'' ''b'' ?db) = Inr 1"
    by (code_simp, code_simp, code_simp, code_simp)
  then obtain r db' where "find_row ?db ''b'' 7 = Some r" "u_status r = ''processing''" "u_attempt_count r = 3"
    "reset_processing ''t'' ''b'' ?db = (Inr 1, db')" by (auto simp: prod_eq_iff)
  with crashed_last_attempt_is_stuck [OF \<open>inbox_ok ?db\<close> this, where unixepoch = "\<lambda>_. None" and t = 1000 and as = "[]"]
  show ?thesis by blast
qed

end
