(* ===== verification/Lock_Table.thy ===== *)
theory Lock_Table
  imports Bridge_Prelude "HOL-Library.Multiset"
begin

text \<open>
  \<^verbatim>\<open>src/lock_table.rs\<close> and its clients \<^verbatim>\<open>bridge/locator_locks.rs\<close> and
  \<^verbatim>\<open>telegram/locks.rs\<close>: a bounded table of per-key mutexes whose idle entries are
  evicted; and the unbounded \<^verbatim>\<open>chat/locks.rs\<close>. A mutex is a number, its identity; an
  \<^verbatim>\<open>Arc\<close> of it is held by the table and by every client that waits for it or holds its
  guard, which is what \<^verbatim>\<open>Arc::strong_count\<close> counts. Instants are numbers of
  milliseconds; \<^verbatim>\<open>duration_since\<close> saturates at zero as subtraction on \<^typ>\<open>nat\<close> does.
  The iteration order of the hash map is an argument, read as a permutation of the entries.
\<close>

named_theorems lock_defs \<open>definitions of the lock tables\<close>

section \<open>The table\<close>

record lock_entry =
  lock :: nat
  last_used :: nat

record lock_table =
  entries :: "(string \<times> lock_entry) list"
  capacity :: nat
  ttl :: nat

datatype at_capacity = AtCapacity

definition new_table :: "nat \<Rightarrow> nat \<Rightarrow> lock_table" where
  "new_table cap t = \<lparr>entries = [], capacity = cap, ttl = t\<rparr>"

definition contains_key :: "(string \<times> lock_entry) list \<Rightarrow> string \<Rightarrow> bool" where [lock_defs]:
  "contains_key es k \<longleftrightarrow> map_of es k \<noteq> None"

definition remove_entry :: "string \<Rightarrow> (string \<times> lock_entry) list \<Rightarrow> (string \<times> lock_entry) list" where [lock_defs]:
  "remove_entry k es = filter (\<lambda>(k', e). k' \<noteq> k) es"

text \<open>The closure given to \<^verbatim>\<open>retain\<close>: \<open>uses\<close> counts the clones of a lock outside the table.\<close>

definition retained :: "(nat \<Rightarrow> nat) \<Rightarrow> nat \<Rightarrow> nat \<Rightarrow> lock_entry \<Rightarrow> bool" where [lock_defs]:
  "retained uses now t e \<longleftrightarrow> 1 + uses (lock e) > 1 \<or> now - last_used e < t"

definition retain :: "(nat \<Rightarrow> nat) \<Rightarrow> nat \<Rightarrow> nat \<Rightarrow> (string \<times> lock_entry) list \<Rightarrow> (string \<times> lock_entry) list" where [lock_defs]:
  "retain uses now t es = filter (\<lambda>(k, e). retained uses now t e) es"

text \<open>\<^verbatim>\<open>min_by_key\<close>: the first of the entries with the least \<^verbatim>\<open>last_used\<close>.\<close>

fun least_recent :: "(string \<times> lock_entry) list \<Rightarrow> (string \<times> lock_entry) option" where
  "least_recent [] = None"
| "least_recent (x # xs) =
     (case least_recent xs of
        None \<Rightarrow> Some x
      | Some y \<Rightarrow> if last_used (snd x) \<le> last_used (snd y) then Some x else Some y)"

definition iterated ::
    "((string \<times> lock_entry) list \<Rightarrow> (string \<times> lock_entry) list) \<Rightarrow> (string \<times> lock_entry) list
      \<Rightarrow> (string \<times> lock_entry) list" where [lock_defs]:
  "iterated iter es = (if mset (iter es) = mset es then iter es else es)"

definition victim :: "(nat \<Rightarrow> nat) \<Rightarrow> (string \<times> lock_entry) list \<Rightarrow> string option" where [lock_defs]:
  "victim uses es = map_option fst (least_recent (filter (\<lambda>(k, e). 1 + uses (lock e) = 1) es))"

text \<open>\<^verbatim>\<open>entries.entry(key).or_insert_with(..)\<close>, then \<^verbatim>\<open>last_used = now\<close>; returns the lock.\<close>

definition touch ::
    "nat \<Rightarrow> nat \<Rightarrow> string \<Rightarrow> (string \<times> lock_entry) list \<Rightarrow> nat \<times> (string \<times> lock_entry) list" where [lock_defs]:
  "touch fresh now key es =
     (case map_of es key of
        None \<Rightarrow> (fresh, (key, \<lparr>lock = fresh, last_used = now\<rparr>) # es)
      | Some e \<Rightarrow> (lock e, map (\<lambda>(k, e'). (k, if k = key then e'\<lparr>last_used := now\<rparr> else e')) es))"

text \<open>The part of \<^verbatim>\<open>acquire\<close> that runs under the table's own mutex: it returns the clone of the
  key's lock that the caller then waits on.\<close>

definition acquire ::
    "((string \<times> lock_entry) list \<Rightarrow> (string \<times> lock_entry) list) \<Rightarrow> (nat \<Rightarrow> nat) \<Rightarrow> nat \<Rightarrow> nat \<Rightarrow> string
      \<Rightarrow> lock_table \<Rightarrow> (at_capacity + nat) \<times> lock_table" where
  "acquire iter uses now fresh key T =
     (if capacity T = 0 then (Inl AtCapacity, T)
      else
        let es = retain uses now (ttl T) (entries T) in
        if \<not> contains_key es key \<and> length es \<ge> capacity T then
          case victim uses (iterated iter es) of
            None \<Rightarrow> (Inl AtCapacity, T\<lparr>entries := es\<rparr>)
          | Some k \<Rightarrow>
              (case touch fresh now key (remove_entry k es) of (l, es') \<Rightarrow> (Inr l, T\<lparr>entries := es'\<rparr>))
        else (case touch fresh now key es of (l, es') \<Rightarrow> (Inr l, T\<lparr>entries := es'\<rparr>)))"

definition table_len :: "lock_table \<Rightarrow> nat" where
  "table_len T = length (entries T)"

definition table_contains :: "lock_table \<Rightarrow> string \<Rightarrow> bool" where
  "table_contains T k = contains_key (entries T) k"

definition active_count :: "(nat \<Rightarrow> nat) \<Rightarrow> lock_table \<Rightarrow> nat" where
  "active_count uses T = length (filter (\<lambda>(k, e). 1 + uses (lock e) > 1) (entries T))"

definition prune :: "(nat \<Rightarrow> nat) \<Rightarrow> nat \<Rightarrow> lock_table \<Rightarrow> nat \<times> lock_table" where
  "prune uses now T =
     (let es = retain uses now (ttl T) (entries T)
      in (length (entries T) - length es, T\<lparr>entries := es\<rparr>))"

section \<open>The managers built on it\<close>

definition locator_acquire ::
    "((string \<times> lock_entry) list \<Rightarrow> (string \<times> lock_entry) list) \<Rightarrow> (nat \<Rightarrow> nat) \<Rightarrow> nat \<Rightarrow> nat \<Rightarrow> string
      \<Rightarrow> lock_table \<Rightarrow> (string + nat) \<times> lock_table" where
  "locator_acquire iter uses now fresh key T =
     (case acquire iter uses now fresh key T of (r, T') \<Rightarrow> (map_err (\<lambda>_. ''LOCATOR_LOCK_CAPACITY'') r, T'))"

definition delivery_acquire ::
    "((string \<times> lock_entry) list \<Rightarrow> (string \<times> lock_entry) list) \<Rightarrow> (nat \<Rightarrow> nat) \<Rightarrow> nat \<Rightarrow> nat \<Rightarrow> string
      \<Rightarrow> lock_table \<Rightarrow> (string + nat) \<times> lock_table" where
  "delivery_acquire iter uses now fresh key T =
     (case acquire iter uses now fresh key T of (r, T') \<Rightarrow> (map_err (\<lambda>_. ''DELIVERY_LOCK_CAPACITY'') r, T'))"

text \<open>\<^verbatim>\<open>ConversationLocks\<close>: a map from conversations to mutexes that only grows.\<close>

record conversation_locks =
  inner :: "(string \<times> nat) list"

definition conversation_lock :: "nat \<Rightarrow> string \<Rightarrow> conversation_locks \<Rightarrow> nat \<times> conversation_locks" where
  "conversation_lock fresh key L =
     (case map_of (inner L) key of
        Some l \<Rightarrow> (l, L)
      | None \<Rightarrow> (fresh, L\<lparr>inner := (key, fresh) # inner L\<rparr>))"

section \<open>Clients\<close>

text \<open>A client is a caller of \<^verbatim>\<open>acquire\<close> that owns a clone of the key's lock: it awaits
  \<^verbatim>\<open>lock_owned\<close> or holds the guard. Dropping the guard, or the future that waits, ends it.\<close>

record lock_client =
  client_id :: nat
  client_key :: string
  client_lock :: nat
  holding :: bool

record 'tbl lock_system =
  table :: 'tbl
  clients :: "lock_client list"
  next_lock :: nat
  next_client :: nat

definition uses_of :: "lock_client list \<Rightarrow> nat \<Rightarrow> nat" where [lock_defs]:
  "uses_of cs l = length (filter (\<lambda>c. client_lock c = l) cs)"

definition grantable :: "lock_client list \<Rightarrow> lock_client \<Rightarrow> bool" where [lock_defs]:
  "grantable cs c \<longleftrightarrow> \<not> list_ex (\<lambda>d. holding d \<and> client_lock d = client_lock c) cs"

inductive lock_step ::
    "((nat \<Rightarrow> nat) \<Rightarrow> nat \<Rightarrow> nat \<Rightarrow> string \<Rightarrow> 'tbl \<Rightarrow> nat option \<times> 'tbl) \<Rightarrow> ((nat \<Rightarrow> nat) \<Rightarrow> nat \<Rightarrow> 'tbl \<Rightarrow> 'tbl)
      \<Rightarrow> 'tbl lock_system \<Rightarrow> 'tbl lock_system \<Rightarrow> bool"
  for req mnt where
  step_refused: "req (uses_of (clients s)) now (next_lock s) key (table s) = (None, T)
      \<Longrightarrow> lock_step req mnt s (s\<lparr>table := T\<rparr>)"
| step_request: "req (uses_of (clients s)) now (next_lock s) key (table s) = (Some l, T)
      \<Longrightarrow> lock_step req mnt s
            (s\<lparr>table := T, next_lock := Suc (next_lock s), next_client := Suc (next_client s),
              clients := \<lparr>client_id = next_client s, client_key = key, client_lock = l, holding = False\<rparr> # clients s\<rparr>)"
| step_grant: "c \<in> set (clients s) \<Longrightarrow> \<not> holding c \<Longrightarrow> grantable (clients s) c
      \<Longrightarrow> lock_step req mnt s
            (s\<lparr>clients := map (\<lambda>d. if client_id d = client_id c then d\<lparr>holding := True\<rparr> else d) (clients s)\<rparr>)"
| step_drop: "lock_step req mnt s (s\<lparr>clients := filter (\<lambda>d. client_id d \<noteq> i) (clients s)\<rparr>)"
| step_prune: "lock_step req mnt s (s\<lparr>table := mnt (uses_of (clients s)) now (table s)\<rparr>)"

definition initial_locks :: "'tbl \<Rightarrow> 'tbl lock_system" where
  "initial_locks T = \<lparr>table = T, clients = [], next_lock = 0, next_client = 0\<rparr>"

inductive lock_reach for req mnt T where
  reach_init: "lock_reach req mnt T (initial_locks T)"
| reach_step: "lock_reach req mnt T s \<Longrightarrow> lock_step req mnt s s' \<Longrightarrow> lock_reach req mnt T s'"

definition bounded_request ::
    "((string \<times> lock_entry) list \<Rightarrow> (string \<times> lock_entry) list) \<Rightarrow> (nat \<Rightarrow> nat) \<Rightarrow> nat \<Rightarrow> nat \<Rightarrow> string
      \<Rightarrow> lock_table \<Rightarrow> nat option \<times> lock_table" where
  "bounded_request iter uses now fresh key T =
     (case acquire iter uses now fresh key T of (Inl _, T') \<Rightarrow> (None, T') | (Inr l, T') \<Rightarrow> (Some l, T'))"

definition bounded_prune :: "(nat \<Rightarrow> nat) \<Rightarrow> nat \<Rightarrow> lock_table \<Rightarrow> lock_table" where
  "bounded_prune uses now T = snd (prune uses now T)"

definition unbounded_request ::
    "(nat \<Rightarrow> nat) \<Rightarrow> nat \<Rightarrow> nat \<Rightarrow> string \<Rightarrow> conversation_locks \<Rightarrow> nat option \<times> conversation_locks" where
  "unbounded_request uses now fresh key L = (case conversation_lock fresh key L of (l, L') \<Rightarrow> (Some l, L'))"

section \<open>What a table of locks promises\<close>

text \<open>The contract between a table and its clients. A request for a key answers with the key's
  lock; a lock in use stays the lock of its key; and the only lock that can appear is the fresh
  one, for the requested key.\<close>

locale keyed_locks =
  fixes lock_of :: "'tbl \<Rightarrow> string \<Rightarrow> nat option"
    and tbl_ok :: "'tbl \<Rightarrow> bool"
    and req :: "(nat \<Rightarrow> nat) \<Rightarrow> nat \<Rightarrow> nat \<Rightarrow> string \<Rightarrow> 'tbl \<Rightarrow> nat option \<times> 'tbl"
    and mnt :: "(nat \<Rightarrow> nat) \<Rightarrow> nat \<Rightarrow> 'tbl \<Rightarrow> 'tbl"
  assumes req_ok: "tbl_ok T \<Longrightarrow> req u n f k T = (r, T') \<Longrightarrow> tbl_ok T'"
    and mnt_ok: "tbl_ok T \<Longrightarrow> tbl_ok (mnt u n T)"
    and req_gives: "tbl_ok T \<Longrightarrow> req u n f k T = (Some l, T') \<Longrightarrow> lock_of T' k = Some l"
    and req_keeps: "tbl_ok T \<Longrightarrow> req u n f k T = (r, T') \<Longrightarrow> lock_of T k' = Some l \<Longrightarrow> 0 < u l \<Longrightarrow> lock_of T' k' = Some l"
    and req_origin: "tbl_ok T \<Longrightarrow> req u n f k T = (r, T') \<Longrightarrow> lock_of T' k' = Some l
      \<Longrightarrow> lock_of T k' = Some l \<or> r \<noteq> None \<and> k' = k \<and> l = f"
    and mnt_keeps: "tbl_ok T \<Longrightarrow> lock_of T k = Some l \<Longrightarrow> 0 < u l \<Longrightarrow> lock_of (mnt u n T) k = Some l"
    and mnt_origin: "tbl_ok T \<Longrightarrow> lock_of (mnt u n T) k = Some l \<Longrightarrow> lock_of T k = Some l"
begin

definition sys_ok :: "'tbl lock_system \<Rightarrow> bool" where
  "sys_ok s \<longleftrightarrow> tbl_ok (table s)
     \<and> distinct (map client_id (clients s))
     \<and> (\<forall>c \<in> set (clients s). lock_of (table s) (client_key c) = Some (client_lock c) \<and> client_id c < next_client s)
     \<and> (\<forall>k l. lock_of (table s) k = Some l \<longrightarrow> l < next_lock s)
     \<and> (\<forall>k k' l. lock_of (table s) k = Some l \<longrightarrow> lock_of (table s) k' = Some l \<longrightarrow> k = k')
     \<and> (\<forall>c \<in> set (clients s). \<forall>d \<in> set (clients s).
          holding c \<longrightarrow> holding d \<longrightarrow> client_lock c = client_lock d \<longrightarrow> c = d)"

lemma sys_okI:
  assumes "tbl_ok (table s)" "distinct (map client_id (clients s))"
    and "\<And>c. c \<in> set (clients s) \<Longrightarrow> lock_of (table s) (client_key c) = Some (client_lock c) \<and> client_id c < next_client s"
    and "\<And>k l. lock_of (table s) k = Some l \<Longrightarrow> l < next_lock s"
    and "\<And>k k' l. lock_of (table s) k = Some l \<Longrightarrow> lock_of (table s) k' = Some l \<Longrightarrow> k = k'"
    and "\<And>c d. c \<in> set (clients s) \<Longrightarrow> d \<in> set (clients s) \<Longrightarrow> holding c \<Longrightarrow> holding d
      \<Longrightarrow> client_lock c = client_lock d \<Longrightarrow> c = d"
  shows "sys_ok s"
  using assms unfolding sys_ok_def by blast

lemma sys_okD:
  assumes "sys_ok s"
  shows "tbl_ok (table s)" "distinct (map client_id (clients s))"
    and "c \<in> set (clients s) \<Longrightarrow> lock_of (table s) (client_key c) = Some (client_lock c) \<and> client_id c < next_client s"
    and "lock_of (table s) k = Some l \<Longrightarrow> l < next_lock s"
    and "lock_of (table s) k = Some l \<Longrightarrow> lock_of (table s) k' = Some l \<Longrightarrow> k = k'"
    and "c \<in> set (clients s) \<Longrightarrow> d \<in> set (clients s) \<Longrightarrow> holding c \<Longrightarrow> holding d
      \<Longrightarrow> client_lock c = client_lock d \<Longrightarrow> c = d"
  using assms unfolding sys_ok_def by blast+

lemma client_uses: "c \<in> set cs \<Longrightarrow> 0 < uses_of cs (client_lock c)"
  by (auto simp: uses_of_def filter_empty_conv)

lemma sys_ok_table:
  assumes "sys_ok s" and "tbl_ok T"
    and keep: "\<And>k l. lock_of (table s) k = Some l \<Longrightarrow> 0 < uses_of (clients s) l \<Longrightarrow> lock_of T k = Some l"
    and origin: "\<And>k l. lock_of T k = Some l \<Longrightarrow> lock_of (table s) k = Some l"
  shows "sys_ok (s\<lparr>table := T\<rparr>)"
proof (rule sys_okI, goal_cases)
  case (3 c)
  then show ?case using sys_okD(3) [OF assms(1)] by (simp add: keep client_uses)
next
  case (4 k l)
  then show ?case using sys_okD(4) [OF assms(1) origin, of k l] by simp
next
  case (5 k k' l)
  then show ?case using sys_okD(5) [OF assms(1)] origin by simp
next
  case (6 c d)
  then show ?case using sys_okD(6) [OF assms(1), of c d] by simp
qed (use assms(2) sys_okD(2) [OF assms(1)] in simp_all)

lemma sys_ok_request:
  assumes ok: "sys_ok s" and r: "req (uses_of (clients s)) now (next_lock s) key (table s) = (Some l, T)"
  shows "sys_ok (s\<lparr>table := T, next_lock := Suc (next_lock s), next_client := Suc (next_client s),
     clients := \<lparr>client_id = next_client s, client_key = key, client_lock = l, holding = False\<rparr> # clients s\<rparr>)"
proof -
  from ok have t: "tbl_ok (table s)" by (simp add: sys_ok_def)
  note origin = req_origin [OF t r]
  have "lock_of T (client_key c) = Some (client_lock c)" if "c \<in> set (clients s)" for c
    using req_keeps [OF t r _ client_uses [OF that]] ok that by (auto simp: sys_ok_def)
  moreover have "k < Suc (next_lock s)" if "lock_of T x = Some k" for x k
    using origin [OF that] ok by (auto simp: sys_ok_def less_Suc_eq)
  moreover have "x = y" if "lock_of T x = Some k" "lock_of T y = Some k" for x y k
    using origin [OF that(1)] origin [OF that(2)] ok by (auto simp: sys_ok_def)
  ultimately show ?thesis
    using ok req_ok [OF t r] req_gives [OF t r] by (auto simp: sys_ok_def less_Suc_eq)
qed

lemma sys_ok_grant:
  assumes ok: "sys_ok s" and c: "c \<in> set (clients s)" "grantable (clients s) c"
  shows "sys_ok (s\<lparr>clients := map (\<lambda>d. if client_id d = client_id c then d\<lparr>holding := True\<rparr> else d) (clients s)\<rparr>)"
proof -
  let ?f = "\<lambda>d. if client_id d = client_id c then d\<lparr>holding := True\<rparr> else d"
  from ok have "inj_on client_id (set (clients s))" by (simp add: sys_ok_def distinct_map)
  then have same: "client_id d = client_id c \<longleftrightarrow> d = c" if "d \<in> set (clients s)" for d
    using that c(1) by (auto dest: inj_onD)
  have "map client_id (map ?f (clients s)) = map client_id (clients s)" by simp
  then have "distinct (map client_id (map ?f (clients s)))"
    using ok unfolding sys_ok_def by presburger
  moreover have "x = y" if "x \<in> set (map ?f (clients s))" "y \<in> set (map ?f (clients s))"
    "holding x" "holding y" "client_lock x = client_lock y" for x y
  proof -
    from that(1,2) obtain p q where p: "p \<in> set (clients s)" "x = ?f p" and q: "q \<in> set (clients s)" "y = ?f q" by auto
    show ?thesis
      using that(3-5) p q c(2) same [OF p(1)] same [OF q(1)] sys_okD(6) [OF ok p(1) q(1)]
      by (cases "p = c"; cases "q = c") (auto simp: grantable_def list_ex_iff)
  qed
  ultimately show ?thesis
  proof (intro sys_okI, goal_cases)
    case (3 d)
    from 3(3) obtain p where "p \<in> set (clients s)" "d = ?f p" by auto
    then show ?case using sys_okD(3) [OF ok, of p] by simp
  next
    case (5 k k' l)
    then show ?case using sys_okD(5) [OF ok] by simp
  next
    case (6 x y)
    then show ?case by simp
  qed (use sys_okD(1,4) [OF ok] in simp_all)
qed

lemma sys_ok_step:
  assumes "lock_step req mnt s s'" "sys_ok s"
  shows "sys_ok s'"
  using assms
proof (cases rule: lock_step.cases)
  case (step_refused now key T)
  from assms(2) have t: "tbl_ok (table s)" by (simp add: sys_ok_def)
  show ?thesis unfolding step_refused(1)
    by (rule sys_ok_table [OF assms(2) req_ok [OF t step_refused(2)] req_keeps [OF t step_refused(2)]])
      (use req_origin [OF t step_refused(2)] in simp_all)
next
  case (step_request now key l T)
  then show ?thesis by (simp only: sys_ok_request [OF assms(2)])
next
  case (step_grant c)
  then show ?thesis by (simp only: sys_ok_grant [OF assms(2)])
next
  case (step_drop i)
  show ?thesis unfolding step_drop
  proof (rule sys_okI, goal_cases)
    case (5 k k' l)
    then show ?case using sys_okD(5) [OF assms(2)] by simp
  next
    case (6 c d)
    then show ?case using sys_okD(6) [OF assms(2), of c d] by simp
  qed (use sys_okD(1-4) [OF assms(2)] in \<open>simp_all add: distinct_map_filter\<close>)
next
  case (step_prune now)
  from assms(2) have t: "tbl_ok (table s)" by (simp add: sys_ok_def)
  show ?thesis unfolding step_prune(1)
    by (rule sys_ok_table [OF assms(2) mnt_ok [OF t] mnt_keeps [OF t] mnt_origin [OF t]])
qed

lemma reachable_ok:
  assumes "lock_reach req mnt T s" "tbl_ok T" "\<And>k. lock_of T k = None"
  shows "sys_ok s"
  using assms
proof (induction rule: lock_reach.induct)
  case reach_init
  then show ?case by (simp add: sys_ok_def initial_locks_def)
next
  case (reach_step s s')
  then show ?case by (simp add: sys_ok_step)
qed

lemma one_holder_per_key:
  assumes "lock_reach req mnt T s" "tbl_ok T" "\<And>k. lock_of T k = None"
    and "c \<in> set (clients s)" "d \<in> set (clients s)" "holding c" "holding d" "client_key c = client_key d"
  shows "c = d"
  using reachable_ok [OF assms(1-3)] assms(4-8) unfolding sys_ok_def by (metis option.inject)

lemma blocked_by_own_key:
  assumes "lock_reach req mnt T s" "tbl_ok T" "\<And>k. lock_of T k = None" "c \<in> set (clients s)"
  shows "grantable (clients s) c \<longleftrightarrow> \<not> (\<exists>d \<in> set (clients s). holding d \<and> client_key d = client_key c)"
  using reachable_ok [OF assms(1-3)] assms(4) unfolding sys_ok_def grantable_def list_ex_iff
  by (metis option.inject)

end

section \<open>The tables of the program keep the promise\<close>

definition table_lock :: "lock_table \<Rightarrow> string \<Rightarrow> nat option" where
  "table_lock T k = map_option lock (map_of (entries T) k)"

definition table_ok :: "lock_table \<Rightarrow> bool" where
  "table_ok T \<longleftrightarrow> distinct (map fst (entries T)) \<and> length (entries T) \<le> capacity T"

lemma map_of_filter_distinct:
  assumes "distinct (map fst es)"
  shows "map_of (filter (\<lambda>(k, e). P k e) es) k = (case map_of es k of None \<Rightarrow> None | Some e \<Rightarrow> if P k e then Some e else None)"
  using assms by (induction es) (auto simp: map_of_eq_None_iff split: option.splits)

lemma map_of_map_values: "map_of (map (\<lambda>(k, e). (k, f k e)) es) k = map_option (f k) (map_of es k)"
  by (induction es) auto

lemma filter_full: "length xs \<le> length (filter P xs) \<Longrightarrow> filter P xs = xs"
  by (metis filter_True length_filter_less not_le)

lemma least_recent_in: "least_recent es = Some x \<Longrightarrow> x \<in> set es"
  by (induction es arbitrary: x) (auto split: option.splits if_splits)

lemma least_recent_None: "least_recent es = None \<longleftrightarrow> es = []"
  by (cases es) (auto split: option.splits)

lemma set_iterated: "set (iterated iter es) = set es"
  by (auto simp: iterated_def dest: mset_eq_setD)

lemma victim_unused:
  assumes "victim uses (iterated iter es) = Some k" "distinct (map fst es)"
  shows "\<exists>e. map_of es k = Some e \<and> uses (lock e) = 0"
proof -
  from assms(1) obtain e where "(k, e) \<in> set es" "uses (lock e) = 0"
    by (auto simp: victim_def set_iterated dest!: least_recent_in)
  with assms(2) show ?thesis by auto
qed

lemma victim_None: "victim uses (iterated iter es) = None \<longleftrightarrow> (\<forall>(k, e) \<in> set es. 0 < uses (lock e))"
  by (auto simp: victim_def least_recent_None filter_empty_conv set_iterated)

lemma touch_facts:
  assumes "touch fresh now key es = (l, es')" "distinct (map fst es)"
  shows "distinct (map fst es')"
    and "map_option lock (map_of es' k) = (if k = key then Some l else map_option lock (map_of es k))"
    and "l = (case map_of es key of None \<Rightarrow> fresh | Some e \<Rightarrow> lock e)"
    and "length es' = (if contains_key es key then length es else Suc (length es))"
proof -
  let ?f = "\<lambda>(k, e'). (k, if k = key then e'\<lparr>last_used := now\<rparr> else e')"
  consider (new) "map_of es key = None" "l = fresh" "es' = (key, \<lparr>lock = fresh, last_used = now\<rparr>) # es"
    | (old) e where "map_of es key = Some e" "l = lock e" "es' = map ?f es"
    using assms(1) by (auto simp: touch_def split: option.splits)
  note cases = this
  show "distinct (map fst es')"
    using cases
  proof cases
    case old
    have "map fst (map ?f es) = map fst es" by (simp add: case_prod_beta)
    with old show ?thesis using assms(2) by presburger
  qed (use assms(2) in \<open>simp add: map_of_eq_None_iff\<close>)
  show "map_option lock (map_of es' k) = (if k = key then Some l else map_option lock (map_of es k))"
    using cases by cases (simp_all add: map_of_map_values option.map_comp comp_def)
  show "l = (case map_of es key of None \<Rightarrow> fresh | Some e \<Rightarrow> lock e)"
    using cases by cases simp_all
  show "length es' = (if contains_key es key then length es else Suc (length es))"
    using cases by cases (simp_all add: contains_key_def)
qed

lemma retain_facts:
  assumes "distinct (map fst es)"
  shows "distinct (map fst (retain u now t es))" "length (retain u now t es) \<le> length es"
    and "map_of (retain u now t es) k
      = (case map_of es k of None \<Rightarrow> None | Some e \<Rightarrow> if retained u now t e then Some e else None)"
  using assms by (simp_all add: retain_def distinct_map_filter map_of_filter_distinct)

lemma remove_facts:
  assumes "distinct (map fst es)"
  shows "distinct (map fst (remove_entry v es))" "map_of (remove_entry v es) k = (if k = v then None else map_of es k)"
    and "contains_key es v \<Longrightarrow> Suc (length (remove_entry v es)) = length es"
proof -
  show "distinct (map fst (remove_entry v es))" using assms by (simp add: remove_entry_def distinct_map_filter)
  show "map_of (remove_entry v es) k = (if k = v then None else map_of es k)"
    using assms by (auto simp: remove_entry_def map_of_filter_distinct split: option.splits)
  show "Suc (length (remove_entry v es)) = length es" if "contains_key es v"
  proof -
    from that obtain e where "map_of es v = Some e" by (auto simp: contains_key_def)
    then obtain xs ys where es: "es = xs @ (v, e) # ys" by (meson map_of_SomeD split_list)
    with assms have "filter (\<lambda>(k', e). k' \<noteq> v) xs = xs" "filter (\<lambda>(k', e). k' \<noteq> v) ys = ys"
      by (auto simp: filter_id_conv rev_image_eqI)
    with es show ?thesis by (simp add: remove_entry_def)
  qed
qed

text \<open>What one request does to the table, whatever its outcome.\<close>

lemma bounded_request_cases:
  assumes "bounded_request iter u now f key T = (r, T')" "table_ok T"
  obtains (refused) "r = None" "capacity T = 0 \<or> \<not> contains_key (entries T') key
        \<and> length (entries T') = capacity T \<and> active_count u T' = capacity T"
      "T' = T \<or> T' = T\<lparr>entries := retain u now (ttl T) (entries T)\<rparr>"
  | (granted) l es where "r = Some l" "touch f now key es = (l, entries T')" "T' = T\<lparr>entries := entries T'\<rparr>"
      "distinct (map fst es)" "contains_key es key \<or> length es < capacity T" "length es \<le> capacity T"
      "\<And>k e. map_of es k = Some e \<Longrightarrow> map_of (entries T) k = Some e"
      "\<And>k e. map_of (entries T) k = Some e \<Longrightarrow> 0 < u (lock e) \<Longrightarrow> map_of es k = Some e"
proof (cases "capacity T = 0")
  case True
  then show ?thesis using assms by (intro refused) (auto simp: bounded_request_def acquire_def)
next
  case False
  define es where "es = retain u now (ttl T) (entries T)"
  from assms(2) have d: "distinct (map fst (entries T))" by (simp add: table_ok_def)
  note ret = retain_facts [OF d, of u now "ttl T", folded es_def]
  have len: "length es \<le> capacity T" using ret(2) assms(2) by (simp add: table_ok_def)
  have sub: "map_of (entries T) k = Some e" if "map_of es k = Some e" for k e
    using that by (auto simp: ret(3) split: option.splits if_splits)
  have keep: "map_of es k = Some e" if "map_of (entries T) k = Some e" "0 < u (lock e)" for k e
    using that by (simp add: ret(3) retained_def)
  show ?thesis
  proof (cases "\<not> contains_key es key \<and> length es \<ge> capacity T")
    case full: True
    show ?thesis
    proof (cases "victim u (iterated iter es)")
      case None
      then have "filter (\<lambda>(k, e). 1 < 1 + u (lock e)) es = es"
        by (auto simp: victim_None filter_id_conv)
      with None full False len assms(1) show ?thesis
        by (intro refused) (auto simp: bounded_request_def acquire_def es_def active_count_def)
    next
      case (Some v)
      from victim_unused [OF this ret(1)] obtain e where v: "map_of es v = Some e" "u (lock e) = 0" by blast
      then have "Suc (length (remove_entry v es)) = length es"
        by (intro remove_facts(3) [OF ret(1)]) (simp add: contains_key_def)
      moreover obtain l es' where t: "touch f now key (remove_entry v es) = (l, es')" by (cases "touch f now key (remove_entry v es)")
      then have "r = Some l" "T' = T\<lparr>entries := es'\<rparr>"
        using assms(1) Some full False by (simp_all add: bounded_request_def acquire_def es_def [symmetric])
      ultimately show ?thesis
      proof (intro granted [of l "remove_entry v es"], goal_cases)
        case (7 k e)
        then show ?case using sub by (simp add: remove_facts(2) [OF ret(1)] split: if_splits)
      next
        case (8 k e)
        then have "map_of es k = Some e" by (intro keep)
        with 8(5) v show ?case by (auto simp: remove_facts(2) [OF ret(1)])
      qed (use t len remove_facts(1) [OF ret(1)] in simp_all)
    qed
  next
    case room: False
    obtain l es' where t: "touch f now key es = (l, es')" by (cases "touch f now key es")
    with room have "r = Some l" "T' = T\<lparr>entries := es'\<rparr>"
      using assms(1) False by (auto simp: bounded_request_def acquire_def es_def [symmetric])
    with t room show ?thesis
      using len by (intro granted [of l es, OF _ _ _ ret(1) _ _ sub keep]) auto
  qed
qed

lemma table_ok_request:
  assumes "table_ok T" "bounded_request iter u now f key T = (r, T')"
  shows "table_ok T' \<and> capacity T' = capacity T"
  using assms(2,1)
proof (cases rule: bounded_request_cases)
  case refused
  then show ?thesis using assms(1) retain_facts(1,2) [of "entries T" u now "ttl T"] by (auto simp: table_ok_def)
next
  case (granted l es)
  from granted(3) have "capacity T' = capacity T" by (metis lock_table.select_convs(2) lock_table.surjective lock_table.update_convs(1))
  then show ?thesis
    using granted(5,6) touch_facts(1,4) [OF granted(2,4)] by (auto simp: table_ok_def split: if_splits)
qed

interpretation bounded: keyed_locks table_lock table_ok "bounded_request iter" bounded_prune for iter
proof
  fix T :: lock_table and u :: "nat \<Rightarrow> nat" and n f l :: nat and k k' :: string and r :: "nat option" and T' :: lock_table
  show "table_ok T'" if "table_ok T" "bounded_request iter u n f k T = (r, T')"
    using table_ok_request [OF that] by simp
  show "table_ok (bounded_prune u n T)" if "table_ok T"
    using that retain_facts(1,2) [of "entries T" u n "ttl T"] by (auto simp: table_ok_def bounded_prune_def prune_def Let_def)
  show "table_lock T' k = Some l" if "table_ok T" "bounded_request iter u n f k T = (Some l, T')"
    using that(2,1) by (cases rule: bounded_request_cases) (auto simp: table_lock_def touch_facts(2))
  show "table_lock T' k' = Some l"
    if "table_ok T" "bounded_request iter u n f k T = (r, T')" "table_lock T k' = Some l" "0 < u l"
    using that(2,1)
  proof (cases rule: bounded_request_cases)
    case refused
    with that show ?thesis
      by (auto simp: table_lock_def table_ok_def retain_facts retained_def)
  next
    case (granted l' es)
    from that(3,4) obtain e where e: "map_of es k' = Some e" "lock e = l"
      using granted(8) by (auto simp: table_lock_def)
    then show ?thesis
      using touch_facts(2,3) [OF granted(2,4)] by (auto simp: table_lock_def)
  qed
  show "table_lock T k' = Some l \<or> r \<noteq> None \<and> k' = k \<and> l = f"
    if "table_ok T" "bounded_request iter u n f k T = (r, T')" "table_lock T' k' = Some l"
    using that(2,1)
  proof (cases rule: bounded_request_cases)
    case refused
    with that show ?thesis
      by (auto simp: table_lock_def table_ok_def retain_facts split: option.splits if_splits)
  next
    case (granted l' es)
    from that(3) have "(if k' = k then Some l' else map_option lock (map_of es k')) = Some l"
      using touch_facts(2) [OF granted(2,4), of k'] by (simp add: table_lock_def)
    then show ?thesis
      using touch_facts(3) [OF granted(2,4)] granted(1,7) by (auto simp: table_lock_def split: if_splits option.splits)
  qed
  show "table_lock (bounded_prune u n T) k = Some l" if "table_ok T" "table_lock T k = Some l" "0 < u l"
    using that by (auto simp: table_lock_def table_ok_def bounded_prune_def prune_def Let_def retain_facts retained_def)
  show "table_lock T k = Some l" if "table_ok T" "table_lock (bounded_prune u n T) k = Some l"
    using that by (auto simp: table_lock_def table_ok_def bounded_prune_def prune_def Let_def retain_facts
        split: option.splits if_splits)
qed

interpretation unbounded: keyed_locks "\<lambda>L. map_of (inner L)" "\<lambda>_. True" unbounded_request "\<lambda>_ _ L. L"
  by unfold_locales (auto simp: unbounded_request_def conversation_lock_def split: option.splits if_splits)

lemma bounded_reach_table:
  assumes "lock_reach (bounded_request iter) bounded_prune (new_table cap t) s"
  shows "table_ok (table s) \<and> capacity (table s) = cap"
  using assms
proof (induction rule: lock_reach.induct)
  case reach_init
  then show ?case by (simp add: initial_locks_def new_table_def table_ok_def)
next
  case (reach_step s s')
  from reach_step(2) reach_step(3) show ?case
    by (cases rule: lock_step.cases) (auto dest: table_ok_request bounded.mnt_ok simp: bounded_prune_def prune_def Let_def)
qed

text \<open>A request is refused exactly when no entry can be given up.\<close>

lemma acquire_refused_iff:
  assumes ok: "table_ok T"
  shows "fst (acquire iter u now f key T) = Inl AtCapacity
    \<longleftrightarrow> capacity T = 0 \<or> \<not> table_contains T key \<and> active_count u T = capacity T"
proof
  obtain r T' where b: "bounded_request iter u now f key T = (r, T')"
    by (cases "bounded_request iter u now f key T")
  assume "fst (acquire iter u now f key T) = Inl AtCapacity"
  with b have "r = None" by (cases "acquire iter u now f key T") (auto simp: bounded_request_def)
  with b ok show "capacity T = 0 \<or> \<not> table_contains T key \<and> active_count u T = capacity T"
  proof (cases rule: bounded_request_cases)
    case refused
    have "entries T' = entries T" if "length (entries T') = capacity T"
      using refused(3) ok that filter_full [of "entries T" "\<lambda>(k, e). retained u now (ttl T) e"]
      by (auto simp: table_ok_def retain_def)
    with refused(2) show ?thesis by (auto simp: table_contains_def active_count_def)
  qed simp
next
  assume "capacity T = 0 \<or> \<not> table_contains T key \<and> active_count u T = capacity T"
  moreover have "fst (acquire iter u now f key T) = Inl AtCapacity"
    if "\<not> table_contains T key" "active_count u T = capacity T"
  proof -
    have "length (entries T) \<le> length (filter (\<lambda>(k, e). 1 < 1 + u (lock e)) (entries T))"
      using that(2) ok by (simp add: active_count_def table_ok_def)
    then have active: "\<forall>(k, e) \<in> set (entries T). 0 < u (lock e)"
      by (auto dest!: filter_full simp: filter_id_conv)
    then have "retain u now (ttl T) (entries T) = entries T"
      by (auto simp: retain_def retained_def filter_id_conv)
    moreover have "length (entries T) = capacity T"
      using ok that(2) length_filter_le [of "\<lambda>(k, e). 1 < 1 + u (lock e)" "entries T"]
      unfolding active_count_def table_ok_def by linarith
    ultimately show ?thesis
      using that(1) active victim_None [of u iter "entries T"]
      by (simp add: acquire_def table_contains_def)
  qed
  ultimately show "fst (acquire iter u now f key T) = Inl AtCapacity"
    by (auto simp: acquire_def)
qed

section \<open>Properties\<close>

text \<open>C10. Whatever the table evicts and however requests, grants, drops and prunes interleave, at
  most one client at a time holds the lock of a key, and a waiting client is kept back only by a
  holder of its own key: eviction never splits a key into two locks and never joins two keys.\<close>

theorem lock_table_mutual_exclusion:
  assumes "lock_reach (bounded_request iter) bounded_prune (new_table cap t) s"
    and "c \<in> set (clients s)" "d \<in> set (clients s)" "client_key c = client_key d"
  shows "(holding c \<and> holding d \<longrightarrow> c = d)
    \<and> (grantable (clients s) c \<longleftrightarrow> \<not> (\<exists>e \<in> set (clients s). holding e \<and> client_key e = client_key c))"
proof -
  have new: "table_ok (new_table cap t)" "table_lock (new_table cap t) k = None" for k
    by (simp_all add: new_table_def table_ok_def table_lock_def)
  show ?thesis
    using bounded.one_holder_per_key [OF assms(1) new assms(2,3) _ _ assms(4)]
      bounded.blocked_by_own_key [OF assms(1) new assms(2)] by blast
qed

definition demo_locks :: "bool \<Rightarrow> lock_table lock_system" where
  "demo_locks held =
     \<lparr>table = \<lparr>entries = [(''k'', \<lparr>lock = 0, last_used = 9\<rparr>)], capacity = 1, ttl = 0\<rparr>,
      clients = [\<lparr>client_id = 1, client_key = ''k'', client_lock = 0, holding = False\<rparr>,
                 \<lparr>client_id = 0, client_key = ''k'', client_lock = 0, holding = held\<rparr>],
      next_lock = Suc 1, next_client = Suc 1\<rparr>"

lemma demo_locks_reach: "lock_reach (bounded_request id) bounded_prune (new_table 1 0) (demo_locks True)"
proof -
  let ?T = "\<lambda>n. \<lparr>entries = [(''k'', \<lparr>lock = 0, last_used = n\<rparr>)], capacity = 1, ttl = 0\<rparr>"
  let ?s = "\<lparr>table = ?T 5, clients = [\<lparr>client_id = 0, client_key = ''k'', client_lock = 0, holding = False\<rparr>],
    next_lock = 1, next_client = 1\<rparr>"
  note defs = bounded_request_def acquire_def retain_def touch_def contains_key_def initial_locks_def
    new_table_def retained_def uses_of_def demo_locks_def
  have "lock_step (bounded_request id) bounded_prune (initial_locks (new_table 1 0)) ?s"
    using step_request [where req = "bounded_request id" and s = "initial_locks (new_table 1 0)"
        and now = 5 and key = "''k''" and l = 0 and T = "?T 5"] by (simp add: defs)
  moreover have "lock_step (bounded_request id) bounded_prune ?s (demo_locks False)"
    using step_request [where req = "bounded_request id" and s = ?s and now = 9 and key = "''k''" and l = 0 and T = "?T 9"]
    by (simp add: defs)
  moreover have "lock_step (bounded_request id) bounded_prune (demo_locks False) (demo_locks True)"
    using step_grant [where s = "demo_locks False"
        and c = "\<lparr>client_id = 0, client_key = ''k'', client_lock = 0, holding = False\<rparr>"]
    by (simp add: defs grantable_def)
  ultimately show ?thesis by (blast intro: reach_init reach_step)
qed

theorem lock_table_mutual_exclusion_witness:
  "\<exists>c \<in> set (clients (demo_locks True)). holding c
     \<and> filter holding (clients (demo_locks True)) = [c] \<and> \<not> grantable (clients (demo_locks True)) c"
  using lock_table_mutual_exclusion [OF demo_locks_reach, where
      c = "\<lparr>client_id = 0, client_key = ''k'', client_lock = 0, holding = True\<rparr>"
      and d = "\<lparr>client_id = 0, client_key = ''k'', client_lock = 0, holding = True\<rparr>"]
  by (simp add: demo_locks_def)

text \<open>The table never holds more entries than its capacity, and an acquisition is refused
  exactly when the capacity is zero or the key is absent and every one of \<open>cap\<close> entries is in
  use; an idle entry is always given up instead.\<close>

theorem lock_table_capacity:
  assumes "lock_reach (bounded_request iter) bounded_prune (new_table cap t) s"
  shows "table_len (table s) \<le> cap
    \<and> (fst (acquire iter (uses_of (clients s)) now f key (table s)) = Inl AtCapacity
       \<longleftrightarrow> cap = 0 \<or> \<not> table_contains (table s) key \<and> active_count (uses_of (clients s)) (table s) = cap)"
  using acquire_refused_iff bounded_reach_table [OF assms] by (auto simp: table_len_def table_ok_def)

theorem lock_table_capacity_witness:
  "fst (acquire id (uses_of (clients (demo_locks True))) 9 2 ''other'' (table (demo_locks True))) = Inl AtCapacity"
  using lock_table_capacity [OF demo_locks_reach, of 9 2 "''other''"]
  by (simp add: demo_locks_def table_contains_def contains_key_def active_count_def uses_of_def)

end
