(* ===== verification/Sse_Decoder.thy ===== *)
theory Sse_Decoder
  imports Json_Value
begin

text \<open>
  \<^verbatim>\<open>src/adapters/st/sse.rs\<close>: the incremental decoder of server-sent events and the decoding
  of one generation event. The decoder's fields are the record \<open>sse_decoder\<close>; a call that
  mutates it returns its result with the new state, also when it fails, since the fields
  changed before an early return stay changed. Sizes are natural numbers bounded by
  \<open>usize_max\<close>. \<^verbatim>\<open>serde_json::from_str\<close> is an argument.
\<close>

section \<open>The stream decoder\<close>

datatype st_sse_event = Heartbeat | Message (sse_event: "string option") (sse_data: string)

datatype sse_decode_error =
    LineTooLarge | EventTooLarge | InvalidUtf8 | InvalidJson | InvalidPayload | UnsupportedOutput | Truncated

record sse_decoder =
  sd_line :: string
  sd_data :: "string list"
  sd_event :: "string option"
  sd_event_bytes :: nat
  skip_lf :: bool
  max_line :: nat
  max_event :: nat
  bom_prefix :: string
  bom_checked :: bool

definition usize_max :: nat where
  "usize_max = 2 ^ 64 - 1"


definition BOM :: string where
  "BOM = [CHR 0xEF, CHR 0xBB, CHR 0xBF]"

definition sse_new :: "nat \<Rightarrow> nat \<Rightarrow> sse_decoder" where
  "sse_new ml me =
     \<lparr>sd_line = [], sd_data = [], sd_event = None, sd_event_bytes = 0, skip_lf = False, max_line = ml,
      max_event = me, bom_prefix = [], bom_checked = False\<rparr>"

type_synonym sse_result = "(sse_decode_error + st_sse_event list) \<times> sse_decoder"

text \<open>\<^verbatim>\<open>value.strip_prefix(' ').unwrap_or(value)\<close>.\<close>

fun strip_space :: "string \<Rightarrow> string" where
  "strip_space (c # cs) = (if c = CHR '' '' then cs else c # cs)"
| "strip_space [] = []"

definition field_line :: "string \<Rightarrow> sse_decoder \<Rightarrow> sse_decoder" where
  "field_line ln s =
     (case (case split_once (CHR '':'') ln of Some p \<Rightarrow> p | None \<Rightarrow> (ln, [])) of
        (field, v) \<Rightarrow>
          if field = ''data'' then s\<lparr>sd_data := sd_data s @ [strip_space v]\<rparr>
          else if field = ''event'' then s\<lparr>sd_event := Some (strip_space v)\<rparr>
          else s)"

definition finish_line :: "sse_decoder \<Rightarrow> sse_result" where
  "finish_line s0 =
     (let ln = sd_line s0; s = s0\<lparr>sd_line := []\<rparr> in
      if \<not> utf8_valid ln then (Inl InvalidUtf8, s)
      else if ln = [] then
        (Inr (if sd_data s \<noteq> [] \<or> sd_event s \<noteq> None then [Message (sd_event s) (join_with [LF] (sd_data s))] else []),
         s\<lparr>sd_data := [], sd_event := None, sd_event_bytes := 0\<rparr>)
      else if starts_with ln '':'' then (Inr [Heartbeat], s)
      else
        let n = sd_event_bytes s + (length ln + 1) in
        if usize_max < n then (Inl EventTooLarge, s)
        else if max_event s < n then (Inl EventTooLarge, s\<lparr>sd_event_bytes := n\<rparr>)
        else (Inr [], field_line ln (s\<lparr>sd_event_bytes := n\<rparr>)))"

text \<open>The body of the loop of \<^verbatim>\<open>process_bytes\<close>.\<close>

definition process_byte :: "char \<Rightarrow> sse_decoder \<Rightarrow> sse_result" where
  "process_byte b s0 =
     (if skip_lf s0 \<and> b = LF then (Inr [], s0\<lparr>skip_lf := False\<rparr>)
      else
        let s = s0\<lparr>skip_lf := False\<rparr> in
        if b = CR \<or> b = LF then
          (case finish_line s of
             (Inl e, s') \<Rightarrow> (Inl e, s')
           | (Inr out, s') \<Rightarrow> (Inr out, s'\<lparr>skip_lf := (b = CR)\<rparr>))
        else if length (sd_line s) \<ge> max_line s then (Inl LineTooLarge, s)
        else (Inr [], s\<lparr>sd_line := sd_line s @ [b]\<rparr>))"

fun process_bytes :: "string \<Rightarrow> sse_decoder \<Rightarrow> sse_result" where
  "process_bytes [] s = (Inr [], s)"
| "process_bytes (b # bs) s =
     (case process_byte b s of
        (Inl e, s') \<Rightarrow> (Inl e, s')
      | (Inr out, s') \<Rightarrow>
          (case process_bytes bs s' of
             (Inl e, s'') \<Rightarrow> (Inl e, s'')
           | (Inr out', s'') \<Rightarrow> (Inr (out @ out'), s'')))"

definition sse_push :: "string \<Rightarrow> sse_decoder \<Rightarrow> sse_result" where
  "sse_push bytes s =
     (if bom_checked s then process_bytes bytes s
      else
        let n = min (3 - length (bom_prefix s)) (length bytes);
            prefix = bom_prefix s @ take n bytes;
            slice = drop n bytes in
        if length prefix < 3 then (Inr [], s\<lparr>bom_prefix := prefix\<rparr>)
        else
          let s1 = s\<lparr>bom_prefix := [], bom_checked := True\<rparr> in
          if prefix \<noteq> BOM then
            (case process_bytes prefix s1 of
               (Inl e, s2) \<Rightarrow> (Inl e, s2)
             | (Inr out, s2) \<Rightarrow>
                 (case process_bytes slice s2 of
                    (Inl e, s3) \<Rightarrow> (Inl e, s3)
                  | (Inr out', s3) \<Rightarrow> (Inr (out @ out'), s3)))
          else process_bytes slice s1)"

definition sse_finish :: "sse_decoder \<Rightarrow> sse_decode_error + unit" where
  "sse_finish s =
     (if \<not> bom_checked s \<and> bom_prefix s \<noteq> [] then Inl Truncated
      else if sd_line s = [] \<and> sd_data s = [] \<and> sd_event s = None then Inr () else Inl Truncated)"

text \<open>The reading loop of the backend's \<^verbatim>\<open>generate_stream\<close>: the events of a chunk are used as soon as its
  push returns, and the first error ends the loop. The result is the events that were used, the
  error if there was one, and the decoder.\<close>

fun push_chunks :: "string list \<Rightarrow> sse_decoder \<Rightarrow> (st_sse_event list \<times> sse_decode_error option) \<times> sse_decoder" where
  "push_chunks [] s = (([], None), s)"
| "push_chunks (c # cs) s =
     (case sse_push c s of
        (Inl e, s') \<Rightarrow> (([], Some e), s')
      | (Inr out, s') \<Rightarrow> (case push_chunks cs s' of ((out', e), s'') \<Rightarrow> ((out @ out', e), s'')))"

section \<open>Generation events\<close>

datatype st_generation_event =
    Ignored
  | TextDelta u64 string
  | Finished "string option"
  | Rejected_Event string

definition is_accepted_finish :: "st_generation_event \<Rightarrow> bool" where
  "is_accepted_finish e \<longleftrightarrow>
     (case e of Finished (Some r) \<Rightarrow> r \<in> {''stop'', ''eos'', ''end_turn''} | _ \<Rightarrow> False)"

definition allowed_metadata :: "string list" where
  "allowed_metadata = [''choices'', ''usage'', ''id'', ''object'', ''created'', ''model'', ''system_fingerprint'']"

text \<open>The loop over the members of \<^verbatim>\<open>delta\<close>: \<open>Inr (Some es)\<close> is its early \<^verbatim>\<open>return Ok(es)\<close>.\<close>

fun check_delta :: "(string \<times> json) list \<Rightarrow> sse_decode_error + st_generation_event list option" where
  "check_delta [] = Inr None"
| "check_delta ((k, v) # ms) =
     (if k = ''role'' then check_delta ms
      else if k = ''content'' \<or> k = ''reasoning_content'' then
        (if v \<noteq> JNull \<and> as_str v = None then Inl InvalidPayload else check_delta ms)
      else if k = ''tool_calls'' \<or> k = ''function_call'' then
        Inr (Some [Rejected_Event ''ST_GENERATION_UNSUPPORTED_OUTPUT''])
      else Inl UnsupportedOutput)"

definition delta_text :: "(string \<times> json) list \<Rightarrow> u64 \<Rightarrow> sse_decode_error + st_generation_event list" where
  "delta_text delta sequence =
     (case map_of delta ''content'' of
        None \<Rightarrow> Inr []
      | Some JNull \<Rightarrow> Inr []
      | Some v \<Rightarrow>
          (case as_str v of
             None \<Rightarrow> Inl InvalidPayload
           | Some t \<Rightarrow> Inr (if t = [] then [] else [TextDelta sequence t])))"

definition choice_finish :: "(string \<times> json) list \<Rightarrow> sse_decode_error + st_generation_event list" where
  "choice_finish choice =
     (case map_of choice ''finish_reason'' of
        None \<Rightarrow> Inr []
      | Some JNull \<Rightarrow> Inr []
      | Some v \<Rightarrow>
          (case as_str v of
             None \<Rightarrow> Inl InvalidPayload
           | Some r \<Rightarrow> if is_blank r then Inl InvalidPayload else Inr [Finished (Some r)]))"

definition decode_choice :: "json \<Rightarrow> u64 \<Rightarrow> sse_decode_error + st_generation_event list" where
  "decode_choice c sequence =
     bind_r (ok_or InvalidPayload (as_object c)) (\<lambda>choice.
     if map_of choice ''message'' \<noteq> None then Inl UnsupportedOutput
     else
       bind_r (ok_or InvalidPayload (Option.bind (map_of choice ''delta'') as_object)) (\<lambda>delta.
       bind_r (check_delta delta) (\<lambda>early.
       case early of
         Some es \<Rightarrow> Inr es
       | None \<Rightarrow>
           bind_r (delta_text delta sequence) (\<lambda>texts.
           bind_r (choice_finish choice) (\<lambda>fins.
           Inr (if texts @ fins = [] then [Ignored] else texts @ fins))))))"

definition decode_st_generation_event ::
    "(string \<Rightarrow> json option) \<Rightarrow> string \<Rightarrow> u64 \<Rightarrow> sse_decode_error + st_generation_event list" where
  "decode_st_generation_event parse data sequence =
     (let trimmed = trim data in
      if trimmed = [] then Inr [Ignored]
      else if trimmed = ''[DONE]'' then Inr [Finished (Some ''stop'')]
      else
        bind_r (ok_or InvalidJson (parse trimmed)) (\<lambda>parsed.
        if json_get parsed ''error'' \<noteq> None then Inr [Rejected_Event ''ST_GENERATION_FAILED'']
        else
          bind_r (ok_or InvalidPayload (as_object parsed)) (\<lambda>members.
          bind_r (ok_or UnsupportedOutput (Option.bind (map_of members ''choices'') as_array)) (\<lambda>choices.
          case choices of
            [] \<Rightarrow>
              if list_all (\<lambda>k. k \<in> set allowed_metadata) (map fst members)
                 \<and> list_ex (\<lambda>k. k \<noteq> ''choices'') (map fst members)
              then Inr [Ignored] else Inl InvalidPayload
          | c # _ \<Rightarrow> decode_choice c sequence))))"

section \<open>Feeding bytes in pieces\<close>

text \<open>Sequencing of two calls on the decoder: outputs are appended, the first error stops.\<close>

definition sse_then :: "sse_result \<Rightarrow> (sse_decoder \<Rightarrow> sse_result) \<Rightarrow> sse_result" where
  "sse_then r f =
     (case r of
        (Inl e, s) \<Rightarrow> (Inl e, s)
      | (Inr out, s) \<Rightarrow> (case f s of (Inl e, s') \<Rightarrow> (Inl e, s') | (Inr out', s') \<Rightarrow> (Inr (out @ out'), s')))"

lemma sse_then_simps [simp]:
  "sse_then (Inl e, s) f = (Inl e, s)" "sse_then (Inr [], s) f = f s"
  by (auto simp: sse_then_def split: prod.splits sum.splits)

lemma sse_then_assoc: "sse_then (sse_then r f) g = sse_then r (\<lambda>s. sse_then (f s) g)"
  by (auto simp: sse_then_def split: prod.splits sum.splits)

lemma sse_then_nothing: "sse_then r (\<lambda>s. (Inr [], s)) = r"
  by (auto simp: sse_then_def split: prod.splits sum.splits)

lemma process_bytes_Cons: "process_bytes (b # bs) s = sse_then (process_byte b s) (process_bytes bs)"
  by (auto simp: sse_then_def)

lemma process_bytes_append: "process_bytes (xs @ ys) s = sse_then (process_bytes xs s) (process_bytes ys)"
proof -
  have "process_bytes (xs @ ys) = (\<lambda>s. sse_then (process_bytes xs s) (process_bytes ys))"
  proof (induction xs)
    case (Cons x xs)
    show ?case by (rule ext) (simp only: append_Cons process_bytes_Cons Cons sse_then_assoc)
  qed auto
  then show ?thesis by (rule fun_cong)
qed

text \<open>The byte order mark is looked for in the first three bytes of the stream.\<close>

definition strip_bom :: "string \<Rightarrow> string" where
  "strip_bom bytes = (if take 3 bytes = BOM then drop 3 bytes else bytes)"

lemma strip_bom_append: "3 \<le> length xs \<Longrightarrow> strip_bom (xs @ ys) = strip_bom xs @ ys"
  by (simp add: strip_bom_def)

lemma sse_push_spec:
  assumes "\<not> bom_checked s" "length (bom_prefix s) < 3"
  shows "sse_push bytes s =
    (let all = bom_prefix s @ bytes in
     if length all < 3 then (Inr [], s\<lparr>bom_prefix := all\<rparr>)
     else process_bytes (strip_bom all) (s\<lparr>bom_prefix := [], bom_checked := True\<rparr>))"
proof (cases "length (bom_prefix s @ bytes) < 3")
  case True
  then show ?thesis using assms by (simp add: sse_push_def Let_def)
next
  case False
  let ?n = "3 - length (bom_prefix s)" and ?s = "s\<lparr>bom_prefix := [], bom_checked := True\<rparr>"
  from False assms(2) have n: "min ?n (length bytes) = ?n" by simp
  have len: "length (bom_prefix s @ take ?n bytes) = 3" using False assms(2) by simp
  have all: "bom_prefix s @ bytes = (bom_prefix s @ take ?n bytes) @ drop ?n bytes" by simp
  have take3: "take 3 (bom_prefix s @ bytes) = bom_prefix s @ take ?n bytes"
    using assms(2) by simp
  have "sse_push bytes s = (if bom_prefix s @ take ?n bytes \<noteq> BOM
      then sse_then (process_bytes (bom_prefix s @ take ?n bytes) ?s) (process_bytes (drop ?n bytes))
      else process_bytes (drop ?n bytes) ?s)"
    using assms(1) len by (simp add: sse_push_def n sse_then_def Let_def)
  also have "\<dots> = process_bytes (strip_bom (bom_prefix s @ bytes)) ?s"
  proof (cases "bom_prefix s @ take ?n bytes = BOM")
    case True
    then have "drop 3 (bom_prefix s @ bytes) = drop ?n bytes" using assms(2) by simp
    with True show ?thesis by (simp only: strip_bom_def take3) simp
  next
    case False
    then have "strip_bom (bom_prefix s @ bytes) = bom_prefix s @ bytes"
      by (simp only: strip_bom_def take3 if_False)
    then have "process_bytes (strip_bom (bom_prefix s @ bytes)) ?s
        = sse_then (process_bytes (bom_prefix s @ take ?n bytes) ?s) (process_bytes (drop ?n bytes))"
      by (metis all process_bytes_append)
    with False show ?thesis by simp
  qed
  finally show ?thesis using False by (simp add: Let_def)
qed

definition settings_kept :: "sse_decoder \<Rightarrow> sse_decoder \<Rightarrow> bool" where
  "settings_kept s s' \<longleftrightarrow> bom_checked s' = bom_checked s \<and> bom_prefix s' = bom_prefix s
     \<and> max_line s' = max_line s \<and> max_event s' = max_event s"

lemma finish_line_settings: "finish_line s = (r, s') \<Longrightarrow> settings_kept s s'"
  by (auto simp: finish_line_def settings_kept_def field_line_def Let_def split: if_splits option.splits prod.splits)

lemma process_byte_settings: "process_byte b s = (r, s') \<Longrightarrow> settings_kept s s'"
  using finish_line_settings [of "s\<lparr>skip_lf := False\<rparr>"]
  by (auto simp: process_byte_def settings_kept_def Let_def split: if_splits prod.splits sum.splits)

lemma process_bytes_settings: "process_bytes bs s = (r, s') \<Longrightarrow> settings_kept s s'"
proof (induction bs arbitrary: s r s')
  case Nil
  then show ?case by (simp add: settings_kept_def)
next
  case (Cons b bs)
  obtain r1 s1 where one: "process_byte b s = (r1, s1)" by (cases "process_byte b s")
  note first = process_byte_settings [OF this]
  show ?case
  proof (cases r1)
    case (Inl e)
    with Cons.prems one first show ?thesis by simp
  next
    case (Inr out)
    obtain r2 s2 where two: "process_bytes bs s1 = (r2, s2)" by (cases "process_bytes bs s1")
    with Cons.prems one Inr have "s2 = s'" by (auto split: sum.splits)
    with Cons.IH [OF two] first show ?thesis by (simp add: settings_kept_def)
  qed
qed

definition sse_ready :: "sse_decoder \<Rightarrow> bool" where
  "sse_ready s \<longleftrightarrow> bom_checked s \<or> length (bom_prefix s) < 3"

lemma sse_push_ready:
  assumes "sse_ready s" "sse_push bytes s = (r, s')"
  shows "sse_ready s'"
proof (cases "bom_checked s")
  case True
  with assms(2) process_bytes_settings [of bytes s r s'] show ?thesis
    by (simp add: sse_push_def sse_ready_def settings_kept_def)
next
  case False
  with assms sse_push_spec [of s bytes] process_bytes_settings [of _ "s\<lparr>bom_prefix := [], bom_checked := True\<rparr>" r s']
  show ?thesis by (fastforce simp: sse_ready_def settings_kept_def Let_def split: if_splits)
qed

lemma sse_push_append:
  assumes "sse_ready s"
  shows "sse_push (xs @ ys) s = sse_then (sse_push xs s) (sse_push ys)"
proof (cases "bom_checked s")
  case True
  obtain r s1 where run: "process_bytes xs s = (r, s1)" by (cases "process_bytes xs s")
  from process_bytes_settings [OF this] True have "bom_checked s1" by (simp add: settings_kept_def)
  with True run show ?thesis
    by (cases r) (simp_all add: sse_push_def process_bytes_append sse_then_def)
next
  case False
  with assms have short: "length (bom_prefix s) < 3" by (simp add: sse_ready_def)
  note spec = sse_push_spec [OF False short]
  show ?thesis
  proof (cases "length (bom_prefix s @ xs) < 3")
    case True
    then have "sse_push xs s = (Inr [], s\<lparr>bom_prefix := bom_prefix s @ xs\<rparr>)" by (simp add: spec)
    moreover have "sse_push ys (s\<lparr>bom_prefix := bom_prefix s @ xs\<rparr>) = sse_push (xs @ ys) s"
      using True False sse_push_spec [of "s\<lparr>bom_prefix := bom_prefix s @ xs\<rparr>" ys] by (simp add: spec Let_def)
    ultimately show ?thesis by simp
  next
    case long: False
    let ?s = "s\<lparr>bom_prefix := [], bom_checked := True\<rparr>"
    have "strip_bom (bom_prefix s @ xs @ ys) = strip_bom (bom_prefix s @ xs) @ ys"
      using strip_bom_append [of "bom_prefix s @ xs" ys] long by simp
    then have whole: "sse_push (xs @ ys) s = sse_then (process_bytes (strip_bom (bom_prefix s @ xs)) ?s) (process_bytes ys)"
      using long by (simp add: spec Let_def process_bytes_append)
    obtain r s1 where run: "process_bytes (strip_bom (bom_prefix s @ xs)) ?s = (r, s1)"
      by (cases "process_bytes (strip_bom (bom_prefix s @ xs)) ?s")
    from process_bytes_settings [OF this] have "bom_checked s1" by (simp add: settings_kept_def)
    moreover have "sse_push xs s = (r, s1)" using long run by (simp add: spec Let_def)
    ultimately show ?thesis
      unfolding whole run by (cases r) (simp_all add: sse_then_def sse_push_def)
  qed
qed

lemma sse_push_Nil: "sse_ready s \<Longrightarrow> sse_push [] s = (Inr [], s)"
  by (cases "bom_checked s") (simp_all add: sse_push_def sse_ready_def)

text \<open>What the loop is left with, against one push of the whole response.\<close>

definition agrees :: "sse_result \<Rightarrow> (st_sse_event list \<times> sse_decode_error option) \<times> sse_decoder \<Rightarrow> bool" where
  "agrees r q \<longleftrightarrow> (case r of
      (Inr out, s) \<Rightarrow> q = ((out, None), s)
    | (Inl e, s) \<Rightarrow> snd (fst q) = Some e \<and> snd q = s)"

lemma push_chunks_agrees: "sse_ready s \<Longrightarrow> agrees (sse_push (concat cs) s) (push_chunks cs s)"
proof (induction cs arbitrary: s)
  case Nil
  then show ?case by (simp add: agrees_def sse_push_Nil)
next
  case (Cons c cs)
  obtain r s1 where run: "sse_push c s = (r, s1)" by (cases "sse_push c s")
  have "agrees (sse_push (concat cs) s1) (push_chunks cs s1)"
    by (rule Cons.IH [OF sse_push_ready [OF Cons.prems run]])
  with run show ?case
    unfolding concat.simps sse_push_append [OF Cons.prems]
    by (cases r) (auto simp: agrees_def sse_then_def split: prod.splits sum.splits)
qed





section \<open>Bounds\<close>

definition event_size :: "sse_decoder \<Rightarrow> nat" where
  "event_size s = sum_list (map (\<lambda>d. length d + 1) (sd_data s))
     + (case sd_event s of None \<Rightarrow> 0 | Some e \<Rightarrow> length e)"

definition sse_bounded :: "sse_decoder \<Rightarrow> bool" where
  "sse_bounded s \<longleftrightarrow> length (sd_line s) \<le> max_line s \<and> event_size s \<le> sd_event_bytes s
     \<and> sd_event_bytes s \<le> max_event s"

fun event_fits :: "nat \<Rightarrow> st_sse_event \<Rightarrow> bool" where
  "event_fits n Heartbeat = True"
| "event_fits n (Message e d) \<longleftrightarrow> length d \<le> n \<and> (case e of None \<Rightarrow> True | Some t \<Rightarrow> length t \<le> n)"

lemma length_join_with: "length (join_with [c] ds) \<le> sum_list (map (\<lambda>d. length d + 1) ds)"
  by (induction "[c]" ds rule: join_with.induct) auto

lemma length_strip_space: "length (strip_space v) \<le> length v"
  by (cases v) auto

lemma field_line_size:
  "event_size (field_line ln s) \<le> event_size s + (length ln + 1)"
  "sd_line (field_line ln s) = sd_line s" "sd_event_bytes (field_line ln s) = sd_event_bytes s"
proof -
  define p where "p = (case split_once (CHR '':'') ln of Some p \<Rightarrow> p | None \<Rightarrow> (ln, []))"
  have "length (snd p) \<le> length ln"
    by (auto simp: p_def split_once_Some split: option.splits)
  with length_strip_space [of "snd p"] have v: "length (strip_space (snd p)) \<le> length ln" by simp
  have line: "field_line ln s = (if fst p = ''data'' then s\<lparr>sd_data := sd_data s @ [strip_space (snd p)]\<rparr>
      else if fst p = ''event'' then s\<lparr>sd_event := Some (strip_space (snd p))\<rparr> else s)"
    by (simp add: field_line_def p_def case_prod_beta)
  show "event_size (field_line ln s) \<le> event_size s + (length ln + 1)"
    using v by (simp add: line event_size_def)
  show "sd_line (field_line ln s) = sd_line s" "sd_event_bytes (field_line ln s) = sd_event_bytes s"
    by (simp_all add: line)
qed

lemma finish_line_bounded:
  assumes "sse_bounded s" "finish_line s = (Inr out, s')"
  shows "sse_bounded s' \<and> list_all (event_fits (max_event s)) out"
proof (cases "sd_line s = []")
  case True
  have "length (join_with [LF] (sd_data s)) \<le> max_event s" "\<forall>e. sd_event s = Some e \<longrightarrow> length e \<le> max_event s"
    using length_join_with [of LF "sd_data s"] assms(1) by (auto simp: sse_bounded_def event_size_def)
  with True assms show ?thesis
    by (auto simp: finish_line_def Let_def sse_bounded_def event_size_def split: if_splits option.splits)
next
  case False
  let ?s = "s\<lparr>sd_line := [], sd_event_bytes := sd_event_bytes s + (length (sd_line s) + 1)\<rparr>"
  from False assms(2) consider (comment) "s' = s\<lparr>sd_line := []\<rparr>" "out = [Heartbeat]"
    | (field) "s' = field_line (sd_line s) ?s" "out = []" "sd_event_bytes s + (length (sd_line s) + 1) \<le> max_event s"
    by (auto simp: finish_line_def Let_def split: if_splits)
  then show ?thesis
  proof cases
    case comment
    with assms(1) show ?thesis by (simp add: sse_bounded_def event_size_def)
  next
    case field
    have "settings_kept s s'" using assms(2) by (rule finish_line_settings)
    moreover have "event_size ?s = event_size s" by (simp add: event_size_def)
    ultimately show ?thesis
      using assms(1) field field_line_size [of "sd_line s" ?s] by (simp add: sse_bounded_def settings_kept_def)
  qed
qed

lemma process_byte_bounded:
  assumes "sse_bounded s" "process_byte b s = (Inr out, s')"
  shows "sse_bounded s' \<and> list_all (event_fits (max_event s)) out"
proof -
  let ?s = "s\<lparr>skip_lf := False\<rparr>"
  have s: "sse_bounded ?s" using assms(1) by (simp add: sse_bounded_def event_size_def)
  consider (skipped) "s' = ?s" "out = []" | (pushed) "s' = ?s\<lparr>sd_line := sd_line s @ [b]\<rparr>" "out = []" "length (sd_line s) < max_line s"
    | (finished) t where "finish_line ?s = (Inr out, t)" "s' = t\<lparr>skip_lf := (b = CR)\<rparr>"
    using assms(2) by (auto simp: process_byte_def Let_def split: if_splits prod.splits sum.splits)
  then show ?thesis
  proof cases
    case (finished t)
    from finish_line_bounded [OF s this(1)] this(2) show ?thesis by (simp add: sse_bounded_def event_size_def)
  qed (use s in \<open>simp_all add: sse_bounded_def event_size_def\<close>)
qed

lemma process_bytes_bounded:
  assumes "sse_bounded s" "process_bytes bs s = (Inr out, s')"
  shows "sse_bounded s' \<and> list_all (event_fits (max_event s)) out"
  using assms
proof (induction bs arbitrary: s out)
  case Nil
  then show ?case by simp
next
  case (Cons b bs)
  from Cons.prems(2) obtain o1 s1 o2 where one: "process_byte b s = (Inr o1, s1)"
    and rest: "process_bytes bs s1 = (Inr o2, s')" and out: "out = o1 @ o2"
    by (auto split: prod.splits sum.splits)
  have "max_event s1 = max_event s" using process_byte_settings [OF one] by (simp add: settings_kept_def)
  with process_byte_bounded [OF Cons.prems(1) one] Cons.IH [OF _ rest] out show ?case by simp
qed

section \<open>Properties\<close>


text \<open>The decoder's memory is bounded by its limits whatever the peer sends: as long as it
  reports no error, the partial line and the pending event stay within \<^verbatim>\<open>max_line\<close> and
  \<^verbatim>\<open>max_event\<close>, and every message it emits is within \<^verbatim>\<open>max_event\<close>.\<close>

theorem sse_memory_bounded:
  assumes "push_chunks chunks (sse_new ml me) = ((out, None), s)"
  shows "length (sd_line s) \<le> ml \<and> event_size s \<le> me \<and> length (bom_prefix s) \<le> 2 \<and> list_all (event_fits me) out"
proof -
  let ?n = "sse_new ml me"
  have new: "\<not> bom_checked ?n" "bom_prefix ?n = []" by (simp_all add: sse_new_def)
  have start: "sse_bounded (?n\<lparr>bom_prefix := [], bom_checked := True\<rparr>)"
    by (simp add: sse_new_def sse_bounded_def event_size_def)
  have run: "sse_push (concat chunks) ?n = (Inr out, s)"
    using assms push_chunks_agrees [of ?n chunks]
    by (auto simp: sse_ready_def sse_new_def agrees_def split: prod.splits sum.splits)
  show ?thesis
  proof (cases "length (concat chunks) < 3")
    case True
    with run new have "out = []" "s = ?n\<lparr>bom_prefix := concat chunks\<rparr>"
      by (simp_all add: sse_push_spec Let_def)
    with True show ?thesis by (simp add: sse_new_def event_size_def)
  next
    case False
    with run new have p: "process_bytes (strip_bom (concat chunks)) (?n\<lparr>bom_prefix := [], bom_checked := True\<rparr>) = (Inr out, s)"
      by (simp add: sse_push_spec Let_def)
    from process_bytes_bounded [OF start p] process_bytes_settings [OF p] show ?thesis
      by (simp add: sse_bounded_def settings_kept_def sse_new_def)
  qed
qed

theorem sse_memory_bounded_witness:
  "\<exists>s. push_chunks [''data: a'' @ [CR], [LF] @ ''da'', ''ta: b'' @ [LF, LF] @ '':x''] (sse_new 8 16)
     = (([Message None (''a'' @ [LF] @ ''b'')], None), s) \<and> length (sd_line s) \<le> 8 \<and> event_size s \<le> 16"
proof -
  let ?r = "push_chunks [''data: a'' @ [CR], [LF] @ ''da'', ''ta: b'' @ [LF, LF] @ '':x''] (sse_new 8 16)"
  have "fst ?r = ([Message None (''a'' @ [LF] @ ''b'')], None)"
    by (simp add: sse_push_def sse_new_def process_byte_def finish_line_def field_line_def LF_def CR_def BOM_def
        usize_max_def utf8_valid_def starts_with.simps Let_def split: prod.splits)
  then obtain s where "?r = (([Message None (''a'' @ [LF] @ ''b'')], None), s)" by (metis prod.collapse)
  with sse_memory_bounded [OF this] show ?thesis by blast
qed

end
