(* ===== verification/Connector_Hmac.thy ===== *)
theory Connector_Hmac
  imports Bridge_Prelude
begin

text \<open>
  \<^verbatim>\<open>src/modules/bridge/connector_hmac.rs\<close>: the canonical form of a connector request, its
  signature and the check of a signed request against clock skew and replayed nonces. The
  HMAC and the SHA-256 of the \<^verbatim>\<open>hmac\<close> and \<^verbatim>\<open>sha2\<close> crates, with their hexadecimal
  encoding, are the arguments \<open>mac\<close> and \<open>sha\<close>.
\<close>

definition ALLOWED_CONTENT_TYPE :: string where
  "ALLOWED_CONTENT_TYPE = ''application/octet-stream''"

definition MAX_SKEW_SECS :: i64 where
  "MAX_SKEW_SECS = 30"

record connector_hmac_request =
  hr_method :: string
  hr_path :: string
  hr_query :: string
  hr_timestamp :: i64
  hr_nonce :: string
  hr_content_type :: string
  hr_body :: string

datatype connector_hmac_error =
    AmbiguousQuery | InvalidPath | MediaType | TimestampSkew | NonceReplay | InvalidNonce | InvalidKey
  | SignatureMismatch

primrec hmac_error_as_str :: "connector_hmac_error \<Rightarrow> string" where
  "hmac_error_as_str AmbiguousQuery = ''ambiguous query''"
| "hmac_error_as_str InvalidPath = ''invalid path''"
| "hmac_error_as_str MediaType = ''unsupported media type''"
| "hmac_error_as_str TimestampSkew = ''timestamp skew''"
| "hmac_error_as_str NonceReplay = ''nonce replay''"
| "hmac_error_as_str InvalidNonce = ''invalid nonce''"
| "hmac_error_as_str InvalidKey = ''invalid hmac key''"
| "hmac_error_as_str SignatureMismatch = ''signature mismatch''"

section \<open>Nonces\<close>

type_synonym nonce_set = "(string \<times> i64) list"

definition nonce_contains :: "nonce_set \<Rightarrow> string \<Rightarrow> bool" where
  "nonce_contains N n \<longleftrightarrow> map_of N n \<noteq> None"

definition insert_if_fresh :: "string \<Rightarrow> i64 \<Rightarrow> nonce_set \<Rightarrow> (connector_hmac_error + unit) \<times> nonce_set" where
  "insert_if_fresh n ts N = (if nonce_contains N n then (Inl NonceReplay, N) else (Inr (), (n, ts) # N))"

definition prune_older_than :: "i64 \<Rightarrow> nonce_set \<Rightarrow> nonce_set" where
  "prune_older_than min_ts N = filter (\<lambda>(n, ts). ts \<ge> min_ts) N"

section \<open>The canonical string\<close>

definition path_is_legal :: "string \<Rightarrow> bool" where
  "path_is_legal p \<longleftrightarrow> starts_with p ''/'' \<and> \<not> contains_str p ''..'' \<and> \<not> contains_str p ''//''
     \<and> CHR ''?'' \<notin> set p \<and> CHR ''#'' \<notin> set p"

definition nonce_is_valid :: "string \<Rightarrow> bool" where
  "nonce_is_valid n \<longleftrightarrow> 8 \<le> length n \<and> length n \<le> 128
     \<and> list_all (\<lambda>c. is_ascii_alphanumeric c \<or> c = CHR ''_'' \<or> c = CHR ''-'') n"

fun query_pairs :: "string list \<Rightarrow> (string \<times> string) list \<Rightarrow> connector_hmac_error + (string \<times> string) list" where
  "query_pairs [] acc = Inr acc"
| "query_pairs (part # parts) acc =
     (if part = [] then Inl AmbiguousQuery
      else
        case (case split_once (CHR ''='') part of Some p \<Rightarrow> p | None \<Rightarrow> (part, [])) of
          (k, v) \<Rightarrow>
            if k = [] \<or> k \<in> set (map fst acc) then Inl AmbiguousQuery
            else query_pairs parts (acc @ [(k, v)]))"

definition print_pair :: "string \<times> string \<Rightarrow> string" where
  "print_pair p = fst p @ ''='' @ snd p"

definition normalize_query :: "string \<Rightarrow> connector_hmac_error + string" where
  "normalize_query q =
     (if q = [] then Inr []
      else if CHR ''#'' \<in> set q \<or> CHR '' '' \<in> set q then Inl AmbiguousQuery
      else map_ok (\<lambda>pairs. join_with ''&'' (map print_pair (sort_key fst pairs)))
             (query_pairs (split_on (CHR ''&'') q) []))"


definition canonical_string :: "(string \<Rightarrow> string) \<Rightarrow> connector_hmac_request \<Rightarrow> connector_hmac_error + string" where
  "canonical_string sha r =
     (if hr_content_type r \<noteq> ALLOWED_CONTENT_TYPE then Inl MediaType
      else if \<not> path_is_legal (hr_path r) then Inl InvalidPath
      else
        map_ok (\<lambda>query. join_with [LF]
            [to_ascii_uppercase (hr_method r), hr_path r, query, int_to_string (hr_timestamp r), hr_nonce r,
             hr_content_type r, sha (hr_body r)])
          (normalize_query (hr_query r)))"

definition sign :: "(string \<Rightarrow> string \<Rightarrow> string) \<Rightarrow> string \<Rightarrow> string \<Rightarrow> connector_hmac_error + string" where
  "sign mac key canonical = (if key = [] then Inl InvalidKey else Inr (mac key canonical))"

definition verify ::
    "(string \<Rightarrow> string) \<Rightarrow> (string \<Rightarrow> string \<Rightarrow> string) \<Rightarrow> string \<Rightarrow> connector_hmac_request \<Rightarrow> string \<Rightarrow> i64
      \<Rightarrow> nonce_set \<Rightarrow> (connector_hmac_error + unit) \<times> nonce_set" where
  "verify sha mac key r provided_hex now N =
     (if hr_content_type r \<noteq> ALLOWED_CONTENT_TYPE then (Inl MediaType, N)
      else if \<not> path_is_legal (hr_path r) then (Inl InvalidPath, N)
      else case normalize_query (hr_query r) of
        Inl e \<Rightarrow> (Inl e, N)
      | Inr _ \<Rightarrow>
          if \<not> nonce_is_valid (hr_nonce r) then (Inl InvalidNonce, N)
          else if \<bar>hr_timestamp r - now\<bar> > MAX_SKEW_SECS then (Inl TimestampSkew, N)
          else if nonce_contains N (hr_nonce r) then (Inl NonceReplay, N)
          else case bind_r (canonical_string sha r) (sign mac key) of
            Inl e \<Rightarrow> (Inl e, N)
          | Inr expected \<Rightarrow>
              if to_ascii_lowercase provided_hex \<noteq> expected then (Inl SignatureMismatch, N)
              else insert_if_fresh (hr_nonce r) (hr_timestamp r) N)"

section \<open>What the canonical string determines\<close>

definition part_pair :: "string \<Rightarrow> string \<times> string" where
  "part_pair part = (case split_once (CHR ''='') part of Some p \<Rightarrow> p | None \<Rightarrow> (part, []))"

text \<open>The parameters of a query, sorted by key.\<close>

definition query_params :: "string \<Rightarrow> (string \<times> string) list" where
  "query_params q = (if q = [] then [] else sort_key fst (map part_pair (split_on (CHR ''&'') q)))"

lemma part_pair_facts:
  "CHR ''='' \<notin> set (fst (part_pair p))" "set (fst (part_pair p)) \<subseteq> set p" "set (snd (part_pair p)) \<subseteq> set p"
  by (auto simp: part_pair_def split_once_Some split_once_None split: option.splits)

lemma query_pairs_InrD:
  assumes "query_pairs parts acc = Inr ps"
  shows "ps = acc @ map part_pair parts" "\<forall>p \<in> set parts. fst (part_pair p) \<noteq> []"
    and "distinct (map fst acc) \<Longrightarrow> distinct (map fst ps)"
proof -
  have "ps = acc @ map part_pair parts \<and> (\<forall>p \<in> set parts. fst (part_pair p) \<noteq> [])
      \<and> (distinct (map fst acc) \<longrightarrow> distinct (map fst ps))"
    using assms
  proof (induction parts acc rule: query_pairs.induct)
    case (2 part parts acc)
    obtain k v where kv: "part_pair part = (k, v)" by (cases "part_pair part")
    from 2(2) kv have step: "query_pairs parts (acc @ [(k, v)]) = Inr ps" "part \<noteq> []" "k \<noteq> []" "k \<notin> set (map fst acc)"
      by (auto simp: part_pair_def split: if_splits)
    have "\<not> (k = [] \<or> k \<in> set (map fst acc))" using step by simp
    note IH = 2(1) [OF step(2) kv [unfolded part_pair_def, symmetric] this step(1)]
    moreover have "distinct (map fst acc) \<Longrightarrow> distinct (map fst (acc @ [(k, v)]))" using step(4) by simp
    ultimately have "distinct (map fst acc) \<longrightarrow> distinct (map fst ps)" by blast
    moreover have "ps = acc @ map part_pair (part # parts)" "\<forall>p \<in> set (part # parts). fst (part_pair p) \<noteq> []"
      using IH step(3) kv by simp_all
    ultimately show ?case by blast
  qed simp
  then show "ps = acc @ map part_pair parts" "\<forall>p \<in> set parts. fst (part_pair p) \<noteq> []"
    "distinct (map fst acc) \<Longrightarrow> distinct (map fst ps)" by blast+
qed

lemma normalize_query_InrD:
  assumes "normalize_query q = Inr n"
  shows "n = join_with ''&'' (map print_pair (query_params q))"
    and "\<And>p. p \<in> set (query_params q) \<Longrightarrow> fst p \<noteq> []"
    and "distinct (map fst (query_params q))"
proof -
  let ?ps = "map part_pair (split_on (CHR ''&'') q)"
  have pairs: "query_pairs (split_on (CHR ''&'') q) [] = Inr ?ps" if "q \<noteq> []"
    using assms that query_pairs_InrD(1) [of "split_on (CHR ''&'') q" "[]"]
    by (auto simp: normalize_query_def map_ok_def split: if_splits sum.splits)
  show "n = join_with ''&'' (map print_pair (query_params q))"
    using assms pairs by (auto simp: normalize_query_def map_ok_def query_params_def split: if_splits)
  show "fst p \<noteq> []" if "p \<in> set (query_params q)" for p
    using that query_pairs_InrD(2) [OF pairs] by (auto simp: query_params_def split: if_splits)
  have "distinct (map fst (sort_key fst ?ps))" if "q \<noteq> []"
    using query_pairs_InrD(3) [OF pairs [OF that]] by (simp add: distinct_map inj_on_def) fastforce
  then show "distinct (map fst (query_params q))" by (simp add: query_params_def)
qed

lemma query_params_chars:
  assumes "p \<in> set (query_params q)"
  shows "set (fst p) \<subseteq> set q - {CHR ''&'', CHR ''=''}" "set (snd p) \<subseteq> set q - {CHR ''&''}"
proof -
  from assms obtain part where part: "part \<in> set (split_on (CHR ''&'') q)" "p = part_pair part"
    by (auto simp: query_params_def split: if_splits)
  have "x \<in> set (join_with [d] xs)" if "y \<in> set xs" "x \<in> set y" for x y d xs
    using that by (induction "[d]" xs rule: join_with.induct) auto
  then have "set part \<subseteq> set q" using part(1) join_split_on [of "CHR ''&''" q] by (metis subsetI)
  moreover have "CHR ''&'' \<notin> set part" using part(1) by (rule split_on_no_sep)
  ultimately show "set (fst p) \<subseteq> set q - {CHR ''&'', CHR ''=''}" "set (snd p) \<subseteq> set q - {CHR ''&''}"
    using part(2) part_pair_facts [of part] by auto
qed

lemma print_pair_inj:
  assumes "CHR ''='' \<notin> set (fst p)" "CHR ''='' \<notin> set (fst p')" "print_pair p = print_pair p'"
  shows "p = p'"
proof -
  have "split_once (CHR ''='') (print_pair x) = Some x" if "CHR ''='' \<notin> set (fst x)" for x
    using that split_once_Some [of "CHR ''=''" "print_pair x" "fst x" "snd x"] by (simp add: print_pair_def)
  with assms show ?thesis by (metis option.inject)
qed

text \<open>The normalised query determines the parameters.\<close>

lemma normalize_query_inj:
  assumes "normalize_query q = Inr n" "normalize_query q' = Inr n"
  shows "query_params q = query_params q'"
proof -
  let ?A = "query_params q" and ?B = "query_params q'"
  have parts: "split_on (CHR ''&'') (join_with ''&'' (map print_pair xs)) = map print_pair xs"
    if "xs \<noteq> []" "\<forall>p \<in> set xs. CHR ''&'' \<notin> set (fst p) \<union> set (snd p)" for xs
    using that split_on_join [of "map print_pair xs" "CHR ''&''"] by (auto simp: print_pair_def)
  have clean: "\<forall>p \<in> set (query_params x). CHR ''&'' \<notin> set (fst p) \<union> set (snd p) \<and> CHR ''='' \<notin> set (fst p)" for x
    using query_params_chars [of _ x] by blast
  have filled: "join_with ''&'' (map print_pair xs) \<noteq> []" if "xs \<noteq> []" for xs
    using that by (cases xs rule: remdups_adj.cases) (auto simp: print_pair_def)
  have eq: "join_with ''&'' (map print_pair ?A) = join_with ''&'' (map print_pair ?B)"
    using normalize_query_InrD(1) assms by metis
  then have "?A = [] \<longleftrightarrow> ?B = []" using filled by (metis join_with.simps(1) list.map_disc_iff)
  moreover have "map print_pair ?A = map print_pair ?B" if "?A \<noteq> []" "?B \<noteq> []"
    using parts [OF that(1)] parts [OF that(2)] clean eq by metis
  ultimately have "map print_pair ?A = map print_pair ?B" by (cases "?A = []") simp_all
  moreover have "inj_on print_pair (set ?A \<union> set ?B)"
  proof (rule inj_onI)
    fix p p' assume "p \<in> set ?A \<union> set ?B" "p' \<in> set ?A \<union> set ?B" and eq: "print_pair p = print_pair p'"
    then have "CHR ''='' \<notin> set (fst p)" "CHR ''='' \<notin> set (fst p')" using clean by blast+
    then show "p = p'" using eq by (rule print_pair_inj)
  qed
  ultimately show ?thesis by (rule map_inj_on)
qed

definition newline_free :: "connector_hmac_request \<Rightarrow> bool" where
  "newline_free r \<longleftrightarrow> LF \<notin> set (hr_method r) \<and> LF \<notin> set (hr_path r) \<and> LF \<notin> set (hr_query r) \<and> LF \<notin> set (hr_nonce r)"

lemma upper_newline:
  assumes "LF \<notin> set s"
  shows "LF \<notin> set (to_ascii_uppercase s)"
proof -
  have upper: "c = LF" if "ascii_upper c = LF" for c
  proof (rule ccontr)
    assume "c \<noteq> LF"
    with that have "97 \<le> byte c" "byte c \<le> 122" and eq: "(char_of (byte c - 32) :: char) = LF"
      by (auto simp: ascii_upper_def is_ascii_lowercase_def split: if_splits)
    have "(byte c - 32) mod 256 = byte (char_of (byte c - 32) :: char)" by simp
    also have "\<dots> = 10" by (simp only: eq) (simp add: LF_def)
    finally show False using \<open>97 \<le> byte c\<close> \<open>byte c \<le> 122\<close> by simp
  qed
  with assms show ?thesis by (force simp: to_ascii_uppercase_def dest: upper [OF sym])
qed

lemma int_to_string_newline: "LF \<notin> set (int_to_string i)"
  using nat_to_string_bytes [of LF] by (auto simp: int_to_string_def is_ascii_digit_def LF_def)

lemma query_newline:
  assumes "normalize_query q = Inr n" "LF \<notin> set q"
  shows "LF \<notin> set n"
proof -
  have "c \<in> set (join_with sep xs) \<Longrightarrow> c \<in> set sep \<or> (\<exists>x \<in> set xs. c \<in> set x)" for c sep xs
    by (induction sep xs rule: join_with.induct) auto
  moreover have "LF \<notin> set (print_pair p)" if "p \<in> set (query_params q)" for p
    using query_params_chars [OF that] assms(2) by (auto simp: print_pair_def LF_def)
  ultimately show ?thesis
    unfolding normalize_query_InrD(1) [OF assms(1)] by (fastforce simp: LF_def)
qed

lemma canonical_string_InrD:
  assumes "canonical_string sha r = Inr c"
  obtains n where "normalize_query (hr_query r) = Inr n"
    "c = join_with [LF] [to_ascii_uppercase (hr_method r), hr_path r, n, int_to_string (hr_timestamp r), hr_nonce r,
      ALLOWED_CONTENT_TYPE, sha (hr_body r)]"
  using assms by (auto simp: canonical_string_def map_ok_def split: if_splits sum.splits)

lemma canonical_string_fields:
  assumes "canonical_string sha r = Inr c" "newline_free r" "\<And>x. LF \<notin> set (sha x)" "normalize_query (hr_query r) = Inr n"
  shows "split_on LF c = [to_ascii_uppercase (hr_method r), hr_path r, n, int_to_string (hr_timestamp r), hr_nonce r,
      ALLOWED_CONTENT_TYPE, sha (hr_body r)]"
proof -
  from canonical_string_InrD [OF assms(1)] assms(4)
  have c: "c = join_with [LF] [to_ascii_uppercase (hr_method r), hr_path r, n, int_to_string (hr_timestamp r), hr_nonce r,
      ALLOWED_CONTENT_TYPE, sha (hr_body r)]" by (metis sum.inject(2))
  have "LF \<notin> set ALLOWED_CONTENT_TYPE" by (simp add: ALLOWED_CONTENT_TYPE_def LF_def)
  with assms(2,3) upper_newline int_to_string_newline query_newline [OF assms(4)] show ?thesis
    unfolding c newline_free_def by (intro split_on_join) auto
qed

section \<open>Replay\<close>

text \<open>The life of the nonce set of a verifier: requests are checked and old nonces pruned, each
  at a time of its clock.\<close>

datatype nonce_op = Verify_Op string connector_hmac_request string i64 | Prune_Op i64 i64

primrec op_time :: "nonce_op \<Rightarrow> i64" where
  "op_time (Verify_Op key r h now) = now"
| "op_time (Prune_Op min_ts now) = now"

primrec apply_nonce_op ::
    "(string \<Rightarrow> string) \<Rightarrow> (string \<Rightarrow> string \<Rightarrow> string) \<Rightarrow> nonce_op \<Rightarrow> nonce_set \<Rightarrow> nonce_set" where
  "apply_nonce_op sha mac (Verify_Op key r h now) N = snd (verify sha mac key r h now N)"
| "apply_nonce_op sha mac (Prune_Op min_ts now) N = prune_older_than min_ts N"

text \<open>Pruning drops only nonces whose requests the skew check already refuses.\<close>

primrec prune_safe :: "nonce_op \<Rightarrow> bool" where
  "prune_safe (Verify_Op key r h now) \<longleftrightarrow> True"
| "prune_safe (Prune_Op min_ts now) \<longleftrightarrow> min_ts \<le> now - MAX_SKEW_SECS"

fun clock_runs :: "i64 \<Rightarrow> nonce_op list \<Rightarrow> bool" where
  "clock_runs t [] \<longleftrightarrow> True"
| "clock_runs t (a # as) \<longleftrightarrow> t \<le> op_time a \<and> clock_runs (op_time a) as"

definition last_time :: "i64 \<Rightarrow> nonce_op list \<Rightarrow> i64" where
  "last_time t as = (if as = [] then t else op_time (last as))"

definition spent :: "string \<Rightarrow> i64 \<Rightarrow> i64 \<Rightarrow> nonce_set \<Rightarrow> bool" where
  "spent n ts now N \<longleftrightarrow> (n, ts) \<in> set N \<or> ts + MAX_SKEW_SECS < now"

lemma verify_state: "snd (verify sha mac key r h now N) = N \<or> snd (verify sha mac key r h now N) = (hr_nonce r, hr_timestamp r) # N"
  by (auto simp: verify_def insert_if_fresh_def split: sum.splits)

lemma verify_InrD:
  assumes "verify sha mac key r h now N = (Inr (), N')"
  shows "N' = (hr_nonce r, hr_timestamp r) # N" "\<not> nonce_contains N (hr_nonce r)" "\<bar>hr_timestamp r - now\<bar> \<le> MAX_SKEW_SECS"
  using assms by (auto simp: verify_def insert_if_fresh_def split: if_splits sum.splits)

lemma spent_step:
  assumes "spent n ts t N" "t \<le> op_time a" "prune_safe a"
  shows "spent n ts (op_time a) (apply_nonce_op sha mac a N)"
proof (cases a)
  case (Verify_Op key r h now)
  with assms verify_state [of sha mac key r h now N] show ?thesis by (auto simp: spent_def)
next
  case (Prune_Op min_ts now)
  with assms show ?thesis by (auto simp: spent_def prune_older_than_def)
qed

lemma spent_run:
  assumes "spent n ts t N" "clock_runs t as" "list_all prune_safe as"
  shows "spent n ts (last_time t as) (fold (apply_nonce_op sha mac) as N)"
  using assms
proof (induction as arbitrary: t N)
  case Nil
  then show ?case by (simp add: last_time_def)
next
  case (Cons a as)
  from Cons.prems have "spent n ts (op_time a) (apply_nonce_op sha mac a N)" by (intro spent_step) auto
  with Cons show ?case by (cases as) (auto simp: last_time_def)
qed

section \<open>Properties\<close>

text \<open>The signed text determines the request: two requests without line breaks in their
  method, path, query and nonce that have the same canonical string have the same method up
  to ASCII case, path, query parameters, timestamp, nonce and body digest. So a signature for
  one of them is not a signature for a request that means something else.\<close>

theorem canonical_string_determines_request:
  assumes "\<And>x. LF \<notin> set (sha x)" "newline_free r" "newline_free r'"
    and "canonical_string sha r = Inr c" "canonical_string sha r' = Inr c"
  shows "to_ascii_uppercase (hr_method r) = to_ascii_uppercase (hr_method r') \<and> hr_path r = hr_path r'
    \<and> query_params (hr_query r) = query_params (hr_query r') \<and> hr_timestamp r = hr_timestamp r'
    \<and> hr_nonce r = hr_nonce r' \<and> sha (hr_body r) = sha (hr_body r')"
proof -
  obtain n n' where n: "normalize_query (hr_query r) = Inr n" "normalize_query (hr_query r') = Inr n'"
    using assms(4,5) by (metis canonical_string_InrD)
  from canonical_string_fields [OF assms(4,2,1) n(1)] canonical_string_fields [OF assms(5,3,1) n(2)]
  have eq: "to_ascii_uppercase (hr_method r) = to_ascii_uppercase (hr_method r')" "hr_path r = hr_path r'" "n = n'"
    "int_to_string (hr_timestamp r) = int_to_string (hr_timestamp r')" "hr_nonce r = hr_nonce r'"
    "sha (hr_body r) = sha (hr_body r')" by simp_all
  with normalize_query_inj [OF n(1)] n(2) int_to_string_inj [OF eq(4)] show ?thesis by simp
qed

definition demo_request :: "string \<Rightarrow> string \<Rightarrow> connector_hmac_request" where
  "demo_request path q = \<lparr>hr_method = ''post'', hr_path = path, hr_query = q, hr_timestamp = 5, hr_nonce = ''nonce-0001'',
     hr_content_type = ALLOWED_CONTENT_TYPE, hr_body = ''x''\<rparr>"

definition demo_sha :: "string \<Rightarrow> string" where
  "demo_sha x = nat_to_string (length x)"

lemma demo_sha_newline: "LF \<notin> set (demo_sha x)"
  using nat_to_string_bytes [of LF "length x"] by (auto simp: demo_sha_def is_ascii_digit_def LF_def)

theorem canonical_string_determines_request_witness:
  "\<exists>c. canonical_string demo_sha (demo_request ''/a'' ''b=1&a=2'') = Inr c
    \<and> canonical_string demo_sha (demo_request ''/a'' ''a=2&b=1'') = Inr c
    \<and> query_params ''b=1&a=2'' = query_params ''a=2&b=1''"
proof -
  let ?r = "demo_request ''/a'' ''b=1&a=2''" and ?r' = "demo_request ''/a'' ''a=2&b=1''"
  have free: "newline_free ?r" "newline_free ?r'" by (code_simp, code_simp)
  have "canonical_string demo_sha ?r = canonical_string demo_sha ?r'"
    "(case canonical_string demo_sha ?r of Inl _ \<Rightarrow> False | Inr _ \<Rightarrow> True)" by (code_simp, code_simp)
  then obtain c where c: "canonical_string demo_sha ?r = Inr c" "canonical_string demo_sha ?r' = Inr c"
    by (auto split: sum.splits)
  from canonical_string_determines_request [OF demo_sha_newline free c] c show ?thesis
    by (auto simp: demo_request_def)
qed

text \<open>Without that hypothesis it fails: a line break moves a parameter from the query into the path.\<close>

theorem canonical_string_ambiguous:
  "\<exists>r r' c. canonical_string sha r = Inr c \<and> canonical_string sha r' = Inr c \<and> hr_path r \<noteq> hr_path r'
     \<and> query_params (hr_query r) \<noteq> query_params (hr_query r')"
proof -
  let ?r = "demo_request (''/a'' @ [LF] @ ''k=v'') []" and ?r' = "demo_request ''/a'' (''k=v'' @ [LF])"
  have paths: "path_is_legal (hr_path ?r)" "path_is_legal (hr_path ?r')" by (code_simp, code_simp)
  have queries: "normalize_query (hr_query ?r) = Inr []" "normalize_query (hr_query ?r') = Inr (''k=v'' @ [LF])"
    by (code_simp, code_simp)
  have eq: "canonical_string sha ?r = canonical_string sha ?r'"
    using paths queries by (simp add: canonical_string_def map_ok_def demo_request_def)
  have "\<exists>c. canonical_string sha ?r = Inr c"
    using paths queries by (simp add: canonical_string_def map_ok_def demo_request_def)
  moreover have "query_params (hr_query ?r) \<noteq> query_params (hr_query ?r')" by code_simp
  moreover have "hr_path ?r \<noteq> hr_path ?r'" by code_simp
  ultimately show ?thesis using eq by metis
qed

lemma nonce_containsI: "(n, ts) \<in> set N \<Longrightarrow> nonce_contains N n"
  by (force simp: nonce_contains_def map_of_eq_None_iff)

lemma verify_spent:
  assumes "spent (hr_nonce r) (hr_timestamp r) now N" "fst (verify sha mac key r h t M) = Inr ()"
  shows "verify sha mac key' r h' now N
    = (Inl (if \<bar>hr_timestamp r - now\<bar> > MAX_SKEW_SECS then TimestampSkew else NonceReplay), N)"
proof -
  consider "MAX_SKEW_SECS < \<bar>hr_timestamp r - now\<bar>"
    | "\<not> MAX_SKEW_SECS < \<bar>hr_timestamp r - now\<bar>" "nonce_contains N (hr_nonce r)"
    using assms(1) by (auto simp: spent_def intro: nonce_containsI)
  then show ?thesis
    using assms(2) by cases (auto simp: verify_def split: if_splits sum.splits)
qed

text \<open>C12. A signed request is accepted at most once: after it was accepted, and whatever other
  requests are checked and old nonces pruned while the clock runs, presenting it again changes
  nothing and is refused as a replay, or, once its time stamp lies outside the allowed skew, for
  its skew, under every key and signature. A different request with the same nonce and time stamp
  is not accepted either. Nonces must be pruned only when they are older than the allowed skew.\<close>

theorem accepted_request_never_replayed:
  assumes "verify sha mac key r h now N = (Inr (), N')"
    and "clock_runs now as" "list_all prune_safe as" "last_time now as \<le> now'"
    and "N'' = fold (apply_nonce_op sha mac) as N'"
  shows "verify sha mac key' r h' now' N''
      = (Inl (if \<bar>hr_timestamp r - now'\<bar> > MAX_SKEW_SECS then TimestampSkew else NonceReplay), N'')
    \<and> (hr_nonce r' = hr_nonce r \<and> hr_timestamp r' = hr_timestamp r
       \<longrightarrow> (\<exists>e. verify sha mac key' r' h' now' N'' = (Inl e, N'')))"
proof -
  have "spent (hr_nonce r) (hr_timestamp r) now N'" using verify_InrD(1) [OF assms(1)] by (simp add: spent_def)
  from spent_run [OF this assms(2,3), of sha mac]
  have s: "spent (hr_nonce r) (hr_timestamp r) now' N''"
    using assms(4,5) by (auto simp: spent_def)
  have "\<exists>e. verify sha mac key' r' h' now' N'' = (Inl e, N'')"
    if "hr_nonce r' = hr_nonce r" "hr_timestamp r' = hr_timestamp r"
    using s that by (auto simp: spent_def verify_def dest!: nonce_containsI split: sum.splits)
  moreover have "fst (verify sha mac key r h now N) = Inr ()" using assms(1) by simp
  ultimately show ?thesis using verify_spent [OF s] by blast
qed

definition demo_mac :: "string \<Rightarrow> string \<Rightarrow> string" where
  "demo_mac key m = to_ascii_lowercase m"

theorem accepted_request_never_replayed_witness:
  "\<exists>h N. verify demo_sha demo_mac ''k'' (demo_request ''/a'' []) h 10 [] = (Inr (), N)
     \<and> fst (verify demo_sha demo_mac ''k'' (demo_request ''/a'' []) h 35
         (fold (apply_nonce_op demo_sha demo_mac) [Prune_Op 5 35] N)) = Inl NonceReplay
     \<and> fst (verify demo_sha demo_mac ''k'' (demo_request ''/a'' []) h 40
         (fold (apply_nonce_op demo_sha demo_mac) [Prune_Op 5 35] N)) = Inl TimestampSkew"
proof -
  let ?r = "demo_request ''/a'' []"
  let ?h = "case canonical_string demo_sha ?r of Inl _ \<Rightarrow> [] | Inr c \<Rightarrow> c"
  have "fst (verify demo_sha demo_mac ''k'' ?r ?h 10 []) = Inr ()" by code_simp
  then obtain N where v: "verify demo_sha demo_mac ''k'' ?r ?h 10 [] = (Inr (), N)" by (metis prod.collapse)
  have run: "clock_runs 10 [Prune_Op 5 35]" "list_all prune_safe [Prune_Op 5 35]"
    "last_time 10 [Prune_Op 5 35] \<le> 35" "last_time 10 [Prune_Op 5 35] \<le> 40"
    by (simp_all add: MAX_SKEW_SECS_def last_time_def)
  have "hr_timestamp ?r = 5" by (simp add: demo_request_def)
  with accepted_request_never_replayed [OF v run(1,2,3) refl] accepted_request_never_replayed [OF v run(1,2,4) refl] v
  show ?thesis by (intro exI [of _ ?h] exI [of _ N]) (simp add: MAX_SKEW_SECS_def)
qed

end
