(* ===== verification/Text_Split.thy ===== *)
theory Text_Split
  imports Bridge_Prelude
begin

text \<open>
  \<^verbatim>\<open>TelegramModule::split_text\<close> of \<^verbatim>\<open>src/modules/telegram/mod.rs\<close> and its clients in
  \<^verbatim>\<open>src/modules/telegram/stream.rs\<close>: a reply is cut into messages of at most
  \<^verbatim>\<open>max_length\<close> UTF-16 units, preferably at a paragraph or line break. The loop is a
  \<^theory_text>\<open>partial_function\<close>: not returning is \<open>None\<close>. A string is the list of its UTF-8
  bytes, so the bytes that are not continuation bytes start the characters.
\<close>

section \<open>Characters and units\<close>

definition continuation :: "char \<Rightarrow> bool" where
  "continuation b \<longleftrightarrow> 128 \<le> byte b \<and> byte b < 192"

text \<open>\<^verbatim>\<open>char::len_utf16\<close>, read off the first byte of the character.\<close>

definition byte_units :: "char \<Rightarrow> nat" where
  "byte_units b = (if continuation b then 0 else if 240 \<le> byte b then 2 else 1)"

definition utf16_count :: "string \<Rightarrow> nat" where
  "utf16_count s = sum_list (map byte_units s)"

fun rfind_from :: "(string \<Rightarrow> bool) \<Rightarrow> nat \<Rightarrow> string \<Rightarrow> nat option" where
  "rfind_from P i [] = None"
| "rfind_from P i (c # s) =
     (case rfind_from P (Suc i) s of
        Some j \<Rightarrow> Some j
      | None \<Rightarrow> if P (c # s) then Some i else None)"

definition rfind :: "string \<Rightarrow> string \<Rightarrow> nat option" where
  "rfind s pat = rfind_from (\<lambda>t. starts_with t pat) 0 s"

section \<open>Splitting\<close>

text \<open>The scan over \<^verbatim>\<open>char_indices\<close>: where the first character that does not fit starts.\<close>

fun unit_limit :: "nat \<Rightarrow> nat \<Rightarrow> nat \<Rightarrow> string \<Rightarrow> nat option" where
  "unit_limit m units i [] = None"
| "unit_limit m units i (b # bs) =
     (if continuation b then unit_limit m units (Suc i) bs
      else if units + byte_units b > m then Some i
      else unit_limit m (units + byte_units b) (Suc i) bs)"

text \<open>\<^verbatim>\<open>char_indices().nth(1)\<close>.\<close>

definition second_char :: "string \<Rightarrow> nat option" where
  "second_char s = map_option Suc (find_at (\<lambda>t. case t of [] \<Rightarrow> False | b # _ \<Rightarrow> \<not> continuation b) (tl s))"

definition byte_limit :: "nat \<Rightarrow> string \<Rightarrow> nat" where
  "byte_limit m s =
     (let n = (case unit_limit m 0 0 s of Some i \<Rightarrow> i | None \<Rightarrow> length s) in
      if n = 0 then (case second_char s of Some i \<Rightarrow> i | None \<Rightarrow> length s) else n)"

definition split_point :: "nat \<Rightarrow> string \<Rightarrow> nat" where
  "split_point m s =
     (let limit = byte_limit m s;
          prefix = take limit s;
          a = (case rfind prefix [LF, LF] of Some i \<Rightarrow> i | None \<Rightarrow> 0);
          b = (if utf16_count (take a prefix) < m div 2
               then (case rfind prefix [LF] of Some i \<Rightarrow> i | None \<Rightarrow> limit) else a)
      in if utf16_count (take b prefix) < m div 2 then limit else b)"

partial_function (option) split_loop :: "nat \<Rightarrow> string \<Rightarrow> string list \<Rightarrow> string list option" where
  "split_loop m remaining chunks =
     (if utf16_count remaining > m then
        split_loop m (trim_start (drop (split_point m remaining) remaining))
          (let chunk = take (split_point m remaining) remaining
           in if is_blank chunk then chunks else chunks @ [trim_end chunk])
      else Some (if remaining = [] then chunks else chunks @ [remaining]))"

definition split_text :: "string \<Rightarrow> nat \<Rightarrow> string list option" where
  "split_text text max_length =
     (let m = max max_length 1 in
      if utf16_count text \<le> m then Some [text] else split_loop m text [])"

definition chunk_text :: "string \<Rightarrow> nat \<Rightarrow> string list option" where
  "chunk_text text chunk_size = map_option (filter (\<lambda>c. \<not> is_blank c)) (split_text text (max chunk_size 1))"

section \<open>White space at the ends\<close>

inductive spaces :: "string \<Rightarrow> bool" where
  spaces_Nil: "spaces []"
| spaces_char: "w \<noteq> [] \<Longrightarrow> ws_len w = length w \<Longrightarrow> spaces r \<Longrightarrow> spaces (w @ r)"

lemma spaces_append: "spaces u \<Longrightarrow> spaces v \<Longrightarrow> spaces (u @ v)"
  by (induction rule: spaces.induct) (auto intro: spaces.intros)

lemma spaces_one: "w \<noteq> [] \<Longrightarrow> ws_len w = length w \<Longrightarrow> spaces w"
  using spaces_char [OF _ _ spaces_Nil] by simp

lemma ws_bytes_take: "ws_bytes (take (ws_bytes xs) xs) = ws_bytes xs"
  by (cases xs rule: ws_bytes.cases) auto

lemma ws_len_take: "ws_len (take (ws_len s) s) = length (take (ws_len s) s)"
proof -
  let ?xs = "map of_char (take 3 s) :: nat list"
  have "ws_len s \<le> 3" using ws_bytes_le [of ?xs] by (simp add: ws_len_def)
  then have "ws_len (take (ws_len s) s) = ws_bytes (take (ws_bytes ?xs) ?xs)"
    by (simp add: ws_len_def take_map min_def)
  then have "ws_len (take (ws_len s) s) = ws_bytes ?xs" by (simp only: ws_bytes_take)
  then have "ws_len (take (ws_len s) s) = ws_len s" by (simp only: ws_len_def)
  then show ?thesis using ws_len_le [of s] by simp
qed

lemma trim_start_spaces: "\<exists>w. spaces w \<and> s = w @ trim_start s"
proof (induction s rule: trim_start.induct)
  case (1 s)
  show ?case
  proof (cases "ws_len s = 0")
    case True
    then have "trim_start s = s" by (simp add: trim_start.simps)
    then show ?thesis by (intro exI [of _ "[]"]) (simp add: spaces_Nil)
  next
    case False
    then obtain w where w: "spaces w" "drop (ws_len s) s = w @ trim_start (drop (ws_len s) s)" using 1 by blast
    have "take (ws_len s) s \<noteq> []" using False ws_len_le [of s] by auto
    with w(1) have "spaces (take (ws_len s) s @ w)" by (intro spaces_char ws_len_take)
    moreover have "s = (take (ws_len s) s @ w) @ trim_start s"
      using w(2) False append_take_drop_id [of "ws_len s" s] by (simp add: trim_start.simps [of s])
    ultimately show ?thesis by blast
  qed
qed

lemma ws_suffix_spaces:
  assumes "ws_suffix_len s \<noteq> 0"
  shows "spaces (drop (length s - ws_suffix_len s) s)"
  using assms by (intro spaces_one) (auto simp: ws_suffix_len_def Let_def split: if_splits)

lemma trim_end_spaces: "\<exists>w. spaces w \<and> s = trim_end s @ w"
proof (induction s rule: trim_end.induct)
  case (1 s)
  show ?case
  proof (cases "ws_suffix_len s = 0")
    case True
    then have "trim_end s = s" by (simp add: trim_end.simps)
    then show ?thesis by (intro exI [of _ "[]"]) (simp add: spaces_Nil)
  next
    case False
    let ?k = "length s - ws_suffix_len s"
    from False 1 obtain w where w: "spaces w" "take ?k s = trim_end (take ?k s) @ w" by blast
    with False have "spaces (w @ drop ?k s)" by (intro spaces_append ws_suffix_spaces)
    moreover have "s = trim_end s @ (w @ drop ?k s)"
      using w(2) False by (metis append.assoc append_take_drop_id trim_end.simps)
    ultimately show ?thesis by blast
  qed
qed

lemma blank_spaces: "is_blank s \<Longrightarrow> spaces s"
  using trim_start_spaces [of s] trim_end_spaces [of "trim_start s"]
  by (auto simp: is_blank_def trim_def intro: spaces_append) (metis append_self_conv2 spaces_append)

section \<open>How far one turn of the loop gets\<close>

lemma utf16_append: "utf16_count (u @ v) = utf16_count u + utf16_count v"
  by (simp add: utf16_count_def)

lemma utf16_take_le: "utf16_count (take n s) \<le> utf16_count s"
  using utf16_append [of "take n s" "drop n s"] by simp

lemma utf16_take_mono: "n \<le> k \<Longrightarrow> utf16_count (take n s) \<le> utf16_count (take k s)"
  using utf16_take_le [of n "take k s"] by (simp add: min_def)

lemma unit_limit_fits:
  assumes "unit_limit m units i s = Some j" "units \<le> m"
  shows "i \<le> j \<and> j - i < length s \<and> units + utf16_count (take (j - i) s) \<le> m"
  using assms
proof (induction m units i s rule: unit_limit.induct)
  case (2 m units i b bs)
  show ?case
  proof (cases "\<not> continuation b \<and> m < units + byte_units b")
    case True
    with 2 show ?thesis by (simp add: utf16_count_def)
  next
    case False
    then have "Suc i \<le> j \<and> j - Suc i < length bs
        \<and> units + byte_units b + utf16_count (take (j - Suc i) bs) \<le> m"
      using 2 by (cases "continuation b") (simp_all add: byte_units_def)
    moreover then have "take (j - i) (b # bs) = b # take (j - Suc i) bs" by (simp add: Suc_diff_Suc take_Cons')
    ultimately show ?thesis by (auto simp: utf16_count_def)
  qed
qed simp

lemma unit_limit_found:
  assumes "units \<le> m" "m < units + utf16_count s"
  shows "\<exists>j. unit_limit m units i s = Some j"
  using assms by (induction m units i s rule: unit_limit.induct) (auto simp: utf16_count_def byte_units_def)

lemma unit_limit_pos:
  assumes "unit_limit m 0 0 s = Some j" "2 \<le> m"
  shows "0 < j"
proof (cases s)
  case (Cons b bs)
  with assms have "unit_limit m (byte_units b) 1 bs = Some j" "byte_units b \<le> m"
    by (auto simp: byte_units_def split: if_splits)
  then have "1 \<le> j" using unit_limit_fits by blast
  then show ?thesis by simp
qed (use assms in simp)

lemma byte_limit_facts:
  assumes "2 \<le> m" "m < utf16_count s"
  shows "0 < byte_limit m s \<and> byte_limit m s \<le> length s \<and> utf16_count (take (byte_limit m s) s) \<le> m"
proof -
  obtain j where j: "unit_limit m 0 0 s = Some j" using unit_limit_found [of 0 m s 0] assms by auto
  with unit_limit_pos [OF j assms(1)] have "byte_limit m s = j" by (simp add: byte_limit_def)
  with unit_limit_fits [OF j] unit_limit_pos [OF j assms(1)] show ?thesis by simp
qed

lemma rfind_from_bound: "rfind_from P i s = Some j \<Longrightarrow> j < i + length s"
  by (induction P i s rule: rfind_from.induct) (auto split: option.splits if_splits)

lemma rfind_bound: "rfind s p = Some j \<Longrightarrow> j < length s"
  using rfind_from_bound [of _ 0 s] by (auto simp: rfind_def)

lemma split_point_facts:
  assumes "2 \<le> m" "m < utf16_count s"
  shows "0 < split_point m s \<and> split_point m s \<le> byte_limit m s"
proof -
  let ?n = "byte_limit m s" and ?p = "take (byte_limit m s) s"
  define a where "a = (case rfind ?p [LF, LF] of Some i \<Rightarrow> i | None \<Rightarrow> 0)"
  define b where "b = (if utf16_count (take a ?p) < m div 2 then (case rfind ?p [LF] of Some i \<Rightarrow> i | None \<Rightarrow> ?n) else a)"
  note lim = byte_limit_facts [OF assms]
  have "a \<le> ?n" using rfind_bound [of ?p "[LF, LF]"] by (auto simp: a_def split: option.splits)
  then have b: "b \<le> ?n" using rfind_bound [of ?p "[LF]"] by (auto simp: b_def split: option.splits)
  have sp: "split_point m s = (if utf16_count (take b ?p) < m div 2 then ?n else b)"
    by (simp add: split_point_def a_def b_def Let_def)
  have "0 < b" if "\<not> utf16_count (take b ?p) < m div 2"
    using that assms(1) by (cases b) (auto simp: utf16_count_def)
  with sp b lim show ?thesis by auto
qed

lemma length_trim_start: "length (trim_start s) \<le> length s"
  using trim_start_spaces [of s] by (metis length_append le_add2)

lemma utf16_trim_end: "utf16_count (trim_end s) \<le> utf16_count s"
  using trim_end_spaces [of s] utf16_append by (metis le_add1)

section \<open>Nothing but white space is dropped\<close>

text \<open>The chunks in order, with white space before, between and after them, make up the text.\<close>

inductive covers :: "string \<Rightarrow> string list \<Rightarrow> bool" where
  covers_end: "spaces w \<Longrightarrow> covers w []"
| covers_chunk: "spaces w \<Longrightarrow> covers r cs \<Longrightarrow> covers (w @ c @ r) (c # cs)"

lemma covers_spaces: "covers s cs \<Longrightarrow> spaces w \<Longrightarrow> covers (w @ s) cs"
proof (induction rule: covers.induct)
  case (covers_end v)
  then show ?case by (simp add: covers.covers_end spaces_append)
next
  case (covers_chunk v r cs c)
  then show ?case using covers.covers_chunk [of "w @ v" r cs c] by (simp add: spaces_append)
qed

lemma split_loop_returns:
  assumes "2 \<le> m"
  shows "\<exists>cs. split_loop m s acc = Some (acc @ cs) \<and> list_all (\<lambda>c. utf16_count c \<le> m) cs \<and> covers s cs"
proof (induction "length s" arbitrary: s acc rule: less_induct)
  case less
  show ?case
  proof (cases "m < utf16_count s")
    case False
    then show ?thesis
      using covers_end [OF spaces_Nil] covers_chunk [OF spaces_Nil covers_end [OF spaces_Nil], of s]
      by (intro exI [of _ "if s = [] then [] else [s]"]) (auto simp: split_loop.simps)
  next
    case True
    let ?n = "split_point m s"
    let ?chunk = "take ?n s" and ?rest = "drop ?n s"
    note sp = split_point_facts [OF assms True] and lim = byte_limit_facts [OF assms True]
    let ?acc = "if is_blank ?chunk then acc else acc @ [trim_end ?chunk]"
    have "length (trim_start ?rest) < length s"
      using length_trim_start [of ?rest] sp lim by simp arith
    from less [OF this, of ?acc] obtain cs where cs: "split_loop m (trim_start ?rest) ?acc = Some (?acc @ cs)"
      "list_all (\<lambda>c. utf16_count c \<le> m) cs" "covers (trim_start ?rest) cs" by blast
    have run: "split_loop m s acc = Some (?acc @ cs)"
      using cs(1) True by (subst split_loop.simps) (simp add: Let_def)
    obtain w where "spaces w" "?rest = w @ trim_start ?rest" using trim_start_spaces by blast
    with cs(3) have rest: "covers ?rest cs" using covers_spaces by metis
    show ?thesis
    proof (cases "is_blank ?chunk")
      case blank: True
      then have "covers (?chunk @ ?rest) cs" by (intro covers_spaces [OF rest] blank_spaces)
      with run cs(2) blank show ?thesis by auto
    next
      case False
      obtain v where "spaces v" "?chunk = trim_end ?chunk @ v" using trim_end_spaces by blast
      then have "covers (trim_end ?chunk @ (v @ ?rest)) (trim_end ?chunk # cs)" "s = trim_end ?chunk @ (v @ ?rest)"
        using covers_chunk [OF spaces_Nil covers_spaces [OF rest]] by (force, metis append.assoc append_take_drop_id)
      moreover have "utf16_count (trim_end ?chunk) \<le> m"
        using utf16_trim_end [of ?chunk] utf16_take_mono [of ?n "byte_limit m s" s] sp lim by simp
      ultimately show ?thesis using run cs(2) False by (intro exI [of _ "trim_end ?chunk # cs"]) auto
    qed
  qed
qed

text \<open>With a limit of one unit the loop repeats itself: the half of the limit is zero, so the empty
  prefix passes for long enough.\<close>

lemma split_point_one:
  assumes "LF \<notin> set s"
  shows "split_point 1 s = 0"
proof -
  have "rfind_from (\<lambda>t. starts_with t [LF, LF]) i t = None" if "LF \<notin> set t" for i t
    using that by (induction t arbitrary: i) auto
  then have "rfind (take (byte_limit 1 s) s) [LF, LF] = None"
    using assms in_set_takeD by (fastforce simp: rfind_def)
  then show ?thesis by (simp add: split_point_def Let_def)
qed

lemma split_loop_stuck:
  assumes "split_loop m s acc = Some y" "m = 1" "1 < utf16_count s" "LF \<notin> set s" "trim_start s = s"
  shows False
proof -
  let ?P = "\<lambda>m s (acc :: string list) (y :: string list).
    \<not> (m = 1 \<and> 1 < utf16_count s \<and> LF \<notin> set s \<and> trim_start s = s)"
  have "?P m s acc y"
    by (rule split_loop.raw_induct [where P = ?P, OF _ assms(1)]) (auto simp: split_point_one [unfolded One_nat_def] split: if_splits, blast)
  with assms(2-) show ?thesis by blast
qed

section \<open>Properties\<close>

text \<open>C17. With a limit of at least two units, splitting a reply terminates, no message is longer
  than the limit in UTF-16 units, and the messages in order contain everything of the reply
  except white space between them.\<close>

theorem split_text_sound:
  assumes "2 \<le> max_length"
  shows "\<exists>chunks. split_text reply max_length = Some chunks
    \<and> list_all (\<lambda>c. utf16_count c \<le> max_length) chunks \<and> covers reply chunks"
proof (cases "utf16_count reply \<le> max_length")
  case True
  then show ?thesis
    using assms covers_chunk [OF spaces_Nil covers_end [OF spaces_Nil], of reply] by (simp add: split_text_def max_def)
next
  case False
  then show ?thesis
    using assms split_loop_returns [of max_length reply "[]"] by (simp add: split_text_def max_def)
qed

theorem split_text_sound_witness:
  "\<exists>chunks. split_text (''one two'' @ [LF] @ ''three'') 8 = Some chunks \<and> list_all (\<lambda>c. utf16_count c \<le> 8) chunks"
  using split_text_sound [of 8 "''one two'' @ [LF] @ ''three''"] by auto

text \<open>C38. With a limit of one unit, splitting a reply of two or more units that has no line break
  and no leading white space never terminates: every turn of the loop cuts off the empty
  prefix and starts again with the same text.\<close>

theorem split_text_one_unit_diverges:
  assumes "max_length \<le> 1" "1 < utf16_count reply" "LF \<notin> set reply" "trim_start reply = reply"
  shows "split_text reply max_length = None"
  using assms split_loop_stuck [of 1 reply "[]"] by (cases "split_loop 1 reply []") (auto simp: split_text_def max_def)

theorem split_text_one_unit_diverges_witness: "split_text ''ok'' 1 = None"
proof -
  have "1 < utf16_count ''ok''" "LF \<notin> set ''ok''" "trim_start ''ok'' = ''ok''" by (code_simp, code_simp, code_simp)
  then show ?thesis using split_text_one_unit_diverges [of 1 "''ok''"] by simp
qed

end
