(* ===== verification/Chat_Prompt.thy ===== *)
theory Chat_Prompt
  imports Redaction St_Domain Text_Split "HOL-Library.Sublist"
begin

text \<open>
  \<^verbatim>\<open>src/modules/chat/prompt.rs\<close> and \<^verbatim>\<open>src/modules/bridge/st_ops.rs\<close>: the texts sent to the
  model and the mutations derived from a chat. Card texts are sanitised, history is normalised
  and cut to a window, and undo, regenerate and compress pick their targets from the parsed
  chat. Strings are UTF-8 bytes; a floating point number keeps its text, and \<open>None\<close> if it is
  not finite.
\<close>

section \<open>String operations of the standard library\<close>

text \<open>\<^verbatim>\<open>str::replace\<close> for a non-empty pattern.\<close>

fun replace_all :: "string \<Rightarrow> string \<Rightarrow> string \<Rightarrow> string" where
  "replace_all p r [] = []"
| "replace_all p r (c # s) =
     (if starts_with (c # s) p then r @ replace_all p r (drop (length p - 1) s)
      else c # replace_all p r s)"

definition TAB :: char where "TAB = CHR 0x09"

definition trim_blanks_end :: "string \<Rightarrow> string" where
  "trim_blanks_end s = rev (dropWhile (\<lambda>c. c = CHR '' '' \<or> c = TAB) (rev s))"

definition strip_prefix :: "string \<Rightarrow> string \<Rightarrow> string option" where
  "strip_prefix s p = (if starts_with s p then Some (drop (length p) s) else None)"

text \<open>\<^verbatim>\<open>str::lines\<close>: a carriage return is removed only before a line feed.\<close>

definition strip_cr :: "string \<Rightarrow> string" where
  "strip_cr s = (if s \<noteq> [] \<and> last s = CR then butlast s else s)"

definition lines :: "string \<Rightarrow> string list" where
  "lines s =
     (let ps = split_on LF s in map strip_cr (butlast ps) @ (if last ps = [] then [] else [last ps]))"

text \<open>\<^verbatim>\<open>str::split\<close> with a non-empty string, and \<^verbatim>\<open>chars\<close> with each character as its bytes.\<close>

fun split_str_acc :: "string \<Rightarrow> string \<Rightarrow> string \<Rightarrow> string list" where
  "split_str_acc p acc [] = [acc]"
| "split_str_acc p acc (c # s) =
     (if starts_with (c # s) p then acc # split_str_acc p [] (drop (length p - 1) s)
      else split_str_acc p (acc @ [c]) s)"

definition split_str :: "string \<Rightarrow> string \<Rightarrow> string list" where
  "split_str p s = split_str_acc p [] s"

fun chars :: "string \<Rightarrow> string list" where
  "chars [] = []"
| "chars (c # s) =
     (case chars s of
        [] \<Rightarrow> [[c]]
      | x # xs \<Rightarrow> if is_continuation (hd x) then (c # x) # xs else [c] # x # xs)"

section \<open>Card texts\<close>

definition STOP_MARKERS :: "string list" where
  "STOP_MARKERS =
     [(''*'' @ utf8_encode [37325, 28857]), ''nsfw'', ''NSFW'', (''18'' @ utf8_encode [23681]), (''18'' @ utf8_encode [21608, 23681]),
      (utf8_encode [26080, 20869, 23481, 38480, 21046])]"

definition substitute_placeholders :: "string \<Rightarrow> string \<Rightarrow> string \<Rightarrow> string" where
  "substitute_placeholders s character_name user_name =
     replace_all ''{{user}}'' user_name (replace_all ''{{char}}'' character_name s)"

definition sanitize_card_text :: "string \<Rightarrow> string \<Rightarrow> string \<Rightarrow> nat \<Rightarrow> string" where
  "sanitize_card_text s character_name user_name max_length =
     trim (take_chars max_length
       (foldl (\<lambda>t marker. case find_str t marker of Some i \<Rightarrow> take i t | None \<Rightarrow> t)
          (substitute_placeholders s character_name user_name) STOP_MARKERS))"

record normalized_card_fields =
  card_name :: string
  card_description :: string
  card_personality :: string
  card_scenario :: string
  card_first_mes :: string
  card_mes_example :: string
  card_system_prompt :: string
  card_post_history_instructions :: string

definition string_field :: "json \<Rightarrow> string list \<Rightarrow> string option" where
  "string_field v ks = Option.bind (find (\<lambda>k. get_str v k \<noteq> None) ks) (get_str v)"

definition card_from_raw :: "json \<Rightarrow> normalized_card_fields" where
  "card_from_raw raw =
     (let d = (case json_get raw ''data'' of Some v \<Rightarrow> v | None \<Rightarrow> raw);
          f = (\<lambda>ks. case string_field d ks of Some s \<Rightarrow> s | None \<Rightarrow> []) in
      \<lparr> card_name = f [''name''], card_description = f [''description''],
        card_personality = f [''personality''], card_scenario = f [''scenario''],
        card_first_mes = f [''first_mes'', ''firstMes''], card_mes_example = f [''mes_example'', ''mesExample''],
        card_system_prompt = f [''system_prompt''],
        card_post_history_instructions = f [''post_history_instructions''] \<rparr>)"

definition nonempty :: "string \<Rightarrow> string list" where
  "nonempty s = (if s = [] then [] else [s])"

definition build_system_prompt :: "normalized_card_fields \<Rightarrow> string \<Rightarrow> string" where
  "build_system_prompt cf user_name =
     (let clean = (\<lambda>s n. sanitize_card_text s (card_name cf) user_name n);
          example = clean (card_mes_example cf) 1200 in
      join_with [LF, LF]
        ([(utf8_encode [20320, 26159] @ '' '') @ card_name cf @
          (utf8_encode [12290, 20320, 24517, 39035, 20005, 26684, 20445, 25345, 35282, 33394, 35774, 23450,
       65292, 32487, 32493, 24403, 21069, 21095, 24773, 65292, 19981, 35201, 36339, 20986, 35282, 33394,
       65292, 19981, 35201, 20889, 20803, 35828, 26126, 12290])]
         @ nonempty (clean (card_description cf) 2200)
         @ nonempty (clean (card_personality cf) 600)
         @ nonempty (clean (card_scenario cf) 1200)
         @ (if is_blank (card_mes_example cf) \<or> example = [] then []
            else [(utf8_encode [31034, 20363, 23545, 35805, 65306, 10]) @ example])))"

section \<open>Normalisation\<close>

text \<open>\<open>collapse_run n s\<close> is the loop of \<^verbatim>\<open>collapse_newlines\<close> after \<open>n\<close> line feeds in a row.\<close>

fun collapse_run :: "nat \<Rightarrow> string \<Rightarrow> string" where
  "collapse_run n [] = []"
| "collapse_run n (c # s) =
     (if c = LF then (if n + 1 \<le> 2 then [LF] else []) @ collapse_run (n + 1) s
      else c # collapse_run 0 s)"

definition collapse_newlines :: "string \<Rightarrow> string" where
  "collapse_newlines s = collapse_run 0 s"

definition unify_newlines :: "string \<Rightarrow> string" where
  "unify_newlines s = replace_all [CR] [LF] (replace_all [CR, LF] [LF] s)"

definition normalize_model_input_text :: "string \<Rightarrow> string" where
  "normalize_model_input_text s =
     trim (collapse_newlines (join_with [LF] (map trim_blanks_end (split_on LF (unify_newlines s)))))"

definition should_reformat :: "string \<Rightarrow> bool" where
  "should_reformat s =
     (if 8 \<le> length (filter (\<lambda>c. c = LF) s) then False
      else 120 \<le> length s
        \<or> contains_str s (utf8_encode [9473, 9473, 9473, 9473, 9473, 9473])
        \<or> contains_str s (utf8_encode [9472, 9472, 9472, 9472, 9472, 9472])
        \<or> list_ex (\<lambda>c. contains_str s (utf8_char c)) [9312..<9320]
        \<or> contains_str s (utf8_encode [12300]) \<or> contains_str s (utf8_encode [12301])
        \<or> contains_str s (utf8_encode [12302]) \<or> contains_str s (utf8_encode [12303]))"

text \<open>The loop over the characters: a run of six or more rules is put on a line of its own.\<close>

function rule_lines :: "string list \<Rightarrow> string" where
  "rule_lines [] = []"
| "rule_lines (c # cs) =
     (if c = (utf8_encode [9473]) \<or> c = (utf8_encode [9472]) then
        let n = Suc (length (takeWhile (\<lambda>d. d = c) cs)); run = concat (replicate n c) in
        (if 6 \<le> n then [LF] @ run @ [LF] else run) @ rule_lines (dropWhile (\<lambda>d. d = c) cs)
      else c @ rule_lines cs)"
  by pat_completeness auto
termination
  by (relation "measure length") (auto simp: le_imp_less_Suc length_dropWhile_le)

definition regex_lite_replace :: "string \<Rightarrow> string" where
  "regex_lite_replace s =
     foldl (\<lambda>t c. replace_all (utf8_char c) ([LF] @ utf8_char c) t) (rule_lines (chars s)) [9312..<9320]"

fun strip_first :: "string \<Rightarrow> string list \<Rightarrow> string" where
  "strip_first s [] = s"
| "strip_first s (p # ps) =
     (case strip_prefix s p of Some r \<Rightarrow> trim_start r | None \<Rightarrow> strip_first s ps)"

definition normalize_assistant_reply :: "string \<Rightarrow> string \<Rightarrow> string" where
  "normalize_assistant_reply character_name s =
     (let t = normalize_model_input_text s in
      if t = [] then t
      else
        let u = strip_first t [character_name @ (utf8_encode [65306]), character_name @ '':'',
                  character_name @ '' :'', character_name @ ('' '' @ utf8_encode [65306])] in
        if \<not> should_reformat u then u
        else trim (join_with [LF, LF]
               (split_str [LF, LF, LF] (join_with [LF] (map trim (lines (regex_lite_replace u)))))))"

definition COMPRESSION_SYSTEM_PROMPT :: string where
  "COMPRESSION_SYSTEM_PROMPT =
     (utf8_encode [20320, 26159, 19968, 20010, 25991, 26412, 21387, 32553, 21161, 25163, 65292, 19987,
       38376, 20026, 35282, 33394, 25198, 28436] @ ''/'' @ utf8_encode [21465, 20107, 31867, 23545, 35805,
       21387, 32553] @ '' AI '' @ utf8_encode [22238, 22797, 12290, 10, 10, 21387, 32553, 35268, 21017,
       65306, 10] @ ''1. '' @ utf8_encode [20445, 30041, 65306, 20851, 38190, 24773, 33410, 25512, 36827,
       12289, 35282, 33394, 34892, 20026, 21160, 20316, 12289, 24773, 24863, 21464, 21270, 12289, 37325,
       35201, 23545, 35805, 20869, 23481, 12289, 21095, 24773, 36716, 25240, 28857, 12290, 10] @ ''2. '' @
       utf8_encode [21024, 38500, 65306, 37325, 22797, 30340, 29615, 22659, 25551, 20889, 12289, 20887,
       20313, 30340, 20869, 24515, 29420, 30333, 12289, 36807, 28193, 24615, 25991, 23383, 12289, 37325,
       22797, 30340, 24418, 23481, 35789, 22534, 30732, 12290, 10] @ ''3. '' @ utf8_encode [30446, 26631,
       38271, 24230, 65306, 21407, 25991, 30340] @ '' 30%-50%'' @ utf8_encode [12290, 10] @ ''4. '' @
       utf8_encode [20445, 25345, 21407, 25991, 30340, 20154, 29289, 35270, 35282, 21644, 21465, 20107,
       39118, 26684, 65288, 31532, 19968, 20154, 31216, 20445, 25345, 31532, 19968, 20154, 31216, 65292,
       31532, 19977, 20154, 31216, 20445, 25345, 31532, 19977, 20154, 31216, 65289, 12290, 10] @ ''5. '' @
       utf8_encode [20445, 30041, 21407, 25991, 20013, 30340, 20851, 38190, 24341, 35821, 65288, 24102,
       24341, 21495, 30340, 23545, 35805, 65289, 30340, 26680, 24515, 20869, 23481, 65292, 21487, 20197,
       32553, 30701, 20294, 19981, 35201, 21024, 38500, 12290, 10, 10, 36755, 20986, 35201, 27714, 65306,
       10] @ ''- '' @ utf8_encode [30452, 25509, 36755, 20986, 21387, 32553, 21518, 30340, 25991, 26412,
       65292, 19981, 35201, 28155, 21152, 20219, 20309, 21069, 32512, 12289, 26631, 35760, 12289, 35299,
       37322, 12289] @ ''JSON '' @ utf8_encode [21253, 35013, 12290, 10] @ ''- '' @ utf8_encode [19981,
       35201, 22238, 31572, 29992, 25143, 30340, 38382, 39064, 25110, 32487, 32493, 23545, 35805, 65292,
       21482, 26159, 21387, 32553, 32473, 23450, 30340, 25991, 26412, 12290, 10] @ ''- '' @
       utf8_encode [19981, 35201, 20351, 29992] @ '' '' @ utf8_encode [34, 12304, 21387, 32553, 29256,
       12305, 34, 12289, 34, 25688, 35201, 65306, 34] @ '' '' @ utf8_encode [31561, 20219, 20309, 35828,
       26126, 24615, 21069, 32512, 12290])"

definition strip_fence :: "string \<Rightarrow> string" where
  "strip_fence s =
     (case strip_prefix s (utf8_encode [96, 96, 96]) of
        None \<Rightarrow> s
      | Some r \<Rightarrow>
          let t = dropWhile (\<lambda>c. c = LF)
                    (dropWhile (\<lambda>c. is_ascii_alphanumeric c \<or> c = CHR ''-'') r) in
          case rfind t (utf8_encode [96, 96, 96]) of Some i \<Rightarrow> take i t | None \<Rightarrow> t)"

definition sanitize_compression :: "string \<Rightarrow> string" where
  "sanitize_compression s =
     trim (foldl (\<lambda>t p. case strip_prefix t p of Some r \<Rightarrow> trim r | None \<Rightarrow> t)
       (strip_fence (trim s))
       [(utf8_encode [12304, 21387, 32553, 29256, 12305]), (utf8_encode [21387, 32553, 29256, 65306]), (utf8_encode [21387, 32553, 21518, 65306]),
        (utf8_encode [25688, 35201, 65306]), ''Summary:'', ''Compressed:''])"

section \<open>Native conversations\<close>

datatype message_role = Role_System | Role_User | Role_Assistant

record message =
  ms_id :: string
  ms_turn_id :: "string option"
  ms_sequence :: i64
  ms_role :: message_role
  ms_content_original :: string
  ms_prompt_content :: "string option"
  ms_metadata :: json

definition prompt_text :: "message \<Rightarrow> string" where
  "prompt_text m =
     (case ms_prompt_content m of
        Some s \<Rightarrow> if is_blank s then ms_content_original m else s
      | None \<Rightarrow> ms_content_original m)"

definition RECENT_LIMIT :: nat where "RECENT_LIMIT = 24"

text \<open>\<^verbatim>\<open>split_off(len - RECENT_LIMIT)\<close> when the vector is longer than the limit.\<close>

definition keep_recent :: "'a list \<Rightarrow> 'a list" where
  "keep_recent xs = (if length xs > RECENT_LIMIT then drop (length xs - RECENT_LIMIT) xs else xs)"

definition DIGEST_MARK :: string where "DIGEST_MARK = ''[CompressionDigest]''"

definition select_recent_messages :: "message list \<Rightarrow> message list" where
  "select_recent_messages ms =
     (case find (\<lambda>m. starts_with (prompt_text m) DIGEST_MARK) ms of Some d \<Rightarrow> [d] | None \<Rightarrow> [])
     @ keep_recent (filter (\<lambda>m. ms_role m \<noteq> Role_System) ms)"

record prompt_message =
  pm_role :: string
  pm_content :: string
  pm_name :: "string option"

definition speaker_name :: "message \<Rightarrow> string \<Rightarrow> string" where
  "speaker_name m fallback =
     (case get_str (ms_metadata m) ''name'' of
        Some n \<Rightarrow> if trim n = [] then fallback else trim n
      | None \<Rightarrow> fallback)"

definition openai_message :: "string \<Rightarrow> message \<Rightarrow> prompt_message" where
  "openai_message user_name m =
     (let content = normalize_model_input_text (prompt_text m) in
      case ms_role m of
        Role_System \<Rightarrow> \<lparr> pm_role = ''system'', pm_content = content, pm_name = None \<rparr>
      | Role_User \<Rightarrow> \<lparr> pm_role = ''user'', pm_content = content, pm_name = Some (speaker_name m user_name) \<rparr>
      | Role_Assistant \<Rightarrow>
          \<lparr> pm_role = ''assistant'', pm_content = content, pm_name = Some (speaker_name m ''Assistant'') \<rparr>)"

definition to_openai_messages ::
    "string \<Rightarrow> message list \<Rightarrow> string \<Rightarrow> string option \<Rightarrow> prompt_message list" where
  "to_openai_messages system_prompt history user_name extra_user =
     [\<lparr> pm_role = ''system'', pm_content = system_prompt, pm_name = None \<rparr>]
     @ map (openai_message user_name) (filter (\<lambda>m. \<not> is_blank (prompt_text m)) history)
     @ (case extra_user of
          None \<Rightarrow> []
        | Some t \<Rightarrow> [\<lparr> pm_role = ''user'', pm_content = normalize_model_input_text t, pm_name = Some user_name \<rparr>])"

record history_item =
  hi_message_id :: string
  hi_turn_id :: "string option"
  hi_speaker :: string
  hi_text :: string
  hi_send_date :: "string option"
  hi_is_user :: bool
  hi_sort_index :: i64

definition history_item_of :: "message \<Rightarrow> history_item" where
  "history_item_of m =
     \<lparr> hi_message_id = ms_id m, hi_turn_id = ms_turn_id m,
       hi_speaker = (case get_str (ms_metadata m) ''name'' of
           Some n \<Rightarrow> n | None \<Rightarrow> if ms_role m = Role_User then ''User'' else ''Character''),
       hi_text = prompt_text m, hi_send_date = get_str (ms_metadata m) ''send_date'',
       hi_is_user = (ms_role m = Role_User), hi_sort_index = ms_sequence m \<rparr>"

definition history_items :: "message list \<Rightarrow> history_item list" where
  "history_items ms = map history_item_of (filter (\<lambda>m. ms_role m \<noteq> Role_System) ms)"

section \<open>Trimming\<close>

lemma trim_start_done: "ws_len (trim_start s) = 0"
  by (induction s rule: trim_start.induct) (subst trim_start.simps, simp)

lemma trim_end_done: "ws_suffix_len (trim_end s) = 0"
proof (induction s rule: trim_end.induct)
  case (1 s)
  then show ?case by (cases "ws_suffix_len s = 0") (simp_all add: trim_end.simps [of s])
qed

lemma ws_bytes_prefix: "ws_bytes (take k xs) \<noteq> 0 \<Longrightarrow> ws_bytes xs \<noteq> 0"
  by (cases xs rule: ws_bytes.cases; cases k; cases "k - 1"; cases "k - 2") (auto simp: take_Cons' split: if_splits)

lemma ws_len_prefix: "ws_len s = 0 \<Longrightarrow> ws_len (take k s) = 0"
proof -
  have "ws_len (take k s) = ws_bytes (take k (map of_char (take 3 s)))"
    by (simp add: ws_len_def take_map min.commute)
  then show "ws_len s = 0 \<Longrightarrow> ws_len (take k s) = 0"
    using ws_bytes_prefix [of k "map of_char (take 3 s)"] by (auto simp: ws_len_def)
qed

lemma trim_idem: "trim (trim s) = trim s"
proof -
  obtain w where "trim_start s = trim_end (trim_start s) @ w" using trim_end_spaces by blast
  then have "trim s = take (length (trim s)) (trim_start s)" unfolding trim_def by (metis append_eq_conv_conj)
  then have "ws_len (trim s) = 0" using ws_len_prefix [OF trim_start_done] by metis
  then have "trim_start (trim s) = trim s" by (simp add: trim_start.simps)
  moreover have "trim_end (trim s) = trim s"
    unfolding trim_def by (subst trim_end.simps) (simp add: trim_end_done)
  ultimately show ?thesis by (simp add: trim_def)
qed

lemma sublist_trim: "sublist (trim s) s"
proof -
  obtain v where "s = v @ trim_start s" using trim_start_spaces by blast
  moreover obtain w where "trim_start s = trim s @ w" using trim_end_spaces unfolding trim_def by blast
  ultimately have "s = v @ trim s @ w" by (rule subst [rotated])
  then show ?thesis unfolding sublist_def by blast
qed

lemma trimmed_last:
  assumes "trim t = t" "t \<noteq> []"
  shows "last t \<noteq> CHR '' '' \<and> last t \<noteq> TAB"
proof -
  have "ws_suffix_len t = 0" using trim_end_done [of "trim_start t"] assms(1) by (simp add: trim_def)
  then have "ws_len (drop (length t - 1) t) \<noteq> 1"
    using assms(2) by (auto simp: ws_suffix_len_def Let_def Suc_le_eq split: if_splits)
  moreover have "drop (length t - 1) t = [last t]"
    using assms(2) by (metis append_butlast_last_id append_eq_conv_conj length_butlast)
  ultimately show ?thesis by (auto simp: ws_len_def TAB_def)
qed

section \<open>Normal form of model input\<close>

definition normal_text :: "string \<Rightarrow> bool" where
  "normal_text t \<longleftrightarrow> CR \<notin> set t \<and> \<not> sublist [LF, LF, LF] t
     \<and> \<not> sublist [CHR '' '', LF] t \<and> \<not> sublist [TAB, LF] t \<and> trim t = t"

text \<open>No blank ends a line, nor the text.\<close>

fun calm :: "string \<Rightarrow> bool" where
  "calm [] = True"
| "calm [c] = (c \<noteq> CHR '' '' \<and> c \<noteq> TAB)"
| "calm (c # d # s) = ((c = CHR '' '' \<or> c = TAB \<longrightarrow> d \<noteq> LF) \<and> calm (d # s))"

lemma char_facts [simp]: "LF \<noteq> CHR '' ''" "LF \<noteq> TAB" "CR \<noteq> LF" "LF \<noteq> CR" "CHR '' '' \<noteq> LF" "TAB \<noteq> LF"
  by (simp_all add: LF_def CR_def TAB_def)

lemma calm_LF [simp]: "calm (LF # r) = calm r"
  by (cases r) simp_all

lemma calm_line: "calm (p @ LF # r) \<longleftrightarrow> calm p \<and> calm r"
proof (induction p rule: calm.induct)
  case (2 c)
  then show ?case by auto
qed auto

lemma calm_suffix: "calm (a @ s) \<Longrightarrow> s \<noteq> [] \<Longrightarrow> calm s"
proof (induction a)
  case (Cons c a)
  then have "a @ s \<noteq> []" by simp
  then obtain d r where "a @ s = d # r" by (cases "a @ s") auto
  with Cons show ?case by simp
qed simp

lemma calm_no_blank: "calm s \<Longrightarrow> \<not> sublist [CHR '' '', LF] s \<and> \<not> sublist [TAB, LF] s"
  using calm_suffix by (fastforce simp: sublist_def)

lemma calm_trim_blanks: "LF \<notin> set p \<Longrightarrow> calm (trim_blanks_end p)"
proof -
  have calm_rev: "calm (rev q)" if "LF \<notin> set q" "q = [] \<or> hd q \<noteq> CHR '' '' \<and> hd q \<noteq> TAB" for q
  proof (cases q)
    case (Cons c r)
    have "calm (u @ [c])" if "LF \<notin> set u" "c \<noteq> LF" for u
      using that \<open>q = [] \<or> _\<close> Cons by (induction u rule: calm.induct) auto
    from this [of "rev r"] that Cons show ?thesis by auto
  qed simp
  assume "LF \<notin> set p"
  moreover let ?q = "dropWhile (\<lambda>c. c = CHR '' '' \<or> c = TAB) (rev p)"
  have "?q = [] \<or> \<not> (hd ?q = CHR '' '' \<or> hd ?q = TAB)" 
    using hd_dropWhile [of "\<lambda>c. c = CHR '' '' \<or> c = TAB" "rev p"] by blast
  ultimately show ?thesis
    unfolding trim_blanks_end_def using set_dropWhileD [of LF _ "rev p"] by (intro calm_rev) auto
qed

lemma calm_join: "(\<And>p. p \<in> set ps \<Longrightarrow> calm p) \<Longrightarrow> calm (join_with [LF] ps)"
proof (induction ps)
  case (Cons p ps)
  then show ?case by (cases ps) (simp_all add: calm_line)
qed simp

lemma calm_collapse: "calm s \<Longrightarrow> calm (collapse_run n s)"
proof (induction s arbitrary: n)
  case (Cons c s)
  show ?case
  proof (cases s)
    case (Cons d r)
    with Cons.prems Cons.IH [of 0] Cons.IH [of "n + 1"] show ?thesis by (cases "c = LF"; cases "d = LF") auto
  qed (use Cons.prems in auto)
qed simp

lemma collapse_lead:
  "length (takeWhile (\<lambda>c. c = LF) (collapse_run n s)) \<le> 2 - n \<and> \<not> sublist [LF, LF, LF] (collapse_run n s)"
proof (induction s arbitrary: n)
  case (Cons c s)
  have two: "\<not> prefix [LF, LF] r" if "length (takeWhile (\<lambda>c. c = LF) r) \<le> 1" for r
    using that by (auto simp: prefix_def)
  moreover have "length (takeWhile (\<lambda>c. c = LF) (collapse_run (n + 1) s)) \<le> 1"
    using Cons.IH [of "n + 1"] by linarith
  ultimately have "\<not> prefix [LF, LF] (collapse_run (n + 1) s)" by blast
  then show ?case
    using Cons.IH [of "n + 1"] Cons.IH [of 0]
    by (cases "c = LF") (auto simp: sublist_Cons_right)
qed (simp add: sublist_def)

lemma collapse_id:
  assumes "\<not> sublist [LF, LF, LF] (replicate n LF @ s)" "n \<le> 2"
  shows "collapse_run n s = s"
  using assms
proof (induction s arbitrary: n)
  case (Cons c s)
  show ?case
  proof (cases "c = LF")
    case True
    then have eq: "replicate n LF @ c # s = replicate (n + 1) LF @ s" by (simp add: replicate_app_Cons_same)
    have "\<not> sublist [LF, LF, LF] (replicate (n + 1) LF @ s)" using Cons.prems(1) unfolding eq .
    moreover have "sublist [LF, LF, LF] (LF # LF # LF # s)" by (simp add: sublist_Cons_right)
    with True Cons.prems have "n \<noteq> 2" by (auto simp: numeral_2_eq_2)
    ultimately show ?thesis using True Cons.prems Cons.IH [of "n + 1"] by simp
  next
    case False
    have "sublist s (replicate n LF @ c # s)" by (auto simp: sublist_def intro: exI [of _ "replicate n LF @ [c]"])
    with Cons.prems Cons.IH [of 0] False show ?thesis using sublist_order.order.trans by fastforce
  qed
qed simp

lemma set_join: "set (join_with [d] ps) \<subseteq> insert d (\<Union> (set ` set ps))"
  by (induction "[d]" ps rule: join_with.induct) auto

lemma join_subset: "p \<in> set ps \<Longrightarrow> set p \<subseteq> set (join_with sep ps)"
proof (induction ps)
  case (Cons q ps)
  then show ?case by (cases ps) auto
qed simp

lemma replace_CR: "replace_all [CR] [LF] s = map (\<lambda>c. if c = CR then LF else c) s"
  by (induction s) auto

lemma replace_absent: "hd p \<notin> set s \<Longrightarrow> p \<noteq> [] \<Longrightarrow> replace_all p r s = s"
  by (induction p r s rule: replace_all.induct) (auto simp: neq_Nil_conv)

lemma unify_no_CR: "CR \<notin> set (unify_newlines s)"
  by (auto simp: unify_newlines_def replace_CR)

lemma set_trim_blanks: "set (trim_blanks_end p) \<subseteq> set p"
  by (auto simp: trim_blanks_end_def dest: set_dropWhileD)

lemma set_collapse: "set (collapse_run n s) \<subseteq> set s"
  by (induction s arbitrary: n) auto

lemma trim_blanks_id: "p = [] \<or> last p \<noteq> CHR '' '' \<and> last p \<noteq> TAB \<Longrightarrow> trim_blanks_end p = p"
  by (cases p rule: rev_cases) (auto simp: trim_blanks_end_def)

lemma split_line:
  "p \<in> set (butlast (split_on d s)) \<Longrightarrow> \<exists>a b. s = a @ p @ d # b"
proof (induction s arbitrary: p)
  case (Cons c s)
  obtain q qs where q: "split_on d s = q # qs" by (cases "split_on d s") auto
  show ?case
  proof (cases "c = d")
    case True
    with Cons.prems q have "p = [] \<or> p \<in> set (butlast (split_on d s))" by simp
    then show ?thesis
    proof
      assume "p \<in> set (butlast (split_on d s))"
      from Cons.IH [OF this] obtain a b where "s = a @ p @ d # b" by blast
      then have "c # s = (c # a) @ p @ d # b" by simp
      then show ?thesis by blast
    qed (use True in \<open>auto intro: exI [of _ "[]"]\<close>)
  next
    case False
    with Cons.prems q have p: "qs \<noteq> [] \<and> (p = c # q \<or> p \<in> set (butlast qs))" by (auto split: if_splits)
    then obtain p' where p': "p' \<in> set (butlast (split_on d s))" "p' = p \<or> p = c # q \<and> p' = q" using q by auto
    from Cons.IH [OF p'(1)] obtain a b where ab: "s = a @ p' @ d # b" by blast
    show ?thesis
    proof (cases "p' = p")
      case True
      with ab have "c # s = (c # a) @ p @ d # b" by simp
      then show ?thesis by blast
    next
      case False
      with p' have pq: "p = c # q" by simp
      have "join_with [d] (q # qs) = s" using join_split_on [of d s] q by simp
      then have "c # s = [] @ p @ d # join_with [d] qs" using p pq by (cases qs) auto
      then show ?thesis by blast
    qed
  qed
qed simp

lemma split_last: "\<exists>a. s = a @ last (split_on d s)"
proof (induction s)
  case (Cons c s)
  obtain q qs where q: "split_on d s = q # qs" by (cases "split_on d s") auto
  from Cons obtain a where a: "s = a @ last (split_on d s)" by blast
  then have "c # s = (c # a) @ last (split_on d s)" by simp
  moreover have "c # s = [] @ last (split_on d (c # s))" if "c \<noteq> d" "qs = []"
    using that q join_split_on [of d s] by simp
  ultimately show ?case using q by (cases "c = d \<or> qs \<noteq> []") (metis last_ConsR list.simps(3) split_on.simps(2) list.case(2))+
qed simp

lemma normal_lines:
  assumes "normal_text t" "p \<in> set (split_on LF t)"
  shows "trim_blanks_end p = p"
proof (rule trim_blanks_id, rule disjCI)
  assume "\<not> (last p \<noteq> CHR '' '' \<and> last p \<noteq> TAB)"
  then have blank: "last p = CHR '' '' \<or> last p = TAB" by blast
  show "p = []"
  proof (rule ccontr)
    assume "p \<noteq> []"
    then have p: "p = butlast p @ [last p]" by simp
    have "split_on LF t = butlast (split_on LF t) @ [last (split_on LF t)]" by simp
    then have "p \<in> set (butlast (split_on LF t)) \<or> p = last (split_on LF t)"
      using assms(2) by (metis Un_iff set_append empty_iff insert_iff list.set)
    then show False
    proof
      assume "p \<in> set (butlast (split_on LF t))"
      then obtain a b where "t = a @ p @ LF # b" using split_line by blast
      then have "t = (a @ butlast p) @ [last p, LF] @ b" using p by (metis append.assoc append_Cons append_Nil)
      then have "sublist [last p, LF] t" unfolding sublist_def by blast
      with assms(1) blank show False by (auto simp: normal_text_def)
    next
      assume "p = last (split_on LF t)"
      then obtain a where "t = a @ p" using split_last by metis
      then have "t \<noteq> []" "last t = last p" using \<open>p \<noteq> []\<close> by auto
      with trimmed_last [of t] assms(1) blank show False by (auto simp: normal_text_def)
    qed
  qed
qed

lemma normalize_normal: "normal_text t \<Longrightarrow> normalize_model_input_text t = t"
proof -
  assume t: "normal_text t"
  then have "CR \<notin> set t" by (simp add: normal_text_def)
  then have "unify_newlines t = t" by (simp add: unify_newlines_def replace_absent)
  moreover have "map trim_blanks_end (split_on LF t) = split_on LF t" using normal_lines [OF t] by (intro map_idI)
  moreover have "collapse_run 0 t = t" using t by (intro collapse_id) (simp_all add: normal_text_def)
  ultimately show ?thesis
    using t by (simp add: normalize_model_input_text_def collapse_newlines_def join_split_on normal_text_def)
qed

lemma normal_normalize: "normal_text (normalize_model_input_text s)"
proof -
  let ?ls = "map trim_blanks_end (split_on LF (unify_newlines s))"
  let ?c = "collapse_newlines (join_with [LF] ?ls)"
  have "calm p" if "p \<in> set ?ls" for p using that split_on_no_sep by (auto intro: calm_trim_blanks)
  then have "calm ?c" by (auto simp: collapse_newlines_def intro!: calm_collapse calm_join)
  moreover have "\<not> sublist [LF, LF, LF] ?c" using collapse_lead by (simp add: collapse_newlines_def)
  moreover have "CR \<notin> set ?c"
  proof -
    have "set p \<subseteq> set (unify_newlines s)" if "p \<in> set (split_on LF (unify_newlines s))" for p
      using join_subset [OF that, of "[LF]"] by (simp add: join_split_on)
    then have "\<Union> (set ` set ?ls) \<subseteq> set (unify_newlines s)" using set_trim_blanks by fastforce
    then have "set (join_with [LF] ?ls) \<subseteq> insert LF (set (unify_newlines s))" using set_join [of LF ?ls] by blast
    then show ?thesis
      using unify_no_CR [of s] set_collapse [of 0 "join_with [LF] ?ls"] by (auto simp: collapse_newlines_def)
  qed
  ultimately show ?thesis
    using sublist_trim [of ?c] trim_idem [of ?c] calm_no_blank [of ?c] set_mono_sublist
    by (auto simp: normal_text_def normalize_model_input_text_def dest: sublist_order.order.trans)
qed

text \<open>Text sent to the model is in normal form: no carriage return, no more than one empty line
  in a row, no blank at the end of a line and no white space around the text. Normalising
  text that is in this form changes nothing, so normalising twice is normalising once.\<close>

theorem model_text_normalised:
  "normal_text (normalize_model_input_text s)
   \<and> normalize_model_input_text (normalize_model_input_text s) = normalize_model_input_text s
   \<and> (normal_text s \<longrightarrow> normalize_model_input_text s = s)"
  using normal_normalize normalize_normal by blast

theorem model_text_normalised_witness: "normalize_model_input_text ''a b'' = ''a b''"
proof -
  have "normal_text ''a b''"
    by (simp add: normal_text_def sublist_Cons_right LF_def CR_def TAB_def) code_simp
  with model_text_normalised show ?thesis by blast
qed

end
