(* ===== verification/St_Ops.thy ===== *)
theory St_Ops
  imports Chat_Prompt
begin

text \<open>
  \<^verbatim>\<open>src/modules/bridge/st_ops.rs\<close>: what the bridge derives from the parsed chat of a snapshot.
  Element 0 of a parsed chat is its header. Undo and regenerate pick the last turn, prompts
  are built from the visible messages, compression picks old assistant messages. \<open>sha\<close> is
  SHA-256 in hex, \<open>to_vec\<close> the JSON printer (which may fail), \<open>now\<close> a clock reading.
\<close>

section \<open>Data\<close>

type_synonym f64 = "string option"

record st_character_summary =
  ch_avatar :: string
  ch_name :: string
  ch_description :: string
  ch_personality :: string
  ch_scenario :: string
  ch_first_mes :: string
  ch_mes_example :: string

record st_generation_settings =
  gs_username :: string
  gs_chat_completion_source :: string
  gs_model :: string
  gs_custom_url :: string
  gs_custom_prompt_post_processing :: string
  gs_temperature :: f64
  gs_top_p :: f64
  gs_max_tokens :: u32

record st_generation_request =
  gr_model_id :: "string option"
  gr_messages :: "prompt_message list"
  gr_temperature :: "f64 option"
  gr_top_p :: "f64 option"
  gr_max_tokens :: "u32 option"

record st_generation_result =
  gen_text :: string
  gen_finish_reason :: "string option"
  gen_usage :: "json option"

section \<open>Messages of a chat\<close>

definition message_sha256 :: "(string \<Rightarrow> string) \<Rightarrow> (json \<Rightarrow> string option) \<Rightarrow> json \<Rightarrow> string" where
  "message_sha256 sha to_vec v = sha (case to_vec v of Some s \<Rightarrow> s | None \<Rightarrow> ''{}'')"

definition is_system_item :: "json \<Rightarrow> bool" where
  "is_system_item v \<longleftrightarrow> get_bool v ''is_system'' = Some True"

definition is_user_item :: "json \<Rightarrow> bool" where
  "is_user_item v \<longleftrightarrow> get_bool v ''is_user'' = Some True"

definition visible_text :: "json \<Rightarrow> string" where
  "visible_text v =
     trim (case Option.bind (json_get v ''extra'') (\<lambda>e. get_str e ''display_text'') of
             Some s \<Rightarrow> s
           | None \<Rightarrow> (case get_str v ''mes'' of Some s \<Rightarrow> s | None \<Rightarrow> []))"

text \<open>The loop of \<^verbatim>\<open>last_dialogue_indexes\<close> over the indices \<open>i\<close>, \<open>i - 1\<close>, .., 1.\<close>

fun dialogue_scan :: "json list \<Rightarrow> nat \<Rightarrow> nat option \<Rightarrow> (nat \<times> nat) option" where
  "dialogue_scan ms 0 assistant = None"
| "dialogue_scan ms (Suc i) assistant =
     (let item = ms ! Suc i in
      if is_system_item item then dialogue_scan ms i assistant
      else
        case assistant of
          None \<Rightarrow> dialogue_scan ms i (if is_user_item item then None else Some (Suc i))
        | Some a \<Rightarrow> if is_user_item item then Some (Suc i, a) else dialogue_scan ms i assistant)"

definition last_dialogue_indexes :: "json list \<Rightarrow> (nat \<times> nat) option" where
  "last_dialogue_indexes ms = dialogue_scan ms (length ms - 1) None"

definition last_turn_hashes ::
    "(string \<Rightarrow> string) \<Rightarrow> (json \<Rightarrow> string option) \<Rightarrow> json list \<Rightarrow> (string \<times> string) option" where
  "last_turn_hashes sha to_vec ms =
     map_option (\<lambda>(u, a). (message_sha256 sha to_vec (ms ! u), message_sha256 sha to_vec (ms ! a)))
       (last_dialogue_indexes ms)"

definition chat_message :: "string \<Rightarrow> string \<Rightarrow> bool \<Rightarrow> string \<Rightarrow> st_chat_message" where
  "chat_message now name is_user txt =
     \<lparr> msg_name = name, msg_is_user = is_user, msg_mes = txt, msg_send_date = Some now, msg_extra = [] \<rparr>"

section \<open>Prompts\<close>

definition card_fields :: "st_character_summary \<Rightarrow> normalized_card_fields" where
  "card_fields c =
     \<lparr> card_name = ch_name c, card_description = ch_description c, card_personality = ch_personality c,
       card_scenario = ch_scenario c, card_first_mes = ch_first_mes c, card_mes_example = ch_mes_example c,
       card_system_prompt = [], card_post_history_instructions = [] \<rparr>"

definition is_digest_text :: "string \<Rightarrow> bool" where
  "is_digest_text t \<longleftrightarrow> starts_with t DIGEST_MARK"

definition digest_message :: "json list \<Rightarrow> prompt_message list" where
  "digest_message items =
     (case rev (filter is_digest_text (map visible_text items)) of
        [] \<Rightarrow> []
      | t # _ \<Rightarrow> [\<lparr> pm_role = ''system'', pm_content = normalize_model_input_text t, pm_name = None \<rparr>])"

definition in_history :: "json \<Rightarrow> bool" where
  "in_history v \<longleftrightarrow> visible_text v \<noteq> [] \<and> \<not> is_digest_text (visible_text v) \<and> \<not> is_system_item v"

definition history_message :: "string \<Rightarrow> string \<Rightarrow> json \<Rightarrow> prompt_message" where
  "history_message character_name user_name v =
     \<lparr> pm_role = (if is_user_item v then ''user'' else ''assistant''),
       pm_content = normalize_model_input_text (visible_text v),
       pm_name = Some (case get_str v ''name'' of
           Some (c # s) \<Rightarrow> c # s
         | _ \<Rightarrow> if is_user_item v then user_name else character_name) \<rparr>"

text \<open>\<^verbatim>\<open>rposition\<close> followed by \<^verbatim>\<open>remove\<close>.\<close>

definition remove_last :: "('a \<Rightarrow> bool) \<Rightarrow> 'a list \<Rightarrow> 'a list" where
  "remove_last P xs =
     (let ys = dropWhile (\<lambda>x. \<not> P x) (rev xs) in
      if ys = [] then xs else rev (tl ys) @ drop (length ys) xs)"

definition prompt_history :: "string \<Rightarrow> string \<Rightarrow> json list \<Rightarrow> bool \<Rightarrow> prompt_message list" where
  "prompt_history character_name user_name parsed drop_last_assistant =
     (let history = map (history_message character_name user_name) (filter in_history (drop 1 parsed)) in
      keep_recent (if drop_last_assistant then remove_last (\<lambda>m. pm_role m = ''assistant'') history else history))"

definition prompt_messages ::
    "st_character_summary \<Rightarrow> string \<Rightarrow> json list \<Rightarrow> string option \<Rightarrow> bool \<Rightarrow> prompt_message list" where
  "prompt_messages c user_name parsed extra_user drop_last_assistant =
     [\<lparr> pm_role = ''system'', pm_content = build_system_prompt (card_fields c) user_name, pm_name = None \<rparr>]
     @ digest_message (drop 1 parsed)
     @ prompt_history (ch_name c) user_name parsed drop_last_assistant
     @ (case extra_user of
          None \<Rightarrow> []
        | Some t \<Rightarrow> [\<lparr> pm_role = ''user'', pm_content = normalize_model_input_text t, pm_name = Some user_name \<rparr>])"

definition compression_messages :: "string \<Rightarrow> prompt_message list" where
  "compression_messages t =
     [\<lparr> pm_role = ''system'', pm_content = COMPRESSION_SYSTEM_PROMPT, pm_name = None \<rparr>,
      \<lparr> pm_role = ''user'', pm_content = t, pm_name = None \<rparr>]"

section \<open>Mutations\<close>

definition undo_mutation ::
    "(string \<Rightarrow> string) \<Rightarrow> (json \<Rightarrow> string option) \<Rightarrow> st_chat_snapshot \<Rightarrow> st_mutation option" where
  "undo_mutation sha to_vec s =
     map_option (\<lambda>(u, a). UndoLastTurn u a) (last_turn_hashes sha to_vec (parsed_chat s))"

definition append_mutation :: "string \<Rightarrow> string \<Rightarrow> string \<Rightarrow> string \<Rightarrow> string \<Rightarrow> string \<Rightarrow> st_mutation" where
  "append_mutation now now' user_name character_name user_text assistant_text =
     AppendTurn (chat_message now user_name True user_text)
       (chat_message now' character_name False (normalize_assistant_reply character_name assistant_text))"

definition replace_assistant_mutation ::
    "(string \<Rightarrow> string) \<Rightarrow> (json \<Rightarrow> string option) \<Rightarrow> string \<Rightarrow> st_chat_snapshot \<Rightarrow> string \<Rightarrow> string
      \<Rightarrow> st_mutation option" where
  "replace_assistant_mutation sha to_vec now s character_name assistant_text =
     map_option (\<lambda>(u, a).
         ReplaceLastAssistant (message_sha256 sha to_vec (parsed_chat s ! a))
           (chat_message now character_name False (normalize_assistant_reply character_name assistant_text)))
       (last_dialogue_indexes (parsed_chat s))"

definition COMPRESS_KEEP_RECENT :: nat where "COMPRESS_KEEP_RECENT = 15"

definition counts_as_recent :: "json \<Rightarrow> bool" where
  "counts_as_recent v \<longleftrightarrow> \<not> is_system_item v \<and> visible_text v \<noteq> []"

definition keep_from :: "json list \<Rightarrow> nat" where
  "keep_from parsed =
     (case take COMPRESS_KEEP_RECENT (filter (\<lambda>i. counts_as_recent (parsed ! i)) (rev [0..<length parsed])) of
        [] \<Rightarrow> 2 ^ 64 - 1
      | is \<Rightarrow> last is)"

definition compressible :: "json \<Rightarrow> bool" where
  "compressible v \<longleftrightarrow> \<not> is_user_item v \<and> \<not> is_system_item v
     \<and> visible_text v \<noteq> [] \<and> \<not> is_digest_text (visible_text v)
     \<and> Option.bind (json_get v ''extra'') (\<lambda>e. get_bool e ''compressed'') \<noteq> Some True"

definition compress_targets ::
    "(string \<Rightarrow> string) \<Rightarrow> (json \<Rightarrow> string option) \<Rightarrow> json list \<Rightarrow> (u32 \<times> string \<times> string) list" where
  "compress_targets sha to_vec parsed =
     map (\<lambda>i. (word_of_nat i, message_sha256 sha to_vec (parsed ! i), visible_text (parsed ! i)))
       (filter (\<lambda>i. 1 \<le> i \<and> i < keep_from parsed \<and> compressible (parsed ! i)) [0..<length parsed])"

definition compress_patch :: "u32 \<Rightarrow> string \<Rightarrow> string \<Rightarrow> st_message_patch" where
  "compress_patch i sha256 txt =
     (let cleaned = sanitize_compression txt in
      \<lparr> patch_index = i, expected_message_sha256 = sha256, patch_mes = Some cleaned,
        patch_extra = Some \<lparr> display_text = Some cleaned, compressed = Some True \<rparr> \<rparr>)"

section \<open>Generation requests\<close>

definition generate_text_from_payload :: "json \<Rightarrow> string option" where
  "generate_text_from_payload payload =
     (let pick = (\<lambda>ps. Option.bind (json_pointer payload ps) as_str);
          found = (case pick [''choices'', ''0'', ''message'', ''content''] of
                     Some s \<Rightarrow> Some s
                   | None \<Rightarrow> (case pick [''choices'', ''0'', ''delta'', ''content''] of
                       Some s \<Rightarrow> Some s
                     | None \<Rightarrow> get_str payload ''content'')) in
      Option.bind found (\<lambda>s. if trim s = [] then None else Some (trim s)))"

definition json_f64 :: "f64 \<Rightarrow> json" where
  "json_f64 x = (case x of Some t \<Rightarrow> JNumber (FloatNum t) | None \<Rightarrow> JNull)"

definition json_prompt_message :: "prompt_message \<Rightarrow> json" where
  "json_prompt_message m =
     JObject [(''role'', JString (pm_role m)), (''content'', JString (pm_content m)),
              (''name'', case pm_name m of Some n \<Rightarrow> JString n | None \<Rightarrow> JNull)]"

definition unwrap_or :: "'a option \<Rightarrow> 'a \<Rightarrow> 'a" where
  "unwrap_or x d = (case x of Some a \<Rightarrow> a | None \<Rightarrow> d)"

text \<open>The members of the request object, in order of insertion; \<^verbatim>\<open>stream\<close> is its last fixed member.\<close>

definition request_members ::
    "bool \<Rightarrow> st_generation_settings \<Rightarrow> st_generation_request \<Rightarrow> (string \<times> json) list" where
  "request_members stream st rq =
     [(''chat_completion_source'', JString (gs_chat_completion_source st)),
      (''model'', JString (case gr_model_id rq of Some (c # s) \<Rightarrow> c # s | _ \<Rightarrow> gs_model st)),
      (''messages'', JArray (map json_prompt_message (gr_messages rq))),
      (''temperature'', json_f64 (unwrap_or (gr_temperature rq) (gs_temperature st))),
      (''top_p'', json_f64 (unwrap_or (gr_top_p rq) (gs_top_p st))),
      (''max_tokens'', JNumber (PosInt (unat (unwrap_or (gr_max_tokens rq) (gs_max_tokens st))))),
      (''stream'', JBool stream)]
     @ (if gs_chat_completion_source st = ''custom'' then
          [(''custom_url'', JString (gs_custom_url st)),
           (''custom_prompt_post_processing'', JString (gs_custom_prompt_post_processing st)),
           (''custom_include_body'', JString []), (''custom_include_headers'', JString []),
           (''custom_exclude_body'', JString [])]
        else [])"

definition generate_payload :: "st_generation_settings \<Rightarrow> st_generation_request \<Rightarrow> json" where
  "generate_payload st rq = JObject (request_members False st rq)"

definition generate_stream_payload :: "st_generation_settings \<Rightarrow> st_generation_request \<Rightarrow> json" where
  "generate_stream_payload st rq = JObject (request_members True st rq)"

section \<open>The last turn\<close>

definition assistant_at :: "json list \<Rightarrow> nat \<Rightarrow> bool" where
  "assistant_at ms i \<longleftrightarrow> \<not> is_system_item (ms ! i) \<and> \<not> is_user_item (ms ! i)"

definition user_at :: "json list \<Rightarrow> nat \<Rightarrow> bool" where
  "user_at ms i \<longleftrightarrow> \<not> is_system_item (ms ! i) \<and> is_user_item (ms ! i)"

lemma dialogue_scan_Some:
  "dialogue_scan ms i (Some a) = Some (u, a') \<longleftrightarrow>
     a' = a \<and> 1 \<le> u \<and> u \<le> i \<and> user_at ms u \<and> (\<forall>j. u < j \<and> j \<le> i \<longrightarrow> \<not> user_at ms j)"
proof (induction i)
  case (Suc i)
  show ?case
  proof (cases "user_at ms (Suc i)")
    case True
    then have "dialogue_scan ms (Suc i) (Some a) = Some (Suc i, a)" by (simp add: user_at_def)
    with True show ?thesis by (auto simp: le_Suc_eq)
  next
    case False
    then have "dialogue_scan ms (Suc i) (Some a) = dialogue_scan ms i (Some a)" by (auto simp: user_at_def Let_def)
    with Suc False show ?thesis by (auto simp: le_Suc_eq)
  qed
qed simp

lemma dialogue_scan_None:
  "dialogue_scan ms i None = Some (u, a) \<longleftrightarrow>
     1 \<le> u \<and> u < a \<and> a \<le> i \<and> assistant_at ms a \<and> user_at ms u
     \<and> (\<forall>j. a < j \<and> j \<le> i \<longrightarrow> \<not> assistant_at ms j) \<and> (\<forall>j. u < j \<and> j < a \<longrightarrow> \<not> user_at ms j)"
proof (induction i)
  case (Suc i)
  show ?case
  proof (cases "assistant_at ms (Suc i)")
    case True
    then have "dialogue_scan ms (Suc i) None = dialogue_scan ms i (Some (Suc i))"
      by (simp add: assistant_at_def)
    with True show ?thesis by (auto simp: dialogue_scan_Some le_Suc_eq less_Suc_eq_le)
  next
    case False
    then have "dialogue_scan ms (Suc i) None = dialogue_scan ms i None" by (auto simp: assistant_at_def Let_def)
    with Suc False show ?thesis by (auto simp: le_Suc_eq)
  qed
qed simp

text \<open>Undo and regenerate act on the last turn: the assistant message they pick is the last
  one of the chat that is neither a user nor a system message, the user message is the last
  one before it, and the header is never picked. When the chat has such a pair it is found.\<close>

theorem last_dialogue_exact:
  "last_dialogue_indexes ms = Some (u, a) \<longleftrightarrow>
     1 \<le> u \<and> u < a \<and> a < length ms \<and> assistant_at ms a \<and> user_at ms u
     \<and> (\<forall>j. a < j \<and> j < length ms \<longrightarrow> \<not> assistant_at ms j)
     \<and> (\<forall>j. u < j \<and> j < a \<longrightarrow> \<not> user_at ms j)"
proof (cases ms)
  case (Cons x xs)
  then have "j \<le> length ms - 1 \<longleftrightarrow> j < length ms" for j by auto
  then show ?thesis by (simp add: last_dialogue_indexes_def dialogue_scan_None)
qed (simp add: last_dialogue_indexes_def)

definition demo_item :: "bool \<Rightarrow> string \<Rightarrow> json" where
  "demo_item is_user txt = JObject [(''is_user'', JBool is_user), (''mes'', JString txt)]"

definition demo_chat :: "json list" where
  "demo_chat = JObject [] # concat (replicate 9 [demo_item True ''hi'', demo_item False ''hello''])"

theorem last_dialogue_exact_witness:
  "last_dialogue_indexes demo_chat = Some (17, 18) \<and> assistant_at demo_chat 18 \<and> user_at demo_chat 17"
proof -
  have "last_dialogue_indexes demo_chat = Some (17, 18)" by code_simp
  with last_dialogue_exact [of demo_chat 17 18] show ?thesis by simp
qed

section \<open>The prompt window\<close>

lemma length_keep_recent: "length (keep_recent xs) \<le> RECENT_LIMIT"
  by (simp add: keep_recent_def)

lemma suffix_keep_recent: "suffix (keep_recent xs) xs"
  by (simp add: keep_recent_def suffix_drop)

lemma length_digest_message: "length (digest_message items) \<le> 1"
  by (simp add: digest_message_def split: list.splits)

text \<open>Whatever the length of the chat, a prompt has the system text, at most one digest, at most
  \<open>RECENT_LIMIT\<close> messages and the new one.\<close>

lemma prompt_messages_bounded: "length (prompt_messages c un parsed extra d) \<le> RECENT_LIMIT + 3"
proof -
  have "length (prompt_history (ch_name c) un parsed d) \<le> RECENT_LIMIT"
    by (simp add: prompt_history_def Let_def length_keep_recent)
  with length_digest_message [of "drop 1 parsed"] show ?thesis
    by (simp add: prompt_messages_def split: option.splits)
qed

section \<open>Compression targets\<close>

text \<open>The reference: an old assistant message is compressed exactly when at least fifteen
  visible messages follow it.\<close>

definition recent_after :: "json list \<Rightarrow> nat \<Rightarrow> nat" where
  "recent_after parsed i = length (filter counts_as_recent (drop (Suc i) parsed))"

definition reference_targets ::
    "(string \<Rightarrow> string) \<Rightarrow> (json \<Rightarrow> string option) \<Rightarrow> json list \<Rightarrow> (u32 \<times> string \<times> string) list" where
  "reference_targets sha to_vec parsed =
     map (\<lambda>i. (word_of_nat i, message_sha256 sha to_vec (parsed ! i), visible_text (parsed ! i)))
       (filter (\<lambda>i. 1 \<le> i \<and> compressible (parsed ! i) \<and> COMPRESS_KEEP_RECENT \<le> recent_after parsed i)
          [0..<length parsed])"

lemma compressible_recent: "compressible v \<Longrightarrow> counts_as_recent v"
  by (simp add: compressible_def counts_as_recent_def)

lemma filter_nth_drop:
  "length (filter P (drop k xs)) = length (filter (\<lambda>i. P (xs ! i)) [k..<length xs])"
proof (induction "length xs - k" arbitrary: k)
  case (Suc n)
  then have "drop k xs = xs ! k # drop (Suc k) xs" "[k..<length xs] = k # [Suc k..<length xs]"
    by (simp_all add: Cons_nth_drop_Suc upt_conv_Cons)
  with Suc show ?case by simp
qed simp

lemma filter_above:
  fixes R :: "nat list"
  assumes "sorted_wrt (<) R" "k < length R"
  shows "filter (\<lambda>j. R ! k < j) R = drop (Suc k) R"
proof -
  have R: "R = take k R @ R ! k # drop (Suc k) R" using assms(2) by (rule id_take_nth_drop)
  from assms(1) have "sorted_wrt (<) (take k R @ R ! k # drop (Suc k) R)" using R by simp
  then have "\<forall>x \<in> set (take k R). x < R ! k" "\<forall>x \<in> set (drop (Suc k) R). R ! k < x"
    by (auto simp: sorted_wrt_append)
  then have "filter (\<lambda>j. R ! k < j) (take k R @ R ! k # drop (Suc k) R) = drop (Suc k) R"
    by (auto simp: filter_empty_conv intro!: filter_True)
  then show ?thesis using R by simp
qed

lemma keep_from_index:
  fixes parsed defines "R \<equiv> filter (\<lambda>i. counts_as_recent (parsed ! i)) [0..<length parsed]"
  assumes "R \<noteq> []"
  shows "keep_from parsed = R ! (length R - COMPRESS_KEEP_RECENT)"
proof -
  let ?D = "drop (length R - COMPRESS_KEEP_RECENT) R"
  have less: "length R - COMPRESS_KEEP_RECENT < length R"
    using assms(2) by (cases R) (simp_all add: COMPRESS_KEEP_RECENT_def)
  have "filter (\<lambda>i. counts_as_recent (parsed ! i)) (rev [0..<length parsed]) = rev R"
    by (simp only: R_def rev_filter)
  then have "take COMPRESS_KEEP_RECENT (filter (\<lambda>i. counts_as_recent (parsed ! i)) (rev [0..<length parsed])) = rev ?D"
    by (simp add: take_rev)
  then have "keep_from parsed = (case rev ?D of [] \<Rightarrow> 2 ^ 64 - 1 | is \<Rightarrow> last is)" by (simp only: keep_from_def)
  moreover have "rev ?D \<noteq> []" using less by simp
  ultimately have "keep_from parsed = last (rev ?D)" by (cases "rev ?D") simp_all
  with less show ?thesis by (simp add: last_rev hd_drop_conv_nth)
qed

lemma before_keep_from:
  assumes i: "i < length parsed" "compressible (parsed ! i)"
  shows "i < keep_from parsed \<longleftrightarrow> COMPRESS_KEEP_RECENT \<le> recent_after parsed i"
proof -
  define R where "R = filter (\<lambda>i. counts_as_recent (parsed ! i)) [0..<length parsed]"
  have sorted: "sorted_wrt (<) R" unfolding R_def by (intro sorted_wrt_filter) simp
  have "i \<in> set R" using i compressible_recent by (auto simp: R_def)
  then obtain k where k: "k < length R" "R ! k = i" by (auto simp: in_set_conv_nth)
  have "recent_after parsed i = length (filter (\<lambda>j. i < j) R)"
  proof -
    have "filter (\<lambda>j. counts_as_recent (parsed ! j)) [Suc i..<length parsed] = filter (\<lambda>j. i < j) R"
    proof -
      have "[0..<length parsed] = [0..<Suc i] @ [Suc i..<length parsed]"
        using i(1) by (metis Suc_leI less_imp_le_nat upt_add_eq_append zero_le le_add_diff_inverse)
      then have "filter (\<lambda>j. i < j) R
          = filter (\<lambda>j. i < j) (filter (\<lambda>j. counts_as_recent (parsed ! j)) ([0..<Suc i] @ [Suc i..<length parsed]))"
        by (simp only: R_def)
      also have "\<dots> = filter (\<lambda>j. counts_as_recent (parsed ! j)) [Suc i..<length parsed]"
        by (auto simp: filter_empty_conv conj_commute intro!: filter_cong)
      finally show ?thesis by simp
    qed
    then show ?thesis by (simp add: recent_after_def filter_nth_drop)
  qed
  also have "\<dots> = length R - Suc k" using filter_above [OF sorted k(1)] k(2) by simp
  finally have after: "recent_after parsed i = length R - Suc k" .
  have keep: "keep_from parsed = R ! (length R - COMPRESS_KEEP_RECENT)"
    using keep_from_index [of parsed] k(1) by (fastforce simp: R_def)
  have "R ! k < R ! m \<longleftrightarrow> k < m" if "m < length R" for m
    using that k(1) sorted_wrt_nth_less [OF sorted] by (metis linorder_neqE_nat order_less_asym order_less_irrefl)
  with k keep have "i < keep_from parsed \<longleftrightarrow> k < length R - COMPRESS_KEEP_RECENT"
    by (auto simp: COMPRESS_KEEP_RECENT_def)
  with after k(1) show ?thesis by (auto simp: COMPRESS_KEEP_RECENT_def)
qed

text \<open>C32. Compression picks exactly the old assistant messages: one is a target just when at least
  fifteen visible messages of the dialogue follow it, it has visible text, is neither the
  header nor a digest nor compressed already; targets come in order, each with the digest of
  the stored message. So the fifteen most recent messages are never rewritten.\<close>

theorem compress_targets_reference: "compress_targets sha to_vec parsed = reference_targets sha to_vec parsed"
  unfolding compress_targets_def reference_targets_def
  by (intro arg_cong [where f = "map _"] filter_cong) (auto simp: before_keep_from)

end
