(* ===== verification/Channel_Context.thy ===== *)
theory Channel_Context
  imports St_Domain "HOL-Library.List_Lexorder" "HOL-Library.Char_ord"
begin

text \<open>
  \<^verbatim>\<open>src/modules/bridge/channel_context.rs\<close>: the selection a Telegram chat has made (character,
  chat, models), one row of \<^verbatim>\<open>channel_contexts\<close> per account, channel and context key. The
  table's foreign keys to accounts and workspaces are checked, and every statement may fail.
\<close>

section \<open>The table\<close>

record channel_row =
  cc_account_id :: string
  cc_channel :: string
  cc_context_key :: string
  cc_workspace_id :: "string option"
  cc_handle :: "string option"
  cc_avatar :: "string option"
  cc_character_name :: "string option"
  cc_chat_file :: "string option"
  cc_chat_model_id :: "string option"
  cc_compression_model_id :: "string option"
  cc_updated_at :: string

record channel_db =
  cd_rows :: "channel_row list"
  cd_accounts :: "string list"
  cd_workspaces :: "string list"
  cd_faults :: "bool list"

type_synonym 'a channel_m = "channel_db \<Rightarrow> 'a app_result \<times> channel_db"

named_theorems channel_defs \<open>definitions of the channel context store\<close>

definition channel_stmt :: "'a channel_m \<Rightarrow> 'a channel_m" where [channel_defs]:
  "channel_stmt body db =
     (case cd_faults db of
        [] \<Rightarrow> body db
      | f # fs \<Rightarrow> if f then (Inl db_error, db\<lparr>cd_faults := fs\<rparr>) else body (db\<lparr>cd_faults := fs\<rparr>))"

text \<open>\<^verbatim>\<open>StChannelLocator\<close>.\<close>

record st_channel_locator =
  cl_handle :: "string option"
  cl_avatar :: "string option"
  cl_character_name :: "string option"
  cl_chat_file :: "string option"
  cl_chat_model_id :: "string option"
  cl_compression_model_id :: "string option"

definition default_locator :: st_channel_locator where
  "default_locator =
     \<lparr> cl_handle = None, cl_avatar = None, cl_character_name = None, cl_chat_file = None,
       cl_chat_model_id = None, cl_compression_model_id = None \<rparr>"

definition row_locator :: "channel_row \<Rightarrow> st_channel_locator" where
  "row_locator r =
     \<lparr> cl_handle = cc_handle r, cl_avatar = cc_avatar r, cl_character_name = cc_character_name r,
       cl_chat_file = cc_chat_file r, cl_chat_model_id = cc_chat_model_id r,
       cl_compression_model_id = cc_compression_model_id r \<rparr>"

section \<open>Operations\<close>

definition context_row :: "string \<Rightarrow> string \<Rightarrow> channel_row \<Rightarrow> bool" where [channel_defs]:
  "context_row acc key r \<longleftrightarrow> cc_account_id r = acc \<and> cc_channel r = ''telegram'' \<and> cc_context_key r = key"

definition channel_load :: "string \<Rightarrow> string \<Rightarrow> st_channel_locator channel_m" where
  "channel_load acc key =
     channel_stmt (\<lambda>db.
       (Inr (case find (context_row acc key) (cd_rows db) of
               Some r \<Rightarrow> row_locator r
             | None \<Rightarrow> default_locator), db))"

definition blank_row :: "string \<Rightarrow> string \<Rightarrow> string \<Rightarrow> channel_row" where
  "blank_row acc key now =
     \<lparr> cc_account_id = acc, cc_channel = ''telegram'', cc_context_key = key, cc_workspace_id = None,
       cc_handle = None, cc_avatar = None, cc_character_name = None, cc_chat_file = None,
       cc_chat_model_id = None, cc_compression_model_id = None, cc_updated_at = now \<rparr>"

text \<open>\<^verbatim>\<open>INSERT .. ON CONFLICT(account_id, channel, external_context_key) DO UPDATE\<close>: \<open>ins\<close> gives the
  columns of a new row, \<open>upd\<close> those of an existing one.\<close>

definition channel_upsert ::
    "string \<Rightarrow> string \<Rightarrow> string \<Rightarrow> channel_row \<Rightarrow> (channel_row \<Rightarrow> channel_row) \<Rightarrow> unit channel_m"
where
  "channel_upsert acc ws key ins upd =
     channel_stmt (\<lambda>db.
       if acc \<notin> set (cd_accounts db) \<or> ws \<notin> set (cd_workspaces db) then (Inl db_error, db)
       else if list_ex (context_row acc key) (cd_rows db)
       then (Inr (), db\<lparr>cd_rows := map (\<lambda>r. if context_row acc key r then upd r else r) (cd_rows db)\<rparr>)
       else (Inr (), db\<lparr>cd_rows := cd_rows db @ [ins]\<rparr>))"

definition select_character ::
    "string \<Rightarrow> string \<Rightarrow> string \<Rightarrow> string \<Rightarrow> string \<Rightarrow> string \<Rightarrow> string \<Rightarrow> unit channel_m" where
  "select_character now acc ws key handle avatar name =
     (let upd = (\<lambda>r. r\<lparr> cc_workspace_id := Some ws, cc_handle := Some handle, cc_avatar := Some avatar,
                        cc_character_name := Some name, cc_chat_file := None, cc_updated_at := now \<rparr>) in
      channel_upsert acc ws key (upd (blank_row acc key now)) upd)"

definition select_chat ::
    "string \<Rightarrow> string \<Rightarrow> string \<Rightarrow> string \<Rightarrow> st_chat_locator \<Rightarrow> unit channel_m" where
  "select_chat now acc ws key loc =
     (let upd = (\<lambda>r. r\<lparr> cc_workspace_id := Some ws, cc_handle := Some (loc_handle loc),
                        cc_avatar := Some (loc_avatar loc), cc_character_name := Some (loc_character_name loc),
                        cc_chat_file := Some (loc_chat_file loc), cc_updated_at := now \<rparr>) in
      channel_upsert acc ws key (upd (blank_row acc key now)) upd)"

definition set_model_override ::
    "string \<Rightarrow> string \<Rightarrow> string \<Rightarrow> string \<Rightarrow> string \<Rightarrow> string option \<Rightarrow> unit channel_m" where
  "set_model_override now acc ws key purpose model_id =
     (let chat = (if purpose = ''chat'' then model_id else None);
          comp = (if purpose = ''compression'' then model_id else None);
          base = (\<lambda>r. r\<lparr> cc_workspace_id := Some ws, cc_updated_at := now \<rparr>) in
      channel_upsert acc ws key
        (base (blank_row acc key now)\<lparr> cc_chat_model_id := chat, cc_compression_model_id := comp \<rparr>)
        (\<lambda>r. (base r)
           \<lparr> cc_chat_model_id := (if purpose = ''chat'' then chat else cc_chat_model_id r),
             cc_compression_model_id := (if purpose = ''compression'' then comp else cc_compression_model_id r) \<rparr>))"

text \<open>\<^verbatim>\<open>ORDER BY updated_at DESC LIMIT ?\<close>; a negative limit is no limit.\<close>

definition list_recent :: "string \<Rightarrow> i64 \<Rightarrow> st_channel_locator list channel_m" where
  "list_recent acc limit =
     channel_stmt (\<lambda>db.
       let rs = rev (sort_key cc_updated_at
             (filter (\<lambda>r. cc_account_id r = acc \<and> cc_channel r = ''telegram'' \<and> cc_chat_file r \<noteq> None) (cd_rows db)))
       in (Inr (map row_locator (if limit < 0 then rs else take (nat limit) rs)), db))"

section \<open>Reading back\<close>

definition row_key :: "channel_row \<Rightarrow> string \<times> string \<times> string" where
  "row_key r = (cc_account_id r, cc_channel r, cc_context_key r)"

definition channels_ok :: "channel_db \<Rightarrow> bool" where
  "channels_ok db \<longleftrightarrow> distinct (map row_key (cd_rows db))"

definition selected :: "channel_db \<Rightarrow> string \<Rightarrow> string \<Rightarrow> st_channel_locator" where
  "selected db acc key =
     (case find (context_row acc key) (cd_rows db) of Some r \<Rightarrow> row_locator r | None \<Rightarrow> default_locator)"

lemma channel_upsert_cases:
  assumes "channel_upsert acc ws key ins upd db = (r, db')"
  obtains (failed) e where "r = Inl e" "cd_rows db' = cd_rows db"
  | (updated) "list_ex (context_row acc key) (cd_rows db)" "r = Inr ()"
      "cd_rows db' = map (\<lambda>r. if context_row acc key r then upd r else r) (cd_rows db)"
  | (inserted) "\<not> list_ex (context_row acc key) (cd_rows db)" "r = Inr ()" "cd_rows db' = cd_rows db @ [ins]"
proof -
  have "(\<exists>e. r = Inl e) \<and> cd_rows db' = cd_rows db
    \<or> list_ex (context_row acc key) (cd_rows db) \<and> r = Inr ()
      \<and> cd_rows db' = map (\<lambda>r. if context_row acc key r then upd r else r) (cd_rows db)
    \<or> \<not> list_ex (context_row acc key) (cd_rows db) \<and> r = Inr () \<and> cd_rows db' = cd_rows db @ [ins]"
    using assms by (auto simp: channel_upsert_def channel_stmt_def split: list.splits if_splits)
  then show thesis using failed updated inserted by blast
qed

lemma context_row_key: "context_row acc key r \<longleftrightarrow> row_key r = (acc, ''telegram'', key)"
  by (auto simp: context_row_def row_key_def)

lemma find_map_same:
  assumes "\<And>r. r \<in> set rs \<Longrightarrow> P (f r) \<longleftrightarrow> P r"
  shows "find P (map f rs) = map_option f (find P rs)"
  using assms by (induction rs) auto

text \<open>What an upsert does to the selection of its own and of every other context.\<close>

lemma channel_upsert_effect:
  assumes ins: "context_row acc key ins"
    and upd: "\<And>r. row_key (upd r) = row_key r"
    and run: "channel_upsert acc ws key ins upd db = (r, db')" and ok: "channels_ok db"
  shows "channels_ok db' \<and>
    (case r of
       Inl e \<Rightarrow> cd_rows db' = cd_rows db
     | Inr _ \<Rightarrow>
         selected db' acc key = row_locator (case find (context_row acc key) (cd_rows db) of
             Some x \<Rightarrow> upd x | None \<Rightarrow> ins)
         \<and> (\<forall>a k. (a, k) \<noteq> (acc, key) \<longrightarrow> selected db' a k = selected db a k))"
proof -
  let ?P = "context_row acc key" and ?f = "\<lambda>r. if context_row acc key r then upd r else r"
  have key_f: "row_key (?f x) = row_key x" for x by (simp add: upd)
  then have ctx_f: "context_row a k (?f x) \<longleftrightarrow> context_row a k x" for a k x by (simp add: context_row_key)
  from run show ?thesis
  proof (cases rule: channel_upsert_cases)
    case failed
    with ok show ?thesis by (simp add: channels_ok_def)
  next
    case updated
    have "find (context_row a k) (cd_rows db') = map_option ?f (find (context_row a k) (cd_rows db))" for a k
      unfolding updated(3) by (rule find_map_same) (rule ctx_f)
    moreover obtain x where "find ?P (cd_rows db) = Some x" "?P x"
      using updated(1) by (cases "find ?P (cd_rows db)") (auto simp: find_None_iff list_ex_iff dest: find_in_set)
    moreover have "?f y = y" if "find (context_row a k) (cd_rows db) = Some y" "(a, k) \<noteq> (acc, key)" for a k y
      using find_in_set [OF that(1)] that(2) by (auto simp: context_row_def)
    moreover have "channels_ok db'" using ok updated(3) key_f by (simp add: channels_ok_def comp_def)
    ultimately show ?thesis using updated(2) by (auto simp: selected_def split: option.splits)
  next
    case inserted
    have none: "find ?P (cd_rows db) = None" using inserted(1) by (simp add: find_None_iff list_ex_iff)
    have "find (context_row a k) (cd_rows db') = (case find (context_row a k) (cd_rows db) of
        Some y \<Rightarrow> Some y | None \<Rightarrow> if context_row a k ins then Some ins else None)" for a k
      unfolding inserted(3) by (simp add: find_append split: option.splits)
    moreover have "\<not> context_row a k ins" if "(a, k) \<noteq> (acc, key)" for a k
      using ins that by (auto simp: context_row_def)
    moreover have "channels_ok db'"
      using ok ins inserted(1,3) by (auto simp: channels_ok_def list_ex_iff context_row_key)
    ultimately show ?thesis using inserted(2) none ins by (auto simp: selected_def split: option.splits)
  qed
qed

text \<open>An outcome after which every load answers as it did before, with the selection of one context
  changed by \<open>g\<close>; a failed outcome leaves the rows as they were. Loads are compared under the same
  faults \<open>fs\<close>.\<close>

definition selection_updated ::
    "(st_channel_locator \<Rightarrow> st_channel_locator) \<Rightarrow> string \<Rightarrow> string \<Rightarrow> channel_db
      \<Rightarrow> unit app_result \<times> channel_db \<Rightarrow> bool" where
  "selection_updated g acc key db out =
     (case out of
        (Inl e, db') \<Rightarrow> cd_rows db' = cd_rows db
      | (Inr _, db') \<Rightarrow> \<forall>fs a k. fst (channel_load a k (db'\<lparr>cd_faults := fs\<rparr>))
          = map_sum id (if (a, k) = (acc, key) then g else id) (fst (channel_load a k (db\<lparr>cd_faults := fs\<rparr>))))"

lemma channel_load_selected:
  "fst (channel_load a k (db\<lparr>cd_faults := fs\<rparr>)) =
     (if fs \<noteq> [] \<and> hd fs then Inl db_error else Inr (selected db a k))"
  by (cases fs) (simp_all add: channel_load_def channel_stmt_def selected_def)

lemma upsert_selection:
  assumes "channels_ok db" "context_row acc key ins" "\<And>r. row_key (upd r) = row_key r"
    and "row_locator ins = g default_locator" "\<And>r. row_locator (upd r) = g (row_locator r)"
  shows "selection_updated g acc key db (channel_upsert acc ws key ins upd db)"
proof (cases "channel_upsert acc ws key ins upd db")
  case (Pair r db')
  from channel_upsert_effect [OF assms(2,3) Pair assms(1)] show ?thesis
    by (auto simp: selection_updated_def channel_load_selected Pair assms(4,5) split: sum.splits)
       (auto simp: selected_def assms(4,5) split: option.splits)
qed

text \<open>C31. The selection of a context reads back: after choosing a chat, a character or a model, loading
  the context answers with that choice and keeps what the choice does not concern (choosing a character
  forgets the chat; choosing a chat or a character keeps the models; choosing one model keeps
  the other and the chat), and loading any other context, of this or another account, answers what it
  answered before. A failed choice changes nothing. A load whose statement fails answers with the
  error, before and after.\<close>

theorem channel_selection_reads_back:
  assumes "channels_ok db"
  shows "selection_updated (\<lambda>s. s\<lparr> cl_handle := Some (loc_handle loc), cl_avatar := Some (loc_avatar loc),
          cl_character_name := Some (loc_character_name loc), cl_chat_file := Some (loc_chat_file loc) \<rparr>)
        acc key db (select_chat now acc ws key loc db)
    \<and> selection_updated (\<lambda>s. s\<lparr> cl_handle := Some handle, cl_avatar := Some avatar,
          cl_character_name := Some name, cl_chat_file := None \<rparr>)
        acc key db (select_character now acc ws key handle avatar name db)
    \<and> selection_updated (\<lambda>s. s\<lparr>cl_chat_model_id := model_id\<rparr>)
        acc key db (set_model_override now acc ws key ''chat'' model_id db)
    \<and> selection_updated (\<lambda>s. s\<lparr>cl_compression_model_id := model_id\<rparr>)
        acc key db (set_model_override now acc ws key ''compression'' model_id db)"
  unfolding select_chat_def select_character_def set_model_override_def Let_def
  by (intro conjI; rule upsert_selection [OF assms])
     (simp_all add: blank_row_def context_row_def row_key_def row_locator_def default_locator_def)

definition demo_channels :: channel_db where
  "demo_channels =
     \<lparr> cd_rows = [(blank_row ''a'' ''k'' ''1'')\<lparr>cc_chat_model_id := Some ''m''\<rparr>], cd_accounts = [''a''],
       cd_workspaces = [''w''], cd_faults = [] \<rparr>"

theorem channel_selection_reads_back_witness:
  "\<exists>db' s. select_character ''2'' ''a'' ''w'' ''k'' ''h'' ''v'' ''n'' demo_channels = (Inr (), db')
    \<and> fst (channel_load ''a'' ''k'' (db'\<lparr>cd_faults := []\<rparr>)) = Inr s
    \<and> cl_avatar s = Some ''v'' \<and> cl_chat_model_id s = Some ''m''"
proof -
  let ?c = "select_character ''2'' ''a'' ''w'' ''k'' ''h'' ''v'' ''n'' demo_channels"
  let ?g = "\<lambda>s. s\<lparr> cl_handle := Some ''h'', cl_avatar := Some ''v'', cl_character_name := Some ''n'', cl_chat_file := None \<rparr>"
  have ok: "channels_ok demo_channels" "fst ?c = Inr ()"
    by (simp add: channels_ok_def demo_channels_def) code_simp
  obtain s where s: "fst (channel_load ''a'' ''k'' (demo_channels\<lparr>cd_faults := []\<rparr>)) = Inr s" "cl_chat_model_id s = Some ''m''"
    by (simp add: channel_load_def channel_stmt_def demo_channels_def context_row_def blank_row_def row_locator_def)
  obtain db' where c: "?c = (Inr (), db')" using ok(2) by (metis prod.collapse)
  have "selection_updated ?g ''a'' ''k'' demo_channels ?c"
    by (rule channel_selection_reads_back [OF ok(1), THEN conjunct2, THEN conjunct1])
  then have "fst (channel_load ''a'' ''k'' (db'\<lparr>cd_faults := []\<rparr>)) = Inr (?g s)"
    using s(1) by (simp add: c selection_updated_def)
  with c s(2) show ?thesis by auto
qed

end
