(* ===== verification/Bridge_Engine.thy ===== *)
theory Bridge_Engine
  imports Operation_Recovery Lock_Table St_Ops Channel_Context
begin

text \<open>
  \<^verbatim>\<open>src/modules/bridge/engine.rs\<close>: the engine that executes bridge commands. A command takes the
  lock of its chat, checks that writing is allowed, claims its durable operation, reads a
  snapshot, generates a reply if it needs one, stores the encrypted recovery payload and
  commits through the coordinator. The backend, the progress sink and the environment during
  waits are functions of the record \<open>engine\<close>; they may change the world in every way other
  tasks can. \<open>ee_rest\<close> is the state of everything outside the modelled components, which is
  where the ownership guard and the poller registry are read.
\<close>

section \<open>Actors, commands and outcomes\<close>

datatype workspace_role = WR_Owner | WR_Admin | WR_Member

primrec role_as_str :: "workspace_role \<Rightarrow> string" where
  "role_as_str WR_Owner = ''owner''"
| "role_as_str WR_Admin = ''admin''"
| "role_as_str WR_Member = ''member''"

definition role_parse :: "string \<Rightarrow> workspace_role option" where
  "role_parse v =
     (if v = ''owner'' then Some WR_Owner else if v = ''admin'' then Some WR_Admin
      else if v = ''member'' then Some WR_Member else None)"

lemma role_parse_iff: "role_parse v = Some r \<longleftrightarrow> v = role_as_str r"
  by (cases r) (auto simp: role_parse_def)

definition can_admin :: "workspace_role \<Rightarrow> bool" where
  "can_admin r \<longleftrightarrow> r = WR_Owner \<or> r = WR_Admin"

record account =
  acc_id :: string
  acc_username :: string
  acc_display_name :: string
  acc_is_system_admin :: bool
  acc_disabled_at :: "string option"
  acc_legacy_st_handle :: "string option"

record actor =
  ac_account :: account
  ac_workspace_id :: "string option"
  ac_workspace_role :: "workspace_role option"

definition require_workspace :: "actor \<Rightarrow> string app_result" where
  "require_workspace a = ok_or (bad_request ''WORKSPACE_REQUIRED'' ''workspace is required'') (ac_workspace_id a)"

definition can_manage_workspace :: "actor \<Rightarrow> bool" where
  "can_manage_workspace a \<longleftrightarrow>
     acc_is_system_admin (ac_account a)
     \<or> (case ac_workspace_role a of Some r \<Rightarrow> can_admin r | None \<Rightarrow> False)"

datatype model_override_kind = MO_Chat | MO_Compression

datatype st_bridge_command =
    Cmd_SelectCharacter string string
  | Cmd_SelectChat st_chat_locator
  | Cmd_StartChat st_chat_locator string
  | Cmd_SendMessage st_chat_locator string string "string option"
  | Cmd_UndoLastTurn st_chat_locator string
  | Cmd_RevokeLastTurn st_chat_locator string
  | Cmd_RegenerateReply st_chat_locator string "string option"
  | Cmd_CompressChat st_chat_locator string
  | Cmd_SetModelOverride model_override_kind "string option"

record st_bridge_outcome =
  ou_operation_id :: "string option"
  ou_reply_text :: "string option"
  ou_write_committed :: bool
  ou_confirmed_commit :: bool
  ou_removed_safe_content :: "string option"
  ou_st_tail_fingerprint :: "string option"

definition committed_outcome :: "string \<Rightarrow> string \<Rightarrow> st_bridge_outcome" where
  "committed_outcome oid reply =
     \<lparr> ou_operation_id = Some oid, ou_reply_text = Some reply, ou_write_committed = True,
       ou_confirmed_commit = True, ou_removed_safe_content = None, ou_st_tail_fingerprint = None \<rparr>"

definition plain_outcome :: "string option \<Rightarrow> string \<Rightarrow> st_bridge_outcome" where
  "plain_outcome oid reply =
     \<lparr> ou_operation_id = oid, ou_reply_text = Some reply, ou_write_committed = False,
       ou_confirmed_commit = False, ou_removed_safe_content = None, ou_st_tail_fingerprint = None \<rparr>"

text \<open>\<^verbatim>\<open>BridgeExecutionContext\<close>; the cancellation token belongs to the backend's state.\<close>

record bridge_execution_context =
  cx_operation_id :: string
  cx_progress :: bool

text \<open>What the read side of the backend returns.\<close>

record st_chat_summary =
  sum_chat_file :: string
  sum_title :: "string option"
  sum_updated_at :: "string option"
  sum_message_count :: "u64 option"

record st_model_summary =
  mod_id :: string
  mod_owned_by :: "string option"

record st_model_catalog =
  cat_models :: "st_model_summary list"
  cat_current_model :: "string option"

section \<open>The engine and its world\<close>

record 'w surroundings =
  ee_channels :: channel_db
  ee_locks :: "lock_table lock_system"
  ee_rest :: 'w

type_synonym ('w, 'a) en_m = "('w surroundings, 'a) st_m"

record 'w engine =
  en_probe :: "('w, st_status) en_m"
  en_list_characters :: "('w, st_character_summary list) en_m"
  en_list_chats :: "string \<Rightarrow> ('w, st_chat_summary list) en_m"
  en_list_models :: "('w, st_model_catalog) en_m"
  en_snapshot :: "st_chat_locator \<Rightarrow> ('w, st_chat_snapshot) en_m"
  en_generation_settings :: "('w, st_generation_settings) en_m"
  en_stream_generate ::
    "st_generation_request \<Rightarrow> bridge_execution_context option \<Rightarrow> ('w, st_generation_result) en_m"
  en_emit_done :: "string \<Rightarrow> 'w surroundings world \<Rightarrow> 'w surroundings world"
  en_await_lock :: "nat \<Rightarrow> 'w surroundings world \<Rightarrow> 'w surroundings world"
  en_await_permit :: "'w surroundings world \<Rightarrow> 'w surroundings world"
  en_lock_order :: "(string \<times> lock_entry) list \<Rightarrow> (string \<times> lock_entry) list"
  en_context_key :: string
  en_coordinator :: "'w surroundings coordinator option"
  en_guard :: "('w \<Rightarrow> poller_ownership_guard) option"
  en_registry :: "'w \<Rightarrow> fence_check"
  en_generation_budget_valid :: bool
  en_sha :: "string \<Rightarrow> string"
  en_from_slice :: "string \<Rightarrow> json option"
  en_to_vec :: "json \<Rightarrow> string option"
  en_payload_to_vec :: "operation_recovery_payload \<Rightarrow> string option"

text \<open>What a call draws from its surroundings: the instant it asks for the lock, a fresh id, a key
  and a nonce, and the clock readings and error ids of its \<open>k\<close>-th step.\<close>

record engine_draws =
  dr_instant :: nat
  dr_new_id :: string
  dr_dek :: string
  dr_nonce :: string
  dr_unix_ms :: i64
  dr_clk :: "nat \<Rightarrow> nat \<Rightarrow> string"
  dr_uid :: "nat \<Rightarrow> nat \<Rightarrow> ids"

section \<open>Errors\<close>

definition engine_error ::
    "'w engine \<Rightarrow> engine_draws \<Rightarrow> st_error_stage \<Rightarrow> string \<Rightarrow> st_error_code \<Rightarrow> string option \<Rightarrow> commit_state
      \<Rightarrow> st_bridge_error call" where
  "engine_error E D stg endpoint code oid cs =
     map_st_error (en_sha E) (en_from_slice E) (dr_uid D 0 0)
       \<lparr> ef_stage = stg, ef_endpoint_class = Some endpoint, ef_operation_id = oid, ef_commit_state = cs,
         ef_attempt = 1, ef_duration_ms = None, ef_failure = Control code \<rparr>"

definition control_error ::
    "'w engine \<Rightarrow> engine_draws \<Rightarrow> st_error_code \<Rightarrow> string option \<Rightarrow> st_bridge_error call" where
  "control_error E D code oid = engine_error E D Stage_Control ''bridge'' code oid CS_NotStarted"

definition fail_control :: "'w engine \<Rightarrow> engine_draws \<Rightarrow> st_error_code \<Rightarrow> string option \<Rightarrow> ('w, 'a) en_m" where
  "fail_control E D code oid = st_fail (control_error E D code oid)"

text \<open>\<^verbatim>\<open>map_err(|_| error)\<close> on an application computation.\<close>

definition st_app_as :: "st_bridge_error call \<Rightarrow> ('w, 'a) app_m \<Rightarrow> ('w, 'a) st_m" where
  "st_app_as err m w =
     (case m w of (Inr a, w') \<Rightarrow> (Returns (Inr a), w') | (Inl _, w') \<Rightarrow> st_fail err w')"

definition on_channels :: "'a channel_m \<Rightarrow> ('w surroundings, 'a) app_m" where
  "on_channels m w =
     (case m (ee_channels (w_ext w)) of (r, c) \<Rightarrow> (r, w\<lparr>w_ext := (w_ext w)\<lparr>ee_channels := c\<rparr>\<rparr>))"

section \<open>Locks, permits and fences\<close>

definition locator_lock_key :: "st_chat_locator \<Rightarrow> string" where
  "locator_lock_key loc = loc_handle loc @ '':'' @ loc_avatar loc @ '':'' @ loc_chat_file loc"

definition set_locks :: "lock_table lock_system \<Rightarrow> 'w surroundings world \<Rightarrow> 'w surroundings world" where
  "set_locks s w = w\<lparr>w_ext := (w_ext w)\<lparr>ee_locks := s\<rparr>\<rparr>"

definition lock_locator :: "'w engine \<Rightarrow> engine_draws \<Rightarrow> st_chat_locator \<Rightarrow> ('w, nat) en_m" where
  "lock_locator E D loc w =
     (let s = ee_locks (w_ext w) in
      case locator_acquire (en_lock_order E) (uses_of (clients s)) (dr_instant D) (next_lock s)
             (locator_lock_key loc) (table s) of
        (Inl _, T) \<Rightarrow> fail_control E D StChatConflict None (set_locks (s\<lparr>table := T\<rparr>) w)
      | (Inr l, T) \<Rightarrow>
          (Returns (Inr (next_client s)),
           en_await_lock E (next_client s)
             (set_locks
                (s\<lparr>table := T, next_lock := Suc (next_lock s), next_client := Suc (next_client s),
                  clients := \<lparr>client_id = next_client s, client_key = locator_lock_key loc, client_lock = l,
                              holding = False\<rparr> # clients s\<rparr>) w)))"

definition unlock :: "nat \<Rightarrow> 'w surroundings world \<Rightarrow> 'w surroundings world" where
  "unlock c w =
     (let s = ee_locks (w_ext w) in set_locks (s\<lparr>clients := filter (\<lambda>d. client_id d \<noteq> c) (clients s)\<rparr>) w)"

text \<open>The guard is dropped when the command ends, however it ends.\<close>

definition with_locator_lock ::
    "'w engine \<Rightarrow> engine_draws \<Rightarrow> st_chat_locator \<Rightarrow> ('w, 'a) en_m \<Rightarrow> ('w, 'a) en_m" where
  "with_locator_lock E D loc body =
     st_bind (lock_locator E D loc) (\<lambda>c w. case body w of (r, w') \<Rightarrow> (r, unlock c w'))"

definition acquire_generation_permit :: "'w engine \<Rightarrow> engine_draws \<Rightarrow> ('w, unit) en_m" where
  "acquire_generation_permit E D =
     (if \<not> en_generation_budget_valid E
      then st_fail (engine_error E D Stage_Generation ''bridge'' StGenerateRateLimited None CS_NotStarted)
      else (\<lambda>w. (Returns (Inr ()), en_await_permit E w)))"

text \<open>\<^verbatim>\<open>require_generation_fence\<close> and \<^verbatim>\<open>require_commit_fence\<close>: both ask the guard the same.\<close>

definition require_fence :: "'w engine \<Rightarrow> engine_draws \<Rightarrow> string \<Rightarrow> ('w, unit) en_m" where
  "require_fence E D oid w =
     (case en_guard E of
        None \<Rightarrow> fail_control E D StPollerEpochMismatch (Some oid) w
      | Some g \<Rightarrow>
          let x = ee_rest (w_ext w) in
          (case assert_commit_fence (g x) (en_registry E x) of
             Inl _ \<Rightarrow> fail_control E D StPollerEpochMismatch (Some oid) w
           | Inr _ \<Rightarrow> st_return () w))"

definition engine_runtime_fence :: "'w engine \<Rightarrow> engine_draws \<Rightarrow> string \<Rightarrow> ('w, poller_runtime_fence) en_m" where
  "engine_runtime_fence E D oid w =
     (case Option.bind (en_guard E) (\<lambda>g. runtime_fence (g (ee_rest (w_ext w)))) of
        None \<Rightarrow> fail_control E D StPollerEpochMismatch (Some oid) w
      | Some f \<Rightarrow> st_return f w)"

section \<open>Claims\<close>

definition claim_error_state :: "bridge_operation_record \<Rightarrow> commit_state" where
  "claim_error_state r =
     (if rec_status r \<in> {Committed, Delivered} \<and> rec_commit_state r = OCS_Applied then CS_Applied
      else case rec_commit_state r of
        OCS_Unknown \<Rightarrow> CS_Unknown
      | OCS_NotApplied \<Rightarrow> CS_NotApplied
      | _ \<Rightarrow> CS_NotStarted)"

definition claim_error_code :: "commit_state \<Rightarrow> st_error_code" where
  "claim_error_code cs =
     (case cs of
        CS_Applied \<Rightarrow> StCommitFailed
      | CS_Unknown \<Rightarrow> StCommitStateUnknown
      | CS_NotApplied \<Rightarrow> StCommitFailed
      | CS_NotStarted \<Rightarrow> StOperationIdReused)"

definition claim_error ::
    "'w engine \<Rightarrow> engine_draws \<Rightarrow> string \<Rightarrow> operation_claim_error \<Rightarrow> st_bridge_error call" where
  "claim_error E D oid e =
     (case e of
        DuplicateClaim r \<Rightarrow>
          let cs = claim_error_state r in
          map_call (\<lambda>m. m\<lparr>safe_detail := None\<rparr>)
            (engine_error E D Stage_Control ''bridge'' (claim_error_code cs) (Some oid) cs)
      | ClaimFailed a \<Rightarrow>
          Returns (st_bridge_error_new (dr_uid D 0 0) StOperationIdReused Stage_Control (app_message a) False
            CS_NotStarted))"

definition claim_request ::
    "actor \<Rightarrow> string \<Rightarrow> string \<Rightarrow> st_chat_locator \<Rightarrow> bridge_operation_origin \<Rightarrow> claim_operation_request" where
  "claim_request a oid kind loc og =
     \<lparr> cl_id = oid, cl_actor_id = acc_id (ac_account a), cl_bot_id = or_internal_bot_id og,
       cl_telegram_update_id = or_telegram_update_id og, cl_channel_context_key = or_channel_context_key og,
       cl_operation_kind = kind, cl_locator = loc, cl_request_id = oid, cl_trace_id = oid \<rparr>"

definition claim_operation_with_origin ::
    "'w engine \<Rightarrow> engine_draws \<Rightarrow> actor \<Rightarrow> string \<Rightarrow> string \<Rightarrow> st_chat_locator \<Rightarrow> bridge_operation_origin
      \<Rightarrow> ('w, claimed_operation) en_m" where
  "claim_operation_with_origin E D a oid kind loc og w =
     (if is_blank oid \<or> \<not> origin_is_valid og then fail_control E D StChatLocatorRejected (Some oid) w
      else if en_coordinator E = None then fail_control E D StWriteNotReady (Some oid) w
      else
        (case coordinator_claim (dr_clk D 1 0) (dr_new_id D) (claim_request a oid kind loc og) (w_db w) of
           (Inr c, db) \<Rightarrow> st_return c (w\<lparr>w_db := db\<rparr>)
         | (Inl e, db) \<Rightarrow> st_fail (claim_error E D oid e) (w\<lparr>w_db := db\<rparr>)))"

definition resume_or_replay ::
    "'w engine \<Rightarrow> engine_draws \<Rightarrow> string \<Rightarrow> claimed_operation \<Rightarrow> ('w, bool) en_m" where
  "resume_or_replay E D oid c =
     (let r = co_record c in
      case co_disposition c of
        Fresh \<Rightarrow> st_return False
      | AlreadyDelivered \<Rightarrow> st_return True
      | Rejected \<Rightarrow> fail_control E D StOperationIdReused (Some oid)
      | Resume \<Rightarrow>
          if rec_status r \<in> {Committed, Delivered} \<and> rec_commit_state r = OCS_Applied then st_return True
          else if rec_commit_state r = OCS_Unknown then fail_control E D StCommitStateUnknown (Some oid)
          else if rec_status r \<in> {Generated, Committing} then fail_control E D StCommitStateUnknown (Some oid)
          else st_return False)"

text \<open>The steps every write command shares: claim, then stop if the operation is already done.\<close>

definition claimed ::
    "'w engine \<Rightarrow> engine_draws \<Rightarrow> actor \<Rightarrow> string \<Rightarrow> string \<Rightarrow> st_chat_locator \<Rightarrow> bridge_operation_origin
      \<Rightarrow> string \<Rightarrow> ('w, st_bridge_outcome) en_m \<Rightarrow> ('w, st_bridge_outcome) en_m" where
  "claimed E D a oid kind loc og already body =
     st_bind (claim_operation_with_origin E D a oid kind loc og) (\<lambda>c.
     st_bind (resume_or_replay E D oid c) (\<lambda>finished.
       if finished then st_return (committed_outcome oid already) else body))"

definition require_write_for_locator :: "'w engine \<Rightarrow> engine_draws \<Rightarrow> st_chat_locator \<Rightarrow> ('w, st_status) en_m" where
  "require_write_for_locator E D loc =
     st_bind (en_probe E) (\<lambda>status.
       case cap_mode (capabilities status) of
         Disabled \<Rightarrow> fail_control E D StWriteNotReady None
       | ReadOnly \<Rightarrow> fail_control E D StWriteNotReady None
       | TestWrite \<Rightarrow>
           if starts_with (loc_chat_file loc) ''IMBridge-Test-'' then st_return status
           else fail_control E D StTestScopeRequired None
       | ProductionWrite \<Rightarrow>
           if is_blank (loc_chat_file loc) then fail_control E D StChatLocatorRejected None
           else st_return status)"

section \<open>Recovery payloads\<close>

definition with_coordinator ::
    "'w engine \<Rightarrow> engine_draws \<Rightarrow> string \<Rightarrow> ('w surroundings coordinator \<Rightarrow> ('w, 'a) en_m) \<Rightarrow> ('w, 'a) en_m" where
  "with_coordinator E D oid f =
     (case en_coordinator E of None \<Rightarrow> fail_control E D StWriteNotReady (Some oid) | Some K \<Rightarrow> f K)"

text \<open>Validate, print, seal under the identity of the operation and record as generated.\<close>

definition seal_payload ::
    "'w engine \<Rightarrow> engine_draws \<Rightarrow> 'w surroundings coordinator \<Rightarrow> string \<Rightarrow> string \<Rightarrow> string \<Rightarrow> st_chat_locator
      \<Rightarrow> poller_runtime_fence \<Rightarrow> operation_recovery_payload \<Rightarrow> (string \<Rightarrow> string) \<Rightarrow> ('w, unit) en_m" where
  "seal_payload E D K actor_id oid kind loc fence payload digest =
     (case validate_payload payload of
        Inl _ \<Rightarrow> fail_control E D StCommitValidationFailed (Some oid)
      | Inr _ \<Rightarrow>
          (case en_payload_to_vec E payload of
             None \<Rightarrow> fail_control E D StCommitValidationFailed (Some oid)
           | Some plaintext \<Rightarrow>
               let aad = aad_new_with_fence oid
                     (locator_hash (sha256_hex (co_crypto K)) (loc_handle loc) (loc_avatar loc) (loc_chat_file loc))
                     kind actor_id fence in
               st_bind (st_app_as (control_error E D StWriteNotReady (Some oid))
                          (payload_encryptor_for_operation K (dr_clk D 5 0) (dr_dek D) oid)) (\<lambda>enc.
                 case payload_encrypt (co_crypto K) enc (dr_nonce D) plaintext aad of
                   Inl _ \<Rightarrow> fail_control E D StCommitValidationFailed (Some oid)
                 | Inr pl \<Rightarrow>
                     st_bind (mark_generated (dr_clk D 5 1) (dr_uid D 5 0) oid pl (digest plaintext))
                       (\<lambda>_. st_return ()))))"

definition persist_create_payload ::
    "'w engine \<Rightarrow> engine_draws \<Rightarrow> string \<Rightarrow> string \<Rightarrow> st_chat_locator \<Rightarrow> create_st_chat \<Rightarrow> ('w, unit) en_m" where
  "persist_create_payload E D actor_id oid loc cmd =
     with_coordinator E D oid (\<lambda>K.
       st_bind (engine_runtime_fence E D oid) (\<lambda>fence.
         if cr_fence cmd \<noteq> fence then fail_control E D StPollerEpochMismatch (Some oid)
         else seal_payload E D K actor_id oid KIND_START loc fence (RP_Create cmd)
                (sha256_hex (co_crypto K))))"

definition generated_payload :: "string \<Rightarrow> recovery_snapshot \<Rightarrow> operation_recovery_payload option" where
  "generated_payload kind q =
     (if kind = KIND_SEND then Some (RP_Append q)
      else if kind = KIND_REGENERATE then Some (RP_Replace q)
      else if kind = KIND_UNDO \<or> kind = KIND_REVOKE then Some (RP_Undo q)
      else if kind = KIND_COMPRESS then Some (RP_Compress q)
      else None)"

definition persist_generated_payload ::
    "'w engine \<Rightarrow> engine_draws \<Rightarrow> string \<Rightarrow> string \<Rightarrow> string \<Rightarrow> st_chat_locator \<Rightarrow> st_chat_snapshot \<Rightarrow> st_mutation
      \<Rightarrow> ('w, unit) en_m" where
  "persist_generated_payload E D actor_id oid kind loc snap mutation =
     with_coordinator E D oid (\<lambda>K.
       st_bind (engine_runtime_fence E D oid) (\<lambda>fence.
         case generated_payload kind
                \<lparr> rp_mutation = mutation, rp_expected_sha256 = source_sha256 snap,
                  rp_expected_integrity = source_integrity snap, rp_fence = fence \<rparr> of
           None \<Rightarrow> fail_control E D StCommitValidationFailed (Some oid)
         | Some payload \<Rightarrow>
             seal_payload E D K actor_id oid kind loc fence payload (\<lambda>_. mutation_digest K mutation)))"

section \<open>Commands\<close>

definition operation_id_of :: "string \<Rightarrow> bridge_execution_context option \<Rightarrow> string \<Rightarrow> string" where
  "operation_id_of client_op ctx new_id =
     (if is_blank client_op then (case ctx of Some c \<Rightarrow> cx_operation_id c | None \<Rightarrow> new_id) else client_op)"

definition test_chat_file :: "string \<Rightarrow> i64 \<Rightarrow> string" where
  "test_chat_file name unix_ms =
     (let dash = (\<lambda>c. c = CHR ''-'');
          safe = map (\<lambda>c. case c of [b] \<Rightarrow> if is_ascii_alphanumeric b then b else CHR ''-'' | _ \<Rightarrow> CHR ''-'') (chars name);
          trimmed = rev (dropWhile dash (rev (dropWhile dash safe))) in
      ''IMBridge-Test-'' @ (if trimmed = [] then ''Chat'' else trimmed) @ ''-'' @ int_to_string unix_ms @ ''.jsonl'')"

definition opening_message :: "string \<Rightarrow> string \<Rightarrow> json" where
  "opening_message now name =
     JObject [(''name'', JString name), (''is_user'', JBool False), (''is_system'', JBool False),
              (''send_date'', JString now),
              (''mes'', JString ((utf8_encode [20320, 22909, 65292, 25105, 26159]) @ name @
                 (utf8_encode [12290, 25105, 20204, 24320, 22987, 26032, 30340, 25925, 20107, 21543, 12290]))),
              (''extra'', JObject [])]"

definition start_chat ::
    "'w engine \<Rightarrow> engine_draws \<Rightarrow> actor \<Rightarrow> st_chat_locator \<Rightarrow> string \<Rightarrow> bridge_operation_origin
      \<Rightarrow> ('w, st_bridge_outcome) en_m" where
  "start_chat E D a loc client_op og =
     with_locator_lock E D loc
       (case require_workspace a of
          Inl _ \<Rightarrow> fail_control E D StChatLocatorRejected None
        | Inr ws \<Rightarrow>
            st_bind (en_probe E) (\<lambda>status.
              if \<not> allows_write (cap_mode (capabilities status)) then fail_control E D StWriteNotReady None
              else if is_blank (loc_avatar loc) \<or> is_blank (loc_character_name loc)
              then fail_control E D StChatLocatorRejected None
              else
                let oid = operation_id_of client_op None (dr_new_id D);
                    created = \<lparr> loc_handle = (if is_blank (loc_handle loc) then st_handle status else loc_handle loc),
                                loc_avatar = loc_avatar loc, loc_character_name = loc_character_name loc,
                                loc_chat_file = test_chat_file (loc_character_name loc) (dr_unix_ms D) \<rparr> in
                claimed E D a oid KIND_START created og (utf8_encode [35813, 26032, 24314, 20250, 35805, 24050, 23436, 25104, 65292, 26410, 37325, 22797,
       21019, 24314, 25991, 20214, 12290])
                  (st_bind (engine_runtime_fence E D oid) (\<lambda>fence.
                     let cmd = \<lparr> cr_operation_id = oid, cr_locator = created,
                                 cr_opening_message = opening_message (dr_clk D 0 0) (loc_character_name loc),
                                 cr_scope = TestChat, cr_fence = fence \<rparr> in
                     with_coordinator E D oid (\<lambda>K.
                     st_bind (mark_snapshot_ready (dr_clk D 2 0) (dr_uid D 2 0) oid None None None None) (\<lambda>_.
                     st_bind (persist_create_payload E D (acc_id (ac_account a)) oid created cmd) (\<lambda>_.
                     st_bind (require_fence E D oid) (\<lambda>_.
                     st_bind (create K (dr_clk D 6) (dr_uid D 6) cmd) (\<lambda>_.
                     st_bind (st_app_as (engine_error E D Stage_Control ''bridge'' StChatLocatorRejected (Some oid) CS_Applied)
                                (on_channels (select_chat (dr_clk D 7 0) (acc_id (ac_account a)) ws (en_context_key E) created)))
                       (\<lambda>_. st_return (committed_outcome oid
                          ((utf8_encode [24050, 26032, 24314, 27979, 35797, 20250, 35805, 65306]) @ loc_chat_file created)))))))))))) "

definition load_character :: "'w engine \<Rightarrow> engine_draws \<Rightarrow> st_chat_locator \<Rightarrow> ('w, st_character_summary) en_m" where
  "load_character E D loc =
     st_bind (en_list_characters E) (\<lambda>cs.
       case find (\<lambda>c. ch_avatar c = loc_avatar loc) cs of
         Some c \<Rightarrow> st_return c
       | None \<Rightarrow> fail_control E D StChatLocatorRejected None)"

definition commit_mutation ::
    "'w engine \<Rightarrow> engine_draws \<Rightarrow> string \<Rightarrow> st_chat_locator \<Rightarrow> st_chat_snapshot \<Rightarrow> st_mutation \<Rightarrow> string
      \<Rightarrow> ('w, st_bridge_outcome) en_m" where
  "commit_mutation E D oid loc snap mutation reply =
     st_bind (require_fence E D oid) (\<lambda>_.
     st_bind (engine_runtime_fence E D oid) (\<lambda>fence.
     with_coordinator E D oid (\<lambda>K.
     st_bind (commit K (dr_clk D 6) (dr_uid D 6)
                \<lparr> co_operation_id = oid, co_locator = loc, co_expected_sha256 = source_sha256 snap,
                  co_expected_integrity = source_integrity snap, co_mutation = mutation, co_fence = fence \<rparr>) (\<lambda>res.
       if res_status res \<in> {SC_Applied, SC_AlreadyApplied} then st_return (committed_outcome oid reply)
       else st_fail (engine_error E D Stage_Commit ''connector'' StCommitFailed (Some oid) CS_NotApplied)))))"

text \<open>The result of a generation: a failure is recorded in the ledger before it is returned.\<close>

definition settled :: "engine_draws \<Rightarrow> string \<Rightarrow> ('w, 'a) st_m \<Rightarrow> ('w, 'a) st_m" where
  "settled D oid m w =
     (case m w of
        (Returns (Inl e), w') \<Rightarrow>
          (case settle_generation_failure (dr_clk D 4 0) (dr_uid D 4 0) oid e w' of
             (e', w'') \<Rightarrow> (Returns (Inl e'), w''))
      | other \<Rightarrow> other)"

definition snapshot_marked :: "engine_draws \<Rightarrow> string \<Rightarrow> st_chat_snapshot \<Rightarrow> ('w, bridge_operation_record) en_m" where
  "snapshot_marked D oid snap =
     mark_snapshot_ready (dr_clk D 2 0) (dr_uid D 2 0) oid (Some (source_sha256 snap)) (Some (source_integrity snap))
       (Some (sint (source_byte_length snap))) (Some (sint (source_message_count snap)))"

text \<open>The prompt of a reply and the request for it.\<close>

definition generate_reply ::
    "'w engine \<Rightarrow> engine_draws \<Rightarrow> actor \<Rightarrow> string \<Rightarrow> st_chat_locator \<Rightarrow> st_chat_snapshot \<Rightarrow> string option
      \<Rightarrow> bool \<Rightarrow> string option \<Rightarrow> bridge_execution_context option
      \<Rightarrow> ('w, st_character_summary \<times> st_generation_settings \<times> string) en_m" where
  "generate_reply E D a oid loc snap extra_user drop_last model_override ctx =
     st_bind (load_character E D loc) (\<lambda>ch.
     st_bind (en_generation_settings E) (\<lambda>gs.
     st_bind (st_app_as (control_error E D StWriteNotReady (Some oid))
                (on_channels (channel_load (acc_id (ac_account a)) (en_context_key E)))) (\<lambda>cc.
     st_bind (require_fence E D oid) (\<lambda>_.
     st_bind (acquire_generation_permit E D) (\<lambda>_.
     st_bind (en_stream_generate E
                \<lparr> gr_model_id = (case model_override of Some m \<Rightarrow> Some m | None \<Rightarrow> cl_chat_model_id cc),
                  gr_messages = prompt_messages ch (gs_username gs) (parsed_chat snap) extra_user drop_last,
                  gr_temperature = Some (gs_temperature gs), gr_top_p = Some (gs_top_p gs),
                  gr_max_tokens = Some (gs_max_tokens gs) \<rparr> ctx) (\<lambda>g.
       st_return (ch, gs, gen_text g)))))))"

definition emit_done ::
    "'w engine \<Rightarrow> bridge_execution_context option \<Rightarrow> st_bridge_outcome \<Rightarrow> ('w, st_bridge_outcome) en_m" where
  "emit_done E ctx out w =
     (Returns (Inr out),
      if (case ctx of Some c \<Rightarrow> cx_progress c | None \<Rightarrow> False)
      then en_emit_done E (case ou_reply_text out of Some t \<Rightarrow> t | None \<Rightarrow> []) w else w)"

definition context_mismatch :: "bridge_execution_context option \<Rightarrow> string \<Rightarrow> bool" where
  "context_mismatch ctx oid \<longleftrightarrow> (case ctx of Some c \<Rightarrow> cx_operation_id c \<noteq> oid | None \<Rightarrow> False)"

definition send_message_with_context ::
    "'w engine \<Rightarrow> engine_draws \<Rightarrow> actor \<Rightarrow> st_chat_locator \<Rightarrow> string \<Rightarrow> string \<Rightarrow> string option
      \<Rightarrow> bridge_execution_context option \<Rightarrow> bridge_operation_origin \<Rightarrow> ('w, st_bridge_outcome) en_m" where
  "send_message_with_context E D a loc txt client_op model_override ctx og =
     with_locator_lock E D loc
       (st_bind (require_write_for_locator E D loc) (\<lambda>_.
          let oid = operation_id_of client_op ctx (dr_new_id D) in
          if context_mismatch ctx oid then fail_control E D StOperationIdReused (Some oid)
          else
            claimed E D a oid KIND_SEND loc og (utf8_encode [35813, 21457, 36865, 25805, 20316, 24050, 23436, 25104, 65292, 26410, 20877, 27425,
       20889, 20837] @ '' SillyTavern'' @ utf8_encode [12290])
              (st_bind (en_snapshot E loc) (\<lambda>snap.
               with_coordinator E D oid (\<lambda>K.
               st_bind (snapshot_marked D oid snap) (\<lambda>_.
               st_bind (mark_generating (dr_clk D 3 0) (dr_uid D 3 0) oid) (\<lambda>_.
               st_bind (settled D oid
                   (st_bind (generate_reply E D a oid loc snap (Some txt) False model_override ctx)
                      (\<lambda>(ch, gs, reply). st_return
                         (append_mutation (dr_clk D 0 0) (dr_clk D 0 1) (gs_username gs) (ch_name ch) txt reply, reply))))
                 (\<lambda>(mutation, reply).
               st_bind (persist_generated_payload E D (acc_id (ac_account a)) oid KIND_SEND loc snap mutation) (\<lambda>_.
               st_bind (commit_mutation E D oid loc snap mutation reply) (emit_done E ctx)))))))))) "

definition truncate_chars :: "string \<Rightarrow> nat \<Rightarrow> string" where
  "truncate_chars s n = (if char_count s \<le> n then s else take_chars n s @ (utf8_encode [8230]))"

definition undo_last_turn ::
    "'w engine \<Rightarrow> engine_draws \<Rightarrow> actor \<Rightarrow> st_chat_locator \<Rightarrow> string \<Rightarrow> string \<Rightarrow> bridge_operation_origin
      \<Rightarrow> ('w, st_bridge_outcome) en_m" where
  "undo_last_turn E D a loc client_op kind og =
     with_locator_lock E D loc
       (st_bind (require_write_for_locator E D loc) (\<lambda>_.
          let oid = operation_id_of client_op None (dr_new_id D) in
          claimed E D a oid kind loc og (utf8_encode [35813, 25764, 22238, 25805, 20316, 24050, 23436, 25104, 65292, 26410, 20877, 27425,
       22238, 36864] @ '' SillyTavern'' @ utf8_encode [12290])
            (st_bind (en_snapshot E loc) (\<lambda>snap.
               case last_dialogue_indexes (parsed_chat snap) of
                 None \<Rightarrow> fail_control E D StCommitValidationFailed (Some oid)
               | Some (u, s) \<Rightarrow>
                   let user_msg = parsed_chat snap ! u; assistant_msg = parsed_chat snap ! s;
                       user_sha = message_sha256 (en_sha E) (en_to_vec E) user_msg;
                       assistant_sha = message_sha256 (en_sha E) (en_to_vec E) assistant_msg;
                       removed = (utf8_encode [29992, 25143] @ '': '' @ utf8_encode [34]) @ truncate_chars (visible_text user_msg) 40
                         @ (utf8_encode [34] @ '' | '' @ utf8_encode [21161, 25163] @ '': '' @ utf8_encode [34]) @ truncate_chars (visible_text assistant_msg) 40 @ (utf8_encode [34]);
                       mutation = UndoLastTurn user_sha assistant_sha;
                       reply = (if kind = KIND_REVOKE
                                then (utf8_encode [24050, 25764, 22238, 26368, 21518, 19968, 36718, 65288] @ ''SillyTavern '' @
       utf8_encode [24050, 22238, 36864, 65289, 65306]) @ removed
                                else (utf8_encode [24050, 22312] @ '' SillyTavern '' @ utf8_encode [25764, 22238, 26368, 21518, 19968,
       36718, 65288] @ ''Telegram '' @ utf8_encode [28040, 24687, 20445, 25345, 20445, 30041, 65289, 65306]) @ removed) in
                   with_coordinator E D oid (\<lambda>K.
                   st_bind (snapshot_marked D oid snap) (\<lambda>_.
                   st_bind (persist_generated_payload E D (acc_id (ac_account a)) oid kind loc snap mutation) (\<lambda>_.
                   st_bind (commit_mutation E D oid loc snap mutation reply) (\<lambda>_.
                     st_return \<lparr> ou_operation_id = Some oid, ou_reply_text = Some reply, ou_write_committed = True,
                                 ou_confirmed_commit = True, ou_removed_safe_content = Some removed,
                                 ou_st_tail_fingerprint = Some (user_sha @ '':'' @ assistant_sha) \<rparr>))))))))"

definition regenerate_reply_with_context ::
    "'w engine \<Rightarrow> engine_draws \<Rightarrow> actor \<Rightarrow> st_chat_locator \<Rightarrow> string \<Rightarrow> string option
      \<Rightarrow> bridge_execution_context option \<Rightarrow> bridge_operation_origin \<Rightarrow> ('w, st_bridge_outcome) en_m" where
  "regenerate_reply_with_context E D a loc client_op model_override ctx og =
     with_locator_lock E D loc
       (st_bind (require_write_for_locator E D loc) (\<lambda>_.
          let oid = operation_id_of client_op ctx (dr_new_id D) in
          if context_mismatch ctx oid then fail_control E D StOperationIdReused (Some oid)
          else
            claimed E D a oid KIND_REGENERATE loc og (utf8_encode [35813, 37325, 29983, 25104, 25805, 20316, 24050, 23436, 25104, 65292, 26410, 20877,
       27425, 20889, 20837] @ '' SillyTavern'' @ utf8_encode [12290])
              (st_bind (en_snapshot E loc) (\<lambda>snap.
               with_coordinator E D oid (\<lambda>K.
               st_bind (snapshot_marked D oid snap) (\<lambda>_.
               st_bind (mark_generating (dr_clk D 3 0) (dr_uid D 3 0) oid) (\<lambda>_.
               st_bind (settled D oid
                   (st_bind (generate_reply E D a oid loc snap None True model_override ctx)
                      (\<lambda>(ch, gs, reply).
                         case replace_assistant_mutation (en_sha E) (en_to_vec E) (dr_clk D 0 0) snap (ch_name ch) reply of
                           None \<Rightarrow> fail_control E D StCommitValidationFailed (Some oid)
                         | Some mutation \<Rightarrow> st_return (mutation, reply))))
                 (\<lambda>(mutation, reply).
               st_bind (persist_generated_payload E D (acc_id (ac_account a)) oid KIND_REGENERATE loc snap mutation) (\<lambda>_.
               st_bind (commit_mutation E D oid loc snap mutation reply) (emit_done E ctx)))))))))) "

fun compress_patches ::
    "'w engine \<Rightarrow> string option \<Rightarrow> st_generation_settings \<Rightarrow> (u32 \<times> string \<times> string) list
      \<Rightarrow> ('w, st_message_patch list) en_m" where
  "compress_patches E model gs [] = st_return []"
| "compress_patches E model gs ((i, sha, txt) # ts) =
     st_bind (en_stream_generate E
                \<lparr> gr_model_id = model, gr_messages = compression_messages txt,
                  gr_temperature = Some (gs_temperature gs), gr_top_p = Some (gs_top_p gs),
                  gr_max_tokens = Some (gs_max_tokens gs) \<rparr> None) (\<lambda>g.
     st_bind (compress_patches E model gs ts) (\<lambda>ps. st_return (compress_patch i sha (gen_text g) # ps)))"

definition compress_chat ::
    "'w engine \<Rightarrow> engine_draws \<Rightarrow> actor \<Rightarrow> st_chat_locator \<Rightarrow> string \<Rightarrow> bridge_operation_origin
      \<Rightarrow> ('w, st_bridge_outcome) en_m" where
  "compress_chat E D a loc client_op og =
     with_locator_lock E D loc
       (st_bind (require_write_for_locator E D loc) (\<lambda>_.
          let oid = operation_id_of client_op None (dr_new_id D) in
          claimed E D a oid KIND_COMPRESS loc og (utf8_encode [35813, 21387, 32553, 25805, 20316, 24050, 23436, 25104, 65292, 26410, 20877, 27425,
       20889, 20837] @ '' SillyTavern'' @ utf8_encode [12290])
            (st_bind (en_snapshot E loc) (\<lambda>snap.
               let targets = compress_targets (en_sha E) (en_to_vec E) (parsed_chat snap) in
               if targets = [] then st_return (plain_outcome (Some oid) (utf8_encode [27809, 26377, 38656, 35201, 21387, 32553, 30340, 21382, 21490, 28040, 24687, 12290]))
               else
                 with_coordinator E D oid (\<lambda>K.
                 st_bind (snapshot_marked D oid snap) (\<lambda>_.
                 st_bind (mark_generating (dr_clk D 3 0) (dr_uid D 3 0) oid) (\<lambda>_.
                 st_bind (settled D oid
                     (st_bind (require_fence E D oid) (\<lambda>_.
                      st_bind (acquire_generation_permit E D) (\<lambda>_.
                      st_bind (st_app_as (control_error E D StWriteNotReady (Some oid))
                                 (on_channels (channel_load (acc_id (ac_account a)) (en_context_key E)))) (\<lambda>cc.
                      st_bind (en_generation_settings E) (\<lambda>gs.
                      st_bind (compress_patches E (cl_compression_model_id cc) gs targets) (\<lambda>ps.
                        st_return (CompressMessages ps))))))))
                   (\<lambda>mutation.
                 st_bind (persist_generated_payload E D (acc_id (ac_account a)) oid KIND_COMPRESS loc snap mutation) (\<lambda>_.
                   commit_mutation E D oid loc snap mutation (utf8_encode [24050, 21387, 32553, 36739, 26089, 30340, 21382, 21490, 28040, 24687, 12290]))))))))))"

section \<open>Dispatch\<close>

definition select_error :: "'w engine \<Rightarrow> engine_draws \<Rightarrow> st_bridge_error call" where
  "select_error E D = control_error E D StChatLocatorRejected None"

definition with_workspace ::
    "'w engine \<Rightarrow> engine_draws \<Rightarrow> actor \<Rightarrow> (string \<Rightarrow> ('w, 'a) en_m) \<Rightarrow> ('w, 'a) en_m" where
  "with_workspace E D a f =
     (case require_workspace a of Inl _ \<Rightarrow> st_fail (select_error E D) | Inr ws \<Rightarrow> f ws)"

fun execute ::
    "'w engine \<Rightarrow> engine_draws \<Rightarrow> actor \<Rightarrow> st_bridge_command \<Rightarrow> ('w, st_bridge_outcome) en_m" where
  "execute E D a (Cmd_SelectCharacter avatar name) =
     with_workspace E D a (\<lambda>ws.
     st_bind (en_probe E) (\<lambda>status.
     st_bind (st_app_as (select_error E D)
                (on_channels (select_character (dr_clk D 7 0) (acc_id (ac_account a)) ws (en_context_key E)
                   (st_handle status) avatar name))) (\<lambda>_.
       st_return (plain_outcome None ((utf8_encode [24050, 36873, 25321, 35282, 33394, 65306]) @ name)))))"
| "execute E D a (Cmd_SelectChat loc) =
     with_workspace E D a (\<lambda>ws.
     st_bind (st_app_as (select_error E D)
                (on_channels (select_chat (dr_clk D 7 0) (acc_id (ac_account a)) ws (en_context_key E) loc))) (\<lambda>_.
       st_return (plain_outcome None ((utf8_encode [24050, 36873, 25321, 20250, 35805, 65306]) @ loc_chat_file loc))))"
| "execute E D a (Cmd_SetModelOverride kind model_id) =
     with_workspace E D a (\<lambda>ws.
     st_bind (st_app_as (select_error E D)
                (on_channels (set_model_override (dr_clk D 7 0) (acc_id (ac_account a)) ws (en_context_key E)
                   (case kind of MO_Chat \<Rightarrow> ''chat'' | MO_Compression \<Rightarrow> ''compression'') model_id))) (\<lambda>_.
       st_return (plain_outcome None (utf8_encode [24050, 26356, 26032, 27169, 22411, 35206, 30422]))))"
| "execute E D a (Cmd_StartChat loc i) = fail_control E D StWriteNotReady (Some i)"
| "execute E D a (Cmd_SendMessage loc t i m) = fail_control E D StWriteNotReady (Some i)"
| "execute E D a (Cmd_UndoLastTurn loc i) = fail_control E D StWriteNotReady (Some i)"
| "execute E D a (Cmd_RevokeLastTurn loc i) = fail_control E D StWriteNotReady (Some i)"
| "execute E D a (Cmd_RegenerateReply loc i m) = fail_control E D StWriteNotReady (Some i)"
| "execute E D a (Cmd_CompressChat loc i) = fail_control E D StWriteNotReady (Some i)"

definition execute_with_origin ::
    "'w engine \<Rightarrow> engine_draws \<Rightarrow> actor \<Rightarrow> st_bridge_command \<Rightarrow> bridge_operation_origin
      \<Rightarrow> ('w, st_bridge_outcome) en_m" where
  "execute_with_origin E D a cmd og =
     (case cmd of
        Cmd_StartChat loc i \<Rightarrow> start_chat E D a loc i og
      | Cmd_SendMessage loc t i m \<Rightarrow> send_message_with_context E D a loc t i m None og
      | Cmd_UndoLastTurn loc i \<Rightarrow> undo_last_turn E D a loc i KIND_UNDO og
      | Cmd_RevokeLastTurn loc i \<Rightarrow> undo_last_turn E D a loc i KIND_REVOKE og
      | Cmd_RegenerateReply loc i m \<Rightarrow> regenerate_reply_with_context E D a loc i m None og
      | Cmd_CompressChat loc i \<Rightarrow> compress_chat E D a loc i og
      | other \<Rightarrow> execute E D a other)"

definition execute_with_context_and_origin ::
    "'w engine \<Rightarrow> engine_draws \<Rightarrow> actor \<Rightarrow> st_bridge_command \<Rightarrow> bridge_execution_context option
      \<Rightarrow> bridge_operation_origin \<Rightarrow> ('w, st_bridge_outcome) en_m" where
  "execute_with_context_and_origin E D a cmd ctx og =
     (case cmd of
        Cmd_SendMessage loc t i m \<Rightarrow> send_message_with_context E D a loc t i m ctx og
      | Cmd_RegenerateReply loc i m \<Rightarrow> regenerate_reply_with_context E D a loc i m ctx og
      | other \<Rightarrow> execute_with_origin E D a other og)"

definition execute_with_context ::
    "'w engine \<Rightarrow> engine_draws \<Rightarrow> actor \<Rightarrow> st_bridge_command \<Rightarrow> ('w, st_bridge_outcome) en_m" where
  "execute_with_context E D a cmd =
     (case cmd of
        Cmd_SendMessage loc t i m \<Rightarrow> fail_control E D StWriteNotReady (Some i)
      | Cmd_RegenerateReply loc i m \<Rightarrow> fail_control E D StWriteNotReady (Some i)
      | other \<Rightarrow> execute E D a other)"

end
