(* ===== verification/Engine_Query.thy ===== *)
theory Engine_Query
  imports Bridge_Engine
begin

text \<open>
  The read side of \<^verbatim>\<open>src/modules/bridge/engine.rs\<close>: the queries of \<^verbatim>\<open>StBridgeQuery\<close> and the views
  they return. The loop that collects the last turn is compared with two independent searches.
\<close>

section \<open>Queries and views\<close>

datatype st_bridge_query =
    Q_ListCharacters
  | Q_ListCharacterChats string
  | Q_ListRecentChats
  | Q_GetChannelContext
  | Q_GetHistory st_chat_locator
  | Q_GetLastTurn st_chat_locator
  | Q_GetModels
  | Q_GetOperation string

datatype st_bridge_view =
    V_Characters "st_character_summary list"
  | V_Chats "st_chat_summary list"
  | V_Context "st_chat_locator option" "string option" "string option"
  | V_History string
  | V_LastTurn "string option" "string option" "string option"
  | V_Models st_model_catalog "string option" "string option"
  | V_Operation string string
  | V_Empty

definition visible_message :: "json \<Rightarrow> (bool \<times> string \<times> string) option" where
  "visible_message item =
     (if is_system_item item then None
      else
        let t = visible_text item;
            is_user = unwrap_or (get_bool item ''is_user'') False;
            speaker = unwrap_or (get_str item ''name'') (if is_user then (utf8_encode [29992, 25143]) else (utf8_encode [35282, 33394])) in
        if t = [] then None else Some (is_user, speaker, t))"

fun find_map :: "('a \<Rightarrow> 'b option) \<Rightarrow> 'a list \<Rightarrow> 'b option" where
  "find_map f [] = None"
| "find_map f (x # xs) = (case f x of Some y \<Rightarrow> Some y | None \<Rightarrow> find_map f xs)"

definition last_visible_message :: "json list \<Rightarrow> (bool \<times> string \<times> string) option" where
  "last_visible_message parsed = find_map visible_message (rev parsed)"

text \<open>One message of the loop of \<^verbatim>\<open>GetLastTurn\<close>: whose it is and how it is shown.\<close>

definition turn_message :: "json \<Rightarrow> (bool \<times> string) option" where
  "turn_message item =
     (if is_system_item item \<or> visible_text item = [] then None
      else Some (is_user_item item, unwrap_or (get_str item ''name'') [] @ [LF] @ visible_text item))"

fun last_turn_loop :: "string option \<Rightarrow> string option \<Rightarrow> json list \<Rightarrow> string option \<times> string option" where
  "last_turn_loop u s [] = (u, s)"
| "last_turn_loop u s (item # items) =
     (case turn_message item of
        None \<Rightarrow> last_turn_loop u s items
      | Some (is_user, t) \<Rightarrow>
          let u' = (if is_user \<and> u = None then Some t else u);
              s' = (if \<not> is_user \<and> s = None then Some t else s) in
          if u' \<noteq> None \<and> s' \<noteq> None then (u', s') else last_turn_loop u' s' items)"

definition context_locator :: "st_channel_locator \<Rightarrow> st_chat_locator option" where
  "context_locator c =
     (case (cl_handle c, cl_avatar c, cl_chat_file c) of
        (Some h, Some av, Some f) \<Rightarrow>
          Some \<lparr> loc_handle = h, loc_avatar = av, loc_character_name = unwrap_or (cl_character_name c) [],
                 loc_chat_file = f \<rparr>
      | _ \<Rightarrow> None)"

definition recent_summary :: "st_channel_locator \<Rightarrow> st_chat_summary option" where
  "recent_summary c =
     map_option (\<lambda>f. \<lparr> sum_chat_file = f, sum_title = cl_character_name c, sum_updated_at = None,
                       sum_message_count = None \<rparr>) (cl_chat_file c)"

text \<open>\<^verbatim>\<open>unwrap_or_default\<close> on an application computation.\<close>

definition st_or_default :: "'a \<Rightarrow> ('w, 'a) app_m \<Rightarrow> ('w, 'a) st_m" where
  "st_or_default d m w = (case m w of (Inr a, w') \<Rightarrow> (Returns (Inr a), w') | (Inl _, w') \<Rightarrow> (Returns (Inr d), w'))"

fun query :: "'w engine \<Rightarrow> engine_draws \<Rightarrow> actor \<Rightarrow> st_bridge_query \<Rightarrow> ('w, st_bridge_view) en_m" where
  "query E D a Q_ListCharacters = st_bind (en_list_characters E) (\<lambda>cs. st_return (V_Characters cs))"
| "query E D a (Q_ListCharacterChats avatar) =
     st_bind (en_list_chats E avatar) (\<lambda>cs. st_return (V_Chats cs))"
| "query E D a Q_GetModels =
     st_bind (en_list_models E) (\<lambda>catalog.
     st_bind (st_app_as (control_error E D StChatPayloadInvalid None)
                (on_channels (channel_load (acc_id (ac_account a)) (en_context_key E)))) (\<lambda>c.
       st_return (V_Models catalog (cl_chat_model_id c) (cl_compression_model_id c))))"
| "query E D a Q_GetChannelContext =
     st_bind (st_or_default default_locator
                (on_channels (channel_load (acc_id (ac_account a)) (en_context_key E)))) (\<lambda>c.
       st_return (V_Context (context_locator c) (cl_chat_model_id c) (cl_compression_model_id c)))"
| "query E D a (Q_GetHistory loc) =
     st_bind (en_snapshot E loc) (\<lambda>snap.
       st_return (V_History
         (case last_visible_message (parsed_chat snap) of
            Some (_, speaker, t) \<Rightarrow> speaker @ (utf8_encode [65306, 10]) @ t
          | None \<Rightarrow> [])))"
| "query E D a (Q_GetLastTurn loc) =
     st_bind (en_snapshot E loc) (\<lambda>snap.
       case last_turn_loop None None (rev (parsed_chat snap)) of
         (u, s) \<Rightarrow> st_return (V_LastTurn u s (Some (source_sha256 snap))))"
| "query E D a Q_ListRecentChats =
     st_bind (st_or_default [] (on_channels (list_recent (acc_id (ac_account a)) 8))) (\<lambda>recent.
       st_return (V_Chats (List.map_filter recent_summary recent)))"
| "query E D a (Q_GetOperation oid) = st_return (V_Operation oid ''unknown'')"

section \<open>The last turn\<close>

text \<open>What the last turn should be: for each side its last shown message.\<close>

definition last_shown :: "bool \<Rightarrow> json list \<Rightarrow> string option" where
  "last_shown user parsed =
     map_option snd (find (\<lambda>m. fst m = user) (List.map_filter turn_message (rev parsed)))"

lemma last_turn_loop_find:
  assumes "u = None \<or> s = None"
  shows "last_turn_loop u s items =
    (let ms = List.map_filter turn_message items in
     (case u of Some t \<Rightarrow> Some t | None \<Rightarrow> map_option snd (find (\<lambda>m. fst m = True) ms),
      case s of Some t \<Rightarrow> Some t | None \<Rightarrow> map_option snd (find (\<lambda>m. fst m = False) ms)))"
  using assms
proof (induction u s items rule: last_turn_loop.induct)
  case (2 u s item items)
  then show ?case
    by (cases "turn_message item") (auto simp: map_filter_simps Let_def split: option.splits prod.splits)
qed (auto simp: map_filter_simps split: option.splits)

text \<open>The query for the last turn returns, for the user and for the character, the last message of
  the chat that is not a system message and has visible text, with its speaker: the single
  backward loop that stops as soon as it has both agrees with two independent searches, and it
  returns the fingerprint of the snapshot it read.\<close>

theorem last_turn_query_exact:
  "query E D a (Q_GetLastTurn loc) =
     st_bind (en_snapshot E loc) (\<lambda>snap.
       st_return (V_LastTurn (last_shown True (parsed_chat snap)) (last_shown False (parsed_chat snap))
         (Some (source_sha256 snap))))"
  by (simp add: last_turn_loop_find last_shown_def Let_def)

end
