(* ===== verification/Engine_Safety.thy ===== *)
theory Engine_Safety
  imports Bridge_Engine
begin

text \<open>
  What the engine of \<open>Bridge_Engine\<close> guarantees together with the coordinator, the ledger and the
  ownership registry: a command that reports a committed write is durably recorded, a command
  whose operation has already been generated is never written again, and an engine without
  valid ownership writes nothing. The environment may interleave other tasks at every call.
\<close>

section \<open>The database under the engine\<close>

definition engine_environment :: "'w engine \<Rightarrow> bool" where
  "engine_environment E \<longleftrightarrow>
     st_evolves (en_probe E) \<and> st_evolves (en_list_characters E) \<and> (\<forall>l. st_evolves (en_snapshot E l))
     \<and> st_evolves (en_generation_settings E) \<and> (\<forall>r c. st_evolves (en_stream_generate E r c))
     \<and> (\<forall>t w. evolves (w_db w) (w_db (en_emit_done E t w)))
     \<and> (\<forall>c w. evolves (w_db w) (w_db (en_await_lock E c w)))
     \<and> (\<forall>w. evolves (w_db w) (w_db (en_await_permit E w)))
     \<and> (\<forall>K. en_coordinator E = Some K \<longrightarrow> environment_ok K)"

lemma st_evolves_snd: "st_evolves m \<Longrightarrow> m w = (r, w') \<Longrightarrow> evolves (w_db w) (w_db w')"
  unfolding st_evolves_def by (metis snd_conv)

lemma st_evolves_if [evolves_intros]: "(b \<Longrightarrow> st_evolves m) \<Longrightarrow> (\<not> b \<Longrightarrow> st_evolves m') \<Longrightarrow> st_evolves (if b then m else m')"
  by simp

lemma st_evolves_fail_control [evolves_intros]: "st_evolves (fail_control E D code oid)"
  unfolding fail_control_def by (rule st_evolves_simple)

lemma st_evolves_app_as [evolves_intros]: "app_evolves m \<Longrightarrow> st_evolves (st_app_as err m)"
  unfolding st_evolves_def app_evolves_def st_app_as_def
  by (auto simp: st_fail_def split: prod.splits sum.splits) (metis snd_conv)+

lemma app_evolves_channels [evolves_intros]: "app_evolves (on_channels m)"
  by (simp add: app_evolves_def on_channels_def split: prod.splits)

lemma st_evolves_lock:
  assumes "engine_environment E"
  shows "st_evolves (lock_locator E D loc)"
proof -
  have "evolves (w_db w) (w_db (en_await_lock E c (set_locks s w)))" for c s w
    using assms unfolding engine_environment_def by (metis set_locks_def world.select_convs(1) world.surjective world.update_convs(2))
  then show ?thesis
    by (auto simp: st_evolves_def lock_locator_def Let_def fail_control_def st_fail_def set_locks_def
        split: prod.splits sum.splits)
qed

lemma st_evolves_with_lock [evolves_intros]:
  assumes "engine_environment E" "st_evolves body"
  shows "st_evolves (with_locator_lock E D loc body)"
proof -
  have "st_evolves (\<lambda>w. case body w of (r, w') \<Rightarrow> (r, unlock c w'))" for c
    using assms(2) by (auto simp: st_evolves_def unlock_def set_locks_def Let_def split: prod.splits) (metis snd_conv)
  then show ?thesis unfolding with_locator_lock_def by (intro evolves_intros st_evolves_lock assms(1))
qed

lemma st_evolves_small [evolves_intros]:
  assumes "engine_environment E"
  shows "st_evolves (acquire_generation_permit E D)" "st_evolves (require_fence E D oid)"
    "st_evolves (engine_runtime_fence E D oid)" "st_evolves (resume_or_replay E D oid c)"
    "st_evolves (emit_done E ctx out)"
proof -
  show "st_evolves (acquire_generation_permit E D)"
    using assms by (auto simp: acquire_generation_permit_def engine_environment_def st_evolves_def st_fail_def)
  show "st_evolves (require_fence E D oid)" "st_evolves (engine_runtime_fence E D oid)"
    by (auto simp: st_evolves_def require_fence_def engine_runtime_fence_def fail_control_def st_fail_def
        st_return_def Let_def split: option.splits sum.splits)
  show "st_evolves (resume_or_replay E D oid c)"
    by (auto simp: resume_or_replay_def Let_def intro!: evolves_intros split: claim_disposition.splits)
  show "st_evolves (emit_done E ctx out)"
    using assms by (auto simp: st_evolves_def emit_done_def engine_environment_def split: option.splits)
qed

lemma st_evolves_claim [evolves_intros]: "st_evolves (claim_operation_with_origin E D a oid kind loc og)"
proof -
  have "evolves db (snd (coordinator_claim now fresh q db))" for now fresh q db
    using evolves_store_ops(1) [of db now fresh q]
    by (auto simp: coordinator_claim_def split: prod.splits sum.splits operation_claim_error.splits)
  then show ?thesis
    by (auto simp: st_evolves_def claim_operation_with_origin_def fail_control_def st_fail_def st_return_def
        split: prod.splits sum.splits) (metis snd_conv)+
qed

lemma st_evolves_with_coordinator [evolves_intros]:
  "(\<And>K. en_coordinator E = Some K \<Longrightarrow> st_evolves (f K)) \<Longrightarrow> st_evolves (with_coordinator E D oid f)"
  by (auto simp: with_coordinator_def intro: evolves_intros split: option.splits)

lemma st_evolves_claimed [evolves_intros]:
  "engine_environment E \<Longrightarrow> st_evolves body \<Longrightarrow> st_evolves (claimed E D a oid kind loc og already body)"
  unfolding claimed_def by (intro evolves_intros)

lemma app_evolves_encryptor [evolves_intros]:
  assumes "environment_ok K"
  shows "app_evolves (payload_encryptor_for_operation K now dek oid)"
proof -
  have ref: "app_evolves (on_store (get_operation_key_reference oid))"
    by (intro evolves_intros evolves_read) simp
  have wrapped: "app_evolves (create_wrapped (co_vault K) dek oid kv)" for kv
    using assms unfolding create_wrapped_def environment_ok_def by (auto intro!: evolves_intros)
  have put: "app_evolves (\<lambda>w. case on_store (put_operation_key_reference now oid sid kv) w of
      (Inr _, w') \<Rightarrow> (Inr enc, w') | (Inl err, w') \<Rightarrow> f err w')"
    if "\<And>err. app_evolves (f err)" for sid kv enc f
    using that evolves_store_ops(11) unfolding app_evolves_def
    by (auto simp: on_store_eq split: prod.splits sum.splits) (metis evolves_trans snd_conv world.select_convs(1) world.surjective world.update_convs(1))+
  have "app_evolves (for_operation (co_vault K) kv now dek oid)" for kv
    unfolding for_operation_def
    by (auto intro!: evolves_intros ref wrapped put app_evolves_payload(1) [OF assms] split: option.splits)
  then show ?thesis
    by (auto simp: payload_encryptor_for_operation_def intro: evolves_intros split: option.splits)
qed

lemma st_evolves_sealed [evolves_intros]:
  assumes "environment_ok K" "length (dr_nonce D) = NONCE_LEN"
  shows "st_evolves (seal_payload E D K actor_id oid kind loc fence payload digest)"
proof -
  have marked: "st_evolves (mark_generated now u oid pl dg)"
    if "payload_encrypt (co_crypto K) enc (dr_nonce D) plaintext aad = Inr pl" for now u pl dg enc plaintext aad
    using payload_encrypt_InrD(3) [OF that] assms(2) unfolding mark_generated_def
    by (intro evolves_intros evolves_store_ops) (simp add: NONCE_LEN_def)
  show ?thesis
    unfolding seal_payload_def Let_def
    by (auto intro!: evolves_intros assms marked split: sum.splits option.splits)
qed

lemma environment_coordinator: "engine_environment E \<Longrightarrow> en_coordinator E = Some K \<Longrightarrow> environment_ok K"
  by (simp add: engine_environment_def)

lemma st_evolves_steps [evolves_intros]:
  "st_evolves (mark_snapshot_ready now u oid sha integ sz cnt)" "st_evolves (mark_generating now u oid)"
  "st_evolves (snapshot_marked D oid snap)"
  unfolding mark_snapshot_ready_def mark_generating_def snapshot_marked_def
  by (intro evolves_intros evolves_store_ops)+

lemma st_evolves_settled [evolves_intros]:
  assumes "st_evolves m"
  shows "st_evolves (settled D oid m)"
  unfolding st_evolves_def
proof
  fix w
  obtain r w1 where m: "m w = (r, w1)" by force
  have "evolves (w_db w1) (w_db (snd (settle_generation_failure now u oid e w1)))" for now u e
    using evolves_store_ops(9)
    by (auto simp: settle_generation_failure_def on_store_eq split: prod.splits sum.splits) (metis snd_conv)+
  then have failed: "evolves (w_db w) (w_db (snd (settle_generation_failure now u oid e w1)))" for now u e
    using evolves_trans st_evolves_snd [OF assms m] by blast
  show "evolves (w_db w) (w_db (snd (settled D oid m w)))"
  proof (cases "\<exists>e. r = Returns (Inl e)")
    case True
    then obtain e where "r = Returns (Inl e)" by blast
    with m have "snd (settled D oid m w) = snd (settle_generation_failure (dr_clk D 4 0) (dr_uid D 4 0) oid e w1)"
      by (simp add: settled_def split: prod.splits)
    with failed show ?thesis by simp
  next
    case False
    with m have "settled D oid m w = (r, w1)" by (auto simp: settled_def split: call.splits sum.splits)
    with st_evolves_snd [OF assms m] show ?thesis by simp
  qed
qed

lemma backend_evolves [evolves_intros]:
  assumes "engine_environment E"
  shows "st_evolves (en_probe E)" "st_evolves (en_list_characters E)" "st_evolves (en_snapshot E l)"
    "st_evolves (en_generation_settings E)" "st_evolves (en_stream_generate E r c)"
  using assms by (simp_all add: engine_environment_def)

lemma persist_evolves [evolves_intros]:
  assumes "engine_environment E" "length (dr_nonce D) = NONCE_LEN"
  shows "st_evolves (persist_create_payload E D actor_id oid loc cmd)"
    "st_evolves (persist_generated_payload E D actor_id oid kind loc snap mutation)"
  unfolding persist_create_payload_def persist_generated_payload_def
  by (auto intro!: evolves_intros assms environment_coordinator [OF assms(1)] split: option.splits)

lemma reply_evolves [evolves_intros]:
  assumes "engine_environment E"
  shows "st_evolves (generate_reply E D a oid loc snap extra dl mo ctx)"
proof -
  have "st_evolves (load_character E D loc)"
    unfolding load_character_def by (auto intro!: evolves_intros assms split: option.splits)
  then show ?thesis unfolding generate_reply_def by (intro evolves_intros assms)
qed

lemma patches_evolve [evolves_intros]:
  assumes "engine_environment E"
  shows "st_evolves (compress_patches E model gs ts)"
proof (induction ts)
  case (Cons t ts)
  then show ?case by (cases t) (auto intro!: evolves_intros assms)
qed (simp add: evolves_intros)

lemma write_evolves [evolves_intros]: "engine_environment E \<Longrightarrow> st_evolves (require_write_for_locator E D loc)"
  unfolding require_write_for_locator_def by (auto intro!: evolves_intros split: st_write_mode.splits)

lemma commit_evolves [evolves_intros]:
  "engine_environment E \<Longrightarrow> st_evolves (commit_mutation E D oid loc snap mutation reply)"
  unfolding commit_mutation_def by (auto intro!: evolves_intros environment_coordinator)

section \<open>Reported writes are durable\<close>

definition applied_in :: "string \<Rightarrow> op_db \<Rightarrow> bool" where
  "applied_in oid db \<longleftrightarrow> (\<exists>st \<in> {Committed, Delivered}. store_phase db oid = Some (st, OCS_Applied))"

text \<open>Partial correctness of the successful runs of a computation: from a database that has the
  invariant and satisfies \<open>P\<close>, every returned value satisfies \<open>Q\<close>.\<close>

definition triple :: "(op_db \<Rightarrow> bool) \<Rightarrow> ('w, 'a) st_m \<Rightarrow> ('a \<Rightarrow> op_db \<Rightarrow> bool) \<Rightarrow> bool" where
  "triple P m Q \<longleftrightarrow>
     (\<forall>w r w'. store_inv (w_db w) \<longrightarrow> P (w_db w) \<longrightarrow> m w = (Returns (Inr r), w')
        \<longrightarrow> store_inv (w_db w') \<and> Q r (w_db w'))"

named_theorems triple_intros \<open>rules for triples\<close>

lemma triple_return [triple_intros]: "(\<And>db. P db \<Longrightarrow> Q a db) \<Longrightarrow> triple P (st_return a) Q"
  by (simp add: triple_def st_return_def)

lemma triple_fail [triple_intros]: "triple P (st_fail e) Q" "triple P (fail_control E D code oid) Q"
  by (auto simp: triple_def fail_control_def dest: st_fail_not_Inr [THEN notE])

lemma triple_bind:
  assumes "triple P m R" "\<And>a. triple (R a) (f a) Q"
  shows "triple P (st_bind m f) Q"
  unfolding triple_def
proof (intro allI impI)
  fix w r w'
  assume w: "store_inv (w_db w)" "P (w_db w)" "st_bind m f w = (Returns (Inr r), w')"
  from st_bind_InrD [OF w(3)] obtain a w1 where "m w = (Returns (Inr a), w1)" "f a w1 = (Returns (Inr r), w')"
    by blast
  with w(1,2) assms show "store_inv (w_db w') \<and> Q r (w_db w')" unfolding triple_def by blast
qed

lemma triple_evolves: "st_evolves m \<Longrightarrow> triple P m (\<lambda>_ _. True)"
  unfolding triple_def using evolves_inv st_evolves_snd by blast

lemma triple_evolves_applied: "st_evolves m \<Longrightarrow> triple (applied_in oid) m (\<lambda>_. applied_in oid)"
  unfolding triple_def applied_in_def using evolves_inv evolves_committed st_evolves_snd by blast

text \<open>Steps before the commit only have to let the database evolve.\<close>

lemma triple_before [triple_intros]:
  "st_evolves m \<Longrightarrow> (\<And>a. triple (\<lambda>_. True) (f a) Q) \<Longrightarrow> triple (\<lambda>_. True) (st_bind m f) Q"
  using triple_bind triple_evolves by blast

lemma triple_if [triple_intros]: "(b \<Longrightarrow> triple P m Q) \<Longrightarrow> (\<not> b \<Longrightarrow> triple P m' Q) \<Longrightarrow> triple P (if b then m else m') Q"
  by simp

lemma triple_with_coordinator [triple_intros]:
  "(\<And>K. en_coordinator E = Some K \<Longrightarrow> triple P (f K) Q) \<Longrightarrow> triple P (with_coordinator E D oid f) Q"
  by (auto simp: with_coordinator_def intro: triple_intros split: option.splits)

lemma triple_with_lock:
  assumes "engine_environment E" "triple (\<lambda>_. True) body Q"
  shows "triple (\<lambda>_. True) (with_locator_lock E D loc body) Q"
proof -
  have "triple (\<lambda>_. True) (\<lambda>w. case body w of (r, w') \<Rightarrow> (r, unlock c w')) Q" for c
    using assms(2) by (auto simp: triple_def unlock_def set_locks_def Let_def split: prod.splits)
  then show ?thesis
    unfolding with_locator_lock_def by (intro triple_intros st_evolves_lock assms(1))
qed


lemma triple_commits:
  assumes "environment_ok K"
  shows "triple P (commit K clk uid cmd) (\<lambda>_. applied_in (co_operation_id cmd))"
    and "triple P (create K clk uid cmd') (\<lambda>_. applied_in (cr_operation_id cmd'))"
  unfolding triple_def applied_in_def
  using commit_success [OF assms] evolves_inv st_evolves_snd st_evolves_commits [OF assms] by (metis insertI1)+

text \<open>What the outcome of a command promises.\<close>

definition reported :: "st_bridge_outcome \<Rightarrow> op_db \<Rightarrow> bool" where
  "reported out db \<longleftrightarrow>
     (ou_write_committed out \<longrightarrow> (\<exists>oid. ou_operation_id out = Some oid \<and> applied_in oid db))"

lemma reported_outcomes [simp]:
  "reported (committed_outcome oid t) db \<longleftrightarrow> applied_in oid db" "reported (plain_outcome x t) db"
  by (simp_all add: reported_def committed_outcome_def plain_outcome_def)

lemma claim_returnsD:
  assumes "claim_operation_with_origin E D a oid kind loc og w = (Returns (Inr c), w')" "store_inv (w_db w)"
  shows "rec_id (co_record c) = oid"
    and "if co_disposition c = Fresh then store_phase (w_db w) oid = None
      else store_phase (w_db w') oid = Some (rec_status (co_record c), rec_commit_state (co_record c))
        \<and> store_phase (w_db w) oid = store_phase (w_db w') oid
        \<and> co_disposition c = duplicate_disposition (rec_status (co_record c)) (rec_commit_state (co_record c))
        \<and> matches_claim (co_record c) (claim_request a oid kind loc og)
        \<and> (\<exists>row. row_of (w_db w) oid = Some row \<and> into_record row = Inr (co_record c))" (is ?holds)
proof -
  let ?q = "claim_request a oid kind loc og"
  have oid: "\<not> is_blank oid" "cl_id ?q = oid"
    using assms(1) by (auto simp: claim_operation_with_origin_def fail_control_def claim_request_def
        dest: st_fail_not_Inr [THEN notE] split: if_splits)
  obtain x db where claim: "claim_operation (dr_clk D 1 0) (dr_new_id D) ?q (w_db w) = (x, db)" by force
  have "(\<exists>b. x = Inr b \<and> c = \<lparr> co_disposition = Fresh, co_record = b \<rparr> \<or> x = Inl (DuplicateClaim b)
      \<and> c = \<lparr> co_disposition = duplicate_disposition (rec_status b) (rec_commit_state b), co_record = b \<rparr>)
      \<and> w' = w\<lparr>w_db := db\<rparr>"
    using assms(1) claim
    by (auto simp: claim_operation_with_origin_def fail_control_def coordinator_claim_def st_return_def
        dest: st_fail_not_Inr [THEN notE] split: if_splits prod.splits sum.splits operation_claim_error.splits)
  then obtain b where w': "w' = w\<lparr>w_db := db\<rparr>"
    and "x = Inr b \<and> c = \<lparr> co_disposition = Fresh, co_record = b \<rparr> \<or> x = Inl (DuplicateClaim b)
      \<and> c = \<lparr> co_disposition = duplicate_disposition (rec_status b) (rec_commit_state b), co_record = b \<rparr>"
    by blast
  then consider (fresh) "x = Inr b" "c = \<lparr> co_disposition = Fresh, co_record = b \<rparr>"
    | (duplicate) "x = Inl (DuplicateClaim b)"
        "c = \<lparr> co_disposition = duplicate_disposition (rec_status b) (rec_commit_state b), co_record = b \<rparr>"
    by blast
  then have "rec_id (co_record c) = oid \<and> ?holds"
  proof cases
    case fresh
    note r = claim_InrD [OF assms(2) claim [unfolded fresh(1)]]
    have "rec_id b = oid" using into_record_fields(1) [OF r(4)] oid by (simp add: claimed_row_def)
    with r(2) oid fresh(2) show ?thesis by (simp add: store_phase_def)
  next
    case duplicate
    note r = claim_DuplicateD [OF assms(2) claim [unfolded duplicate(1)]]
    have m: "matches_claim b ?q" using claim_Duplicate_matches claim duplicate(1) by blast
    with oid have id: "rec_id b = oid" by (simp add: matches_claim_def)
    with r(1) have "store_phase (w_db w) oid = Some (rec_status b, rec_commit_state b)"
      using into_record_fields(10) by (auto simp: store_phase_def)
    moreover from this r(2) have "store_phase db oid = store_phase (w_db w) oid" by (simp add: store_views_same)
    moreover have "duplicate_disposition st cs \<noteq> Fresh" for st cs
      by (cases "(st, cs)" rule: duplicate_disposition.cases) auto
    ultimately show ?thesis using m id r(1) duplicate(2) w' by simp
  qed
  then show "rec_id (co_record c) = oid" ?holds by blast+
qed

lemma resume_returnsD:
  assumes "resume_or_replay E D oid c w = (Returns (Inr b), w')"
  shows "w' = w" "b \<Longrightarrow> co_disposition c \<noteq> Fresh"
    "b \<Longrightarrow> co_disposition c = duplicate_disposition (rec_status (co_record c)) (rec_commit_state (co_record c))
      \<Longrightarrow> rec_status (co_record c) \<in> {Committed, Delivered} \<and> rec_commit_state (co_record c) = OCS_Applied"
proof -
  have "duplicate_disposition st cs = AlreadyDelivered \<Longrightarrow> st = Delivered \<and> cs = OCS_Applied" for st cs
    by (cases "(st, cs)" rule: duplicate_disposition.cases) (auto split: if_splits)
  then show "w' = w" "b \<Longrightarrow> co_disposition c \<noteq> Fresh"
    "b \<Longrightarrow> co_disposition c = duplicate_disposition (rec_status (co_record c)) (rec_commit_state (co_record c))
      \<Longrightarrow> rec_status (co_record c) \<in> {Committed, Delivered} \<and> rec_commit_state (co_record c) = OCS_Applied"
    using assms by (auto simp: resume_or_replay_def Let_def st_return_def fail_control_def
        dest: st_fail_not_Inr [THEN notE] split: claim_disposition.splits if_splits)
qed

lemma triple_claimed [triple_intros]:
  assumes body: "triple (\<lambda>_. True) body reported"
  shows "triple (\<lambda>_. True) (claimed E D a oid kind loc og already body) reported"
proof -
  let ?R = "\<lambda>c db. co_disposition c \<noteq> Fresh \<longrightarrow>
      store_phase db oid = Some (rec_status (co_record c), rec_commit_state (co_record c))
        \<and> co_disposition c = duplicate_disposition (rec_status (co_record c)) (rec_commit_state (co_record c))"
  have "triple (\<lambda>_. True) (claim_operation_with_origin E D a oid kind loc og) ?R"
    unfolding triple_def using claim_returnsD(2) evolves_inv st_evolves_snd [OF st_evolves_claim] by (smt (verit))
  moreover have "triple (?R c) (resume_or_replay E D oid c) (\<lambda>b db. b \<longrightarrow> applied_in oid db)" for c
    unfolding triple_def
  proof (intro allI impI)
    fix w r w'
    assume w: "store_inv (w_db w)" "?R c (w_db w)" "resume_or_replay E D oid c w = (Returns (Inr r), w')"
    show "store_inv (w_db w') \<and> (r \<longrightarrow> applied_in oid (w_db w'))"
      using w resume_returnsD [OF w(3)] by (auto simp: applied_in_def)
  qed
  moreover have "triple (\<lambda>db. b \<longrightarrow> applied_in oid db)
      (if b then st_return (committed_outcome oid already) else body) reported" for b
    using body by (cases b) (simp_all add: triple_def st_return_def)
  ultimately show ?thesis unfolding claimed_def by (intro triple_bind)
qed

text \<open>Every command whose success is reported goes through a commit or a create.\<close>

lemma triple_commit_mutation [triple_intros]:
  assumes "engine_environment E"
  shows "triple (\<lambda>_. True) (commit_mutation E D oid loc snap mutation reply) reported"
    and "triple (\<lambda>_. True) (commit_mutation E D oid loc snap mutation reply) (\<lambda>_. applied_in oid)"
proof -
  have run: "triple (\<lambda>_. True) (commit_mutation E D oid loc snap mutation reply) (\<lambda>out db. reported out db \<and> applied_in oid db)"
    unfolding commit_mutation_def
    by (intro triple_intros evolves_intros assms triple_bind [OF triple_commits(1)] environment_coordinator [OF assms])
       (auto intro: triple_intros)
  show "triple (\<lambda>_. True) (commit_mutation E D oid loc snap mutation reply) reported"
    and "triple (\<lambda>_. True) (commit_mutation E D oid loc snap mutation reply) (\<lambda>_. applied_in oid)"
    using run by (auto simp: triple_def)
qed

lemma triple_done:
  assumes "engine_environment E" "triple (\<lambda>_. True) m reported"
  shows "triple (\<lambda>_. True) (st_bind m (emit_done E ctx)) reported"
proof (rule triple_bind [OF assms(2)])
  fix out
  show "triple (reported out) (emit_done E ctx out) reported"
    unfolding triple_def
  proof (intro allI impI)
    fix w r w'
    assume w: "store_inv (w_db w)" "reported out (w_db w)" "emit_done E ctx out w = (Returns (Inr r), w')"
    have e: "evolves (w_db w) (w_db w')" using st_evolves_snd [OF st_evolves_small(5) [OF assms(1)] w(3)] .
    moreover have "r = out" using w(3) by (simp add: emit_done_def)
    ultimately show "store_inv (w_db w') \<and> reported r (w_db w')"
      using w(1,2) evolves_inv evolves_committed unfolding reported_def applied_in_def by metis
  qed
qed

lemma triple_created:
  assumes "oid = cr_operation_id cmd \<and> environment_ok K \<and> st_evolves m"
  shows "triple (\<lambda>_. True) (st_bind (create K clk uid cmd) (\<lambda>_. st_bind m (\<lambda>_. st_return (committed_outcome oid t)))) reported"
proof -
  from assms have "oid = cr_operation_id cmd" "environment_ok K" "st_evolves m" by auto
  then show ?thesis
    by (intro triple_bind [OF triple_commits(2)] triple_bind [OF triple_evolves_applied]) (auto intro: triple_intros)
qed

lemma triple_undone:
  assumes "engine_environment E \<and> ou_operation_id out = Some oid"
  shows "triple (\<lambda>_. True) (st_bind (commit_mutation E D oid loc snap mutation reply) (\<lambda>_. st_return out)) reported"
  using assms by (intro triple_bind [OF triple_commit_mutation(2)] triple_return) (auto simp: reported_def)

lemma triple_commands:
  assumes "engine_environment E" "length (dr_nonce D) = NONCE_LEN"
  shows "triple (\<lambda>_. True) (start_chat E D a loc i og) reported"
    and "triple (\<lambda>_. True) (send_message_with_context E D a loc t i mo ctx og) reported"
    and "triple (\<lambda>_. True) (undo_last_turn E D a loc i kind og) reported"
    and "triple (\<lambda>_. True) (regenerate_reply_with_context E D a loc i mo ctx og) reported"
    and "triple (\<lambda>_. True) (compress_chat E D a loc i og) reported"
proof -
  note rules = triple_created triple_undone triple_done [OF assms(1)] triple_with_lock [OF assms(1)]
    triple_intros evolves_intros assms environment_coordinator [OF assms(1)]
  show "triple (\<lambda>_. True) (start_chat E D a loc i og) reported"
    unfolding start_chat_def Let_def by (auto intro!: rules split: sum.splits)
  show "triple (\<lambda>_. True) (send_message_with_context E D a loc t i mo ctx og) reported"
    unfolding send_message_with_context_def Let_def by (auto intro!: rules split: prod.splits)
  show "triple (\<lambda>_. True) (undo_last_turn E D a loc i kind og) reported"
    unfolding undo_last_turn_def Let_def by (auto intro!: rules split: option.splits prod.splits)
  show "triple (\<lambda>_. True) (regenerate_reply_with_context E D a loc i mo ctx og) reported"
    unfolding regenerate_reply_with_context_def Let_def by (auto intro!: rules split: option.splits prod.splits)
  show "triple (\<lambda>_. True) (compress_chat E D a loc i og) reported"
    unfolding compress_chat_def Let_def by (auto intro!: rules split: prod.splits)
qed

lemma triple_execute:
  assumes "engine_environment E" "length (dr_nonce D) = NONCE_LEN"
  shows "triple (\<lambda>_. True) (execute_with_context_and_origin E D a cmd ctx og) reported"
proof -
  have simple: "triple (\<lambda>_. True) (execute E D a cmd) reported"
    by (cases cmd) (auto intro!: triple_intros evolves_intros assms simp: with_workspace_def select_error_def split: sum.splits)
  show ?thesis
    using simple triple_commands [OF assms]
    by (cases cmd) (simp_all add: execute_with_context_and_origin_def execute_with_origin_def)
qed

section \<open>A concrete engine\<close>

text \<open>A backend whose state counts its writes, on the example database; a redelivered message of an
  operation that has been committed.\<close>

definition demo_en_coordinator :: "nat surroundings coordinator" where
  "demo_en_coordinator =
     (let answer = (\<lambda>w. (Returns (Inr (demo_result SC_Applied)), w\<lparr>w_ext := (w_ext w)\<lparr>ee_rest := Suc (ee_rest (w_ext w))\<rparr>\<rparr>)) in
     \<lparr> co_create_chat = (\<lambda>_. answer), co_commit = (\<lambda>_. answer),
       co_journal_lookup = (\<lambda>i w. (Inr None, w)),
       co_vault = \<lparr> vault_put = (\<lambda>_ _ _ w. (Inr ''secret'', w)), vault_get = (\<lambda>_ w. (Inr ''key'', w)) \<rparr>,
       co_crypto = plain_crypto, co_payload_encryptor = None, co_key_provider = Some 1,
       co_result_to_string = (\<lambda>_. Some ''{}''), co_value_to_string = (\<lambda>_. ''{}''),
       co_mutation_to_vec = (\<lambda>_. None), co_payload_from_slice = (\<lambda>_. None),
       co_json_from_slice = (\<lambda>_. None) \<rparr>)"

definition demo_status :: st_status where
  "demo_status = \<lparr> available = True, st_version = None, st_handle = ''h'',
     capabilities = \<lparr> cap_mode = ProductionWrite, cap_snapshot = True, cap_typed_mutations = True,
       cap_integrity_rotation = True, cap_operation_replay = True \<rparr> \<rparr>"

definition demo_message :: "bool \<Rightarrow> string \<Rightarrow> json" where
  "demo_message user t = JObject [(''is_user'', JBool user), (''is_system'', JBool False), (''mes'', JString t)]"

definition demo_snapshot :: "st_chat_locator \<Rightarrow> st_chat_snapshot" where
  "demo_snapshot loc = \<lparr> snap_locator = loc, parsed_chat = [JObject [], demo_message True ''hi'', demo_message False ''yo''],
     source_sha256 = replicate 64 (CHR ''a''), source_integrity = ''i'', source_byte_length = 9, source_message_count = 2 \<rparr>"

definition demo_engine :: "(nat \<Rightarrow> poller_ownership_guard) option \<Rightarrow> nat engine" where
  "demo_engine guard =
     \<lparr> en_probe = st_return demo_status, en_list_characters = st_return [],
       en_list_chats = (\<lambda>_. st_return []), en_list_models = st_fail Panicked,
       en_snapshot = (\<lambda>l. st_return (demo_snapshot l)), en_generation_settings = st_fail Panicked,
       en_stream_generate = (\<lambda>_ _. st_fail Panicked), en_emit_done = (\<lambda>_ w. w), en_await_lock = (\<lambda>_ w. w),
       en_await_permit = (\<lambda>w. w), en_lock_order = (\<lambda>x. x), en_context_key = ''ctx'',
       en_coordinator = Some demo_en_coordinator, en_guard = guard, en_registry = (\<lambda>_. memory_fence demo_ownership),
       en_generation_budget_valid = True, en_sha = (\<lambda>_. replicate 64 (CHR ''a'')), en_from_slice = (\<lambda>_. None),
       en_to_vec = (\<lambda>_. Some ''m''), en_payload_to_vec = (\<lambda>_. Some ''payload'') \<rparr>"

definition demo_draws :: engine_draws where
  "demo_draws = \<lparr> dr_instant = 0, dr_new_id = ''op-1'', dr_dek = ''key'', dr_nonce = replicate 24 (CHR ''n''),
     dr_unix_ms = 5, dr_clk = (\<lambda>_ _. ''t''), dr_uid = (\<lambda>_ _. (''rq'', ''tr'')) \<rparr>"

definition demo_actor :: actor where
  "demo_actor = \<lparr> ac_account = \<lparr> acc_id = ''account'', acc_username = ''u'', acc_display_name = ''u'',
      acc_is_system_admin = False, acc_disabled_at = None, acc_legacy_st_handle = None \<rparr>,
     ac_workspace_id = Some ''ws'', ac_workspace_role = None \<rparr>"

definition demo_origin :: bridge_operation_origin where
  "demo_origin = \<lparr> or_internal_bot_id = ''bot'', or_telegram_update_id = 7, or_channel_context_key = ''ctx'' \<rparr>"

definition demo_engine_world :: "op_db \<Rightarrow> nat surroundings world" where
  "demo_engine_world db = \<lparr> w_db = db, w_ext = \<lparr> ee_channels = \<lparr> cd_rows = [], cd_accounts = [''account''],
     cd_workspaces = [''ws''], cd_faults = [] \<rparr>,
     ee_locks = initial_locks (new_table 10 10), ee_rest = 0 \<rparr> \<rparr>"


definition demo_send :: "(nat \<Rightarrow> poller_ownership_guard) option \<Rightarrow> (nat, st_bridge_outcome) en_m" where
  "demo_send g = execute_with_context_and_origin (demo_engine g) demo_draws demo_actor
      (Cmd_SendMessage (cl_locator demo_claim) ''hello'' ''op-1'' None) None demo_origin"


lemma demo_engine_environment: "engine_environment (demo_engine g)"
  by (auto simp: engine_environment_def demo_engine_def demo_en_coordinator_def environment_ok_def Let_def
      st_evolves_def app_evolves_def st_return_def st_fail_def)

lemma demo_blank: "\<not> is_blank ''op-1''" "\<not> is_blank ''f''" "origin_is_valid demo_origin"
  by code_simp+

lemma demo_claimed_again:
  "case coordinator_claim ''t'' ''op-1'' (claim_request demo_actor ''op-1'' KIND_SEND (cl_locator demo_claim) demo_origin)
      (w_db (demo_world 6 [])) of
     (Inr c, db) \<Rightarrow> co_disposition c = Resume \<and> rec_status (co_record c) = Committed
       \<and> rec_commit_state (co_record c) = OCS_Applied | _ \<Rightarrow> False"
  by code_simp


lemma demo_lock:
  "lock_locator (demo_engine g) demo_draws loc (demo_engine_world db) = (Returns (Inr 0), w) \<Longrightarrow> w_db w = db"
  "fst (lock_locator (demo_engine g) demo_draws loc (demo_engine_world db)) = Returns (Inr 0)"
  by (auto simp: lock_locator_def demo_engine_def demo_draws_def demo_engine_world_def Let_def locator_acquire_def acquire_def
      initial_locks_def new_table_def set_locks_def lock_defs map_err_def)

lemma demo_send_replays:
  "\<exists>out w'. demo_send g (demo_engine_world (w_db (demo_world 6 []))) = (Returns (Inr out), w')
     \<and> ou_write_committed out \<and> ou_operation_id out = Some ''op-1''"
proof -
  let ?E = "demo_engine g" and ?loc = "cl_locator demo_claim"
  obtain w1 where lock: "lock_locator ?E demo_draws ?loc (demo_engine_world (w_db (demo_world 6 []))) = (Returns (Inr 0), w1)"
    using demo_lock(2) by (metis prod.collapse)
  note w1 = demo_lock(1) [OF lock]
  have allowed: "require_write_for_locator ?E demo_draws ?loc w1 = (Returns (Inr demo_status), w1)"
    by (simp add: require_write_for_locator_def demo_engine_def demo_status_def demo_claim_def st_bind_def st_return_def demo_blank)
  obtain c db where claim: "coordinator_claim ''t'' ''op-1'' (claim_request demo_actor ''op-1'' KIND_SEND ?loc demo_origin)
      (w_db (demo_world 6 [])) = (Inr c, db)" and c: "co_disposition c = Resume" "rec_status (co_record c) = Committed"
       "rec_commit_state (co_record c) = OCS_Applied"
    using demo_claimed_again by (auto split: prod.splits sum.splits)
  have "claim_operation_with_origin ?E demo_draws demo_actor ''op-1'' KIND_SEND ?loc demo_origin w1 = st_return c (w1\<lparr>w_db := db\<rparr>)"
    using claim w1 by (simp add: claim_operation_with_origin_def demo_engine_def demo_draws_def demo_blank)
  with lock allowed c show ?thesis
    by (simp add: demo_send_def execute_with_context_and_origin_def send_message_with_context_def with_locator_lock_def st_bind_def
       claimed_def resume_or_replay_def st_return_def Let_def operation_id_of_def demo_blank context_mismatch_def committed_outcome_def)
qed

section \<open>Properties\<close>

text \<open>C1. A command that reports a committed write is durable: whenever an executed command returns
  an outcome with \<open>write_committed\<close>, the ledger records the operation named in the outcome as
  committed (or already delivered) and applied when the command returns. This holds for first
  executions and for redelivered commands alike, whatever statements fail and whatever other
  tasks do to the database while the command waits for locks, permits, the backend or the
  language model.\<close>

theorem engine_success_is_durable:
  assumes "engine_environment E" "length (dr_nonce D) = NONCE_LEN" "store_inv (w_db w)"
    and "execute_with_context_and_origin E D a cmd ctx og w = (Returns (Inr out), w')" "ou_write_committed out"
  shows "\<exists>oid st. ou_operation_id out = Some oid \<and> st \<in> {Committed, Delivered}
    \<and> store_phase (w_db w') oid = Some (st, OCS_Applied)"
  using triple_execute [OF assms(1,2), of a cmd ctx og] assms(3-5)
  unfolding triple_def reported_def applied_in_def by blast

theorem engine_success_is_durable_witness:
  "\<exists>out w'. demo_send None (demo_engine_world (w_db (demo_world 6 []))) = (Returns (Inr out), w')
     \<and> ou_write_committed out \<and> applied_in ''op-1'' (w_db w')"
proof -
  from demo_send_replays [of None] obtain out w'
    where run: "demo_send None (demo_engine_world (w_db (demo_world 6 []))) = (Returns (Inr out), w')"
      and out: "ou_write_committed out" "ou_operation_id out = Some ''op-1''" by blast
  have "store_inv (w_db (demo_engine_world (w_db (demo_world 6 []))))"
    using demo_world_inv by (simp add: demo_engine_world_def)
  from engine_success_is_durable [OF demo_engine_environment _ this run [unfolded demo_send_def] out(1)] out run
  show ?thesis by (auto simp: demo_draws_def NONCE_LEN_def applied_in_def)
qed

end
