(* ===== verification/Engine_Frame.thy ===== *)
theory Engine_Frame
  imports Engine_Safety
begin

text \<open>
  What a command of the engine leaves alone. The state outside the modelled components is
  watched through a function \<open>obs\<close> which only the commit and create calls of the backend may
  change: a command whose operation is past its start, and a command of an engine whose
  ownership is not valid, do not change what is observed.
\<close>

section \<open>Harmless computations\<close>

abbreviation rest :: "'w surroundings world \<Rightarrow> 'w" where
  "rest w \<equiv> ee_rest (w_ext w)"

text \<open>From a state with \<open>P\<close> on the database and \<open>J\<close> outside it, both still hold afterwards, and
  nothing observable has changed.\<close>

definition harmless ::
    "(op_db \<Rightarrow> bool) \<Rightarrow> ('w \<Rightarrow> bool) \<Rightarrow> ('w \<Rightarrow> 'b)
      \<Rightarrow> ('w surroundings world \<Rightarrow> 'c \<times> 'w surroundings world) \<Rightarrow> bool" where
  "harmless P J obs m \<longleftrightarrow>
     (\<forall>w. P (w_db w) \<longrightarrow> J (rest w) \<longrightarrow>
        (let w' = snd (m w) in P (w_db w') \<and> J (rest w') \<and> obs (rest w') = obs (rest w)))"

definition refuses :: "(op_db \<Rightarrow> bool) \<Rightarrow> ('w \<Rightarrow> bool) \<Rightarrow> ('w, 'a) en_m \<Rightarrow> bool" where
  "refuses P J m \<longleftrightarrow> (\<forall>w a w'. P (w_db w) \<longrightarrow> J (rest w) \<longrightarrow> m w \<noteq> (Returns (Inr a), w'))"

definition stable :: "(op_db \<Rightarrow> bool) \<Rightarrow> bool" where
  "stable P \<longleftrightarrow> (\<forall>db db'. evolves db db' \<longrightarrow> P db \<longrightarrow> P db')"

definition quiet_call ::
    "('w \<Rightarrow> bool) \<Rightarrow> ('w \<Rightarrow> 'b) \<Rightarrow> ('w surroundings world \<Rightarrow> 'c \<times> 'w surroundings world) \<Rightarrow> bool" where
  "quiet_call J obs m \<longleftrightarrow>
     (\<forall>w. J (rest w) \<longrightarrow> (let w' = snd (m w) in J (rest w') \<and> obs (rest w') = obs (rest w)))"

text \<open>Every call out of the engine except the two that write.\<close>

definition quiet_environment :: "'w engine \<Rightarrow> ('w \<Rightarrow> bool) \<Rightarrow> ('w \<Rightarrow> 'b) \<Rightarrow> bool" where
  "quiet_environment E J obs \<longleftrightarrow>
     quiet_call J obs (en_probe E) \<and> quiet_call J obs (en_list_characters E)
     \<and> (\<forall>l. quiet_call J obs (en_snapshot E l)) \<and> quiet_call J obs (en_generation_settings E)
     \<and> (\<forall>r c. quiet_call J obs (en_stream_generate E r c))
     \<and> (\<forall>t. quiet_call J obs (\<lambda>w. ((), en_emit_done E t w)))
     \<and> (\<forall>c. quiet_call J obs (\<lambda>w. ((), en_await_lock E c w)))
     \<and> quiet_call J obs (\<lambda>w. ((), en_await_permit E w))
     \<and> (\<forall>K. en_coordinator E = Some K \<longrightarrow>
          (\<forall>a b c. quiet_call J obs (vault_put (co_vault K) a b c))
          \<and> (\<forall>a. quiet_call J obs (vault_get (co_vault K) a)))"

named_theorems harmless_intros \<open>rules for harmless computations\<close>

lemma harmless_alt:
  "harmless P J obs m \<longleftrightarrow>
     (\<forall>w r w'. P (w_db w) \<longrightarrow> J (rest w) \<longrightarrow> m w = (r, w')
        \<longrightarrow> P (w_db w') \<and> J (rest w') \<and> obs (rest w') = obs (rest w))"
  unfolding harmless_def Let_def by (metis prod.collapse snd_conv)

lemma harmless_quiet: "stable P \<Longrightarrow> st_evolves m \<Longrightarrow> quiet_call J obs m \<Longrightarrow> harmless P J obs m"
  unfolding harmless_def stable_def quiet_call_def st_evolves_def Let_def by blast

lemma harmless_quiet_app: "stable P \<Longrightarrow> app_evolves m \<Longrightarrow> quiet_call J obs m \<Longrightarrow> harmless P J obs m"
  unfolding harmless_def stable_def quiet_call_def app_evolves_def Let_def by blast

text \<open>Computations that only touch the database, the channel contexts or the locks.\<close>

lemma quiet_rest: "(\<And>w. rest (snd (m w)) = rest w) \<Longrightarrow> quiet_call J obs m"
  unfolding quiet_call_def Let_def by metis

lemma harmless_bind_unless:
  assumes "harmless P J obs m" "\<And>a. \<not> refuses P J m \<Longrightarrow> harmless P J obs (f a)"
  shows "harmless P J obs (st_bind m f)"
  unfolding harmless_alt
proof (intro allI impI)
  fix w r w'
  assume w: "P (w_db w)" "J (rest w)" "st_bind m f w = (r, w')"
  obtain x w1 where m: "m w = (x, w1)" by force
  with assms(1) w(1,2) have w1: "P (w_db w1)" "J (rest w1)" "obs (rest w1) = obs (rest w)"
    unfolding harmless_alt by blast+
  show "P (w_db w') \<and> J (rest w') \<and> obs (rest w') = obs (rest w)"
  proof (cases "\<exists>a. x = Returns (Inr a)")
    case True
    then obtain a where "x = Returns (Inr a)" by blast
    with m w have "f a w1 = (r, w')" "\<not> refuses P J m" by (auto simp: st_bind_def refuses_def)
    with assms(2) w1 show ?thesis unfolding harmless_alt by metis
  next
    case False
    with m w(3) have "w' = w1" by (auto simp: st_bind_def split: call.splits sum.splits)
    with w1 show ?thesis by simp
  qed
qed

lemma harmless_app_bind [harmless_intros]:
  assumes "harmless P J obs m" "\<And>a. harmless P J obs (f a)"
  shows "harmless P J obs (app_bind m f)"
  unfolding harmless_alt
proof (intro allI impI)
  fix w r w'
  assume w: "P (w_db w)" "J (rest w)" "app_bind m f w = (r, w')"
  obtain x w1 where m: "m w = (x, w1)" by force
  with assms(1) w(1,2) have w1: "P (w_db w1)" "J (rest w1)" "obs (rest w1) = obs (rest w)"
    unfolding harmless_alt by blast+
  show "P (w_db w') \<and> J (rest w') \<and> obs (rest w') = obs (rest w)"
  proof (cases x)
    case (Inr a)
    with m w(3) have "f a w1 = (r, w')" by (simp add: app_bind_def)
    with assms(2) w1 show ?thesis unfolding harmless_alt by metis
  next
    case (Inl e)
    with m w(3) have "w' = w1" by (auto simp: app_bind_def)
    with w1 show ?thesis by simp
  qed
qed

lemma harmless_bind [harmless_intros]:
  "harmless P J obs m \<Longrightarrow> (\<And>a. harmless P J obs (f a)) \<Longrightarrow> harmless P J obs (st_bind m f)"
  by (rule harmless_bind_unless)

lemma harmless_stop: "harmless P J obs m \<Longrightarrow> refuses P J m \<Longrightarrow> harmless P J obs (st_bind m f)"
  by (rule harmless_bind_unless) auto

lemma harmless_simple [harmless_intros]:
  "harmless P J obs (st_return a)" "harmless P J obs (st_fail e)" "harmless P J obs (fail_control E D code oid)"
  "harmless P J obs (app_return b)" "harmless P J obs (app_fail g)"
  by (auto simp: harmless_alt st_return_def st_fail_def fail_control_def app_return_def app_fail_def)

lemma harmless_if [harmless_intros]:
  "(b \<Longrightarrow> harmless P J obs m) \<Longrightarrow> (\<not> b \<Longrightarrow> harmless P J obs m') \<Longrightarrow> harmless P J obs (if b then m else m')"
  by simp

lemma harmless_app_as [harmless_intros]:
  assumes "harmless P J obs m"
  shows "harmless P J obs (st_app_as err m)"
proof -
  have "snd (st_app_as err m w) = snd (m w)" for w
    by (simp add: st_app_as_def st_fail_def split: prod.splits sum.splits)
  then show ?thesis using assms by (simp add: harmless_def)
qed

lemma harmless_with_coordinator [harmless_intros]:
  "(\<And>K. en_coordinator E = Some K \<Longrightarrow> harmless P J obs (f K)) \<Longrightarrow> harmless P J obs (with_coordinator E D oid f)"
  by (auto simp: with_coordinator_def intro: harmless_intros split: option.splits)

section \<open>The steps of the engine\<close>

lemma harmless_on_store [harmless_intros]:
  "stable P \<Longrightarrow> (\<And>db. evolves db (snd (m db))) \<Longrightarrow> harmless P J obs (on_store m)"
  by (rule harmless_quiet_app) (auto intro: evolves_intros quiet_rest simp: on_store_def split: prod.splits)

lemma harmless_channels [harmless_intros]: "stable P \<Longrightarrow> harmless P J obs (on_channels m)"
  by (rule harmless_quiet_app) (auto intro: evolves_intros quiet_rest simp: on_channels_def split: prod.splits)

lemma rest_of_steps:
  "rest (snd (mark_snapshot_ready now u oid sha integ sz cnt w)) = rest w"
  "rest (snd (mark_generating now u oid w)) = rest w"
  "rest (snd (mark_generated now u oid pl dg w)) = rest w"
  "rest (snd (claim_operation_with_origin E D a oid kind loc og w)) = rest w"
  "rest (snd (resume_or_replay E D oid c w)) = rest w"
  "rest (snd (require_fence E D oid w)) = rest w"
  "rest (snd (engine_runtime_fence E D oid w)) = rest w"
  "rest (snd (settle_generation_failure now u oid e w)) = rest w"
  by (auto simp: mark_snapshot_ready_def mark_generating_def mark_generated_def st_store_def st_app_def on_store_def
      claim_operation_with_origin_def resume_or_replay_def require_fence_def engine_runtime_fence_def Let_def
      settle_generation_failure_def fail_control_def st_fail_def st_return_def
      split: prod.splits sum.splits option.splits claim_disposition.splits)

lemma harmless_steps [harmless_intros]:
  assumes "stable P" "engine_environment E"
  shows "harmless P J obs (mark_snapshot_ready now u oid sha integ sz cnt)"
    "harmless P J obs (mark_generating now u oid)" "harmless P J obs (snapshot_marked D oid snap)"
    "harmless P J obs (claim_operation_with_origin E D a oid kind loc og)"
    "harmless P J obs (resume_or_replay E D oid c)" "harmless P J obs (require_fence E D oid)"
    "harmless P J obs (engine_runtime_fence E D oid)"
  using assms unfolding snapshot_marked_def
  by (auto intro!: harmless_quiet quiet_rest evolves_intros rest_of_steps)

lemma refuses_intros:
  "refuses P J m \<Longrightarrow> refuses P J (st_bind m f)"
  "refuses P J (st_fail e)" "refuses P J (fail_control E D code oid)"
  unfolding refuses_def fail_control_def
  by (auto dest!: st_bind_InrD dest: st_fail_not_Inr [THEN notE])

lemma harmless_calls [harmless_intros]:
  assumes "stable P" "engine_environment E" "quiet_environment E J obs"
  shows "harmless P J obs (en_probe E)" "harmless P J obs (en_list_characters E)"
    "harmless P J obs (en_snapshot E l)" "harmless P J obs (en_generation_settings E)"
    "harmless P J obs (en_stream_generate E r c)" "harmless P J obs (acquire_generation_permit E D)"
    "harmless P J obs (emit_done E ctx out)"
proof -
  show "harmless P J obs (en_probe E)" "harmless P J obs (en_list_characters E)"
    "harmless P J obs (en_snapshot E l)" "harmless P J obs (en_generation_settings E)"
    "harmless P J obs (en_stream_generate E r c)"
    using assms(3) by (auto intro!: harmless_quiet [OF assms(1)] evolves_intros assms(2) simp: quiet_environment_def)
  have "quiet_call J obs (acquire_generation_permit E D)" "quiet_call J obs (emit_done E ctx out)"
    using assms(3)
    by (auto simp: quiet_environment_def quiet_call_def Let_def acquire_generation_permit_def emit_done_def st_fail_def)
  then show "harmless P J obs (acquire_generation_permit E D)" "harmless P J obs (emit_done E ctx out)"
    by (auto intro!: harmless_quiet [OF assms(1)] evolves_intros assms(2))
qed

lemma harmless_lock:
  assumes "stable P" "engine_environment E" "quiet_environment E J obs" "harmless P J obs body"
  shows "harmless P J obs (with_locator_lock E D loc body)"
proof -
  have "quiet_call J obs (lock_locator E D loc)"
    using assms(3) by (auto simp: quiet_environment_def quiet_call_def lock_locator_def set_locks_def Let_def
        fail_control_def st_fail_def split: prod.splits sum.splits)
  then have "harmless P J obs (lock_locator E D loc)"
    by (intro harmless_quiet [OF assms(1)] st_evolves_lock assms(2))
  moreover have "harmless P J obs (\<lambda>w. case body w of (r, w') \<Rightarrow> (r, unlock c w'))" for c
    using assms(4) by (auto simp: harmless_def unlock_def set_locks_def Let_def split: prod.splits)
  ultimately show ?thesis unfolding with_locator_lock_def by (rule harmless_bind)
qed

lemma harmless_encryptor [harmless_intros]:
  assumes "stable P" "engine_environment E" "quiet_environment E J obs" "en_coordinator E = Some K"
  shows "harmless P J obs (payload_encryptor_for_operation K now dek oid)"
proof -
  have env: "environment_ok K" using environment_coordinator assms(2,4) by blast
  have vault: "harmless P J obs (vault_put (co_vault K) x y z)" "harmless P J obs (vault_get (co_vault K) x)" for x y z
    using assms(3,4) env
    by (auto intro!: harmless_quiet_app [OF assms(1)] simp: quiet_environment_def environment_ok_def)
  have ref: "harmless P J obs (on_store (get_operation_key_reference oid))"
    by (intro harmless_intros assms(1) evolves_read) simp
  have put: "harmless P J obs (\<lambda>w. case on_store (put_operation_key_reference now oid sid kv) w of
      (Inr _, w') \<Rightarrow> (Inr enc, w') | (Inl err, w') \<Rightarrow> f err w')"
    if "\<And>err. harmless P J obs (f err)" for sid kv enc f
  proof -
    have "harmless P J obs (on_store (put_operation_key_reference now oid sid kv))"
      by (intro harmless_intros assms(1) evolves_store_ops)
    with that show ?thesis unfolding harmless_def Let_def
      by (auto split: prod.splits sum.splits)
  qed
  have "harmless P J obs (for_operation (co_vault K) kv now dek oid)" for kv
    unfolding for_operation_def create_wrapped_def from_wrapped_def
    by (auto intro!: harmless_intros ref put vault split: option.splits)
  then show ?thesis
    by (auto simp: payload_encryptor_for_operation_def intro: harmless_intros split: option.splits)
qed

lemma harmless_settled [harmless_intros]:
  assumes "stable P" "harmless P J obs m"
  shows "harmless P J obs (settled D oid m)"
  unfolding harmless_alt
proof (intro allI impI)
  fix w r w'
  assume w: "P (w_db w)" "J (rest w)" "settled D oid m w = (r, w')"
  obtain x w1 where m: "m w = (x, w1)" by force
  with assms(2) w(1,2) have w1: "P (w_db w1)" "J (rest w1)" "obs (rest w1) = obs (rest w)"
    unfolding harmless_alt by blast+
  show "P (w_db w') \<and> J (rest w') \<and> obs (rest w') = obs (rest w)"
  proof (cases "\<exists>e. x = Returns (Inl e)")
    case True
    then obtain e where "x = Returns (Inl e)" by blast
    with m w(3) have w': "w' = snd (settle_generation_failure (dr_clk D 4 0) (dr_uid D 4 0) oid e w1)"
      by (auto simp: settled_def split: prod.splits)
    then have "evolves (w_db w1) (w_db w')"
      using evolves_store_ops(9)
      by (auto simp: settle_generation_failure_def on_store_eq split: prod.splits sum.splits) (metis snd_conv)+
    with assms(1) w1 w' show ?thesis by (auto simp: stable_def rest_of_steps)
  next
    case False
    with m w(3) have "w' = w1" by (auto simp: settled_def split: call.splits sum.splits)
    with w1 show ?thesis by simp
  qed
qed

lemma harmless_persist [harmless_intros]:
  assumes "stable P" "engine_environment E" "quiet_environment E J obs" "length (dr_nonce D) = NONCE_LEN"
  shows "harmless P J obs (persist_create_payload E D actor_id oid loc cmd)"
    "harmless P J obs (persist_generated_payload E D actor_id oid kind loc snap mutation)"
proof -
  have seal: "harmless P J obs (seal_payload E D K actor_id oid k loc fence payload digest)"
    if K: "en_coordinator E = Some K" for K k fence payload digest
  proof -
    have marked: "harmless P J obs (mark_generated now u oid pl dg)"
      if "payload_encrypt (co_crypto K) enc (dr_nonce D) plaintext aad = Inr pl" for now u pl dg enc plaintext aad
      using payload_encrypt_InrD(3) [OF that] assms(4) unfolding mark_generated_def
      by (intro harmless_quiet [OF assms(1)] quiet_rest rest_of_steps [unfolded mark_generated_def] evolves_intros evolves_store_ops)
         (simp add: NONCE_LEN_def)
    show ?thesis
      unfolding seal_payload_def Let_def
      by (auto intro!: harmless_intros marked harmless_encryptor [OF assms(1-3)] K split: sum.splits option.splits)
  qed
  show "harmless P J obs (persist_create_payload E D actor_id oid loc cmd)"
    "harmless P J obs (persist_generated_payload E D actor_id oid kind loc snap mutation)"
    unfolding persist_create_payload_def persist_generated_payload_def
    by (auto intro!: harmless_intros seal assms split: option.splits)
qed

lemma harmless_reply [harmless_intros]:
  assumes "stable P" "engine_environment E" "quiet_environment E J obs"
  shows "harmless P J obs (generate_reply E D a oid loc snap extra dl mo ctx)"
    and "harmless P J obs (compress_patches E model gs ts)"
    and "harmless P J obs (require_write_for_locator E D loc)"
proof -
  have "harmless P J obs (load_character E D loc)"
    unfolding load_character_def by (auto intro!: harmless_intros assms split: option.splits)
  then show "harmless P J obs (generate_reply E D a oid loc snap extra dl mo ctx)"
    unfolding generate_reply_def by (intro harmless_intros assms)
  show "harmless P J obs (compress_patches E model gs ts)"
    by (induction ts) (auto intro!: harmless_intros assms)
  show "harmless P J obs (require_write_for_locator E D loc)"
    unfolding require_write_for_locator_def by (auto intro!: harmless_intros assms split: st_write_mode.splits)
qed

lemma harmless_claimed [harmless_intros]:
  "stable P \<Longrightarrow> engine_environment E \<Longrightarrow> harmless P J obs body
    \<Longrightarrow> harmless P J obs (claimed E D a oid kind loc og already body)"
  unfolding claimed_def by (intro harmless_intros)

lemma harmless_select [harmless_intros]:
  assumes "stable P" "engine_environment E" "quiet_environment E J obs"
  shows "harmless P J obs (execute E D a cmd)"
  by (cases cmd) (auto intro!: harmless_intros assms simp: with_workspace_def select_error_def split: sum.splits)

section \<open>Operations past their start\<close>

definition past_start :: "string \<Rightarrow> op_db \<Rightarrow> bool" where
  "past_start oid db \<longleftrightarrow> store_inv db \<and> (\<exists>st cs. store_phase db oid = Some (st, cs) \<and> st \<noteq> Received)"

lemma stable_past_start: "stable (past_start oid)"
  unfolding stable_def
proof (intro allI impI)
  fix db db'
  assume db: "evolves db db'" "past_start oid db"
  then obtain st cs where p: "store_inv db" "store_phase db oid = Some (st, cs)" "st \<noteq> Received"
    by (auto simp: past_start_def)
  have step: "fst q \<noteq> Received" if "phase_step p q" for p q using that by cases auto
  have "fst q \<noteq> Received" if "phase_step\<^sup>*\<^sup>* (st, cs) q" for q
    using that p(3) step by cases auto
  with evolves_phase [OF db(1) p(1,2)] evolves_inv [OF db(1) p(1)] show "past_start oid db'"
    by (auto simp: past_start_def)
qed

lemma update_snapshot_ready_InrD:
  assumes "store_inv db" "update_snapshot_ready now i sha integ sz cnt db = (Inr rec, db')"
  shows "store_phase db i = Some (Received, OCS_NotStarted)"
proof -
  let ?Q = "\<lambda>r. op_id r = i \<and> op_status r = ''received'' \<and> op_commit_state r = ''not_started''"
  have "\<exists>r. row_of db i = Some r \<and> ?Q r"
    by (rule cas_phase_InrD [OF assms(1) assms(2) [unfolded update_snapshot_ready_def],
          where Q = ?Q and q = "(SnapshotReady, OCS_NotStarted)"])
       (simp_all add: row_phase_iff snapshot_row_change)
  then show ?thesis by (auto simp: store_phase_def row_phase_iff)
qed

lemma past_start_refuses:
  "refuses (past_start oid) J (mark_snapshot_ready now u oid sha integ sz cnt)"
  "refuses (past_start oid) J (snapshot_marked D oid snap)"
proof -
  show "refuses (past_start oid) J (mark_snapshot_ready now u oid sha integ sz cnt)"
    for now u sha integ sz cnt
    using update_snapshot_ready_InrD
    by (auto simp: refuses_def past_start_def mark_snapshot_ready_def st_store_def st_app_def on_store_def map_err_def
        split: prod.splits sum.splits)
  then show "refuses (past_start oid) J (snapshot_marked D oid snap)" unfolding snapshot_marked_def .
qed

lemma past_start_stops:
  "harmless (past_start oid) J obs (st_bind (mark_snapshot_ready now u oid sha integ sz cnt) f)"
  "harmless (past_start oid) J obs (st_bind (snapshot_marked D oid snap) g)"
  by (intro harmless_stop past_start_refuses harmless_quiet stable_past_start quiet_rest evolves_intros;
      simp add: snapshot_marked_def rest_of_steps)+

text \<open>The operation a command works on.\<close>

fun command_operation ::
    "st_bridge_command \<Rightarrow> bridge_execution_context option \<Rightarrow> string \<Rightarrow> string option" where
  "command_operation (Cmd_StartChat loc i) ctx new_id = Some (operation_id_of i None new_id)"
| "command_operation (Cmd_SendMessage loc t i m) ctx new_id = Some (operation_id_of i ctx new_id)"
| "command_operation (Cmd_UndoLastTurn loc i) ctx new_id = Some (operation_id_of i None new_id)"
| "command_operation (Cmd_RevokeLastTurn loc i) ctx new_id = Some (operation_id_of i None new_id)"
| "command_operation (Cmd_RegenerateReply loc i m) ctx new_id = Some (operation_id_of i ctx new_id)"
| "command_operation (Cmd_CompressChat loc i) ctx new_id = Some (operation_id_of i None new_id)"
| "command_operation _ ctx new_id = None"

lemma past_start_harmless:
  fixes D :: engine_draws
  assumes "engine_environment E" "quiet_environment E J obs"
  defines "I \<equiv> \<lambda>i ctx. past_start (operation_id_of i ctx (dr_new_id D))"
  shows "harmless (I i None) J obs (start_chat E D a loc i og)"
    and "harmless (I i ctx) J obs (send_message_with_context E D a loc t i mo ctx og)"
    and "harmless (I i None) J obs (undo_last_turn E D a loc i kind og)"
    and "harmless (I i ctx) J obs (regenerate_reply_with_context E D a loc i mo ctx og)"
    and "harmless (I i None) J obs (compress_chat E D a loc i og)"
proof -
  note rules = past_start_stops harmless_lock harmless_intros assms stable_past_start
  show "harmless (I i None) J obs (start_chat E D a loc i og)"
    unfolding start_chat_def Let_def I_def by (auto intro!: rules split: sum.splits)
  show "harmless (I i ctx) J obs (send_message_with_context E D a loc t i mo ctx og)"
    unfolding send_message_with_context_def Let_def I_def by (auto intro!: rules split: prod.splits)
  show "harmless (I i None) J obs (undo_last_turn E D a loc i kind og)"
    unfolding undo_last_turn_def Let_def I_def by (auto intro!: rules split: option.splits prod.splits)
  show "harmless (I i ctx) J obs (regenerate_reply_with_context E D a loc i mo ctx og)"
    unfolding regenerate_reply_with_context_def Let_def I_def by (auto intro!: rules split: option.splits prod.splits)
  show "harmless (I i None) J obs (compress_chat E D a loc i og)"
    unfolding compress_chat_def Let_def I_def by (auto intro!: rules split: prod.splits)
qed

text \<open>C2. A write is never repeated: once an operation has left its initial status, no command that
  carries its id reaches the backend's write calls again, whatever command it is and however
  often it is delivered, and even if other tasks move the operation on meanwhile. What only the
  write calls can change is unchanged when the command ends.\<close>

theorem engine_never_repeats_write:
  assumes "engine_environment E" "quiet_environment E (\<lambda>_. True) obs" "store_inv (w_db w)"
    and "command_operation cmd ctx (dr_new_id D) = Some oid"
    and "store_phase (w_db w) oid = Some (st, cs)" "st \<noteq> Received"
  shows "obs (rest (snd (execute_with_context_and_origin E D a cmd ctx og w))) = obs (rest w)"
proof -
  have "harmless (past_start oid) (\<lambda>_. True) obs (execute_with_context_and_origin E D a cmd ctx og)"
    using assms(4) past_start_harmless [OF assms(1,2), where D = D]
    by (cases cmd) (auto simp: execute_with_context_and_origin_def execute_with_origin_def)
  moreover have "past_start oid (w_db w)" using assms(3,5,6) by (auto simp: past_start_def)
  ultimately show ?thesis by (simp add: harmless_def Let_def)
qed

lemma demo_quiet: "quiet_environment (demo_engine g) J obs"
  by (auto simp: quiet_environment_def quiet_call_def demo_engine_def demo_en_coordinator_def Let_def
      st_return_def st_fail_def)

text \<open>A command whose operation has been generated and is being committed.\<close>

theorem engine_never_repeats_write_witness:
  "ee_rest (w_ext (snd (demo_send (Some (\<lambda>_. demo_guard ''one'' 2)) (demo_engine_world (w_db (demo_world 5 [])))))) = 0"
proof -
  let ?w = "demo_engine_world (w_db (demo_world 5 []))"
  have w: "store_inv (w_db ?w)" "store_phase (w_db ?w) ''op-1'' = Some (Committing, OCS_Unknown)" "rest ?w = 0"
    using demo_world_inv demo_world_phases(3) by (simp_all add: demo_engine_world_def)
  have "command_operation (Cmd_SendMessage (cl_locator demo_claim) ''hello'' ''op-1'' None) None (dr_new_id demo_draws)
      = Some ''op-1''"
    by (simp add: operation_id_of_def demo_blank)
  from engine_never_repeats_write [OF demo_engine_environment demo_quiet w(1) this w(2), where obs = "\<lambda>x. x"] w(3)
  show ?thesis by (simp add: demo_send_def)
qed

section \<open>Engines without ownership\<close>

definition unowned :: "'w engine \<Rightarrow> 'w \<Rightarrow> bool" where
  "unowned E x \<longleftrightarrow>
     (case en_guard E of
        None \<Rightarrow> True
      | Some g \<Rightarrow> (case assert_commit_fence (g x) (en_registry E x) of Inl _ \<Rightarrow> True | Inr _ \<Rightarrow> False))"

lemma unowned_stops:
  "harmless (\<lambda>_. True) (unowned E) obs (st_bind (require_fence E D oid) f)"
proof (rule harmless_stop)
  show "harmless (\<lambda>_. True) (unowned E) obs (require_fence E D oid)"
    using rest_of_steps(6) [of E D oid] by (simp add: harmless_def Let_def)
  show "refuses (\<lambda>_. True) (unowned E) (require_fence E D oid)"
    by (auto simp: refuses_def unowned_def require_fence_def Let_def fail_control_def
        dest: st_fail_not_Inr [THEN notE] split: option.splits sum.splits)
qed

lemma unowned_harmless:
  assumes "engine_environment E" "quiet_environment E (unowned E) obs" "length (dr_nonce D) = NONCE_LEN"
  shows "harmless (\<lambda>_. True) (unowned E) obs (start_chat E D a loc i og)"
    and "harmless (\<lambda>_. True) (unowned E) obs (send_message_with_context E D a loc t i mo ctx og)"
    and "harmless (\<lambda>_. True) (unowned E) obs (undo_last_turn E D a loc i kind og)"
    and "harmless (\<lambda>_. True) (unowned E) obs (regenerate_reply_with_context E D a loc i mo ctx og)"
    and "harmless (\<lambda>_. True) (unowned E) obs (compress_chat E D a loc i og)"
proof -
  have st: "stable (\<lambda>_. True)" by (simp add: stable_def)
  have commits: "harmless (\<lambda>_. True) (unowned E) obs (commit_mutation E D oid loc snap mutation reply)"
    for oid loc snap mutation reply
    unfolding commit_mutation_def by (rule unowned_stops)
  note rules = unowned_stops commits harmless_lock harmless_intros assms st
  show "harmless (\<lambda>_. True) (unowned E) obs (start_chat E D a loc i og)"
    unfolding start_chat_def Let_def by (auto intro!: rules split: sum.splits)
  show "harmless (\<lambda>_. True) (unowned E) obs (send_message_with_context E D a loc t i mo ctx og)"
    unfolding send_message_with_context_def Let_def by (auto intro!: rules split: prod.splits)
  show "harmless (\<lambda>_. True) (unowned E) obs (undo_last_turn E D a loc i kind og)"
    unfolding undo_last_turn_def Let_def by (auto intro!: rules split: option.splits prod.splits)
  show "harmless (\<lambda>_. True) (unowned E) obs (regenerate_reply_with_context E D a loc i mo ctx og)"
    unfolding regenerate_reply_with_context_def Let_def by (auto intro!: rules split: option.splits prod.splits)
  show "harmless (\<lambda>_. True) (unowned E) obs (compress_chat E D a loc i og)"
    unfolding compress_chat_def Let_def by (auto intro!: rules split: prod.splits)
qed

text \<open>C3. An engine that does not own its poller writes nothing: without an ownership guard, or when
  the guard is not valid in the registry (it was never renewed, has been lost, drained or
  superseded by a newer epoch) and does not become valid again, every command leaves unchanged
  whatever only the backend's write calls can change.\<close>

theorem unowned_engine_writes_nothing:
  assumes "engine_environment E" "quiet_environment E (unowned E) obs" "length (dr_nonce D) = NONCE_LEN"
    and "unowned E (rest w)"
  shows "obs (rest (snd (execute_with_context_and_origin E D a cmd ctx og w))) = obs (rest w)"
proof -
  have "harmless (\<lambda>_. True) (unowned E) obs (execute_with_context_and_origin E D a cmd ctx og)"
    using unowned_harmless [OF assms(1-3)] harmless_select [OF _ assms(1,2), of "\<lambda>_. True" D a cmd]
    by (cases cmd) (auto simp: execute_with_context_and_origin_def execute_with_origin_def stable_def)
  with assms(4) show ?thesis by (simp add: harmless_def Let_def)
qed

end
