(* ===== verification/Engine_Redelivery.thy ===== *)
theory Engine_Redelivery
  imports Engine_Frame
begin

text \<open>
  What a redelivered \<^verbatim>\<open>StartChat\<close> does. The name of the chat file contains the time of the call,
  so a second delivery asks for another file than the first one recorded, and the claim of
  the operation refuses it: the answer for an already created chat is never given. At the end, one
  command run to its end on a concrete engine.
\<close>

section \<open>Identities of operations\<close>

lemma row_of_move:
  assumes "move_typed a" "store_inv db" "row_of db i = Some r"
  shows "\<exists>r'. row_of (apply_move a db) i = Some r' \<and> op_identity r' = op_identity r"
proof (cases a)
  case (Store x)
  with row_of_apply [of x db i r] assms show ?thesis by (auto simp only: move_typed.simps apply_move.simps row_change_def)
qed (use assms in \<open>simp_all add: move_views\<close>)

lemma evolves_row:
  assumes "evolves db db'" "store_inv db" "row_of db i = Some r"
  shows "\<exists>r'. row_of db' i = Some r' \<and> op_identity r' = op_identity r"
proof -
  have "\<exists>r'. row_of (fold apply_move ms db) i = Some r' \<and> op_identity r' = op_identity r"
    if "list_all move_typed ms" "store_inv db" "row_of db i = Some r" for ms db r
    using that
  proof (induction ms arbitrary: db r)
    case (Cons a ms)
    then obtain r' where r': "row_of (apply_move a db) i = Some r'" "op_identity r' = op_identity r"
      using row_of_move [of a db i r] by auto
    have "store_inv (apply_move a db)" using Cons.prems moves.inv_apply by simp
    with Cons.IH [OF _ this r'(1)] Cons.prems(1) r'(2) show ?case by simp
  qed simp
  with assms show ?thesis by (auto simp: evolves_def)
qed

definition created_elsewhere :: "string \<Rightarrow> string \<Rightarrow> op_db \<Rightarrow> bool" where
  "created_elsewhere oid file db \<longleftrightarrow>
     store_inv db \<and> (\<exists>r. row_of db oid = Some r \<and> op_st_chat_file r \<noteq> Some file)"

lemma stable_created_elsewhere: "stable (created_elsewhere oid file)"
  unfolding stable_def
proof (intro allI impI)
  fix db db'
  assume db: "evolves db db'" "created_elsewhere oid file db"
  then obtain r where r: "store_inv db" "row_of db oid = Some r" "op_st_chat_file r \<noteq> Some file"
    by (auto simp: created_elsewhere_def)
  from evolves_row [OF db(1) r(1,2)] obtain r' where "row_of db' oid = Some r'" "op_st_chat_file r' = op_st_chat_file r"
    by (auto simp: op_identity_def)
  with evolves_inv [OF db(1) r(1)] r(3) show "created_elsewhere oid file db'" by (auto simp: created_elsewhere_def)
qed

lemma created_elsewhere_refuses:
  assumes "loc_chat_file loc = file" "file \<noteq> []"
  shows "refuses (created_elsewhere oid file) J (claim_operation_with_origin E D a oid kind loc og)"
  unfolding refuses_def
proof (intro allI impI notI)
  fix w c w'
  assume w: "created_elsewhere oid file (w_db w)"
    "claim_operation_with_origin E D a oid kind loc og w = (Returns (Inr c), w')"
  then obtain r where r: "store_inv (w_db w)" "row_of (w_db w) oid = Some r" "op_st_chat_file r \<noteq> Some file"
    by (auto simp: created_elsewhere_def)
  have "store_phase (w_db w) oid \<noteq> None" using row_of_ok [OF r(1,2)] row_ok_phase r(2) by (auto simp: store_phase_def)
  with claim_returnsD(2) [OF w(2) r(1)] r(2)
  have "matches_claim (co_record c) (claim_request a oid kind loc og)" "into_record r = Inr (co_record c)"
    by (auto split: if_splits)
  moreover have "loc_chat_file (rec_locator b) = unwrap_or_default (op_st_chat_file r)" if "into_record r = Inr b" for b
    using that by (auto simp: into_record_def bind_r_Inr_iff)
  ultimately have "unwrap_or_default (op_st_chat_file r) = file"
    using assms(1) by (auto simp: matches_claim_def claim_request_def)
  with r(3) assms(2) show False by (cases "op_st_chat_file r") (auto simp: unwrap_or_default_def)
qed

section \<open>Starting a chat twice\<close>

lemma refuses_after: "harmless P J (\<lambda>_. ()) m \<Longrightarrow> (\<And>a. refuses P J (f a)) \<Longrightarrow> refuses P J (st_bind m f)"
  unfolding refuses_def harmless_alt by (metis st_bind_InrD)

lemma test_chat_file_inj: "test_chat_file name t = test_chat_file name t' \<Longrightarrow> t = t'"
  by (auto simp: test_chat_file_def Let_def dest: int_to_string_inj)

lemma refuses_lock:
  assumes "stable P" "engine_environment E" "refuses P (\<lambda>_. True) body"
  shows "refuses P (\<lambda>_. True) (with_locator_lock E D loc body)"
proof -
  have "harmless P (\<lambda>_. True) (\<lambda>_. ()) (lock_locator E D loc)"
    by (rule harmless_quiet [OF assms(1) st_evolves_lock [OF assms(2)]]) (simp add: quiet_call_def)
  moreover have "refuses P (\<lambda>_. True) (\<lambda>w. case body w of (r, w') \<Rightarrow> (r, unlock c w'))" for c
    using assms(3) by (auto simp: refuses_def split: prod.splits)
  ultimately show ?thesis unfolding with_locator_lock_def by (rule refuses_after)
qed

text \<open>C30. A chat creation that is delivered again is rejected, even if the first delivery created and
  recorded the chat: the file name of the second call carries another time, so the operation
  recorded under its id has another file and the claim fails. The command never returns a
  success, in particular never the message that the chat has already been created.\<close>

theorem redelivered_start_is_rejected:
  assumes "engine_environment E" "store_inv (w_db w)" "\<not> is_blank i"
    and "row_of (w_db w) i = Some r" "op_st_chat_file r = Some (test_chat_file (loc_character_name loc) t)"
    and "dr_unix_ms D \<noteq> t"
  shows "execute_with_context_and_origin E D a (Cmd_StartChat loc i) ctx og w \<noteq> (Returns (Inr out), w')"
proof -
  let ?file = "test_chat_file (loc_character_name loc) (dr_unix_ms D)"
  let ?P = "created_elsewhere i ?file"
  have env: "quiet_environment E (\<lambda>_. True) (\<lambda>_. ())" by (simp add: quiet_environment_def quiet_call_def)
  have start: "?P (w_db w)"
    using assms(2,4-6) test_chat_file_inj by (auto simp: created_elsewhere_def)
  have oid: "operation_id_of i None (dr_new_id D) = i" using assms(3) by (simp add: operation_id_of_def)
  have "?file \<noteq> []" by (simp add: test_chat_file_def Let_def)
  then have claim: "refuses ?P (\<lambda>_. True) (claimed E D a i KIND_START l og already body)"
    if "loc_chat_file l = ?file" for l already body
    unfolding claimed_def using that by (intro refuses_intros(1) created_elsewhere_refuses)
  have "refuses ?P (\<lambda>_. True) (start_chat E D a loc i og)"
    unfolding start_chat_def Let_def oid
    by (auto intro!: refuses_lock stable_created_elsewhere assms(1) refuses_intros(2,3) claim refuses_after
        harmless_calls [OF _ _ env] split: sum.splits)
  with start show ?thesis
    by (simp add: refuses_def execute_with_context_and_origin_def execute_with_origin_def)
qed

section \<open>A chat created once and asked for again\<close>

definition demo_ann :: "i64 \<Rightarrow> st_chat_locator" where
  "demo_ann t = \<lparr> loc_handle = ''h'', loc_avatar = ''a'', loc_character_name = ''Ann'', loc_chat_file = test_chat_file ''Ann'' t \<rparr>"

text \<open>The registry names instance \<open>one\<close> as the owner.\<close>

definition demo_owned :: "nat engine" where
  "demo_owned = demo_engine (Some (\<lambda>_. demo_guard ''one'' 2))"

definition demo_unowned :: "nat engine" where
  "demo_unowned = demo_engine (Some (\<lambda>_. demo_guard ''two'' 2))"

definition demo_at :: "i64 \<Rightarrow> engine_draws" where
  "demo_at t = demo_draws\<lparr>dr_unix_ms := t\<rparr>"

definition demo_start :: "nat engine \<Rightarrow> i64 \<Rightarrow> (nat, st_bridge_outcome) en_m" where
  "demo_start E t = execute_with_context_and_origin E (demo_at t) demo_actor
     (Cmd_StartChat ((demo_ann 0)\<lparr>loc_chat_file := []\<rparr>) ''op-1'') None demo_origin"

text \<open>The steps of a first delivery at time 4, one after the other.\<close>

definition demo_fence_one :: poller_runtime_fence where
  "demo_fence_one = the (runtime_fence (demo_guard ''one'' 2))"

definition demo_create :: "json \<Rightarrow> create_st_chat" where
  "demo_create m = \<lparr> cr_operation_id = ''op-1'', cr_locator = demo_ann 4, cr_opening_message = m, cr_scope = TestChat,
     cr_fence = demo_fence_one \<rparr>"

definition demo_aad_one :: operation_aad where
  "demo_aad_one = aad_new_with_fence ''op-1'' (locator_hash (\<lambda>s. s) ''h'' ''a'' (test_chat_file ''Ann'' 4)) KIND_START ''account'' demo_fence_one"

definition demo_step_lock :: "nat st_result call \<times> nat surroundings world" where
  "demo_step_lock = lock_locator demo_owned (demo_at 4) ((demo_ann 0)\<lparr>loc_chat_file := []\<rparr>) (demo_engine_world demo_db)"

definition demo_step_claim :: "claimed_operation st_result call \<times> nat surroundings world" where
  "demo_step_claim = claim_operation_with_origin demo_owned (demo_at 4) demo_actor ''op-1'' KIND_START (demo_ann 4) demo_origin
     (snd demo_step_lock)"

definition demo_step_ready :: "bridge_operation_record st_result call \<times> nat surroundings world" where
  "demo_step_ready = mark_snapshot_ready ''t'' (''rq'', ''tr'') ''op-1'' None None None None (snd demo_step_claim)"

definition demo_step_key :: "operation_payload_encryptor app_result \<times> nat surroundings world" where
  "demo_step_key = payload_encryptor_for_operation demo_en_coordinator ''t'' ''key'' ''op-1'' (snd demo_step_ready)"

definition demo_sealed :: "encrypted_operation_payload app_result" where
  "demo_sealed = (case fst demo_step_key of
     Inr enc \<Rightarrow> payload_encrypt plain_crypto enc (replicate 24 (CHR ''n'')) ''payload'' demo_aad_one | Inl e \<Rightarrow> Inl e)"

definition demo_step_sealed :: "bridge_operation_record st_result call \<times> nat surroundings world" where
  "demo_step_sealed = mark_generated ''t'' (''rq'', ''tr'') ''op-1'' (projr demo_sealed) ''payload'' (snd demo_step_key)"

definition demo_step_create :: "json \<Rightarrow> st_commit_result st_result call \<times> nat surroundings world" where
  "demo_step_create m = create demo_en_coordinator (\<lambda>_. ''t'') (\<lambda>_. (''rq'', ''tr'')) (demo_create m) (snd demo_step_sealed)"

definition demo_step_select :: "json \<Rightarrow> unit app_result \<times> nat surroundings world" where
  "demo_step_select m = on_channels (select_chat ''t'' ''account'' ''ws'' ''ctx'' (demo_ann 4)) (snd (demo_step_create m))"

definition succeeded :: "('e + 'a) call \<times> 'w \<Rightarrow> bool" where
  "succeeded out \<longleftrightarrow> (case fst out of Returns (Inr _) \<Rightarrow> True | _ \<Rightarrow> False)"

lemma succeededE: "succeeded out \<Longrightarrow> (\<And>a w. out = (Returns (Inr a), w) \<Longrightarrow> thesis) \<Longrightarrow> thesis"
  by (cases out) (auto simp: succeeded_def split: call.splits sum.splits)

lemma demo_step_lock_ok: "succeeded demo_step_lock" by code_simp

lemma demo_step_claim_ok: "case fst demo_step_claim of Returns (Inr c) \<Rightarrow> co_disposition c = Fresh | _ \<Rightarrow> False" by code_simp

lemma demo_step_ready_ok: "succeeded demo_step_ready" by code_simp

lemma demo_step_key_ok: "case fst demo_step_key of Inr _ \<Rightarrow> True | _ \<Rightarrow> False" by code_simp

lemma demo_sealed_ok: "case demo_sealed of Inr _ \<Rightarrow> True | _ \<Rightarrow> False" by code_simp

lemma demo_step_sealed_ok: "succeeded demo_step_sealed" by code_simp

lemma demo_step_create_ok: "succeeded (demo_step_create m)" by code_simp

lemma demo_step_select_ok: "case fst (demo_step_select m) of Inr _ \<Rightarrow> True | _ \<Rightarrow> False" by code_simp

lemma demo_created_row:
  "case row_of (w_db (snd (demo_step_create m))) ''op-1'' of
     Some r \<Rightarrow> op_st_chat_file r = Some (test_chat_file ''Ann'' 4) | None \<Rightarrow> False"
  by code_simp

lemma demo_created_once: "ee_rest (w_ext (snd (demo_step_create m))) = 1"
  by code_simp

lemma demo_facts_ann: "\<not> is_blank ''h''" "\<not> is_blank ''a''" "\<not> is_blank ''Ann''" "runtime_fence (demo_guard ''one'' 2) = Some demo_fence_one"
  "assert_valid (demo_guard ''one'' 2) demo_ownership = Inr ()" "validate_payload (RP_Create (demo_create m)) = Inr ()"
  "allows_write (cap_mode (capabilities demo_status))"
  by code_simp+

lemma demo_started_once:
  "\<exists>out w'. demo_start demo_owned 4 (demo_engine_world demo_db) = (Returns (Inr out), w') \<and> ou_write_committed out \<and> ee_rest (w_ext w') = 1
    \<and> (\<exists>r. row_of (w_db w') ''op-1'' = Some r \<and> op_st_chat_file r = Some (test_chat_file ''Ann'' 4))"
proof -
  let ?E = demo_owned and ?D = "demo_at 4" and ?m = "opening_message ''t'' ''Ann''"
  have E: "en_probe ?E = st_return demo_status" "en_coordinator ?E = Some demo_en_coordinator" "en_context_key ?E = ''ctx''"
    "en_guard ?E = Some (\<lambda>_. demo_guard ''one'' 2)" "en_registry ?E = (\<lambda>_. memory_fence demo_ownership)"
    "en_payload_to_vec ?E = (\<lambda>_. Some ''payload'')"
    by (simp_all add: demo_owned_def demo_engine_def)
  have D: "dr_new_id ?D = ''op-1''" "dr_clk ?D = (\<lambda>_ _. ''t'')" "dr_uid ?D = (\<lambda>_ _. (''rq'', ''tr''))" "dr_unix_ms ?D = 4"
    "dr_dek ?D = ''key''" "dr_nonce ?D = replicate 24 (CHR ''n'')"
    by (simp_all add: demo_at_def demo_draws_def)
  have K: "co_crypto demo_en_coordinator = plain_crypto" "sha256_hex plain_crypto = (\<lambda>s. s)"
    by (simp_all add: demo_en_coordinator_def Let_def plain_crypto_def)
  obtain c w1 where lock: "demo_step_lock = (Returns (Inr c), w1)" using succeededE [OF demo_step_lock_ok] .
  obtain cl w2 where claim: "demo_step_claim = (Returns (Inr cl), w2)" "co_disposition cl = Fresh"
    using demo_step_claim_ok by (auto split: call.splits sum.splits) (metis prod.collapse)
  obtain r1 w3 where ready: "demo_step_ready = (Returns (Inr r1), w3)" using succeededE [OF demo_step_ready_ok] .
  obtain enc w4 where key: "demo_step_key = (Inr enc, w4)"
    using demo_step_key_ok by (auto split: sum.splits) (metis prod.collapse)
  obtain pl where sealed: "demo_sealed = Inr pl" using demo_sealed_ok by (auto split: sum.splits)
  have seal: "payload_encrypt plain_crypto enc (replicate 24 (CHR ''n'')) ''payload'' demo_aad_one = Inr pl"
    using sealed by (simp add: demo_sealed_def key)
  obtain r2 w5 where gen: "demo_step_sealed = (Returns (Inr r2), w5)" using succeededE [OF demo_step_sealed_ok] .
  obtain r3 w6 where made: "demo_step_create ?m = (Returns (Inr r3), w6)" using succeededE [OF demo_step_create_ok] .
  obtain w7 where select: "demo_step_select ?m = (Inr (), w7)"
    using demo_step_select_ok [of ?m] by (auto split: sum.splits) (metis prod.collapse)
  note steps = lock [unfolded demo_step_lock_def] claim(1) [unfolded demo_step_claim_def lock snd_conv]
    ready [unfolded demo_step_ready_def claim(1) snd_conv] key [unfolded demo_step_key_def ready snd_conv]
    gen [unfolded demo_step_sealed_def key sealed snd_conv sum.sel] made [unfolded demo_step_create_def gen snd_conv]
    select [unfolded demo_step_select_def made snd_conv]
  have fence: "cr_fence (demo_create ?m) = demo_fence_one" by (simp add: demo_create_def)
  have persist: "persist_create_payload ?E ?D ''account'' ''op-1'' (demo_ann 4) (demo_create ?m) w3 = (Returns (Inr ()), w5)"
    using steps(4,5) seal fence
    by (simp add: persist_create_payload_def with_coordinator_def E D K engine_runtime_fence_def st_bind_def st_return_def st_app_as_def
        seal_payload_def demo_facts_ann demo_aad_one_def Let_def demo_ann_def)
  have db: "w_db (unlock c w7) = w_db w6" "ee_rest (w_ext (unlock c w7)) = ee_rest (w_ext w6)"
    using steps(7) by (auto simp: unlock_def set_locks_def Let_def on_channels_def split: prod.splits)
  obtain r where r: "row_of (w_db w6) ''op-1'' = Some r" "op_st_chat_file r = Some (test_chat_file ''Ann'' 4)"
    using demo_created_row [of ?m] by (auto simp: made split: option.splits)
  have loc: "loc_handle ((demo_ann 0)\<lparr>loc_chat_file := []\<rparr>) = ''h''" "loc_avatar ((demo_ann 0)\<lparr>loc_chat_file := []\<rparr>) = ''a''"
    "loc_character_name ((demo_ann 0)\<lparr>loc_chat_file := []\<rparr>) = ''Ann''"
    by (simp_all add: demo_ann_def)
  have run: "\<exists>reply. demo_start demo_owned 4 (demo_engine_world demo_db) = (Returns (Inr (committed_outcome ''op-1'' reply)), unlock c w7)"
    using steps claim(2) persist
    by (simp add: demo_start_def execute_with_context_and_origin_def execute_with_origin_def start_chat_def with_locator_lock_def
        st_bind_def st_return_def require_workspace_def demo_actor_def E D loc demo_facts_ann demo_blank operation_id_of_def Let_def
        claimed_def resume_or_replay_def engine_runtime_fence_def require_fence_def with_coordinator_def st_app_as_def
        demo_ann_def [symmetric] demo_create_def [symmetric]) blast
  then show ?thesis using db r demo_created_once [of ?m] by (auto simp: committed_outcome_def made)
qed

text \<open>A chat is created at time 4, and the same command is delivered again at time 5.\<close>

theorem redelivered_start_is_rejected_witness:
  "\<exists>out w'. demo_start demo_owned 4 (demo_engine_world demo_db) = (Returns (Inr out), w') \<and> ou_write_committed out
    \<and> (\<forall>again. fst (demo_start demo_owned 5 w') \<noteq> Returns (Inr again))"
proof -
  from demo_started_once obtain out w' r
    where run: "demo_start demo_owned 4 (demo_engine_world demo_db) = (Returns (Inr out), w')" and out: "ou_write_committed out"
      and r: "row_of (w_db w') ''op-1'' = Some r" "op_st_chat_file r = Some (test_chat_file ''Ann'' 4)"
    by blast
  have E: "engine_environment demo_owned" unfolding demo_owned_def by (rule demo_engine_environment)
  have "length (dr_nonce (demo_at 4)) = NONCE_LEN" by (simp add: demo_at_def demo_draws_def NONCE_LEN_def)
  from triple_execute [OF E this] run demo_facts(1) have inv: "store_inv (w_db w')"
    unfolding triple_def demo_start_def by (metis (no_types) demo_engine_world_def world.select_convs(1))
  have "demo_start demo_owned 5 w' \<noteq> (Returns (Inr again), v)" for again v
    unfolding demo_start_def
    by (rule redelivered_start_is_rejected [OF E inv demo_blank(1) r(1), where t = 4])
       (simp_all add: r(2) demo_ann_def demo_at_def)
  with run out show ?thesis by (metis prod.collapse)
qed

text \<open>The same command on the same database, by the instance that owns the bot and by another one.\<close>

theorem unowned_engine_writes_nothing_witness:
  "ee_rest (w_ext (snd (demo_start demo_owned 4 (demo_engine_world demo_db)))) = 1
    \<and> ee_rest (w_ext (snd (demo_start demo_unowned 4 (demo_engine_world demo_db)))) = 0"
proof -
  have E: "engine_environment demo_unowned" "quiet_environment demo_unowned (unowned demo_unowned) (\<lambda>x. x)"
    unfolding demo_unowned_def by (rule demo_engine_environment demo_quiet)+
  have "length (dr_nonce (demo_at 4)) = NONCE_LEN" by (simp add: demo_at_def demo_draws_def NONCE_LEN_def)
  moreover have "unowned demo_unowned x" for x
    by (simp add: unowned_def demo_unowned_def demo_engine_def demo_ownership_def demo_guard_def registry_eval split: sum.splits)
  ultimately have "ee_rest (w_ext (snd (demo_start demo_unowned 4 (demo_engine_world demo_db)))) = 0"
    using unowned_engine_writes_nothing [OF E, of "demo_at 4" "demo_engine_world demo_db"]
    by (simp add: demo_start_def demo_engine_world_def)
  with demo_started_once show ?thesis by auto
qed

end
