(* ===== verification/Card_Png.thy ===== *)
theory Card_Png
  imports Json_Value Bridge_Errors
begin

text \<open>
  \<^verbatim>\<open>src/modules/characters/card_png.rs\<close>: character cards in JSON files and in the text chunks of PNG
  files. A PNG file is its signature followed by chunks: a length, a type, the data and a
  checksum. CRC-32, Base64, SHA-256 and the JSON printer and parser are the functions of a
  record; what the round trip relies on is stated about them where it is used.
\<close>

section \<open>Cards\<close>

definition PNG_SIG :: string where
  "PNG_SIG = map char_of [137 :: nat, 80, 78, 71, 13, 10, 26, 10]"

definition MAX_PNG_BYTES :: nat where
  "MAX_PNG_BYTES = 16 * 1024 * 1024"

definition MAX_JSON_BYTES :: nat where
  "MAX_JSON_BYTES = 2 * 1024 * 1024"

record parsed_card =
  pc_source_format :: string
  pc_spec :: "string option"
  pc_spec_version :: "string option"
  pc_raw :: json
  pc_checksum :: string
  pc_warnings :: "string list"

text \<open>A parser or printer that fails says why.\<close>

record codecs =
  crc32 :: "string \<Rightarrow> u32"
  b64_encode :: "string \<Rightarrow> string"
  b64_decode :: "string \<Rightarrow> string option"
  json_from_slice :: "string \<Rightarrow> string + json"
  json_to_vec :: "json \<Rightarrow> string + string"
  sha_hex :: "string \<Rightarrow> string"

definition has_character_book :: "json \<Rightarrow> bool" where
  "has_character_book raw \<longleftrightarrow> Option.bind (json_get raw ''data'') (\<lambda>d. json_get d ''character_book'') \<noteq> None"

definition is_v3 :: "string option \<Rightarrow> string option \<Rightarrow> bool" where
  "is_v3 sp ver \<longleftrightarrow>
     sp = Some ''chara_card_v3'' \<or> (case ver of Some v \<Rightarrow> starts_with v ''3'' | None \<Rightarrow> False)"

definition parsed_from_value :: "codecs \<Rightarrow> json \<Rightarrow> string \<Rightarrow> string list \<Rightarrow> parsed_card" where
  "parsed_from_value C raw fmt ws =
     (let sp = get_str raw ''spec''; ver = get_str raw ''spec_version'' in
      \<lparr> pc_source_format = fmt, pc_spec = sp, pc_spec_version = ver, pc_raw = raw,
        pc_checksum = sha_hex C (case json_to_vec C raw of Inr s \<Rightarrow> s | Inl _ \<Rightarrow> []),
        pc_warnings = ws @
          (if \<not> is_v3 sp ver \<and> has_character_book raw
           then [''character_book is stored but not executed by legacy_bridge_v1''] else []) \<rparr>)"

definition parse_json_card :: "codecs \<Rightarrow> string \<Rightarrow> string \<Rightarrow> parsed_card app_result" where
  "parse_json_card C bytes fmt =
     (if length bytes > MAX_JSON_BYTES
      then Inl (bad_request ''CARD_TOO_LARGE'' ''character JSON exceeds size limit'')
      else
        (case json_from_slice C bytes of
           Inl err \<Rightarrow> Inl (bad_request ''CARD_JSON_INVALID'' (''invalid card JSON: '' @ err))
         | Inr raw \<Rightarrow> Inr (parsed_from_value C raw fmt [])))"

section \<open>Chunks\<close>

text \<open>\<^verbatim>\<open>u32::from_be_bytes\<close> and \<^verbatim>\<open>std::str::from_utf8(..).unwrap_or("")\<close>.\<close>

definition from_be :: "string \<Rightarrow> nat" where
  "from_be bs = foldl (\<lambda>n b. n * 256 + byte b) 0 bs"

definition utf8_or_empty :: "string \<Rightarrow> string" where
  "utf8_or_empty s = (if utf8_valid s then s else [])"

definition split_text_chunk :: "string \<Rightarrow> (string \<times> string) option" where
  "split_text_chunk bs =
     (case split_once (CHR 0x00) bs of
        Some (k, t) \<Rightarrow> if utf8_valid k \<and> utf8_valid t then Some (k, t) else None
      | None \<Rightarrow> None)"

definition decode_card_text :: "codecs \<Rightarrow> string \<Rightarrow> json app_result" where
  "decode_card_text C t =
     (case b64_decode C (trim t) of
        None \<Rightarrow> Inl (bad_request ''PNG_CARD_B64'' ''PNG card metadata is not valid Base64'')
      | Some decoded \<Rightarrow>
          if length decoded > MAX_JSON_BYTES
          then Inl (bad_request ''CARD_TOO_LARGE'' ''decoded card JSON exceeds size limit'')
          else
            (case json_from_slice C decoded of
               Inl err \<Rightarrow> Inl (bad_request ''PNG_CARD_JSON'' (''PNG card JSON invalid: '' @ err))
             | Inr v \<Rightarrow> Inr v))"

text \<open>The loop of \<^verbatim>\<open>parse_png_card\<close> on the bytes not yet read.\<close>

function parse_chunks ::
    "codecs \<Rightarrow> json option \<Rightarrow> json option \<Rightarrow> string \<Rightarrow> (json option \<times> json option) app_result" where
  "parse_chunks C chara ccv3 bs =
     (if length bs < 4 then Inr (chara, ccv3)
      else
        let len = from_be (take 4 bs); bs1 = drop 4 bs in
        if length bs1 < 4 then Inl (bad_request ''PNG_INVALID'' ''truncated PNG chunk type'')
        else if len > MAX_JSON_BYTES then Inl (bad_request ''PNG_CHUNK_TOO_LARGE'' ''PNG text chunk too large'')
        else
          let ty = take 4 bs1; bs2 = drop 4 bs1 in
          if length bs2 < len then Inl (bad_request ''PNG_INVALID'' ''truncated PNG chunk data'')
          else
            let contents = take len bs2; bs3 = drop len bs2 in
            if length bs3 < 4 then Inl (bad_request ''PNG_INVALID'' ''truncated PNG CRC'')
            else if from_be (take 4 bs3) \<noteq> unat (crc32 C (ty @ contents))
            then Inl (bad_request ''PNG_CRC_MISMATCH'' ''PNG chunk CRC mismatch'')
            else if utf8_or_empty ty = ''IEND'' then Inr (chara, ccv3)
            else
              (case if utf8_or_empty ty = ''tEXt'' then split_text_chunk contents else None of
                 None \<Rightarrow> parse_chunks C chara ccv3 (drop 4 bs3)
               | Some (keyword, t) \<Rightarrow>
                   if keyword = ''ccv3''
                   then (case decode_card_text C t of
                           Inl e \<Rightarrow> Inl e | Inr v \<Rightarrow> parse_chunks C chara (Some v) (drop 4 bs3))
                   else if keyword = ''chara''
                   then (case decode_card_text C t of
                           Inl e \<Rightarrow> Inl e | Inr v \<Rightarrow> parse_chunks C (Some v) ccv3 (drop 4 bs3))
                   else parse_chunks C chara ccv3 (drop 4 bs3)))"
  by pat_completeness auto
termination
  by (relation "measure (\<lambda>(C, chara, ccv3, bs). length bs)") auto

declare parse_chunks.simps [simp del]

definition parse_png_card :: "codecs \<Rightarrow> string \<Rightarrow> parsed_card app_result" where
  "parse_png_card C bytes =
     (if \<not> starts_with bytes PNG_SIG then Inl (bad_request ''PNG_INVALID'' ''file is not a PNG'')
      else
        bind_r (parse_chunks C None None (drop (length PNG_SIG) bytes)) (\<lambda>(chara, ccv3).
          case ccv3 of
            Some raw \<Rightarrow> Inr (parsed_from_value C raw ''png'' [])
          | None \<Rightarrow>
              (case chara of
                 Some raw \<Rightarrow> Inr (parsed_from_value C raw ''png'' [])
               | None \<Rightarrow> Inl (bad_request ''PNG_CARD_MISSING'' ''PNG does not contain ccv3 or chara metadata''))))"

definition parse_character_bytes :: "codecs \<Rightarrow> string \<Rightarrow> string \<Rightarrow> parsed_card app_result" where
  "parse_character_bytes C bytes filename =
     (if length bytes > MAX_PNG_BYTES
      then Inl (bad_request ''CARD_TOO_LARGE'' ''character file exceeds size limit'')
      else if ends_with (to_ascii_lowercase filename) ''.png'' \<or> starts_with bytes PNG_SIG
      then parse_png_card C bytes
      else parse_json_card C bytes ''json'')"

section \<open>Export\<close>

text \<open>\<^verbatim>\<open>(data.len() as u32).to_be_bytes()\<close> keeps the low four bytes of the length.\<close>

definition write_text_chunk :: "codecs \<Rightarrow> string \<Rightarrow> string \<Rightarrow> string \<Rightarrow> string" where
  "write_text_chunk C out keyword t =
     (let contents = keyword @ [CHR 0x00] @ t in
      out @ be_bytes 4 (length contents) @ ''tEXt'' @ contents @ be_bytes 4 (unat (crc32 C (''tEXt'' @ contents))))"

function export_chunks :: "codecs \<Rightarrow> string \<Rightarrow> string \<Rightarrow> string \<Rightarrow> string app_result" where
  "export_chunks C encoded out bs =
     (if length bs < 8 then Inr out
      else
        let header = take 8 bs; len = from_be (take 4 header); ty = drop 4 header; bs1 = drop 8 bs in
        if length bs1 < len then Inl (bad_request ''PNG_INVALID'' ''truncated PNG while exporting'')
        else
          let contents = take len bs1; bs2 = drop len bs1 in
          if length bs2 < 4 then Inl (bad_request ''PNG_INVALID'' ''truncated PNG CRC while exporting'')
          else
            let crc = take 4 bs2; bs3 = drop 4 bs2; kind = utf8_or_empty ty in
            if kind = ''tEXt'' \<and>
               (case split_text_chunk contents of Some (keyword, _) \<Rightarrow> keyword \<in> {''ccv3'', ''chara''} | None \<Rightarrow> False)
            then export_chunks C encoded out bs3
            else
              let out1 = (if kind = ''IEND''
                    then write_text_chunk C (write_text_chunk C out ''chara'' encoded) ''ccv3'' encoded else out);
                  out2 = out1 @ header @ contents @ crc in
              if kind = ''IEND'' then Inr out2 else export_chunks C encoded out2 bs3)"
  by pat_completeness auto
termination
  by (relation "measure (\<lambda>(C, encoded, out, bs). length bs)") auto

declare export_chunks.simps [simp del]

definition encode_png_with_card :: "codecs \<Rightarrow> string \<Rightarrow> json \<Rightarrow> string app_result" where
  "encode_png_with_card C original raw =
     (if \<not> starts_with original PNG_SIG
      then Inl (bad_request ''PNG_INVALID'' ''cannot export non-PNG asset as PNG'')
      else
        (case json_to_vec C raw of
           Inl err \<Rightarrow> Inl (internal (''serialize card: '' @ err))
         | Inr js \<Rightarrow> export_chunks C (b64_encode C js) PNG_SIG (drop (length PNG_SIG) original)))"

section \<open>Files as lists of chunks\<close>

definition chunk :: "codecs \<Rightarrow> string \<times> string \<Rightarrow> string" where
  "chunk C = (\<lambda>(ty, contents).
     be_bytes 4 (length contents) @ ty @ contents @ be_bytes 4 (unat (crc32 C (ty @ contents))))"

definition chunk_fits :: "string \<times> string \<Rightarrow> bool" where
  "chunk_fits = (\<lambda>(ty, contents). length ty = 4 \<and> length contents \<le> MAX_JSON_BYTES)"

definition card_chunk :: "string \<times> string \<Rightarrow> bool" where
  "card_chunk = (\<lambda>(ty, contents).
     ty = ''tEXt'' \<and> (case split_text_chunk contents of Some (k, _) \<Rightarrow> k \<in> {''ccv3'', ''chara''} | None \<Rightarrow> False))"

lemma from_be_append: "from_be (a @ [b]) = from_be a * 256 + byte b"
  by (simp add: from_be_def)

lemma from_be_bytes: "n < 256 ^ k \<Longrightarrow> from_be (be_bytes k n) = n"
proof (induction k arbitrary: n)
  case (Suc k)
  then have "n div 256 < 256 ^ k" by (simp add: less_mult_imp_div_less mult.commute)
  with Suc.IH have "from_be (be_bytes k (n div 256)) = n div 256" .
  then show ?case by (simp add: from_be_append)
qed (simp add: from_be_def)

lemma from_be_word: "from_be (be_bytes 4 (unat (c :: u32))) = unat c"
  using unsigned_less [of c, where ?'a = nat] by (intro from_be_bytes) simp

lemma utf8_or_empty_ascii: "utf8_or_empty s = ''IEND'' \<longleftrightarrow> s = ''IEND''" "utf8_or_empty s = ''tEXt'' \<longleftrightarrow> s = ''tEXt''"
  by (auto simp: utf8_or_empty_def utf8_valid_def)

lemma small_length: "length s \<le> MAX_JSON_BYTES \<Longrightarrow> from_be (be_bytes 4 (length s)) = length s"
  by (rule from_be_bytes) (simp add: MAX_JSON_BYTES_def)

lemma parse_chunk:
  assumes "chunk_fits (ty, contents)"
  shows "parse_chunks C chara ccv3 (chunk C (ty, contents) @ bs) =
    (if ty = ''IEND'' then Inr (chara, ccv3)
     else case if ty = ''tEXt'' then split_text_chunk contents else None of
       None \<Rightarrow> parse_chunks C chara ccv3 bs
     | Some (k, t) \<Rightarrow>
         if k = ''ccv3'' then (case decode_card_text C t of Inl e \<Rightarrow> Inl e | Inr v \<Rightarrow> parse_chunks C chara (Some v) bs)
         else if k = ''chara'' then (case decode_card_text C t of Inl e \<Rightarrow> Inl e | Inr v \<Rightarrow> parse_chunks C (Some v) ccv3 bs)
         else parse_chunks C chara ccv3 bs)"
  using assms
  by (subst parse_chunks.simps)
     (auto simp: chunk_def chunk_fits_def Let_def small_length from_be_word utf8_or_empty_ascii
        simp del: be_bytes.simps split: option.splits sum.splits)

lemma write_text_chunk_eq: "write_text_chunk C out k t = out @ chunk C (''tEXt'', k @ [CHR 0x00] @ t)"
  by (simp add: write_text_chunk_def chunk_def Let_def del: be_bytes.simps)

lemma export_chunk:
  assumes "chunk_fits (ty, contents)"
  shows "export_chunks C enc out (chunk C (ty, contents) @ bs) =
    (if card_chunk (ty, contents) then export_chunks C enc out bs
     else if ty = ''IEND''
     then Inr (out @ chunk C (''tEXt'', ''chara'' @ [CHR 0x00] @ enc) @ chunk C (''tEXt'', ''ccv3'' @ [CHR 0x00] @ enc)
            @ chunk C (ty, contents))
     else export_chunks C enc (out @ chunk C (ty, contents)) bs)"
  using assms
  by (subst export_chunks.simps)
     (simp add: chunk_def chunk_fits_def card_chunk_def Let_def small_length utf8_or_empty_ascii write_text_chunk_eq
        del: be_bytes.simps)

lemma export_run:
  assumes "list_all chunk_fits cs" "''IEND'' \<notin> fst ` set cs" "chunk_fits (''IEND'', d)"
  shows "export_chunks C enc out (concat (map (chunk C) cs) @ chunk C (''IEND'', d) @ trailing) =
    Inr (out @ concat (map (chunk C) (filter (\<lambda>c. \<not> card_chunk c) cs))
      @ chunk C (''tEXt'', ''chara'' @ [CHR 0x00] @ enc) @ chunk C (''tEXt'', ''ccv3'' @ [CHR 0x00] @ enc)
      @ chunk C (''IEND'', d))"
  using assms(1,2)
proof (induction cs arbitrary: out)
  case Nil
  show ?case using assms(3) by (simp add: export_chunk card_chunk_def)
next
  case (Cons c cs)
  obtain ty contents where c: "c = (ty, contents)" by force
  with Cons show ?case by (auto simp: export_chunk)
qed

lemma parse_run:
  assumes "list_all chunk_fits cs" "''IEND'' \<notin> fst ` set cs" "list_all (\<lambda>c. \<not> card_chunk c) cs"
  shows "parse_chunks C chara ccv3 (concat (map (chunk C) cs) @ bs) = parse_chunks C chara ccv3 bs"
  using assms
proof (induction cs)
  case (Cons c cs)
  obtain ty contents where c: "c = (ty, contents)" by force
  with Cons show ?case by (auto simp: parse_chunk card_chunk_def split: option.splits prod.splits)
qed simp

section \<open>Base64 text\<close>

definition is_base64_char :: "char \<Rightarrow> bool" where
  "is_base64_char c \<longleftrightarrow> is_ascii_alphanumeric c \<or> c \<in> set ''+/=''"

lemma base64_graphic: "is_base64_char c \<Longrightarrow> 32 < byte c \<and> byte c < 128"
  by (auto simp: is_base64_char_def str_defs)

lemma utf8_valid_ascii: "list_all (\<lambda>c. byte c < 128) s \<Longrightarrow> utf8_valid s"
  by (induction s) (auto simp: utf8_valid_def)

lemma ws_len_graphic: "32 < byte c \<Longrightarrow> byte c < 128 \<Longrightarrow> ws_len (c # s) = 0"
  by (cases s rule: remdups_adj.cases) (auto simp: ws_len_def)

lemma trim_graphic:
  assumes "list_all (\<lambda>c. 32 < byte c \<and> byte c < 128) s"
  shows "trim s = s"
proof -
  have zero: "ws_len t = 0" if "t = [] \<or> hd t \<in> set s" for t
    using that assms by (cases t) (auto simp: ws_len_graphic list_all_iff)
  have "ws_len (drop i s) = 0" for i
    using hd_drop_conv_nth [of i s] by (intro zero) (cases "i < length s"; simp)
  then have "ws_suffix_len s = 0" by (simp add: ws_suffix_len_def Let_def)
  moreover have "ws_len s = 0" by (rule zero) (cases s; simp)
  ultimately show ?thesis by (simp add: trim_def trim_start.simps [of s] trim_end.simps [of s])
qed

lemma split_card_text:
  assumes "list_all is_base64_char t" "k \<in> {''chara'', ''ccv3''}"
  shows "split_text_chunk (k @ [CHR 0x00] @ t) = Some (k, t)"
proof -
  have "utf8_valid t" using assms(1) base64_graphic by (intro utf8_valid_ascii) (auto simp: list_all_iff)
  moreover have "utf8_valid ''chara''" "utf8_valid ''ccv3''" by (simp_all add: utf8_valid_def)
  ultimately show ?thesis using assms(2) by (auto simp: split_text_chunk_def)
qed

section \<open>Exported cards\<close>

text \<open>What a PNG that can be read consists of: chunks of legal size, the last one \<^verbatim>\<open>IEND\<close>, and bytes
  after it that nobody reads.\<close>

definition png_file :: "codecs \<Rightarrow> (string \<times> string) list \<Rightarrow> string \<Rightarrow> string \<Rightarrow> string" where
  "png_file C cs d trailing = PNG_SIG @ concat (map (chunk C) cs) @ chunk C (''IEND'', d) @ trailing"

definition png_ok :: "(string \<times> string) list \<Rightarrow> string \<Rightarrow> bool" where
  "png_ok cs d \<longleftrightarrow> list_all chunk_fits cs \<and> ''IEND'' \<notin> fst ` set cs \<and> chunk_fits (''IEND'', d)"

definition card_chunks :: "string \<Rightarrow> (string \<times> string) list" where
  "card_chunks enc = [(''tEXt'', ''chara'' @ [CHR 0x00] @ enc), (''tEXt'', ''ccv3'' @ [CHR 0x00] @ enc)]"

lemma starts_PNG_SIG: "starts_with (PNG_SIG @ s) PNG_SIG"
  by (simp add: starts_with_iff)

lemma export_png:
  assumes "png_ok cs d" "json_to_vec C raw = Inr js"
  shows "encode_png_with_card C (png_file C cs d trailing) raw =
    Inr (png_file C (filter (\<lambda>c. \<not> card_chunk c) cs @ card_chunks (b64_encode C js)) d [])"
  using assms export_run [of cs d C "b64_encode C js" PNG_SIG trailing]
  by (simp add: encode_png_with_card_def png_file_def png_ok_def starts_PNG_SIG card_chunks_def)

lemma parse_before_cards:
  assumes "png_ok cs d"
  shows "parse_png_card C (png_file C (filter (\<lambda>c. \<not> card_chunk c) cs @ ks) d []) =
    parse_png_card C (png_file C ks d [])"
proof -
  have "list_all chunk_fits (filter (\<lambda>c. \<not> card_chunk c) cs)" "''IEND'' \<notin> fst ` set (filter (\<lambda>c. \<not> card_chunk c) cs)"
    "list_all (\<lambda>c. \<not> card_chunk c) (filter (\<lambda>c. \<not> card_chunk c) cs)"
    using assms by (auto simp: png_ok_def list_all_iff)
  from parse_run [OF this] show ?thesis by (simp add: parse_png_card_def png_file_def starts_PNG_SIG)
qed

text \<open>C23. An exported card reads back: exporting a card into any well-formed PNG of readable chunks
  succeeds and replaces the cards the file had, keeping every other chunk in order, and the
  import of the result returns exactly the exported card, provided that Base64 and JSON decode
  what they encoded and that the encoded card fits into a chunk.\<close>

theorem exported_card_reads_back:
  assumes "png_ok cs d" "json_to_vec C raw = Inr js" "json_from_slice C js = Inr raw" "length js \<le> MAX_JSON_BYTES"
    and "b64_decode C (b64_encode C js) = Some js" "list_all is_base64_char (b64_encode C js)"
    and "length (b64_encode C js) + 6 \<le> MAX_JSON_BYTES"
  shows "\<exists>out. encode_png_with_card C (png_file C cs d trailing) raw = Inr out
    \<and> out = png_file C (filter (\<lambda>c. \<not> card_chunk c) cs @ card_chunks (b64_encode C js)) d []
    \<and> parse_png_card C out = Inr (parsed_from_value C raw ''png'' [])"
proof -
  let ?enc = "b64_encode C js"
  have "trim ?enc = ?enc" using assms(6) base64_graphic by (intro trim_graphic) (auto simp: list_all_iff)
  then have decode: "decode_card_text C ?enc = Inr raw" using assms(3-5) by (simp add: decode_card_text_def)
  have "chunk_fits c" if "c \<in> set (card_chunks ?enc)" for c
    using that assms(7) by (auto simp: card_chunks_def chunk_fits_def)
  then have "parse_png_card C (png_file C (card_chunks ?enc) d []) = Inr (parsed_from_value C raw ''png'' [])"
    using assms(1) decode split_card_text [OF assms(6), of "''chara''"] split_card_text [OF assms(6), of "''ccv3''"]
    by (simp add: parse_png_card_def png_file_def starts_PNG_SIG card_chunks_def parse_chunk png_ok_def bind_r_def
        parse_chunk [of "''IEND''" d C _ _ "[]", simplified])
  then show ?thesis
    using export_png [OF assms(1,2)] parse_before_cards [OF assms(1)] by simp
qed

definition demo_codecs :: "string \<Rightarrow> codecs" where
  "demo_codecs enc = \<lparr> crc32 = (\<lambda>_. 7), b64_encode = (\<lambda>_. enc), b64_decode = (\<lambda>_. Some ''{}''),
     json_from_slice = (\<lambda>_. Inr (JObject [])), json_to_vec = (\<lambda>_. Inr ''{}''), sha_hex = (\<lambda>_. ''sha'') \<rparr>"

theorem exported_card_reads_back_witness:
  "\<exists>out. encode_png_with_card (demo_codecs ''e30='') (png_file (demo_codecs ''e30='') [(''IHDR'', ''size''),
        (''tEXt'', ''chara'' @ [CHR 0x00] @ ''old'')] [] ''x'') (JObject []) = Inr out
     \<and> parse_png_card (demo_codecs ''e30='') out = Inr (parsed_from_value (demo_codecs ''e30='') (JObject []) ''png'' [])"
proof -
  have ok: "png_ok [(''IHDR'', ''size''), (''tEXt'', ''chara'' @ [CHR 0x00] @ ''old'')] []"
    by (simp add: png_ok_def chunk_fits_def MAX_JSON_BYTES_def)
  have "list_all is_base64_char ''e30=''" by code_simp
  then show ?thesis
    using exported_card_reads_back [OF ok, of "demo_codecs ''e30=''" "JObject []" "''{}''" "''x''"]
    by (auto simp: demo_codecs_def MAX_JSON_BYTES_def)
qed

text \<open>A large card is exported but cannot be imported again: when the Base64 text of a card does not
  fit into a chunk of \<^verbatim>\<open>MAX_JSON_BYTES\<close> together with its keyword, which happens for every card whose
  JSON is larger than about three quarters of the limit the import of JSON accepts, the export
  succeeds and every import of the exported file is rejected as having too large a chunk.\<close>

theorem large_card_export_unreadable:
  assumes "png_ok cs d" "json_to_vec C raw = Inr js"
    and "MAX_JSON_BYTES < length (b64_encode C js) + 6" "length (b64_encode C js) + 6 < 2 ^ 32"
  shows "\<exists>out. encode_png_with_card C (png_file C cs d trailing) raw = Inr out
    \<and> parse_png_card C out = Inl (bad_request ''PNG_CHUNK_TOO_LARGE'' ''PNG text chunk too large'')"
proof -
  let ?c = "''chara'' @ [CHR 0x00] @ b64_encode C js"
  have len: "from_be (be_bytes 4 (length ?c)) = length ?c" "length ?c > MAX_JSON_BYTES"
    using assms(3,4) by (auto intro: from_be_bytes)
  have "parse_chunks C a b (chunk C (''tEXt'', ?c) @ bs)
      = Inl (bad_request ''PNG_CHUNK_TOO_LARGE'' ''PNG text chunk too large'')" for a b bs
    using len by (subst parse_chunks.simps) (simp add: chunk_def Let_def del: be_bytes.simps)
  then have "parse_png_card C (png_file C (card_chunks (b64_encode C js)) d [])
      = Inl (bad_request ''PNG_CHUNK_TOO_LARGE'' ''PNG text chunk too large'')"
    by (simp add: parse_png_card_def png_file_def starts_PNG_SIG card_chunks_def bind_r_def)
  then show ?thesis
    using export_png [OF assms(1,2)] parse_before_cards [OF assms(1)] by simp
qed

theorem large_card_export_unreadable_witness:
  "\<exists>out. encode_png_with_card (demo_codecs (replicate 2097152 (CHR ''A'')))
        (png_file (demo_codecs (replicate 2097152 (CHR ''A''))) [] [] []) (JObject []) = Inr out
     \<and> parse_png_card (demo_codecs (replicate 2097152 (CHR ''A''))) out
       = Inl (bad_request ''PNG_CHUNK_TOO_LARGE'' ''PNG text chunk too large'')"
  by (rule large_card_export_unreadable [where js = "''{}''"])
     (simp_all add: demo_codecs_def png_ok_def chunk_fits_def MAX_JSON_BYTES_def)

end
