(* ===== verification/Delivery_Queue.thy ===== *)
theory Delivery_Queue
  imports Redaction "HOL-Library.Multiset"
begin

text \<open>
  \<^verbatim>\<open>src/modules/telegram/delivery_queue.rs\<close>, the rate-limit state and the pending deliveries all
  Telegram senders share, and the render throttle of \<^verbatim>\<open>src/modules/telegram/stream.rs\<close>. Instants and
  durations are natural numbers of nanoseconds; every reading of the clock is an argument. The
  two critical sections of \<^verbatim>\<open>take_due\<close> are separate operations, so that other tasks may run between
  them.
\<close>

section \<open>State\<close>

definition nanos :: "nat \<Rightarrow> nat" where
  "nanos secs = secs * 1000000000"

record delivery_key =
  dk_bot_id :: string
  dk_chat_id :: "i64 option"

record pending_delivery =
  pd_delivery_id :: string
  pd_bot_id :: string
  pd_chat_id :: i64

record delivery_coordinator =
  dc_states :: "delivery_key \<Rightarrow> nat option"
  dc_pending :: "(string \<times> pending_delivery) list"
  dc_max_retry_after :: nat

definition delivery_coordinator_new :: "nat \<Rightarrow> delivery_coordinator" where
  "delivery_coordinator_new m =
     \<lparr> dc_states = (\<lambda>_. None), dc_pending = [], dc_max_retry_after = max m (nanos 1) \<rparr>"

definition delivery_coordinator_default :: delivery_coordinator where
  "delivery_coordinator_default = delivery_coordinator_new (nanos (60 * 60))"

definition bot_key :: "string \<Rightarrow> delivery_key" where
  "bot_key b = \<lparr> dk_bot_id = b, dk_chat_id = None \<rparr>"

definition chat_key :: "string \<Rightarrow> i64 \<Rightarrow> delivery_key" where
  "chat_key b c = \<lparr> dk_bot_id = b, dk_chat_id = Some c \<rparr>"

section \<open>Cooldowns\<close>

definition until_or :: "nat \<Rightarrow> delivery_key \<Rightarrow> delivery_coordinator \<Rightarrow> nat" where
  "until_or now k D = (case dc_states D k of Some u \<Rightarrow> u | None \<Rightarrow> now)"

definition wait_time :: "nat \<Rightarrow> string \<Rightarrow> i64 \<Rightarrow> delivery_coordinator \<Rightarrow> nat" where
  "wait_time now b c D = max (until_or now (bot_key b) D) (until_or now (chat_key b c) D) - now"

text \<open>\<^verbatim>\<open>try_lock\<close> fails while another task holds the states.\<close>

definition cooldown_remaining :: "bool \<Rightarrow> nat \<Rightarrow> string \<Rightarrow> i64 \<Rightarrow> delivery_coordinator \<Rightarrow> nat" where
  "cooldown_remaining locked now b c D = (if locked then dc_max_retry_after D else wait_time now b c D)"

definition is_cooling_down :: "bool \<Rightarrow> nat \<Rightarrow> string \<Rightarrow> i64 \<Rightarrow> delivery_coordinator \<Rightarrow> bool" where
  "is_cooling_down locked now b c D \<longleftrightarrow> cooldown_remaining locked now b c D > 0"

text \<open>The loop of \<^verbatim>\<open>wait\<close>: \<open>obs n\<close> is the clock and the state its \<open>n\<close>-th iteration sees. The result is the
  iteration that returns.\<close>

partial_function (option) wait_loop ::
    "(nat \<Rightarrow> nat \<times> delivery_coordinator) \<Rightarrow> string \<Rightarrow> i64 \<Rightarrow> nat \<Rightarrow> nat option" where
  "wait_loop obs b c n =
     (case obs n of (now, D) \<Rightarrow> if wait_time now b c D = 0 then Some n else wait_loop obs b c (Suc n))"

text \<open>The clock readings of \<^verbatim>\<open>set_cooldown_secs\<close>: for the deadline, for the fallback when the addition
  overflows, for the two inserted entries, and for each entry that is tested at the end.\<close>

record cooldown_clock =
  ck_until :: nat
  ck_fallback :: nat
  ck_insert :: "delivery_key \<Rightarrow> nat"
  ck_retain :: "delivery_key \<Rightarrow> nat"

definition cooldown_deadline :: "nat \<Rightarrow> cooldown_clock \<Rightarrow> nat \<Rightarrow> delivery_coordinator \<Rightarrow> nat" where
  "cooldown_deadline instant_max ck secs D =
     (if ck_until ck + nanos secs \<le> instant_max then ck_until ck + nanos secs
      else ck_fallback ck + dc_max_retry_after D)"

definition extend_cooldown ::
    "nat \<Rightarrow> cooldown_clock \<Rightarrow> delivery_key \<Rightarrow> (delivery_key \<Rightarrow> nat option) \<Rightarrow> delivery_key \<Rightarrow> nat option" where
  "extend_cooldown deadline ck k st =
     (let entry = (case st k of Some u \<Rightarrow> u | None \<Rightarrow> ck_insert ck k) in
      st(k := Some (if deadline > entry then deadline else entry)))"

definition set_cooldown_secs ::
    "nat \<Rightarrow> cooldown_clock \<Rightarrow> string \<Rightarrow> i64 \<Rightarrow> nat \<Rightarrow> delivery_coordinator \<Rightarrow> delivery_coordinator" where
  "set_cooldown_secs instant_max ck b c secs D =
     (let deadline = cooldown_deadline instant_max ck secs D;
          st = extend_cooldown deadline ck (chat_key b c) (extend_cooldown deadline ck (bot_key b) (dc_states D)) in
      D\<lparr>dc_states := (\<lambda>k. case st k of
          Some u \<Rightarrow> if u > ck_retain ck k then Some u else None
        | None \<Rightarrow> None)\<rparr>)"

section \<open>Pending deliveries\<close>

definition remove_pending :: "string \<Rightarrow> (string \<times> pending_delivery) list \<Rightarrow> (string \<times> pending_delivery) list" where
  "remove_pending i ps = filter (\<lambda>(j, _). j \<noteq> i) ps"

definition enqueue_pending :: "string \<Rightarrow> string \<Rightarrow> i64 \<Rightarrow> delivery_coordinator \<Rightarrow> delivery_coordinator" where
  "enqueue_pending i b c D =
     D\<lparr>dc_pending := (i, \<lparr> pd_delivery_id = i, pd_bot_id = b, pd_chat_id = c \<rparr>) # remove_pending i (dc_pending D)\<rparr>"

definition forget_pending :: "string \<Rightarrow> delivery_coordinator \<Rightarrow> delivery_coordinator" where
  "forget_pending i D = D\<lparr>dc_pending := remove_pending i (dc_pending D)\<rparr>"

text \<open>The first critical section of \<^verbatim>\<open>take_due\<close> and \<^verbatim>\<open>take_due_for\<close>: the map is iterated in an order of its
  own, \<open>iter\<close>, and \<open>probe\<close> gives for each item whether the states were locked and the time.\<close>

definition find_due ::
    "((string \<times> pending_delivery) list \<Rightarrow> (string \<times> pending_delivery) list)
      \<Rightarrow> (pending_delivery \<Rightarrow> bool \<times> nat) \<Rightarrow> delivery_coordinator \<Rightarrow> pending_delivery option" where
  "find_due iter probe D =
     find (\<lambda>p. case probe p of (locked, now) \<Rightarrow> cooldown_remaining locked now (pd_bot_id p) (pd_chat_id p) D = 0)
       (map snd (iter (dc_pending D)))"

definition find_due_for ::
    "((string \<times> pending_delivery) list \<Rightarrow> (string \<times> pending_delivery) list)
      \<Rightarrow> (pending_delivery \<Rightarrow> bool \<times> nat) \<Rightarrow> string \<Rightarrow> i64 \<Rightarrow> delivery_coordinator \<Rightarrow> pending_delivery option" where
  "find_due_for iter probe b c D =
     find (\<lambda>p. pd_bot_id p = b \<and> pd_chat_id p = c
         \<and> (case probe p of (locked, now) \<Rightarrow> cooldown_remaining locked now (pd_bot_id p) (pd_chat_id p) D = 0))
       (map snd (iter (dc_pending D)))"

text \<open>The second one: \<^verbatim>\<open>HashMap::remove\<close> returns what the map holds now.\<close>

definition take_found :: "string \<Rightarrow> delivery_coordinator \<Rightarrow> pending_delivery option \<times> delivery_coordinator" where
  "take_found i D = (map_of (dc_pending D) i, forget_pending i D)"

definition take_due ::
    "((string \<times> pending_delivery) list \<Rightarrow> (string \<times> pending_delivery) list)
      \<Rightarrow> (pending_delivery \<Rightarrow> bool \<times> nat) \<Rightarrow> delivery_coordinator
      \<Rightarrow> pending_delivery option \<times> delivery_coordinator" where
  "take_due iter probe D =
     (case find_due iter probe D of None \<Rightarrow> (None, D) | Some p \<Rightarrow> take_found (pd_delivery_id p) D)"

text \<open>The loop of \<^verbatim>\<open>wait_for_pending\<close>, which sleeps or is notified between two attempts.\<close>

partial_function (option) wait_for_pending ::
    "(nat \<Rightarrow> ((string \<times> pending_delivery) list \<Rightarrow> (string \<times> pending_delivery) list)
        \<times> (pending_delivery \<Rightarrow> bool \<times> nat) \<times> delivery_coordinator)
      \<Rightarrow> nat \<Rightarrow> (pending_delivery \<times> delivery_coordinator) option" where
  "wait_for_pending obs n =
     (case obs n of (iter, probe, D) \<Rightarrow>
        (case take_due iter probe D of
           (Some p, D') \<Rightarrow> Some (p, D')
         | (None, _) \<Rightarrow> wait_for_pending obs (Suc n)))"

section \<open>Render throttle\<close>

record stream_policy =
  min_interval_ms :: nat
  min_delta_chars :: nat
  first_render_chars :: nat
  chunk_size :: nat

definition stream_policy_default :: stream_policy where
  "stream_policy_default =
     \<lparr> min_interval_ms = 5000, min_delta_chars = 700, first_render_chars = 300, chunk_size = 3200 \<rparr>"

record stream_state =
  last_rendered :: string
  last_render_at :: "nat option"
  last_committed_len :: nat

definition stream_state_new :: stream_state where
  "stream_state_new = \<lparr> last_rendered = [], last_render_at = None, last_committed_len = 0 \<rparr>"

definition stream_commit :: "string \<Rightarrow> nat \<Rightarrow> stream_state \<Rightarrow> stream_state" where
  "stream_commit t now s = s\<lparr> last_rendered := t, last_committed_len := char_count t, last_render_at := Some now \<rparr>"

definition too_early :: "string \<Rightarrow> stream_policy \<Rightarrow> nat \<Rightarrow> stream_state \<Rightarrow> bool" where
  "too_early t P now s \<longleftrightarrow>
     (case last_render_at s of
        Some l \<Rightarrow> (now - l) div 1000000 < min_interval_ms P
                  \<and> char_count t - last_committed_len s < min_delta_chars P
      | None \<Rightarrow> False)"

definition should_render :: "string \<Rightarrow> stream_policy \<Rightarrow> nat \<Rightarrow> stream_state \<Rightarrow> bool \<times> stream_state" where
  "should_render t P now s =
     (if t = [] \<or> t = last_rendered s then (False, s)
      else if last_committed_len s = 0 \<and> char_count t < first_render_chars P then (False, s)
      else if too_early t P now s then (False, s)
      else (True, stream_commit t now s))"

definition force_final :: "string \<Rightarrow> nat \<Rightarrow> stream_state \<Rightarrow> bool \<times> stream_state" where
  "force_final t now s =
     (if t = [] \<or> t = last_rendered s then (False, s) else (True, stream_commit t now s))"

section \<open>Cooldowns are respected\<close>

datatype delivery_op =
    Op_Cooldown cooldown_clock string i64 nat
  | Op_Enqueue string string i64
  | Op_Forget string
  | Op_Take string

primrec apply_delivery_op :: "nat \<Rightarrow> delivery_op \<Rightarrow> delivery_coordinator \<Rightarrow> delivery_coordinator" where
  "apply_delivery_op m (Op_Cooldown ck b c secs) D = set_cooldown_secs m ck b c secs D"
| "apply_delivery_op m (Op_Enqueue i b c) D = enqueue_pending i b c D"
| "apply_delivery_op m (Op_Forget i) D = forget_pending i D"
| "apply_delivery_op m (Op_Take i) D = snd (take_found i D)"

text \<open>Entries are tested for expiry no later than \<open>now\<close>.\<close>

primrec tested_by :: "nat \<Rightarrow> delivery_op \<Rightarrow> bool" where
  "tested_by now (Op_Cooldown ck b c secs) \<longleftrightarrow> (\<forall>k. ck_retain ck k \<le> now)"
| "tested_by now (Op_Enqueue i b c) \<longleftrightarrow> True"
| "tested_by now (Op_Forget i) \<longleftrightarrow> True"
| "tested_by now (Op_Take i) \<longleftrightarrow> True"

definition cooling_past :: "nat \<Rightarrow> delivery_key \<Rightarrow> delivery_coordinator \<Rightarrow> bool" where
  "cooling_past now k D \<longleftrightarrow> (\<exists>u > now. dc_states D k = Some u)"

lemma cooling_past_kept:
  assumes "cooling_past now k D" "tested_by now a"
  shows "cooling_past now k (apply_delivery_op m a D)"
proof (cases a)
  case (Op_Cooldown ck b c secs)
  from assms(1) obtain u where u: "u > now" "dc_states D k = Some u" by (auto simp: cooling_past_def)
  have step: "\<exists>v \<ge> x. extend_cooldown t ck j st k = Some v" if "st k = Some x" for t j st x
    using that by (cases "j = k") (auto simp: extend_cooldown_def Let_def)
  define t where "t = cooldown_deadline m ck secs D"
  obtain v where v: "v \<ge> u" "extend_cooldown t ck (bot_key b) (dc_states D) k = Some v" using step u(2) by blast
  obtain w where w: "w \<ge> v"
      "extend_cooldown t ck (chat_key b c) (extend_cooldown t ck (bot_key b) (dc_states D)) k = Some w"
    using step v(2) by blast
  have "ck_retain ck k \<le> now" using assms(2) Op_Cooldown by simp
  with u v w Op_Cooldown show ?thesis
    by (auto simp: cooling_past_def set_cooldown_secs_def Let_def t_def)
qed (use assms in \<open>auto simp: cooling_past_def enqueue_pending_def forget_pending_def take_found_def\<close>)

lemma cooling_past_run:
  "list_all (tested_by now) as \<Longrightarrow> cooling_past now k D \<Longrightarrow> cooling_past now k (fold (apply_delivery_op m) as D)"
  by (induction as arbitrary: D) (auto simp: cooling_past_kept)

lemma cooling_past_set:
  assumes "now < cooldown_deadline m ck secs D" "\<And>k. ck_retain ck k \<le> now"
  shows "cooling_past now (bot_key b) (set_cooldown_secs m ck b c secs D)"
proof -
  let ?d = "cooldown_deadline m ck secs D"
  have ne: "bot_key b \<noteq> chat_key b c" by (simp add: bot_key_def chat_key_def)
  have "\<exists>u \<ge> ?d. extend_cooldown ?d ck (bot_key b) (dc_states D) (bot_key b) = Some u"
    by (simp add: extend_cooldown_def Let_def not_less)
  then obtain u where u: "u \<ge> ?d" "extend_cooldown ?d ck (bot_key b) (dc_states D) (bot_key b) = Some u" by blast
  then have "u > now" "u > ck_retain ck (bot_key b)" using assms(1) assms(2) [of "bot_key b"] by simp_all
  then show ?thesis
    using u(2) ne by (auto simp: cooling_past_def set_cooldown_secs_def Let_def extend_cooldown_def)
qed

lemma cooling_past_remaining: "cooling_past now (bot_key b) D \<Longrightarrow> t \<le> now \<Longrightarrow> 0 < wait_time t b c D"
  by (auto simp: cooling_past_def wait_time_def until_or_def)

lemma max_retry_kept: "dc_max_retry_after (fold (apply_delivery_op m) as D) = dc_max_retry_after D"
proof (induction as arbitrary: D)
  case (Cons a as)
  then show ?case
    by (cases a) (simp_all add: set_cooldown_secs_def Let_def enqueue_pending_def forget_pending_def take_found_def)
qed simp

lemma find_due_remaining:
  "find_due iter probe D = Some p \<Longrightarrow> cooldown_remaining (fst (probe p)) (snd (probe p)) (pd_bot_id p) (pd_chat_id p) D = 0"
  by (auto simp: find_due_def find_Some_iff case_prod_unfold)

lemma find_due_for_remaining:
  "find_due_for iter probe b c D = Some p \<Longrightarrow>
     cooldown_remaining (fst (probe p)) (snd (probe p)) (pd_bot_id p) (pd_chat_id p) D = 0"
  by (auto simp: find_due_for_def find_Some_iff case_prod_unfold)

text \<open>C27. A server's rate limit is respected by every sender. Take a coordinator made by \<^verbatim>\<open>new\<close>, used by
  any operations, told by \<^verbatim>\<open>set_cooldown_secs\<close> that a bot has to wait, and then used by any cooldowns,
  deliveries, removals and takes of other tasks, all of whose clocks read at most \<open>now\<close> when they drop
  expired entries. As long as \<open>now\<close> is before the deadline (the requested seconds from the time of
  the call or, if the clock cannot represent that instant, the coordinator's largest wait), the bot counts
  as cooling down for every chat, a \<^verbatim>\<open>wait\<close> for any chat of it does not return, and neither the search
  of \<^verbatim>\<open>take_due\<close> nor that of \<^verbatim>\<open>take_due_for\<close> finds a delivery of the bot.\<close>

theorem cooldown_respected:
  assumes D: "D = fold (apply_delivery_op m) before (delivery_coordinator_new limit)"
    and limit: "now < cooldown_deadline m ck secs D" "\<And>k. ck_retain ck k \<le> now"
    and later: "list_all (tested_by now) as" "D' = fold (apply_delivery_op m) as (set_cooldown_secs m ck b c secs D)"
  shows "is_cooling_down locked now b c' D'
    \<and> (\<forall>t \<le> now. 0 < wait_time t b c' D')
    \<and> (\<forall>p. find_due iter probe D' = Some p \<longrightarrow> snd (probe p) \<le> now \<longrightarrow> pd_bot_id p \<noteq> b)
    \<and> (\<forall>p. find_due_for iter probe b c' D' = Some p \<longrightarrow> now < snd (probe p))"
proof -
  have cool: "cooling_past now (bot_key b) D'"
    unfolding later(2) by (intro cooling_past_run later(1) cooling_past_set limit)
  have pos: "0 < dc_max_retry_after D'"
    by (simp add: later(2) D max_retry_kept set_cooldown_secs_def Let_def delivery_coordinator_new_def nanos_def)
  have wait: "0 < wait_time t b c'' D'" if "t \<le> now" for t c''
    using cooling_past_remaining [OF cool that] .
  then have rem: "0 < cooldown_remaining l t b c'' D'" if "t \<le> now" for l t c''
    using pos that by (simp add: cooldown_remaining_def)
  have "now < snd (probe p)" if "find_due_for iter probe b c' D' = Some p" for p
  proof (rule ccontr)
    assume "\<not> now < snd (probe p)"
    moreover have "pd_bot_id p = b" using that by (auto simp: find_due_for_def find_Some_iff)
    ultimately show False using find_due_for_remaining [OF that] rem by (metis less_irrefl not_le)
  qed
  moreover have "pd_bot_id p \<noteq> b" if "find_due iter probe D' = Some p" "snd (probe p) \<le> now" for p
    using find_due_remaining [OF that(1)] rem [OF that(2)] by (metis less_irrefl)
  ultimately show ?thesis using wait rem by (simp add: is_cooling_down_def)
qed

definition demo_clock :: "nat \<Rightarrow> cooldown_clock" where
  "demo_clock t = \<lparr> ck_until = t, ck_fallback = t, ck_insert = (\<lambda>_. t), ck_retain = (\<lambda>_. t) \<rparr>"

text \<open>A delivery of the limited bot is waiting; three seconds after the limit of five it is not found.\<close>

theorem cooldown_respected_witness:
  "let D = fold (apply_delivery_op (nanos 100)) [Op_Enqueue ''d'' ''bot'' 8, Op_Cooldown (demo_clock (nanos 2)) ''other'' 8 1]
       (set_cooldown_secs (nanos 100) (demo_clock 0) ''bot'' 7 5 (delivery_coordinator_new 0)) in
   dc_pending D \<noteq> [] \<and> is_cooling_down False (nanos 3) ''bot'' 8 D
     \<and> find_due_for (\<lambda>ps. ps) (\<lambda>_. (False, nanos 3)) ''bot'' 8 D = None"
proof -
  define D where "D = fold (apply_delivery_op (nanos 100)) [Op_Enqueue ''d'' ''bot'' 8, Op_Cooldown (demo_clock (nanos 2)) ''other'' 8 1]
       (set_cooldown_secs (nanos 100) (demo_clock 0) ''bot'' 7 5 (delivery_coordinator_new 0))"
  have "is_cooling_down False (nanos 3) ''bot'' 8 D \<and> (\<forall>t \<le> nanos 3. 0 < wait_time t ''bot'' 8 D)
    \<and> (\<forall>p. find_due (\<lambda>ps. ps) (\<lambda>_. (False, nanos 3)) D = Some p \<longrightarrow> snd (False, nanos 3) \<le> nanos 3 \<longrightarrow> pd_bot_id p \<noteq> ''bot'')
    \<and> (\<forall>p. find_due_for (\<lambda>ps. ps) (\<lambda>_. (False, nanos 3)) ''bot'' 8 D = Some p \<longrightarrow> nanos 3 < snd (False, nanos 3))"
    by (rule cooldown_respected [where before = "[]", OF _ _ _ _ D_def])
       (simp_all add: demo_clock_def nanos_def cooldown_deadline_def)
  moreover have "dc_pending D \<noteq> []"
    by (simp add: D_def enqueue_pending_def set_cooldown_secs_def Let_def)
  ultimately show ?thesis unfolding D_def [symmetric] Let_def by (metis less_irrefl option.exhaust snd_conv)
qed

section \<open>Every delivery is handed out once\<close>

text \<open>Any number of tasks use the coordinator; \<open>rn_found\<close> holds the items found by a \<^verbatim>\<open>take_due\<close> that
  has not removed them yet. The multisets record what was enqueued and what was handed out.\<close>

record delivery_run =
  rn_dc :: delivery_coordinator
  rn_found :: "string multiset"
  rn_enqueued :: "string multiset"
  rn_taken :: "string multiset"

inductive delivery_step :: "nat \<Rightarrow> delivery_run \<Rightarrow> delivery_run \<Rightarrow> bool" for m where
  enqueue: "delivery_step m r (r\<lparr>rn_dc := enqueue_pending i b c (rn_dc r), rn_enqueued := add_mset i (rn_enqueued r)\<rparr>)"
| forget: "delivery_step m r (r\<lparr>rn_dc := forget_pending i (rn_dc r)\<rparr>)"
| cooldown: "delivery_step m r (r\<lparr>rn_dc := set_cooldown_secs m ck b c secs (rn_dc r)\<rparr>)"
| finds: "find_due iter probe (rn_dc r) = Some p \<or> find_due_for iter probe b c (rn_dc r) = Some p \<Longrightarrow>
    delivery_step m r (r\<lparr>rn_found := add_mset (pd_delivery_id p) (rn_found r)\<rparr>)"
| takes: "i \<in># rn_found r \<Longrightarrow> take_found i (rn_dc r) = (Some p, D) \<Longrightarrow>
    delivery_step m r (r\<lparr>rn_dc := D, rn_found := rn_found r - {#i#}, rn_taken := add_mset (pd_delivery_id p) (rn_taken r)\<rparr>)"
| misses: "i \<in># rn_found r \<Longrightarrow> take_found i (rn_dc r) = (None, D) \<Longrightarrow>
    delivery_step m r (r\<lparr>rn_dc := D, rn_found := rn_found r - {#i#}\<rparr>)"

definition run_start :: "delivery_coordinator \<Rightarrow> delivery_run" where
  "run_start D = \<lparr> rn_dc = D, rn_found = {#}, rn_enqueued = {#}, rn_taken = {#} \<rparr>"

definition pending_ok :: "(string \<times> pending_delivery) list \<Rightarrow> bool" where
  "pending_ok ps \<longleftrightarrow> distinct (map fst ps) \<and> list_all (\<lambda>(i, p). pd_delivery_id p = i) ps"

definition held :: "delivery_coordinator \<Rightarrow> string \<Rightarrow> nat" where
  "held D i = (if i \<in> fst ` set (dc_pending D) then 1 else 0)"

definition run_inv :: "delivery_run \<Rightarrow> bool" where
  "run_inv r \<longleftrightarrow>
     pending_ok (dc_pending (rn_dc r)) \<and> (\<forall>i. count (rn_taken r) i + held (rn_dc r) i \<le> count (rn_enqueued r) i)"

lemma fst_remove_pending: "fst ` set (remove_pending i ps) = fst ` set ps - {i}"
  by (force simp: remove_pending_def)

lemma pending_ok_remove: "pending_ok ps \<Longrightarrow> pending_ok (remove_pending i ps)"
  by (auto simp: pending_ok_def remove_pending_def distinct_map_filter list_all_iff)

lemma held_ops:
  "held (forget_pending i D) j = (if j = i then 0 else held D j)"
  "held (enqueue_pending i b c D) j = (if j = i then 1 else held D j)"
  by (auto simp: held_def forget_pending_def enqueue_pending_def fst_remove_pending)

lemma run_inv_le:
  assumes "run_inv r"
  shows "count (rn_taken r) j + held (rn_dc r) j \<le> count (rn_enqueued r) j" "count (rn_taken r) j \<le> count (rn_enqueued r) j"
proof -
  show le: "count (rn_taken r) j + held (rn_dc r) j \<le> count (rn_enqueued r) j" using assms by (simp add: run_inv_def)
  then show "count (rn_taken r) j \<le> count (rn_enqueued r) j" by simp
qed

lemma run_inv_forget:
  assumes "run_inv r"
  shows "run_inv (r\<lparr>rn_dc := forget_pending i (rn_dc r), rn_found := fs\<rparr>)" "run_inv (r\<lparr>rn_dc := forget_pending i (rn_dc r)\<rparr>)"
proof -
  have "pending_ok (dc_pending (forget_pending i (rn_dc r)))"
    using assms by (simp add: run_inv_def forget_pending_def pending_ok_remove)
  moreover have "count (rn_taken r) j + held (forget_pending i (rn_dc r)) j \<le> count (rn_enqueued r) j" for j
    using run_inv_le [OF assms] by (simp add: held_ops)
  ultimately show "run_inv (r\<lparr>rn_dc := forget_pending i (rn_dc r), rn_found := fs\<rparr>)"
    "run_inv (r\<lparr>rn_dc := forget_pending i (rn_dc r)\<rparr>)"
    by (simp_all add: run_inv_def)
qed

lemma run_inv_step:
  assumes "delivery_step m r r'" "run_inv r"
  shows "run_inv r'"
  using assms(1)
proof cases
  case (enqueue i b c)
  have "pending_ok (dc_pending (enqueue_pending i b c (rn_dc r)))"
    using assms(2) pending_ok_remove [of "dc_pending (rn_dc r)" i] fst_remove_pending [of i "dc_pending (rn_dc r)"]
    by (simp add: run_inv_def enqueue_pending_def pending_ok_def)
  moreover have "count (rn_taken r) j + held (enqueue_pending i b c (rn_dc r)) j \<le> count (add_mset i (rn_enqueued r)) j" for j
    using run_inv_le [OF assms(2)] by (simp add: held_ops)
  ultimately show ?thesis by (simp add: enqueue run_inv_def)
next
  case (takes i p D)
  then have p: "map_of (dc_pending (rn_dc r)) i = Some p" "D = forget_pending i (rn_dc r)"
    by (auto simp: take_found_def)
  from map_of_SomeD [OF p(1)] assms(2) have id: "pd_delivery_id p = i" "held (rn_dc r) i = 1"
    by (force simp: run_inv_def pending_ok_def held_def list_all_iff)+
  have "count (add_mset i (rn_taken r)) j + held D j \<le> count (rn_enqueued r) j" for j
    using run_inv_le(1) [OF assms(2), of j] id(2) by (auto simp: p(2) held_ops)
  moreover have "pending_ok (dc_pending D)"
    using assms(2) by (simp add: p(2) forget_pending_def run_inv_def pending_ok_remove)
  ultimately show ?thesis by (simp add: takes(1) id(1) run_inv_def)
next
  case (misses i D)
  with run_inv_forget [OF assms(2)] show ?thesis by (auto simp: take_found_def)
next
  case (cooldown ck b c secs)
  with assms(2) show ?thesis by (simp add: run_inv_def held_def set_cooldown_secs_def Let_def)
qed (use run_inv_forget [OF assms(2)] assms(2) in \<open>auto simp: run_inv_def\<close>)

text \<open>C24. A pending delivery is handed out at most once for each time it was enqueued, however many
  tasks search and take at the same time: the multiset of deliveries handed out is always
  contained in the multiset of those enqueued, although the search and the removal are separate
  critical sections and a delivery may be found by several tasks.\<close>

theorem delivery_handed_out_once:
  assumes "(delivery_step m)\<^sup>*\<^sup>* (run_start (delivery_coordinator_new t)) r"
  shows "rn_taken r \<subseteq># rn_enqueued r"
proof -
  have "run_inv r"
    using assms
  proof (induction rule: rtranclp_induct)
    case base
    show ?case by (simp add: run_inv_def run_start_def delivery_coordinator_new_def pending_ok_def held_def)
  next
    case (step x y)
    then show ?case using run_inv_step by blast
  qed
  then show ?thesis by (intro mset_subset_eqI run_inv_le(2))
qed

text \<open>Two tasks find the same delivery; one of them gets it.\<close>

theorem delivery_handed_out_once_witness:
  "\<exists>r. (delivery_step 0)\<^sup>*\<^sup>* (run_start (delivery_coordinator_new 0)) r
     \<and> rn_taken r = {#''d''#} \<and> rn_taken r \<subseteq># rn_enqueued r"
proof -
  let ?s0 = "run_start (delivery_coordinator_new 0)"
  let ?D = "enqueue_pending ''d'' ''b'' 1 (delivery_coordinator_new 0)"
  let ?p = "\<lparr> pd_delivery_id = ''d'', pd_bot_id = ''b'', pd_chat_id = 1 \<rparr>"
  let ?s1 = "?s0\<lparr>rn_dc := ?D, rn_enqueued := {#''d''#}\<rparr>"
  let ?s2 = "?s1\<lparr>rn_found := {#''d''#}\<rparr>"
  let ?s3 = "?s2\<lparr>rn_dc := forget_pending ''d'' ?D, rn_found := {#}, rn_taken := {#''d''#}\<rparr>"
  have e: "delivery_step 0 ?s0 ?s1"
    using delivery_step.enqueue [of 0 ?s0 "''d''" "''b''" 1] by (simp add: run_start_def)
  have "find_due (\<lambda>x. x) (\<lambda>_. (False, 0)) ?D = Some ?p"
    by (simp add: find_due_def enqueue_pending_def delivery_coordinator_new_def remove_pending_def cooldown_remaining_def
        wait_time_def until_or_def)
  then have f: "delivery_step 0 ?s1 ?s2"
    using delivery_step.finds [where r = ?s1 and m = 0 and p = ?p and iter = "\<lambda>x. x" and probe = "\<lambda>_. (False, 0)"]
    by (simp add: run_start_def)
  have "take_found ''d'' ?D = (Some ?p, forget_pending ''d'' ?D)"
    by (simp add: take_found_def enqueue_pending_def)
  then have t: "delivery_step 0 ?s2 ?s3"
    using delivery_step.takes [where r = ?s2 and m = 0 and i = "''d''" and p = ?p and D = "forget_pending ''d'' ?D"]
    by (simp add: run_start_def)
  have run: "(delivery_step 0)\<^sup>*\<^sup>* ?s0 ?s3" using e f t by (meson rtranclp.rtrancl_into_rtrancl r_into_rtranclp)
  from delivery_handed_out_once [OF run] run show ?thesis by (intro exI [of _ ?s3]) simp
qed

section \<open>Waiting ends\<close>

lemma wait_loop_returns:
  assumes "\<And>n. until_or (fst (obs n)) (bot_key b) (snd (obs n)) \<le> max T (fst (obs n))"
    and "\<And>n. until_or (fst (obs n)) (chat_key b c) (snd (obs n)) \<le> max T (fst (obs n))"
    and slept: "\<And>n. fst (obs n) + wait_time (fst (obs n)) b c (snd (obs n)) \<le> fst (obs (Suc n))"
  shows "\<exists>k. n \<le> k \<and> k \<le> n + (T - fst (obs n)) \<and> wait_loop obs b c n = Some k
    \<and> wait_time (fst (obs k)) b c (snd (obs k)) = 0"
proof (induction "T - fst (obs n)" arbitrary: n rule: less_induct)
  case less
  obtain now D where o: "obs n = (now, D)" by force
  show ?case
  proof (cases "wait_time now b c D = 0")
    case True
    with o have "wait_loop obs b c n = Some n" by (simp add: wait_loop.simps [of obs b c n])
    with True o show ?thesis by (intro exI [of _ n]) simp
  next
    case False
    then have "now < T" "now < fst (obs (Suc n))"
      using assms(1,2) [of n] slept [of n] o by (auto simp: wait_time_def max_def split: if_splits)
    then have "T - fst (obs (Suc n)) < T - fst (obs n)" using o by simp
    from less.hyps [OF this] obtain k where k: "Suc n \<le> k" "k \<le> Suc n + (T - fst (obs (Suc n)))"
      "wait_loop obs b c (Suc n) = Some k" "wait_time (fst (obs k)) b c (snd (obs k)) = 0" by blast
    with False o have "wait_loop obs b c n = Some k" by (simp add: wait_loop.simps [of obs b c n])
    with k o \<open>now < fst (obs (Suc n))\<close> \<open>now < T\<close> show ?thesis by (intro exI [of _ k]) auto
  qed
qed

text \<open>C26. Waiting for a rate limit ends: if no cooldown of the bot or the chat ever reaches beyond a time
  \<open>T\<close>, and sleeping lasts at least as long as asked, then \<^verbatim>\<open>wait\<close> returns, although new
  cooldowns may be set while it sleeps, and when it returns nothing is left to wait for.\<close>

theorem wait_returns:
  assumes "\<And>n k. k \<in> {bot_key b, chat_key b c} \<Longrightarrow> until_or (fst (obs n)) k (snd (obs n)) \<le> max T (fst (obs n))"
    and "\<And>n. fst (obs n) + wait_time (fst (obs n)) b c (snd (obs n)) \<le> fst (obs (Suc n))"
  shows "\<exists>n. wait_loop obs b c 0 = Some n \<and> wait_time (fst (obs n)) b c (snd (obs n)) = 0"
  using wait_loop_returns [of obs b T c 0] assms by auto

text \<open>A bot that has to wait five seconds twice.\<close>

definition demo_obs :: "nat \<Rightarrow> nat \<times> delivery_coordinator" where
  "demo_obs n = (5 * n, (delivery_coordinator_new 0)\<lparr>dc_states := [bot_key ''b'' \<mapsto> min 10 (5 * n + 5)]\<rparr>)"

theorem wait_returns_witness:
  "\<exists>n. wait_loop demo_obs ''b'' 1 0 = Some n \<and> wait_time (fst (demo_obs n)) ''b'' 1 (snd (demo_obs n)) = 0"
proof (rule wait_returns [where T = 10])
  have ne: "chat_key ''b'' 1 \<noteq> bot_key ''b''" by (simp add: bot_key_def chat_key_def)
  show "until_or (fst (demo_obs n)) k (snd (demo_obs n)) \<le> max 10 (fst (demo_obs n))"
    if "k \<in> {bot_key ''b'', chat_key ''b'' 1}" for n k
    using that ne by (auto simp: demo_obs_def until_or_def)
  show "fst (demo_obs n) + wait_time (fst (demo_obs n)) ''b'' 1 (snd (demo_obs n)) \<le> fst (demo_obs (Suc n))" for n
    using ne by (simp add: demo_obs_def wait_time_def until_or_def)
qed

section \<open>Renders are bounded\<close>

text \<open>A stream: the full text so far and the time of each progress event.\<close>

fun renders :: "stream_policy \<Rightarrow> (string \<times> nat) list \<Rightarrow> stream_state \<Rightarrow> nat" where
  "renders P [] s = 0"
| "renders P ((t, now) # es) s =
     (case should_render t P now s of (b, s') \<Rightarrow> (if b then 1 else 0) + renders P es s')"

text \<open>Each render after the first is paid for by elapsed time or by new text.\<close>

lemma renders_paid:
  assumes "sorted (map snd es)" "sorted (map (char_count \<circ> fst) es)"
    and "last_render_at s = Some l" "\<forall>e \<in> set es. l \<le> snd e \<and> snd e \<le> T \<and> last_committed_len s \<le> char_count (fst e)
      \<and> char_count (fst e) \<le> L"
  shows "\<exists>a b. renders P es s = a + b \<and> a * (min_interval_ms P * 1000000) \<le> T - l
    \<and> b * min_delta_chars P \<le> L - last_committed_len s"
  using assms
proof (induction es arbitrary: s l)
  case Nil
  then show ?case by (intro exI [of _ 0]) simp
next
  case (Cons e es)
  obtain t now where e: "e = (t, now)" by force
  show ?case
  proof (cases "fst (should_render t P now s)")
    case False
    then have "should_render t P now s = (False, s)" by (auto simp: should_render_def split: if_splits)
    with Cons e show ?thesis by auto
  next
    case True
    then have s': "should_render t P now s = (True, stream_commit t now s)" "\<not> too_early t P now s"
      by (auto simp: should_render_def split: if_splits)
    have "\<exists>a b. renders P es (stream_commit t now s) = a + b \<and> a * (min_interval_ms P * 1000000) \<le> T - now
        \<and> b * min_delta_chars P \<le> L - char_count t"
      using Cons.IH [of "stream_commit t now s" now] Cons.prems e by (auto simp: stream_commit_def)
    then obtain a b where ab: "renders P es (stream_commit t now s) = a + b"
      "a * (min_interval_ms P * 1000000) \<le> T - now" "b * min_delta_chars P \<le> L - char_count t" by blast
    have bounds: "l \<le> now" "now \<le> T" "last_committed_len s \<le> char_count t" "char_count t \<le> L"
      using Cons.prems(4) e by auto
    from s'(2) Cons.prems(3) consider "min_interval_ms P \<le> (now - l) div 1000000"
      | "min_delta_chars P \<le> char_count t - last_committed_len s"
      by (auto simp: too_early_def)
    then show ?thesis
    proof cases
      case 1
      then have "min_interval_ms P * 1000000 \<le> now - l" by (simp add: less_eq_div_iff_mult_less_eq)
      with ab bounds s'(1) e show ?thesis by (intro exI [of _ "Suc a"] exI [of _ b]) (auto simp: algebra_simps)
    next
      case 2
      with ab bounds s'(1) e show ?thesis by (intro exI [of _ a] exI [of _ "Suc b"]) (auto simp: algebra_simps)
    qed
  qed
qed

lemma renders_new:
  assumes "sorted (map snd es)" "sorted (map (char_count \<circ> fst) es)" "last_render_at s = None"
    and "\<forall>e \<in> set es. lo \<le> snd e \<and> snd e \<le> hi \<and> char_count (fst e) \<le> L"
    and pos: "0 < min_interval_ms P" "0 < min_delta_chars P"
  shows "renders P es s \<le> 1 + (hi - lo) div (min_interval_ms P * 1000000) + L div min_delta_chars P"
  using assms(1-4)
proof (induction es)
  case (Cons e es)
  obtain t now where e: "e = (t, now)" by force
  show ?case
  proof (cases "fst (should_render t P now s)")
    case False
    then have "should_render t P now s = (False, s)" by (auto simp: should_render_def split: if_splits)
    with Cons e show ?thesis by auto
  next
    case True
    then have s': "should_render t P now s = (True, stream_commit t now s)"
      by (auto simp: should_render_def split: if_splits)
    have "\<exists>a b. renders P es (stream_commit t now s) = a + b \<and> a * (min_interval_ms P * 1000000) \<le> hi - now
        \<and> b * min_delta_chars P \<le> L - char_count t"
      using renders_paid [of es "stream_commit t now s" now hi L P] Cons.prems e by (auto simp: stream_commit_def o_def)
    then obtain a b where ab: "renders P es (stream_commit t now s) = a + b"
      "a * (min_interval_ms P * 1000000) \<le> hi - now" "b * min_delta_chars P \<le> L - char_count t" by blast
    have "a * (min_interval_ms P * 1000000) \<le> hi - lo" "b * min_delta_chars P \<le> L"
      using ab(2,3) Cons.prems(4) e by auto
    then have "a \<le> (hi - lo) div (min_interval_ms P * 1000000)" "b \<le> L div min_delta_chars P"
      using pos by (simp_all add: less_eq_div_iff_mult_less_eq)
    with ab(1) s' e show ?thesis by simp
  qed
qed simp

text \<open>Streaming a reply cannot flood Telegram: for any sequence of progress events of a growing text,
  the number of messages rendered is at most one, plus the number of whole minimal intervals in
  the time of the stream, plus the number of minimal steps in the length of the final text.\<close>

theorem renders_bounded:
  assumes "sorted (map snd es)" "sorted (map (char_count \<circ> fst) es)" "es \<noteq> []"
    and "0 < min_interval_ms P" "0 < min_delta_chars P"
  shows "renders P es stream_state_new
    \<le> 1 + (snd (last es) - snd (hd es)) div (min_interval_ms P * 1000000)
        + char_count (fst (last es)) div min_delta_chars P"
proof -
  have last: "f e \<le> f (last es)" if "sorted (map f es)" "e \<in> set es" for f :: "string \<times> nat \<Rightarrow> nat" and e
  proof -
    from that(2) obtain i where "i < length es" "es ! i = e" by (auto simp: in_set_conv_nth)
    with that(1) assms(3) show ?thesis using sorted_nth_mono [of "map f es" i "length es - 1"] by (simp add: last_conv_nth)
  qed
  have "snd (hd es) \<le> snd e" if "e \<in> set es" for e
    using that assms(1) by (cases es) auto
  with last [OF assms(1)] last [OF assms(2)] show ?thesis
    by (intro renders_new [OF assms(1,2) _ _ assms(4,5)]) (auto simp: stream_state_new_def)
qed

theorem renders_bounded_witness:
  "renders (stream_policy_default\<lparr>first_render_chars := 1\<rparr>) [(''a'', 0), (''ab'', nanos 1), (''abc'', nanos 6)] stream_state_new \<le> 2"
  using renders_bounded [of "[(''a'', 0), (''ab'', nanos 1), (''abc'', nanos 6)]" "stream_policy_default\<lparr>first_render_chars := 1\<rparr>"]
  by (simp add: stream_policy_default_def nanos_def char_count_def is_continuation_def)

end
