(* ===== verification/Sql_Monad.thy ===== *)
theory Sql_Monad
  imports Bridge_Errors
begin

text \<open>
  Code that talks to SQLite through \<^verbatim>\<open>sqlx\<close>: a computation takes the tables and a schedule of
  failing statements to a result and the tables afterwards. A statement whose entry of the
  schedule is \<open>True\<close> fails without effect; a transaction that is not committed leaves the tables
  as they were. The locale \<open>table_order\<close> collects what such code preserves.
\<close>

named_theorems sql_defs \<open>unfolding computations on tables\<close>
named_theorems sql_clean \<open>computations on a database without failing statements\<close>

section \<open>Computations\<close>

record 't database =
  db_tables :: 't
  db_faults :: "bool list"

type_synonym ('t, 'a) sql = "'t database \<Rightarrow> 'a app_result \<times> 't database"

definition sql_return :: "'a \<Rightarrow> ('t, 'a) sql" where [sql_defs]:
  "sql_return a db = (Inr a, db)"

definition sql_lift :: "'a app_result \<Rightarrow> ('t, 'a) sql" where [sql_defs]:
  "sql_lift r db = (r, db)"

definition sql_bind :: "('t, 'a) sql \<Rightarrow> ('a \<Rightarrow> ('t, 'b) sql) \<Rightarrow> ('t, 'b) sql" where [sql_defs]:
  "sql_bind m f db = (case m db of (Inl e, db') \<Rightarrow> (Inl e, db') | (Inr a, db') \<Rightarrow> f a db')"

definition sql_stmt :: "('t \<Rightarrow> 'a app_result \<times> 't) \<Rightarrow> ('t, 'a) sql" where [sql_defs]:
  "sql_stmt body db =
     (case db_faults db of
        [] \<Rightarrow> (case body (db_tables db) of (r, t) \<Rightarrow> (r, db\<lparr>db_tables := t\<rparr>))
      | f # fs \<Rightarrow>
          if f then (Inl db_error, db\<lparr>db_faults := fs\<rparr>)
          else (case body (db_tables db) of (r, t) \<Rightarrow> (r, db\<lparr>db_tables := t, db_faults := fs\<rparr>)))"

text \<open>\<^verbatim>\<open>pool.begin()\<close>, the body and \<^verbatim>\<open>tx.commit()\<close>; an error drops or rolls back the transaction.\<close>

definition sql_transaction :: "('t, 'a) sql \<Rightarrow> ('t, 'a) sql" where [sql_defs]:
  "sql_transaction m db =
     (case sql_stmt (\<lambda>t. (Inr (), t)) db of
        (Inl e, db1) \<Rightarrow> (Inl e, db1)
      | (Inr _, db1) \<Rightarrow>
          (case m db1 of
             (Inl e, db2) \<Rightarrow> (Inl e, db2\<lparr>db_tables := db_tables db1\<rparr>)
           | (Inr a, db2) \<Rightarrow>
               (case sql_stmt (\<lambda>t. (Inr (), t)) db2 of
                  (Inl e, db3) \<Rightarrow> (Inl e, db3\<lparr>db_tables := db_tables db1\<rparr>)
                | (Inr _, db3) \<Rightarrow> (Inr a, db3))))"

section \<open>Results of computations\<close>

lemma sql_return_eq [simp]: "sql_return a db = (r, db') \<longleftrightarrow> r = Inr a \<and> db' = db"
  by (auto simp: sql_return_def)

lemma sql_lift_eq [simp]: "sql_lift q db = (r, db') \<longleftrightarrow> q = r \<and> db' = db"
  by (auto simp: sql_lift_def)

lemma sql_bind_Inr:
  "sql_bind m f db = (Inr b, db') \<longleftrightarrow> (\<exists>a db1. m db = (Inr a, db1) \<and> f a db1 = (Inr b, db'))"
  by (auto simp: sql_bind_def split: prod.splits sum.splits)

lemma sql_bind_InrE:
  assumes "sql_bind m f db = (Inr b, db')"
  obtains a db1 where "m db = (Inr a, db1)" "f a db1 = (Inr b, db')"
  using assms by (auto simp: sql_bind_Inr)

lemma sql_bind_lift_InrE:
  assumes "sql_bind (sql_lift r) f db = (Inr b, db')"
  obtains a where "r = Inr a" "f a db = (Inr b, db')"
  using assms by (auto simp: sql_bind_def sql_lift_def split: sum.splits)

lemma sql_stmt_Inr:
  "sql_stmt body db = (Inr a, db') \<Longrightarrow> body (db_tables db) = (Inr a, db_tables db')"
  by (auto simp: sql_stmt_def split: list.splits if_splits prod.splits)

lemma sql_stmt_tables:
  assumes "sql_stmt body db = (r, db')"
  obtains "db_tables db' = db_tables db" | "body (db_tables db) = (r, db_tables db')"
  using assms by (auto simp: sql_stmt_def split: list.splits if_splits prod.splits)

lemma sql_stmt_idle [simp]:
  "sql_stmt (\<lambda>t. (Inr (), t)) db = (r, db') \<Longrightarrow> db_tables db' = db_tables db"
  by (erule sql_stmt_tables) auto

lemma sql_transaction_Inr:
  assumes "sql_transaction m db = (Inr a, db')"
  obtains db1 db2 where "db_tables db1 = db_tables db" "m db1 = (Inr a, db2)"
    "db_tables db' = db_tables db2"
  using assms
  by (auto simp: sql_transaction_def split: prod.splits sum.splits dest: sql_stmt_idle)

lemma sql_transaction_Inl:
  "sql_transaction m db = (Inl e, db') \<Longrightarrow> db_tables db' = db_tables db"
  by (auto simp: sql_transaction_def split: prod.splits sum.splits dest: sql_stmt_idle)

section \<open>Databases without failing statements\<close>

definition sql_run :: "('t, 'a) sql \<Rightarrow> 't \<Rightarrow> 'a app_result \<times> 't" where
  "sql_run m t = (case m \<lparr>db_tables = t, db_faults = []\<rparr> of (r, db) \<Rightarrow> (r, db_tables db))"

text \<open>A computation that consumes the schedule of failures only by its statements leaves an empty
  schedule empty.\<close>

definition sql_steady :: "('t, 'a) sql \<Rightarrow> bool" where
  "sql_steady m \<longleftrightarrow> (\<forall>t. db_faults (snd (m \<lparr>db_tables = t, db_faults = []\<rparr>)) = [])"

lemma steadyE:
  assumes "sql_steady m"
  obtains r t' where "m \<lparr>db_tables = t, db_faults = []\<rparr> = (r, \<lparr>db_tables = t', db_faults = []\<rparr>)"
    "sql_run m t = (r, t')"
proof -
  obtain r db where m: "m \<lparr>db_tables = t, db_faults = []\<rparr> = (r, db)" by fastforce
  have "db_faults (snd (m \<lparr>db_tables = t, db_faults = []\<rparr>)) = []"
    using assms by (simp only: sql_steady_def)
  with m have "db_faults db = []" by simp
  with m that [of r "db_tables db"] show thesis by (simp add: sql_run_def)
qed

lemma steady_basic [sql_clean]:
  "sql_steady (sql_return a)" "sql_steady (sql_lift r)" "sql_steady (sql_stmt body)"
  by (auto simp: sql_steady_def sql_defs split: prod.splits)

lemma steady_bind [sql_clean]:
  assumes "sql_steady m" "\<And>a. sql_steady (f a)"
  shows "sql_steady (sql_bind m f)"
  unfolding sql_steady_def
proof
  fix t
  obtain r t' where m: "m \<lparr>db_tables = t, db_faults = []\<rparr> = (r, \<lparr>db_tables = t', db_faults = []\<rparr>)"
    by (rule steadyE [OF assms(1)])
  show "db_faults (snd (sql_bind m f \<lparr>db_tables = t, db_faults = []\<rparr>)) = []"
    using assms(2) by (simp add: sql_bind_def m sql_steady_def split: sum.split)
qed

lemma steady_cases [sql_clean]:
  "sql_steady n \<Longrightarrow> (\<And>x. sql_steady (f x)) \<Longrightarrow> sql_steady (case_option n f a)"
  "sql_steady m \<Longrightarrow> sql_steady n \<Longrightarrow> sql_steady (if c then m else n)"
  by (auto split: option.split)

lemma steady_transaction [sql_clean]:
  assumes "sql_steady m"
  shows "sql_steady (sql_transaction m)"
  unfolding sql_steady_def
proof
  fix t
  obtain r t' where m: "m \<lparr>db_tables = t, db_faults = []\<rparr> = (r, \<lparr>db_tables = t', db_faults = []\<rparr>)"
    by (rule steadyE [OF assms])
  show "db_faults (snd (sql_transaction m \<lparr>db_tables = t, db_faults = []\<rparr>)) = []"
    by (simp add: sql_transaction_def sql_stmt_def m split: sum.split)
qed

lemma run_basic [sql_clean]:
  "sql_run (sql_return a) t = (Inr a, t)" "sql_run (sql_lift r) t = (r, t)"
  "sql_run (sql_stmt body) t = body t"
  by (simp_all add: sql_run_def sql_return_def sql_lift_def sql_stmt_def split_def)

lemma run_bind [sql_clean]:
  assumes "sql_steady m"
  shows "sql_run (sql_bind m f) t
    = (case sql_run m t of (Inl e, t') \<Rightarrow> (Inl e, t') | (Inr a, t') \<Rightarrow> sql_run (f a) t')"
proof -
  obtain r t' where r: "m \<lparr>db_tables = t, db_faults = []\<rparr> = (r, \<lparr>db_tables = t', db_faults = []\<rparr>)"
    "sql_run m t = (r, t')"
    by (rule steadyE [OF assms])
  then show ?thesis
    by (cases r) (simp_all add: sql_run_def sql_bind_def)
qed

lemma run_transaction [sql_clean]:
  assumes "sql_steady m"
  shows "sql_run (sql_transaction m) t
    = (case sql_run m t of (Inl e, t') \<Rightarrow> (Inl e, t) | (Inr a, t') \<Rightarrow> (Inr a, t'))"
  by (rule steadyE [OF assms, of t]) (simp add: sql_run_def [of "sql_transaction m"]
      sql_transaction_def sql_stmt_def split: sum.split)

section \<open>Orders on tables\<close>

text \<open>A reflexive and transitive relation between the tables before and after is kept by a
  computation when its statements keep it.\<close>

definition sql_evolves :: "('t \<Rightarrow> 't \<Rightarrow> bool) \<Rightarrow> ('t, 'a) sql \<Rightarrow> bool" where
  "sql_evolves R m \<longleftrightarrow> (\<forall>db. R (db_tables db) (db_tables (snd (m db))))"

lemma sql_evolvesD: "sql_evolves R m \<Longrightarrow> m db = (r, db') \<Longrightarrow> R (db_tables db) (db_tables db')"
  by (metis sql_evolves_def snd_conv)

locale table_order =
  fixes R :: "'t \<Rightarrow> 't \<Rightarrow> bool"
  assumes refl: "R t t"
    and trans: "R s t \<Longrightarrow> R t u \<Longrightarrow> R s u"
begin

lemma evolves_return [intro!]: "sql_evolves R (sql_return a)"
  by (simp add: sql_evolves_def sql_return_def refl)

lemma evolves_lift [intro!]: "sql_evolves R (sql_lift r)"
  by (simp add: sql_evolves_def sql_lift_def refl)

lemma evolves_bind [intro!]:
  "sql_evolves R m \<Longrightarrow> (\<And>a. sql_evolves R (f a)) \<Longrightarrow> sql_evolves R (sql_bind m f)"
  unfolding sql_evolves_def
proof
  fix db
  assume m: "\<forall>db. R (db_tables db) (db_tables (snd (m db)))"
    and f: "\<And>a. \<forall>db. R (db_tables db) (db_tables (snd (f a db)))"
  obtain r db1 where r: "m db = (r, db1)" by fastforce
  with m have "R (db_tables db) (db_tables db1)" by (metis snd_conv)
  with r f show "R (db_tables db) (db_tables (snd (sql_bind m f db)))"
    by (cases r) (auto simp: sql_bind_def intro: trans)
qed

lemma evolves_if [intro!]:
  "(c \<Longrightarrow> sql_evolves R m) \<Longrightarrow> (\<not> c \<Longrightarrow> sql_evolves R n) \<Longrightarrow> sql_evolves R (if c then m else n)"
  by simp

lemma evolves_stmt: "(\<And>t. R t (snd (body t))) \<Longrightarrow> sql_evolves R (sql_stmt body)"
  unfolding sql_evolves_def
  by (metis sql_stmt_tables prod.collapse refl snd_conv)

lemma evolves_transaction [intro!]:
  assumes "sql_evolves R m"
  shows "sql_evolves R (sql_transaction m)"
  unfolding sql_evolves_def
proof
  fix db
  show "R (db_tables db) (db_tables (snd (sql_transaction m db)))"
  proof (cases "sql_transaction m db")
    case (Pair r db')
    then show ?thesis
    proof (cases r)
      case (Inl e)
      with Pair sql_transaction_Inl [of m db e db'] show ?thesis by (simp add: refl)
    next
      case (Inr a)
      with Pair have "sql_transaction m db = (Inr a, db')" by simp
      then obtain db1 db2 where "db_tables db1 = db_tables db" "m db1 = (Inr a, db2)"
        "db_tables db' = db_tables db2"
        by (rule sql_transaction_Inr)
      with sql_evolvesD [OF assms] Pair show ?thesis by (metis snd_conv)
    qed
  qed
qed

end

text \<open>Every predicate on tables is an order in which it is never lost.\<close>

interpretation kept: table_order "\<lambda>s t. P s \<longrightarrow> P t" for P
  by unfold_locales auto

section \<open>Tables of keyed rows\<close>

text \<open>A table evolves row by row: rows are never removed, keep their key and their well-formedness,
  and change only along the order \<open>F\<close>.\<close>

definition rows_follow ::
    "('r \<Rightarrow> 'k) \<Rightarrow> ('r \<Rightarrow> bool) \<Rightarrow> ('r \<Rightarrow> 'r \<Rightarrow> bool) \<Rightarrow> 'r list \<Rightarrow> 'r list \<Rightarrow> bool" where
  "rows_follow key ok F xs ys \<longleftrightarrow>
     (distinct (map key xs) \<and> list_all ok xs \<longrightarrow>
        distinct (map key ys) \<and> list_all ok ys
        \<and> (\<forall>r \<in> set xs. \<exists>r' \<in> set ys. key r' = key r \<and> F r r'))"

locale keyed_rows =
  fixes key :: "'r \<Rightarrow> 'k" and ok :: "'r \<Rightarrow> bool" and F :: "'r \<Rightarrow> 'r \<Rightarrow> bool" and rows :: "'t \<Rightarrow> 'r list"
  assumes F_refl: "F r r"
    and F_trans: "F r s \<Longrightarrow> F s u \<Longrightarrow> F r u"
begin

lemma rows_refl: "rows_follow key ok F xs xs"
  by (auto simp: rows_follow_def F_refl)

lemma rows_trans: "rows_follow key ok F xs ys \<Longrightarrow> rows_follow key ok F ys zs \<Longrightarrow> rows_follow key ok F xs zs"
  unfolding rows_follow_def by (metis F_trans)

lemma rows_insert: "key r \<notin> key ` set xs \<Longrightarrow> ok r \<Longrightarrow> rows_follow key ok F xs (xs @ [r])"
  using F_refl by (auto simp: rows_follow_def)

lemma rows_map:
  assumes "\<And>r. P r \<Longrightarrow> ok r \<Longrightarrow> ok (f r) \<and> key (f r) = key r \<and> F r (f r)"
  shows "rows_follow key ok F xs (map (\<lambda>r. if P r then f r else r) xs)"
  unfolding rows_follow_def
proof safe
  let ?g = "\<lambda>r. if P r then f r else r"
  assume d: "distinct (map key xs)" and o: "list_all ok xs"
  have g: "ok (?g r) \<and> key (?g r) = key r \<and> F r (?g r)" if "r \<in> set xs" for r
    using assms [of r] that o F_refl by (auto simp: list_all_iff)
  then have "map (key \<circ> ?g) xs = map key xs" by simp
  with d show "distinct (map key (map ?g xs))" by (simp only: map_map)
  from assms o show "list_all ok (map ?g xs)" by (auto simp: list_all_iff)
  fix r
  assume "r \<in> set xs"
  with g [of r] show "\<exists>r' \<in> set (map ?g xs). key r' = key r \<and> F r r'"
    by (intro bexI [of _ "?g r"]) auto
qed

lemma rows_update:
  assumes "\<And>r. P r \<Longrightarrow> ok r \<Longrightarrow> ok (f r) \<and> key (f r) = key r \<and> F r (f r)"
  shows "rows_follow key ok F xs (fst (sql_update P f xs))"
  using rows_map [OF assms] by (simp add: sql_update_def)

end

sublocale keyed_rows \<subseteq> table_order "\<lambda>s t. rows_follow key ok F (rows s) (rows t)"
  by unfold_locales (blast intro: rows_refl rows_trans)+

end
