(* ===== verification/Callback_Action.thy ===== *)
theory Callback_Action
  imports Sql_Monad
begin

text \<open>
  The actions behind Telegram buttons, \<^verbatim>\<open>src/modules/telegram/callback.rs\<close>: \<open>callback_action\<close> with its
  textual form and its parser, and the opaque tokens that replace the textual form before a panel
  is sent. A \<^verbatim>\<open>usize\<close> is a natural number below \<open>2 ^ 64\<close>.
\<close>

section \<open>Actions\<close>

datatype model_purpose = Purpose_Chat | Purpose_Compression

datatype callback_action =
    CA_Home
  | CA_Help
  | CA_Settings
  | CA_Status
  | CA_Now
  | CA_Characters (ca_page: nat)
  | CA_SelectCharacter (ca_page: nat) (ca_index: nat)
  | CA_History (ca_page: nat)
  | CA_SelectHistory (ca_page: nat) (ca_index: nat)
  | CA_Recent (ca_page: nat)
  | CA_SelectRecent (ca_page: nat) (ca_index: nat)
  | CA_Providers (ca_purpose: model_purpose) (ca_page: nat)
  | CA_ProviderModels (ca_purpose: model_purpose) (ca_provider_key: string) (ca_page: nat)
  | CA_SelectModel (ca_purpose: model_purpose) (ca_provider_key: string) (ca_model_index: nat)
  | CA_SelectModelById (ca_purpose: model_purpose) (ca_provider_key: string) (ca_model_id: string)
  | CA_ResetModel (ca_purpose: model_purpose)

definition usize_max :: nat where
  "usize_max = 2 ^ 64 - 1"

fun purpose_token :: "model_purpose \<Rightarrow> string" where
  "purpose_token Purpose_Chat = ''chat''"
| "purpose_token Purpose_Compression = ''comp''"

text \<open>The fields a textual form joins by colons.\<close>

fun action_fields :: "callback_action \<Rightarrow> string list" where
  "action_fields CA_Home = [''home'']"
| "action_fields CA_Help = [''help'']"
| "action_fields CA_Settings = [''settings'']"
| "action_fields CA_Status = [''status'']"
| "action_fields CA_Now = [''now'']"
| "action_fields (CA_Characters p) = [''chars'', nat_to_string p]"
| "action_fields (CA_SelectCharacter p i) = [''sel_char'', nat_to_string p, nat_to_string i]"
| "action_fields (CA_History p) = [''hist'', nat_to_string p]"
| "action_fields (CA_SelectHistory p i) = [''sel_hist'', nat_to_string p, nat_to_string i]"
| "action_fields (CA_Recent p) = [''recent'', nat_to_string p]"
| "action_fields (CA_SelectRecent p i) = [''sel_recent'', nat_to_string p, nat_to_string i]"
| "action_fields (CA_Providers u p) = [''prov'', purpose_token u, nat_to_string p]"
| "action_fields (CA_ProviderModels u k p) = [''p_mdl'', purpose_token u, k, nat_to_string p]"
| "action_fields (CA_SelectModel u k i) = [''sel_mdl'', purpose_token u, k, nat_to_string i]"
| "action_fields (CA_SelectModelById u k m) = [''sel_mdl_id'', purpose_token u, k, m]"
| "action_fields (CA_ResetModel u) = [''rst_mdl'', purpose_token u]"

definition legacy_data :: "callback_action \<Rightarrow> string" where
  "legacy_data a = join_with '':'' (''cb'' # action_fields a)"

definition serialize_callback :: "callback_action \<Rightarrow> string app_result" where
  "serialize_callback a =
     (if length (legacy_data a) > 4096
      then Inl (bad_request ''TELEGRAM_CALLBACK_TOO_LONG'' ''callback template exceeds the internal limit'')
      else Inr (legacy_data a))"

section \<open>Parsing\<close>

definition callback_invalid :: "string \<Rightarrow> app_error" where
  "callback_invalid msg = bad_request ''TELEGRAM_CALLBACK_INVALID'' msg"

definition digits_value :: "string \<Rightarrow> nat" where
  "digits_value s = foldl (\<lambda>n c. 10 * n + (byte c - 48)) 0 s"

text \<open>\<^verbatim>\<open>str::parse::<usize>\<close>: an optional plus sign and at least one digit, without overflow.\<close>

definition parse_usize :: "string \<Rightarrow> nat option" where
  "parse_usize s =
     (let d = (case s of c # t \<Rightarrow> if c = CHR ''+'' then t else s | [] \<Rightarrow> []) in
      if d \<noteq> [] \<and> list_all is_ascii_digit d \<and> digits_value d \<le> usize_max then Some (digits_value d) else None)"

definition usize_field :: "string \<Rightarrow> nat app_result" where
  "usize_field s = ok_or (callback_invalid (''callback '' @ utf8_encode [21442, 25968, 26080, 25928])) (parse_usize s)"

definition purpose_field :: "string \<Rightarrow> model_purpose app_result" where
  "purpose_field s =
     (if s = ''chat'' then Inr Purpose_Chat
      else if s = ''comp'' \<or> s = ''compression'' then Inr Purpose_Compression
      else Inl (callback_invalid (''callback '' @ utf8_encode [27169, 22411, 29992, 36884, 26080, 25928])))"

definition page_action :: "(nat \<Rightarrow> callback_action) \<Rightarrow> string \<Rightarrow> callback_action app_result" where
  "page_action f p = map_ok f (usize_field p)"

definition select_action :: "(nat \<Rightarrow> nat \<Rightarrow> callback_action) \<Rightarrow> string \<Rightarrow> string \<Rightarrow> callback_action app_result" where
  "select_action f p i = bind_r (usize_field p) (\<lambda>p. map_ok (f p) (usize_field i))"

fun action_of_fields :: "string \<Rightarrow> string list \<Rightarrow> callback_action app_result" where
  "action_of_fields k [] =
     (if k = ''home'' then Inr CA_Home
      else if k = ''help'' then Inr CA_Help
      else if k = ''settings'' then Inr CA_Settings
      else if k = ''status'' then Inr CA_Status
      else if k = ''now'' then Inr CA_Now
      else Inl (callback_invalid (utf8_encode [26410, 30693, 25110, 26684, 24335, 38169, 35823, 30340] @ '' callback'')))"
| "action_of_fields k [a] =
     (if k = ''chars'' then page_action CA_Characters a
      else if k = ''hist'' then page_action CA_History a
      else if k = ''recent'' then page_action CA_Recent a
      else if k = ''rst_mdl'' then map_ok CA_ResetModel (purpose_field a)
      else Inl (callback_invalid (utf8_encode [26410, 30693, 25110, 26684, 24335, 38169, 35823, 30340] @ '' callback'')))"
| "action_of_fields k [a, b] =
     (if k = ''sel_char'' then select_action CA_SelectCharacter a b
      else if k = ''sel_hist'' then select_action CA_SelectHistory a b
      else if k = ''sel_recent'' then select_action CA_SelectRecent a b
      else if k = ''prov'' then bind_r (purpose_field a) (\<lambda>u. page_action (CA_Providers u) b)
      else Inl (callback_invalid (utf8_encode [26410, 30693, 25110, 26684, 24335, 38169, 35823, 30340] @ '' callback'')))"
| "action_of_fields k [a, b, c] =
     (if k = ''p_mdl'' then bind_r (purpose_field a) (\<lambda>u. page_action (CA_ProviderModels u b) c)
      else if k = ''sel_mdl'' then bind_r (purpose_field a) (\<lambda>u. page_action (CA_SelectModel u b) c)
      else if k = ''sel_mdl_id'' then map_ok (\<lambda>u. CA_SelectModelById u b c) (purpose_field a)
      else Inl (callback_invalid (utf8_encode [26410, 30693, 25110, 26684, 24335, 38169, 35823, 30340] @ '' callback'')))"
| "action_of_fields k _ = Inl (callback_invalid (utf8_encode [26410, 30693, 25110, 26684, 24335, 38169, 35823, 30340] @ '' callback''))"

definition parse_legacy_callback_data :: "string \<Rightarrow> callback_action app_result" where
  "parse_legacy_callback_data d =
     (if length d > 4096
      then Inl (bad_request ''TELEGRAM_CALLBACK_TOO_LONG'' (''Telegram callback_data '' @ utf8_encode [36229, 36807] @ '' 64 '' @ utf8_encode [23383, 33410]))
      else case split_on CHR '':'' d of
             cb # k # args \<Rightarrow>
               if cb \<noteq> ''cb'' then Inl (callback_invalid (''callback '' @ utf8_encode [21069, 32512, 26080, 25928])) else action_of_fields k args
           | [cb] \<Rightarrow>
               if cb \<noteq> ''cb'' then Inl (callback_invalid (''callback '' @ utf8_encode [21069, 32512, 26080, 25928]))
               else Inl (callback_invalid (utf8_encode [26410, 30693, 25110, 26684, 24335, 38169, 35823, 30340] @ '' callback''))
           | [] \<Rightarrow> Inl (callback_invalid (''callback '' @ utf8_encode [21069, 32512, 26080, 25928])))"

definition opaque_callback :: "string \<Rightarrow> string" where
  "opaque_callback d = (case parse_legacy_callback_data d of Inr a \<Rightarrow> legacy_data a | Inl _ \<Rightarrow> d)"

section \<open>Opaque tokens\<close>

definition OPAQUE_CALLBACK_DATA_BYTES :: nat where
  "OPAQUE_CALLBACK_DATA_BYTES = 35"

definition MAX_CALLBACK_DATA_BYTES :: nat where
  "MAX_CALLBACK_DATA_BYTES = 64"

definition is_ascii_hexdigit :: "char \<Rightarrow> bool" where
  "is_ascii_hexdigit c \<longleftrightarrow>
     is_ascii_digit c \<or> (97 \<le> byte c \<and> byte c \<le> 102) \<or> (65 \<le> byte c \<and> byte c \<le> 70)"

definition opaque_token :: "string \<Rightarrow> bool" where
  "opaque_token d \<longleftrightarrow>
     length d = OPAQUE_CALLBACK_DATA_BYTES \<and> list_all (\<lambda>c. byte c < 128) d \<and> starts_with d ''cb:''
     \<and> list_all is_ascii_hexdigit (drop 3 d)"

definition validate_opaque_token :: "string \<Rightarrow> unit app_result" where
  "validate_opaque_token d =
     (if opaque_token d then Inr () else Inl (callback_invalid (''callback token '' @ utf8_encode [26080, 25928, 25110, 24050, 36807, 26399])))"

definition hex_char :: "nat \<Rightarrow> char" where
  "hex_char n = (if n < 10 then digit_char n else char_of (87 + n))"

definition hex_encode :: "nat list \<Rightarrow> string" where
  "hex_encode bs = concat (map (\<lambda>b. [hex_char (b div 16), hex_char (b mod 16)]) bs)"

definition token_of :: "nat list \<Rightarrow> string" where
  "token_of raw = ''cb:'' @ hex_encode raw"

section \<open>The textual form\<close>

definition usize_ok :: "callback_action \<Rightarrow> bool" where
  "usize_ok a \<longleftrightarrow> (case a of
      CA_Characters p \<Rightarrow> p \<le> usize_max | CA_SelectCharacter p i \<Rightarrow> p \<le> usize_max \<and> i \<le> usize_max
    | CA_History p \<Rightarrow> p \<le> usize_max | CA_SelectHistory p i \<Rightarrow> p \<le> usize_max \<and> i \<le> usize_max
    | CA_Recent p \<Rightarrow> p \<le> usize_max | CA_SelectRecent p i \<Rightarrow> p \<le> usize_max \<and> i \<le> usize_max
    | CA_Providers u p \<Rightarrow> p \<le> usize_max | CA_ProviderModels u k p \<Rightarrow> p \<le> usize_max
    | CA_SelectModel u k i \<Rightarrow> i \<le> usize_max | _ \<Rightarrow> True)"

definition colon_free :: "callback_action \<Rightarrow> bool" where
  "colon_free a \<longleftrightarrow> (case a of
      CA_ProviderModels u k p \<Rightarrow> CHR '':'' \<notin> set k
    | CA_SelectModel u k i \<Rightarrow> CHR '':'' \<notin> set k
    | CA_SelectModelById u k m \<Rightarrow> CHR '':'' \<notin> set k \<and> CHR '':'' \<notin> set m
    | _ \<Rightarrow> True)"

lemma digits_value_snoc: "digits_value (s @ [c]) = 10 * digits_value s + (byte c - 48)"
  by (simp add: digits_value_def)

lemma digits_value_print [simp]: "digits_value (nat_to_string n) = n"
proof (induction n rule: nat_to_string.induct)
  case (1 n)
  show ?case
  proof (cases "n < 10")
    case True
    then show ?thesis
      by (simp add: nat_to_string.simps [of n] byte_digit_char digits_value_def)
  next
    case False
    with 1 show ?thesis
      by (simp add: nat_to_string.simps [of n] digits_value_snoc byte_digit_char)
  qed
qed

lemma parse_usize_print [simp]: "n \<le> usize_max \<Longrightarrow> parse_usize (nat_to_string n) = Some n"
proof -
  assume n: "n \<le> usize_max"
  have dig: "list_all is_ascii_digit (nat_to_string n)"
    by (simp add: list_all_iff nat_to_string_bytes)
  then have plus: "nat_to_string n \<noteq> CHR ''+'' # t" for t
    by (auto simp: is_ascii_digit_def)
  have "(case nat_to_string n of c # t \<Rightarrow> if c = CHR ''+'' then t else nat_to_string n | [] \<Rightarrow> []) = nat_to_string n"
    using plus by (auto split: list.split)
  then show ?thesis
    using n dig by (simp add: parse_usize_def Let_def)
qed

lemma usize_field_print [simp]: "n \<le> usize_max \<Longrightarrow> usize_field (nat_to_string n) = Inr n"
  by (simp add: usize_field_def)

lemma purpose_field_token [simp]: "purpose_field (purpose_token u) = Inr u"
  by (cases u) (auto simp: purpose_field_def)

lemma colon_not_in_print [simp]: "CHR '':'' \<notin> set (nat_to_string n)"
  using nat_to_string_bytes [of "CHR '':''" n] by (auto simp: is_ascii_digit_def)

lemma colon_not_in_token [simp]: "CHR '':'' \<notin> set (purpose_token u)"
  by (cases u) auto

lemma action_of_action_fields:
  "usize_ok a \<Longrightarrow> action_of_fields (hd (action_fields a)) (tl (action_fields a)) = Inr a"
  by (cases a) (simp_all add: usize_ok_def page_action_def select_action_def)

lemma split_on_length: "length (split_on d s) = Suc (count_list s d)"
proof (induction s)
  case Nil
  then show ?case by simp
next
  case (Cons c s)
  then show ?case by (cases "split_on d s") auto
qed

lemma count_list_append [simp]: "count_list (xs @ ys) a = count_list xs a + count_list ys a"
  by (induction xs) auto

lemma count_list_0 [simp]: "a \<notin> set xs \<Longrightarrow> count_list xs a = 0"
  by (simp add: count_list_0_iff)

lemma action_of_long: "3 < length args \<Longrightarrow> \<exists>e. action_of_fields k args = Inl e"
  by (cases "(k, args)" rule: action_of_fields.cases) auto

lemma colon_fields:
  assumes "\<not> colon_free a"
  shows "5 < length (split_on CHR '':'' (legacy_data a))"
proof -
  have pos: "CHR '':'' \<in> set s \<Longrightarrow> 0 < count_list s CHR '':''" for s
    by (metis count_list_0_iff neq0_conv)
  show ?thesis
    using assms by (cases a) (auto simp: colon_free_def legacy_data_def split_on_length dest: pos)
qed

lemma split_legacy_data:
  assumes "colon_free a"
  shows "split_on CHR '':'' (legacy_data a) = ''cb'' # action_fields a"
  unfolding legacy_data_def
  using assms by (intro split_on_join) (cases a; auto simp: colon_free_def)+

lemma parse_colon:
  assumes "\<not> colon_free a"
  shows "\<exists>e. parse_legacy_callback_data (legacy_data a) = Inl e"
proof -
  from colon_fields [OF assms] obtain cb k args
    where "split_on CHR '':'' (legacy_data a) = cb # k # args" "3 < length args"
    by (cases "split_on CHR '':'' (legacy_data a)"; cases "tl (split_on CHR '':'' (legacy_data a))") auto
  with action_of_long [of args k] show ?thesis by (auto simp: parse_legacy_callback_data_def)
qed

lemma parse_legacy_data:
  assumes "usize_ok a" "colon_free a" "length (legacy_data a) \<le> 4096"
  shows "parse_legacy_callback_data (legacy_data a) = Inr a"
  using assms action_of_action_fields [OF assms(1)]
  by (cases "action_fields a")
     (auto simp: parse_legacy_callback_data_def split_legacy_data elim: action_fields.elims)

lemma opaque_legacy_data [simp]:
  "usize_ok a \<Longrightarrow> opaque_callback (legacy_data a) = legacy_data a"
  using parse_legacy_data [of a] parse_colon [of a]
  by (cases "length (legacy_data a) \<le> 4096"; cases "colon_free a")
     (auto simp: opaque_callback_def, auto simp: parse_legacy_callback_data_def)

lemma length_nat_to_string: "n < 10 ^ Suc k \<Longrightarrow> length (nat_to_string n) \<le> Suc k"
proof (induction k arbitrary: n)
  case 0
  then show ?case by (simp add: nat_to_string.simps [of n])
next
  case (Suc k)
  show ?case
  proof (cases "n < 10")
    case True
    then show ?thesis by (simp add: nat_to_string.simps [of n])
  next
    case False
    from Suc.prems have "n div 10 < 10 ^ Suc k" by (simp add: div_less_iff_less_mult)
    from Suc.IH [OF this] False show ?thesis by (simp add: nat_to_string.simps [of n])
  qed
qed

lemma length_usize: "n \<le> usize_max \<Longrightarrow> length (nat_to_string n) \<le> 20"
  using length_nat_to_string [of n 19] by (simp add: usize_max_def)

text \<open>C35. The text of a button is read back as its action when the text is at most 4096 bytes long
  and neither the provider key nor the model identifier contains a colon; otherwise it is
  rejected. It is never read as another action.\<close>

theorem callback_text_roundtrip:
  assumes "usize_ok a"
  shows "parse_legacy_callback_data (legacy_data a) = Inr b
           \<longleftrightarrow> b = a \<and> colon_free a \<and> length (legacy_data a) \<le> 4096"
proof -
  have "\<exists>e. parse_legacy_callback_data (legacy_data a) = Inl e" if "\<not> length (legacy_data a) \<le> 4096"
    using that by (simp add: parse_legacy_callback_data_def)
  with parse_colon [of a] parse_legacy_data [OF assms] show ?thesis by fastforce
qed

theorem callback_text_roundtrip_witness:
  "parse_legacy_callback_data (legacy_data (CA_SelectModelById Purpose_Chat ''openai'' ''gpt-4''))
      = Inr (CA_SelectModelById Purpose_Chat ''openai'' ''gpt-4'')
   \<and> (\<forall>b. parse_legacy_callback_data (legacy_data (CA_SelectModelById Purpose_Chat ''openrouter'' ''m:free'')) \<noteq> Inr b)"
proof -
  have "colon_free (CA_SelectModelById Purpose_Chat ''openai'' ''gpt-4'')"
    "\<not> colon_free (CA_SelectModelById Purpose_Chat ''openrouter'' ''m:free'')"
    "length (legacy_data (CA_SelectModelById Purpose_Chat ''openai'' ''gpt-4'')) \<le> 4096"
    by (simp_all add: colon_free_def legacy_data_def)
  then show ?thesis
    using callback_text_roundtrip [of "CA_SelectModelById Purpose_Chat ''openai'' ''gpt-4''"]
      callback_text_roundtrip [of "CA_SelectModelById Purpose_Chat ''openrouter'' ''m:free''"]
    by (simp add: usize_ok_def)
qed

section \<open>Tokens\<close>

lemma hex_char_ok: "n < 16 \<Longrightarrow> is_ascii_hexdigit (hex_char n) \<and> byte (hex_char n) < 128"
  by (auto simp: hex_char_def is_ascii_hexdigit_def is_ascii_digit_def byte_digit_char)

lemma length_hex_encode: "length (hex_encode bs) = 2 * length bs"
  by (induction bs) (auto simp: hex_encode_def)

lemma token_of_opaque:
  assumes "length raw = 16" "\<forall>b \<in> set raw. b < 256"
  shows "opaque_token (token_of raw)"
proof -
  have "is_ascii_hexdigit c \<and> byte c < 128" if "c \<in> set (hex_encode raw)" for c
    using that assms(2) by (auto simp: hex_encode_def intro!: hex_char_ok conjunct1 [OF hex_char_ok] conjunct2 [OF hex_char_ok])
  then show ?thesis
    using assms(1) by (auto simp: opaque_token_def token_of_def OPAQUE_CALLBACK_DATA_BYTES_def
        length_hex_encode list_all_iff)
qed

text \<open>A token is never the text of an action, so a button that could not be bound is not a token.\<close>

lemma legacy_data_not_opaque:
  assumes "\<not> colon_free a"
  shows "\<not> opaque_token (legacy_data a)"
proof
  assume t: "opaque_token (legacy_data a)"
  have "CHR '':'' \<notin> set (drop 3 (legacy_data a))"
    using t by (auto simp: opaque_token_def list_all_iff is_ascii_hexdigit_def is_ascii_digit_def)
  then have "count_list (drop 3 (legacy_data a)) CHR '':'' = 0" by simp
  moreover have "count_list (take 3 (legacy_data a)) CHR '':'' \<le> 3"
    using count_le_length [of "take 3 (legacy_data a)" "CHR '':''"] by simp
  ultimately have "count_list (legacy_data a) CHR '':'' \<le> 3"
    using count_list_append [of "take 3 (legacy_data a)" "drop 3 (legacy_data a)" "CHR '':''"] by simp
  with colon_fields [OF assms] show False by (simp add: split_on_length)
qed

end
