(* ===== verification/Telegram_Panel.thy ===== *)
theory Telegram_Panel
  imports Bridge_Engine Callback_Action Text_Split
begin

text \<open>
  The panels of the Telegram bot, \<^verbatim>\<open>src/modules/telegram/panel.rs\<close>: texts with inline keyboards, one
  function per panel, the registry that finds the panel of a reply again, and the plan that turns a
  panel into an effect on the panel slot of a chat.
\<close>

section \<open>Data\<close>

fun display_name :: "model_purpose \<Rightarrow> string" where
  "display_name Purpose_Chat = (utf8_encode [32842, 22825])"
| "display_name Purpose_Compression = (utf8_encode [21387, 32553])"

datatype panel_kind =
    PK_Home
  | PK_Help
  | PK_Settings
  | PK_Status
  | PK_Characters nat
  | PK_History nat
  | PK_Recent nat
  | PK_CurrentState
  | PK_Providers model_purpose nat
  | PK_ProviderModels model_purpose string nat
  | PK_OperationProgress string

datatype panel_parse_mode = PlainText | MarkdownV2

record inline_button =
  ib_label :: string
  ib_callback_data :: string

record telegram_panel =
  tp_kind :: panel_kind
  tp_revision :: u64
  tp_catalog_revision :: "string option"
  tp_text :: string
  tp_keyboard :: "inline_button list list"
  tp_parse_mode :: panel_parse_mode

record panel_slot =
  ps_panel_id :: string
  ps_account_id :: string
  ps_numeric_bot_id :: i64
  ps_chat_id :: i64
  ps_message_id :: i64
  ps_kind :: panel_kind
  ps_revision :: u64
  ps_active :: bool
  ps_expires_at_unix :: i64

datatype panel_effect =
    PE_Create string i64 telegram_panel
  | PE_Replace panel_slot u64 telegram_panel
  | PE_Toast string string bool
  | PE_RetireKeyboard panel_slot
  | PE_DeleteChunk i64 i64 string
  | PE_FallbackSend panel_slot telegram_panel string

section \<open>Labels\<close>

definition is_protected_text :: "string \<Rightarrow> bool" where
  "is_protected_text v =
     (let l = to_ascii_lowercase v in
      contains_str l ''http://'' \<or> contains_str l ''https://'' \<or> contains_str l ''bearer ''
      \<or> contains_str l ''token='' \<or> contains_str l ''api_key='' \<or> contains_str l ''secret'')"

definition protected_object :: string where
  "protected_object = (utf8_encode [21463, 20445, 25252, 23545, 35937])"

definition redact_label :: "string \<Rightarrow> string" where
  "redact_label v =
     (let v = trim v in if is_protected_text v then protected_object else take_chars 96 v)"

definition split_current_preview :: "string \<Rightarrow> string list option" where
  "split_current_preview v =
     (let v = trim v in
      if v = [] then Some []
      else if is_protected_text v then Some [protected_object]
      else split_text v 3200)"

fun breadcrumb :: "panel_kind \<Rightarrow> string" where
  "breadcrumb PK_Home = (utf8_encode [39318, 39029])"
| "breadcrumb PK_Help = (utf8_encode [39318, 39029] @ '' > '' @ utf8_encode [24110, 21161])"
| "breadcrumb PK_Settings = (utf8_encode [39318, 39029] @ '' > '' @ utf8_encode [35774, 32622])"
| "breadcrumb PK_Status = (utf8_encode [39318, 39029] @ '' > '' @ utf8_encode [29366, 24577])"
| "breadcrumb (PK_Characters _) = (utf8_encode [39318, 39029] @ '' > '' @ utf8_encode [35282, 33394, 21015, 34920])"
| "breadcrumb (PK_History _) = (utf8_encode [39318, 39029] @ '' > '' @ utf8_encode [21382, 21490, 20250, 35805])"
| "breadcrumb (PK_Recent _) = (utf8_encode [39318, 39029] @ '' > '' @ utf8_encode [26368, 36817, 20250, 35805])"
| "breadcrumb PK_CurrentState = (utf8_encode [39318, 39029] @ '' > '' @ utf8_encode [24403, 21069, 20250, 35805])"
| "breadcrumb (PK_Providers u _) = (utf8_encode [39318, 39029] @ '' > '') @ display_name u @ (utf8_encode [27169, 22411] @ '' > '' @ utf8_encode [21378, 21830, 36873, 25321])"
| "breadcrumb (PK_ProviderModels u k _) = (utf8_encode [39318, 39029] @ '' > '') @ display_name u @ (utf8_encode [27169, 22411] @ '' > '') @ redact_label k"
| "breadcrumb (PK_OperationProgress _) = (utf8_encode [39318, 39029] @ '' > '' @ utf8_encode [25805, 20316, 36827, 24230])"

section \<open>Registry of rendered panels\<close>

text \<open>A hash map: its iteration order, hence the entry evicted when it is full, is the argument
  \<open>iter\<close>; \<open>print\<close> is the JSON text of a keyboard.\<close>

type_synonym panel_registry = "(string \<times> telegram_panel) list"

definition panel_key :: "(inline_button list list \<Rightarrow> string) \<Rightarrow> string \<Rightarrow> inline_button list list \<Rightarrow> string" where
  "panel_key print txt kb = txt @ '':'' @ print kb"

definition registry_remove :: "string \<Rightarrow> panel_registry \<Rightarrow> panel_registry" where
  "registry_remove k reg = filter (\<lambda>(j, _). j \<noteq> k) reg"

definition remember_panel ::
    "(inline_button list list \<Rightarrow> string) \<Rightarrow> (panel_registry \<Rightarrow> panel_registry) \<Rightarrow> telegram_panel
      \<Rightarrow> panel_registry \<Rightarrow> panel_registry" where
  "remember_panel print iter p reg =
     (let reg' = (if length reg \<ge> 256
                  then (case iter reg of (k, _) # _ \<Rightarrow> registry_remove k reg | [] \<Rightarrow> reg) else reg);
          k = panel_key print (tp_text p) (tp_keyboard p) in
      (k, p) # registry_remove k reg')"

definition lookup_panel ::
    "(inline_button list list \<Rightarrow> string) \<Rightarrow> string \<Rightarrow> inline_button list list \<Rightarrow> panel_registry
      \<Rightarrow> telegram_panel option" where
  "lookup_panel print txt kb reg = map_of reg (panel_key print txt kb)"

definition markup_invalid :: "string \<Rightarrow> app_error" where
  "markup_invalid msg = bad_request ''TELEGRAM_PANEL_MARKUP_INVALID'' msg"

definition button_from_markup :: "json \<Rightarrow> inline_button app_result" where
  "button_from_markup j =
     bind_r (case j of JObject _ \<Rightarrow> Inr j | _ \<Rightarrow> Inl (markup_invalid (''Telegram '' @ utf8_encode [38754, 26495, 25353, 38062, 26684, 24335, 26080, 25928]))) (\<lambda>j.
     bind_r (ok_or (markup_invalid (''Telegram '' @ utf8_encode [38754, 26495, 25353, 38062, 32570, 23569, 25991, 26412])) (get_str j ''text'')) (\<lambda>l.
     bind_r (ok_or (markup_invalid (''Telegram '' @ utf8_encode [38754, 26495, 25353, 38062, 32570, 23569, 22238, 35843, 20196, 29260])) (get_str j ''callback_data'')) (\<lambda>d.
     Inr \<lparr> ib_label = l, ib_callback_data = d \<rparr>)))"

definition row_from_markup :: "json \<Rightarrow> inline_button list app_result" where
  "row_from_markup j =
     bind_r (ok_or (markup_invalid (''Telegram '' @ utf8_encode [38754, 26495, 25353, 38062, 34892, 26684, 24335, 26080, 25928])) (as_array j)) (collect_results button_from_markup)"

definition keyboard_from_markup :: "json \<Rightarrow> inline_button list list app_result" where
  "keyboard_from_markup markup =
     bind_r (ok_or (markup_invalid (''Telegram '' @ utf8_encode [38754, 26495, 38190, 30424, 26684, 24335, 26080, 25928])) (Option.bind (json_get markup ''inline_keyboard'') as_array))
       (collect_results row_from_markup)"

section \<open>Plans\<close>

definition saturating_inc :: "u64 \<Rightarrow> u64" where
  "saturating_inc r = (if r = - 1 then r else r + 1)"

definition plan_effect ::
    "i64 \<Rightarrow> panel_slot option \<Rightarrow> telegram_panel \<Rightarrow> string \<Rightarrow> string \<Rightarrow> i64 \<Rightarrow> i64 \<Rightarrow> i64 \<Rightarrow> panel_effect \<times> panel_slot" where
  "plan_effect now cur nxt pid acc nbot chat ttl_secs =
     (let expires = now + max ttl_secs 0 in
      case (case cur of Some s \<Rightarrow> if ps_active s then Some s else None | None \<Rightarrow> None) of
        Some s \<Rightarrow>
          (let r = saturating_inc (ps_revision s); p = nxt\<lparr>tp_revision := r\<rparr> in
           (PE_Replace s (ps_revision s) p,
            s\<lparr>ps_kind := tp_kind p, ps_revision := r, ps_active := True, ps_expires_at_unix := expires\<rparr>))
      | None \<Rightarrow>
          (PE_Create pid chat nxt,
           \<lparr> ps_panel_id = pid, ps_account_id = acc, ps_numeric_bot_id = nbot, ps_chat_id = chat,
             ps_message_id = 0, ps_kind = tp_kind nxt, ps_revision = 0, ps_active = True,
             ps_expires_at_unix = expires \<rparr>))"

section \<open>Rendering\<close>

definition make_panel :: "panel_kind \<Rightarrow> string \<Rightarrow> inline_button list list \<Rightarrow> telegram_panel" where
  "make_panel k t kb = \<lparr> tp_kind = k, tp_revision = 0, tp_catalog_revision = None, tp_text = t,
     tp_keyboard = kb, tp_parse_mode = PlainText \<rparr>"

definition make_button :: "string \<Rightarrow> string \<Rightarrow> inline_button" where
  "make_button l d = \<lparr> ib_label = l, ib_callback_data = opaque_callback d \<rparr>"

definition home_button :: "inline_button list" where
  "home_button = [make_button (utf8_encode [36820, 22238, 39318, 39029]) ''cb:home'']"

definition provider_models_callback :: "model_purpose \<Rightarrow> string \<Rightarrow> nat \<Rightarrow> string" where
  "provider_models_callback u k p = legacy_data (CA_ProviderModels u k p)"

definition select_model_callback :: "model_purpose \<Rightarrow> string \<Rightarrow> string \<Rightarrow> string" where
  "select_model_callback u k m = legacy_data (CA_SelectModelById u k m)"

definition page_buttons :: "nat \<Rightarrow> nat \<Rightarrow> (nat \<Rightarrow> string) \<Rightarrow> inline_button list" where
  "page_buttons page pages token =
     (if page > 0 then [make_button (utf8_encode [19978, 19968, 39029]) (token (page - 1))] else [])
     @ (if page + 1 < pages then [make_button (utf8_encode [19979, 19968, 39029]) (token (page + 1))] else [])"

definition nonempty_row :: "'a list \<Rightarrow> 'a list list" where
  "nonempty_row r = (if r = [] then [] else [r])"

definition total_pages :: "nat \<Rightarrow> nat \<Rightarrow> nat" where
  "total_pages n page_size = max ((n + page_size - 1) div page_size) 1"

text \<open>The loop that fills rows of two buttons.\<close>

fun in_pairs :: "'a list \<Rightarrow> 'a list list" where
  "in_pairs [] = []"
| "in_pairs [x] = [[x]]"
| "in_pairs (x # y # zs) = [x, y] # in_pairs zs"

definition PAGE_SIZE :: nat where
  "PAGE_SIZE = 8"

definition line :: "nat \<Rightarrow> string \<Rightarrow> string" where
  "line i s = LF # nat_to_string i @ ''. '' @ s"

definition render_home :: telegram_panel where
  "render_home = make_panel PK_Home (utf8_encode [39318, 39029, 10, 35831, 36873, 25321, 19968, 20010, 21151, 33021, 65306])
     [[make_button (utf8_encode [35282, 33394]) ''cb:chars:0'', make_button (utf8_encode [21382, 21490]) ''cb:hist:0''],
      [make_button (utf8_encode [26368, 36817]) ''cb:recent:0'', make_button (utf8_encode [24403, 21069]) ''cb:now''],
      [make_button (utf8_encode [35774, 32622]) ''cb:settings'', make_button (utf8_encode [29366, 24577]) ''cb:status''],
      [make_button (utf8_encode [24110, 21161]) ''cb:help'']]"

definition help_text :: string where
  "help_text = join_with [LF]
     [(utf8_encode [39318, 39029] @ '' > '' @ utf8_encode [24110, 21161]), [], (utf8_encode [21487, 29992, 21629, 20196, 65306]), (''/start - '' @ utf8_encode [25171, 24320, 39318, 39029]), (''/help - '' @ utf8_encode [26597, 30475, 24110, 21161]), (''/chars - '' @ utf8_encode [36873, 25321, 35282, 33394]),
      (''/hist - '' @ utf8_encode [26597, 30475, 21382, 21490, 20250, 35805]), (''/recent - '' @ utf8_encode [26597, 30475, 26368, 36817, 20250, 35805]), (''/now - '' @ utf8_encode [26597, 30475, 24403, 21069, 20250, 35805]), (''/model - '' @ utf8_encode [20999, 25442, 32842, 22825, 27169, 22411]),
      (''/cmodel - '' @ utf8_encode [20999, 25442, 21387, 32553, 27169, 22411]), (''/settings - '' @ utf8_encode [26597, 30475, 27169, 22411, 35774, 32622]), (''/status - '' @ utf8_encode [26597, 30475, 36830, 25509, 29366, 24577]), (''/redo - '' @ utf8_encode [37325, 26032, 29983, 25104, 22238, 22797]),
      (''/undo - '' @ utf8_encode [25764, 22238, 26368, 21518, 19968, 36718, 65288, 20445, 30041, 28040,
       24687, 65289]), (''/revoke - '' @ utf8_encode [25764, 22238, 24182, 28165, 29702, 28040, 24687]), (''/compress - '' @ utf8_encode [21387, 32553, 24403, 21069, 20250, 35805]),
      (''/error - '' @ utf8_encode [26597, 30475, 26368, 36817, 38169, 35823])]"

definition render_help :: telegram_panel where
  "render_help = make_panel PK_Help help_text [home_button]"

definition label_or_default :: "string option \<Rightarrow> string" where
  "label_or_default v = (case v of Some s \<Rightarrow> redact_label s | None \<Rightarrow> (utf8_encode [40664, 35748]))"

definition render_settings :: "string option \<Rightarrow> string option \<Rightarrow> telegram_panel" where
  "render_settings chat_override comp_override =
     make_panel PK_Settings
       ((utf8_encode [39318, 39029] @ '' > '' @ utf8_encode [35774, 32622, 10, 10, 32842, 22825, 27169,
       22411, 35206, 30422, 65306]) @ label_or_default chat_override @ (utf8_encode [10, 21387, 32553, 27169, 22411, 35206, 30422, 65306])
          @ label_or_default comp_override)
       [[make_button (utf8_encode [32842, 22825, 27169, 22411]) ''cb:prov:chat:0''], [make_button (utf8_encode [21387, 32553, 27169, 22411]) ''cb:prov:comp:0''], home_button]"

definition render_status :: "string \<Rightarrow> string \<Rightarrow> i64 \<Rightarrow> string option \<Rightarrow> telegram_panel" where
  "render_status readiness locator nbot last_error =
     make_panel PK_Status
       ((utf8_encode [39318, 39029] @ '' > '' @ utf8_encode [29366, 24577, 10, 10, 23601, 32490, 29366,
       24577, 65306]) @ readiness @ (utf8_encode [10] @ ''Bot numeric ID'' @ utf8_encode [65306]) @ int_to_string nbot @ (utf8_encode [10, 23450, 20301, 22120, 65306])
          @ redact_label locator
          @ (case last_error of
               Some e \<Rightarrow> if trim e \<noteq> [] then (utf8_encode [10, 26368, 36817, 38169, 35823, 65306]) @ redact_label e else []
             | None \<Rightarrow> []))
       [[make_button (utf8_encode [21047, 26032]) ''cb:status''], home_button]"

definition page_header :: "string \<Rightarrow> nat \<Rightarrow> nat \<Rightarrow> string" where
  "page_header title page pages =
     title @ (utf8_encode [65288, 31532] @ '' '') @ nat_to_string (page + 1) @ '' / '' @ nat_to_string pages @ ('' '' @ utf8_encode [39029, 65289, 65306])"

definition render_characters :: "st_character_summary list \<Rightarrow> nat \<Rightarrow> nat \<Rightarrow> telegram_panel" where
  "render_characters cs page total_count =
     (let pages = total_pages (max total_count (length cs)) PAGE_SIZE;
          page = min page (pages - 1);
          items = enumerate 0 (map (redact_label \<circ> ch_name) cs);
          txt = page_header (utf8_encode [39318, 39029] @ '' > '' @ utf8_encode [35282, 33394, 21015, 34920, 10, 10, 35831,
       36873, 25321, 35282, 33394]) page pages
            @ (if cs = [] then (utf8_encode [10, 10, 24403, 21069, 27809, 26377, 21487, 35265, 35282, 33394, 12290, 35831, 21047,
       26032, 21518, 37325, 35797, 12290]) else [])
            @ concat (map (\<lambda>(i, n). line (i + 1) n) items);
          buttons = map (\<lambda>(i, n). make_button (nat_to_string (i + 1) @ '' '' @ n)
            (''cb:sel_char:'' @ nat_to_string page @ '':'' @ nat_to_string i)) items in
      make_panel (PK_Characters page) txt
        (in_pairs buttons @ nonempty_row (page_buttons page pages (\<lambda>v. ''cb:chars:'' @ nat_to_string v)) @ [home_button]))"

definition chat_title :: "st_chat_summary \<Rightarrow> string" where
  "chat_title c = (case sum_title c of Some t \<Rightarrow> t | None \<Rightarrow> sum_chat_file c)"

definition render_history :: "string \<Rightarrow> st_chat_summary list \<Rightarrow> nat \<Rightarrow> nat \<Rightarrow> telegram_panel" where
  "render_history name chats page total_count =
     (let pages = total_pages (max total_count (length chats)) PAGE_SIZE;
          page = min page (pages - 1);
          items = enumerate 0 (map (redact_label \<circ> chat_title) chats);
          txt = page_header ((utf8_encode [39318, 39029] @ '' > '' @ utf8_encode [21382, 21490, 20250, 35805, 10, 35282, 33394,
       65306]) @ redact_label name @ (utf8_encode [10, 10, 35831, 36873, 25321, 20250, 35805])) page pages
            @ (if chats = [] then (utf8_encode [10, 10, 24403, 21069, 35282, 33394, 36824, 27809, 26377, 21382, 21490, 20250, 35805,
       12290, 21457, 36865] @ '' /new '' @ utf8_encode [26032, 24314, 20250, 35805, 12290]) else [])
            @ concat (map (\<lambda>(i, n). line (i + 1) n) items);
          rows = map (\<lambda>(i, n). [make_button n (''cb:sel_hist:'' @ nat_to_string page @ '':'' @ nat_to_string i)]) items in
      make_panel (PK_History page) txt
        (rows @ nonempty_row (page_buttons page pages (\<lambda>v. ''cb:hist:'' @ nat_to_string v)) @ [home_button]))"

definition recent_label :: "st_channel_locator \<Rightarrow> string" where
  "recent_label c =
     (case (case cl_chat_file c of Some f \<Rightarrow> Some f | None \<Rightarrow> cl_character_name c) of
        Some n \<Rightarrow> redact_label n
      | None \<Rightarrow> (utf8_encode [26410, 21629, 21517, 20250, 35805]))"

definition render_recent :: "st_channel_locator list \<Rightarrow> nat \<Rightarrow> telegram_panel" where
  "render_recent channels page =
     (let pages = total_pages (length channels) PAGE_SIZE;
          page = min page (pages - 1);
          start = page * PAGE_SIZE;
          items = enumerate 0 (map recent_label (take PAGE_SIZE (drop start channels)));
          txt = page_header (utf8_encode [39318, 39029] @ '' > '' @ utf8_encode [26368, 36817, 20250, 35805, 10, 10, 26368,
       36817, 20250, 35805]) page pages
            @ (if channels = [] then (utf8_encode [10, 10, 36824, 27809, 26377, 26368, 36817, 20250, 35805, 12290]) else [])
            @ concat (map (\<lambda>(i, n). line (start + i + 1) n) items);
          rows = map (\<lambda>(i, n). [make_button n (''cb:sel_recent:'' @ nat_to_string page @ '':'' @ nat_to_string i)]) items in
      make_panel (PK_Recent page) txt
        (rows @ nonempty_row (page_buttons page pages (\<lambda>v. ''cb:recent:'' @ nat_to_string v)) @ [home_button]))"

definition render_current :: "string \<Rightarrow> string \<Rightarrow> nat option \<Rightarrow> string option \<Rightarrow> telegram_panel" where
  "render_current name chat_file cnt preview =
     (let shown_count = (case cnt of Some n \<Rightarrow> nat_to_string n | None \<Rightarrow> (utf8_encode [26410, 30693]));
          shown_preview = (case preview of Some p \<Rightarrow> if trim p \<noteq> [] then redact_label p else (utf8_encode [26242, 26080, 28040, 24687])
                           | None \<Rightarrow> (utf8_encode [26242, 26080, 28040, 24687])) in
      make_panel PK_CurrentState
        ((utf8_encode [39318, 39029] @ '' > '' @ utf8_encode [24403, 21069, 20250, 35805, 10, 10, 35282,
       33394, 65306]) @ redact_label name @ (utf8_encode [10, 20250, 35805, 65306]) @ redact_label chat_file @ (utf8_encode [10, 28040, 24687, 25968, 65306])
           @ shown_count @ (utf8_encode [10, 10, 26368, 36817, 20869, 23481, 65306, 10]) @ shown_preview)
        [[make_button (utf8_encode [21047, 26032]) ''cb:now''], [make_button (utf8_encode [21382, 21490]) ''cb:hist:0''], home_button])"

definition render_providers :: "model_purpose \<Rightarrow> string list \<Rightarrow> nat \<Rightarrow> nat \<Rightarrow> telegram_panel" where
  "render_providers u providers page total_count =
     (let pages = max total_count 1;
          page = min page (pages - 1);
          start = page * PAGE_SIZE;
          items = enumerate 0 (take PAGE_SIZE (drop start providers));
          txt = page_header ((utf8_encode [39318, 39029] @ '' > '') @ display_name u @ (utf8_encode [27169, 22411] @ '' > '' @ utf8_encode [21378, 21830, 36873, 25321, 10, 10, 35831,
       36873, 25321, 21378, 21830])) page pages
            @ (if providers = [] then (utf8_encode [10, 10, 24403, 21069, 27809, 26377, 21487, 29992, 27169, 22411, 21378, 21830, 12290,
       35831, 21047, 26032, 21518, 37325, 35797, 12290]) else [])
            @ concat (map (\<lambda>(i, n). line (start + i + 1) (redact_label n)) items);
          buttons = map (\<lambda>(i, n). make_button (redact_label n) (legacy_data (CA_ProviderModels u n page))) items in
      make_panel (PK_Providers u page) txt
        (in_pairs buttons @ [[make_button (utf8_encode [37325, 32622, 27169, 22411]) (''cb:rst_mdl:'' @ purpose_token u)]]
         @ nonempty_row (page_buttons page pages (\<lambda>v. ''cb:prov:'' @ purpose_token u @ '':'' @ nat_to_string v))
         @ [home_button]))"

definition render_provider_models ::
    "model_purpose \<Rightarrow> string \<Rightarrow> st_model_summary list \<Rightarrow> string option \<Rightarrow> nat \<Rightarrow> nat \<Rightarrow> telegram_panel" where
  "render_provider_models u key models cur page total_count =
     (let pages = max total_count 1;
          page = min page (pages - 1);
          start = page * PAGE_SIZE;
          items = enumerate 0 (take PAGE_SIZE (drop start models));
          marker = (\<lambda>m. if cur = Some (mod_id m) then ('' ['' @ utf8_encode [24403, 21069] @ '']'') else []);
          txt = page_header ((utf8_encode [39318, 39029] @ '' > '') @ display_name u @ (utf8_encode [27169, 22411] @ '' > '') @ redact_label key @ (utf8_encode [10, 10, 35831, 36873, 25321, 27169, 22411])) page pages
            @ (if models = [] then (utf8_encode [10, 10, 35813, 21378, 21830, 24403, 21069, 27809, 26377, 21487, 29992, 27169, 22411,
       12290, 35831, 36820, 22238, 21378, 21830, 21015, 34920, 12290]) else [])
            @ concat (map (\<lambda>(i, m). line (start + i + 1) (redact_label (mod_id m) @ marker m)) items);
          rows = map (\<lambda>(i, m). [make_button (redact_label (mod_id m) @ marker m)
            (select_model_callback u key (mod_id m))]) items in
      make_panel (PK_ProviderModels u key page) txt
        (rows @ nonempty_row (page_buttons page pages (provider_models_callback u key))
         @ [[make_button (utf8_encode [36820, 22238, 21378, 21830]) (''cb:prov:'' @ purpose_token u @ '':0'')], home_button]))"

section \<open>Labels never leak\<close>

lemma take_chars_take: "\<exists>m. take_chars n s = take m s"
proof (induction n s rule: take_chars.induct)
  case (1 n)
  then show ?case by simp
next
  case (2 n c s)
  show ?case
  proof (cases "is_continuation c")
    case True
    with 2(1) obtain m where "take_chars n s = take m s" by blast
    with True have "take_chars n (c # s) = take (Suc m) (c # s)" by simp
    then show ?thesis by blast
  next
    case False
    show ?thesis
    proof (cases n)
      case 0
      with False have "take_chars n (c # s) = take 0 (c # s)" by simp
      then show ?thesis by blast
    next
      case (Suc k)
      with False 2(2) obtain m where "take_chars k s = take m s" by blast
      with False Suc have "take_chars n (c # s) = take (Suc m) (c # s)" by simp
      then show ?thesis by blast
    qed
  qed
qed

lemma contains_str_prefix: "contains_str u p \<Longrightarrow> contains_str (u @ v) p"
proof (induction u)
  case Nil
  then show ?case by (simp add: contains_str_def find_str_def)
next
  case (Cons c u)
  have "starts_with (c # u) p \<Longrightarrow> starts_with ((c # u) @ v) p"
    unfolding starts_with_iff by (metis append_assoc)
  with Cons show ?case by (auto simp: contains_str_def find_str_def split: if_splits)
qed

lemma protected_prefix: "is_protected_text (take m v) \<Longrightarrow> is_protected_text v"
  using contains_str_prefix [of "to_ascii_lowercase (take m v)" _ "to_ascii_lowercase (drop m v)"]
  by (auto simp: is_protected_text_def Let_def to_ascii_lowercase_def simp flip: map_append)

lemma protected_object_bytes:
  "protected_object = map char_of [229 :: nat, 143, 151, 228, 191, 157, 230, 138, 164, 229, 175, 185, 232, 177, 161]"
  by (simp add: protected_object_def utf8_encode_def utf8_char_def)

lemma not_contains_head: "a \<notin> set s \<Longrightarrow> \<not> contains_str s (a # p)"
proof (induction s)
  case Nil
  then show ?case by (simp add: contains_str_def find_str_def)
next
  case (Cons c s)
  then show ?case by (auto simp: contains_str_def find_str_def)
qed

lemma protected_object_not_protected: "\<not> is_protected_text protected_object"
proof -
  have "\<forall>c \<in> set (to_ascii_lowercase protected_object). 128 \<le> byte c"
    by (simp add: protected_object_bytes to_ascii_lowercase_def ascii_lower_def is_ascii_uppercase_def)
  then have "byte a < 128 \<Longrightarrow> \<not> contains_str (to_ascii_lowercase protected_object) (a # p)" for a p
    by (intro not_contains_head) auto
  then show ?thesis by (simp add: is_protected_text_def Let_def)
qed

text \<open>What a panel shows of a name, a file or a model never contains a URL or one of the words that
  introduce credentials, whatever their case, and has at most 96 characters.\<close>

theorem redacted_label_safe:
  "\<not> is_protected_text (redact_label v) \<and> char_count (redact_label v) \<le> 96"
proof -
  obtain m where m: "take_chars 96 (trim v) = take m (trim v)" using take_chars_take by blast
  have "length protected_object \<le> 96" by (simp add: protected_object_bytes)
  then have "char_count protected_object \<le> 96"
    unfolding char_count_def using length_filter_le le_trans by blast
  moreover have "char_count (take m (trim v)) \<le> 96"
    using char_count_take_chars [of 96 "trim v"] by (simp only: m)
  ultimately show ?thesis
    using protected_object_not_protected protected_prefix [of m "trim v"]
    by (cases "is_protected_text (trim v)") (auto simp: redact_label_def Let_def m)
qed

section \<open>Registry\<close>

text \<open>A panel that was just remembered is found again by its text and keyboard.\<close>

lemma lookup_remembered:
  "lookup_panel print (tp_text p) (tp_keyboard p) (remember_panel print iter p reg) = Some p"
  by (simp add: lookup_panel_def remember_panel_def Let_def)

lemma registry_bounded:
  assumes "length reg \<le> 256" "\<And>r. set (iter r) = set r"
  shows "length (remember_panel print iter p reg) \<le> 256"
proof -
  have rem: "length (registry_remove k r) \<le> length r" for k r
    by (simp add: registry_remove_def)
  show ?thesis
  proof (cases "length reg \<ge> 256")
    case True
    then have "set (iter reg) \<noteq> {}" using assms by auto
    then obtain k x rest where it: "iter reg = (k, x) # rest" by (cases "iter reg") auto
    then have "(k, x) \<in> set reg" using assms(2) [of reg] by (metis list.set_intros(1))
    then have "length (registry_remove k reg) < length reg"
      unfolding registry_remove_def by (intro length_filter_less) auto
    then have "Suc (length (registry_remove j (registry_remove k reg))) \<le> 256" for j
      using rem [of j "registry_remove k reg"] assms(1) by linarith
    with True it show ?thesis by (simp add: remember_panel_def Let_def)
  next
    case False
    then have "Suc (length (registry_remove j reg)) \<le> 256" for j
      using rem [of j reg] by linarith
    with False show ?thesis by (simp add: remember_panel_def Let_def)
  qed
qed

section \<open>Every button has an action\<close>

definition decodes :: "inline_button \<Rightarrow> bool" where
  "decodes b \<longleftrightarrow> (\<exists>a. parse_legacy_callback_data (ib_callback_data b) = Inr a)"

definition all_decode :: "telegram_panel \<Rightarrow> bool" where
  "all_decode p \<longleftrightarrow> (\<forall>row \<in> set (tp_keyboard p). \<forall>b \<in> set row. decodes b)"

lemma decodes_button:
  "usize_ok a \<Longrightarrow> colon_free a \<Longrightarrow> length (legacy_data a) \<le> 4096 \<Longrightarrow> decodes (make_button l (legacy_data a))"
  using parse_legacy_data [of a] by (auto simp: decodes_def make_button_def)

lemma nat_to_string_0: "nat_to_string 0 = ''0''"
  by (simp add: nat_to_string.simps [of 0] digit_char_def char_of_def bit_0)

lemma length_usize_less: "n \<le> usize_max \<Longrightarrow> length (nat_to_string n) < 21"
  using length_usize [of n] by simp

lemma length_purpose [simp]: "length (purpose_token u) = 4"
  by (cases u) auto

lemma decodes_fixed [simp]:
  "decodes (make_button l ''cb:home'')" "decodes (make_button l ''cb:help'')" "decodes (make_button l ''cb:now'')"
  "decodes (make_button l ''cb:settings'')" "decodes (make_button l ''cb:status'')"
  "decodes (make_button l ''cb:chars:0'')" "decodes (make_button l ''cb:hist:0'')"
  "decodes (make_button l ''cb:recent:0'')" "decodes (make_button l ''cb:prov:chat:0'')"
  "decodes (make_button l ''cb:prov:comp:0'')"
  using decodes_button [of CA_Home l] decodes_button [of CA_Help l] decodes_button [of CA_Now l]
    decodes_button [of CA_Settings l] decodes_button [of CA_Status l] decodes_button [of "CA_Characters 0" l]
    decodes_button [of "CA_History 0" l] decodes_button [of "CA_Recent 0" l]
    decodes_button [of "CA_Providers Purpose_Chat 0" l] decodes_button [of "CA_Providers Purpose_Compression 0" l]
  by (simp_all add: legacy_data_def usize_ok_def colon_free_def nat_to_string_0)

lemma decodes_paged:
  assumes "p \<le> usize_max"
  shows "decodes (make_button l (''cb:chars:'' @ nat_to_string p))" "decodes (make_button l (''cb:hist:'' @ nat_to_string p))"
    "decodes (make_button l (''cb:recent:'' @ nat_to_string p))"
    "decodes (make_button l (''cb:prov:'' @ purpose_token u @ '':'' @ nat_to_string p))"
  using decodes_button [of "CA_Characters p" l] decodes_button [of "CA_History p" l]
    decodes_button [of "CA_Recent p" l] decodes_button [of "CA_Providers u p" l] assms length_usize_less [OF assms]
  by (simp_all add: legacy_data_def usize_ok_def colon_free_def)

lemma decodes_selection:
  assumes "p \<le> usize_max" "i \<le> usize_max"
  shows "decodes (make_button l (''cb:sel_char:'' @ nat_to_string p @ '':'' @ nat_to_string i))"
    "decodes (make_button l (''cb:sel_hist:'' @ nat_to_string p @ '':'' @ nat_to_string i))"
    "decodes (make_button l (''cb:sel_recent:'' @ nat_to_string p @ '':'' @ nat_to_string i))"
  using decodes_button [of "CA_SelectCharacter p i" l] decodes_button [of "CA_SelectHistory p i" l]
    decodes_button [of "CA_SelectRecent p i" l] assms length_usize_less [OF assms(1)] length_usize_less [OF assms(2)]
  by (simp_all add: legacy_data_def usize_ok_def colon_free_def)

lemmas decodes_list = decodes_paged [simplified] decodes_selection [simplified]

lemma decodes_reset: "decodes (make_button l (''cb:rst_mdl:'' @ purpose_token u))"
  using decodes_button [of "CA_ResetModel u" l] by (simp add: legacy_data_def usize_ok_def colon_free_def)

definition key_ok :: "string \<Rightarrow> bool" where
  "key_ok k \<longleftrightarrow> CHR '':'' \<notin> set k \<and> length k \<le> 2000"

lemma decodes_models:
  assumes "key_ok k" "key_ok m" "p \<le> usize_max"
  shows "decodes (make_button l (legacy_data (CA_ProviderModels u k p)))"
    "decodes (make_button l (legacy_data (CA_SelectModelById u k m)))"
  by (rule decodes_button;
      use assms length_usize_less [OF assms(3)] in \<open>simp add: legacy_data_def usize_ok_def colon_free_def key_ok_def\<close>)+

lemma in_pairs_elems: "(\<exists>row \<in> set (in_pairs xs). x \<in> set row) \<longleftrightarrow> x \<in> set xs"
  by (induction xs rule: in_pairs.induct) auto

lemma in_pairs_decode:
  assumes "row \<in> set (in_pairs xs)" "b \<in> set row" "\<And>x. x \<in> set xs \<Longrightarrow> decodes x"
  shows "decodes b"
proof -
  from assms(1,2) have "b \<in> set xs" using in_pairs_elems [of xs b] by blast
  then show ?thesis by (rule assms(3))
qed

lemma in_optional_pair: "b \<in> set ((if P then [x] else []) @ (if Q then [y] else [])) \<Longrightarrow> (P \<and> b = x) \<or> (Q \<and> b = y)"
  by (cases P; cases Q) simp_all

lemma page_button_cases:
  assumes "b \<in> set (page_buttons page pages f)" "page < pages"
  obtains v l where "v < pages" "b = make_button l (f v)"
proof -
  from in_optional_pair [OF assms(1) [unfolded page_buttons_def]]
  consider l where "page > 0" "b = make_button l (f (page - 1))"
    | l where "page + 1 < pages" "b = make_button l (f (page + 1))"
    by blast
  then show thesis
  proof cases
    case (1 l)
    with assms(2) that [of "page - 1" l] show thesis by simp
  next
    case (2 l)
    with that [of "page + 1" l] show thesis by simp
  qed
qed

lemma home_decodes [simp]: "b \<in> set home_button \<Longrightarrow> decodes b"
  by (auto simp: home_button_def)

lemma total_pages_le: "n \<le> usize_max \<Longrightarrow> 0 < total_pages n PAGE_SIZE \<and> total_pages n PAGE_SIZE \<le> usize_max"
  by (auto simp: total_pages_def PAGE_SIZE_def usize_max_def)

text \<open>The panels the program renders, with machine-sized counts.\<close>

inductive rendered :: "telegram_panel \<Rightarrow> bool" where
  r_home: "rendered render_home"
| r_help: "rendered render_help"
| r_settings: "rendered (render_settings c m)"
| r_status: "rendered (render_status r l n e)"
| r_characters: "max n (length cs) \<le> usize_max \<Longrightarrow> rendered (render_characters cs page n)"
| r_history: "max n (length hs) \<le> usize_max \<Longrightarrow> rendered (render_history name hs page n)"
| r_recent: "length xs \<le> usize_max \<Longrightarrow> rendered (render_recent xs page)"
| r_current: "rendered (render_current a f c p)"
| r_providers: "n \<le> usize_max \<Longrightarrow> list_all key_ok ks \<Longrightarrow> rendered (render_providers u ks page n)"
| r_models: "n \<le> usize_max \<Longrightarrow> key_ok k \<Longrightarrow> list_all (key_ok \<circ> mod_id) ms
    \<Longrightarrow> rendered (render_provider_models u k ms c page n)"

definition decode_rows :: "inline_button list list \<Rightarrow> bool" where
  "decode_rows rows \<longleftrightarrow> (\<forall>row \<in> set rows. \<forall>b \<in> set row. decodes b)"

lemma decode_rows_simps [simp]:
  "decode_rows []" "decode_rows (r # rs) \<longleftrightarrow> (\<forall>b \<in> set r. decodes b) \<and> decode_rows rs"
  "decode_rows (rs @ qs) \<longleftrightarrow> decode_rows rs \<and> decode_rows qs"
  "all_decode (make_panel k t rows) \<longleftrightarrow> decode_rows rows"
  by (auto simp: decode_rows_def all_decode_def make_panel_def)

lemma decode_pairs: "(\<And>x. x \<in> set xs \<Longrightarrow> decodes (f x)) \<Longrightarrow> decode_rows (in_pairs (map f xs))"
  unfolding decode_rows_def by (intro ballI) (erule (1) in_pairs_decode, auto)

lemma decode_single: "(\<And>i n. (i, n) \<in> set xs \<Longrightarrow> decodes (f i n)) \<Longrightarrow> decode_rows (map (\<lambda>(i, n). [f i n]) xs)"
  by (auto simp: decode_rows_def)

lemma decode_nav:
  assumes "\<And>v l. v \<le> usize_max \<Longrightarrow> decodes (make_button l (f v))" "0 < pages" "pages \<le> usize_max"
  shows "decode_rows (nonempty_row (page_buttons (min page (pages - 1)) pages f))"
proof -
  have "decodes b" if "b \<in> set (page_buttons (min page (pages - 1)) pages f)" for b
    using that
  proof (rule page_button_cases)
    show "min page (pages - 1) < pages" using assms(2) by simp
    show "decodes b" if "v < pages" "b = make_button l (f v)" for v l
      using that assms(1) [of v l] assms(3) by simp
  qed
  then show ?thesis by (simp add: nonempty_row_def)
qed

lemma enumerated: "(i, n) \<in> set (enumerate k xs) \<Longrightarrow> k \<le> i \<and> i < k + length xs \<and> n \<in> set xs"
  by (auto simp: in_set_enumerate_eq)

lemma rendered_all_decode:
  assumes "rendered p"
  shows "all_decode p"
  using assms
proof cases
  case (r_characters n cs page)
  let ?n = "total_pages (max n (length cs)) PAGE_SIZE"
  note pages = total_pages_le [OF r_characters(2)]
  have "decode_rows (in_pairs (map (\<lambda>(i, n). make_button (nat_to_string (i + 1) @ '' '' @ n)
      (''cb:sel_char:'' @ nat_to_string (min page (?n - 1)) @ '':'' @ nat_to_string i)) (enumerate 0 (map (redact_label \<circ> ch_name) cs))))"
    by (rule decode_pairs) (use pages r_characters(2) in \<open>auto dest!: enumerated intro!: decodes_list\<close>)
  moreover have "decode_rows (nonempty_row (page_buttons (min page (?n - 1)) ?n (\<lambda>v. ''cb:chars:'' @ nat_to_string v)))"
    by (rule decode_nav) (use pages in \<open>auto intro!: decodes_list\<close>)
  ultimately show ?thesis by (simp add: r_characters(1) render_characters_def Let_def)
next
  case (r_history n hs name page)
  let ?n = "total_pages (max n (length hs)) PAGE_SIZE"
  note pages = total_pages_le [OF r_history(2)]
  have "decode_rows (map (\<lambda>(i, n). [make_button n
      (''cb:sel_hist:'' @ nat_to_string (min page (?n - 1)) @ '':'' @ nat_to_string i)]) (enumerate 0 (map (redact_label \<circ> chat_title) hs)))"
    by (rule decode_single) (use pages r_history(2) in \<open>auto dest!: enumerated intro!: decodes_list\<close>)
  moreover have "decode_rows (nonempty_row (page_buttons (min page (?n - 1)) ?n (\<lambda>v. ''cb:hist:'' @ nat_to_string v)))"
    by (rule decode_nav) (use pages in \<open>auto intro!: decodes_list\<close>)
  ultimately show ?thesis by (simp add: r_history(1) render_history_def Let_def)
next
  case (r_recent xs page)
  let ?n = "total_pages (length xs) PAGE_SIZE"
  note pages = total_pages_le [OF r_recent(2)]
  have "decode_rows (map (\<lambda>(i, n). [make_button n
      (''cb:sel_recent:'' @ nat_to_string (min page (?n - 1)) @ '':'' @ nat_to_string i)])
      (enumerate 0 (map recent_label (take PAGE_SIZE (drop (min page (?n - 1) * PAGE_SIZE) xs)))))"
    by (rule decode_single) (use pages r_recent(2) in \<open>auto dest!: enumerated intro!: decodes_list\<close>)
  moreover have "decode_rows (nonempty_row (page_buttons (min page (?n - 1)) ?n (\<lambda>v. ''cb:recent:'' @ nat_to_string v)))"
    by (rule decode_nav) (use pages in \<open>auto intro!: decodes_list\<close>)
  ultimately show ?thesis by (simp add: r_recent(1) render_recent_def Let_def)
next
  case (r_providers n ks u page)
  let ?n = "max n 1"
  have n: "0 < ?n" "?n \<le> usize_max" using r_providers(2) by (auto simp: usize_max_def)
  have "key_ok k" if "k \<in> set ks" for k
    using r_providers(3) that by (simp add: list_all_iff)
  then have "decode_rows (in_pairs (map (\<lambda>(i, k). make_button (redact_label k)
      (legacy_data (CA_ProviderModels u k (min page (?n - 1))))) (enumerate 0 (take PAGE_SIZE (drop (min page (?n - 1) * PAGE_SIZE) ks)))))"
    using n by (intro decode_pairs) (auto dest!: enumerated in_set_takeD in_set_dropD intro!: decodes_models(1))
  moreover have "decode_rows (nonempty_row (page_buttons (min page (?n - 1)) ?n
      (\<lambda>v. ''cb:prov:'' @ purpose_token u @ '':'' @ nat_to_string v)))"
    by (rule decode_nav) (use n in \<open>auto intro!: decodes_list\<close>)
  ultimately show ?thesis using decodes_reset by (simp add: r_providers(1) render_providers_def Let_def)
next
  case (r_models n k ms u c page)
  let ?n = "max n 1"
  have n: "0 < ?n" "?n \<le> usize_max" using r_models(2) by (auto simp: usize_max_def)
  have "key_ok (mod_id m)" if "m \<in> set ms" for m
    using r_models(4) that by (simp add: list_all_iff)
  then have "decode_rows (map (\<lambda>(i, m). [make_button (redact_label (mod_id m) @ g m)
      (select_model_callback u k (mod_id m))]) (enumerate 0 (take PAGE_SIZE (drop (min page (?n - 1) * PAGE_SIZE) ms))))" for g
    unfolding select_model_callback_def using r_models(3)
    by (intro decode_single) (auto dest!: enumerated in_set_takeD in_set_dropD intro!: decodes_models(2) [where p = 0])
  moreover have "decode_rows (nonempty_row (page_buttons (min page (?n - 1)) ?n (provider_models_callback u k)))"
    unfolding provider_models_callback_def
    by (rule decode_nav) (use n r_models(3) in \<open>auto intro!: decodes_models(1)\<close>)
  moreover have "decodes (make_button l (''cb:prov:'' @ purpose_token u @ '':0''))" for l
    using decodes_paged(4) [of 0 l u] by (simp add: nat_to_string_0)
  ultimately show ?thesis by (simp add: r_models(1) render_provider_models_def Let_def)
qed (simp_all add: render_home_def render_help_def render_settings_def render_status_def render_current_def Let_def)

end
