(* ===== verification/Callback_Store.thy ===== *)
theory Callback_Store
  imports Callback_Action
begin

text \<open>
  The stored state of Telegram panels, tables \<^verbatim>\<open>telegram_panel_slots\<close> and \<^verbatim>\<open>telegram_panel_effects\<close>, and
  the store of callback tokens in \<^verbatim>\<open>src/modules/telegram/callback.rs\<close>: tokens are issued bound to a
  scope, consumed once, and consuming one queues the effect that executes its action. The JSON
  codecs and SHA-256 are arguments, and so are clock readings and random identifiers.
\<close>

section \<open>Tables\<close>

record effect_row =
  ef_effect_id :: string
  ef_panel_id :: string
  ef_chat_id :: i64
  ef_effect_type :: string
  ef_payload :: string
  ef_status :: string
  ef_action_nonce :: "string option"
  ef_attempt_token :: "string option"
  ef_expected_revision :: "i64 option"
  ef_terminal_at :: "string option"
  ef_created_at :: string
  ef_updated_at :: string

record slot_row =
  sl_panel_id :: string
  sl_account_id :: string
  sl_numeric_bot_id :: i64
  sl_chat_id :: i64
  sl_message_id :: i64
  sl_kind :: string
  sl_revision :: i64
  sl_active :: i64
  sl_expires_at_unix :: i64
  sl_created_at :: string
  sl_updated_at :: string

record panel_tables =
  pn_slots :: "slot_row list"
  pn_effects :: "effect_row list"

type_synonym 'a panel_m = "(panel_tables, 'a) sql"

text \<open>The primary key and the unique index on the nonces reject a row.\<close>

definition insert_effect :: "effect_row \<Rightarrow> nat panel_m" where
  "insert_effect r = sql_stmt (\<lambda>t.
     if ef_effect_id r \<in> ef_effect_id ` set (pn_effects t)
        \<or> (\<exists>n. ef_action_nonce r = Some n \<and> Some n \<in> ef_action_nonce ` set (pn_effects t))
     then (Inl db_error, t)
     else (Inr 1, t\<lparr>pn_effects := pn_effects t @ [r]\<rparr>))"

definition update_effects :: "(effect_row \<Rightarrow> bool) \<Rightarrow> (effect_row \<Rightarrow> effect_row) \<Rightarrow> nat panel_m" where
  "update_effects P f = sql_stmt (\<lambda>t.
     case sql_update P f (pn_effects t) of (rs, n) \<Rightarrow> (Inr n, t\<lparr>pn_effects := rs\<rparr>))"

section \<open>Issuing and consuming tokens\<close>

record callback_binding =
  cb_account_id :: string
  cb_internal_bot_id :: string
  cb_numeric_bot_id :: i64
  cb_chat_id :: i64
  cb_authorized_user_id :: string
  cb_panel_id :: string
  cb_message_id :: i64
  cb_panel_revision :: u64
  cb_catalog_revision :: "string option"
  cb_expires_at_unix :: i64
  cb_action :: callback_action
  cb_action_nonce :: string

text \<open>The scope a callback update is checked against, the arguments of \<^verbatim>\<open>consume\<close>.\<close>

record callback_scope =
  sc_account_id :: string
  sc_internal_bot_id :: string
  sc_numeric_bot_id :: i64
  sc_chat_id :: i64
  sc_authorized_user_id :: string
  sc_panel_id :: string
  sc_message_id :: i64
  sc_panel_revision :: u64

record callback_codec =
  cc_print_binding :: "callback_binding \<Rightarrow> string + string"
  cc_parse_binding :: "string \<Rightarrow> callback_binding option"
  cc_print_action :: "callback_action \<Rightarrow> string option"
  cc_sha256_hex :: "string \<Rightarrow> string"

definition token_row :: "callback_codec \<Rightarrow> string \<Rightarrow> string \<Rightarrow> string \<Rightarrow> callback_binding \<Rightarrow> effect_row" where
  "token_row C now token payload b =
     \<lparr> ef_effect_id = cc_sha256_hex C token, ef_panel_id = cb_panel_id b, ef_chat_id = cb_chat_id b,
       ef_effect_type = ''callback_token'', ef_payload = payload, ef_status = ''active'',
       ef_action_nonce = Some (cb_action_nonce b), ef_attempt_token = None, ef_expected_revision = None,
       ef_terminal_at = None, ef_created_at = now, ef_updated_at = now \<rparr>"

definition callback_issue :: "callback_codec \<Rightarrow> nat list \<Rightarrow> string \<Rightarrow> callback_binding \<Rightarrow> string panel_m" where
  "callback_issue C raw now b =
     sql_bind (sql_lift (validate_opaque_token (token_of raw))) (\<lambda>_.
     sql_bind (sql_lift (map_err (\<lambda>err. internal (''callback binding encode failed: '' @ err)) (cc_print_binding C b)))
       (\<lambda>payload.
     sql_bind (insert_effect (token_row C now (token_of raw) payload b)) (\<lambda>_.
     sql_return (token_of raw))))"

definition scope_mismatch :: app_error where
  "scope_mismatch = bad_request ''TELEGRAM_CALLBACK_SCOPE_MISMATCH'' (''callback '' @ utf8_encode [24050, 22833, 25928, 65292, 35831, 37325, 26032, 25171, 24320, 38754,
       26495])"

definition callback_gone :: app_error where
  "callback_gone = callback_invalid (''callback '' @ utf8_encode [24050, 22833, 25928])"

definition callback_replayed :: app_error where
  "callback_replayed = conflict ''TELEGRAM_CALLBACK_REPLAYED'' (''callback '' @ utf8_encode [24050, 22788, 29702])"

definition scope_matches :: "i64 \<Rightarrow> callback_scope \<Rightarrow> string option \<Rightarrow> callback_binding \<Rightarrow> bool" where
  "scope_matches now s stored_nonce b \<longleftrightarrow>
     \<not> (trim (cb_action_nonce b) = [] \<or> stored_nonce \<noteq> Some (cb_action_nonce b)
        \<or> cb_account_id b \<noteq> sc_account_id s \<or> cb_internal_bot_id b \<noteq> sc_internal_bot_id s
        \<or> cb_numeric_bot_id b \<noteq> sc_numeric_bot_id s \<or> cb_chat_id b \<noteq> sc_chat_id s
        \<or> cb_authorized_user_id b \<noteq> sc_authorized_user_id s \<or> cb_panel_id b \<noteq> sc_panel_id s
        \<or> cb_message_id b \<noteq> sc_message_id s \<or> cb_panel_revision b \<noteq> sc_panel_revision s
        \<or> cb_expires_at_unix b \<le> now)"

definition select_token :: "string \<Rightarrow> i64 \<Rightarrow> effect_row option panel_m" where
  "select_token d chat = sql_stmt (\<lambda>t. (Inr (find (\<lambda>r. ef_effect_id r = d \<and> ef_chat_id r = chat) (pn_effects t)), t))"

definition mark_consumed :: "string \<Rightarrow> string \<Rightarrow> string \<Rightarrow> string \<Rightarrow> string \<Rightarrow> nat panel_m" where
  "mark_consumed terminal now d payload nonce = update_effects
     (\<lambda>r. ef_effect_id r = d \<and> ef_status r = ''active'' \<and> ef_payload r = payload \<and> ef_action_nonce r = Some nonce)
     (\<lambda>r. r\<lparr>ef_status := ''consumed'', ef_terminal_at := Some terminal, ef_updated_at := now\<rparr>)"

definition action_row :: "string \<Rightarrow> string \<Rightarrow> string \<Rightarrow> string \<Rightarrow> callback_binding \<Rightarrow> effect_row" where
  "action_row created now eid payload b =
     \<lparr> ef_effect_id = eid, ef_panel_id = cb_panel_id b, ef_chat_id = cb_chat_id b,
       ef_effect_type = ''callback_action'', ef_payload = payload, ef_status = ''pending'',
       ef_action_nonce = None, ef_attempt_token = Some eid, ef_expected_revision = None,
       ef_terminal_at = None, ef_created_at = created, ef_updated_at = now \<rparr>"

text \<open>\<open>now\<close> is the time in seconds and \<open>ts\<close> the readings of \<^verbatim>\<open>now_rfc3339\<close> in their order.\<close>

definition consume_found ::
    "callback_codec \<Rightarrow> i64 \<Rightarrow> (nat \<Rightarrow> string) \<Rightarrow> string \<Rightarrow> string \<Rightarrow> callback_scope \<Rightarrow> effect_row
      \<Rightarrow> (callback_action \<times> string) panel_m" where
  "consume_found C now ts eid d s r =
     (if ef_status r \<noteq> ''active'' then sql_lift (Inl callback_replayed)
      else case cc_parse_binding C (ef_payload r) of
        None \<Rightarrow> sql_lift (Inl (internal ''callback binding is invalid''))
      | Some b \<Rightarrow>
          if \<not> scope_matches now s (ef_action_nonce r) b then sql_lift (Inl scope_mismatch)
          else
            sql_bind (mark_consumed (ts 0) (ts 1) d (ef_payload r) (cb_action_nonce b)) (\<lambda>changed.
            if changed \<noteq> 1 then sql_lift (Inl callback_replayed)
            else sql_bind (sql_lift (ok_or (internal ''callback action serialization failed'')
                     (cc_print_action C (cb_action b)))) (\<lambda>payload.
                 sql_bind (insert_effect (action_row (ts 2) (ts 3) eid payload b)) (\<lambda>queued.
                 if queued \<noteq> 1
                 then sql_lift (Inl (conflict ''TELEGRAM_CALLBACK_ENQUEUE_FAILED''
                        ''callback action was not durably enqueued''))
                 else sql_return (cb_action b, eid)))))"

definition callback_consume ::
    "callback_codec \<Rightarrow> i64 \<Rightarrow> (nat \<Rightarrow> string) \<Rightarrow> string \<Rightarrow> string \<Rightarrow> callback_scope
      \<Rightarrow> (callback_action \<times> string) panel_m" where
  "callback_consume C now ts eid token s =
     sql_bind (sql_lift (validate_opaque_token token)) (\<lambda>_.
     if sc_numeric_bot_id s \<le> 0 \<or> sc_message_id s \<le> 0 then sql_lift (Inl scope_mismatch)
     else sql_transaction (
       sql_bind (select_token (cc_sha256_hex C token) (sc_chat_id s)) (\<lambda>row.
       case row of
         None \<Rightarrow> sql_lift (Inl callback_gone)
       | Some r \<Rightarrow> consume_found C now ts eid (cc_sha256_hex C token) s r)))"

section \<open>Action effects\<close>

definition effect_conflict :: "string \<Rightarrow> app_error" where
  "effect_conflict msg = conflict ''TELEGRAM_CALLBACK_EFFECT_CAS_CONFLICT'' msg"

definition claim_action_effect :: "string \<Rightarrow> string \<Rightarrow> unit panel_m" where
  "claim_action_effect now eid =
     sql_bind (update_effects
       (\<lambda>r. ef_effect_id r = eid \<and> ef_attempt_token r = Some eid \<and> ef_effect_type r = ''callback_action''
            \<and> ef_status r = ''pending'')
       (\<lambda>r. r\<lparr>ef_status := ''sending'', ef_updated_at := now\<rparr>)) (\<lambda>changed.
     if changed \<noteq> 1 then sql_lift (Inl (effect_conflict ''callback action effect was already consumed''))
     else sql_return ())"

definition update_action_effect :: "string \<Rightarrow> string \<Rightarrow> string \<Rightarrow> string \<Rightarrow> unit panel_m" where
  "update_action_effect terminal now eid status =
     sql_bind (update_effects
       (\<lambda>r. ef_effect_id r = eid \<and> ef_attempt_token r = Some eid \<and> ef_effect_type r = ''callback_action''
            \<and> ef_status r = ''sending'')
       (\<lambda>r. r\<lparr>ef_status := status, ef_terminal_at := Some terminal, ef_updated_at := now\<rparr>)) (\<lambda>changed.
     if changed \<noteq> 1 then sql_lift (Inl (effect_conflict ''callback action effect terminal state changed concurrently''))
     else sql_return ())"

definition complete_action_effect :: "string \<Rightarrow> string \<Rightarrow> string \<Rightarrow> unit panel_m" where
  "complete_action_effect terminal now eid = update_action_effect terminal now eid ''sent''"

definition fail_action_effect :: "string \<Rightarrow> string \<Rightarrow> string \<Rightarrow> bool \<Rightarrow> unit panel_m" where
  "fail_action_effect terminal now eid unknown =
     update_action_effect terminal now eid (if unknown then ''unknown'' else ''failed'')"

section \<open>Duplicate callbacks\<close>

text \<open>Instants are natural numbers; \<open>retain\<close> drops the entries that are older than the time to live.\<close>

record callback_dedup =
  dd_entries :: "string \<Rightarrow> nat option"
  dd_ttl :: nat

definition callback_dedup_new :: "nat \<Rightarrow> callback_dedup" where
  "callback_dedup_new ttl = \<lparr> dd_entries = (\<lambda>_. None), dd_ttl = ttl \<rparr>"

definition dedup_retain :: "nat \<Rightarrow> callback_dedup \<Rightarrow> string \<Rightarrow> nat option" where
  "dedup_retain now D = (\<lambda>k. case dd_entries D k of
      Some t \<Rightarrow> if now - t < dd_ttl D then Some t else None
    | None \<Rightarrow> None)"

definition dedup_accept :: "nat \<Rightarrow> string \<Rightarrow> callback_dedup \<Rightarrow> bool \<times> callback_dedup" where
  "dedup_accept now k D =
     (let es = dedup_retain now D in
      if es k \<noteq> None then (False, D\<lparr>dd_entries := es\<rparr>)
      else (True, D\<lparr>dd_entries := es(k \<mapsto> now)\<rparr>))"

definition accept_with_nonce :: "nat \<Rightarrow> string \<Rightarrow> string \<Rightarrow> callback_dedup \<Rightarrow> bool \<times> callback_dedup" where
  "accept_with_nonce now query_id nonce D = dedup_accept now (query_id @ '':'' @ nonce) D"

definition is_duplicate :: "nat \<Rightarrow> string \<Rightarrow> callback_dedup \<Rightarrow> bool" where
  "is_duplicate now k D \<longleftrightarrow> (case dd_entries D k of Some t \<Rightarrow> now - t < dd_ttl D | None \<Rightarrow> False)"

section \<open>What the store keeps of effects\<close>

definition effect_at :: "panel_tables \<Rightarrow> string \<Rightarrow> effect_row option" where
  "effect_at t d = find (\<lambda>r. ef_effect_id r = d) (pn_effects t)"

abbreviation effect_ids :: "panel_tables \<Rightarrow> string list" where
  "effect_ids t \<equiv> map ef_effect_id (pn_effects t)"

definition status_follows :: "string \<Rightarrow> string \<Rightarrow> bool" where
  "status_follows a b \<longleftrightarrow> a = b \<or> (a = ''active'' \<and> b = ''consumed'')
     \<or> (a = ''pending'' \<and> b \<in> {''sending'', ''sent'', ''failed'', ''unknown''})
     \<or> (a = ''sending'' \<and> b \<in> {''sent'', ''failed'', ''unknown''})"

definition effect_follows :: "effect_row \<Rightarrow> effect_row \<Rightarrow> bool" where
  "effect_follows r r' \<longleftrightarrow>
     ef_effect_id r' = ef_effect_id r \<and> ef_effect_type r' = ef_effect_type r \<and> ef_payload r' = ef_payload r
     \<and> ef_action_nonce r' = ef_action_nonce r \<and> ef_attempt_token r' = ef_attempt_token r
     \<and> status_follows (ef_status r) (ef_status r')"

definition effects_follow :: "panel_tables \<Rightarrow> panel_tables \<Rightarrow> bool" where
  "effects_follow s t \<longleftrightarrow>
     (distinct (effect_ids s) \<longrightarrow> distinct (effect_ids t))
     \<and> (\<forall>d r. effect_at s d = Some r \<longrightarrow> (\<exists>r'. effect_at t d = Some r' \<and> effect_follows r r'))"

lemma effect_follows_refl [simp]: "effect_follows r r"
  by (simp add: effect_follows_def status_follows_def)

lemma effect_follows_trans: "effect_follows r s \<Longrightarrow> effect_follows s t \<Longrightarrow> effect_follows r t"
  by (auto simp: effect_follows_def status_follows_def)

interpretation effect_log: table_order effects_follow
proof
  show "effects_follow t t" for t
    by (auto simp: effects_follow_def)
  show "effects_follow s u" if "effects_follow s t" "effects_follow t u" for s t u
    using that unfolding effects_follow_def by (meson effect_follows_trans)
qed

lemma effects_follow_slots [simp]: "pn_effects t = pn_effects s \<Longrightarrow> effects_follow s t"
  by (auto simp: effects_follow_def effect_at_def)

lemma evolves_insert_effect [intro!]: "sql_evolves effects_follow (insert_effect r)"
  unfolding insert_effect_def
  by (rule effect_log.evolves_stmt)
     (auto simp: effects_follow_def effect_at_def find_append image_iff)

lemma evolves_update_effects:
  assumes "\<And>r. P r \<Longrightarrow> effect_follows r (f r)"
  shows "sql_evolves effects_follow (update_effects P f)"
  unfolding update_effects_def
proof (rule effect_log.evolves_stmt)
  fix t
  let ?g = "\<lambda>r. if P r then f r else r"
  have id: "ef_effect_id (?g r) = ef_effect_id r" for r
    using assms [of r] by (simp add: effect_follows_def)
  have "distinct (map (ef_effect_id \<circ> ?g) rs) = distinct (map ef_effect_id rs)" for rs
    by (rule arg_cong [where f = distinct]) (simp add: id)
  moreover have "find (\<lambda>r. ef_effect_id r = d) (map ?g rs) = map_option ?g (find (\<lambda>r. ef_effect_id r = d) rs)" for d rs
    by (rule find_map_keys) (rule id)
  ultimately show "effects_follow t (snd (case sql_update P f (pn_effects t) of (rs, n) \<Rightarrow> (Inr n, t\<lparr>pn_effects := rs\<rparr>)))"
    using assms by (auto simp: sql_update_def effects_follow_def effect_at_def)
qed

lemma evolves_select_token [intro!]: "sql_evolves effects_follow (select_token d c)"
  unfolding select_token_def by (rule effect_log.evolves_stmt) (simp add: effect_log.refl)

lemma evolves_mark_consumed [intro!]: "sql_evolves effects_follow (mark_consumed a b d p n)"
  unfolding mark_consumed_def
  by (rule evolves_update_effects) (auto simp: effect_follows_def status_follows_def)

lemma evolves_consume_found [intro!]: "sql_evolves effects_follow (consume_found C now ts eid d s r)"
  unfolding consume_found_def
  by (auto split: option.split)

lemma evolves_callback_ops:
  "sql_evolves effects_follow (callback_issue C raw issued b)"
  "sql_evolves effects_follow (callback_consume C now ts eid token s)"
  unfolding callback_issue_def callback_consume_def
  by (auto split: option.split)

lemma evolves_action_ops:
  "sql_evolves effects_follow (claim_action_effect a eid)"
  "st \<in> {''sent'', ''failed'', ''unknown''} \<Longrightarrow> sql_evolves effects_follow (update_action_effect a b eid st)"
  unfolding claim_action_effect_def update_action_effect_def
  by (auto intro!: evolves_update_effects simp: effect_follows_def status_follows_def)

section \<open>Consuming a token\<close>

lemma insert_effect_Inr:
  "insert_effect r db = (Inr n, db') \<Longrightarrow>
     ef_effect_id r \<notin> ef_effect_id ` set (pn_effects (db_tables db))
     \<and> db_tables db' = (db_tables db)\<lparr>pn_effects := pn_effects (db_tables db) @ [r]\<rparr>"
  unfolding insert_effect_def by (drule sql_stmt_Inr) (auto split: if_splits)

lemma update_effects_Inr:
  "update_effects P f db = (Inr n, db') \<Longrightarrow>
     db_tables db' = (db_tables db)\<lparr>pn_effects := map (\<lambda>r. if P r then f r else r) (pn_effects (db_tables db))\<rparr>
     \<and> n = length (filter P (pn_effects (db_tables db)))"
  unfolding update_effects_def by (drule sql_stmt_Inr) (auto simp: sql_update_def)

text \<open>The row a token names, and the tables after its consumption.\<close>

definition consumed_tables ::
    "(nat \<Rightarrow> string) \<Rightarrow> string \<Rightarrow> string \<Rightarrow> string \<Rightarrow> callback_binding \<Rightarrow> panel_tables \<Rightarrow> panel_tables" where
  "consumed_tables ts eid d payload b t =
     t\<lparr>pn_effects := map (\<lambda>r. if ef_effect_id r = d
           then r\<lparr>ef_status := ''consumed'', ef_terminal_at := Some (ts 0), ef_updated_at := ts 1\<rparr> else r) (pn_effects t)
         @ [action_row (ts 2) (ts 3) eid payload b]\<rparr>"

lemma consume_found_Inr:
  assumes "consume_found C now ts eid d s r db = (Inr (a, e), db')"
    and "distinct (effect_ids (db_tables db))" "effect_at (db_tables db) d = Some r"
  shows "ef_status r = ''active'' \<and> e = eid \<and> (\<exists>b payload. cc_parse_binding C (ef_payload r) = Some b
     \<and> scope_matches now s (ef_action_nonce r) b \<and> a = cb_action b \<and> cc_print_action C (cb_action b) = Some payload
     \<and> db_tables db' = consumed_tables ts eid d payload b (db_tables db))"
proof -
  from assms(3) have r: "r \<in> set (pn_effects (db_tables db))" "ef_effect_id r = d"
    by (auto simp: effect_at_def dest: find_in_set)
  from assms(1) obtain b n db1 payload m db2
    where act: "ef_status r = ''active''" and b: "cc_parse_binding C (ef_payload r) = Some b"
      and sm: "scope_matches now s (ef_action_nonce r) b"
      and mark: "mark_consumed (ts 0) (ts 1) d (ef_payload r) (cb_action_nonce b) db = (Inr n, db1)"
      and print: "cc_print_action C (cb_action b) = Some payload"
      and ins: "insert_effect (action_row (ts 2) (ts 3) eid payload b) db1 = (Inr m, db2)"
      and res: "a = cb_action b" "e = eid" "db' = db2"
    by (auto simp: consume_found_def sql_bind_Inr ok_or_Inr_iff split: if_splits option.splits)
  have nonce: "ef_action_nonce r = Some (cb_action_nonce b)"
    using sm by (simp add: scope_matches_def)
  have only: "x = r" if "x \<in> set (pn_effects (db_tables db))" "ef_effect_id x = d" for x
    using that r assms(2) by (metis inj_on_eq_iff distinct_map)
  have eq: "map (\<lambda>x. if ef_effect_id x = d \<and> ef_status x = ''active'' \<and> ef_payload x = ef_payload r
             \<and> ef_action_nonce x = Some (cb_action_nonce b) then f x else x) (pn_effects (db_tables db))
      = map (\<lambda>x. if ef_effect_id x = d then f x else x) (pn_effects (db_tables db))" for f
    using only act nonce by auto
  note u = conjunct1 [OF update_effects_Inr [OF mark [unfolded mark_consumed_def]]]
    and i = conjunct2 [OF insert_effect_Inr [OF ins]]
  have "db_tables db' = consumed_tables ts eid d payload b (db_tables db)"
    by (simp only: res(3) i u eq consumed_tables_def) simp
  with act b sm print res(1,2) show ?thesis by blast
qed

lemma find_effect_chat:
  assumes "distinct (effect_ids t)"
    and "find (\<lambda>r. ef_effect_id r = d \<and> ef_chat_id r = c) (pn_effects t) = Some r"
  shows "effect_at t d = Some r \<and> ef_chat_id r = c"
  using assms find_in_set [OF assms(2)] find_unique_key [of ef_effect_id "pn_effects t" r]
  by (auto simp: effect_at_def)

lemma consume_Inr:
  assumes "callback_consume C now ts eid token s db = (Inr (a, e), db')"
    and dist: "distinct (effect_ids (db_tables db))"
  shows "opaque_token token \<and> e = eid \<and> (\<exists>r b payload. effect_at (db_tables db) (cc_sha256_hex C token) = Some r
     \<and> ef_status r = ''active'' \<and> cc_parse_binding C (ef_payload r) = Some b
     \<and> scope_matches now s (ef_action_nonce r) b \<and> a = cb_action b \<and> cc_print_action C (cb_action b) = Some payload
     \<and> db_tables db' = consumed_tables ts eid (cc_sha256_hex C token) payload b (db_tables db))"
proof -
  let ?d = "cc_sha256_hex C token"
  from assms(1) have tok: "opaque_token token"
    by (auto simp: callback_consume_def sql_bind_Inr validate_opaque_token_def split: if_splits)
  from assms(1) have "sql_transaction (sql_bind (select_token ?d (sc_chat_id s)) (\<lambda>row. case row of
         None \<Rightarrow> sql_lift (Inl callback_gone)
       | Some r \<Rightarrow> consume_found C now ts eid ?d s r)) db = (Inr (a, e), db')"
    by (auto simp: callback_consume_def sql_bind_Inr split: if_splits)
  then obtain db1 db2 row db3 where db: "db_tables db1 = db_tables db" "db_tables db' = db_tables db2"
    and sel: "select_token ?d (sc_chat_id s) db1 = (Inr (Some row), db3)"
    and found: "consume_found C now ts eid ?d s row db3 = (Inr (a, e), db2)"
    by (rule sql_transaction_Inr) (auto simp: sql_bind_Inr split: option.splits)
  from sel have s1: "db_tables db3 = db_tables db1"
    and s2: "find (\<lambda>r. ef_effect_id r = ?d \<and> ef_chat_id r = sc_chat_id s) (pn_effects (db_tables db1)) = Some row"
    unfolding select_token_def by (auto dest: sql_stmt_Inr)
  have t3: "db_tables db3 = db_tables db" using s1 db(1) by simp
  have "effect_at (db_tables db) ?d = Some row"
    using find_effect_chat [OF dist] s2 db(1) by metis
  with consume_found_Inr [OF found] tok dist t3 db show ?thesis by simp
qed

lemma consume_Inl:
  assumes "callback_consume C now ts eid token s db = (Inl e, db')"
  shows "db_tables db' = db_tables db"
  using assms
  by (auto simp: callback_consume_def sql_bind_def sql_lift_def split: sum.splits if_splits dest: sql_transaction_Inl)

text \<open>C14. Pressing a button is all or nothing. A token that is refused, for whatever reason or failing
  statement, leaves the tables as they were. A token that is accepted was active and carries a binding
  that agrees with the account, bot, chat, user, panel, message and revision of the update and has not
  expired; it is then consumed, and one effect is queued, whose payload is the encoding of the very
  action of the binding; no other row changes. Effects must have distinct identifiers, as the primary
  key of their table ensures.\<close>

theorem token_consumption_atomic:
  assumes "callback_consume C now ts eid token s db = (res, db')"
    and "distinct (effect_ids (db_tables db))"
  shows "case res of
       Inl e \<Rightarrow> db_tables db' = db_tables db
     | Inr (a, e) \<Rightarrow> e = eid \<and> (\<exists>r b payload. effect_at (db_tables db) (cc_sha256_hex C token) = Some r
         \<and> ef_status r = ''active'' \<and> cc_parse_binding C (ef_payload r) = Some b
         \<and> cb_account_id b = sc_account_id s \<and> cb_internal_bot_id b = sc_internal_bot_id s
         \<and> cb_numeric_bot_id b = sc_numeric_bot_id s \<and> cb_chat_id b = sc_chat_id s
         \<and> cb_authorized_user_id b = sc_authorized_user_id s \<and> cb_panel_id b = sc_panel_id s
         \<and> cb_message_id b = sc_message_id s \<and> cb_panel_revision b = sc_panel_revision s
         \<and> now < cb_expires_at_unix b \<and> a = cb_action b \<and> cc_print_action C (cb_action b) = Some payload
         \<and> db_tables db' = consumed_tables ts eid (cc_sha256_hex C token) payload b (db_tables db))"
proof (cases res)
  case (Inl e)
  with assms consume_Inl show ?thesis by auto
next
  case (Inr x)
  obtain a e where x: "x = (a, e)" by (cases x)
  with Inr assms have "callback_consume C now ts eid token s db = (Inr (a, e), db')" by simp
  from consume_Inr [OF this assms(2)] Inr x show ?thesis
    by (fastforce simp: scope_matches_def)
qed

section \<open>Issued tokens\<close>

definition binding_scope :: "callback_binding \<Rightarrow> callback_scope" where
  "binding_scope b = \<lparr> sc_account_id = cb_account_id b, sc_internal_bot_id = cb_internal_bot_id b,
     sc_numeric_bot_id = cb_numeric_bot_id b, sc_chat_id = cb_chat_id b,
     sc_authorized_user_id = cb_authorized_user_id b, sc_panel_id = cb_panel_id b,
     sc_message_id = cb_message_id b, sc_panel_revision = cb_panel_revision b \<rparr>"

lemma steady_callback_ops [sql_clean]:
  "sql_steady (insert_effect r)" "sql_steady (update_effects P f)" "sql_steady (select_token d c)"
  "sql_steady (mark_consumed a a' d p n)" "sql_steady (consume_found C now ts eid d s r)"
  "sql_steady (callback_issue C raw issued b)" "sql_steady (callback_consume C now ts eid token s)"
  by (auto simp: insert_effect_def update_effects_def select_token_def mark_consumed_def consume_found_def
      callback_issue_def callback_consume_def sql_clean split: option.split)

lemma run_insert_effect [sql_clean]:
  "sql_run (insert_effect r) t =
     (if ef_effect_id r \<in> ef_effect_id ` set (pn_effects t)
        \<or> (\<exists>n. ef_action_nonce r = Some n \<and> Some n \<in> ef_action_nonce ` set (pn_effects t))
      then (Inl db_error, t) else (Inr 1, t\<lparr>pn_effects := pn_effects t @ [r]\<rparr>))"
  by (simp add: insert_effect_def sql_clean)

lemma run_issue:
  assumes "opaque_token (token_of raw)" "cc_print_binding C b = Inr p"
    and "cc_sha256_hex C (token_of raw) \<notin> set (effect_ids t)"
    and "Some (cb_action_nonce b) \<notin> ef_action_nonce ` set (pn_effects t)"
  shows "sql_run (callback_issue C raw issued b) t
    = (Inr (token_of raw), t\<lparr>pn_effects := pn_effects t @ [token_row C issued (token_of raw) p b]\<rparr>)"
  using assms by (simp add: callback_issue_def sql_clean validate_opaque_token_def token_row_def)

lemma sql_update_last:
  assumes "\<forall>r \<in> set rs. \<not> P r" "P x"
  shows "sql_update P f (rs @ [x]) = (rs @ [f x], 1)"
proof -
  have "filter P rs = []" "map (\<lambda>r. if P r then f r else r) rs = rs"
    using assms(1) by (auto intro: map_idI)
  with assms(2) show ?thesis by (simp add: sql_update_def)
qed

lemma find_last: "\<forall>r \<in> set rs. \<not> P r \<Longrightarrow> P x \<Longrightarrow> find P (rs @ [x]) = Some x"
  by (induction rs) auto

lemma run_consume_last:
  assumes "opaque_token token" "0 < cb_numeric_bot_id b" "0 < cb_message_id b"
    and "cc_parse_binding C p = Some b" "cc_print_action C (cb_action b) = Some q"
    and "cc_sha256_hex C token \<notin> set (map ef_effect_id rs)" "eid \<notin> set (map ef_effect_id rs)"
    and "eid \<noteq> cc_sha256_hex C token" "trim (cb_action_nonce b) \<noteq> []" "now < cb_expires_at_unix b"
  shows "sql_run (callback_consume C now ts eid token (binding_scope b)) (t\<lparr>pn_effects := rs @ [token_row C issued token p b]\<rparr>)
    = (Inr (cb_action b, eid), t\<lparr>pn_effects := rs @ [(token_row C issued token p b)
         \<lparr>ef_status := ''consumed'', ef_terminal_at := Some (ts 0), ef_updated_at := ts 1\<rparr>,
         action_row (ts 2) (ts 3) eid q b]\<rparr>)"
proof -
  let ?r = "token_row C issued token p b" and ?d = "cc_sha256_hex C token"
  have new: "\<forall>r \<in> set rs. ef_effect_id r \<noteq> ?d" "\<forall>r \<in> set rs. ef_effect_id r \<noteq> eid"
    using assms(6,7) by (auto simp: image_iff)
  have fnd: "find (\<lambda>r. ef_effect_id r = ?d \<and> ef_chat_id r = cb_chat_id b) (rs @ [?r]) = Some ?r"
    by (rule find_last) (use new in \<open>auto simp: token_row_def\<close>)
  have upd: "sql_update (\<lambda>r. ef_effect_id r = ?d \<and> ef_status r = ''active'' \<and> ef_payload r = p
       \<and> ef_action_nonce r = Some (cb_action_nonce b)) f (rs @ [?r]) = (rs @ [f ?r], 1)" for f
    by (rule sql_update_last) (use new in \<open>auto simp: token_row_def\<close>)
  have sm: "scope_matches now (binding_scope b) (Some (cb_action_nonce b)) b"
    using assms(9,10) by (simp add: scope_matches_def binding_scope_def)
  have [simp]: "ef_status ?r = ''active''" "ef_payload ?r = p" "ef_action_nonce ?r = Some (cb_action_nonce b)"
    "ef_effect_id ?r = ?d"
    by (simp_all add: token_row_def)
  have "ef_effect_id (action_row (ts 2) (ts 3) eid q b) = eid" "ef_action_nonce (action_row (ts 2) (ts 3) eid q b) = None"
    by (simp_all add: action_row_def)
  with assms new fnd upd sm show ?thesis
    by (auto simp: callback_consume_def consume_found_def validate_opaque_token_def mark_consumed_def select_token_def
        update_effects_def binding_scope_def sql_clean)
qed

text \<open>Without database failures, a token issued for a binding and presented in the scope of that
  binding before it expires is accepted and yields the action it was issued for; presented again, even
  with other clock readings and identifiers, it is answered as already handled.\<close>

theorem issued_token_accepted_then_replayed:
  assumes "length raw = 16" "\<forall>x \<in> set raw. x < 256"
    and "cc_print_binding C b = Inr p" "cc_parse_binding C p = Some b" "cc_print_action C (cb_action b) = Some q"
    and "cc_sha256_hex C (token_of raw) \<notin> set (effect_ids t)" "eid \<notin> set (effect_ids t)"
    and "eid \<noteq> cc_sha256_hex C (token_of raw)" "Some (cb_action_nonce b) \<notin> ef_action_nonce ` set (pn_effects t)"
    and "trim (cb_action_nonce b) \<noteq> []" "now < cb_expires_at_unix b" "0 < cb_numeric_bot_id b" "0 < cb_message_id b"
  shows "fst (sql_run (sql_bind (callback_issue C raw issued b)
            (\<lambda>token. callback_consume C now ts eid token (binding_scope b))) t) = Inr (cb_action b, eid)
       \<and> fst (sql_run (sql_bind (callback_issue C raw issued b)
            (\<lambda>token. sql_bind (callback_consume C now ts eid token (binding_scope b))
            (\<lambda>_. callback_consume C now' ts' eid' token (binding_scope b)))) t) = Inl callback_replayed"
proof -
  let ?d = "cc_sha256_hex C (token_of raw)"
  have tok: "opaque_token (token_of raw)" by (rule token_of_opaque [OF assms(1,2)])
  have iss: "sql_run (callback_issue C raw issued b) t
      = (Inr (token_of raw), t\<lparr>pn_effects := pn_effects t @ [token_row C issued (token_of raw) p b]\<rparr>)"
    using run_issue [of raw C b p t issued] tok assms(3,6,9) by simp
  note con = run_consume_last [OF tok assms(12,13,4,5,6,7,8,10,11), where ts = ts and t = t and issued = issued]
  have fnd: "find (\<lambda>r. ef_effect_id r = ?d \<and> ef_chat_id r = cb_chat_id b) (rs @ x # xs) = Some x"
    if "\<forall>r \<in> set rs. ef_effect_id r \<noteq> ?d" "ef_effect_id x = ?d" "ef_chat_id x = cb_chat_id b" for rs x xs
    using that by (induction rs) auto
  have new: "\<forall>r \<in> set (pn_effects t). ef_effect_id r \<noteq> ?d"
    using assms(6) by (auto simp: image_iff)
  have "fst (sql_run (callback_consume C now' ts' eid' (token_of raw) (binding_scope b))
      (t\<lparr>pn_effects := pn_effects t @ [(token_row C issued (token_of raw) p b)
         \<lparr>ef_status := ''consumed'', ef_terminal_at := Some (ts 0), ef_updated_at := ts 1\<rparr>,
         action_row (ts 2) (ts 3) eid q b]\<rparr>)) = Inl callback_replayed"
    using tok new assms(12,13)
    by (subst callback_consume_def)
       (auto simp: sql_clean validate_opaque_token_def select_token_def binding_scope_def fnd token_row_def
          consume_found_def)
  with iss con show ?thesis by (simp add: sql_clean)
qed

definition demo_codec :: "callback_binding \<Rightarrow> callback_codec" where
  "demo_codec b = \<lparr> cc_print_binding = (\<lambda>_. Inr ''binding''), cc_parse_binding = (\<lambda>_. Some b),
     cc_print_action = (\<lambda>_. Some ''action''), cc_sha256_hex = (\<lambda>s. CHR ''d'' # s) \<rparr>"

definition demo_binding :: "callback_action \<Rightarrow> callback_binding" where
  "demo_binding a = \<lparr> cb_account_id = ''acc'', cb_internal_bot_id = ''bot'', cb_numeric_bot_id = 42,
     cb_chat_id = 7, cb_authorized_user_id = ''user'', cb_panel_id = ''panel'', cb_message_id = 9,
     cb_panel_revision = 3, cb_catalog_revision = None, cb_expires_at_unix = 600, cb_action = a,
     cb_action_nonce = ''n'' \<rparr>"

definition no_panels :: panel_tables where
  "no_panels = \<lparr> pn_slots = [], pn_effects = [] \<rparr>"

definition pressed :: "callback_action \<Rightarrow> (callback_action \<times> string) panel_m" where
  "pressed a = sql_bind (callback_issue (demo_codec (demo_binding a)) (replicate 16 0) ''t'' (demo_binding a))
     (\<lambda>token. callback_consume (demo_codec (demo_binding a)) 100 (\<lambda>_. ''t'') ''e'' token (binding_scope (demo_binding a)))"

lemma demo_nonce: "trim ''n'' \<noteq> []"
  by code_simp

theorem issued_token_accepted_then_replayed_witness:
  "fst (sql_run (pressed CA_Home) no_panels) = Inr (CA_Home, ''e'')"
proof -
  let ?b = "demo_binding CA_Home"
  show ?thesis
    unfolding pressed_def
    using issued_token_accepted_then_replayed [of "replicate 16 0" "demo_codec ?b" ?b "''binding''" "''action''"
        no_panels "''e''" 100 "''t''" "\<lambda>_. ''t''" 100 "\<lambda>_. ''t''" "''f''"] demo_nonce
    by (simp add: demo_codec_def demo_binding_def no_panels_def token_of_def)
qed

definition demo_issued :: "callback_action \<Rightarrow> panel_tables" where
  "demo_issued a = no_panels\<lparr>pn_effects :=
     [token_row (demo_codec (demo_binding a)) ''t'' (token_of (replicate 16 0)) ''binding'' (demo_binding a)]\<rparr>"

definition demo_press :: "callback_action \<Rightarrow> (callback_action \<times> string) panel_m" where
  "demo_press a = callback_consume (demo_codec (demo_binding a)) 100 (\<lambda>_. ''t'') ''e'' (token_of (replicate 16 0))
     (binding_scope (demo_binding a))"

lemma demo_press_run:
  "sql_run (demo_press CA_Home) (demo_issued CA_Home) = (Inr (CA_Home, ''e''),
     no_panels\<lparr>pn_effects := [(token_row (demo_codec (demo_binding CA_Home)) ''t'' (token_of (replicate 16 0)) ''binding''
         (demo_binding CA_Home))\<lparr>ef_status := ''consumed'', ef_terminal_at := Some ''t'', ef_updated_at := ''t''\<rparr>,
       action_row ''t'' ''t'' ''e'' ''action'' (demo_binding CA_Home)]\<rparr>)"
  unfolding demo_press_def demo_issued_def
  using run_consume_last [where token = "token_of (replicate 16 0)" and b = "demo_binding CA_Home"
      and C = "demo_codec (demo_binding CA_Home)" and p = "''binding''" and q = "''action''" and rs = "[]" and eid = "''e''"
      and now = 100 and ts = "\<lambda>_. ''t''" and t = no_panels and issued = "''t''"] demo_nonce
  by (simp add: demo_codec_def demo_binding_def token_of_opaque)

theorem token_consumption_atomic_witness:
  "\<exists>db'. demo_press CA_Home \<lparr>db_tables = demo_issued CA_Home, db_faults = []\<rparr> = (Inr (CA_Home, ''e''), db')
     \<and> (\<exists>payload b. cb_action b = CA_Home \<and> cc_print_action (demo_codec (demo_binding CA_Home)) CA_Home = Some payload
         \<and> action_row ''t'' ''t'' ''e'' payload b \<in> set (pn_effects (db_tables db')))"
proof -
  let ?db = "\<lparr>db_tables = demo_issued CA_Home, db_faults = []\<rparr>"
  have "fst (demo_press CA_Home ?db) = Inr (CA_Home, ''e'')"
    using demo_press_run by (simp add: sql_run_def split: prod.splits)
  then have run: "demo_press CA_Home ?db = (Inr (CA_Home, ''e''), snd (demo_press CA_Home ?db))" by (simp add: prod_eq_iff)
  have "distinct (effect_ids (db_tables ?db))" by (simp add: demo_issued_def)
  from token_consumption_atomic [OF run [unfolded demo_press_def] this]
  obtain b payload where "cb_action b = CA_Home" "cc_print_action (demo_codec (demo_binding CA_Home)) (cb_action b) = Some payload"
    "db_tables (snd (demo_press CA_Home ?db)) = consumed_tables (\<lambda>_. ''t'') ''e''
       (cc_sha256_hex (demo_codec (demo_binding CA_Home)) (token_of (replicate 16 0))) payload b (demo_issued CA_Home)"
    by (simp only: sum.case prod.case demo_press_def database.select_convs) metis
  then have "cb_action b = CA_Home \<and> cc_print_action (demo_codec (demo_binding CA_Home)) CA_Home = Some payload
     \<and> action_row ''t'' ''t'' ''e'' payload b \<in> set (pn_effects (db_tables (snd (demo_press CA_Home ?db))))"
    by (simp add: consumed_tables_def)
  with run show ?thesis by blast
qed

section \<open>Duplicate callback queries\<close>

definition dedup_run :: "(nat \<times> string) list \<Rightarrow> callback_dedup \<Rightarrow> callback_dedup" where
  "dedup_run calls D = fold (\<lambda>(now, k) D. snd (dedup_accept now k D)) calls D"

lemma dedup_ttl [simp]: "dd_ttl (snd (dedup_accept now k D)) = dd_ttl D"
  by (simp add: dedup_accept_def Let_def)

lemma dedup_entry_stays:
  assumes "dd_entries D k = Some s" "now - s < dd_ttl D"
  shows "dd_entries (snd (dedup_accept now k' D)) k = Some s"
  using assms by (auto simp: dedup_accept_def dedup_retain_def Let_def)

lemma dedup_run_entry:
  assumes "\<forall>(now, _) \<in> set calls. now - s < dd_ttl D" "dd_entries D k = Some s"
  shows "dd_entries (dedup_run calls D) k = Some s \<and> dd_ttl (dedup_run calls D) = dd_ttl D"
  using assms
proof (induction calls arbitrary: D)
  case Nil
  then show ?case by (simp add: dedup_run_def)
next
  case (Cons c calls)
  obtain now k' where c: "c = (now, k')" by (cases c)
  with Cons.prems dedup_entry_stays [of D k s now k'] Cons.IH [of "snd (dedup_accept now k' D)"]
  show ?case by (simp add: dedup_run_def)
qed

text \<open>A callback query is accepted at most once within the time to live: after it was accepted, every
  further presentation of the same key is refused until the time to live has passed, whatever other
  keys are presented meanwhile.\<close>

theorem callback_query_accepted_once:
  assumes "dedup_accept s k D = (True, D1)"
    and "\<forall>(now, _) \<in> set calls. now - s < dd_ttl D" "now - s < dd_ttl D"
  shows "fst (dedup_accept now k (dedup_run calls D1)) = False \<and> is_duplicate now k (dedup_run calls D1)"
proof -
  from assms(1) have "dd_entries D1 k = Some s" "dd_ttl D1 = dd_ttl D"
    by (auto simp: dedup_accept_def Let_def split: if_splits)
  with dedup_run_entry [of calls s D1 k] assms(2,3) show ?thesis
    by (simp add: dedup_accept_def dedup_retain_def is_duplicate_def Let_def)
qed

theorem callback_query_accepted_once_witness:
  "fst (dedup_accept 5 ''q'' (dedup_run [(3, ''p''), (4, ''q'')] (snd (dedup_accept 1 ''q'' (callback_dedup_new 10))))) = False"
proof -
  have "dedup_accept 1 ''q'' (callback_dedup_new 10) = (True, snd (dedup_accept 1 ''q'' (callback_dedup_new 10)))"
    by (simp add: dedup_accept_def callback_dedup_new_def dedup_retain_def Let_def)
  from callback_query_accepted_once [OF this, of "[(3, ''p''), (4, ''q'')]" 5] show ?thesis
    by (simp add: callback_dedup_new_def)
qed

end
