(* ===== verification/Panel_Store.thy ===== *)
theory Panel_Store
  imports Telegram_Panel Callback_Store
begin

text \<open>
  \<^verbatim>\<open>src/modules/telegram/panel_store.rs\<close>, the slots that remember the current panel of a chat and the
  effects that replace it, and \<^verbatim>\<open>bind_panel_callbacks\<close> of \<^verbatim>\<open>src/modules/telegram/mod.rs\<close>, which puts
  issued tokens on the buttons of a panel. A call of the store is an operation on the tables; a
  run is a sequence of calls of all tasks, each with its own failing statements.
\<close>

section \<open>Columns\<close>

record panel_codec =
  pc_print_kind :: "panel_kind \<Rightarrow> string + string"
  pc_parse_kind :: "string \<Rightarrow> string + panel_kind"
  pc_print_claim :: "u64 \<Rightarrow> panel_slot \<Rightarrow> panel_slot \<Rightarrow> telegram_panel \<Rightarrow> string option"

definition encode_revision :: "u64 \<Rightarrow> i64 app_result" where
  "encode_revision r =
     (if int (unat r) \<le> i64_max then Inr (int (unat r))
      else Inl (bad_request ''TELEGRAM_PANEL_REVISION_INVALID'' ''panel revision exceeds SQLite integer range''))"

definition decode_revision :: "i64 \<Rightarrow> u64 app_result" where
  "decode_revision r =
     (if 0 \<le> r then Inr (word_of_int r) else Inl (internal ''stored panel revision is invalid''))"

definition encode_kind :: "panel_codec \<Rightarrow> panel_kind \<Rightarrow> string app_result" where
  "encode_kind K k = map_err (\<lambda>err. internal (''panel kind encode failed: '' @ err)) (pc_print_kind K k)"

definition decode_slot :: "panel_codec \<Rightarrow> slot_row \<Rightarrow> panel_slot app_result" where
  "decode_slot K r =
     bind_r (map_err (\<lambda>err. internal (''panel kind decode failed: '' @ err)) (pc_parse_kind K (sl_kind r))) (\<lambda>k.
     bind_r (decode_revision (sl_revision r)) (\<lambda>revn.
     Inr \<lparr> ps_panel_id = sl_panel_id r, ps_account_id = sl_account_id r, ps_numeric_bot_id = sl_numeric_bot_id r,
       ps_chat_id = sl_chat_id r, ps_message_id = sl_message_id r, ps_kind = k, ps_revision = revn,
       ps_active = (sl_active r \<noteq> 0), ps_expires_at_unix = sl_expires_at_unix r \<rparr>))"

section \<open>Slots\<close>

definition update_slots :: "(slot_row \<Rightarrow> bool) \<Rightarrow> (slot_row \<Rightarrow> slot_row) \<Rightarrow> nat panel_m" where
  "update_slots P f = sql_stmt (\<lambda>t.
     case sql_update P f (pn_slots t) of (rs, n) \<Rightarrow> (Inr n, t\<lparr>pn_slots := rs\<rparr>))"

definition slot_scope :: "slot_row \<Rightarrow> i64 \<times> i64" where
  "slot_scope r = (sl_numeric_bot_id r, sl_chat_id r)"

text \<open>The insertion with its \<^verbatim>\<open>ON CONFLICT(panel_id)\<close> branch; the partial unique index allows one
  active slot for a bot and a chat.\<close>

definition upsert_slot :: "slot_row \<Rightarrow> unit panel_m" where
  "upsert_slot r = sql_stmt (\<lambda>t.
     if sl_active r = 1
        \<and> (\<exists>o' \<in> set (pn_slots t). sl_panel_id o' \<noteq> sl_panel_id r \<and> sl_active o' = 1 \<and> slot_scope o' = slot_scope r)
     then (Inl db_error, t)
     else if sl_panel_id r \<in> sl_panel_id ` set (pn_slots t)
     then (Inr (), t\<lparr>pn_slots := map (\<lambda>o'. if sl_panel_id o' = sl_panel_id r
             then r\<lparr>sl_created_at := sl_created_at o'\<rparr> else o') (pn_slots t)\<rparr>)
     else (Inr (), t\<lparr>pn_slots := pn_slots t @ [r]\<rparr>))"

definition slot_to_row :: "string \<Rightarrow> string \<Rightarrow> i64 \<Rightarrow> panel_slot \<Rightarrow> slot_row" where
  "slot_to_row now kind revn s =
     \<lparr> sl_panel_id = ps_panel_id s, sl_account_id = ps_account_id s, sl_numeric_bot_id = ps_numeric_bot_id s,
       sl_chat_id = ps_chat_id s, sl_message_id = ps_message_id s, sl_kind = kind, sl_revision = revn,
       sl_active = (if ps_active s then 1 else 0), sl_expires_at_unix = ps_expires_at_unix s,
       sl_created_at = now, sl_updated_at = now \<rparr>"

definition deactivate_others :: "string \<Rightarrow> panel_slot \<Rightarrow> nat panel_m" where
  "deactivate_others now s = update_slots
     (\<lambda>r. sl_account_id r = ps_account_id s \<and> sl_numeric_bot_id r = ps_numeric_bot_id s
          \<and> sl_chat_id r = ps_chat_id s \<and> sl_active r = 1 \<and> sl_panel_id r \<noteq> ps_panel_id s)
     (\<lambda>r. r\<lparr>sl_active := 0, sl_updated_at := now\<rparr>)"

text \<open>The panels \<^verbatim>\<open>deactivate_others\<close> selects.\<close>

definition retired_by :: "panel_slot \<Rightarrow> slot_row \<Rightarrow> bool" where
  "retired_by s r \<longleftrightarrow> sl_account_id r = ps_account_id s \<and> sl_numeric_bot_id r = ps_numeric_bot_id s
     \<and> sl_chat_id r = ps_chat_id s \<and> sl_active r = 1 \<and> sl_panel_id r \<noteq> ps_panel_id s"

definition save_slot :: "panel_codec \<Rightarrow> string \<Rightarrow> panel_slot \<Rightarrow> unit panel_m" where
  "save_slot K now s =
     sql_bind (sql_lift (encode_kind K (ps_kind s))) (\<lambda>kind.
     sql_transaction (
       sql_bind (if ps_active s then deactivate_others now s else sql_return 0) (\<lambda>_.
       sql_bind (sql_lift (encode_revision (ps_revision s))) (\<lambda>revn.
       upsert_slot (slot_to_row now kind revn s)))))"

text \<open>\<^verbatim>\<open>ORDER BY updated_at DESC LIMIT 1\<close>.\<close>

definition latest :: "slot_row list \<Rightarrow> slot_row option" where
  "latest rs = fold (\<lambda>r best. case best of
       None \<Rightarrow> Some r
     | Some b \<Rightarrow> if sl_updated_at b < sl_updated_at r then Some r else Some b) rs None"

definition find_slot :: "panel_codec \<Rightarrow> (slot_row \<Rightarrow> bool) \<Rightarrow> panel_slot option panel_m" where
  "find_slot K P =
     sql_bind (sql_stmt (\<lambda>t. (Inr (latest (filter P (pn_slots t))), t))) (\<lambda>row.
     case row of None \<Rightarrow> sql_return None | Some r \<Rightarrow> sql_lift (map_ok Some (decode_slot K r)))"

definition find_active_slot :: "panel_codec \<Rightarrow> i64 \<Rightarrow> i64 \<Rightarrow> panel_slot option panel_m" where
  "find_active_slot K bot_id chat =
     find_slot K (\<lambda>r. sl_numeric_bot_id r = bot_id \<and> sl_chat_id r = chat \<and> sl_active r = 1)"

definition find_active_slot_for_account_chat :: "panel_codec \<Rightarrow> string \<Rightarrow> i64 \<Rightarrow> panel_slot option panel_m" where
  "find_active_slot_for_account_chat K acc chat =
     find_slot K (\<lambda>r. sl_account_id r = acc \<and> sl_chat_id r = chat \<and> sl_active r = 1)"

definition find_active_slot_for_scope :: "panel_codec \<Rightarrow> string \<Rightarrow> i64 \<Rightarrow> i64 \<Rightarrow> panel_slot option panel_m" where
  "find_active_slot_for_scope K acc bot_id chat =
     find_slot K (\<lambda>r. sl_account_id r = acc \<and> sl_numeric_bot_id r = bot_id \<and> sl_chat_id r = chat \<and> sl_active r = 1)"

section \<open>Replacing a panel\<close>

definition slot_at_revision :: "panel_slot \<Rightarrow> i64 \<Rightarrow> slot_row \<Rightarrow> bool" where
  "slot_at_revision s revn r \<longleftrightarrow>
     sl_panel_id r = ps_panel_id s \<and> sl_account_id r = ps_account_id s \<and> sl_numeric_bot_id r = ps_numeric_bot_id s
     \<and> sl_chat_id r = ps_chat_id s \<and> sl_revision r = revn \<and> sl_active r = 1"

definition replace_row :: "string \<Rightarrow> string \<Rightarrow> string \<Rightarrow> i64 \<Rightarrow> panel_slot \<Rightarrow> effect_row" where
  "replace_row now eid payload revn s =
     \<lparr> ef_effect_id = eid, ef_panel_id = ps_panel_id s, ef_chat_id = ps_chat_id s, ef_effect_type = ''replace'',
       ef_payload = payload, ef_status = ''pending'', ef_action_nonce = None, ef_attempt_token = Some eid,
       ef_expected_revision = Some revn, ef_terminal_at = None, ef_created_at = now, ef_updated_at = now \<rparr>"

text \<open>\<^verbatim>\<open>INSERT .. SELECT .. WHERE EXISTS .. AND NOT EXISTS ..\<close>.\<close>

definition insert_replace :: "string \<Rightarrow> string \<Rightarrow> string \<Rightarrow> i64 \<Rightarrow> panel_slot \<Rightarrow> nat panel_m" where
  "insert_replace now eid payload revn s = sql_stmt (\<lambda>t.
     if (\<exists>r \<in> set (pn_slots t). slot_at_revision s revn r)
        \<and> \<not> (\<exists>r \<in> set (pn_effects t). ef_panel_id r = ps_panel_id s \<and> ef_effect_type r = ''replace''
               \<and> (ef_status r = ''pending'' \<or> ef_status r = ''sending'') \<and> ef_payload r = payload)
     then (if eid \<in> ef_effect_id ` set (pn_effects t) then (Inl db_error, t)
           else (Inr 1, t\<lparr>pn_effects := pn_effects t @ [replace_row now eid payload revn s]\<rparr>))
     else (Inr 0, t))"

definition claim_panel_revision ::
    "panel_codec \<Rightarrow> string \<Rightarrow> string \<Rightarrow> panel_slot \<Rightarrow> u64 \<Rightarrow> telegram_panel \<Rightarrow> panel_slot \<Rightarrow> string option panel_m" where
  "claim_panel_revision K now eid s expected p next_slot =
     sql_bind (sql_lift (ok_or (internal ''panel effect payload serialization failed'')
         (pc_print_claim K expected s next_slot p))) (\<lambda>payload.
     sql_bind (sql_lift (encode_revision expected)) (\<lambda>revn.
     sql_bind (insert_replace now eid payload revn s) (\<lambda>n.
     sql_return (if n = 1 then Some eid else None))))"

definition replace_conflict :: "string \<Rightarrow> app_error" where
  "replace_conflict msg = conflict ''TELEGRAM_PANEL_EFFECT_CAS_CONFLICT'' msg"

definition replace_in_status :: "string \<Rightarrow> panel_slot \<Rightarrow> i64 \<Rightarrow> string \<Rightarrow> effect_row \<Rightarrow> bool" where
  "replace_in_status eid s revn st r \<longleftrightarrow>
     ef_effect_id r = eid \<and> ef_attempt_token r = Some eid \<and> ef_panel_id r = ps_panel_id s
     \<and> ef_chat_id r = ps_chat_id s \<and> ef_expected_revision r = Some revn \<and> ef_effect_type r = ''replace''
     \<and> ef_status r = st"

definition mark_panel_revision_status ::
    "string \<Rightarrow> string \<Rightarrow> string \<Rightarrow> panel_slot \<Rightarrow> u64 \<Rightarrow> string \<Rightarrow> unit panel_m" where
  "mark_panel_revision_status terminal now eid s expected status =
     sql_bind (sql_lift (encode_revision expected)) (\<lambda>revn.
     sql_bind (update_effects (replace_in_status eid s revn (if status = ''sending'' then ''pending'' else ''sending''))
       (\<lambda>r. r\<lparr>ef_status := status,
              ef_terminal_at := (if status = ''sent'' \<or> status = ''failed'' then Some terminal else ef_terminal_at r),
              ef_updated_at := now\<rparr>)) (\<lambda>changed.
     if changed \<noteq> 1 then sql_lift (Inl (replace_conflict ''panel effect status changed concurrently''))
     else sql_return ()))"

definition mark_panel_revision_sending :: "string \<Rightarrow> string \<Rightarrow> string \<Rightarrow> panel_slot \<Rightarrow> u64 \<Rightarrow> unit panel_m" where
  "mark_panel_revision_sending terminal now eid s expected = mark_panel_revision_status terminal now eid s expected ''sending''"

definition mark_panel_revision_sent :: "string \<Rightarrow> string \<Rightarrow> string \<Rightarrow> panel_slot \<Rightarrow> u64 \<Rightarrow> unit panel_m" where
  "mark_panel_revision_sent terminal now eid s expected = mark_panel_revision_status terminal now eid s expected ''sent''"

definition mark_panel_revision_failed :: "string \<Rightarrow> string \<Rightarrow> string \<Rightarrow> panel_slot \<Rightarrow> u64 \<Rightarrow> unit panel_m" where
  "mark_panel_revision_failed terminal now eid s expected = mark_panel_revision_status terminal now eid s expected ''failed''"

definition advance_slot :: "string \<Rightarrow> string \<Rightarrow> panel_slot \<Rightarrow> u64 \<Rightarrow> panel_slot \<Rightarrow> nat panel_m" where
  "advance_slot now kind s expected next_slot =
     sql_bind (sql_lift (encode_revision (ps_revision next_slot))) (\<lambda>next_rev.
     sql_bind (sql_lift (encode_revision expected)) (\<lambda>revn.
     update_slots (slot_at_revision s revn)
       (\<lambda>r. r\<lparr>sl_revision := next_rev, sl_kind := kind, sl_message_id := ps_message_id next_slot,
              sl_expires_at_unix := ps_expires_at_unix next_slot, sl_updated_at := now\<rparr>)))"

definition complete_panel_replace ::
    "panel_codec \<Rightarrow> (nat \<Rightarrow> string) \<Rightarrow> string \<Rightarrow> panel_slot \<Rightarrow> u64 \<Rightarrow> panel_slot \<Rightarrow> unit panel_m" where
  "complete_panel_replace K ts eid s expected next_slot =
     sql_bind (sql_lift (encode_kind K (ps_kind next_slot))) (\<lambda>kind.
     sql_transaction (
       sql_bind (advance_slot (ts 0) kind s expected next_slot) (\<lambda>slot_changed.
       if slot_changed \<noteq> 1
       then sql_lift (Inl (conflict ''TELEGRAM_PANEL_STALE'' ''panel slot revision changed before effect confirmation''))
       else
         sql_bind (sql_lift (encode_revision expected)) (\<lambda>revn.
         sql_bind (update_effects (replace_in_status eid s revn ''sending'')
           (\<lambda>r. r\<lparr>ef_status := ''sent'', ef_terminal_at := Some (ts 1), ef_updated_at := ts 2\<rparr>)) (\<lambda>effect_changed.
         if effect_changed \<noteq> 1
         then sql_lift (Inl (replace_conflict ''panel effect confirmation changed concurrently''))
         else sql_return ())))))"

definition cas_update_slot_scoped ::
    "panel_codec \<Rightarrow> string \<Rightarrow> panel_slot \<Rightarrow> u64 \<Rightarrow> panel_slot \<Rightarrow> bool panel_m" where
  "cas_update_slot_scoped K now s expected next_slot =
     sql_bind (sql_lift (encode_kind K (ps_kind next_slot))) (\<lambda>kind.
     sql_bind (advance_slot now kind s expected next_slot) (\<lambda>n. sql_return (n = 1)))"

definition cas_update_slot ::
    "panel_codec \<Rightarrow> string \<Rightarrow> string \<Rightarrow> u64 \<Rightarrow> panel_kind \<Rightarrow> i64 \<Rightarrow> bool panel_m" where
  "cas_update_slot K now pid expected kind expires =
     sql_bind (sql_lift (encode_kind K kind)) (\<lambda>k.
     sql_bind (sql_lift (encode_revision expected)) (\<lambda>revn.
     sql_bind (update_slots (\<lambda>r. sl_panel_id r = pid \<and> sl_revision r = revn \<and> sl_active r = 1)
       (\<lambda>r. r\<lparr>sl_revision := sl_revision r + 1, sl_kind := k, sl_expires_at_unix := expires, sl_updated_at := now\<rparr>))
       (\<lambda>n. sql_return (n = 1))))"

definition retire_slot :: "string \<Rightarrow> string \<Rightarrow> unit panel_m" where
  "retire_slot now pid =
     sql_bind (update_slots (\<lambda>r. sl_panel_id r = pid) (\<lambda>r. r\<lparr>sl_active := 0, sl_updated_at := now\<rparr>)) (\<lambda>_. sql_return ())"

definition set_slot_message_id :: "string \<Rightarrow> string \<Rightarrow> i64 \<Rightarrow> unit panel_m" where
  "set_slot_message_id now pid mid =
     sql_bind (update_slots (\<lambda>r. sl_panel_id r = pid) (\<lambda>r. r\<lparr>sl_message_id := mid, sl_updated_at := now\<rparr>)) (\<lambda>_. sql_return ())"

section \<open>Tokens for the buttons of a panel\<close>

text \<open>What the loop draws for one button: the random bytes, the time text, the time and the nonce.\<close>

type_synonym button_draw = "nat list \<times> string \<times> i64 \<times> string"

definition button_binding :: "callback_scope \<Rightarrow> string option \<Rightarrow> i64 \<Rightarrow> string \<Rightarrow> callback_action \<Rightarrow> callback_binding" where
  "button_binding s catalog now nonce a =
     \<lparr> cb_account_id = sc_account_id s, cb_internal_bot_id = sc_internal_bot_id s,
       cb_numeric_bot_id = sc_numeric_bot_id s, cb_chat_id = sc_chat_id s,
       cb_authorized_user_id = sc_authorized_user_id s, cb_panel_id = sc_panel_id s,
       cb_message_id = sc_message_id s, cb_panel_revision = sc_panel_revision s, cb_catalog_revision = catalog,
       cb_expires_at_unix = now + 600, cb_action = a, cb_action_nonce = nonce \<rparr>"

definition bind_button ::
    "callback_codec \<Rightarrow> callback_scope \<Rightarrow> string option \<Rightarrow> button_draw \<Rightarrow> inline_button \<Rightarrow> inline_button panel_m" where
  "bind_button C s catalog d b =
     (case parse_legacy_callback_data (ib_callback_data b) of
        Inl _ \<Rightarrow> sql_return b
      | Inr a \<Rightarrow>
          (case d of (raw, ts, now, nonce) \<Rightarrow>
             sql_bind (callback_issue C raw ts (button_binding s catalog now nonce a)) (\<lambda>token.
             sql_return (b\<lparr>ib_callback_data := token\<rparr>))))"

fun bind_buttons ::
    "callback_codec \<Rightarrow> callback_scope \<Rightarrow> string option \<Rightarrow> (nat \<Rightarrow> button_draw) \<Rightarrow> nat \<Rightarrow> inline_button list
      \<Rightarrow> inline_button list panel_m" where
  "bind_buttons C s catalog draw n [] = sql_return []"
| "bind_buttons C s catalog draw n (b # bs) =
     sql_bind (bind_button C s catalog (draw n) b) (\<lambda>b'.
     sql_bind (bind_buttons C s catalog draw (Suc n) bs) (\<lambda>bs'. sql_return (b' # bs')))"

fun bind_rows ::
    "callback_codec \<Rightarrow> callback_scope \<Rightarrow> string option \<Rightarrow> (nat \<Rightarrow> button_draw) \<Rightarrow> nat \<Rightarrow> inline_button list list
      \<Rightarrow> inline_button list list panel_m" where
  "bind_rows C s catalog draw n [] = sql_return []"
| "bind_rows C s catalog draw n (r # rs) =
     sql_bind (bind_buttons C s catalog draw n r) (\<lambda>r'.
     sql_bind (bind_rows C s catalog draw (n + length r) rs) (\<lambda>rs'. sql_return (r' # rs')))"

definition bind_panel_callbacks ::
    "callback_codec \<Rightarrow> (inline_button list list \<Rightarrow> string) \<Rightarrow> (panel_registry \<Rightarrow> panel_registry) \<Rightarrow> callback_scope
      \<Rightarrow> (nat \<Rightarrow> button_draw) \<Rightarrow> telegram_panel \<Rightarrow> panel_registry \<Rightarrow> (telegram_panel \<times> panel_registry) panel_m" where
  "bind_panel_callbacks C print iter s draw p reg =
     sql_bind (bind_rows C s (tp_catalog_revision p) draw 0 (tp_keyboard p)) (\<lambda>kb.
     let bound = p\<lparr>tp_keyboard := kb\<rparr> in sql_return (bound, remember_panel print iter bound reg))"

section \<open>Runs of the stores\<close>

datatype panel_op =
    Op_Issue callback_codec "nat list" string callback_binding
  | Op_Consume callback_codec i64 "nat \<Rightarrow> string" string string callback_scope
  | Op_Claim string string
  | Op_Complete string string string
  | Op_Fail string string string bool
  | Op_Save panel_codec string panel_slot
  | Op_Claim_Revision panel_codec string string panel_slot u64 telegram_panel panel_slot
  | Op_Sending string string string panel_slot u64
  | Op_Sent string string string panel_slot u64
  | Op_Failed string string string panel_slot u64
  | Op_Replace panel_codec "nat \<Rightarrow> string" string panel_slot u64 panel_slot
  | Op_Cas_Scoped panel_codec string panel_slot u64 panel_slot
  | Op_Cas panel_codec string string u64 panel_kind i64
  | Op_Retire string string
  | Op_Set_Message string string i64

text \<open>The events of a run that must not happen twice.\<close>

datatype panel_event = Token_Consumed string | Effect_Claimed string | Effect_Finished string

definition reports :: "'a panel_m \<Rightarrow> 'b \<Rightarrow> 'b panel_m" where
  "reports m e = sql_bind m (\<lambda>_. sql_return e)"

fun exec_op :: "panel_op \<Rightarrow> panel_event option panel_m" where
  "exec_op (Op_Issue C raw ts b) = reports (callback_issue C raw ts b) None"
| "exec_op (Op_Consume C now ts eid token s) =
     reports (callback_consume C now ts eid token s) (Some (Token_Consumed (cc_sha256_hex C token)))"
| "exec_op (Op_Claim now eid) = reports (claim_action_effect now eid) (Some (Effect_Claimed eid))"
| "exec_op (Op_Complete te now eid) = reports (complete_action_effect te now eid) (Some (Effect_Finished eid))"
| "exec_op (Op_Fail te now eid unk) = reports (fail_action_effect te now eid unk) (Some (Effect_Finished eid))"
| "exec_op (Op_Save K now s) = reports (save_slot K now s) None"
| "exec_op (Op_Claim_Revision K now eid s ex p n) = reports (claim_panel_revision K now eid s ex p n) None"
| "exec_op (Op_Sending te now eid s ex) = reports (mark_panel_revision_sending te now eid s ex) (Some (Effect_Claimed eid))"
| "exec_op (Op_Sent te now eid s ex) = reports (mark_panel_revision_sent te now eid s ex) (Some (Effect_Finished eid))"
| "exec_op (Op_Failed te now eid s ex) = reports (mark_panel_revision_failed te now eid s ex) (Some (Effect_Finished eid))"
| "exec_op (Op_Replace K ts eid s ex n) = reports (complete_panel_replace K ts eid s ex n) (Some (Effect_Finished eid))"
| "exec_op (Op_Cas_Scoped K now s ex n) = reports (cas_update_slot_scoped K now s ex n) None"
| "exec_op (Op_Cas K now pid ex k e) = reports (cas_update_slot K now pid ex k e) None"
| "exec_op (Op_Retire now pid) = reports (retire_slot now pid) None"
| "exec_op (Op_Set_Message now pid mid) = reports (set_slot_message_id now pid mid) None"

fun run_ops :: "(panel_op \<times> bool list) list \<Rightarrow> panel_tables \<Rightarrow> panel_event list \<times> panel_tables" where
  "run_ops [] t = ([], t)"
| "run_ops ((op, fs) # calls) t =
     (case exec_op op \<lparr>db_tables = t, db_faults = fs\<rparr> of (r, db) \<Rightarrow>
        (case run_ops calls (db_tables db) of (es, t') \<Rightarrow>
           ((case r of Inr (Some e) \<Rightarrow> e # es | _ \<Rightarrow> es), t')))"

section \<open>Effects only move forward\<close>

lemma evolves_update_slots [intro!]: "sql_evolves effects_follow (update_slots P f)"
  unfolding update_slots_def by (rule effect_log.evolves_stmt) (simp add: sql_update_def)

lemma evolves_upsert_slot [intro!]: "sql_evolves effects_follow (upsert_slot r)"
  unfolding upsert_slot_def by (rule effect_log.evolves_stmt) simp

lemma evolves_insert_replace [intro!]: "sql_evolves effects_follow (insert_replace now eid p n s)"
  unfolding insert_replace_def
  by (rule effect_log.evolves_stmt)
     (auto simp: effects_follow_def effect_at_def find_append image_iff replace_row_def)

lemma evolves_mark [intro!]:
  "st \<in> {''sending'', ''sent'', ''failed''} \<Longrightarrow> sql_evolves effects_follow (mark_panel_revision_status te now eid s ex st)"
  unfolding mark_panel_revision_status_def
  by (auto intro!: evolves_update_effects simp: effect_follows_def status_follows_def replace_in_status_def)

lemma evolves_advance [intro!]: "sql_evolves effects_follow (advance_slot now k s ex n)"
  unfolding advance_slot_def by auto

lemma evolves_replace [intro!]: "sql_evolves effects_follow (complete_panel_replace K ts eid s ex n)"
  unfolding complete_panel_replace_def
  by (auto intro!: evolves_update_effects simp: effect_follows_def status_follows_def replace_in_status_def)

lemma evolves_exec: "sql_evolves effects_follow (exec_op op)"
proof (cases op)
  case (Op_Save K now s)
  then show ?thesis by (auto simp: reports_def save_slot_def deactivate_others_def)
next
  case (Op_Fail te now eid unk)
  then show ?thesis by (auto simp: reports_def fail_action_effect_def intro!: evolves_action_ops)
qed (auto simp: reports_def complete_action_effect_def claim_panel_revision_def mark_panel_revision_sending_def
    mark_panel_revision_sent_def mark_panel_revision_failed_def cas_update_slot_scoped_def cas_update_slot_def
    retire_slot_def set_slot_message_id_def intro!: evolves_callback_ops evolves_action_ops)

text \<open>What a table must show before and after an event.\<close>

fun before :: "panel_event \<Rightarrow> panel_tables \<Rightarrow> bool" where
  "before (Token_Consumed d) t = (\<exists>r. effect_at t d = Some r \<and> ef_status r = ''active'')"
| "before (Effect_Claimed d) t = (\<exists>r. effect_at t d = Some r \<and> ef_status r = ''pending'')"
| "before (Effect_Finished d) t = (\<exists>r. effect_at t d = Some r \<and> ef_status r = ''sending'')"

fun after :: "panel_event \<Rightarrow> panel_tables \<Rightarrow> bool" where
  "after (Token_Consumed d) t = (\<exists>r. effect_at t d = Some r \<and> ef_status r = ''consumed'')"
| "after (Effect_Claimed d) t =
     (\<exists>r. effect_at t d = Some r \<and> ef_status r \<in> {''sending'', ''sent'', ''failed'', ''unknown''})"
| "after (Effect_Finished d) t = (\<exists>r. effect_at t d = Some r \<and> ef_status r \<in> {''sent'', ''failed'', ''unknown''})"

lemma followed:
  assumes "effects_follow s t" "effect_at s d = Some r"
  obtains r' where "effect_at t d = Some r'" "status_follows (ef_status r) (ef_status r')"
  using assms unfolding effects_follow_def effect_follows_def by blast

lemma after_stays:
  assumes "after e s" "effects_follow s t"
  shows "after e t"
proof (cases e)
  case (Token_Consumed d)
  with assms(1) obtain r where "effect_at s d = Some r" "ef_status r = ''consumed''" by auto
  with assms(2) Token_Consumed show ?thesis by (auto elim!: followed simp: status_follows_def)
next
  case (Effect_Claimed d)
  with assms(1) obtain r where "effect_at s d = Some r" "ef_status r \<in> {''sending'', ''sent'', ''failed'', ''unknown''}"
    by auto
  with assms(2) Effect_Claimed show ?thesis by (auto elim!: followed simp: status_follows_def)
next
  case (Effect_Finished d)
  with assms(1) obtain r where "effect_at s d = Some r" "ef_status r \<in> {''sent'', ''failed'', ''unknown''}"
    by auto
  with assms(2) Effect_Finished show ?thesis by (auto elim!: followed simp: status_follows_def)
qed

lemma after_not_before: "after e t \<Longrightarrow> \<not> before e t"
  by (cases e) auto

lemma update_one_effect:
  assumes "update_effects P f db = (Inr n, db')" "n = 1" "distinct (effect_ids (db_tables db))"
    and "\<And>r. P r \<Longrightarrow> ef_effect_id r = d" "\<And>r. P r \<Longrightarrow> ef_effect_id (f r) = d"
  shows "\<exists>r. P r \<and> effect_at (db_tables db) d = Some r \<and> effect_at (db_tables db') d = Some (f r)"
proof -
  let ?g = "\<lambda>r. if P r then f r else r"
  note u = update_effects_Inr [OF assms(1)]
  from u assms(2) have "length (filter P (pn_effects (db_tables db))) = 1" by simp
  then have "filter P (pn_effects (db_tables db)) \<noteq> []" by auto
  then obtain r where r: "r \<in> set (pn_effects (db_tables db))" "P r"
    by (auto simp: filter_empty_conv)
  have at: "effect_at (db_tables db) d = Some r"
    using find_unique_key [OF assms(3) r(1)] assms(4) [OF r(2)] by (simp add: effect_at_def)
  have "ef_effect_id (?g x) = ef_effect_id x" for x
    using assms(4,5) [of x] by simp
  then have "find (\<lambda>x. ef_effect_id x = d) (map ?g (pn_effects (db_tables db)))
      = map_option ?g (find (\<lambda>x. ef_effect_id x = d) (pn_effects (db_tables db)))"
    by (rule find_map_keys)
  with at u r(2) have "effect_at (db_tables db') d = Some (f r)"
    by (simp add: effect_at_def)
  with r(2) at show ?thesis by blast
qed

lemma reports_Inr: "reports m e db = (Inr x, db') \<longleftrightarrow> x = e \<and> (\<exists>a. m db = (Inr a, db'))"
  by (auto simp: reports_def sql_bind_Inr)

lemma checked_update:
  assumes "sql_bind (update_effects P f) (\<lambda>n. if n \<noteq> 1 then sql_lift (Inl err) else sql_return ()) db = (Inr u, db')"
    and "distinct (effect_ids (db_tables db))"
    and "\<And>r. P r \<Longrightarrow> ef_effect_id r = d" "\<And>r. P r \<Longrightarrow> ef_effect_id (f r) = d"
  shows "\<exists>r. P r \<and> effect_at (db_tables db) d = Some r \<and> effect_at (db_tables db') d = Some (f r)"
proof -
  from assms(1) obtain n where "update_effects P f db = (Inr n, db')" "n = 1"
    by (auto simp: sql_bind_Inr split: if_splits)
  from update_one_effect [OF this assms(2-4)] show ?thesis .
qed

lemma claim_event:
  assumes "claim_action_effect now eid db = (Inr u, db')" "distinct (effect_ids (db_tables db))"
  shows "before (Effect_Claimed eid) (db_tables db) \<and> after (Effect_Claimed eid) (db_tables db')"
  using checked_update [OF assms(1) [unfolded claim_action_effect_def] assms(2), of eid] by fastforce

lemma finish_event:
  assumes "update_action_effect te now eid st db = (Inr u, db')" "distinct (effect_ids (db_tables db))"
    and "st \<in> {''sent'', ''failed'', ''unknown''}"
  shows "before (Effect_Finished eid) (db_tables db) \<and> after (Effect_Finished eid) (db_tables db')"
  using checked_update [OF assms(1) [unfolded update_action_effect_def] assms(2), of eid] assms(3) by fastforce

lemma mark_event:
  assumes "mark_panel_revision_status te now eid s ex st db = (Inr u, db')" "distinct (effect_ids (db_tables db))"
  shows "st = ''sending'' \<Longrightarrow> before (Effect_Claimed eid) (db_tables db) \<and> after (Effect_Claimed eid) (db_tables db')"
    and "st \<in> {''sent'', ''failed''} \<Longrightarrow>
      before (Effect_Finished eid) (db_tables db) \<and> after (Effect_Finished eid) (db_tables db')"
proof -
  from assms(1) obtain n where m: "sql_bind
      (update_effects (replace_in_status eid s n (if st = ''sending'' then ''pending'' else ''sending''))
       (\<lambda>r. r\<lparr>ef_status := st,
              ef_terminal_at := (if st = ''sent'' \<or> st = ''failed'' then Some te else ef_terminal_at r),
              ef_updated_at := now\<rparr>))
      (\<lambda>changed. if changed \<noteq> 1 then sql_lift (Inl (replace_conflict ''panel effect status changed concurrently''))
         else sql_return ()) db = (Inr u, db')"
    unfolding mark_panel_revision_status_def by (rule sql_bind_lift_InrE) simp
  from checked_update [OF m assms(2), of eid] obtain r where
    "replace_in_status eid s n (if st = ''sending'' then ''pending'' else ''sending'') r"
    "effect_at (db_tables db) eid = Some r" "\<exists>r'. effect_at (db_tables db') eid = Some r' \<and> ef_status r' = st"
    by (fastforce simp: replace_in_status_def)
  then show "st = ''sending'' \<Longrightarrow> before (Effect_Claimed eid) (db_tables db) \<and> after (Effect_Claimed eid) (db_tables db')"
    "st \<in> {''sent'', ''failed''} \<Longrightarrow>
      before (Effect_Finished eid) (db_tables db) \<and> after (Effect_Finished eid) (db_tables db')"
    by (auto simp: replace_in_status_def)
qed

lemma update_slots_Inr:
  "update_slots P f db = (Inr n, db') \<Longrightarrow>
     db_tables db' = (db_tables db)\<lparr>pn_slots := map (\<lambda>r. if P r then f r else r) (pn_slots (db_tables db))\<rparr>
     \<and> n = length (filter P (pn_slots (db_tables db)))"
  unfolding update_slots_def by (drule sql_stmt_Inr) (auto simp: sql_update_def)

lemma effect_at_slots [simp]: "effect_at (t\<lparr>pn_slots := x\<rparr>) d = effect_at t d"
  by (simp add: effect_at_def)

lemma replace_event:
  assumes "complete_panel_replace K ts eid s ex n db = (Inr u, db')" "distinct (effect_ids (db_tables db))"
  shows "before (Effect_Finished eid) (db_tables db) \<and> after (Effect_Finished eid) (db_tables db')"
proof -
  from assms(1) obtain kind where "sql_transaction (
       sql_bind (advance_slot (ts 0) kind s ex n) (\<lambda>slot_changed.
       if slot_changed \<noteq> 1
       then sql_lift (Inl (conflict ''TELEGRAM_PANEL_STALE'' ''panel slot revision changed before effect confirmation''))
       else sql_bind (sql_lift (encode_revision ex)) (\<lambda>revn.
         sql_bind (update_effects (replace_in_status eid s revn ''sending'')
           (\<lambda>r. r\<lparr>ef_status := ''sent'', ef_terminal_at := Some (ts 1), ef_updated_at := ts 2\<rparr>)) (\<lambda>effect_changed.
         if effect_changed \<noteq> 1
         then sql_lift (Inl (replace_conflict ''panel effect confirmation changed concurrently''))
         else sql_return ())))) db = (Inr u, db')"
    unfolding complete_panel_replace_def by (rule sql_bind_lift_InrE) simp
  then obtain db1 db2 where t: "db_tables db1 = db_tables db" "db_tables db' = db_tables db2"
    and body: "sql_bind (advance_slot (ts 0) kind s ex n) (\<lambda>slot_changed.
       if slot_changed \<noteq> 1
       then sql_lift (Inl (conflict ''TELEGRAM_PANEL_STALE'' ''panel slot revision changed before effect confirmation''))
       else sql_bind (sql_lift (encode_revision ex)) (\<lambda>revn.
         sql_bind (update_effects (replace_in_status eid s revn ''sending'')
           (\<lambda>r. r\<lparr>ef_status := ''sent'', ef_terminal_at := Some (ts 1), ef_updated_at := ts 2\<rparr>)) (\<lambda>effect_changed.
         if effect_changed \<noteq> 1
         then sql_lift (Inl (replace_conflict ''panel effect confirmation changed concurrently''))
         else sql_return ()))) db1 = (Inr u, db2)"
    by (rule sql_transaction_Inr) simp
  from body obtain c db3 revn where adv: "advance_slot (ts 0) kind s ex n db1 = (Inr c, db3)"
    and fin: "sql_bind (update_effects (replace_in_status eid s revn ''sending'')
           (\<lambda>r. r\<lparr>ef_status := ''sent'', ef_terminal_at := Some (ts 1), ef_updated_at := ts 2\<rparr>)) (\<lambda>effect_changed.
         if effect_changed \<noteq> 1
         then sql_lift (Inl (replace_conflict ''panel effect confirmation changed concurrently''))
         else sql_return ()) db3 = (Inr u, db2)"
    by (elim sql_bind_InrE) (auto split: if_splits elim!: sql_bind_lift_InrE)
  from adv obtain x where "db_tables db3 = (db_tables db1)\<lparr>pn_slots := x\<rparr>"
    unfolding advance_slot_def by (elim sql_bind_InrE) (auto dest!: update_slots_Inr)
  with t assms(2) have d3: "distinct (effect_ids (db_tables db3))" "effect_at (db_tables db) eid = effect_at (db_tables db3) eid"
    by auto
  obtain r where "replace_in_status eid s revn ''sending'' r" "effect_at (db_tables db3) eid = Some r"
    "effect_at (db_tables db2) eid = Some (r\<lparr>ef_status := ''sent'', ef_terminal_at := Some (ts 1), ef_updated_at := ts 2\<rparr>)"
    using checked_update [OF fin d3(1), of eid] by (auto simp: replace_in_status_def)
  with t(2) d3(2) show ?thesis by (auto simp: replace_in_status_def)
qed

lemma consume_event:
  assumes "callback_consume C now ts eid token s db = (Inr u, db')" "distinct (effect_ids (db_tables db))"
  shows "before (Token_Consumed (cc_sha256_hex C token)) (db_tables db)
    \<and> after (Token_Consumed (cc_sha256_hex C token)) (db_tables db')"
proof -
  let ?d = "cc_sha256_hex C token"
  obtain a e where u: "u = (a, e)" by (cases u)
  from consume_Inr [OF assms(1) [unfolded u] assms(2)] obtain r b payload
    where r: "effect_at (db_tables db) ?d = Some r" "ef_status r = ''active''"
      and t: "db_tables db' = consumed_tables ts eid ?d payload b (db_tables db)"
    by blast
  let ?f = "\<lambda>r. if ef_effect_id r = ?d
      then r\<lparr>ef_status := ''consumed'', ef_terminal_at := Some (ts 0), ef_updated_at := ts 1\<rparr> else r"
  have "find (\<lambda>r. ef_effect_id r = ?d) (map ?f (pn_effects (db_tables db)))
      = map_option ?f (find (\<lambda>r. ef_effect_id r = ?d) (pn_effects (db_tables db)))"
    by (rule find_map_keys) simp
  with r have "effect_at (db_tables db') ?d = Some (?f r)"
    by (simp add: effect_at_def t consumed_tables_def find_append)
  moreover from r have "ef_effect_id r = ?d" by (auto simp: effect_at_def dest: find_in_set)
  ultimately show ?thesis using r by simp
qed

lemma exec_event:
  assumes "exec_op op db = (Inr (Some e), db')" "distinct (effect_ids (db_tables db))"
  shows "before e (db_tables db) \<and> after e (db_tables db')"
proof (cases op)
  case (Op_Consume C now ts eid token s)
  with assms(1) have "e = Token_Consumed (cc_sha256_hex C token)"
    "\<exists>u. callback_consume C now ts eid token s db = (Inr u, db')" by (simp_all add: reports_Inr)
  with consume_event assms(2) show ?thesis by blast
next
  case (Op_Claim now eid)
  with assms claim_event show ?thesis by (auto simp only: exec_op.simps reports_Inr option.inject)
next
  case (Op_Complete te now eid)
  with assms(1) have "e = Effect_Finished eid" "\<exists>u. update_action_effect te now eid ''sent'' db = (Inr u, db')"
    by (simp_all add: reports_Inr complete_action_effect_def)
  with finish_event [OF _ assms(2)] show ?thesis by blast
next
  case (Op_Fail te now eid unk)
  with assms(1) have "e = Effect_Finished eid"
    "\<exists>u. update_action_effect te now eid (if unk then ''unknown'' else ''failed'') db = (Inr u, db')"
    by (simp_all add: reports_Inr fail_action_effect_def)
  with finish_event [OF _ assms(2)] show ?thesis by (cases unk) auto
next
  case (Op_Sending te now eid s ex)
  with assms(1) have "e = Effect_Claimed eid" "\<exists>u. mark_panel_revision_status te now eid s ex ''sending'' db = (Inr u, db')"
    by (simp_all add: reports_Inr mark_panel_revision_sending_def)
  with mark_event(1) [OF _ assms(2)] show ?thesis by blast
next
  case (Op_Sent te now eid s ex)
  with assms(1) have "e = Effect_Finished eid" "\<exists>u. mark_panel_revision_status te now eid s ex ''sent'' db = (Inr u, db')"
    by (simp_all add: reports_Inr mark_panel_revision_sent_def)
  with mark_event(2) [OF _ assms(2)] show ?thesis by blast
next
  case (Op_Failed te now eid s ex)
  with assms(1) have "e = Effect_Finished eid" "\<exists>u. mark_panel_revision_status te now eid s ex ''failed'' db = (Inr u, db')"
    by (simp_all add: reports_Inr mark_panel_revision_failed_def)
  with mark_event(2) [OF _ assms(2)] show ?thesis by blast
next
  case (Op_Replace K ts eid s ex n)
  with assms(1) have "e = Effect_Finished eid" "\<exists>u. complete_panel_replace K ts eid s ex n db = (Inr u, db')"
    by (simp_all add: reports_Inr)
  with replace_event [OF _ assms(2)] show ?thesis by blast
qed (use assms(1) in \<open>simp_all add: reports_Inr\<close>)

lemma exec_follow:
  "exec_op op \<lparr>db_tables = t, db_faults = fs\<rparr> = (r, db) \<Longrightarrow> effects_follow t (db_tables db)"
  using sql_evolvesD [OF evolves_exec, of op "\<lparr>db_tables = t, db_faults = fs\<rparr>" r db] by simp

lemma run_follow: "effects_follow t (snd (run_ops calls t))"
proof (induction calls t rule: run_ops.induct)
  case (1 t)
  then show ?case by (simp add: effect_log.refl)
next
  case (2 op fs calls t)
  obtain r db where x: "exec_op op \<lparr>db_tables = t, db_faults = fs\<rparr> = (r, db)" by fastforce
  from 2 [OF x [symmetric]] exec_follow [OF x] x show ?case
    by (auto split: prod.splits intro: effect_log.trans)
qed

lemma run_avoids: "after e t \<Longrightarrow> distinct (effect_ids t) \<Longrightarrow> e \<notin> set (fst (run_ops calls t))"
proof (induction calls t rule: run_ops.induct)
  case (1 t)
  then show ?case by simp
next
  case (2 op fs calls t)
  obtain r db where x: "exec_op op \<lparr>db_tables = t, db_faults = fs\<rparr> = (r, db)" by fastforce
  have "r \<noteq> Inr (Some e)"
    using exec_event [of op _ e db] x 2(2,3) after_not_before by fastforce
  moreover have "e \<notin> set (fst (run_ops calls (db_tables db)))"
    using 2(1) [OF x [symmetric]] after_stays [OF 2(2) exec_follow [OF x]] exec_follow [OF x] 2(3)
    by (auto simp: effects_follow_def)
  ultimately show ?case
    by (auto simp: x split: prod.splits sum.splits option.splits)
qed

text \<open>C9. In every sequence of calls of the callback and panel stores, whatever tasks make them and whatever
  statements fail, each token is consumed at most once, each queued effect is claimed for sending at
  most once and finished at most once.\<close>

theorem panel_events_happen_once:
  "distinct (effect_ids t) \<Longrightarrow> distinct (fst (run_ops calls t))"
proof (induction calls t rule: run_ops.induct)
  case (1 t)
  then show ?case by simp
next
  case (2 op fs calls t)
  obtain r db where x: "exec_op op \<lparr>db_tables = t, db_faults = fs\<rparr> = (r, db)" by fastforce
  have d: "distinct (effect_ids (db_tables db))"
    using exec_follow [OF x] 2(2) by (simp add: effects_follow_def)
  have "e \<notin> set (fst (run_ops calls (db_tables db)))" if "r = Inr (Some e)" for e
    using exec_event [of op _ e db] x that 2(2) run_avoids [OF _ d] by fastforce
  with 2(1) [OF x [symmetric] d] x show ?case
    by (auto split: prod.splits sum.splits option.splits)
qed

section \<open>Saving a panel\<close>

lemma latest_single [simp]: "latest [r] = Some r"
  by (simp add: latest_def)

lemma decode_saved:
  assumes "pc_parse_kind K kind = Inr (ps_kind s)"
  shows "decode_slot K ((slot_to_row now kind (int (unat (ps_revision s))) s)\<lparr>sl_created_at := c\<rparr>) = Inr s"
  using assms by (simp add: decode_slot_def slot_to_row_def decode_revision_def)

lemma run_find_single:
  assumes "distinct (map sl_panel_id (pn_slots t))" "r \<in> set (pn_slots t)" "P r" "decode_slot K r = Inr s"
    and "\<And>x. x \<in> set (pn_slots t) \<Longrightarrow> P x \<Longrightarrow> sl_panel_id x = sl_panel_id r"
  shows "sql_run (find_slot K P) t = (Inr (Some s), t)"
proof -
  have same: "x = r" if "x \<in> set (pn_slots t)" "P x" for x
    using assms(1,2,5) that by (metis inj_on_eq_iff distinct_map)
  have "filter P (pn_slots t) = filter (\<lambda>x. sl_panel_id x = sl_panel_id r) (pn_slots t)"
    by (rule filter_cong [OF refl]) (use same assms(1-3) in \<open>metis inj_on_eq_iff distinct_map\<close>)
  also have "\<dots> = [r]" by (rule filter_unique_key [OF assms(1,2)])
  finally show ?thesis using assms(4) by (simp add: find_slot_def sql_clean map_ok_def)
qed

text \<open>The row a saved panel ends in: a new one, or the old one with its creation time.\<close>

lemma run_upsert:
  assumes "distinct (map sl_panel_id (pn_slots t))"
    and "\<not> (\<exists>o' \<in> set (pn_slots t). sl_panel_id o' \<noteq> sl_panel_id r \<and> sl_active o' = 1 \<and> slot_scope o' = slot_scope r)"
  obtains c t' where "sql_run (upsert_slot r) t = (Inr (), t')" "r\<lparr>sl_created_at := c\<rparr> \<in> set (pn_slots t')"
    "distinct (map sl_panel_id (pn_slots t'))" "pn_effects t' = pn_effects t"
    "\<And>x. sl_panel_id x \<noteq> sl_panel_id r \<Longrightarrow> x \<in> set (pn_slots t') \<longleftrightarrow> x \<in> set (pn_slots t)"
proof (cases "sl_panel_id r \<in> sl_panel_id ` set (pn_slots t)")
  case True
  then obtain o' where o': "o' \<in> set (pn_slots t)" "sl_panel_id o' = sl_panel_id r" by auto
  let ?g = "\<lambda>o'. if sl_panel_id o' = sl_panel_id r then r\<lparr>sl_created_at := sl_created_at o'\<rparr> else o'"
  have "sl_panel_id \<circ> ?g = sl_panel_id" by (auto simp: fun_eq_iff)
  then have "distinct (map sl_panel_id (map ?g (pn_slots t)))" using assms(1) by (simp only: map_map)
  moreover have "sql_run (upsert_slot r) t = (Inr (), t\<lparr>pn_slots := map ?g (pn_slots t)\<rparr>)"
    using True assms(2) by (auto simp: upsert_slot_def sql_clean)
  moreover have "r\<lparr>sl_created_at := sl_created_at o'\<rparr> \<in> set (map ?g (pn_slots t))"
    using o' by (auto intro!: image_eqI [of _ _ o'])
  moreover have "x \<in> set (map ?g (pn_slots t)) \<longleftrightarrow> x \<in> set (pn_slots t)" if "sl_panel_id x \<noteq> sl_panel_id r" for x
    using that by (auto intro!: image_eqI [of _ _ x])
  ultimately show thesis by (intro that [of "t\<lparr>pn_slots := map ?g (pn_slots t)\<rparr>" "sl_created_at o'"]) simp_all
next
  case False
  with assms(2) have "sql_run (upsert_slot r) t = (Inr (), t\<lparr>pn_slots := pn_slots t @ [r]\<rparr>)"
    by (auto simp: upsert_slot_def sql_clean)
  moreover have "r\<lparr>sl_created_at := sl_created_at r\<rparr> = r" by simp
  ultimately show thesis
    using assms(1) False by (intro that [of "t\<lparr>pn_slots := pn_slots t @ [r]\<rparr>" "sl_created_at r"]) (auto simp del: slot_row.update_convs)
qed

lemma steady_slots [sql_clean]:
  "sql_steady (update_slots P f)" "sql_steady (upsert_slot r)" "sql_steady (deactivate_others now s)"
  by (simp_all add: update_slots_def upsert_slot_def deactivate_others_def sql_clean)

lemma run_deactivate:
  "sql_run (deactivate_others now s) t = (Inr (length (filter (retired_by s) (pn_slots t))),
     t\<lparr>pn_slots := map (\<lambda>r. if retired_by s r then r\<lparr>sl_active := 0, sl_updated_at := now\<rparr> else r) (pn_slots t)\<rparr>)"
proof -
  have "deactivate_others now s = update_slots (retired_by s) (\<lambda>r. r\<lparr>sl_active := 0, sl_updated_at := now\<rparr>)"
    by (simp add: deactivate_others_def retired_by_def [abs_def])
  then show ?thesis by (simp add: update_slots_def sql_clean sql_update_def)
qed

text \<open>C28. Saving an active panel makes it the active panel of its bot and chat: without failing statements
  the call succeeds, every other active panel of that bot and chat is retired, and looking up the
  active panel, by bot and chat or with the account, returns exactly the panel that was saved. Panels
  of other chats and the effects stay as they are. The kind must survive its encoding, the revision
  must fit an SQLite integer, identifiers of panels must be distinct, and no panel of another account
  may be active there.\<close>

theorem saved_panel_is_active:
  assumes kind: "pc_print_kind K (ps_kind s) = Inr kind" "pc_parse_kind K kind = Inr (ps_kind s)"
    and revision: "int (unat (ps_revision s)) \<le> i64_max" and active: "ps_active s"
    and ids: "distinct (map sl_panel_id (pn_slots t))"
    and own: "\<forall>r \<in> set (pn_slots t). sl_active r = 1 \<and> slot_scope r = (ps_numeric_bot_id s, ps_chat_id s)
        \<longrightarrow> sl_account_id r = ps_account_id s \<or> sl_panel_id r = ps_panel_id s"
  shows "\<exists>t'. sql_run (save_slot K now s) t = (Inr (), t')
    \<and> (\<forall>r \<in> set (pn_slots t'). sl_active r = 1 \<and> slot_scope r = (ps_numeric_bot_id s, ps_chat_id s) \<longrightarrow> sl_panel_id r = ps_panel_id s)
    \<and> sql_run (find_active_slot K (ps_numeric_bot_id s) (ps_chat_id s)) t' = (Inr (Some s), t')
    \<and> sql_run (find_active_slot_for_scope K (ps_account_id s) (ps_numeric_bot_id s) (ps_chat_id s)) t' = (Inr (Some s), t')
    \<and> (\<forall>r. slot_scope r \<noteq> (ps_numeric_bot_id s, ps_chat_id s) \<and> sl_panel_id r \<noteq> ps_panel_id s
         \<longrightarrow> (r \<in> set (pn_slots t') \<longleftrightarrow> r \<in> set (pn_slots t)))
    \<and> pn_effects t' = pn_effects t"
proof -
  let ?scope = "(ps_numeric_bot_id s, ps_chat_id s)"
  let ?g = "\<lambda>r. if retired_by s r then r\<lparr>sl_active := 0, sl_updated_at := now\<rparr> else r"
  let ?row = "slot_to_row now kind (int (unat (ps_revision s))) s" and ?t = "t\<lparr>pn_slots := map ?g (pn_slots t)\<rparr>"
  have row: "sl_panel_id ?row = ps_panel_id s" "slot_scope ?row = ?scope" "sl_active ?row = 1"
    using active by (simp_all add: slot_to_row_def slot_scope_def)
  have "map sl_panel_id (map ?g rs) = map sl_panel_id rs" for rs by (induction rs) auto
  moreover have "pn_slots ?t = map ?g (pn_slots t)" by simp
  ultimately have d: "distinct (map sl_panel_id (pn_slots ?t))" using ids by (simp only:)
  have only: "sl_panel_id x = ps_panel_id s" if "x \<in> set (pn_slots ?t)" "sl_active x = 1" "slot_scope x = ?scope" for x
    using that own by (auto simp: retired_by_def slot_scope_def split: if_splits)
  then have free: "\<not> (\<exists>o' \<in> set (pn_slots ?t). sl_panel_id o' \<noteq> sl_panel_id ?row \<and> sl_active o' = 1 \<and> slot_scope o' = slot_scope ?row)"
    by (simp only: row) blast
  obtain c t' where up: "sql_run (upsert_slot ?row) ?t = (Inr (), t')" "?row\<lparr>sl_created_at := c\<rparr> \<in> set (pn_slots t')"
    "distinct (map sl_panel_id (pn_slots t'))" "pn_effects t' = pn_effects ?t"
    "\<And>x. sl_panel_id x \<noteq> sl_panel_id ?row \<Longrightarrow> x \<in> set (pn_slots t') \<longleftrightarrow> x \<in> set (pn_slots ?t)"
    by (rule run_upsert [OF d free]) (rule that)
  have run: "sql_run (save_slot K now s) t = (Inr (), t')"
    using kind(1) revision active up(1)
    by (simp add: save_slot_def encode_kind_def encode_revision_def map_err_def sql_clean run_deactivate)
  have sole: "sl_panel_id r = ps_panel_id s" if "r \<in> set (pn_slots t')" "sl_active r = 1" "slot_scope r = ?scope" for r
    using up(5) [of r] only [of r] that row(1) by metis
  have same: "r \<in> set (pn_slots t') \<longleftrightarrow> r \<in> set (pn_slots t)" if "slot_scope r \<noteq> ?scope" "sl_panel_id r \<noteq> ps_panel_id s" for r
    using up(5) [of r] that row(1) by (auto simp: retired_by_def slot_scope_def image_iff)
  have found: "sql_run (find_slot K P) t' = (Inr (Some s), t')"
    if "P (?row\<lparr>sl_created_at := c\<rparr>)" "\<And>x. P x \<Longrightarrow> sl_active x = 1 \<and> slot_scope x = ?scope" for P
    by (rule run_find_single [where P = P, OF up(3,2) that(1) decode_saved [OF kind(2)]]) (use sole that(2) row(1) in simp)
  have "sql_run (find_active_slot K (ps_numeric_bot_id s) (ps_chat_id s)) t' = (Inr (Some s), t')"
    unfolding find_active_slot_def by (rule found) (simp_all add: slot_to_row_def slot_scope_def active)
  moreover have "sql_run (find_active_slot_for_scope K (ps_account_id s) (ps_numeric_bot_id s) (ps_chat_id s)) t' = (Inr (Some s), t')"
    unfolding find_active_slot_for_scope_def by (rule found) (simp_all add: slot_to_row_def slot_scope_def active)
  moreover have "pn_effects t' = pn_effects t" using up(4) by simp
  ultimately show ?thesis using run sole same by (intro exI [of _ t']) blast
qed

section \<open>Bound panels\<close>

text \<open>What binding makes of a button: the label stays, the data become a token whose stored binding is
  for the scope of the panel and the action the button stood for.\<close>

definition bound_button ::
    "callback_codec \<Rightarrow> callback_scope \<Rightarrow> string option \<Rightarrow> panel_tables \<Rightarrow> inline_button \<Rightarrow> inline_button \<Rightarrow> bool" where
  "bound_button C s catalog t b b' \<longleftrightarrow>
     ib_label b' = ib_label b \<and> opaque_token (ib_callback_data b')
     \<and> (\<exists>a r now nonce. parse_legacy_callback_data (ib_callback_data b) = Inr a
          \<and> effect_at t (cc_sha256_hex C (ib_callback_data b')) = Some r
          \<and> cc_print_binding C (button_binding s catalog now nonce a) = Inr (ef_payload r))"

lemma bound_button_follows:
  assumes "bound_button C s catalog t b b'" "effects_follow t u"
  shows "bound_button C s catalog u b b'"
  using assms unfolding bound_button_def effects_follow_def effect_follows_def by metis

lemma issue_Inr:
  assumes "callback_issue C raw ts b db = (Inr token, db')"
  shows "token = token_of raw \<and> opaque_token token
    \<and> (\<exists>r. effect_at (db_tables db') (cc_sha256_hex C token) = Some r \<and> cc_print_binding C b = Inr (ef_payload r))"
proof -
  from assms obtain p n where tok: "opaque_token (token_of raw)" "token = token_of raw" and p: "cc_print_binding C b = Inr p"
    and ins: "insert_effect (token_row C ts (token_of raw) p b) db = (Inr n, db')"
    by (auto simp: callback_issue_def sql_bind_Inr validate_opaque_token_def split: if_splits)
  let ?r = "token_row C ts (token_of raw) p b"
  have id: "ef_effect_id ?r = cc_sha256_hex C (token_of raw)" "ef_payload ?r = p" by (simp_all add: token_row_def)
  have "cc_sha256_hex C (token_of raw) \<notin> ef_effect_id ` set (pn_effects (db_tables db))"
    using conjunct1 [OF insert_effect_Inr [OF ins]] by (simp only: id(1) not_False_eq_True)
  then have "find (\<lambda>r. ef_effect_id r = cc_sha256_hex C (token_of raw)) (pn_effects (db_tables db)) = None"
    unfolding find_None_iff by (metis image_eqI)
  then have "effect_at (db_tables db') (cc_sha256_hex C (token_of raw)) = Some ?r"
    by (simp add: conjunct2 [OF insert_effect_Inr [OF ins]] effect_at_def find_append id(1))
  with tok p id(2) show ?thesis by auto
qed

lemma evolves_bind_button [intro!]: "sql_evolves effects_follow (bind_button C s catalog d b)"
  unfolding bind_button_def by (auto split: sum.split prod.split intro!: evolves_callback_ops)

lemma evolves_bind_buttons [intro!]: "sql_evolves effects_follow (bind_buttons C s catalog draw n bs)"
  by (induction bs arbitrary: n) auto

lemma evolves_bind_rows [intro!]: "sql_evolves effects_follow (bind_rows C s catalog draw n rs)"
  by (induction rs arbitrary: n) auto

lemma bind_button_bound:
  assumes "bind_button C s catalog d b db = (Inr b', db')" "decodes b"
  shows "bound_button C s catalog (db_tables db') b b'"
proof -
  from assms(2) obtain a where a: "parse_legacy_callback_data (ib_callback_data b) = Inr a" by (auto simp: decodes_def)
  obtain raw ts now nonce where d: "d = (raw, ts, now, nonce)" by (metis prod_cases4)
  from assms(1) a d obtain token where
    "callback_issue C raw ts (button_binding s catalog now nonce a) db = (Inr token, db')"
    "b' = b\<lparr>ib_callback_data := token\<rparr>"
    by (auto simp: bind_button_def sql_bind_Inr)
  with issue_Inr a show ?thesis unfolding bound_button_def by fastforce
qed

lemma bind_buttons_bound:
  assumes "bind_buttons C s catalog draw n bs db = (Inr bs', db')" "\<forall>b \<in> set bs. decodes b"
  shows "list_all2 (bound_button C s catalog (db_tables db')) bs bs'"
  using assms
proof (induction bs arbitrary: n bs' db)
  case Nil
  then show ?case by simp
next
  case (Cons b bs)
  from Cons.prems(1) obtain b' db1 ys where h: "bind_button C s catalog (draw n) b db = (Inr b', db1)"
    "bind_buttons C s catalog draw (Suc n) bs db1 = (Inr ys, db')" "bs' = b' # ys"
    by (auto simp: sql_bind_Inr)
  have "bound_button C s catalog (db_tables db') b b'"
    using bind_button_bound [OF h(1)] Cons.prems(2) sql_evolvesD [OF evolves_bind_buttons h(2)]
    by (auto intro: bound_button_follows)
  with Cons.IH [OF h(2)] Cons.prems(2) h(3) show ?case by simp
qed

lemma bind_rows_bound:
  assumes "bind_rows C s catalog draw n rs db = (Inr rs', db')" "decode_rows rs"
  shows "list_all2 (list_all2 (bound_button C s catalog (db_tables db'))) rs rs'"
  using assms
proof (induction rs arbitrary: n rs' db)
  case Nil
  then show ?case by simp
next
  case (Cons r rs)
  from Cons.prems(1) obtain r' db1 ys where h: "bind_buttons C s catalog draw n r db = (Inr r', db1)"
    "bind_rows C s catalog draw (n + length r) rs db1 = (Inr ys, db')" "rs' = r' # ys"
    by (auto simp: sql_bind_Inr)
  have "list_all2 (bound_button C s catalog (db_tables db1)) r r'"
    using bind_buttons_bound [OF h(1)] Cons.prems(2) by simp
  then have "list_all2 (bound_button C s catalog (db_tables db')) r r'"
    by (rule list_all2_mono) (rule bound_button_follows [OF _ sql_evolvesD [OF evolves_bind_rows h(2)]])
  with Cons.IH [OF h(2)] Cons.prems(2) h(3) show ?case by simp
qed

text \<open>C20. Every panel the program renders, with provider keys and model identifiers that are free of colons
  and at most 2000 bytes long and with counts of items within \<^verbatim>\<open>usize\<close>, is bound completely: when binding
  succeeds, each button keeps its label and place and carries an opaque token within Telegram's 64
  bytes; the binding stored under that token is for the scope of the panel and for the action the
  button was rendered with. The registry then finds the bound panel.\<close>

theorem rendered_panel_binds:
  assumes "rendered p" "bind_panel_callbacks C print iter s draw p reg db = (Inr (bound, reg'), db')"
  shows "list_all2 (list_all2 (\<lambda>b b'. bound_button C s (tp_catalog_revision p) (db_tables db') b b'
             \<and> length (ib_callback_data b') \<le> MAX_CALLBACK_DATA_BYTES)) (tp_keyboard p) (tp_keyboard bound)
         \<and> lookup_panel print (tp_text bound) (tp_keyboard bound) reg' = Some bound"
proof -
  from assms(2) obtain kb where kb: "bind_rows C s (tp_catalog_revision p) draw 0 (tp_keyboard p) db = (Inr kb, db')"
    and b: "bound = p\<lparr>tp_keyboard := kb\<rparr>" "reg' = remember_panel print iter bound reg"
    by (auto simp: bind_panel_callbacks_def sql_bind_Inr Let_def)
  have "decode_rows (tp_keyboard p)"
    using rendered_all_decode [OF assms(1)] by (simp add: all_decode_def decode_rows_def)
  from bind_rows_bound [OF kb this]
  have "list_all2 (list_all2 (\<lambda>b b'. bound_button C s (tp_catalog_revision p) (db_tables db') b b'
             \<and> length (ib_callback_data b') \<le> MAX_CALLBACK_DATA_BYTES)) (tp_keyboard p) kb"
    by (rule list_all2_mono, elim list_all2_mono)
       (simp add: bound_button_def opaque_token_def OPAQUE_CALLBACK_DATA_BYTES_def MAX_CALLBACK_DATA_BYTES_def)
  moreover have "lookup_panel print (tp_text bound) (tp_keyboard bound) reg' = Some bound"
    unfolding b(2) by (rule lookup_remembered)
  ultimately show ?thesis by (simp add: b(1))
qed

lemma bind_rows_unchanged:
  assumes "bind_rows C s catalog draw n rs db = (Inr rs', db')" "i < length rs" "rs ! i = [b]"
    and "\<And>d. bind_button C s catalog d b = sql_return b"
  shows "i < length rs' \<and> rs' ! i = [b]"
  using assms(1-3)
proof (induction rs arbitrary: n rs' db i)
  case Nil
  then show ?case by simp
next
  case (Cons r rs)
  from Cons.prems(1) obtain r' db1 ys where h: "bind_buttons C s catalog draw n r db = (Inr r', db1)"
    "bind_rows C s catalog draw (n + length r) rs db1 = (Inr ys, db')" "rs' = r' # ys"
    by (auto simp: sql_bind_Inr)
  show ?case
  proof (cases i)
    case 0
    with Cons.prems(3) h(1) assms(4) have "r' = [b]" by (auto simp: sql_bind_Inr)
    with 0 h(3) show ?thesis by simp
  next
    case (Suc j)
    with Cons.IH [OF h(2), of j] Cons.prems(2,3) h(3) show ?thesis by simp
  qed
qed

lemma provider_model_row:
  assumes "shown = take PAGE_SIZE (drop (min page (max n 1 - 1) * PAGE_SIZE) ms)" "i < length shown"
  shows "\<exists>l. i < length (tp_keyboard (render_provider_models u k ms cur page n))
    \<and> tp_keyboard (render_provider_models u k ms cur page n) ! i = [make_button l (select_model_callback u k (mod_id (shown ! i)))]"
proof -
  obtain g rest where "tp_keyboard (render_provider_models u k ms cur page n)
      = map (\<lambda>(j, m). [make_button (g m) (select_model_callback u k (mod_id m))]) (enumerate 0 shown) @ rest"
    unfolding assms(1)
    by (simp only: render_provider_models_def make_panel_def Let_def telegram_panel.select_convs)
  then show ?thesis using assms(2) by (intro exI [of _ "g (shown ! i)"]) (simp add: nth_append nth_enumerate_eq)
qed

text \<open>C39. The button of a model whose identifier contains a colon can never be used, whatever else the page
  of the provider's models shows: after a successful binding it still carries, in its place, the text
  that names provider and model instead of a token, and the store of callbacks rejects that text in
  every state and scope.\<close>

theorem colon_model_button_dead:
  assumes bind: "bind_panel_callbacks C print iter s draw (render_provider_models u k ms cur page n) reg db = (Inr (bound, reg'), db')"
    and shown: "shown = take PAGE_SIZE (drop (min page (max n 1 - 1) * PAGE_SIZE) ms)"
    and model: "i < length shown" "CHR '':'' \<in> set (mod_id (shown ! i))"
  shows "\<exists>l. i < length (tp_keyboard bound)
     \<and> tp_keyboard bound ! i = [\<lparr> ib_label = l, ib_callback_data = select_model_callback u k (mod_id (shown ! i)) \<rparr>]
     \<and> (\<forall>C now ts eid s db. \<exists>e. fst (callback_consume C now ts eid (select_model_callback u k (mod_id (shown ! i))) s db) = Inl e
          \<and> app_code e = ''TELEGRAM_CALLBACK_INVALID'')"
proof -
  let ?a = "CA_SelectModelById u k (mod_id (shown ! i))"
  have dead: "\<not> colon_free ?a" "usize_ok ?a" using model(2) by (simp_all add: colon_free_def usize_ok_def)
  obtain l where kb: "i < length (tp_keyboard (render_provider_models u k ms cur page n))"
    "tp_keyboard (render_provider_models u k ms cur page n) ! i = [make_button l (legacy_data ?a)]"
    using provider_model_row [OF shown model(1)] unfolding select_model_callback_def by blast
  let ?b = "make_button l (legacy_data ?a)"
  have data: "?b = \<lparr> ib_label = l, ib_callback_data = legacy_data ?a \<rparr>"
    using opaque_legacy_data [OF dead(2)] by (simp add: make_button_def)
  have inert: "bind_button C s c d ?b = sql_return ?b" for c d
    using parse_colon [OF dead(1)] data by (auto simp: bind_button_def)
  from bind obtain kb' where rows: "bind_rows C s (tp_catalog_revision (render_provider_models u k ms cur page n)) draw 0
      (tp_keyboard (render_provider_models u k ms cur page n)) db = (Inr kb', db')" "tp_keyboard bound = kb'"
    by (auto simp: bind_panel_callbacks_def sql_bind_Inr Let_def)
  from bind_rows_unchanged [OF rows(1) kb inert] rows(2)
  have "i < length (tp_keyboard bound)" "tp_keyboard bound ! i = [?b]" by simp_all
  moreover have "fst (callback_consume C now ts eid (legacy_data ?a) s db)
      = Inl (callback_invalid (''callback token '' @ utf8_encode [26080, 25928, 25110, 24050, 36807, 26399]))" for C now ts eid s db
    using legacy_data_not_opaque [OF dead(1)]
    by (simp add: callback_consume_def validate_opaque_token_def sql_bind_def sql_lift_def)
  ultimately show ?thesis
    unfolding data by (auto simp: callback_invalid_def bad_request_def app_error_new_def select_model_callback_def)
qed

text \<open>C40. The code that replaces the active panel of a chat retires only panels of the same account, while the
  database allows one active panel for a bot and a chat. An active panel of another account therefore
  makes every attempt to save a new active panel fail, and the tables stay as they are.\<close>

theorem foreign_panel_blocks_save:
  assumes "o' \<in> set (pn_slots (db_tables db))" "sl_active o' = 1" "sl_account_id o' \<noteq> ps_account_id s"
    and "slot_scope o' = (ps_numeric_bot_id s, ps_chat_id s)" "sl_panel_id o' \<noteq> ps_panel_id s" "ps_active s"
  shows "\<exists>e db'. save_slot K now s db = (Inl e, db') \<and> db_tables db' = db_tables db"
proof -
  have fails: False if m: "save_slot K now s db = (Inr x, db')" for x db'
  proof -
    from m [unfolded save_slot_def] obtain kind where "sql_transaction (
       sql_bind (if ps_active s then deactivate_others now s else sql_return 0) (\<lambda>_.
       sql_bind (sql_lift (encode_revision (ps_revision s))) (\<lambda>revn. upsert_slot (slot_to_row now kind revn s)))) db
       = (Inr x, db')"
      by (rule sql_bind_lift_InrE)
    then obtain db1 db2 where t: "db_tables db1 = db_tables db"
      and body: "sql_bind (deactivate_others now s) (\<lambda>_.
       sql_bind (sql_lift (encode_revision (ps_revision s))) (\<lambda>revn. upsert_slot (slot_to_row now kind revn s))) db1
       = (Inr x, db2)"
      using assms(6) by (auto elim!: sql_transaction_Inr)
    from body obtain n db3 revn where de: "deactivate_others now s db1 = (Inr n, db3)"
      and up: "upsert_slot (slot_to_row now kind revn s) db3 = (Inr x, db2)"
      by (elim sql_bind_InrE) (auto elim!: sql_bind_lift_InrE)
    have "o' \<in> set (pn_slots (db_tables db3))"
      using update_slots_Inr [OF de [unfolded deactivate_others_def]] assms(1,3) t by force
    with assms(2,4,5,6) sql_stmt_Inr [OF up [unfolded upsert_slot_def]] show False
      by (auto simp: slot_to_row_def slot_scope_def split: if_splits)
  qed
  obtain r db' where r: "save_slot K now s db = (r, db')" by fastforce
  with fails obtain e where e: "r = Inl e" by (cases r) auto
  have "db_tables db' = db_tables db"
    using r e by (auto simp: save_slot_def sql_bind_def sql_lift_def split: sum.splits dest: sql_transaction_Inl)
  with r e show ?thesis by auto
qed

section \<open>Examples\<close>

definition demo_slot :: "string \<Rightarrow> string \<Rightarrow> panel_slot" where
  "demo_slot acc pid = \<lparr> ps_panel_id = pid, ps_account_id = acc, ps_numeric_bot_id = 42, ps_chat_id = 7,
     ps_message_id = 9, ps_kind = PK_Home, ps_revision = 0, ps_active = True, ps_expires_at_unix = 600 \<rparr>"

definition demo_panels :: panel_tables where
  "demo_panels = \<lparr> pn_slots = [slot_to_row ''t'' ''home'' 0 (demo_slot ''acc'' ''p'')], pn_effects = [] \<rparr>"

definition demo_panel_codec :: panel_codec where
  "demo_panel_codec = \<lparr> pc_print_kind = (\<lambda>_. Inr ''home''), pc_parse_kind = (\<lambda>_. Inr PK_Home),
     pc_print_claim = (\<lambda>_ _ _ _. Some ''claim'') \<rparr>"

text \<open>A button is pressed twice, its effect claimed twice and finished twice.\<close>

definition demo_presses :: "(panel_op \<times> bool list) list" where
  "demo_presses =
     (let press = Op_Consume (demo_codec (demo_binding CA_Home)) 100 (\<lambda>_. ''t'') ''e'' (token_of (replicate 16 0))
            (binding_scope (demo_binding CA_Home)) in
      [(press, []), (press, []), (Op_Claim ''t'' ''e'', []), (Op_Claim ''t'' ''e'', []),
       (Op_Complete ''t'' ''t'' ''e'', []), (Op_Fail ''t'' ''t'' ''e'' True, [])])"

lemma run_ops_next:
  "sql_run (exec_op op) t = (Inr (Some e), t') \<Longrightarrow> fst (run_ops ((op, []) # calls) t) = e # fst (run_ops calls t')"
  "sql_run (exec_op op) t = (Inl x, t') \<Longrightarrow> fst (run_ops ((op, []) # calls) t) = fst (run_ops calls t')"
  by (auto simp: sql_run_def split: prod.splits)

lemma demo_exec:
  "sql_run (reports m e) t = (case sql_run m t of (Inl x, t') \<Rightarrow> (Inl x, t') | (Inr _, t') \<Rightarrow> (Inr e, t'))" if "sql_steady m"
  using that by (auto simp: reports_def sql_clean split: prod.splits sum.splits)

theorem panel_events_happen_once_witness:
  "fst (run_ops demo_presses (demo_issued CA_Home))
     = [Token_Consumed (CHR ''d'' # token_of (replicate 16 0)), Effect_Claimed ''e'', Effect_Finished ''e'']
   \<and> distinct (fst (run_ops demo_presses (demo_issued CA_Home)))"
proof -
  let ?C = "demo_codec (demo_binding CA_Home)" and ?token = "token_of (replicate 16 0)"
  let ?tok = "(token_row ?C ''t'' ?token ''binding'' (demo_binding CA_Home))\<lparr>ef_status := ''consumed'', ef_terminal_at := Some ''t'', ef_updated_at := ''t''\<rparr>"
  let ?act = "action_row ''t'' ''t'' ''e'' ''action'' (demo_binding CA_Home)"
  let ?sending = "?act\<lparr>ef_status := ''sending'', ef_updated_at := ''t''\<rparr>"
  let ?sent = "?sending\<lparr>ef_status := ''sent'', ef_terminal_at := Some ''t'', ef_updated_at := ''t''\<rparr>"
  let ?t = "\<lambda>a. no_panels\<lparr>pn_effects := [?tok, a]\<rparr>"
  let ?press = "Op_Consume ?C 100 (\<lambda>_. ''t'') ''e'' ?token (binding_scope (demo_binding CA_Home))"
  have id: "ef_effect_id ?tok \<noteq> ''e''" by (simp add: token_row_def demo_codec_def)
  have first: "sql_run (exec_op ?press) (demo_issued CA_Home) = (Inr (Some (Token_Consumed (CHR ''d'' # ?token))), ?t ?act)"
    using demo_press_run by (simp add: demo_press_def demo_exec sql_clean) (simp add: demo_codec_def)
  have again: "sql_run (exec_op ?press) (?t ?act) = (Inl callback_replayed, ?t ?act)"
    by (simp add: demo_exec sql_clean callback_consume_def validate_opaque_token_def token_of_opaque binding_scope_def demo_binding_def
        select_token_def consume_found_def token_row_def demo_codec_def)
  have claim: "sql_run (exec_op (Op_Claim ''t'' ''e'')) (?t ?act) = (Inr (Some (Effect_Claimed ''e'')), ?t ?sending)"
    "sql_run (exec_op (Op_Claim ''t'' ''e'')) (?t ?sending)
      = (Inl (effect_conflict ''callback action effect was already consumed''), ?t ?sending)"
    using id by (simp_all add: demo_exec claim_action_effect_def update_effects_def sql_update_def sql_clean action_row_def)
  have finish: "sql_run (exec_op (Op_Complete ''t'' ''t'' ''e'')) (?t ?sending) = (Inr (Some (Effect_Finished ''e'')), ?t ?sent)"
    "sql_run (exec_op (Op_Fail ''t'' ''t'' ''e'' True)) (?t ?sent)
      = (Inl (effect_conflict ''callback action effect terminal state changed concurrently''), ?t ?sent)"
    using id by (simp_all add: demo_exec complete_action_effect_def fail_action_effect_def update_action_effect_def
        update_effects_def sql_update_def sql_clean action_row_def)
  have "fst (run_ops demo_presses (demo_issued CA_Home))
     = [Token_Consumed (CHR ''d'' # ?token), Effect_Claimed ''e'', Effect_Finished ''e'']"
    unfolding demo_presses_def Let_def run_ops_next(1) [OF first] run_ops_next(2) [OF again] run_ops_next(1) [OF claim(1)]
      run_ops_next(2) [OF claim(2)] run_ops_next(1) [OF finish(1)] run_ops_next(2) [OF finish(2)]
    by simp
  moreover have "distinct (effect_ids (demo_issued CA_Home))" by (simp add: demo_issued_def)
  ultimately show ?thesis using panel_events_happen_once by blast
qed

theorem saved_panel_is_active_witness:
  "\<exists>t'. sql_run (save_slot demo_panel_codec ''u'' (demo_slot ''acc'' ''q'')) demo_panels = (Inr (), t')
    \<and> sql_run (find_active_slot demo_panel_codec 42 7) t' = (Inr (Some (demo_slot ''acc'' ''q'')), t')"
  using saved_panel_is_active [of demo_panel_codec "demo_slot ''acc'' ''q''" "''home''" demo_panels "''u''"]
  by (auto simp: demo_panel_codec_def demo_slot_def demo_panels_def slot_to_row_def i64_max_def)

theorem foreign_panel_blocks_save_witness:
  "\<exists>e db'. save_slot demo_panel_codec ''u'' (demo_slot ''other'' ''q'') \<lparr>db_tables = demo_panels, db_faults = []\<rparr> = (Inl e, db')
     \<and> db_tables db' = demo_panels"
proof -
  let ?row = "slot_to_row ''t'' ''home'' 0 (demo_slot ''acc'' ''p'')"
  let ?db = "\<lparr>db_tables = demo_panels, db_faults = []\<rparr>"
  have "?row \<in> set (pn_slots (db_tables ?db))" by (simp add: demo_panels_def)
  from foreign_panel_blocks_save [OF this, of "demo_slot ''other'' ''q''" demo_panel_codec "''u''"] show ?thesis
    by (simp add: slot_to_row_def demo_slot_def slot_scope_def)
qed

definition demo_draw :: "nat \<Rightarrow> button_draw" where
  "demo_draw n = (n # replicate 15 0, ''t'', 0, ''n'' @ nat_to_string n)"

definition demo_model :: st_model_summary where
  "demo_model = \<lparr> mod_id = ''m:free'', mod_owned_by = None \<rparr>"

definition demo_bind :: "telegram_panel \<Rightarrow> (telegram_panel \<times> panel_registry) app_result \<times> panel_tables database" where
  "demo_bind p = bind_panel_callbacks (demo_codec (demo_binding CA_Home)) (\<lambda>_. ''kb'') (\<lambda>r. r)
     (binding_scope (demo_binding CA_Home)) demo_draw p [] \<lparr>db_tables = no_panels, db_faults = []\<rparr>"

lemma demo_tokens:
  "opaque_token (token_of (0 # replicate 15 0))" "opaque_token (token_of (1 # replicate 15 0))"
  "opaque_token (token_of (2 # replicate 15 0))"
  by (rule token_of_opaque; simp)+

lemma demo_parse:
  "opaque_callback ''cb:home'' = ''cb:home''" "parse_legacy_callback_data ''cb:home'' = Inr CA_Home"
  "opaque_callback ''cb:prov:chat:0'' = ''cb:prov:chat:0''"
  "parse_legacy_callback_data ''cb:prov:chat:0'' = Inr (CA_Providers Purpose_Chat 0)"
  using opaque_legacy_data [of CA_Home] parse_legacy_data [of CA_Home]
    opaque_legacy_data [of "CA_Providers Purpose_Chat 0"] parse_legacy_data [of "CA_Providers Purpose_Chat 0"]
  by (simp_all add: legacy_data_def usize_ok_def colon_free_def nat_to_string_0)

lemma demo_issue:
  assumes "sql_run (callback_issue C raw ts b) t = (Inr token, t')"
  shows "callback_issue C raw ts b \<lparr>db_tables = t, db_faults = []\<rparr> = (Inr token, \<lparr>db_tables = t', db_faults = []\<rparr>)"
proof -
  have "sql_steady (callback_issue C raw ts b)" by (simp add: sql_clean)
  then show ?thesis by (rule steadyE [of _ t]) (use assms in simp)
qed

theorem rendered_panel_binds_witness:
  "\<exists>bound reg db. demo_bind render_help = (Inr (bound, reg), db)
     \<and> list_all2 (list_all2 (\<lambda>b b'. length (ib_callback_data b') \<le> MAX_CALLBACK_DATA_BYTES))
         (tp_keyboard render_help) (tp_keyboard bound)"
proof -
  let ?C = "demo_codec (demo_binding CA_Home)"
  let ?b = "button_binding (binding_scope (demo_binding CA_Home)) None 0 (''n'' @ nat_to_string 0) CA_Home"
  have "sql_run (callback_issue ?C (0 # replicate 15 0) ''t'' ?b) no_panels
      = (Inr (token_of (0 # replicate 15 0)), no_panels\<lparr>pn_effects := pn_effects no_panels
          @ [token_row ?C ''t'' (token_of (0 # replicate 15 0)) ''binding'' ?b]\<rparr>)"
    by (rule run_issue [OF demo_tokens(1)]) (simp_all add: demo_codec_def no_panels_def)
  from demo_issue [OF this]
  have "\<exists>x db. demo_bind render_help = (Inr x, db)"
    by (simp add: demo_bind_def bind_panel_callbacks_def render_help_def make_panel_def home_button_def make_button_def
        bind_button_def demo_parse demo_draw_def sql_bind_def sql_return_def Let_def)
  then obtain bound reg db where r: "demo_bind render_help = (Inr (bound, reg), db)" by auto
  from rendered_panel_binds [OF r_help r [unfolded demo_bind_def]] have
    "list_all2 (list_all2 (\<lambda>b b'. length (ib_callback_data b') \<le> MAX_CALLBACK_DATA_BYTES))
         (tp_keyboard render_help) (tp_keyboard bound)"
    by (auto elim!: list_all2_mono)
  with r show ?thesis by blast
qed

theorem colon_model_button_dead_witness:
  "\<exists>bound reg db l. demo_bind (render_provider_models Purpose_Chat ''router'' [demo_model] None 0 1) = (Inr (bound, reg), db)
     \<and> tp_keyboard bound ! 0 = [\<lparr> ib_label = l, ib_callback_data = select_model_callback Purpose_Chat ''router'' ''m:free'' \<rparr>]
     \<and> (\<forall>C now ts eid s db. \<exists>e. fst (callback_consume C now ts eid (select_model_callback Purpose_Chat ''router'' ''m:free'') s db) = Inl e
          \<and> app_code e = ''TELEGRAM_CALLBACK_INVALID'')"
proof -
  let ?C = "demo_codec (demo_binding CA_Home)" and ?p = "render_provider_models Purpose_Chat ''router'' [demo_model] None 0 1"
  let ?s = "binding_scope (demo_binding CA_Home)"
  let ?b1 = "button_binding ?s None 0 (''n'' @ nat_to_string 1) (CA_Providers Purpose_Chat 0)"
  let ?b2 = "button_binding ?s None 0 (''n'' @ nat_to_string 2) CA_Home"
  let ?r1 = "token_row ?C ''t'' (token_of (1 # replicate 15 0)) ''binding'' ?b1"
  have i1: "sql_run (callback_issue ?C (1 # replicate 15 0) ''t'' ?b1) no_panels
      = (Inr (token_of (1 # replicate 15 0)), no_panels\<lparr>pn_effects := pn_effects no_panels @ [?r1]\<rparr>)"
    by (rule run_issue [OF demo_tokens(2)]) (simp_all add: demo_codec_def no_panels_def)
  have fresh: "nat_to_string 1 \<noteq> nat_to_string 2" using nat_to_string_inj [of 1 2] by auto
  have i2: "\<exists>t. sql_run (callback_issue ?C (2 # replicate 15 0) ''t'' ?b2)
        (no_panels\<lparr>pn_effects := pn_effects no_panels @ [?r1]\<rparr>) = (Inr (token_of (2 # replicate 15 0)), t)"
    by (rule exI, rule run_issue [OF demo_tokens(3)])
       (use fresh in \<open>simp_all add: demo_codec_def no_panels_def token_row_def button_binding_def token_of_def
          hex_encode_def hex_char_def digit_char_def\<close>)
  then obtain t where i2: "sql_run (callback_issue ?C (2 # replicate 15 0) ''t'' ?b2)
        (no_panels\<lparr>pn_effects := pn_effects no_panels @ [?r1]\<rparr>) = (Inr (token_of (2 # replicate 15 0)), t)" ..
  have colon: "CHR '':'' \<in> set (mod_id demo_model)" by (simp add: demo_model_def)
  have "\<not> colon_free (CA_SelectModelById Purpose_Chat ''router'' (mod_id demo_model))"
    using colon by (simp add: colon_free_def)
  from parse_colon [OF this] have dead: "\<exists>e. parse_legacy_callback_data (opaque_callback
      (legacy_data (CA_SelectModelById Purpose_Chat ''router'' (mod_id demo_model)))) = Inl e"
    by (simp add: usize_ok_def)
  have "tp_keyboard ?p = [[make_button (redact_label (mod_id demo_model))
        (legacy_data (CA_SelectModelById Purpose_Chat ''router'' (mod_id demo_model)))],
      [make_button (utf8_encode [36820, 22238, 21378, 21830]) ''cb:prov:chat:0''], home_button]" "tp_catalog_revision ?p = None"
    by (simp_all add: render_provider_models_def make_panel_def Let_def PAGE_SIZE_def page_buttons_def nonempty_row_def
        select_model_callback_def)
  then have "\<exists>x db. demo_bind ?p = (Inr x, db)"
    using dead demo_issue [OF i1] demo_issue [OF i2]
    by (auto simp: demo_bind_def bind_panel_callbacks_def home_button_def make_button_def bind_button_def demo_parse
        demo_draw_def sql_bind_def sql_return_def Let_def numeral_2_eq_2)
  then obtain bound reg db where r: "demo_bind ?p = (Inr (bound, reg), db)" by auto
  from colon_model_button_dead [OF r [unfolded demo_bind_def] refl, of 0] colon
  obtain l where "tp_keyboard bound ! 0 = [\<lparr> ib_label = l, ib_callback_data = select_model_callback Purpose_Chat ''router'' ''m:free'' \<rparr>]"
    "\<forall>C now ts eid s db. \<exists>e. fst (callback_consume C now ts eid (select_model_callback Purpose_Chat ''router'' ''m:free'') s db) = Inl e
          \<and> app_code e = ''TELEGRAM_CALLBACK_INVALID''"
    by (simp add: PAGE_SIZE_def demo_model_def) metis
  with r show ?thesis by blast
qed

end
