(* ===== verification/Delivery_Ledger.thy ===== *)
theory Delivery_Ledger
  imports Sql_Monad Text_Split "HOL-Library.Countable"
begin

text \<open>
  The database side of \<^verbatim>\<open>src/modules/telegram/delivery.rs\<close>: the tables \<^verbatim>\<open>channel_deliveries\<close> (one row per
  message to send), \<^verbatim>\<open>telegram_turn_messages\<close> (which Telegram messages show a turn) and
  \<^verbatim>\<open>telegram_turn_targets\<close> (the messages a redo or revoke has frozen), with one definition per method.
  Clock readings and identifiers are arguments.
\<close>

section \<open>Tables\<close>

record turn_scope =
  ts_account_id :: string
  ts_internal_bot_id :: string
  ts_numeric_bot_id :: i64
  ts_chat_id :: i64
  ts_locator_hash :: string

definition lower_hex64 :: "string \<Rightarrow> bool" where
  "lower_hex64 s \<longleftrightarrow>
     list_all (\<lambda>c. is_ascii_digit c \<or> (97 \<le> byte c \<and> byte c \<le> 102) \<or> (65 \<le> byte c \<and> byte c \<le> 70)) s
     \<and> length s = 64 \<and> s = to_ascii_lowercase s"

definition turn_scope_new :: "string \<Rightarrow> string \<Rightarrow> i64 \<Rightarrow> i64 \<Rightarrow> string \<Rightarrow> turn_scope app_result" where
  "turn_scope_new acc bid nbot chat h =
     (if trim acc = [] \<or> trim bid = [] \<or> nbot \<le> 0 \<or> chat = 0 \<or> \<not> lower_hex64 h
      then Inl (bad_request ''TELEGRAM_TURN_SCOPE_INVALID'' ''Telegram turn scope is incomplete or invalid'')
      else Inr \<lparr> ts_account_id = acc, ts_internal_bot_id = bid, ts_numeric_bot_id = nbot, ts_chat_id = chat,
                 ts_locator_hash = h \<rparr>)"

record turn_metadata =
  tm_scope :: turn_scope
  tm_turn_id :: string
  tm_operation_id :: string

definition new_scoped :: "turn_scope \<Rightarrow> string \<Rightarrow> string \<Rightarrow> turn_metadata app_result" where
  "new_scoped s turn op_id =
     (if trim turn = [] \<or> trim op_id = []
      then Inl (bad_request ''TELEGRAM_TURN_ID_INVALID'' ''Telegram turn and operation IDs are required'')
      else Inr \<lparr> tm_scope = s, tm_turn_id = turn, tm_operation_id = op_id \<rparr>)"

record frozen_turn_target =
  ft_operation_id :: string
  ft_scope :: turn_scope
  ft_target_turn_id :: string
  ft_tail_fingerprint :: string
  ft_target_revision :: u64
  ft_old_message_ids :: "i64 list"
  ft_status :: string

record delivery_row =
  dr_id :: string
  dr_bot_id :: string
  dr_chat_id :: string
  dr_external_message_id :: "string option"
  dr_message_kind :: string
  dr_turn_id :: "string option"
  dr_generation_run_id :: "string option"
  dr_attempt_count :: i64
  dr_status :: string
  dr_last_error :: "string option"
  dr_next_attempt_at :: "string option"
  dr_attempt_token :: "string option"
  dr_terminal_at :: "string option"
  dr_terminal_evidence :: "string option"
  dr_created_at :: string
  dr_updated_at :: string

text \<open>Rows written before the scope columns existed have none.\<close>

record turn_row =
  tr_id :: nat
  tr_scope :: "turn_scope option"
  tr_turn_id :: string
  tr_operation_id :: string
  tr_chunk_index :: i64
  tr_message_id :: i64
  tr_content_hash :: string
  tr_render_version :: i64
  tr_status :: string
  tr_lifecycle :: "string option"
  tr_terminal_at :: "string option"
  tr_created_at :: string
  tr_updated_at :: string

record target_row =
  tg_operation_id :: string
  tg_scope :: turn_scope
  tg_target_turn_id :: string
  tg_tail_fingerprint :: string
  tg_target_revision :: i64
  tg_old_message_ids :: string
  tg_status :: string
  tg_created_at :: string
  tg_updated_at :: string

record delivery_tables =
  dt_deliveries :: "delivery_row list"
  dt_turns :: "turn_row list"
  dt_targets :: "target_row list"
  dt_bots :: "string list"
  dt_operations :: "string list"

type_synonym 'a ledger_m = "(delivery_tables, 'a) sql"

section \<open>Statements\<close>

definition update_deliveries :: "(delivery_row \<Rightarrow> bool) \<Rightarrow> (delivery_row \<Rightarrow> delivery_row) \<Rightarrow> nat ledger_m" where
  "update_deliveries P f = sql_stmt (\<lambda>t.
     case sql_update P f (dt_deliveries t) of (rs, n) \<Rightarrow> (Inr n, t\<lparr>dt_deliveries := rs\<rparr>))"

definition update_turns :: "(turn_row \<Rightarrow> bool) \<Rightarrow> (turn_row \<Rightarrow> turn_row) \<Rightarrow> nat ledger_m" where
  "update_turns P f = sql_stmt (\<lambda>t.
     case sql_update P f (dt_turns t) of (rs, n) \<Rightarrow> (Inr n, t\<lparr>dt_turns := rs\<rparr>))"

definition update_targets :: "(target_row \<Rightarrow> bool) \<Rightarrow> (target_row \<Rightarrow> target_row) \<Rightarrow> nat ledger_m" where
  "update_targets P f = sql_stmt (\<lambda>t.
     case sql_update P f (dt_targets t) of (rs, n) \<Rightarrow> (Inr n, t\<lparr>dt_targets := rs\<rparr>))"

definition one_row :: "app_error \<Rightarrow> nat ledger_m \<Rightarrow> unit ledger_m" where
  "one_row e m = sql_bind m (\<lambda>n. if n \<noteq> 1 then sql_lift (Inl e) else sql_return ())"

section \<open>Deliveries\<close>

definition state_stale :: "string \<Rightarrow> app_error" where
  "state_stale msg = conflict ''TELEGRAM_DELIVERY_STATE_STALE'' msg"

definition pending_row :: "string \<Rightarrow> string \<Rightarrow> string \<Rightarrow> i64 \<Rightarrow> string \<Rightarrow> string option \<Rightarrow> delivery_row" where
  "pending_row now i bid chat kind turn =
     \<lparr> dr_id = i, dr_bot_id = bid, dr_chat_id = int_to_string chat, dr_external_message_id = None,
       dr_message_kind = kind, dr_turn_id = turn, dr_generation_run_id = None, dr_attempt_count = 1,
       dr_status = ''pending'', dr_last_error = None, dr_next_attempt_at = None, dr_attempt_token = None,
       dr_terminal_at = None, dr_terminal_evidence = None, dr_created_at = now, dr_updated_at = now \<rparr>"

definition create_delivery :: "string \<Rightarrow> string \<Rightarrow> string \<Rightarrow> i64 \<Rightarrow> string \<Rightarrow> string option \<Rightarrow> string ledger_m" where
  "create_delivery i now bid chat kind turn =
     sql_bind (sql_stmt (\<lambda>t.
       if i \<in> dr_id ` set (dt_deliveries t) \<or> bid \<notin> set (dt_bots t) then (Inl db_error, t)
       else (Inr (), t\<lparr>dt_deliveries := dt_deliveries t @ [pending_row now i bid chat kind turn]\<rparr>))) (\<lambda>_.
     sql_return i)"

definition mark_sending :: "string \<Rightarrow> string \<Rightarrow> string \<Rightarrow> unit ledger_m" where
  "mark_sending token now i =
     one_row (state_stale (''Telegram '' @ utf8_encode [25237, 36882, 29366, 24577, 24050, 34987, 20854, 20182, 23581, 35797,
       25509, 31649]))
       (update_deliveries (\<lambda>r. dr_id r = i \<and> dr_status r \<in> {''pending'', ''retry_pending''})
          (\<lambda>r. r\<lparr>dr_status := ''sending'', dr_attempt_token := Some token, dr_updated_at := now\<rparr>))"

definition mark_sent_row :: "string \<Rightarrow> string \<Rightarrow> i64 \<Rightarrow> unit ledger_m" where
  "mark_sent_row now i mid =
     one_row (state_stale ''Telegram delivery confirmation no longer matches the active attempt'')
       (update_deliveries (\<lambda>r. dr_id r = i \<and> dr_status r = ''sending'')
          (\<lambda>r. r\<lparr>dr_external_message_id := Some (int_to_string mid), dr_status := ''sent'', dr_last_error := None,
                 dr_updated_at := now\<rparr>))"

definition mark_unknown_row :: "string \<Rightarrow> string \<Rightarrow> string \<Rightarrow> app_error \<Rightarrow> unit ledger_m" where
  "mark_unknown_row terminal now i e =
     one_row (state_stale ''Telegram unknown delivery state did not update exactly one attempt'')
       (update_deliveries (\<lambda>r. dr_id r = i \<and> dr_status r = ''sending'')
          (\<lambda>r. r\<lparr>dr_status := ''unknown'', dr_last_error := Some (app_code e), dr_terminal_at := Some terminal,
                 dr_updated_at := now\<rparr>))"

definition mark_failed_row :: "string \<Rightarrow> string \<Rightarrow> string \<Rightarrow> app_error \<Rightarrow> unit ledger_m" where
  "mark_failed_row terminal now i e =
     one_row (state_stale ''Telegram failed delivery state did not update exactly one attempt'')
       (update_deliveries (\<lambda>r. dr_id r = i \<and> dr_status r = ''sending'')
          (\<lambda>r. r\<lparr>dr_status := ''failed'', dr_last_error := Some (app_code e), dr_terminal_at := Some terminal,
                 dr_updated_at := now\<rparr>))"

definition mark_retry_row :: "string \<Rightarrow> string \<Rightarrow> string \<Rightarrow> string \<Rightarrow> app_error \<Rightarrow> unit ledger_m" where
  "mark_retry_row next_attempt token now i e =
     one_row (state_stale ''Telegram retry state did not update exactly one active attempt'')
       (update_deliveries (\<lambda>r. dr_id r = i \<and> dr_status r = ''sending'')
          (\<lambda>r. r\<lparr>dr_status := ''retry_pending'', dr_last_error := Some (app_code e), dr_next_attempt_at := Some next_attempt,
                 dr_attempt_token := Some token, dr_attempt_count := dr_attempt_count r + 1, dr_updated_at := now\<rparr>))"

definition UNKNOWN_CODE :: string where
  "UNKNOWN_CODE = ''TELEGRAM_COMMIT_STATE_UNKNOWN''"

definition mark_unknown_after :: "string \<Rightarrow> string \<Rightarrow> string \<Rightarrow> nat ledger_m" where
  "mark_unknown_after terminal now i =
     update_deliveries (\<lambda>r. dr_id r = i \<and> dr_status r \<in> {''sending'', ''sent''})
       (\<lambda>r. r\<lparr>dr_status := ''unknown'', dr_last_error := Some UNKNOWN_CODE, dr_terminal_at := Some terminal,
              dr_updated_at := now\<rparr>)"

definition link_generation :: "string \<Rightarrow> string \<Rightarrow> string \<Rightarrow> unit ledger_m" where
  "link_generation now i run =
     one_row (state_stale ''Telegram generation link no longer matches a delivery'')
       (update_deliveries (\<lambda>r. dr_id r = i) (\<lambda>r. r\<lparr>dr_generation_run_id := Some run, dr_updated_at := now\<rparr>))"

text \<open>\<^verbatim>\<open>ORDER BY created_at DESC LIMIT 1\<close> of the rows of a generation that has been sent.\<close>

definition find_generation :: "string \<Rightarrow> i64 \<Rightarrow> string \<Rightarrow> (string \<times> string) option ledger_m" where
  "find_generation bid chat op_id = sql_stmt (\<lambda>t.
     (Inr (map_option (\<lambda>r. (dr_id r, the (dr_external_message_id r)))
        (fold (\<lambda>r best. case best of
             None \<Rightarrow> Some r
           | Some b \<Rightarrow> if dr_created_at b < dr_created_at r then Some r else Some b)
          (filter (\<lambda>r. dr_bot_id r = bid \<and> dr_chat_id r = int_to_string chat \<and> dr_message_kind r = ''generation''
                     \<and> dr_turn_id r = Some op_id \<and> dr_status r = ''sent'' \<and> dr_external_message_id r \<noteq> None)
             (dt_deliveries t)) None)), t))"

text \<open>\<^verbatim>\<open>CAST(chat_id AS INTEGER)\<close> reads back the decimal the row was written with.\<close>

definition due_deliveries :: "string \<Rightarrow> string \<Rightarrow> i64 \<Rightarrow> string list ledger_m" where
  "due_deliveries now bid chat = sql_stmt (\<lambda>t.
     (Inr (take 128 (map dr_id (sort_key dr_updated_at
        (filter (\<lambda>r. dr_bot_id r = bid \<and> dr_chat_id r = int_to_string chat
            \<and> dr_status r \<in> {''pending'', ''retry_pending''}
            \<and> (case dr_next_attempt_at r of None \<Rightarrow> True | Some a \<Rightarrow> a \<le> now)) (dt_deliveries t))))), t))"

section \<open>Messages of a turn\<close>

definition revision_invalid :: "string \<Rightarrow> app_error" where
  "revision_invalid msg = conflict ''TELEGRAM_TURN_REVISION_INVALID'' msg"

definition to_i64 :: "app_error \<Rightarrow> nat \<Rightarrow> i64 app_result" where
  "to_i64 e n = (if int n \<le> i64_max then Inr (int n) else Inl e)"

definition encode_chunk_index :: "nat \<Rightarrow> i64 app_result" where
  "encode_chunk_index n = to_i64 (bad_request ''TELEGRAM_TURN_CHUNK_INDEX_INVALID''
     ''Telegram turn chunk index exceeds SQLite integer range'') n"

definition next_revision :: "u64 \<Rightarrow> u64 app_result" where
  "next_revision r = ok_or (revision_invalid ''Telegram turn revision overflow'') (checked_add_u64 r 1)"

definition revision_i64 :: "u64 \<Rightarrow> i64 app_result" where
  "revision_i64 r = to_i64 (revision_invalid ''Telegram turn revision is invalid'') (unat r)"

definition live :: "turn_row \<Rightarrow> bool" where
  "live r \<longleftrightarrow> tr_status r \<in> {''sent'', ''active''} \<and> tr_lifecycle r \<in> {Some ''sent'', Some ''active''}"

definition turn_key :: "turn_row \<Rightarrow> turn_scope option \<times> string \<times> i64" where
  "turn_key r = (tr_scope r, tr_turn_id r, tr_chunk_index r)"

definition record_turn :: "string \<Rightarrow> (string \<Rightarrow> string) \<Rightarrow> turn_metadata \<Rightarrow> nat \<Rightarrow> i64 \<Rightarrow> string \<Rightarrow> string \<Rightarrow> u64 \<Rightarrow> unit ledger_m" where
  "record_turn now sha meta chunk mid txt status version =
     sql_bind (sql_lift (to_i64 (bad_request ''TELEGRAM_TURN_REVISION_INVALID'' ''Telegram turn revision is invalid'')
         (unat version))) (\<lambda>version.
     sql_bind (sql_lift (encode_chunk_index chunk)) (\<lambda>chunk.
     sql_stmt (\<lambda>t.
       let r = \<lparr> tr_id = Suc (fold max (map tr_id (dt_turns t)) 0), tr_scope = Some (tm_scope meta),
             tr_turn_id = tm_turn_id meta, tr_operation_id = tm_operation_id meta, tr_chunk_index = chunk,
             tr_message_id = mid, tr_content_hash = sha txt, tr_render_version = version, tr_status = status,
             tr_lifecycle = Some ''active'', tr_terminal_at = None, tr_created_at = now, tr_updated_at = now \<rparr> in
       if turn_key r \<in> turn_key ` set (dt_turns t) then (Inl db_error, t)
       else (Inr (), t\<lparr>dt_turns := dt_turns t @ [r]\<rparr>))))"

definition turn_chunk_at :: "turn_scope \<Rightarrow> string \<Rightarrow> i64 \<Rightarrow> i64 \<Rightarrow> i64 \<Rightarrow> turn_row \<Rightarrow> bool" where
  "turn_chunk_at s turn chunk mid version r \<longleftrightarrow>
     tr_scope r = Some s \<and> tr_turn_id r = turn \<and> tr_chunk_index r = chunk \<and> tr_message_id r = mid
     \<and> tr_render_version r \<le> version \<and> live r"

definition ledger_stale :: "string \<Rightarrow> app_error" where
  "ledger_stale msg = conflict ''TELEGRAM_TURN_LEDGER_STALE'' msg"

definition update_turn_chunk_scoped ::
    "string \<Rightarrow> (string \<Rightarrow> string) \<Rightarrow> turn_scope \<Rightarrow> u64 \<Rightarrow> string \<Rightarrow> nat \<Rightarrow> i64 \<Rightarrow> string \<Rightarrow> unit ledger_m" where
  "update_turn_chunk_scoped now sha s revision turn chunk mid txt =
     sql_bind (sql_lift (next_revision revision)) (\<lambda>nxt.
     sql_bind (sql_lift (revision_i64 nxt)) (\<lambda>nxt.
     sql_bind (sql_lift (encode_chunk_index chunk)) (\<lambda>chunk.
     sql_bind (sql_lift (revision_i64 revision)) (\<lambda>revision.
     one_row (ledger_stale ''Telegram turn ledger no longer matches the active scoped message'')
       (update_turns (turn_chunk_at s turn chunk mid revision)
          (\<lambda>r. r\<lparr>tr_content_hash := sha txt, tr_render_version := nxt, tr_status := ''sent'', tr_updated_at := now\<rparr>))))))"

text \<open>The transaction of \<^verbatim>\<open>replace_turn_chunk_scoped\<close>: its begin, and its two statements with the commit.\<close>

definition sql_begin :: "unit ledger_m" where
  "sql_begin = sql_stmt (\<lambda>t. (Inr (), t))"

definition sql_commit :: "'a ledger_m \<Rightarrow> 'a ledger_m" where
  "sql_commit m db =
     (case m db of
        (Inl e, db') \<Rightarrow> (Inl e, db'\<lparr>db_tables := db_tables db\<rparr>)
      | (Inr a, db') \<Rightarrow>
          (case sql_stmt (\<lambda>t. (Inr (), t)) db' of
             (Inl e, db2) \<Rightarrow> (Inl e, db2\<lparr>db_tables := db_tables db\<rparr>)
           | (Inr _, db2) \<Rightarrow> (Inr a, db2)))"

definition replace_statements ::
    "string \<Rightarrow> string \<Rightarrow> (string \<Rightarrow> string) \<Rightarrow> (i64 \<Rightarrow> string) \<Rightarrow> string \<Rightarrow> turn_metadata \<Rightarrow> i64 \<Rightarrow> i64 \<Rightarrow> i64 \<Rightarrow> i64 \<Rightarrow> i64 \<Rightarrow> string
      \<Rightarrow> unit ledger_m" where
  "replace_statements now1 now2 sha evidence i meta nxt revision chunk old_mid new_mid message =
     sql_bind (one_row (ledger_stale ''Telegram turn replacement revision or target no longer matches'')
       (update_turns (turn_chunk_at (tm_scope meta) (tm_turn_id meta) chunk old_mid revision)
          (\<lambda>r. r\<lparr>tr_message_id := new_mid, tr_content_hash := sha message, tr_render_version := nxt, tr_status := ''sent'',
                 tr_lifecycle := Some ''active'', tr_updated_at := now1\<rparr>))) (\<lambda>_.
     one_row (state_stale ''Telegram replacement delivery confirmation no longer matches'')
       (update_deliveries (\<lambda>r. dr_id r = i \<and> dr_status r = ''sending'')
          (\<lambda>r. r\<lparr>dr_external_message_id := Some (int_to_string new_mid), dr_status := ''sent'',
                 dr_terminal_evidence := Some (evidence old_mid), dr_updated_at := now2\<rparr>)))"

definition replaced_evidence :: "i64 \<Rightarrow> string" where
  "replaced_evidence mid = ''{'' @ [CHR 34] @ ''replaced_message_id'' @ [CHR 34] @ '':'' @ int_to_string mid @ ''}''"

definition live_turn :: "turn_scope \<Rightarrow> string \<Rightarrow> turn_row \<Rightarrow> bool" where
  "live_turn s turn r \<longleftrightarrow> tr_scope r = Some s \<and> tr_turn_id r = turn \<and> live r"

definition max_version :: "turn_scope \<Rightarrow> string \<Rightarrow> i64 option ledger_m" where
  "max_version s turn = sql_stmt (\<lambda>t.
     (Inr (case map tr_render_version (filter (live_turn s turn) (dt_turns t)) of
             [] \<Rightarrow> None | v # vs \<Rightarrow> Some (fold max vs v)), t))"

definition assert_turn_revision :: "turn_scope \<Rightarrow> string \<Rightarrow> u64 \<Rightarrow> unit ledger_m" where
  "assert_turn_revision s turn expected =
     sql_bind (max_version s turn) (\<lambda>stored.
     sql_bind (sql_lift (ok_or (ledger_stale ''Telegram turn revision is missing'') stored)) (\<lambda>stored.
     sql_bind (sql_lift (revision_i64 expected)) (\<lambda>expected.
     if stored \<noteq> expected
     then sql_lift (Inl (conflict ''TELEGRAM_TURN_REVISION_CONFLICT'' ''Telegram turn revision changed concurrently''))
     else sql_return ())))"

definition retire_turn_scoped :: "string \<Rightarrow> string \<Rightarrow> i64 \<Rightarrow> turn_scope \<Rightarrow> string \<Rightarrow> string \<Rightarrow> unit ledger_m" where
  "retire_turn_scoped terminal now own_chat s turn op_id =
     (if trim turn = [] \<or> trim op_id = [] \<or> ts_chat_id s \<noteq> own_chat
      then sql_lift (Inl (bad_request ''TELEGRAM_TURN_SCOPE_INVALID'' ''Telegram turn retirement identity is invalid''))
      else sql_bind (update_turns (\<lambda>r. live_turn s turn r \<and> tr_operation_id r \<noteq> op_id)
               (\<lambda>r. r\<lparr>tr_lifecycle := Some ''retired'', tr_status := ''retired'', tr_terminal_at := Some terminal,
                      tr_updated_at := now\<rparr>)) (\<lambda>n.
           if n = 0 then sql_lift (Inl (ledger_stale ''Telegram turn retirement matched no active scoped message''))
           else sql_return ()))"

definition mark_status :: "string \<Rightarrow> turn_scope \<Rightarrow> i64 \<Rightarrow> string \<Rightarrow> unit ledger_m" where
  "mark_status now s mid status =
     one_row (ledger_stale ''Telegram turn status update did not match exactly one scoped message'')
       (update_turns (\<lambda>r. tr_scope r = Some s \<and> tr_message_id r = mid \<and> tr_status r \<in> {''sent'', ''active''})
          (\<lambda>r. r\<lparr>tr_status := status,
                 tr_lifecycle := Some (if status = ''deleted'' \<or> status = ''revoked'' then ''retired'' else ''active''),
                 tr_updated_at := now\<rparr>))"

text \<open>\<^verbatim>\<open>ORDER BY updated_at DESC, id DESC LIMIT 1\<close>.\<close>

definition latest_turn :: "turn_row list \<Rightarrow> turn_row option" where
  "latest_turn rs = fold (\<lambda>r best. case best of
       None \<Rightarrow> Some r
     | Some b \<Rightarrow> if tr_updated_at b < tr_updated_at r \<or> (tr_updated_at b = tr_updated_at r \<and> tr_id b < tr_id r)
               then Some r else Some b) rs None"

definition find_last_turn :: "turn_scope \<Rightarrow> (string option \<times> i64 list \<times> u64) ledger_m" where
  "find_last_turn s =
     sql_bind (sql_stmt (\<lambda>t. (Inr (latest_turn (filter (\<lambda>r. tr_scope r = Some s \<and> live r) (dt_turns t))), t))) (\<lambda>row.
     case row of
       None \<Rightarrow> sql_return (None, [], 0)
     | Some r \<Rightarrow>
         sql_bind (sql_stmt (\<lambda>t. (Inr (map tr_message_id (sort_key tr_chunk_index (sort_key tr_id
             (filter (live_turn s (tr_turn_id r)) (dt_turns t))))), t))) (\<lambda>ids.
         sql_bind (max_version s (tr_turn_id r)) (\<lambda>v.
         sql_bind (sql_lift (ok_or (internal ''Telegram turn render revision is missing'') v)) (\<lambda>v.
         if v < 0 then sql_lift (Inl (internal ''Telegram turn render revision is outside the supported range''))
         else sql_return (Some (tr_turn_id r), ids, word_of_int v)))))"

section \<open>Frozen targets\<close>

definition target_invalid :: "(string \<Rightarrow> string \<Rightarrow> app_error) \<Rightarrow> string \<Rightarrow> app_error" where
  "target_invalid kind msg = kind ''TELEGRAM_TURN_TARGET_INVALID'' msg"

definition load_frozen_target ::
    "(string \<Rightarrow> i64 list option) \<Rightarrow> string \<Rightarrow> turn_scope \<Rightarrow> frozen_turn_target option ledger_m" where
  "load_frozen_target of_text op_id s =
     sql_bind (sql_stmt (\<lambda>t. (Inr (find (\<lambda>r. tg_operation_id r = op_id \<and> tg_scope r = s) (dt_targets t)), t))) (\<lambda>row.
     case row of
       None \<Rightarrow> sql_return None
     | Some r \<Rightarrow>
         sql_bind (sql_lift (ok_or (target_invalid conflict ''frozen Telegram target message IDs are invalid'')
             (of_text (tg_old_message_ids r)))) (\<lambda>ids.
         if (\<exists>i \<in> set ids. i \<le> 0) \<or> \<not> lower_hex64 (tg_tail_fingerprint r)
         then sql_lift (Inl (target_invalid conflict ''frozen Telegram target contains invalid identity data''))
         else if tg_target_revision r < 0
         then sql_lift (Inl (target_invalid conflict ''frozen Telegram target revision is invalid''))
         else sql_return (Some \<lparr> ft_operation_id = tg_operation_id r, ft_scope = s, ft_target_turn_id = tg_target_turn_id r,
                ft_tail_fingerprint = tg_tail_fingerprint r, ft_target_revision = word_of_int (tg_target_revision r),
                ft_old_message_ids = ids, ft_status = tg_status r \<rparr>)))"

text \<open>\<^verbatim>\<open>ON CONFLICT(operation_id) DO NOTHING\<close>; the foreign key needs the bridge operation and the check
  constraints a positive bot.\<close>

definition insert_target :: "target_row \<Rightarrow> nat ledger_m" where
  "insert_target r = sql_stmt (\<lambda>t.
     if tg_operation_id r \<in> tg_operation_id ` set (dt_targets t) then (Inr 0, t)
     else if tg_operation_id r \<notin> set (dt_operations t) \<or> ts_numeric_bot_id (tg_scope r) \<le> 0 then (Inl db_error, t)
     else (Inr 1, t\<lparr>dt_targets := dt_targets t @ [r]\<rparr>))"

definition target_identity_reused :: app_error where
  "target_identity_reused = conflict ''TELEGRAM_TURN_TARGET_IDENTITY_REUSED'' ''frozen Telegram target identity was reused''"

definition freeze_target ::
    "(i64 list \<Rightarrow> string option) \<Rightarrow> (string \<Rightarrow> i64 list option) \<Rightarrow> string \<Rightarrow> string \<Rightarrow> turn_scope \<Rightarrow> string \<Rightarrow> string
      \<Rightarrow> u64 \<Rightarrow> i64 list \<Rightarrow> frozen_turn_target ledger_m" where
  "freeze_target to_text of_text now op_id s turn fingerprint revision old_ids =
     (if trim op_id = [] \<or> trim turn = [] \<or> \<not> lower_hex64 fingerprint \<or> (\<exists>i \<in> set old_ids. i \<le> 0)
      then sql_lift (Inl (target_invalid bad_request ''frozen Telegram target identity is invalid''))
      else
        sql_bind (sql_lift (to_i64 (target_invalid bad_request ''frozen Telegram target revision is invalid'') (unat revision))) (\<lambda>rv.
        sql_bind (sql_lift (ok_or (target_invalid bad_request ''frozen Telegram target IDs are invalid'') (to_text old_ids))) (\<lambda>ids.
        sql_bind (sql_lift (ok_or (target_invalid bad_request ''frozen Telegram target IDs are invalid'') (of_text ids))) (\<lambda>requested.
        sql_bind (insert_target \<lparr> tg_operation_id = op_id, tg_scope = s, tg_target_turn_id = turn,
            tg_tail_fingerprint = fingerprint, tg_target_revision = rv, tg_old_message_ids = ids, tg_status = ''frozen'',
            tg_created_at = now, tg_updated_at = now \<rparr>) (\<lambda>n.
        if n = 0 then
          sql_bind (load_frozen_target of_text op_id s) (\<lambda>old.
          sql_bind (sql_lift (ok_or target_identity_reused old)) (\<lambda>old.
          if ft_target_turn_id old \<noteq> turn \<or> ft_tail_fingerprint old \<noteq> fingerprint \<or> ft_target_revision old \<noteq> revision
             \<or> ft_old_message_ids old \<noteq> requested
          then sql_lift (Inl target_identity_reused)
          else sql_return old))
        else
          sql_bind (load_frozen_target of_text op_id s) (\<lambda>new.
          sql_lift (ok_or (internal ''frozen Telegram target disappeared after insert'') new)))))))"

definition cas_target_status :: "string \<Rightarrow> string \<Rightarrow> turn_scope \<Rightarrow> string \<Rightarrow> string \<Rightarrow> unit ledger_m" where
  "cas_target_status now op_id s expected nxt =
     (if (expected, nxt) \<notin> {(''frozen'', ''applying''), (''applying'', ''applied''), (''applying'', ''failed''),
           (''applying'', ''unknown'')}
      then sql_lift (Inl (bad_request ''TELEGRAM_TURN_TARGET_STATUS_INVALID''
             ''invalid frozen Telegram target status transition''))
      else one_row (conflict ''TELEGRAM_TURN_TARGET_CAS_CONFLICT'' ''frozen Telegram target status changed concurrently'')
             (update_targets (\<lambda>r. tg_operation_id r = op_id \<and> tg_scope r = s \<and> tg_status r = expected)
                (\<lambda>r. r\<lparr>tg_status := nxt, tg_updated_at := now\<rparr>)))"

section \<open>How the tables evolve\<close>

definition delivery_le :: "string \<Rightarrow> string \<Rightarrow> bool" where
  "delivery_le a b \<longleftrightarrow> a = b
     \<or> (a \<in> {''pending'', ''retry_pending'', ''sending''} \<and> b \<in> {''retry_pending'', ''sending'', ''sent'', ''unknown'', ''failed''})
     \<or> (a = ''sent'' \<and> b = ''unknown'')"

definition delivery_ok :: "delivery_row \<Rightarrow> bool" where
  "delivery_ok r \<longleftrightarrow>
     dr_status r \<in> {''pending'', ''retry_pending'', ''sending'', ''sent'', ''unknown'', ''failed''}
     \<and> (dr_external_message_id r \<noteq> None \<longrightarrow> dr_status r \<in> {''sent'', ''unknown''})
     \<and> (dr_status r = ''sent'' \<longrightarrow> dr_external_message_id r \<noteq> None)"

definition delivery_follows :: "delivery_row \<Rightarrow> delivery_row \<Rightarrow> bool" where
  "delivery_follows r r' \<longleftrightarrow>
     dr_bot_id r' = dr_bot_id r \<and> dr_chat_id r' = dr_chat_id r \<and> dr_message_kind r' = dr_message_kind r
     \<and> dr_turn_id r' = dr_turn_id r \<and> dr_attempt_count r \<le> dr_attempt_count r'
     \<and> delivery_le (dr_status r) (dr_status r')
     \<and> (dr_external_message_id r \<noteq> None \<longrightarrow> dr_external_message_id r' = dr_external_message_id r)
     \<and> (dr_status r \<in> {''unknown'', ''failed''} \<longrightarrow> dr_last_error r' = dr_last_error r \<and> dr_terminal_at r' = dr_terminal_at r)"

text \<open>A turn message keeps its place, its rendered version only grows, and once it is no longer shown
  the row does not change.\<close>

definition turn_follows :: "turn_row \<Rightarrow> turn_row \<Rightarrow> bool" where
  "turn_follows r r' \<longleftrightarrow>
     turn_key r' = turn_key r \<and> tr_operation_id r' = tr_operation_id r \<and> tr_render_version r \<le> tr_render_version r'
     \<and> (tr_status r \<notin> {''sent'', ''active''} \<longrightarrow> r' = r)"

definition target_le :: "string \<Rightarrow> string \<Rightarrow> bool" where
  "target_le a b \<longleftrightarrow> a = b \<or> (a = ''frozen'' \<and> b \<in> {''applying'', ''applied'', ''failed'', ''unknown''})
     \<or> (a = ''applying'' \<and> b \<in> {''applied'', ''failed'', ''unknown''})"

definition target_follows :: "target_row \<Rightarrow> target_row \<Rightarrow> bool" where
  "target_follows r r' \<longleftrightarrow>
     r'\<lparr>tg_status := tg_status r, tg_updated_at := tg_updated_at r\<rparr> = r \<and> target_le (tg_status r) (tg_status r')"

definition ledger_follows :: "delivery_tables \<Rightarrow> delivery_tables \<Rightarrow> bool" where
  "ledger_follows s t \<longleftrightarrow>
     rows_follow dr_id delivery_ok delivery_follows (dt_deliveries s) (dt_deliveries t)
     \<and> rows_follow tr_id (\<lambda>_. True) turn_follows (dt_turns s) (dt_turns t)
     \<and> rows_follow tg_operation_id (\<lambda>_. True) target_follows (dt_targets s) (dt_targets t)"

lemma delivery_le_refl [simp]: "delivery_le a a"
  by (simp add: delivery_le_def)

lemma delivery_le_final: "delivery_le a b \<Longrightarrow> a \<in> {''unknown'', ''failed''} \<Longrightarrow> b = a"
  by (auto simp: delivery_le_def)

lemma three_way_trans:
  "a = b \<or> (a \<in> A \<and> b \<in> B) \<or> (a = s \<and> b = u) \<Longrightarrow> b = c \<or> (b \<in> A \<and> c \<in> B) \<or> (b = s \<and> c = u) \<Longrightarrow>
   u \<notin> A \<Longrightarrow> u \<in> B \<Longrightarrow> u \<noteq> s \<Longrightarrow> a = c \<or> (a \<in> A \<and> c \<in> B) \<or> (a = s \<and> c = u)"
  by blast

lemma delivery_le_trans: "delivery_le a b \<Longrightarrow> delivery_le b c \<Longrightarrow> delivery_le a c"
  unfolding delivery_le_def by (erule (1) three_way_trans) simp_all

interpretation delivery_log: keyed_rows dr_id delivery_ok delivery_follows dt_deliveries
proof
  show "delivery_follows r r" for r :: delivery_row
    by (simp add: delivery_follows_def)
  show "delivery_follows r u" if "delivery_follows r s" "delivery_follows s u" for r s u :: delivery_row
    unfolding delivery_follows_def
  proof (intro conjI impI)
    show "delivery_le (dr_status r) (dr_status u)"
      using that delivery_le_trans unfolding delivery_follows_def by blast
    assume "dr_status r \<in> {''unknown'', ''failed''}"
    moreover from this have "dr_status s = dr_status r"
      using that delivery_le_final unfolding delivery_follows_def by blast
    ultimately show "dr_last_error u = dr_last_error r" "dr_terminal_at u = dr_terminal_at r"
      using that unfolding delivery_follows_def by simp_all
  qed (use that in \<open>simp_all add: delivery_follows_def\<close>)
qed

interpretation turn_log: keyed_rows tr_id "\<lambda>_. True" turn_follows dt_turns
  by unfold_locales (auto simp: turn_follows_def)

interpretation target_log: keyed_rows tg_operation_id "\<lambda>_. True" target_follows dt_targets
proof
  show "target_follows r u" if "target_follows r s" "target_follows s u" for r s u :: target_row
    using that by (cases r; cases s; cases u) (auto simp: target_follows_def target_le_def)
qed (simp add: target_follows_def target_le_def)

interpretation ledger: table_order ledger_follows
proof
  show "ledger_follows t t" for t
    by (simp add: ledger_follows_def delivery_log.rows_refl turn_log.rows_refl target_log.rows_refl)
  show "ledger_follows s u" if "ledger_follows s t" "ledger_follows t u" for s t u
    using that unfolding ledger_follows_def
    by (blast intro: delivery_log.rows_trans turn_log.rows_trans target_log.rows_trans)
qed

lemmas rows_refls [simp] = delivery_log.rows_refl turn_log.rows_refl target_log.rows_refl

text \<open>Statements that only read, updates and insertions.\<close>

lemma evolves_stmt_read: "(\<And>t. snd (body t) = t) \<Longrightarrow> sql_evolves ledger_follows (sql_stmt body)"
  by (rule ledger.evolves_stmt) (simp add: ledger.refl)

lemma evolves_update_deliveries:
  assumes "\<And>r. P r \<Longrightarrow> delivery_ok r \<Longrightarrow> delivery_ok (f r) \<and> dr_id (f r) = dr_id r \<and> delivery_follows r (f r)"
  shows "sql_evolves ledger_follows (update_deliveries P f)"
  unfolding update_deliveries_def
  by (rule ledger.evolves_stmt)
     (use delivery_log.rows_update [OF assms] in \<open>simp add: ledger_follows_def split_def\<close>)

lemma evolves_update_turns:
  assumes "\<And>r. P r \<Longrightarrow> tr_id (f r) = tr_id r \<and> turn_follows r (f r)"
  shows "sql_evolves ledger_follows (update_turns P f)"
  unfolding update_turns_def
  by (rule ledger.evolves_stmt)
     (use turn_log.rows_update [of P f] assms in \<open>simp add: ledger_follows_def split_def\<close>)

lemma evolves_update_targets:
  assumes "\<And>r. P r \<Longrightarrow> tg_operation_id (f r) = tg_operation_id r \<and> target_follows r (f r)"
  shows "sql_evolves ledger_follows (update_targets P f)"
  unfolding update_targets_def
  by (rule ledger.evolves_stmt)
     (use target_log.rows_update [of P f] assms in \<open>simp add: ledger_follows_def split_def\<close>)

lemma evolves_one_row: "sql_evolves ledger_follows m \<Longrightarrow> sql_evolves ledger_follows (one_row e m)"
  unfolding one_row_def by auto

lemma evolves_create [intro!]: "sql_evolves ledger_follows (create_delivery i now bid chat kind turn)"
  unfolding create_delivery_def
  by (intro ledger.evolves_bind ledger.evolves_return ledger.evolves_stmt)
     (auto simp: ledger_follows_def pending_row_def delivery_ok_def intro!: delivery_log.rows_insert)

lemma evolves_marks [intro!]:
  "sql_evolves ledger_follows (mark_sending token now i)"
  "sql_evolves ledger_follows (mark_sent_row now i mid)"
  "sql_evolves ledger_follows (mark_unknown_row terminal now i e)"
  "sql_evolves ledger_follows (mark_failed_row terminal now i e)"
  "sql_evolves ledger_follows (mark_retry_row next_attempt token now i e)"
  "sql_evolves ledger_follows (mark_unknown_after terminal now i)"
  "sql_evolves ledger_follows (link_generation now i run)"
  unfolding mark_sending_def mark_sent_row_def mark_unknown_row_def mark_failed_row_def mark_retry_row_def
    mark_unknown_after_def link_generation_def
  by (auto intro!: evolves_one_row evolves_update_deliveries
      simp: delivery_ok_def delivery_follows_def delivery_le_def)

lemma fold_max_ge: "(m::nat) \<le> fold max xs m \<and> (x \<in> set xs \<longrightarrow> x \<le> fold max xs m)"
proof (induction xs arbitrary: m)
  case (Cons a xs)
  from Cons.IH [of "max a m"] have "max a m \<le> fold max xs (max a m)" "x \<in> set xs \<longrightarrow> x \<le> fold max xs (max a m)"
    by blast+
  then show ?case by auto
qed simp

lemma evolves_record [intro!]: "sql_evolves ledger_follows (record_turn now sha meta chunk mid txt status version)"
  unfolding record_turn_def
proof (intro ledger.evolves_bind ledger.evolves_lift ledger.evolves_stmt)
  fix v c and t :: delivery_tables
  let ?n = "Suc (fold max (map tr_id (dt_turns t)) 0)"
  have "?n \<notin> tr_id ` set (dt_turns t)"
    using fold_max_ge [of 0 "map tr_id (dt_turns t)" ?n] by auto
  then have "rows_follow tr_id (\<lambda>_. True) turn_follows (dt_turns t) (dt_turns t @ [r])" if "tr_id r = ?n" for r
    by (intro turn_log.rows_insert) (use that in auto)
  then show "ledger_follows t (snd (let r = \<lparr> tr_id = ?n, tr_scope = Some (tm_scope meta),
             tr_turn_id = tm_turn_id meta, tr_operation_id = tm_operation_id meta, tr_chunk_index = c,
             tr_message_id = mid, tr_content_hash = sha txt, tr_render_version = v, tr_status = status,
             tr_lifecycle = Some ''active'', tr_terminal_at = None, tr_created_at = now, tr_updated_at = now \<rparr> in
       if turn_key r \<in> turn_key ` set (dt_turns t) then (Inl db_error, t)
       else (Inr (), t\<lparr>dt_turns := dt_turns t @ [r]\<rparr>)))"
    by (simp add: Let_def ledger_follows_def ledger.refl)
qed

lemma next_revision_lt:
  assumes "next_revision v = Inr n" "revision_i64 n = Inr k" "revision_i64 v = Inr j"
  shows "j < k"
proof -
  from assms(1) have "checked_add_u64 v 1 = Some n"
    by (simp add: next_revision_def ok_or_def split: option.splits)
  then have "unat n = unat v + unat (1::u64)" by (rule checked_add_u64_Some)
  then have "int (unat v) < int (unat n)" by simp
  with assms(2,3) show ?thesis
    by (simp only: revision_i64_def to_i64_def split: if_splits) simp_all
qed

lemma evolves_bind_lift: "(\<And>a. r = Inr a \<Longrightarrow> sql_evolves ledger_follows (f a)) \<Longrightarrow> sql_evolves ledger_follows (sql_bind (sql_lift r) f)"
  by (cases r) (auto simp: sql_evolves_def sql_bind_def sql_lift_def ledger.refl)

lemma evolves_update_chunk [intro!]:
  "sql_evolves ledger_follows (update_turn_chunk_scoped now sha s revision turn chunk mid txt)"
  unfolding update_turn_chunk_scoped_def
proof (intro evolves_bind_lift evolves_one_row evolves_update_turns)
  fix n k c j r
  assume "next_revision revision = Inr n" "revision_i64 n = Inr k" "revision_i64 revision = Inr j"
    and "turn_chunk_at s turn c mid j r"
  then show "tr_id (r\<lparr>tr_content_hash := sha txt, tr_render_version := k, tr_status := ''sent'', tr_updated_at := now\<rparr>) = tr_id r
    \<and> turn_follows r (r\<lparr>tr_content_hash := sha txt, tr_render_version := k, tr_status := ''sent'', tr_updated_at := now\<rparr>)"
    using next_revision_lt [of revision n k j] by (auto simp: turn_follows_def turn_key_def turn_chunk_at_def live_def)
qed

lemma evolves_begin [intro!]: "sql_evolves ledger_follows sql_begin"
  unfolding sql_begin_def by (rule evolves_stmt_read) simp

lemma evolves_commit:
  assumes "sql_evolves ledger_follows m"
  shows "sql_evolves ledger_follows (sql_commit m)"
  unfolding sql_evolves_def
proof
  fix db
  obtain r db' where m: "m db = (r, db')" by fastforce
  then have "ledger_follows (db_tables db) (db_tables db')" by (rule sql_evolvesD [OF assms])
  with m show "ledger_follows (db_tables db) (db_tables (snd (sql_commit m db)))"
    by (auto simp: sql_commit_def ledger.refl split: sum.split prod.split)
qed

lemma evolves_replace_statements [intro!]:
  assumes "next_revision revision = Inr n" "revision_i64 n = Inr k" "revision_i64 revision = Inr j"
  shows "sql_evolves ledger_follows (replace_statements now1 now2 sha evidence i meta k j chunk old_mid new_mid message)"
  unfolding replace_statements_def
  using next_revision_lt [OF assms]
  by (intro ledger.evolves_bind evolves_one_row evolves_update_turns evolves_update_deliveries)
     (auto simp: turn_follows_def turn_key_def turn_chunk_at_def live_def delivery_ok_def delivery_follows_def delivery_le_def)

lemma evolves_turns [intro!]:
  "sql_evolves ledger_follows (retire_turn_scoped terminal now own s turn op_id)"
  "sql_evolves ledger_follows (mark_status now s mid status)"
  unfolding retire_turn_scoped_def mark_status_def
  by (auto intro!: evolves_one_row evolves_update_turns simp: turn_follows_def turn_key_def live_turn_def live_def)

lemma evolves_option [intro!]:
  "sql_evolves ledger_follows n \<Longrightarrow> (\<And>x. sql_evolves ledger_follows (f x)) \<Longrightarrow> sql_evolves ledger_follows (case_option n f a)"
  by (cases a) auto

lemma evolves_reads [intro!]:
  "sql_evolves ledger_follows (max_version s turn)"
  "sql_evolves ledger_follows (assert_turn_revision s turn v)"
  "sql_evolves ledger_follows (find_last_turn s)"
  "sql_evolves ledger_follows (load_frozen_target of_text op_id s)"
  "sql_evolves ledger_follows (find_generation bid chat op_id)"
  "sql_evolves ledger_follows (due_deliveries now bid chat)"
  unfolding assert_turn_revision_def find_last_turn_def load_frozen_target_def max_version_def
    find_generation_def due_deliveries_def
  by (intro ledger.evolves_bind ledger.evolves_lift ledger.evolves_return ledger.evolves_if evolves_option evolves_stmt_read;
      simp)+

lemma evolves_cas [intro!]: "sql_evolves ledger_follows (cas_target_status now op_id s expected nxt)"
  unfolding cas_target_status_def
  by (auto intro!: evolves_one_row evolves_update_targets simp: target_follows_def target_le_def)

lemma evolves_insert_target [intro!]: "sql_evolves ledger_follows (insert_target r)"
  unfolding insert_target_def
  by (rule ledger.evolves_stmt)
     (simp add: ledger.refl ledger_follows_def target_log.rows_insert)

lemma evolves_freeze [intro!]:
  "sql_evolves ledger_follows (freeze_target to_text of_text now op_id s turn fp v ids)"
  unfolding freeze_target_def
  by (intro ledger.evolves_bind ledger.evolves_lift ledger.evolves_return ledger.evolves_if evolves_reads evolves_insert_target)

lemma statement_cases:
  assumes "sql_stmt body db = (r, db')"
  obtains "r = Inl db_error" "db_tables db' = db_tables db" | "body (db_tables db) = (r, db_tables db')"
proof (cases "db_faults db")
  case Nil
  with assms have "body (db_tables db) = (r, db_tables db')"
    by (cases "body (db_tables db)") (auto simp: sql_stmt_def)
  then show thesis by (rule that(2))
next
  case (Cons f fs)
  show thesis
  proof (cases f)
    case True
    with Cons assms have "r = Inl db_error" "db_tables db' = db_tables db" by (auto simp: sql_stmt_def)
    then show thesis by (rule that(1))
  next
    case False
    with Cons assms have "body (db_tables db) = (r, db_tables db')"
      by (cases "body (db_tables db)") (auto simp: sql_stmt_def)
    then show thesis by (rule that(2))
  qed
qed

lemma update_deliveries_cases:
  assumes "update_deliveries P f db = (q, db')"
  obtains "q = Inl db_error" "db_tables db' = db_tables db"
  | "q = Inr (length (filter P (dt_deliveries (db_tables db))))"
    "dt_deliveries (db_tables db') = map (\<lambda>r. if P r then f r else r) (dt_deliveries (db_tables db))"
  using assms unfolding update_deliveries_def
proof (cases rule: statement_cases)
  case 2
  note eqs = 2 [unfolded sql_update_def prod.case prod.inject]
  show thesis
  proof (rule that(2))
    show "q = Inr (length (filter P (dt_deliveries (db_tables db))))"
      by (rule conjunct1 [OF eqs, symmetric])
    show "dt_deliveries (db_tables db') = map (\<lambda>r. if P r then f r else r) (dt_deliveries (db_tables db))"
      unfolding conjunct2 [OF eqs, symmetric] by simp
  qed
qed

lemma created_row:
  assumes "create_delivery i now bid chat kind turn db = (Inr j, db')"
  shows "j = i" and "pending_row now i bid chat kind turn \<in> set (dt_deliveries (db_tables db'))"
    and "dr_id (pending_row now i bid chat kind turn) = i" and "dr_status (pending_row now i bid chat kind turn) = ''pending''"
    and "dr_external_message_id (pending_row now i bid chat kind turn) = None"
    and "dr_turn_id (pending_row now i bid chat kind turn) = turn"
proof -
  obtain db1 where "sql_stmt (\<lambda>t. if i \<in> dr_id ` set (dt_deliveries t) \<or> bid \<notin> set (dt_bots t) then (Inl db_error, t)
       else (Inr (), t\<lparr>dt_deliveries := dt_deliveries t @ [pending_row now i bid chat kind turn]\<rparr>)) db = (Inr (), db1)"
    and j: "j = i" "db' = db1"
    using assms unfolding create_delivery_def by (auto elim!: sql_bind_InrE)
  from sql_stmt_Inr [OF this(1)] have "(Inr (), db_tables db\<lparr>dt_deliveries := dt_deliveries (db_tables db) @ [pending_row now i bid chat kind turn]\<rparr>)
      = (Inr () :: unit app_result, db_tables db1)"
    by (simp split: if_splits)
  then have "dt_deliveries (db_tables db1) = dt_deliveries (db_tables db) @ [pending_row now i bid chat kind turn]"
    by (metis prod.inject delivery_tables.select_convs(1) delivery_tables.surjective delivery_tables.update_convs(1))
  with j show "pending_row now i bid chat kind turn \<in> set (dt_deliveries (db_tables db'))" by simp
qed (use assms in \<open>auto simp: pending_row_def create_delivery_def elim!: sql_bind_InrE\<close>)

section \<open>Runs of the ledger\<close>

text \<open>Every method that writes the tables, with the statements that fail in it.\<close>

datatype ledger_call =
    Call_Create string string string i64 string "string option"
  | Call_Sending string string string
  | Call_Sent string string i64
  | Call_Unknown string string string app_error
  | Call_Failed string string string app_error
  | Call_Retry string string string string app_error
  | Call_Unknown_After string string string
  | Call_Link string string string
  | Call_Record string "string \<Rightarrow> string" turn_metadata nat i64 string string u64
  | Call_Update_Chunk string "string \<Rightarrow> string" turn_scope u64 string nat i64 string
  | Call_Replace string string "string \<Rightarrow> string" string turn_metadata u64 nat i64 i64 string
  | Call_Retire string string i64 turn_scope string string
  | Call_Mark_Status string turn_scope i64 string
  | Call_Freeze "i64 list \<Rightarrow> string option" "string \<Rightarrow> i64 list option" string string turn_scope string string u64 "i64 list"
  | Call_Cas string string turn_scope string string

text \<open>The ledger part of \<^verbatim>\<open>replace_turn_chunk_scoped\<close>, after the new message has been sent.\<close>

definition replace_in_ledger ::
    "string \<Rightarrow> string \<Rightarrow> (string \<Rightarrow> string) \<Rightarrow> string \<Rightarrow> turn_metadata \<Rightarrow> u64 \<Rightarrow> nat \<Rightarrow> i64 \<Rightarrow> i64 \<Rightarrow> string \<Rightarrow> unit ledger_m" where
  "replace_in_ledger now1 now2 sha i meta revision chunk old_mid new_mid message =
     sql_bind (sql_lift (next_revision revision)) (\<lambda>nxt.
     sql_bind sql_begin (\<lambda>_.
     sql_bind (sql_lift (revision_i64 nxt)) (\<lambda>nxt.
     sql_bind (sql_lift (encode_chunk_index chunk)) (\<lambda>chunk.
     sql_bind (sql_lift (revision_i64 revision)) (\<lambda>revision.
     sql_commit (replace_statements now1 now2 sha replaced_evidence i meta nxt revision chunk old_mid new_mid message))))))"

definition done_with :: "'a ledger_m \<Rightarrow> unit ledger_m" where
  "done_with m = sql_bind m (\<lambda>_. sql_return ())"

fun exec_ledger :: "ledger_call \<Rightarrow> unit ledger_m" where
  "exec_ledger (Call_Create i now bid chat kind turn) = done_with (create_delivery i now bid chat kind turn)"
| "exec_ledger (Call_Sending token now i) = mark_sending token now i"
| "exec_ledger (Call_Sent now i mid) = mark_sent_row now i mid"
| "exec_ledger (Call_Unknown terminal now i e) = mark_unknown_row terminal now i e"
| "exec_ledger (Call_Failed terminal now i e) = mark_failed_row terminal now i e"
| "exec_ledger (Call_Retry next_attempt token now i e) = mark_retry_row next_attempt token now i e"
| "exec_ledger (Call_Unknown_After terminal now i) = done_with (mark_unknown_after terminal now i)"
| "exec_ledger (Call_Link now i run) = link_generation now i run"
| "exec_ledger (Call_Record now sha meta chunk mid message status version) = record_turn now sha meta chunk mid message status version"
| "exec_ledger (Call_Update_Chunk now sha s revision turn chunk mid message) =
     update_turn_chunk_scoped now sha s revision turn chunk mid message"
| "exec_ledger (Call_Replace now1 now2 sha i meta revision chunk old_mid new_mid message) =
     replace_in_ledger now1 now2 sha i meta revision chunk old_mid new_mid message"
| "exec_ledger (Call_Retire terminal now own s turn op_id) = retire_turn_scoped terminal now own s turn op_id"
| "exec_ledger (Call_Mark_Status now s mid status) = mark_status now s mid status"
| "exec_ledger (Call_Freeze to_text of_text now op_id s turn fp v ids) =
     done_with (freeze_target to_text of_text now op_id s turn fp v ids)"
| "exec_ledger (Call_Cas now op_id s expected nxt) = cas_target_status now op_id s expected nxt"

fun ledger_run :: "(ledger_call \<times> bool list) list \<Rightarrow> delivery_tables \<Rightarrow> delivery_tables" where
  "ledger_run [] t = t"
| "ledger_run ((c, fs) # cs) t = ledger_run cs (db_tables (snd (exec_ledger c \<lparr>db_tables = t, db_faults = fs\<rparr>)))"

lemma evolves_done [intro!]: "sql_evolves ledger_follows m \<Longrightarrow> sql_evolves ledger_follows (done_with m)"
  unfolding done_with_def by auto

lemma evolves_replace_in_ledger [intro!]:
  "sql_evolves ledger_follows (replace_in_ledger now1 now2 sha i meta revision chunk old_mid new_mid message)"
  unfolding replace_in_ledger_def
  by (rule evolves_bind_lift ledger.evolves_bind evolves_begin evolves_commit evolves_replace_statements | assumption)+

lemma evolves_exec_ledger: "sql_evolves ledger_follows (exec_ledger c)"
  by (cases c) auto

lemma ledger_run_follows: "ledger_follows t (ledger_run cs t)"
proof (induction cs t rule: ledger_run.induct)
  case (1 t)
  show ?case by (simp add: ledger.refl)
next
  case (2 c fs cs t)
  have "ledger_follows t (db_tables (snd (exec_ledger c \<lparr>db_tables = t, db_faults = fs\<rparr>)))"
    using evolves_exec_ledger [of c] unfolding sql_evolves_def by (metis database.select_convs(1))
  with 2 show ?case by (auto intro: ledger.trans)
qed

section \<open>Frozen targets do not change\<close>

definition frozen_of :: "target_row \<Rightarrow> i64 list \<Rightarrow> frozen_turn_target" where
  "frozen_of r ids = \<lparr> ft_operation_id = tg_operation_id r, ft_scope = tg_scope r, ft_target_turn_id = tg_target_turn_id r,
     ft_tail_fingerprint = tg_tail_fingerprint r, ft_target_revision = word_of_int (tg_target_revision r),
     ft_old_message_ids = ids, ft_status = tg_status r \<rparr>"

definition freezes ::
    "(string \<Rightarrow> i64 list option) \<Rightarrow> target_row \<Rightarrow> string \<Rightarrow> turn_scope \<Rightarrow> string \<Rightarrow> string \<Rightarrow> u64 \<Rightarrow> i64 list \<Rightarrow> bool" where
  "freezes of_text r op_id s turn fp v ids \<longleftrightarrow>
     tg_operation_id r = op_id \<and> tg_scope r = s \<and> tg_target_turn_id r = turn \<and> tg_tail_fingerprint r = fp
     \<and> 0 \<le> tg_target_revision r \<and> word_of_int (tg_target_revision r) = v \<and> of_text (tg_old_message_ids r) = Some ids
     \<and> lower_hex64 fp \<and> (\<forall>i \<in> set ids. 0 < i)"

lemma find_unique:
  assumes "distinct (map key xs)" "r \<in> set xs" "Q r" "\<And>x. Q x \<Longrightarrow> key x = key r"
  shows "find Q xs = Some r"
proof -
  obtain ys zs where xs: "xs = ys @ r # zs" using assms(2) split_list by fast
  with assms(1) have "x \<in> set ys \<Longrightarrow> key x \<noteq> key r" for x by (auto simp: image_iff)
  with assms(4) have "find Q ys = None" unfolding find_None_iff by blast
  with xs assms(3) show ?thesis by (simp add: find_append)
qed

lemma run_load [sql_clean]:
  "sql_run (load_frozen_target of_text op_id s) t =
     (case find (\<lambda>r. tg_operation_id r = op_id \<and> tg_scope r = s) (dt_targets t) of
        None \<Rightarrow> (Inr None, t)
      | Some r \<Rightarrow>
          (case of_text (tg_old_message_ids r) of
             None \<Rightarrow> (Inl (target_invalid conflict ''frozen Telegram target message IDs are invalid''), t)
           | Some ids \<Rightarrow>
               if (\<exists>i \<in> set ids. i \<le> 0) \<or> \<not> lower_hex64 (tg_tail_fingerprint r)
               then (Inl (target_invalid conflict ''frozen Telegram target contains invalid identity data''), t)
               else if tg_target_revision r < 0
               then (Inl (target_invalid conflict ''frozen Telegram target revision is invalid''), t)
               else (Inr (Some (frozen_of r ids)), t)))"
proof (cases "find (\<lambda>r. tg_operation_id r = op_id \<and> tg_scope r = s) (dt_targets t)")
  case (Some r)
  then have "tg_scope r = s" by (auto dest: find_in_set)
  with Some show ?thesis
    unfolding load_frozen_target_def
    by (simp add: sql_clean ok_or_def frozen_of_def split: option.split)
qed (simp add: load_frozen_target_def sql_clean)

lemma steady_ledger [sql_clean]:
  "sql_steady (insert_target r)" "sql_steady (load_frozen_target of_text op_id s)"
  by (simp_all add: insert_target_def load_frozen_target_def sql_clean)

definition new_target :: "string \<Rightarrow> string \<Rightarrow> turn_scope \<Rightarrow> string \<Rightarrow> string \<Rightarrow> i64 \<Rightarrow> string \<Rightarrow> target_row" where
  "new_target now op_id s turn fp v ids =
     \<lparr> tg_operation_id = op_id, tg_scope = s, tg_target_turn_id = turn, tg_tail_fingerprint = fp, tg_target_revision = v,
       tg_old_message_ids = ids, tg_status = ''frozen'', tg_created_at = now, tg_updated_at = now \<rparr>"

lemma run_freeze:
  assumes "to_text ids = Some js" "of_text js = Some ids" "trim op_id \<noteq> []" "trim turn \<noteq> []" "lower_hex64 fp"
    "\<forall>i \<in> set ids. 0 < i" "int (unat v) \<le> i64_max"
  shows "sql_run (freeze_target to_text of_text now op_id s turn fp v ids) t =
    (case sql_run (insert_target (new_target now op_id s turn fp (int (unat v)) js)) t of
       (Inl e, t') \<Rightarrow> (Inl e, t')
     | (Inr n, t') \<Rightarrow>
         (case sql_run (load_frozen_target of_text op_id s) t' of
            (Inl e, t2) \<Rightarrow> (Inl e, t2)
          | (Inr None, t2) \<Rightarrow> (Inl (if n = 0 then target_identity_reused else internal ''frozen Telegram target disappeared after insert''), t2)
          | (Inr (Some old), t2) \<Rightarrow>
              if n = 0 \<and> \<not> (ft_target_turn_id old = turn \<and> ft_tail_fingerprint old = fp \<and> ft_target_revision old = v
                 \<and> ft_old_message_ids old = ids)
              then (Inl target_identity_reused, t2) else (Inr old, t2)))"
  using assms
  by (auto simp: freeze_target_def new_target_def sql_clean to_i64_def ok_or_def not_less not_le
      split: sum.splits option.splits prod.splits)

lemma load_freezes:
  assumes "freezes of_text r op_id s turn fp v ids" "r \<in> set (dt_targets t)" "distinct (map tg_operation_id (dt_targets t))"
  shows "sql_run (load_frozen_target of_text op_id s) t = (Inr (Some (frozen_of r ids)), t)"
proof -
  have "find (\<lambda>r. tg_operation_id r = op_id \<and> tg_scope r = s) (dt_targets t) = Some r"
    by (rule find_unique [OF assms(3,2)]) (use assms(1) in \<open>auto simp: freezes_def\<close>)
  moreover have "\<not> (\<exists>i \<in> set ids. i \<le> 0)" using assms(1) by (auto simp: freezes_def)
  ultimately show ?thesis
    using assms(1) unfolding run_load freezes_def by simp
qed

text \<open>A frozen row answers every later request for its operation: the same data gives the row back,
  other data is refused.\<close>

lemma run_freeze_again:
  assumes "freezes of_text r op_id s turn fp v ids" "r \<in> set (dt_targets t)" "distinct (map tg_operation_id (dt_targets t))"
    and "to_text ids' = Some js" "of_text js = Some ids'" "trim op_id \<noteq> []" "trim turn' \<noteq> []" "lower_hex64 fp'"
    "\<forall>i \<in> set ids'. 0 < i" "int (unat v') \<le> i64_max"
  shows "sql_run (freeze_target to_text of_text now op_id s turn' fp' v' ids') t =
    (if turn' = turn \<and> fp' = fp \<and> v' = v \<and> ids' = ids then Inr (frozen_of r ids) else Inl target_identity_reused, t)"
proof -
  have "op_id \<in> tg_operation_id ` set (dt_targets t)"
    using assms(1,2) by (auto simp: freezes_def)
  then have "sql_run (insert_target (new_target now op_id s turn' fp' (int (unat v')) js)) t = (Inr 0, t)"
    by (simp add: insert_target_def new_target_def sql_clean)
  moreover have "frozen_of r ids = frozen_of r ids \<and> ft_target_turn_id (frozen_of r ids) = turn
    \<and> ft_tail_fingerprint (frozen_of r ids) = fp \<and> ft_target_revision (frozen_of r ids) = v
    \<and> ft_old_message_ids (frozen_of r ids) = ids"
    using assms(1) by (simp add: freezes_def frozen_of_def)
  ultimately show ?thesis
    unfolding run_freeze [of to_text ids' js of_text, OF assms(4-10)] using load_freezes [OF assms(1-3)] by auto
qed

definition freeze_valid :: "string \<Rightarrow> string \<Rightarrow> string \<Rightarrow> u64 \<Rightarrow> i64 list \<Rightarrow> bool" where
  "freeze_valid op_id turn fp v ids \<longleftrightarrow> trim op_id \<noteq> [] \<and> trim turn \<noteq> [] \<and> lower_hex64 fp
     \<and> (\<forall>i \<in> set ids. 0 < i) \<and> int (unat v) \<le> i64_max"

lemma freeze_invalid:
  "\<not> freeze_valid op_id turn fp v ids \<Longrightarrow> \<exists>e. sql_run (freeze_target to_text of_text now op_id s turn fp v ids) t = (Inl e, t)"
  by (auto simp: freeze_valid_def freeze_target_def sql_clean to_i64_def)

lemma freeze_first:
  assumes codec: "to_text ids = Some js" "of_text js = Some ids"
    and run: "sql_run (freeze_target to_text of_text now op_id s turn fp v ids) t = (Inr ft, t')"
    and d: "distinct (map tg_operation_id (dt_targets t))"
  obtains r where "freezes of_text r op_id s turn fp v ids" "r \<in> set (dt_targets t')" "ft = frozen_of r ids"
    "distinct (map tg_operation_id (dt_targets t'))" "freeze_valid op_id turn fp v ids"
proof -
  let ?r = "new_target now op_id s turn fp (int (unat v)) js"
  have valid: "freeze_valid op_id turn fp v ids"
    using freeze_invalid [of op_id turn fp v ids to_text of_text now s t] run by auto
  then have v: "trim op_id \<noteq> []" "trim turn \<noteq> []" "lower_hex64 fp" "\<forall>i \<in> set ids. 0 < i" "int (unat v) \<le> i64_max"
    by (simp_all add: freeze_valid_def)
  note run' = run [unfolded run_freeze [of to_text ids js of_text, OF codec v]]
  show thesis
  proof (cases "op_id \<in> tg_operation_id ` set (dt_targets t)")
    case True
    then have "sql_run (insert_target ?r) t = (Inr 0, t)"
      by (simp add: insert_target_def new_target_def sql_clean)
    with run' obtain r where r: "find (\<lambda>r. tg_operation_id r = op_id \<and> tg_scope r = s) (dt_targets t) = Some r"
      "of_text (tg_old_message_ids r) = Some ids" "ft = frozen_of r ids" "t' = t" "tg_target_turn_id r = turn"
      "tg_tail_fingerprint r = fp" "\<not> tg_target_revision r < 0" "word_of_int (tg_target_revision r) = v"
      by (auto simp: run_load frozen_of_def split: option.splits if_splits)
    moreover from this have "r \<in> set (dt_targets t)" "tg_operation_id r = op_id" "tg_scope r = s"
      by (auto dest: find_in_set)
    ultimately show thesis
      using v d valid by (intro that [of r]) (auto simp: freezes_def)
  next
    case False
    have "freezes of_text ?r op_id s turn fp v ids"
      using codec v by (simp add: freezes_def new_target_def)
    moreover from False run' have ins: "sql_run (insert_target ?r) t = (Inr 1, t\<lparr>dt_targets := dt_targets t @ [?r]\<rparr>)"
      by (auto simp: insert_target_def new_target_def sql_clean split: if_splits)
    moreover have "distinct (map tg_operation_id (dt_targets t @ [?r]))"
      using d False by (auto simp: new_target_def)
    moreover from calculation have "sql_run (load_frozen_target of_text op_id s) (t\<lparr>dt_targets := dt_targets t @ [?r]\<rparr>)
      = (Inr (Some (frozen_of ?r ids)), t\<lparr>dt_targets := dt_targets t @ [?r]\<rparr>)"
      by (intro load_freezes) auto
    ultimately show thesis
      using run' valid by (intro that [of ?r]) auto
  qed
qed

text \<open>C22. The target a redo or revoke has frozen cannot be exchanged: after a successful \<^verbatim>\<open>freeze_target\<close> and
  any sequence of calls of the ledger's methods, among them further calls of \<^verbatim>\<open>freeze_target\<close> and
  \<^verbatim>\<open>cas_target_status\<close> for the same operation, with whatever statements failing, asking again with the
  same data returns the same target, of which only the status has moved on from frozen over applying to
  one of its ends, and asking with other data fails; neither changes the tables. The text encoding of
  the message ids must read back and operation ids be distinct, as the primary key ensures.\<close>

theorem frozen_target_immutable:
  assumes codec: "\<forall>xs. \<exists>js. to_text xs = Some js \<and> of_text js = Some xs"
    and first: "sql_run (freeze_target to_text of_text now op_id s turn fp v ids) t = (Inr ft, t1)"
    and distinct: "distinct (map tg_operation_id (dt_targets t))"
    and later: "t2 = ledger_run calls t1"
  shows "\<exists>st. target_le (ft_status ft) st
    \<and> sql_run (freeze_target to_text of_text now' op_id s turn fp v ids) t2 = (Inr (ft\<lparr>ft_status := st\<rparr>), t2)
    \<and> (\<forall>turn' fp' v' ids'. (turn', fp', v', ids') \<noteq> (turn, fp, v, ids) \<longrightarrow>
         (\<exists>e. sql_run (freeze_target to_text of_text now' op_id s turn' fp' v' ids') t2 = (Inl e, t2)))"
proof -
  obtain js where js: "to_text ids = Some js" "of_text js = Some ids" using codec by blast
  from js first distinct obtain r where r: "freezes of_text r op_id s turn fp v ids" "r \<in> set (dt_targets t1)"
    "ft = frozen_of r ids" "distinct (map tg_operation_id (dt_targets t1))" "freeze_valid op_id turn fp v ids"
    by (rule freeze_first)
  have "\<exists>r' \<in> set (dt_targets t2). tg_operation_id r' = tg_operation_id r \<and> target_follows r r'"
    and d2: "distinct (map tg_operation_id (dt_targets t2))"
    using ledger_run_follows [of t1 calls] later r(2,4) by (auto simp: ledger_follows_def rows_follow_def list_all_iff)
  then obtain r' where r': "r' \<in> set (dt_targets t2)" "target_follows r r'" by blast
  then have same: "r'\<lparr>tg_status := tg_status r, tg_updated_at := tg_updated_at r\<rparr> = r"
    and le: "target_le (tg_status r) (tg_status r')"
    by (simp_all add: target_follows_def)
  have f': "freezes of_text r' op_id s turn fp v ids"
    using r(1) by (subst (asm) same [symmetric]) (simp add: freezes_def)
  have ft': "frozen_of r' ids = ft\<lparr>ft_status := tg_status r'\<rparr>"
    unfolding r(3) by (subst same [symmetric]) (simp add: frozen_of_def)
  note again = run_freeze_again [OF f' r'(1) d2]
  have "sql_run (freeze_target to_text of_text now' op_id s turn fp v ids) t2 = (Inr (frozen_of r' ids), t2)"
    using r(5) again [of to_text ids js turn fp v now'] js by (simp add: freeze_valid_def)
  moreover have "\<exists>e. sql_run (freeze_target to_text of_text now' op_id s turn' fp' v' ids') t2 = (Inl e, t2)"
    if "(turn', fp', v', ids') \<noteq> (turn, fp, v, ids)" for turn' fp' v' ids'
  proof (cases "freeze_valid op_id turn' fp' v' ids'")
    case True
    obtain js' where "to_text ids' = Some js'" "of_text js' = Some ids'" using codec by blast
    with True that again [of to_text ids' js' turn' fp' v' now'] show ?thesis
      by (auto simp: freeze_valid_def)
  qed (rule freeze_invalid)
  ultimately show ?thesis
    using le r(3) unfolding ft' by (auto simp: frozen_of_def)
qed

text \<open>A codec for the message ids and a scope.\<close>

definition demo_to_text :: "i64 list \<Rightarrow> string option" where
  "demo_to_text xs = Some (replicate (to_nat xs) CHR ''1'')"

definition demo_of_text :: "string \<Rightarrow> i64 list option" where
  "demo_of_text s = Some (from_nat (length s))"

definition demo_scope :: turn_scope where
  "demo_scope = \<lparr> ts_account_id = ''acc'', ts_internal_bot_id = ''b1'', ts_numeric_bot_id = 7, ts_chat_id = 42,
     ts_locator_hash = replicate 64 CHR ''a'' \<rparr>"

definition demo_ledger :: delivery_tables where
  "demo_ledger = \<lparr> dt_deliveries = [], dt_turns = [], dt_targets = [], dt_bots = [''b1''], dt_operations = [''op''] \<rparr>"

lemma demo_codec: "\<forall>xs. \<exists>js. demo_to_text xs = Some js \<and> demo_of_text js = Some xs"
  by (simp add: demo_to_text_def demo_of_text_def)

lemma demo_hash: "lower_hex64 (replicate 64 CHR ''a'')" "trim ''op'' \<noteq> []" "trim ''t1'' \<noteq> []" "trim ''t2'' \<noteq> []"
  by code_simp+

definition demo_target :: target_row where
  "demo_target = new_target ''n'' ''op'' demo_scope ''t1'' (replicate 64 CHR ''a'') 3 (the (demo_to_text [5, 6]))"

lemma demo_freeze:
  "sql_run (freeze_target demo_to_text demo_of_text ''n'' ''op'' demo_scope ''t1'' (replicate 64 CHR ''a'') 3 [5, 6]) demo_ledger
    = (Inr (frozen_of demo_target [5, 6]), demo_ledger\<lparr>dt_targets := [demo_target]\<rparr>)"
  by (subst run_freeze [of demo_to_text "[5, 6]" "the (demo_to_text [5, 6])"])
     (use demo_hash in \<open>simp_all add: demo_to_text_def demo_of_text_def demo_ledger_def demo_target_def new_target_def
        insert_target_def sql_clean frozen_of_def demo_scope_def i64_max_def\<close>)

text \<open>The frozen target is applied, and somebody tries to freeze another one for the same operation.\<close>

definition demo_calls :: "(ledger_call \<times> bool list) list" where
  "demo_calls = [(Call_Cas ''u'' ''op'' demo_scope ''frozen'' ''applying'', []),
     (Call_Freeze demo_to_text demo_of_text ''u'' ''op'' demo_scope ''t2'' (replicate 64 CHR ''a'') 3 [7], []),
     (Call_Cas ''u'' ''op'' demo_scope ''applying'' ''applied'', [True])]"

lemma demo_calls_run:
  "ledger_run demo_calls (demo_ledger\<lparr>dt_targets := [demo_target]\<rparr>)
    = demo_ledger\<lparr>dt_targets := [demo_target\<lparr>tg_status := ''applying'', tg_updated_at := ''u''\<rparr>]\<rparr>"
proof -
  let ?r = "demo_target\<lparr>tg_status := ''applying'', tg_updated_at := ''u''\<rparr>"
  have "snd (sql_run (freeze_target demo_to_text demo_of_text ''u'' ''op'' demo_scope ''t2'' (replicate 64 CHR ''a'') 3 [7])
      (demo_ledger\<lparr>dt_targets := [?r]\<rparr>)) = demo_ledger\<lparr>dt_targets := [?r]\<rparr>"
    by (subst run_freeze_again [of demo_of_text ?r "''op''" demo_scope "''t1''" "replicate 64 CHR ''a''" 3 "[5, 6]" _ demo_to_text "[7]"])
       (use demo_hash in \<open>auto simp: freezes_def demo_target_def new_target_def demo_to_text_def demo_of_text_def i64_max_def\<close>)
  then have "db_tables (snd (done_with (freeze_target demo_to_text demo_of_text ''u'' ''op'' demo_scope ''t2'' (replicate 64 CHR ''a'') 3 [7])
      \<lparr>db_tables = demo_ledger\<lparr>dt_targets := [?r]\<rparr>, db_faults = []\<rparr>)) = demo_ledger\<lparr>dt_targets := [?r]\<rparr>"
    by (auto simp: done_with_def sql_run_def sql_bind_def sql_return_def split: prod.splits sum.splits)
  then show ?thesis
    by (simp add: demo_calls_def cas_target_status_def one_row_def update_targets_def sql_bind_def sql_stmt_def sql_return_def
        sql_lift_def sql_update_def demo_target_def new_target_def)
qed

theorem frozen_target_immutable_witness:
  "\<exists>st. target_le ''frozen'' st
    \<and> sql_run (freeze_target demo_to_text demo_of_text ''m'' ''op'' demo_scope ''t1'' (replicate 64 CHR ''a'') 3 [5, 6])
        (ledger_run demo_calls (demo_ledger\<lparr>dt_targets := [demo_target]\<rparr>))
      = (Inr (frozen_of demo_target [5, 6]\<lparr>ft_status := st\<rparr>), demo_ledger\<lparr>dt_targets := [demo_target\<lparr>tg_status := ''applying'', tg_updated_at := ''u''\<rparr>]\<rparr>)"
proof -
  have "ft_status (frozen_of demo_target [5, 6]) = ''frozen''"
    by (simp add: frozen_of_def demo_target_def new_target_def)
  moreover have "distinct (map tg_operation_id (dt_targets demo_ledger))"
    by (simp add: demo_ledger_def)
  ultimately show ?thesis
    using frozen_target_immutable [OF demo_codec demo_freeze _ refl, where calls = demo_calls and now' = "''m''"] unfolding demo_calls_run by metis
qed

end
