(* ===== verification/Telegram_Delivery.thy ===== *)
theory Telegram_Delivery
  imports Delivery_Ledger Delivery_Queue Telegram_Panel
begin

text \<open>
  The sending side of \<^verbatim>\<open>src/modules/telegram/delivery.rs\<close>. A method of \<^verbatim>\<open>TelegramDelivery\<close> is a task: it takes a
  world (the database, the rate limiter, the remote service, the requests made so far and the
  progress of a streamed reply) to an outcome and the world afterwards. At every \<^verbatim>\<open>await\<close> the other
  tasks of the process may act on the tables and the rate limiter; what they do, what the service
  answers, clock readings and fresh identifiers are functions of the environment.
\<close>

named_theorems task_defs \<open>unfolding tasks\<close>

section \<open>Tasks\<close>

text \<open>\<^verbatim>\<open>call\<close> may unwind, because \<^verbatim>\<open>redact_detail\<close> may panic, and a task may loop for ever.\<close>

datatype 'a outcome = Finished "'a app_result" | Unwound | Never_returns

datatype http_reply = Request_failed | Body_invalid string | Response nat json

record progress_state =
  pg_stream :: stream_state
  pg_accumulated_text :: string
  pg_finalized :: bool
  pg_render_version :: u64

record 'r delivery_world =
  dw_db :: "delivery_tables database"
  dw_queue :: delivery_coordinator
  dw_remote :: 'r
  dw_requests :: "(string \<times> json \<times> http_reply) list"
  dw_progress :: progress_state
  dw_tick :: nat

record telegram_delivery =
  td_token :: string
  td_api_base :: string
  td_bot_id :: string
  td_numeric_bot_id :: i64
  td_chat_id :: i64
  td_inter_message_delay :: nat
  td_policy :: stream_policy

datatype retry_time = Out_of_range | Unformattable | Timestamp string

record 'r delivery_env = telegram_delivery +
  de_now :: "nat \<Rightarrow> string"
  de_new_id :: "nat \<Rightarrow> string"
  de_instant :: "nat \<Rightarrow> nat"
  de_instant_max :: nat
  de_cooldown_clock :: "nat \<Rightarrow> cooldown_clock"
  de_retry_time :: "nat \<Rightarrow> nat \<Rightarrow> retry_time"
  de_sha256_hex :: "string \<Rightarrow> string"
  de_sql_error :: string
  de_post :: "string \<Rightarrow> json \<Rightarrow> 'r \<Rightarrow> http_reply \<times> 'r"
  de_iter :: "nat \<Rightarrow> (string \<times> pending_delivery) list \<Rightarrow> (string \<times> pending_delivery) list"
  de_probe :: "nat \<Rightarrow> pending_delivery \<Rightarrow> bool \<times> nat"
  de_others :: "nat \<Rightarrow> delivery_tables \<Rightarrow> delivery_coordinator \<Rightarrow> delivery_tables \<times> delivery_coordinator"

type_synonym ('r, 'a) task = "'r delivery_world \<Rightarrow> 'a outcome \<times> 'r delivery_world"

abbreviation tables_of :: "'r delivery_world \<Rightarrow> delivery_tables" where
  "tables_of w \<equiv> db_tables (dw_db w)"

definition task_lift :: "'a app_result \<Rightarrow> ('r, 'a) task" where [task_defs]:
  "task_lift r w = (Finished r, w)"

abbreviation task_return :: "'a \<Rightarrow> ('r, 'a) task" where
  "task_return a \<equiv> task_lift (Inr a)"

text \<open>\<^verbatim>\<open>match task.await { .. }\<close> and \<^verbatim>\<open>task.await?\<close>.\<close>

definition task_try :: "('r, 'a) task \<Rightarrow> ('a app_result \<Rightarrow> ('r, 'b) task) \<Rightarrow> ('r, 'b) task" where [task_defs]:
  "task_try m f w =
     (case m w of
        (Finished r, w') \<Rightarrow> f r w'
      | (Unwound, w') \<Rightarrow> (Unwound, w')
      | (Never_returns, w') \<Rightarrow> (Never_returns, w'))"

definition task_bind :: "('r, 'a) task \<Rightarrow> ('a \<Rightarrow> ('r, 'b) task) \<Rightarrow> ('r, 'b) task" where
  "task_bind m f = task_try m (\<lambda>r. case r of Inl e \<Rightarrow> task_lift (Inl e) | Inr a \<Rightarrow> f a)"

definition task_call :: "'a call \<Rightarrow> ('r, 'a) task" where [task_defs]:
  "task_call c w = (case c of Returns a \<Rightarrow> (Finished (Inr a), w) | Panicked \<Rightarrow> (Unwound, w))"

definition fresh :: "(nat \<Rightarrow> 'a) \<Rightarrow> ('r, 'a) task" where [task_defs]:
  "fresh f w = (Finished (Inr (f (dw_tick w))), w\<lparr>dw_tick := Suc (dw_tick w)\<rparr>)"

text \<open>A point where other tasks run.\<close>

definition others :: "'r delivery_env \<Rightarrow> 'r delivery_world \<Rightarrow> 'r delivery_world" where
  "others E w =
     (case de_others E (dw_tick w) (tables_of w) (dw_queue w) of
        (t, q) \<Rightarrow> w\<lparr>dw_db := (dw_db w)\<lparr>db_tables := t\<rparr>, dw_queue := q, dw_tick := Suc (dw_tick w)\<rparr>)"

definition pause :: "'r delivery_env \<Rightarrow> ('r, unit) task" where [task_defs]:
  "pause E w = (Finished (Inr ()), others E w)"

definition db_query :: "'r delivery_env \<Rightarrow> 'a ledger_m \<Rightarrow> ('r, 'a) task" where [task_defs]:
  "db_query E m w = (case m (dw_db (others E w)) of (r, db) \<Rightarrow> (Finished r, (others E w)\<lparr>dw_db := db\<rparr>))"

definition on_queue :: "'r delivery_env \<Rightarrow> (nat \<Rightarrow> delivery_coordinator \<Rightarrow> 'a \<times> delivery_coordinator) \<Rightarrow> ('r, 'a) task" where [task_defs]:
  "on_queue E f w =
     (let w' = others E w in
      case f (dw_tick w') (dw_queue w') of (a, q) \<Rightarrow> (Finished (Inr a), w'\<lparr>dw_queue := q, dw_tick := Suc (dw_tick w')\<rparr>))"

definition queue_forget :: "'r delivery_env \<Rightarrow> string \<Rightarrow> ('r, unit) task" where
  "queue_forget E i = on_queue E (\<lambda>_ q. ((), forget_pending i q))"

definition queue_enqueue :: "'r delivery_env \<Rightarrow> string \<Rightarrow> ('r, unit) task" where
  "queue_enqueue E i = on_queue E (\<lambda>_ q. ((), enqueue_pending i (td_bot_id E) (td_chat_id E) q))"

section \<open>Calls to the service\<close>

definition new_with_coordinator ::
    "string \<Rightarrow> string \<Rightarrow> string \<Rightarrow> i64 \<Rightarrow> i64 \<Rightarrow> i64 \<Rightarrow> i64 \<Rightarrow> i64 \<Rightarrow> i64 \<Rightarrow> i64 \<Rightarrow> telegram_delivery" where
  "new_with_coordinator token api_base bid nbot chat delay_ms interval_ms delta first_render chunk =
     \<lparr> td_token = token, td_api_base = rev (dropWhile (\<lambda>c. c = CHR ''/'') (rev api_base)), td_bot_id = bid,
       td_numeric_bot_id = nbot, td_chat_id = chat, td_inter_message_delay = nat (max delay_ms 0),
       td_policy = \<lparr> min_interval_ms = nat (max interval_ms 0), min_delta_chars = nat (max delta 1),
          first_render_chars = nat (max first_render 1), chunk_size = nat (min (max chunk 1) 4000) \<rparr> \<rparr>"

text \<open>\<^verbatim>\<open>DeliveryCoordinator::wait\<close>: between two looks at the cooldown it sleeps.\<close>

definition cooldown_view :: "'r delivery_env \<Rightarrow> 'r delivery_world \<Rightarrow> nat \<Rightarrow> nat \<times> delivery_coordinator" where
  "cooldown_view E w n =
     (let w' = (others E ^^ Suc n) w in (de_instant E (dw_tick w'), dw_queue w'))"

definition wait_for_cooldown :: "'r delivery_env \<Rightarrow> ('r, unit) task" where
  "wait_for_cooldown E w =
     (case wait_loop (cooldown_view E w) (td_bot_id E) (td_chat_id E) 0 of
        None \<Rightarrow> (Never_returns, w)
      | Some n \<Rightarrow> (Finished (Inr ()), (others E ^^ Suc n) w))"

definition set_cooldown :: "'r delivery_env \<Rightarrow> nat \<Rightarrow> ('r, unit) task" where
  "set_cooldown E secs = on_queue E (\<lambda>n q.
     ((), set_cooldown_secs (de_instant_max E) (de_cooldown_clock E n) (td_bot_id E) (td_chat_id E) secs q))"

definition api_url :: "'r delivery_env \<Rightarrow> string \<Rightarrow> string" where
  "api_url E meth = td_api_base E @ ''/bot'' @ td_token E @ ''/'' @ meth"

definition post :: "'r delivery_env \<Rightarrow> string \<Rightarrow> json \<Rightarrow> ('r, http_reply) task" where [task_defs]:
  "post E meth body w =
     (case de_post E (api_url E meth) body (dw_remote w) of
        (reply, x) \<Rightarrow> (Finished (Inr reply),
            others E (w\<lparr>dw_remote := x, dw_requests := dw_requests w @ [(meth, body, reply)]\<rparr>)))"

definition safe_telegram_description :: "string option \<Rightarrow> string \<Rightarrow> string call" where
  "safe_telegram_description v fallback =
     (case v of
        None \<Rightarrow> Returns fallback
      | Some s \<Rightarrow> map_call (\<lambda>d. case d of Some x \<Rightarrow> x | None \<Rightarrow> fallback) (redact_detail s))"

definition is_rate_limited :: "nat \<Rightarrow> json \<Rightarrow> bool" where
  "is_rate_limited status payload \<longleftrightarrow> status = 429 \<or> get_i64 payload ''error_code'' = Some 429"

definition reply_retry_after :: "json \<Rightarrow> nat" where
  "reply_retry_after payload =
     (case Option.bind (json_pointer payload [''parameters'', ''retry_after'']) as_u64 of Some n \<Rightarrow> n | None \<Rightarrow> 1)"

definition rate_limit_error :: "string \<Rightarrow> nat \<Rightarrow> app_error" where
  "rate_limit_error description n = bad_gateway ''TELEGRAM_RATE_LIMITED'' (description @ ''; retry_after='' @ nat_to_string n)"

definition read_reply :: "'r delivery_env \<Rightarrow> http_reply \<Rightarrow> ('r, json) task" where
  "read_reply E reply =
     (case reply of
        Request_failed \<Rightarrow> task_lift (Inl (bad_gateway ''TELEGRAM_REQUEST_FAILED'' ''Telegram request failed''))
      | Body_invalid err \<Rightarrow> task_lift (Inl (bad_gateway ''TELEGRAM_RESPONSE_INVALID'' err))
      | Response status payload \<Rightarrow>
          if is_rate_limited status payload then
            task_bind (set_cooldown E (reply_retry_after payload)) (\<lambda>_.
            task_bind (task_call (safe_telegram_description (get_str payload ''description'') ''Telegram API rate limited'')) (\<lambda>description.
            task_lift (Inl (rate_limit_error description (reply_retry_after payload)))))
          else if \<not> (200 \<le> status \<and> status < 300) \<or> get_bool payload ''ok'' \<noteq> Some True then
            task_bind (task_call (safe_telegram_description (get_str payload ''description'') ''Telegram API request failed'')) (\<lambda>description.
            task_lift (Inl (bad_gateway ''TELEGRAM_API_ERROR'' description)))
          else task_return (case json_get payload ''result'' of Some r \<Rightarrow> r | None \<Rightarrow> JNull))"

definition api_call :: "'r delivery_env \<Rightarrow> string \<Rightarrow> json \<Rightarrow> ('r, json) task" where
  "api_call E meth body = task_bind (wait_for_cooldown E) (\<lambda>_. task_bind (post E meth body) (read_reply E))"

definition json_i64 :: "i64 \<Rightarrow> json" where
  "json_i64 i = JNumber (if i < 0 then NegInt i else PosInt (nat i))"

definition message_id_of :: "json \<Rightarrow> i64 app_result" where
  "message_id_of result =
     ok_or (bad_gateway ''TELEGRAM_RESPONSE_INVALID'' ''sendMessage returned no message_id'')
       (Option.bind (json_pointer result [''message_id'']) as_i64)"

definition message_body :: "i64 \<Rightarrow> string \<Rightarrow> json option \<Rightarrow> json" where
  "message_body chat message markup =
     JObject ([(''chat_id'', json_i64 chat), (''text'', JString message)]
       @ (case markup of Some m \<Rightarrow> [(''reply_markup'', m)] | None \<Rightarrow> []))"

definition send_message :: "'r delivery_env \<Rightarrow> string \<Rightarrow> json option \<Rightarrow> ('r, i64) task" where
  "send_message E message markup =
     task_bind (api_call E ''sendMessage'' (message_body (td_chat_id E) message markup)) (\<lambda>result.
     task_lift (message_id_of result))"

definition unmodified_is_ok :: "('r, json) task \<Rightarrow> ('r, unit) task" where
  "unmodified_is_ok m = task_try m (\<lambda>r. case r of
       Inr _ \<Rightarrow> task_return ()
     | Inl e \<Rightarrow> if contains_str (app_message e) ''message is not modified'' then task_return () else task_lift (Inl e))"

definition edit_message :: "'r delivery_env \<Rightarrow> i64 \<Rightarrow> string \<Rightarrow> ('r, unit) task" where
  "edit_message E mid message = unmodified_is_ok (api_call E ''editMessageText''
     (JObject [(''chat_id'', json_i64 (td_chat_id E)), (''message_id'', json_i64 mid), (''text'', JString message)]))"

definition numeric_bot_id :: "'r delivery_env \<Rightarrow> i64 app_result" where
  "numeric_bot_id E =
     (if td_numeric_bot_id E \<le> 0
      then Inl (service_unavailable ''TELEGRAM_BOT_SCOPE_UNAVAILABLE'' ''Telegram numeric bot scope is unavailable'')
      else Inr (td_numeric_bot_id E))"

definition delete_message_in_chat :: "'r delivery_env \<Rightarrow> i64 \<Rightarrow> i64 \<Rightarrow> ('r, unit) task" where
  "delete_message_in_chat E chat mid =
     task_bind (api_call E ''deleteMessage'' (JObject [(''chat_id'', json_i64 chat), (''message_id'', json_i64 mid)])) (\<lambda>_.
     task_return ())"

definition delete_message :: "'r delivery_env \<Rightarrow> i64 \<Rightarrow> ('r, unit) task" where
  "delete_message E mid = delete_message_in_chat E (td_chat_id E) mid"

definition answer_callback_query :: "'r delivery_env \<Rightarrow> string \<Rightarrow> string option \<Rightarrow> bool \<Rightarrow> ('r, unit) task" where
  "answer_callback_query E query_id toast alert =
     task_bind (api_call E ''answerCallbackQuery''
       (JObject ([(''callback_query_id'', JString query_id), (''show_alert'', JBool alert)]
          @ (case toast of Some s \<Rightarrow> [(''text'', JString s)] | None \<Rightarrow> [])))) (\<lambda>_. task_return ())"

section \<open>Delivery records\<close>

definition create_record :: "'r delivery_env \<Rightarrow> string \<Rightarrow> string option \<Rightarrow> ('r, string) task" where
  "create_record E kind turn =
     task_bind (fresh (de_new_id E)) (\<lambda>i. task_bind (fresh (de_now E)) (\<lambda>now.
     db_query E (create_delivery i now (td_bot_id E) (td_chat_id E) kind turn)))"

definition start_sending :: "'r delivery_env \<Rightarrow> string \<Rightarrow> ('r, unit) task" where
  "start_sending E i =
     task_bind (fresh (de_new_id E)) (\<lambda>token. task_bind (fresh (de_now E)) (\<lambda>now. db_query E (mark_sending token now i)))"

definition mark_sent_result :: "'r delivery_env \<Rightarrow> string \<Rightarrow> i64 \<Rightarrow> ('r, unit) task" where
  "mark_sent_result E i mid =
     task_bind (fresh (de_now E)) (\<lambda>now. task_bind (db_query E (mark_sent_row now i mid)) (\<lambda>_. queue_forget E i))"

definition mark_delivery_unknown :: "'r delivery_env \<Rightarrow> string \<Rightarrow> app_error \<Rightarrow> ('r, unit) task" where
  "mark_delivery_unknown E i err =
     task_bind (fresh (de_now E)) (\<lambda>terminal. task_bind (fresh (de_now E)) (\<lambda>now.
     task_bind (db_query E (mark_unknown_row terminal now i err)) (\<lambda>_. queue_forget E i)))"

definition mark_delivery_failed :: "'r delivery_env \<Rightarrow> string \<Rightarrow> app_error \<Rightarrow> ('r, unit) task" where
  "mark_delivery_failed E i err =
     task_bind (fresh (de_now E)) (\<lambda>terminal. task_bind (fresh (de_now E)) (\<lambda>now.
     task_bind (db_query E (mark_failed_row terminal now i err)) (\<lambda>_. queue_forget E i)))"

text \<open>\<^verbatim>\<open>split_whitespace().next()\<close>.\<close>

definition first_word :: "string \<Rightarrow> string option" where
  "first_word s =
     (let t = trim_start s in
      if t = [] then None
      else Some (case find_at (\<lambda>u. 0 < ws_len u) t of Some n \<Rightarrow> take n t | None \<Rightarrow> t))"

definition retry_after_seconds :: "app_error \<Rightarrow> nat" where
  "retry_after_seconds err =
     (case split_str ''retry_after='' (app_message err) of
        _ # s # _ \<Rightarrow> (case Option.bind (first_word s) parse_usize of Some n \<Rightarrow> n | None \<Rightarrow> 1)
      | _ \<Rightarrow> 1)"

definition retry_after_invalid :: "string \<Rightarrow> app_error" where
  "retry_after_invalid msg = bad_gateway ''TELEGRAM_RETRY_AFTER_INVALID'' msg"

definition retry_at_rfc3339 :: "'r delivery_env \<Rightarrow> nat \<Rightarrow> ('r, string) task" where
  "retry_at_rfc3339 E secs =
     (if i64_max < int secs then task_lift (Inl (retry_after_invalid ''Telegram retry_after exceeds the supported range''))
      else task_bind (fresh (de_retry_time E)) (\<lambda>f.
        task_lift (case f secs of
           Out_of_range \<Rightarrow> Inl (retry_after_invalid ''Telegram retry_after produces an out-of-range timestamp'')
         | Unformattable \<Rightarrow> Inl (retry_after_invalid ''Telegram retry_after produces an invalid timestamp'')
         | Timestamp s \<Rightarrow> Inr s)))"

definition mark_retry_pending :: "'r delivery_env \<Rightarrow> string \<Rightarrow> app_error \<Rightarrow> ('r, unit) task" where
  "mark_retry_pending E i err =
     task_bind (retry_at_rfc3339 E (retry_after_seconds err)) (\<lambda>next_attempt.
     task_bind (fresh (de_new_id E)) (\<lambda>token. task_bind (fresh (de_now E)) (\<lambda>now.
     task_bind (db_query E (mark_retry_row next_attempt token now i err)) (\<lambda>_. queue_enqueue E i))))"

definition mark_unknown_after_persistence_failure :: "'r delivery_env \<Rightarrow> string \<Rightarrow> app_error \<Rightarrow> ('r, app_error) task" where
  "mark_unknown_after_persistence_failure E i err =
     task_bind (queue_forget E i) (\<lambda>_.
     task_bind (fresh (de_now E)) (\<lambda>terminal. task_bind (fresh (de_now E)) (\<lambda>now.
     task_try (db_query E (mark_unknown_after terminal now i)) (\<lambda>r. task_return (case r of
       Inr n \<Rightarrow> conflict UNKNOWN_CODE (''persistence_error='' @ app_code err
           @ (if n = 1 then ''; delivery_state=unknown'' else ''; unknown_state_persistence_not_confirmed''))
     | Inl _ \<Rightarrow> internal (''persistence_error='' @ app_code err @ ''; unknown_state_error='' @ de_sql_error E))))))"

definition fail_unknown :: "'r delivery_env \<Rightarrow> string \<Rightarrow> app_error \<Rightarrow> ('r, 'a) task" where
  "fail_unknown E i err = task_bind (mark_unknown_after_persistence_failure E i err) (\<lambda>e. task_lift (Inl e))"

definition or_unknown :: "'r delivery_env \<Rightarrow> string \<Rightarrow> ('r, 'a) task \<Rightarrow> ('a \<Rightarrow> ('r, 'b) task) \<Rightarrow> ('r, 'b) task" where
  "or_unknown E i m f = task_try m (\<lambda>r. case r of Inl err \<Rightarrow> fail_unknown E i err | Inr a \<Rightarrow> f a)"

definition mark_send_error :: "'r delivery_env \<Rightarrow> string \<Rightarrow> app_error \<Rightarrow> ('r, unit) task" where
  "mark_send_error E i err =
     (if app_code err = ''TELEGRAM_RATE_LIMITED'' then mark_retry_pending E i err
      else if app_code err = ''TELEGRAM_REQUEST_FAILED'' \<or> app_code err = ''TELEGRAM_RESPONSE_INVALID'' then mark_delivery_unknown E i err
      else mark_delivery_failed E i err)"

text \<open>\<^verbatim>\<open>send_message\<close> for a delivery: an error is recorded and then returned.\<close>

definition send_recorded :: "'r delivery_env \<Rightarrow> string \<Rightarrow> string \<Rightarrow> json option \<Rightarrow> (i64 \<Rightarrow> ('r, 'a) task) \<Rightarrow> ('r, 'a) task" where
  "send_recorded E i message markup accepted =
     task_try (send_message E message markup) (\<lambda>r. case r of
       Inr mid \<Rightarrow> accepted mid
     | Inl err \<Rightarrow> task_bind (mark_send_error E i err) (\<lambda>_. task_lift (Inl err)))"

section \<open>Replies\<close>

definition record_scoped_turn_message_with_revision ::
    "'r delivery_env \<Rightarrow> turn_metadata \<Rightarrow> nat \<Rightarrow> i64 \<Rightarrow> string \<Rightarrow> string \<Rightarrow> u64 \<Rightarrow> ('r, unit) task" where
  "record_scoped_turn_message_with_revision E meta chunk mid message status version =
     task_bind (fresh (de_now E)) (\<lambda>now.
     db_query E (record_turn now (de_sha256_hex E) meta chunk mid message status version))"

definition send_single_reply_result ::
    "'r delivery_env \<Rightarrow> string option \<Rightarrow> string \<Rightarrow> json option \<Rightarrow> ('r, i64) task" where
  "send_single_reply_result E turn message markup =
     task_bind (create_record E ''reply'' turn) (\<lambda>i.
     task_bind (start_sending E i) (\<lambda>_.
     send_recorded E i message markup (\<lambda>mid.
     or_unknown E i (mark_sent_result E i mid) (\<lambda>_. task_return mid))))"

definition send_single_scoped_result_with_revision ::
    "'r delivery_env \<Rightarrow> turn_metadata \<Rightarrow> nat \<Rightarrow> string \<Rightarrow> json option \<Rightarrow> u64 \<Rightarrow> ('r, i64) task" where
  "send_single_scoped_result_with_revision E meta chunk message markup version =
     task_bind (create_record E ''reply'' (Some (tm_operation_id meta))) (\<lambda>i.
     task_bind (start_sending E i) (\<lambda>_.
     send_recorded E i message markup (\<lambda>mid.
     or_unknown E i (record_scoped_turn_message_with_revision E meta chunk mid message ''sent'' version) (\<lambda>_.
     or_unknown E i (mark_sent_result E i mid) (\<lambda>_. task_return mid)))))"

text \<open>\<^verbatim>\<open>send_single_reply\<close>: without a record the message is sent all the same, and errors are only logged.\<close>

definition ignore :: "('r, 'a) task \<Rightarrow> ('r, unit) task" where
  "ignore m = task_try m (\<lambda>_. task_return ())"

definition send_single_reply ::
    "'r delivery_env \<Rightarrow> string option \<Rightarrow> string \<Rightarrow> json option \<Rightarrow> ('r, unit) task" where
  "send_single_reply E turn message markup =
     task_try (create_record E ''reply'' turn) (\<lambda>created. case created of
       Inl _ \<Rightarrow> ignore (send_message E message markup)
     | Inr i \<Rightarrow>
         task_try (start_sending E i) (\<lambda>started. case started of
           Inl _ \<Rightarrow> task_return ()
         | Inr _ \<Rightarrow>
             task_try (send_message E message markup) (\<lambda>r. case r of
               Inr mid \<Rightarrow> ignore (mark_sent_result E i mid)
             | Inl err \<Rightarrow> ignore (mark_send_error E i err))))"

text \<open>The loop over the chunks of a text; \<^verbatim>\<open>markup.take()\<close> gives the markup to the first chunk only.\<close>

primrec send_chunks ::
    "'r delivery_env \<Rightarrow> (nat \<Rightarrow> string \<Rightarrow> json option \<Rightarrow> ('r, 'a) task) \<Rightarrow> nat \<Rightarrow> json option \<Rightarrow> string list \<Rightarrow> ('r, 'a list) task" where
  "send_chunks E send index markup [] = task_return []"
| "send_chunks E send index markup (c # cs) =
     task_bind (if index > 0 then pause E else task_return ()) (\<lambda>_.
     task_bind (send index c markup) (\<lambda>a.
     task_bind (send_chunks E send (Suc index) None cs) (\<lambda>as.
     task_return (a # as))))"

definition with_chunks :: "'r delivery_env \<Rightarrow> string \<Rightarrow> (string list \<Rightarrow> ('r, 'a) task) \<Rightarrow> ('r, 'a) task" where
  "with_chunks E message f w =
     (case chunk_text message (chunk_size (td_policy E)) of None \<Rightarrow> (Never_returns, w) | Some cs \<Rightarrow> f cs w)"

definition send_reply_with_turn_ids ::
    "'r delivery_env \<Rightarrow> string \<Rightarrow> string \<Rightarrow> json option \<Rightarrow> ('r, i64 list) task" where
  "send_reply_with_turn_ids E turn message markup =
     with_chunks E message (send_chunks E (\<lambda>_ c m. send_single_reply_result E (Some turn) c m) 0 markup)"

definition send_reply :: "'r delivery_env \<Rightarrow> string \<Rightarrow> json option \<Rightarrow> ('r, unit) task" where
  "send_reply E message markup =
     with_chunks E message (\<lambda>cs.
       task_bind (send_chunks E (\<lambda>_ c m. send_single_reply_result E None c m) 0 markup cs) (\<lambda>_. task_return ()))"

definition send_operation_reply :: "'r delivery_env \<Rightarrow> string \<Rightarrow> string \<Rightarrow> json option \<Rightarrow> ('r, unit) task" where
  "send_operation_reply E oid message markup =
     (if trim oid = []
      then task_lift (Inl (bad_request ''TELEGRAM_OPERATION_ID_REQUIRED'' ''operation reply requires an operation id''))
      else with_chunks E message (\<lambda>cs.
        task_bind (send_chunks E (\<lambda>_ c m. send_single_reply_result E (Some oid) c m) 0 markup cs) (\<lambda>_. task_return ())))"

definition send_business_reply :: "'r delivery_env \<Rightarrow> turn_metadata \<Rightarrow> string \<Rightarrow> json option \<Rightarrow> ('r, i64 list) task" where
  "send_business_reply E meta message markup =
     with_chunks E message
       (send_chunks E (\<lambda>i c m. send_single_scoped_result_with_revision E meta i c m 1) 0 markup)"

definition send_reply_with_turn :: "'r delivery_env \<Rightarrow> string option \<Rightarrow> string \<Rightarrow> json option \<Rightarrow> ('r, unit) task" where
  "send_reply_with_turn E turn message markup =
     with_chunks E message (\<lambda>cs.
       task_bind (send_chunks E (\<lambda>_ c m. send_single_reply E turn c m) 0 markup cs) (\<lambda>_. task_return ()))"

definition send_turn_chunk_scoped ::
    "'r delivery_env \<Rightarrow> turn_metadata \<Rightarrow> u64 \<Rightarrow> nat \<Rightarrow> string \<Rightarrow> ('r, i64) task" where
  "send_turn_chunk_scoped E meta revision chunk message =
     task_bind (task_lift (next_revision revision)) (\<lambda>nxt.
     send_single_scoped_result_with_revision E meta chunk message None nxt)"

definition scope_required :: "string \<Rightarrow> app_error" where
  "scope_required msg = conflict ''TELEGRAM_TURN_SCOPE_REQUIRED'' msg"

definition retry_pending_reply ::
    "'r delivery_env \<Rightarrow> string \<Rightarrow> string \<Rightarrow> json option \<Rightarrow> ('r, i64) task" where
  "retry_pending_reply E i message markup =
     task_bind (start_sending E i) (\<lambda>_.
     send_recorded E i message markup (\<lambda>mid.
     or_unknown E i (mark_sent_result E i mid) (\<lambda>_. task_return mid)))"

section \<open>Turn messages\<close>

definition retire_turn :: "'r delivery_env \<Rightarrow> turn_scope \<Rightarrow> string \<Rightarrow> string \<Rightarrow> ('r, unit) task" where
  "retire_turn E s turn oid =
     task_bind (fresh (de_now E)) (\<lambda>terminal. task_bind (fresh (de_now E)) (\<lambda>now.
     db_query E (retire_turn_scoped terminal now (td_chat_id E) s turn oid)))"

definition set_turn_status :: "'r delivery_env \<Rightarrow> turn_scope \<Rightarrow> i64 \<Rightarrow> string \<Rightarrow> ('r, unit) task" where
  "set_turn_status E s mid status = task_bind (fresh (de_now E)) (\<lambda>now. db_query E (mark_status now s mid status))"

definition update_turn_chunk ::
    "'r delivery_env \<Rightarrow> turn_scope \<Rightarrow> u64 \<Rightarrow> string \<Rightarrow> nat \<Rightarrow> i64 \<Rightarrow> string \<Rightarrow> ('r, unit) task" where
  "update_turn_chunk E s revision turn chunk mid message =
     task_bind (fresh (de_now E)) (\<lambda>now.
     db_query E (update_turn_chunk_scoped now (de_sha256_hex E) s revision turn chunk mid message))"

definition replace_turn_chunk_scoped ::
    "'r delivery_env \<Rightarrow> turn_metadata \<Rightarrow> u64 \<Rightarrow> nat \<Rightarrow> i64 \<Rightarrow> string \<Rightarrow> ('r, i64) task" where
  "replace_turn_chunk_scoped E meta revision chunk old_mid message =
     task_bind (create_record E ''reply'' (Some (tm_operation_id meta))) (\<lambda>i.
     task_bind (start_sending E i) (\<lambda>_.
     send_recorded E i message None (\<lambda>new_mid.
     task_bind (task_lift (next_revision revision)) (\<lambda>nxt.
     or_unknown E i (db_query E sql_begin) (\<lambda>_.
     task_bind (task_lift (revision_i64 nxt)) (\<lambda>nxt.
     task_bind (fresh (de_now E)) (\<lambda>now1.
     task_bind (task_lift (encode_chunk_index chunk)) (\<lambda>chunk.
     task_bind (task_lift (revision_i64 revision)) (\<lambda>revision.
     task_bind (fresh (de_now E)) (\<lambda>now2.
     or_unknown E i (db_query E (sql_commit (replace_statements now1 now2 (de_sha256_hex E) replaced_evidence i meta nxt revision
         chunk old_mid new_mid message))) (\<lambda>_.
     or_unknown E i (delete_message_in_chat E (ts_chat_id (tm_scope meta)) old_mid) (\<lambda>_.
     task_bind (queue_forget E i) (\<lambda>_.
     task_return new_mid)))))))))))))"

primrec cleanup_messages :: "'r delivery_env \<Rightarrow> turn_scope \<Rightarrow> i64 list \<Rightarrow> ('r, unit) task" where
  "cleanup_messages E s [] = task_return ()"
| "cleanup_messages E s (mid # mids) =
     task_bind (delete_message_in_chat E (ts_chat_id s) mid) (\<lambda>_.
     task_bind (set_turn_status E s mid ''deleted'') (\<lambda>_.
     cleanup_messages E s mids))"

definition execute_redo_cleanup_scoped :: "'r delivery_env \<Rightarrow> turn_scope \<Rightarrow> i64 list \<Rightarrow> i64 list \<Rightarrow> ('r, unit) task" where
  "execute_redo_cleanup_scoped E s previous_ids new_ids =
     (let keep = max (length new_ids) 1 in
      if length previous_ids \<le> keep \<or> ts_chat_id s \<noteq> td_chat_id E then task_return ()
      else cleanup_messages E s (rev (drop keep previous_ids)))"

record revoke_effect_result =
  rv_edited_tombstone_message_id :: "i64 option"
  rv_deleted_extra_message_ids :: "i64 list"
  rv_failed_message_ids :: "i64 list"

definition revoke_nothing :: revoke_effect_result where
  "revoke_nothing = \<lparr> rv_edited_tombstone_message_id = None, rv_deleted_extra_message_ids = [], rv_failed_message_ids = [] \<rparr>"

definition is_not_found_error :: "app_error \<Rightarrow> bool" where
  "is_not_found_error err =
     (let m = to_ascii_lowercase (app_message err) in
      contains_str m ''not found'' \<or> contains_str m ''message to delete not found''
      \<or> contains_str m (''message can'' @ [CHR 39] @ ''t be deleted''))"

primrec revoke_extras ::
    "'r delivery_env \<Rightarrow> turn_scope \<Rightarrow> revoke_effect_result \<Rightarrow> i64 list \<Rightarrow> ('r, revoke_effect_result) task" where
  "revoke_extras E s effect [] = task_return effect"
| "revoke_extras E s effect (mid # mids) =
     task_try (delete_message_in_chat E (ts_chat_id s) mid) (\<lambda>r.
     if (case r of Inr _ \<Rightarrow> True | Inl err \<Rightarrow> is_not_found_error err) then
       task_bind (set_turn_status E s mid ''deleted'') (\<lambda>_.
       revoke_extras E s (effect\<lparr>rv_deleted_extra_message_ids := rv_deleted_extra_message_ids effect @ [mid]\<rparr>) mids)
     else revoke_extras E s (effect\<lparr>rv_failed_message_ids := rv_failed_message_ids effect @ [mid]\<rparr>) mids)"

definition execute_revoke_effect_scoped ::
    "'r delivery_env \<Rightarrow> turn_scope \<Rightarrow> i64 list \<Rightarrow> string \<Rightarrow> ('r, revoke_effect_result) task" where
  "execute_revoke_effect_scoped E s targets tombstone =
     (case targets of
        [] \<Rightarrow> task_return revoke_nothing
      | first # extras \<Rightarrow>
          if ts_chat_id s \<noteq> td_chat_id E then task_return revoke_nothing
          else
            task_try (edit_message E first tombstone) (\<lambda>r. case r of
              Inr _ \<Rightarrow>
                task_bind (set_turn_status E s first ''revoked'') (\<lambda>_.
                revoke_extras E s (revoke_nothing\<lparr>rv_edited_tombstone_message_id := Some first\<rparr>) extras)
            | Inl _ \<Rightarrow> revoke_extras E s (revoke_nothing\<lparr>rv_failed_message_ids := [first]\<rparr>) extras))"

section \<open>Panels\<close>

definition button_markup :: "inline_button \<Rightarrow> json" where
  "button_markup b = JObject [(''text'', JString (ib_label b)), (''callback_data'', JString (ib_callback_data b))]"

definition panel_markup :: "inline_button list list \<Rightarrow> json" where
  "panel_markup kb = JObject [(''inline_keyboard'', JArray (map (\<lambda>row. JArray (map button_markup row)) kb))]"

definition parse_mode_name :: "panel_parse_mode \<Rightarrow> string option" where
  "parse_mode_name m = (case m of PlainText \<Rightarrow> None | MarkdownV2 \<Rightarrow> Some ''MarkdownV2'')"

definition parse_mode_field :: "telegram_panel \<Rightarrow> (string \<times> json) list" where
  "parse_mode_field p = (case parse_mode_name (tp_parse_mode p) of Some m \<Rightarrow> [(''parse_mode'', JString m)] | None \<Rightarrow> [])"

definition send_panel :: "'r delivery_env \<Rightarrow> i64 \<Rightarrow> telegram_panel \<Rightarrow> ('r, i64) task" where
  "send_panel E chat p =
     task_bind (api_call E ''sendMessage''
       (JObject ([(''chat_id'', json_i64 chat), (''text'', JString (tp_text p))] @ parse_mode_field p
          @ (if tp_keyboard p \<noteq> [] then [(''reply_markup'', panel_markup (tp_keyboard p))] else [])))) (\<lambda>result.
     task_lift (message_id_of result))"

definition edit_panel :: "'r delivery_env \<Rightarrow> i64 \<Rightarrow> i64 \<Rightarrow> telegram_panel \<Rightarrow> ('r, unit) task" where
  "edit_panel E chat mid p = unmodified_is_ok (api_call E ''editMessageText''
     (JObject ([(''chat_id'', json_i64 chat), (''message_id'', json_i64 mid), (''text'', JString (tp_text p)),
        (''reply_markup'', panel_markup (tp_keyboard p))] @ parse_mode_field p)))"

definition clear_reply_markup :: "'r delivery_env \<Rightarrow> i64 \<Rightarrow> i64 \<Rightarrow> ('r, unit) task" where
  "clear_reply_markup E chat mid =
     task_bind (api_call E ''editMessageReplyMarkup''
       (JObject [(''chat_id'', json_i64 chat), (''message_id'', json_i64 mid),
          (''reply_markup'', JObject [(''inline_keyboard'', JArray [])])])) (\<lambda>_. task_return ())"

definition execute_panel_effect :: "'r delivery_env \<Rightarrow> panel_effect \<Rightarrow> ('r, i64 option) task" where
  "execute_panel_effect E effect =
     (case effect of
        PE_Create _ chat p \<Rightarrow> task_bind (send_panel E chat p) (\<lambda>mid. task_return (Some mid))
      | PE_Replace slot _ p \<Rightarrow>
          task_bind (edit_panel E (ps_chat_id slot) (ps_message_id slot) p) (\<lambda>_. task_return (Some (ps_message_id slot)))
      | PE_Toast _ _ _ \<Rightarrow> task_return None
      | PE_RetireKeyboard slot \<Rightarrow>
          task_bind (clear_reply_markup E (ps_chat_id slot) (ps_message_id slot)) (\<lambda>_. task_return (Some (ps_message_id slot)))
      | PE_DeleteChunk chat mid _ \<Rightarrow> task_bind (delete_message_in_chat E chat mid) (\<lambda>_. task_return None)
      | PE_FallbackSend _ p _ \<Rightarrow> task_bind (send_panel E (td_chat_id E) p) (\<lambda>mid. task_return (Some mid)))"

section \<open>Pending deliveries\<close>

primrec enqueue_all :: "'r delivery_env \<Rightarrow> string list \<Rightarrow> ('r, unit) task" where
  "enqueue_all E [] = task_return ()"
| "enqueue_all E (i # is) = task_bind (queue_enqueue E i) (\<lambda>_. enqueue_all E is)"

definition recover_pending_deliveries :: "'r delivery_env \<Rightarrow> ('r, nat) task" where
  "recover_pending_deliveries E =
     task_bind (fresh (de_now E)) (\<lambda>now.
     task_bind (db_query E (due_deliveries now (td_bot_id E) (td_chat_id E))) (\<lambda>rows.
     task_bind (enqueue_all E rows) (\<lambda>_. task_return (length rows))))"

definition claim_due_delivery :: "string \<Rightarrow> nat \<Rightarrow> (string \<times> string) option app_result" where
  "claim_due_delivery runtime_instance_id lease_for =
     (if trim runtime_instance_id = [] \<or> lease_for = 0
      then Inl (bad_request ''TELEGRAM_DELIVERY_LEASE_INVALID'' ''Telegram delivery lease identity is invalid'')
      else Inl (service_unavailable ''TELEGRAM_DELIVERY_REPLAY_BLOCKED''
             ''durable Telegram reply payload replay is unavailable; delivery remains blocked''))"

definition take_due_delivery :: "'r delivery_env \<Rightarrow> ('r, string option) task" where
  "take_due_delivery E =
     task_bind (on_queue E (\<lambda>n q. (find_due_for (de_iter E n) (de_probe E n) (td_bot_id E) (td_chat_id E) q, q))) (\<lambda>found.
     case found of
       None \<Rightarrow> task_return None
     | Some p \<Rightarrow>
         task_bind (on_queue E (\<lambda>_ q. take_found (pd_delivery_id p) q)) (\<lambda>taken.
         task_return (map_option pd_delivery_id taken)))"

section \<open>Streamed replies\<close>

record progress_sink =
  sk_delivery_id :: "string option"
  sk_message_id :: "i64 option"
  sk_metadata :: turn_metadata

text \<open>\<^verbatim>\<open>str::parse::<i64>\<close>.\<close>

definition parse_i64 :: "string \<Rightarrow> i64 option" where
  "parse_i64 s =
     (case s of
        [] \<Rightarrow> None
      | c # t \<Rightarrow>
          if c = CHR ''-'' then
            (if t \<noteq> [] \<and> list_all is_ascii_digit t \<and> int (digits_value t) \<le> i64_max + 1 then Some (- int (digits_value t)) else None)
          else
            (let d = (if c = CHR ''+'' then t else s) in
             if d \<noteq> [] \<and> list_all is_ascii_digit d \<and> int (digits_value d) \<le> i64_max then Some (int (digits_value d)) else None))"

definition progress_get :: "(progress_state \<Rightarrow> 'a) \<Rightarrow> ('r, 'a) task" where [task_defs]:
  "progress_get f w = (Finished (Inr (f (dw_progress w))), w)"

definition progress_set :: "(progress_state \<Rightarrow> progress_state) \<Rightarrow> ('r, unit) task" where [task_defs]:
  "progress_set f w = (Finished (Inr ()), w\<lparr>dw_progress := f (dw_progress w)\<rparr>)"

definition new_progress :: progress_state where
  "new_progress = \<lparr> pg_stream = stream_state_new, pg_accumulated_text = [], pg_finalized = False, pg_render_version = 1 \<rparr>"

definition open_sink :: "turn_metadata \<Rightarrow> string \<Rightarrow> i64 \<Rightarrow> ('r, progress_sink) task" where
  "open_sink meta i mid =
     task_bind (progress_set (\<lambda>_. new_progress)) (\<lambda>_.
     task_return \<lparr> sk_delivery_id = Some i, sk_message_id = Some mid, sk_metadata = meta \<rparr>)"

definition stored_message_invalid :: app_error where
  "stored_message_invalid = bad_gateway ''TELEGRAM_RESPONSE_INVALID'' ''stored generation message_id is invalid''"

definition stream_sink :: "'r delivery_env \<Rightarrow> turn_metadata \<Rightarrow> string \<Rightarrow> ('r, progress_sink) task" where
  "stream_sink E meta placeholder =
     task_bind (db_query E (find_generation (td_bot_id E) (td_chat_id E) (tm_operation_id meta))) (\<lambda>existing.
     case existing of
       Some (i, stored) \<Rightarrow>
         task_bind (task_lift (ok_or stored_message_invalid (parse_i64 stored))) (\<lambda>mid.
         if mid \<le> 0 then task_lift (Inl stored_message_invalid) else open_sink meta i mid)
     | None \<Rightarrow>
         task_bind (create_record E ''generation'' (Some (tm_operation_id meta))) (\<lambda>i.
         task_bind (start_sending E i) (\<lambda>_.
         send_recorded E i placeholder None (\<lambda>mid.
         or_unknown E i (record_scoped_turn_message_with_revision E meta 0 mid placeholder ''sent'' 1) (\<lambda>_.
         or_unknown E i (mark_sent_result E i mid) (\<lambda>_.
         open_sink meta i mid))))))"

definition sink_marked :: "'r delivery_env \<Rightarrow> progress_sink \<Rightarrow> ('r, 'a) task \<Rightarrow> ('a \<Rightarrow> ('r, 'b) task) \<Rightarrow> ('r, 'b) task" where
  "sink_marked E K m f = task_try m (\<lambda>r. case r of
       Inr a \<Rightarrow> f a
     | Inl err \<Rightarrow> (case sk_delivery_id K of Some i \<Rightarrow> fail_unknown E i err | None \<Rightarrow> task_lift (Inl err)))"

definition bump_version :: "u64 \<Rightarrow> ('r, unit) task" where
  "bump_version expected =
     task_bind (task_lift (next_revision expected)) (\<lambda>nxt. progress_set (\<lambda>p. p\<lparr>pg_render_version := nxt\<rparr>))"

primrec finalize_rest :: "'r delivery_env \<Rightarrow> progress_sink \<Rightarrow> nat \<Rightarrow> string list \<Rightarrow> ('r, unit) task" where
  "finalize_rest E K index [] = task_return ()"
| "finalize_rest E K index (c # cs) =
     task_bind (pause E) (\<lambda>_.
     task_bind (progress_get pg_render_version) (\<lambda>expected.
     task_bind (send_turn_chunk_scoped E (sk_metadata K) expected index c) (\<lambda>_.
     task_bind (bump_version expected) (\<lambda>_.
     finalize_rest E K (Suc index) cs))))"

definition finalize_chunks :: "'r delivery_env \<Rightarrow> progress_sink \<Rightarrow> string list \<Rightarrow> ('r, unit) task" where
  "finalize_chunks E K chunks =
     (case chunks of
        [] \<Rightarrow> task_return ()
      | first # rest \<Rightarrow>
          task_bind (task_lift (ok_or (conflict ''TELEGRAM_DELIVERY_STATE_UNKNOWN'' ''stream finalization has no placeholder message'')
              (sk_message_id K))) (\<lambda>mid.
          sink_marked E K (edit_message E mid first) (\<lambda>_.
          task_bind (progress_get pg_render_version) (\<lambda>expected.
          sink_marked E K (update_turn_chunk E (tm_scope (sk_metadata K)) expected (tm_turn_id (sk_metadata K)) 0 mid first) (\<lambda>_.
          task_bind (bump_version expected) (\<lambda>_.
          finalize_rest E K 1 rest))))))"

definition finalize :: "'r delivery_env \<Rightarrow> progress_sink \<Rightarrow> string \<Rightarrow> ('r, unit) task" where
  "finalize E K message =
     task_bind (progress_get pg_finalized) (\<lambda>finalized.
     if finalized then task_return ()
     else
       task_bind (fresh (de_instant E)) (\<lambda>now.
       task_bind (progress_set (\<lambda>p. p\<lparr>pg_finalized := True, pg_stream := snd (force_final message now (pg_stream p))\<rparr>)) (\<lambda>_.
       if trim message = [] then task_return () else with_chunks E message (finalize_chunks E K))))"

definition sink_fail :: "'r delivery_env \<Rightarrow> progress_sink \<Rightarrow> string \<Rightarrow> ('r, unit) task" where
  "sink_fail E K message = finalize E K ((utf8_encode [29983, 25104, 22833, 36133, 65306]) @ message)"

datatype progress_event =
    Ev_Started string
  | Ev_Delta string
  | Ev_Done string
  | Ev_Error string
  | Ev_Progress nat nat

definition render_delta :: "'r delivery_env \<Rightarrow> progress_sink \<Rightarrow> string \<Rightarrow> ('r, unit) task" where
  "render_delta E K full_text =
     task_bind (fresh (de_instant E)) (\<lambda>now.
     task_bind (progress_get (\<lambda>p. should_render full_text (td_policy E) now (pg_stream p))) (\<lambda>(should, stream).
     task_bind (progress_set (\<lambda>p. p\<lparr>pg_stream := stream\<rparr>)) (\<lambda>_.
     case sk_message_id K of
       None \<Rightarrow> task_return ()
     | Some mid \<Rightarrow>
         if \<not> should then task_return ()
         else with_chunks E full_text (\<lambda>cs.
           case cs of [] \<Rightarrow> task_return ()
           | first # _ \<Rightarrow> if first = [] then task_return () else ignore (edit_message E mid first)))))"

definition render_progress :: "'r delivery_env \<Rightarrow> progress_sink \<Rightarrow> string \<Rightarrow> nat \<Rightarrow> nat \<Rightarrow> ('r, unit) task" where
  "render_progress E K what completed of_total =
     (case sk_message_id K of
        None \<Rightarrow> task_return ()
      | Some mid \<Rightarrow> ignore (edit_message E mid (what @ (utf8_encode [8230] @ '' '') @ nat_to_string completed @ ''/'' @ nat_to_string of_total)))"

definition emit :: "'r delivery_env \<Rightarrow> progress_sink \<Rightarrow> progress_event \<Rightarrow> ('r, unit) task" where
  "emit E K ev =
     (case ev of
        Ev_Delta full_text \<Rightarrow> render_delta E K full_text
      | Ev_Done reply \<Rightarrow> finalize E K reply
      | Ev_Error message \<Rightarrow> sink_fail E K message
      | Ev_Progress completed of_total \<Rightarrow> render_progress E K (utf8_encode [27491, 22312, 21387, 32553]) completed of_total
      | Ev_Started oid \<Rightarrow>
          (case sk_delivery_id K of
             None \<Rightarrow> task_return ()
           | Some i \<Rightarrow> task_bind (fresh (de_now E)) (\<lambda>now. db_query E (link_generation now i oid))))"

definition bridge_emit :: "'r delivery_env \<Rightarrow> progress_sink \<Rightarrow> progress_event \<Rightarrow> ('r, unit) task" where
  "bridge_emit E K ev =
     (case ev of
        Ev_Delta full_text \<Rightarrow>
          task_bind (progress_set (\<lambda>p. p\<lparr>pg_accumulated_text := full_text\<rparr>)) (\<lambda>_. render_delta E K full_text)
      | Ev_Done reply \<Rightarrow> finalize E K reply
      | Ev_Error message \<Rightarrow> sink_fail E K message
      | Ev_Progress completed of_total \<Rightarrow> render_progress E K (utf8_encode [27491, 22312, 22788, 29702]) completed of_total
      | Ev_Started _ \<Rightarrow> task_return ())"

end
