(* ===== verification/Delivery_Safety.thy ===== *)
theory Delivery_Safety
  imports Telegram_Delivery
begin

text \<open>
  What the methods of \<^verbatim>\<open>TelegramDelivery\<close> guarantee while other tasks work on the same tables: the tables
  only evolve along \<open>ledger_follows\<close>, the record of a delivery agrees with what the service answered, and
  the chunks of a text are sent in order and at most once.
\<close>

section \<open>Relations between worlds\<close>

definition task_keeps :: "('r delivery_world \<Rightarrow> 'r delivery_world \<Rightarrow> bool) \<Rightarrow> ('r, 'a) task \<Rightarrow> bool" where
  "task_keeps R m \<longleftrightarrow> (\<forall>w. R w (snd (m w)))"

lemma task_keepsD: "task_keeps R m \<Longrightarrow> m w = (r, w') \<Longrightarrow> R w w'"
  unfolding task_keeps_def by (metis snd_conv)

locale task_order =
  fixes R :: "'r delivery_world \<Rightarrow> 'r delivery_world \<Rightarrow> bool"
  assumes w_refl: "R w w"
    and w_trans: "R u v \<Longrightarrow> R v w \<Longrightarrow> R u w"
begin

lemma keeps_lift: "task_keeps R (task_lift r)"
  by (simp add: task_keeps_def task_lift_def w_refl)

lemma keeps_call: "task_keeps R (task_call c)"
  by (simp add: task_keeps_def task_call_def w_refl split: call.split)

lemma keeps_try:
  assumes "task_keeps R m" "\<And>r. task_keeps R (f r)"
  shows "task_keeps R (task_try m f)"
  unfolding task_keeps_def
proof
  fix w
  obtain r w1 where m: "m w = (r, w1)" by fastforce
  then have "R w w1" using assms(1) by (rule task_keepsD [rotated])
  moreover have "R w1 (snd (f x w1))" for x
    using assms(2) by (simp add: task_keeps_def)
  ultimately show "R w (snd (task_try m f w))"
    by (auto simp: task_try_def m intro: w_trans split: outcome.split)
qed

lemma keeps_bind:
  "task_keeps R m \<Longrightarrow> (\<And>a. task_keeps R (f a)) \<Longrightarrow> task_keeps R (task_bind m f)"
  unfolding task_bind_def by (rule keeps_try) (auto intro: keeps_lift split: sum.split)

lemma keeps_bind_lift:
  "(\<And>a. r = Inr a \<Longrightarrow> task_keeps R (f a)) \<Longrightarrow> task_keeps R (task_bind (task_lift r) f)"
  by (cases r) (auto simp: task_bind_def task_try_def task_lift_def task_keeps_def w_refl)

lemma keeps_if:
  "(c \<Longrightarrow> task_keeps R m) \<Longrightarrow> (\<not> c \<Longrightarrow> task_keeps R n) \<Longrightarrow> task_keeps R (if c then m else n)"
  by simp

lemma keeps_option:
  "task_keeps R n \<Longrightarrow> (\<And>x. task_keeps R (f x)) \<Longrightarrow> task_keeps R (case_option n f a)"
  by (cases a) auto

lemma keeps_sum:
  "(\<And>x. task_keeps R (f x)) \<Longrightarrow> (\<And>x. task_keeps R (g x)) \<Longrightarrow> task_keeps R (case_sum f g a)"
  by (cases a) auto

lemma keeps_list:
  "task_keeps R n \<Longrightarrow> (\<And>x xs. task_keeps R (f x xs)) \<Longrightarrow> task_keeps R (case_list n f a)"
  by (cases a) auto

lemma keeps_prod: "(\<And>x y. task_keeps R (f x y)) \<Longrightarrow> task_keeps R (case_prod f a)"
  by (cases a) auto

lemma keeps_chunks: "(\<And>cs. task_keeps R (f cs)) \<Longrightarrow> task_keeps R (with_chunks E message f)"
  by (auto simp: with_chunks_def task_keeps_def w_refl split: option.split)

lemma keeps_power: "(\<And>w. R w (g w)) \<Longrightarrow> R w ((g ^^ n) w)"
  by (induction n) (auto intro: w_refl w_trans)

lemma keeps_send_chunks:
  "task_keeps R (pause E) \<Longrightarrow> (\<And>i c m. task_keeps R (send i c m)) \<Longrightarrow> task_keeps R (send_chunks E send i m cs)"
  by (induction cs arbitrary: i m) (auto intro!: keeps_bind keeps_lift keeps_if)

lemmas keeps_rules = keeps_lift keeps_call keeps_if keeps_option keeps_sum keeps_list keeps_prod keeps_chunks keeps_try

end

section \<open>The tables evolve\<close>

definition tables_follow :: "'r delivery_world \<Rightarrow> 'r delivery_world \<Rightarrow> bool" where
  "tables_follow w w' \<longleftrightarrow> ledger_follows (tables_of w) (tables_of w')"

text \<open>What the other tasks do to the tables.\<close>

definition others_follow :: "'r delivery_env \<Rightarrow> bool" where
  "others_follow E \<longleftrightarrow> (\<forall>n t q. ledger_follows t (fst (de_others E n t q)))"

interpretation world_log: task_order tables_follow
proof
  show "tables_follow w w" for w :: "'r delivery_world"
    by (simp add: tables_follow_def ledger.refl)
  show "tables_follow u w" if "tables_follow u v" "tables_follow v w" for u v w :: "'r delivery_world"
    using that unfolding tables_follow_def by (rule ledger.trans)
qed

abbreviation guarded :: "('r, 'a) task \<Rightarrow> bool" where
  "guarded m \<equiv> task_keeps tables_follow m"

named_theorems guarded_rules \<open>tasks along which the tables evolve\<close>

lemmas [guarded_rules] = world_log.keeps_rules world_log.keeps_send_chunks

lemma tables_follow_same: "tables_of w' = tables_of w \<Longrightarrow> tables_follow w w'"
  by (simp add: tables_follow_def ledger.refl)

lemma others_tables: "others_follow E \<Longrightarrow> tables_follow w (others E w)"
  by (auto simp: tables_follow_def others_follow_def others_def split: prod.split) (metis fst_conv)

lemma guarded_bind [guarded_rules]:
  "guarded m \<Longrightarrow> (\<And>a. guarded (f a)) \<Longrightarrow> guarded (task_bind m f)"
  by (rule world_log.keeps_bind)

lemma guarded_basic [guarded_rules]:
  "guarded (fresh f)" "guarded (progress_get g)" "guarded (progress_set h)"
  by (auto simp: task_keeps_def fresh_def progress_get_def progress_set_def intro: tables_follow_same)

lemma guarded_pause [guarded_rules]: "others_follow E \<Longrightarrow> guarded (pause E)"
  by (simp add: task_keeps_def pause_def others_tables)

lemma guarded_query [guarded_rules]:
  assumes "others_follow E" "sql_evolves ledger_follows m"
  shows "guarded (db_query E m)"
  unfolding task_keeps_def
proof
  fix w
  obtain r db where m: "m (dw_db (others E w)) = (r, db)" by fastforce
  then have "ledger_follows (tables_of (others E w)) (db_tables db)"
    by (rule sql_evolvesD [OF assms(2)])
  moreover have "tables_follow w (others E w)" by (rule others_tables) (rule assms)
  ultimately show "tables_follow w (snd (db_query E m w))"
    by (auto simp: db_query_def m tables_follow_def intro: ledger.trans)
qed

lemma guarded_on_queue [guarded_rules]: "others_follow E \<Longrightarrow> guarded (on_queue E f)"
  using others_tables [of E]
  by (auto simp: task_keeps_def on_queue_def Let_def tables_follow_def split: prod.split)

lemma guarded_queue [guarded_rules]:
  "others_follow E \<Longrightarrow> guarded (queue_forget E i)" "others_follow E \<Longrightarrow> guarded (queue_enqueue E i)"
  unfolding queue_forget_def queue_enqueue_def by (blast intro: guarded_rules)+

lemma guarded_post [guarded_rules]:
  fixes E :: "'r delivery_env"
  assumes "others_follow E"
  shows "guarded (post E meth body)"
  unfolding task_keeps_def
proof
  fix w :: "'r delivery_world"
  obtain reply x where "de_post E (api_url E meth) body (dw_remote w) = (reply, x)" by fastforce
  then show "tables_follow w (snd (post E meth body w))"
    using others_tables [OF assms, of "w\<lparr>dw_remote := x, dw_requests := dw_requests w @ [(meth, body, reply)]\<rparr>"]
    by (simp add: post_def tables_follow_def)
qed

lemma guarded_wait [guarded_rules]: "others_follow E \<Longrightarrow> guarded (wait_for_cooldown E)"
  unfolding task_keeps_def wait_for_cooldown_def
  by (auto simp del: funpow.simps intro!: world_log.keeps_power others_tables world_log.w_refl split: option.split)

lemma guarded_reply [guarded_rules]:
  "guarded a \<Longrightarrow> (\<And>s. guarded (b s)) \<Longrightarrow> (\<And>n j. guarded (c n j)) \<Longrightarrow> guarded (case_http_reply a b c reply)"
  by (cases reply) auto

lemma guarded_api_call [guarded_rules]: "others_follow E \<Longrightarrow> guarded (api_call E meth body)"
  unfolding api_call_def read_reply_def set_cooldown_def by (intro guarded_rules) assumption+

lemma guarded_calls [guarded_rules]:
  assumes "others_follow E"
  shows "guarded (send_message E message markup)" "guarded (edit_message E mid message)"
    "guarded (delete_message_in_chat E chat mid)" "guarded (answer_callback_query E q toast alert)"
    "guarded (send_panel E chat p)" "guarded (edit_panel E chat mid p)" "guarded (clear_reply_markup E chat mid)"
  unfolding send_message_def edit_message_def unmodified_is_ok_def delete_message_in_chat_def answer_callback_query_def
    send_panel_def edit_panel_def clear_reply_markup_def
  by (intro guarded_rules assms)+

lemmas ledger_evolves =
  evolves_create evolves_marks evolves_record evolves_update_chunk evolves_turns evolves_reads evolves_begin
  evolves_commit

lemma guarded_marks [guarded_rules]:
  assumes "others_follow E"
  shows "guarded (create_record E kind turn)" "guarded (start_sending E i)" "guarded (mark_sent_result E i mid)"
    "guarded (mark_delivery_unknown E i err)" "guarded (mark_delivery_failed E i err)" "guarded (mark_retry_pending E i err)"
    "guarded (mark_unknown_after_persistence_failure E i err)"
    "guarded (record_scoped_turn_message_with_revision E meta chunk mid message status version)"
    "guarded (retire_turn E s turn_id oid)" "guarded (set_turn_status E s mid status)"
    "guarded (update_turn_chunk E s revision turn_id chunk mid message)"
  unfolding create_record_def start_sending_def mark_sent_result_def mark_delivery_unknown_def mark_delivery_failed_def mark_retry_pending_def
    retry_at_rfc3339_def mark_unknown_after_persistence_failure_def record_scoped_turn_message_with_revision_def
    retire_turn_def set_turn_status_def update_turn_chunk_def
  by (intro guarded_rules ledger_evolves assms)+

lemma guarded_send_error [guarded_rules]: "others_follow E \<Longrightarrow> guarded (mark_send_error E i err)"
  unfolding mark_send_error_def by (intro guarded_rules) assumption+

lemma guarded_recorded [guarded_rules]:
  "others_follow E \<Longrightarrow> (\<And>mid. guarded (f mid)) \<Longrightarrow> guarded (send_recorded E i message markup f)"
  unfolding send_recorded_def by (intro guarded_rules) assumption+

lemma guarded_or_unknown [guarded_rules]:
  "others_follow E \<Longrightarrow> guarded (fail_unknown E i err)"
  "others_follow E \<Longrightarrow> guarded m \<Longrightarrow> (\<And>a. guarded (g a)) \<Longrightarrow> guarded (or_unknown E i m g)"
  unfolding or_unknown_def fail_unknown_def by (intro guarded_rules; assumption)+

lemma guarded_singles [guarded_rules]:
  assumes "others_follow E"
  shows "guarded (send_single_reply_result E turn message markup)"
    "guarded (send_single_scoped_result_with_revision E meta chunk message markup version)"
    "guarded (send_single_reply E turn message markup)"
    "guarded (retry_pending_reply E i message markup)"
  unfolding send_single_reply_result_def send_single_scoped_result_with_revision_def send_single_reply_def ignore_def
    retry_pending_reply_def
  by (intro guarded_rules assms)+

lemma guarded_turn_chunk [guarded_rules]:
  "others_follow E \<Longrightarrow> guarded (send_turn_chunk_scoped E meta revision chunk message)"
  unfolding send_turn_chunk_scoped_def by (intro guarded_rules) assumption+

lemma guarded_loops [guarded_rules]:
  assumes "others_follow E"
  shows "guarded (cleanup_messages E s mids)" "guarded (revoke_extras E s effect mids)" "guarded (enqueue_all E is)"
    "guarded (finalize_rest E K index cs)"
proof -
  show "guarded (cleanup_messages E s mids)"
    by (induction mids) (simp_all, (intro guarded_rules assms | assumption)+)
  show "guarded (revoke_extras E s effect mids)"
    by (induction mids arbitrary: effect) (simp_all, (intro guarded_rules assms | assumption)+)
  show "guarded (enqueue_all E is)"
    by (induction "is") (simp_all, (intro guarded_rules assms | assumption)+)
  show "guarded (finalize_rest E K index cs)"
    unfolding bump_version_def
    by (induction cs arbitrary: index) (simp_all add: bump_version_def, (intro guarded_rules assms | assumption)+)
qed

lemma guarded_replace:
  assumes "others_follow E"
  shows "guarded (replace_turn_chunk_scoped E meta revision chunk old_mid message)"
  unfolding replace_turn_chunk_scoped_def
  by (rule guarded_rules assms ledger_evolves evolves_replace_statements world_log.keeps_bind_lift | assumption)+

lemma guarded_sinks:
  assumes "others_follow E"
  shows "guarded (stream_sink E meta placeholder)" "guarded (finalize E K message)"
    "guarded (emit E K ev)" "guarded (bridge_emit E K ev)"
proof -
  have fin: "guarded (finalize E K message)" for message
    unfolding finalize_def finalize_chunks_def sink_marked_def bump_version_def
    by (intro guarded_rules assms)
  then show "guarded (finalize E K message)" .
  show "guarded (stream_sink E meta placeholder)"
    unfolding stream_sink_def open_sink_def by (intro guarded_rules ledger_evolves assms)
  have delta: "guarded (render_delta E K s)" for s
    unfolding render_delta_def ignore_def by (intro guarded_rules assms)
  have prog: "guarded (render_progress E K s m n)" for s m n
    unfolding render_progress_def ignore_def by (intro guarded_rules assms)
  show "guarded (emit E K ev)"
    by (cases ev) (simp_all add: emit_def sink_fail_def fin delta prog, (intro guarded_rules ledger_evolves assms)+)
  show "guarded (bridge_emit E K ev)"
    by (cases ev) (simp_all add: bridge_emit_def sink_fail_def fin prog, (intro guarded_rules delta)+)
qed

text \<open>C16. Whatever the service answers and whichever statements fail, and as long as the other tasks do
  the same, every method of \<^verbatim>\<open>TelegramDelivery\<close> and of its progress sink moves the tables only forward. No
  row is removed. A delivery keeps its bot, chat, kind and turn, its attempts are never counted down,
  its status never returns to an earlier stage (a sent one can only become unknown, an unknown or
  failed one stays that with its error and time), and a message id once recorded is never replaced. A
  turn message keeps its place, its rendered version never decreases, and a row that is no longer shown
  does not change. A frozen target changes only its status and its time, and only forward.\<close>

theorem delivery_methods_follow_ledger:
  fixes E :: "'r delivery_env"
  assumes "others_follow E"
  shows "guarded (send_reply E message markup)
    \<and> guarded (send_operation_reply E oid message markup)
    \<and> guarded (send_business_reply E meta message markup)
    \<and> guarded (send_reply_with_turn E turn message markup)
    \<and> guarded (send_reply_with_turn_ids E turn_id message markup)
    \<and> guarded (send_turn_chunk_scoped E meta revision chunk message)
    \<and> guarded (retry_pending_reply E i message markup)
    \<and> guarded (replace_turn_chunk_scoped E meta revision chunk old_mid message)
    \<and> guarded (update_turn_chunk E s revision turn_id chunk mid message)
    \<and> guarded (retire_turn E s turn_id oid)
    \<and> guarded (set_turn_status E s mid status)
    \<and> guarded (db_query E (assert_turn_revision s turn_id revision))
    \<and> guarded (db_query E (find_last_turn s))
    \<and> guarded (db_query E (freeze_target to_text of_text now oid s turn_id fingerprint revision previous_ids))
    \<and> guarded (db_query E (load_frozen_target of_text oid s))
    \<and> guarded (db_query E (cas_target_status now oid s expected nxt))
    \<and> guarded (execute_redo_cleanup_scoped E s previous_ids new_ids)
    \<and> guarded (execute_revoke_effect_scoped E s targets tombstone)
    \<and> guarded (execute_panel_effect E effect)
    \<and> guarded (edit_message E mid message)
    \<and> guarded (delete_message E mid)
    \<and> guarded (answer_callback_query E query_id toast alert)
    \<and> guarded (recover_pending_deliveries E)
    \<and> guarded (take_due_delivery E)
    \<and> guarded (stream_sink E meta placeholder)
    \<and> guarded (finalize E K message)
    \<and> guarded (sink_fail E K message)
    \<and> guarded (emit E K ev)
    \<and> guarded (bridge_emit E K ev)"
proof (intro conjI)
  note intros = guarded_rules ledger_evolves evolves_freeze evolves_cas assms
  show "guarded (send_reply E message markup)" "guarded (send_operation_reply E oid message markup)"
    "guarded (send_business_reply E meta message markup)" "guarded (send_reply_with_turn E turn message markup)"
    "guarded (send_reply_with_turn_ids E turn_id message markup)"
    unfolding send_reply_def send_operation_reply_def send_business_reply_def send_reply_with_turn_def
      send_reply_with_turn_ids_def
    by (intro intros)+
  show "guarded (db_query E (assert_turn_revision s turn_id revision))" "guarded (db_query E (find_last_turn s))"
    "guarded (db_query E (freeze_target to_text of_text now oid s turn_id fingerprint revision previous_ids))"
    "guarded (db_query E (load_frozen_target of_text oid s))" "guarded (db_query E (cas_target_status now oid s expected nxt))"
    by (intro intros)+
  show "guarded (execute_redo_cleanup_scoped E s previous_ids new_ids)"
    unfolding execute_redo_cleanup_scoped_def Let_def by (intro intros)
  show "guarded (execute_revoke_effect_scoped E s targets tombstone)"
    unfolding execute_revoke_effect_scoped_def by (intro intros)
  show "guarded (execute_panel_effect E effect)"
    by (cases effect) (simp_all add: execute_panel_effect_def, (intro intros)+)
  show "guarded (recover_pending_deliveries E)" "guarded (take_due_delivery E)"
    unfolding recover_pending_deliveries_def take_due_delivery_def by (intro intros)+
  show "guarded (delete_message E mid)" "guarded (sink_fail E K message)"
    unfolding delete_message_def sink_fail_def by (intro intros guarded_sinks)+
qed (intro guarded_rules guarded_replace guarded_sinks assms)+

section \<open>Triples\<close>

text \<open>If a task that starts where \<open>P\<close> holds finishes, \<open>Q\<close> holds of its result and the world then.\<close>

definition triple :: "('r delivery_world \<Rightarrow> bool) \<Rightarrow> ('r, 'a) task \<Rightarrow> ('a app_result \<Rightarrow> 'r delivery_world \<Rightarrow> bool) \<Rightarrow> bool" where
  "triple P m Q \<longleftrightarrow> (\<forall>w r w'. P w \<longrightarrow> m w = (Finished r, w') \<longrightarrow> Q r w')"

lemma tripleD: "triple P m Q \<Longrightarrow> P w \<Longrightarrow> m w = (Finished r, w') \<Longrightarrow> Q r w'"
  by (simp add: triple_def)

lemma triple_post: "triple P m Q \<Longrightarrow> (\<And>r w. Q r w \<Longrightarrow> Q' r w) \<Longrightarrow> triple P m Q'"
  by (auto simp: triple_def)

lemma triple_pre: "triple P m Q \<Longrightarrow> (\<And>w. P' w \<Longrightarrow> P w) \<Longrightarrow> triple P' m Q"
  by (auto simp: triple_def)

lemma triple_lift: "(\<And>w. P w \<Longrightarrow> Q r w) \<Longrightarrow> triple P (task_lift r) Q"
  by (auto simp: triple_def task_lift_def)

lemma triple_try:
  "triple P m R \<Longrightarrow> (\<And>r. triple (R r) (f r) Q) \<Longrightarrow> triple P (task_try m f) Q"
  unfolding triple_def task_try_def by (auto split: prod.splits outcome.splits)

lemma task_triple_bind:
  "triple P m R \<Longrightarrow> (\<And>a. triple (R (Inr a)) (f a) Q) \<Longrightarrow> (\<And>e w. R (Inl e) w \<Longrightarrow> Q (Inl e) w) \<Longrightarrow> triple P (task_bind m f) Q"
  unfolding task_bind_def by (rule triple_try, assumption) (auto intro: triple_lift split: sum.split)

text \<open>A task that always returns a value and keeps \<open>P\<close>.\<close>

definition smooth :: "('r delivery_world \<Rightarrow> bool) \<Rightarrow> ('r, 'a) task \<Rightarrow> bool" where
  "smooth P m \<longleftrightarrow> triple P m (\<lambda>r w. (\<exists>a. r = Inr a) \<and> P w)"

lemma triple_smooth_bind: "smooth P m \<Longrightarrow> (\<And>a. triple P (f a) Q) \<Longrightarrow> triple P (task_bind m f) Q"
  unfolding smooth_def by (rule task_triple_bind, assumption) (auto intro: triple_pre)

lemma triple_bind_smooth:
  assumes "triple P m R" "\<And>a. smooth (R (Inr a)) (f a)" "\<And>a b w. R (Inr a) w \<Longrightarrow> Q (Inr b) w" "\<And>e w. R (Inl e) w \<Longrightarrow> Q (Inl e) w"
  shows "triple P (task_bind m f) Q"
  using assms(1)
proof (rule task_triple_bind)
  show "triple (R (Inr a)) (f a) Q" for a
    using assms(2) [of a] unfolding smooth_def by (rule triple_post) (use assms(3) in auto)
qed (rule assms(4))

lemma smooth_fresh: "(\<And>w n. P w \<Longrightarrow> P (w\<lparr>dw_tick := n\<rparr>)) \<Longrightarrow> smooth P (fresh f)"
  by (auto simp: smooth_def triple_def fresh_def)

section \<open>The row of a delivery\<close>

definition ledger_ok :: "delivery_tables \<Rightarrow> bool" where
  "ledger_ok t \<longleftrightarrow> distinct (map dr_id (dt_deliveries t)) \<and> list_all delivery_ok (dt_deliveries t)"

lemma ledger_ok_follows: "ledger_follows t t' \<Longrightarrow> ledger_ok t \<Longrightarrow> ledger_ok t'"
  by (auto simp: ledger_follows_def ledger_ok_def rows_follow_def)

text \<open>Other tasks leave a delivery alone whose identifier they have not drawn.\<close>

definition others_leave :: "'r delivery_env \<Rightarrow> string \<Rightarrow> bool" where
  "others_leave E i \<longleftrightarrow> (\<forall>n t q r. r \<in> set (dt_deliveries t) \<and> dr_id r = i \<longrightarrow>
     r \<in> set (dt_deliveries (fst (de_others E n t q))))"

definition row_in :: "string \<Rightarrow> (delivery_row \<Rightarrow> bool) \<Rightarrow> delivery_tables \<Rightarrow> bool" where
  "row_in i C t \<longleftrightarrow> ledger_ok t \<and> (\<exists>r \<in> set (dt_deliveries t). dr_id r = i \<and> C r)"

definition row_at :: "string \<Rightarrow> (delivery_row \<Rightarrow> bool) \<Rightarrow> (string \<times> json \<times> http_reply) list \<Rightarrow> 'r delivery_world \<Rightarrow> bool" where
  "row_at i C log w \<longleftrightarrow> row_in i C (tables_of w) \<and> dw_requests w = log"

lemma row_at_tick [simp]: "row_at i C log (w\<lparr>dw_tick := n\<rparr>) = row_at i C log w"
  by (simp add: row_at_def)

lemma row_at_queue [simp]: "row_at i C log (w\<lparr>dw_queue := q\<rparr>) = row_at i C log w"
  by (simp add: row_at_def)

lemma others_requests [simp]: "dw_requests (others E w) = dw_requests w"
  by (simp add: others_def split: prod.split)

lemma others_ok: "others_follow E \<Longrightarrow> ledger_ok (tables_of w) \<Longrightarrow> ledger_ok (tables_of (others E w))"
  using others_tables [of E w] by (auto simp: tables_follow_def intro: ledger_ok_follows)

lemma others_row:
  assumes "others_follow E" "others_leave E i" "row_in i C (tables_of w)"
  shows "row_in i C (tables_of (others E w))"
proof -
  obtain r where r: "r \<in> set (dt_deliveries (tables_of w))" "dr_id r = i" "C r" and ok: "ledger_ok (tables_of w)"
    using assms(3) by (auto simp: row_in_def)
  then have "r \<in> set (dt_deliveries (fst (de_others E (dw_tick w) (tables_of w) (dw_queue w))))"
    using assms(2) unfolding others_leave_def by blast
  then have "r \<in> set (dt_deliveries (tables_of (others E w)))"
    by (simp add: others_def split_def)
  with r others_ok [OF assms(1) ok] show ?thesis by (auto simp: row_in_def)
qed

lemma others_row_at:
  "others_follow E \<Longrightarrow> others_leave E i \<Longrightarrow> row_at i C log w \<Longrightarrow> row_at i C log (others E w)"
  by (simp add: row_at_def others_row)

lemma smooth_on_queue: "others_follow E \<Longrightarrow> others_leave E i \<Longrightarrow> smooth (row_at i C log) (on_queue E f)"
  by (auto simp: smooth_def triple_def on_queue_def Let_def others_row_at split: prod.splits)

lemma smooth_queue:
  "others_follow E \<Longrightarrow> others_leave E i \<Longrightarrow> smooth (row_at i C log) (queue_forget E j)"
  "others_follow E \<Longrightarrow> others_leave E i \<Longrightarrow> smooth (row_at i C log) (queue_enqueue E j)"
  unfolding queue_forget_def queue_enqueue_def by (blast intro: smooth_on_queue)+

lemma smooth_fresh_row: "smooth (row_at i C log) (fresh f)"
  by (rule smooth_fresh) simp

lemma filter_keyed:
  "distinct (map k xs) \<Longrightarrow> r \<in> set xs \<Longrightarrow> length (filter (\<lambda>x. k x = k r \<and> S x) xs) = (if S r then 1 else 0)"
proof (induction xs)
  case (Cons x xs)
  show ?case
  proof (cases "r \<in> set xs")
    case True
    with Cons have "k x \<noteq> k r" by (auto simp: image_iff)
    with Cons True show ?thesis by auto
  next
    case False
    then have x: "x = r" using Cons.prems by auto
    have "filter (\<lambda>y. k y = k r \<and> S y) xs = []"
      using Cons.prems(1) x by (auto simp: filter_empty_conv image_iff)
    with x show ?thesis by auto
  qed
qed simp

text \<open>A statement that moves the row from \<open>C\<close> to \<open>D\<close>, or fails.\<close>

lemma update_row:
  assumes "row_in i C (db_tables db)" "one_row e (update_deliveries (\<lambda>r. dr_id r = i \<and> S r) f) db = (res, db')"
    and "sql_evolves ledger_follows (one_row e (update_deliveries (\<lambda>r. dr_id r = i \<and> S r) f))"
    and "\<And>r. C r \<Longrightarrow> D (f r) \<and> dr_id (f r) = dr_id r"
  shows "(res = Inr () \<and> row_in i D (db_tables db')) \<or> (\<exists>e. res = Inl e \<and> row_in i C (db_tables db'))"
proof -
  let ?P = "\<lambda>r. dr_id r = i \<and> S r"
  obtain r where r: "r \<in> set (dt_deliveries (db_tables db))" "dr_id r = i" "C r" and ok: "ledger_ok (db_tables db)"
    using assms(1) by (auto simp: row_in_def)
  have ok': "ledger_ok (db_tables db')"
    using sql_evolvesD [OF assms(3,2)] ok by (rule ledger_ok_follows)
  obtain q db1 where q: "update_deliveries ?P f db = (q, db1)" by fastforce
  then show ?thesis
  proof (cases rule: update_deliveries_cases)
    case 1
    with q assms(2) have "res = Inl db_error" "db' = db1"
      by (auto simp: one_row_def sql_bind_def)
    with 1 assms(1) show ?thesis by simp
  next
    case 2
    have n: "length (filter ?P (dt_deliveries (db_tables db))) = (if S r then 1 else 0)"
      using filter_keyed [of dr_id "dt_deliveries (db_tables db)" r S] ok r by (simp add: ledger_ok_def)
    show ?thesis
    proof (cases "S r")
      case True
      then have "f r \<in> set (dt_deliveries (db_tables db1))"
        using r 2(2) by (auto intro!: image_eqI [of _ _ r])
      moreover have "res = Inr ()" "db' = db1"
        using q assms(2) 2(1) n True by (auto simp: one_row_def sql_bind_def sql_return_def)
      ultimately show ?thesis
        using ok' assms(4) [OF r(3)] r(2) by (auto simp: row_in_def)
    next
      case False
      then have "r \<in> set (dt_deliveries (db_tables db1))"
        using r 2(2) by (auto intro!: image_eqI [of _ _ r])
      moreover have "res = Inl e" "db' = db1"
        using q assms(2) 2(1) n False by (auto simp: one_row_def sql_bind_def sql_lift_def)
      ultimately show ?thesis
        using ok' r by (auto simp: row_in_def)
    qed
  qed
qed

lemma triple_update_row:
  assumes "others_follow E" "others_leave E i"
    and "sql_evolves ledger_follows (one_row e (update_deliveries (\<lambda>r. dr_id r = i \<and> S r) f))"
    and "\<And>r. C r \<Longrightarrow> D (f r) \<and> dr_id (f r) = dr_id r"
  shows "triple (row_at i C log) (db_query E (one_row e (update_deliveries (\<lambda>r. dr_id r = i \<and> S r) f)))
    (\<lambda>res w. (res = Inr () \<and> row_at i D log w) \<or> (\<exists>e. res = Inl e \<and> row_at i C log w))"
  unfolding triple_def
proof (intro allI impI)
  fix w w' :: "'a delivery_world" and res
  let ?m = "one_row e (update_deliveries (\<lambda>r. dr_id r = i \<and> S r) f)"
  assume w: "row_at i C log w" and run: "db_query E ?m w = (Finished res, w')"
  obtain db where db: "?m (dw_db (others E w)) = (res, db)" "w' = others E w\<lparr>dw_db := db\<rparr>"
    using run by (auto simp: db_query_def split: prod.splits)
  have "row_at i C log (others E w)" using assms(1,2) w by (rule others_row_at)
  then have row: "row_in i C (db_tables (dw_db (others E w)))" "dw_requests w = log"
    by (simp_all add: row_at_def)
  from update_row [OF row(1) db(1) assms(3,4)] row(2)
  show "(res = Inr () \<and> row_at i D log w') \<or> (\<exists>e. res = Inl e \<and> row_at i C log w')"
    unfolding db(2) by (simp add: row_at_def)
qed

text \<open>The states of a row a send goes through.\<close>

definition pending_state :: "delivery_row \<Rightarrow> bool" where
  "pending_state r \<longleftrightarrow> dr_status r = ''pending'' \<and> dr_external_message_id r = None"

definition sending_state :: "delivery_row \<Rightarrow> bool" where
  "sending_state r \<longleftrightarrow> dr_status r = ''sending'' \<and> dr_external_message_id r = None"

definition sent_state :: "i64 \<Rightarrow> delivery_row \<Rightarrow> bool" where
  "sent_state mid r \<longleftrightarrow> dr_status r = ''sent'' \<and> dr_external_message_id r = Some (int_to_string mid)"

lemmas state_defs = pending_state_def sending_state_def sent_state_def

definition moves :: "'r delivery_env \<Rightarrow> string \<Rightarrow> (delivery_row \<Rightarrow> bool) \<Rightarrow> (delivery_row \<Rightarrow> bool) \<Rightarrow> ('r, unit) task \<Rightarrow> bool" where
  "moves E i C D m \<longleftrightarrow> (\<forall>log. triple (row_at i C log) m
     (\<lambda>res w. (res = Inr () \<and> row_at i D log w) \<or> (\<exists>e. res = Inl e \<and> row_at i C log w)))"

lemma moves_then_queue:
  assumes "moves E i C D m" "\<And>C log. smooth (row_at i C log) q"
  shows "moves E i C D (task_bind m (\<lambda>_. q))"
  unfolding moves_def
proof
  fix log
  from assms(1) have "triple (row_at i C log) m
     (\<lambda>res w. (res = Inr () \<and> row_at i D log w) \<or> (\<exists>e. res = Inl e \<and> row_at i C log w))"
    by (simp add: moves_def)
  then show "triple (row_at i C log) (task_bind m (\<lambda>_. q))
     (\<lambda>res w. (res = Inr () \<and> row_at i D log w) \<or> (\<exists>e. res = Inl e \<and> row_at i C log w))"
    by (rule triple_bind_smooth) (use assms(2) in auto)
qed

lemma moves_after: "(\<And>C log. smooth (row_at i C log) m) \<Longrightarrow> (\<And>a. moves E i C D (f a)) \<Longrightarrow> moves E i C D (task_bind m f)"
  by (auto simp: moves_def intro: triple_smooth_bind)

lemma moves_lift: "(\<And>a. moves E i C D (f a)) \<Longrightarrow> moves E i C D (task_bind (task_lift r) f)"
  by (cases r) (auto simp: moves_def task_bind_def task_try_def task_lift_def triple_def)

lemma moves_bind_assoc: "moves E i C D (task_bind m (\<lambda>a. task_bind (g a) f)) \<Longrightarrow> moves E i C D (task_bind (task_bind m g) f)"
proof -
  have "task_bind (task_bind m g) f = task_bind m (\<lambda>a. task_bind (g a) f)"
    by (rule ext) (simp add: task_bind_def task_try_def task_lift_def split: prod.split outcome.split sum.split)
  then show "moves E i C D (task_bind m (\<lambda>a. task_bind (g a) f)) \<Longrightarrow> ?thesis" by simp
qed

lemma moves_statement:
  assumes "others_follow E" "others_leave E i"
    and "sql_evolves ledger_follows (one_row e (update_deliveries (\<lambda>r. dr_id r = i \<and> S r) f))"
    and "\<And>r. C r \<Longrightarrow> D (f r) \<and> dr_id (f r) = dr_id r"
  shows "moves E i C D (db_query E (one_row e (update_deliveries (\<lambda>r. dr_id r = i \<and> S r) f)))"
  unfolding moves_def by (intro allI triple_update_row assms)

lemma moves_marks:
  assumes "others_follow E" "others_leave E i"
  shows "moves E i (\<lambda>r. pending_state r \<and> dr_turn_id r = turn) (\<lambda>r. sending_state r \<and> dr_turn_id r = turn) (start_sending E i)"
    and "moves E i (\<lambda>r. sending_state r \<and> dr_turn_id r = turn) (\<lambda>r. sent_state mid r \<and> dr_turn_id r = turn) (mark_sent_result E i mid)"
    and "moves E i (\<lambda>r. sending_state r \<and> dr_turn_id r = turn) (\<lambda>r. dr_status r = ''unknown'' \<and> dr_turn_id r = turn) (mark_delivery_unknown E i err)"
    and "moves E i (\<lambda>r. sending_state r \<and> dr_turn_id r = turn) (\<lambda>r. dr_status r = ''failed'' \<and> dr_turn_id r = turn) (mark_delivery_failed E i err)"
    and "moves E i (\<lambda>r. sending_state r \<and> dr_turn_id r = turn) (\<lambda>r. dr_status r = ''retry_pending'' \<and> dr_turn_id r = turn) (mark_retry_pending E i err)"
proof -
  note st = moves_statement [OF assms]
  note ev = evolves_marks [unfolded mark_sending_def mark_sent_row_def mark_unknown_row_def mark_failed_row_def mark_retry_row_def]
  note go = moves_after [OF smooth_fresh_row] moves_then_queue smooth_queue [OF assms] st
  show "moves E i (\<lambda>r. pending_state r \<and> dr_turn_id r = turn) (\<lambda>r. sending_state r \<and> dr_turn_id r = turn) (start_sending E i)"
    unfolding start_sending_def mark_sending_def by (rule go ev | simp add: state_defs)+
  show "moves E i (\<lambda>r. sending_state r \<and> dr_turn_id r = turn) (\<lambda>r. sent_state mid r \<and> dr_turn_id r = turn) (mark_sent_result E i mid)"
    unfolding mark_sent_result_def mark_sent_row_def by (rule go ev | simp add: state_defs)+
  show "moves E i (\<lambda>r. sending_state r \<and> dr_turn_id r = turn) (\<lambda>r. dr_status r = ''unknown'' \<and> dr_turn_id r = turn) (mark_delivery_unknown E i err)"
    unfolding mark_delivery_unknown_def mark_unknown_row_def by (rule go ev | simp add: state_defs)+
  show "moves E i (\<lambda>r. sending_state r \<and> dr_turn_id r = turn) (\<lambda>r. dr_status r = ''failed'' \<and> dr_turn_id r = turn) (mark_delivery_failed E i err)"
    unfolding mark_delivery_failed_def mark_failed_row_def by (rule go ev | simp add: state_defs)+
  show "moves E i (\<lambda>r. sending_state r \<and> dr_turn_id r = turn) (\<lambda>r. dr_status r = ''retry_pending'' \<and> dr_turn_id r = turn) (mark_retry_pending E i err)"
    unfolding mark_retry_pending_def retry_at_rfc3339_def mark_retry_row_def
    by (rule go ev moves_bind_assoc moves_lift | simp add: state_defs split del: if_split | split if_split, intro conjI impI)+
qed

text \<open>What the service's answer means.\<close>

definition limited :: "http_reply \<Rightarrow> bool" where
  "limited reply \<longleftrightarrow> (case reply of Response status payload \<Rightarrow> is_rate_limited status payload | _ \<Rightarrow> False)"

definition refused :: "http_reply \<Rightarrow> bool" where
  "refused reply \<longleftrightarrow> (case reply of
      Response status payload \<Rightarrow> \<not> is_rate_limited status payload
        \<and> (\<not> (200 \<le> status \<and> status < 300) \<or> get_bool payload ''ok'' \<noteq> Some True)
    | _ \<Rightarrow> False)"

definition accepted :: "http_reply \<Rightarrow> i64 option" where
  "accepted reply = (case reply of
      Response status payload \<Rightarrow>
        if is_rate_limited status payload \<or> refused reply then None
        else Option.bind (json_pointer (case json_get payload ''result'' of Some r \<Rightarrow> r | None \<Rightarrow> JNull) [''message_id'']) as_i64
    | _ \<Rightarrow> None)"

definition answers :: "http_reply \<Rightarrow> i64 app_result \<Rightarrow> bool" where
  "answers reply res \<longleftrightarrow> (case res of
      Inr mid \<Rightarrow> accepted reply = Some mid
    | Inl e \<Rightarrow> accepted reply = None
        \<and> ((app_code e = ''TELEGRAM_RATE_LIMITED'' \<and> limited reply)
           \<or> (app_code e \<in> {''TELEGRAM_REQUEST_FAILED'', ''TELEGRAM_RESPONSE_INVALID''} \<and> \<not> limited reply \<and> \<not> refused reply)
           \<or> (app_code e = ''TELEGRAM_API_ERROR'' \<and> refused reply)))"

text \<open>The result of \<^verbatim>\<open>call\<close> in the same terms.\<close>

text \<open>What a call returns for a reply of the service; it may unwind where the description is redacted.\<close>

definition reply_result :: "http_reply \<Rightarrow> json app_result call" where
  "reply_result reply = (case reply of
      Request_failed \<Rightarrow> Returns (Inl (bad_gateway ''TELEGRAM_REQUEST_FAILED'' ''Telegram request failed''))
    | Body_invalid err \<Rightarrow> Returns (Inl (bad_gateway ''TELEGRAM_RESPONSE_INVALID'' err))
    | Response status payload \<Rightarrow>
        if is_rate_limited status payload then
          map_call (\<lambda>d. Inl (rate_limit_error d (reply_retry_after payload)))
            (safe_telegram_description (get_str payload ''description'') ''Telegram API rate limited'')
        else if \<not> (200 \<le> status \<and> status < 300) \<or> get_bool payload ''ok'' \<noteq> Some True then
          map_call (\<lambda>d. Inl (bad_gateway ''TELEGRAM_API_ERROR'' d))
            (safe_telegram_description (get_str payload ''description'') ''Telegram API request failed'')
        else Returns (Inr (case json_get payload ''result'' of Some r \<Rightarrow> r | None \<Rightarrow> JNull)))"

definition call_answers :: "http_reply \<Rightarrow> json app_result \<Rightarrow> bool" where
  "call_answers reply res \<longleftrightarrow> reply_result reply = Returns res \<and> (case res of
      Inr v \<Rightarrow> (\<exists>status payload. reply = Response status payload \<and> \<not> limited reply \<and> \<not> refused reply
        \<and> v = (case json_get payload ''result'' of Some r \<Rightarrow> r | None \<Rightarrow> JNull))
    | Inl e \<Rightarrow> accepted reply = None
        \<and> ((app_code e = ''TELEGRAM_RATE_LIMITED'' \<and> limited reply)
           \<or> (app_code e \<in> {''TELEGRAM_REQUEST_FAILED'', ''TELEGRAM_RESPONSE_INVALID''} \<and> \<not> limited reply \<and> \<not> refused reply)
           \<or> (app_code e = ''TELEGRAM_API_ERROR'' \<and> refused reply)))"

lemma triple_wait:
  assumes "\<And>w. P w \<Longrightarrow> P (others E w)"
  shows "smooth P (wait_for_cooldown E)"
proof -
  have "P w \<Longrightarrow> P ((others E ^^ n) w)" for w n
    by (induction n) (simp_all add: assms)
  then show ?thesis
    unfolding smooth_def triple_def wait_for_cooldown_def
    by (auto simp del: funpow.simps split: option.splits)
qed

lemma triple_task_call: "(\<And>x. c = Returns x \<Longrightarrow> triple P (f x) Q) \<Longrightarrow> triple P (task_bind (task_call c) f) Q"
  by (cases c) (auto simp: triple_def task_bind_def task_try_def task_call_def)

text \<open>Every call makes one request. \<open>P\<close> is a condition on worlds that other tasks keep.\<close>

lemma triple_read_reply:
  assumes "\<And>w. P w \<Longrightarrow> P (others E w)" "\<And>w n q. P w \<Longrightarrow> P (w\<lparr>dw_queue := q, dw_tick := n\<rparr>)"
  shows "triple P (read_reply E reply) (\<lambda>res w. P w \<and> call_answers reply res)"
proof (cases reply)
  case (Response status payload)
  have cool: "smooth P (set_cooldown E n)" for n
    unfolding set_cooldown_def smooth_def triple_def on_queue_def Let_def
    by (auto split: prod.splits intro!: assms)
  show ?thesis
    unfolding Response read_reply_def http_reply.case
    by (intro triple_smooth_bind [OF cool] triple_task_call triple_lift
        if_split [where P = "\<lambda>m. triple P m Q" for Q, THEN iffD2] conjI impI)
       (auto simp: call_answers_def reply_result_def map_call_def rate_limit_error_def app_error_defs accepted_def
          limited_def refused_def)
qed (auto intro!: triple_lift simp: read_reply_def call_answers_def reply_result_def app_error_defs accepted_def limited_def refused_def)

lemma triple_api_call:
  assumes keep: "\<And>log w. P log w \<Longrightarrow> P log (others E w)"
    and tick: "\<And>log w n q. P log w \<Longrightarrow> P log (w\<lparr>dw_queue := q, dw_tick := n\<rparr>)"
    and req: "\<And>log w x reply. P log w \<Longrightarrow> P (log @ [(meth, body, reply)]) (w\<lparr>dw_remote := x, dw_requests := dw_requests w @ [(meth, body, reply)]\<rparr>)"
  shows "triple (P log) (api_call E meth body) (\<lambda>res w. \<exists>reply. P (log @ [(meth, body, reply)]) w \<and> call_answers reply res)"
  unfolding api_call_def
proof (rule triple_smooth_bind)
  show "smooth (P log) (wait_for_cooldown E)"
    by (rule triple_wait) (rule keep)
  let ?post = "\<lambda>res w. \<exists>reply. res = Inr reply \<and> P (log @ [(meth, body, reply)]) w"
  show "triple (P log) (task_bind (post E meth body) (read_reply E))
    (\<lambda>res w. \<exists>reply. P (log @ [(meth, body, reply)]) w \<and> call_answers reply res)"
  proof (rule task_triple_bind)
    show "triple (P log) (post E meth body) ?post"
      by (auto simp: triple_def post_def split: prod.splits intro!: keep req)
    fix reply
    have "triple (P (log @ [(meth, body, reply)])) (read_reply E reply)
      (\<lambda>res w. P (log @ [(meth, body, reply)]) w \<and> call_answers reply res)"
      by (rule triple_read_reply) (auto intro: keep tick)
    then show "triple (?post (Inr reply)) (read_reply E reply)
      (\<lambda>res w. \<exists>reply. P (log @ [(meth, body, reply)]) w \<and> call_answers reply res)"
      by (auto simp: triple_def)
  qed simp
qed

lemma answers_message_id: "call_answers reply (Inr v) \<Longrightarrow> answers reply (message_id_of v)"
  by (auto simp: call_answers_def answers_def message_id_of_def ok_or_def app_error_defs accepted_def limited_def
      split: option.split)

lemma answers_error: "call_answers reply (Inl e) \<Longrightarrow> answers reply (Inl e)"
  by (simp add: call_answers_def answers_def)

lemma triple_send_message:
  assumes "others_follow E" "others_leave E i"
  shows "triple (row_at i C log) (send_message E message markup)
    (\<lambda>res w. \<exists>reply. row_at i C (log @ [(''sendMessage'', message_body (td_chat_id E) message markup, reply)]) w \<and> answers reply res)"
  unfolding send_message_def
proof (rule task_triple_bind)
  show "triple (row_at i C log) (api_call E ''sendMessage'' (message_body (td_chat_id E) message markup))
    (\<lambda>res w. \<exists>reply. row_at i C (log @ [(''sendMessage'', message_body (td_chat_id E) message markup, reply)]) w \<and> call_answers reply res)"
    by (rule triple_api_call [where P = "row_at i C"]) (auto simp: row_at_def intro: others_row assms)
qed (auto intro!: triple_lift dest: answers_message_id answers_error)

text \<open>The row after a failed confirmation.\<close>

lemma one_row_same: "m db = (q, db') \<Longrightarrow> \<exists>r. one_row e m db = (r, db')"
  by (cases q) (simp_all add: one_row_def sql_bind_def sql_return_def sql_lift_def)

lemma triple_fail_unknown:
  assumes E: "others_follow E" "others_leave E i"
  shows "triple (row_at i (\<lambda>r. sending_state r \<and> dr_turn_id r = turn) log) (fail_unknown E i err)
    (\<lambda>res w. (\<exists>e. res = Inl e \<and> app_code e \<in> {UNKNOWN_CODE, ''INTERNAL_ERROR''})
       \<and> row_at i (\<lambda>r. dr_status r \<in> {''sending'', ''unknown''} \<and> dr_turn_id r = turn) log w)"
  unfolding fail_unknown_def
proof (rule task_triple_bind)
  let ?S = "row_at i (\<lambda>r. sending_state r \<and> dr_turn_id r = turn) log"
  let ?D = "row_at i (\<lambda>r. dr_status r \<in> {''sending'', ''unknown''} \<and> dr_turn_id r = turn) log"
  have q: "triple ?S (db_query E (mark_unknown_after terminal now i)) (\<lambda>_. ?D)" for terminal now
    unfolding triple_def
  proof (intro allI impI)
    fix w w' :: "'a delivery_world" and res
    let ?m = "mark_unknown_after terminal now i"
    assume w: "?S w" and run: "db_query E ?m w = (Finished res, w')"
    obtain db where db: "?m (dw_db (others E w)) = (res, db)" "w' = others E w\<lparr>dw_db := db\<rparr>"
      using run by (auto simp: db_query_def split: prod.splits)
    obtain res1 where one: "one_row err ?m (dw_db (others E w)) = (res1, db)"
      using one_row_same [of ?m, OF db(1)] by blast
    have "?S (others E w)" using E w by (rule others_row_at)
    then have row: "row_in i (\<lambda>r. sending_state r \<and> dr_turn_id r = turn) (db_tables (dw_db (others E w)))" "dw_requests w = log"
      by (simp_all add: row_at_def)
    have "sql_evolves ledger_follows (one_row err ?m)"
      by (intro evolves_one_row evolves_marks)
    from update_row [OF row(1) one [unfolded mark_unknown_after_def] this [unfolded mark_unknown_after_def],
        of "\<lambda>r. dr_status r = ''unknown'' \<and> dr_turn_id r = turn"] row(2)
    show "?D w'"
      unfolding db(2) by (auto simp: row_at_def row_in_def state_defs)
  qed
  show "triple ?S (mark_unknown_after_persistence_failure E i err)
    (\<lambda>res w. (\<exists>e. res = Inr e \<and> app_code e \<in> {UNKNOWN_CODE, ''INTERNAL_ERROR''}) \<and> ?D w)"
    unfolding mark_unknown_after_persistence_failure_def
    by (intro triple_smooth_bind [OF smooth_queue(1) [OF E]] triple_smooth_bind [OF smooth_fresh_row] triple_try [OF q] triple_lift)
       (auto simp: app_error_defs split: sum.split)
qed (auto intro: triple_lift)

lemma triple_create:
  assumes "others_follow E"
  shows "triple (\<lambda>w. ledger_ok (tables_of w) \<and> dw_requests w = log) (create_record E kind turn)
    (\<lambda>res w. case res of
       Inr i \<Rightarrow> i \<in> range (de_new_id E) \<and> row_at i (\<lambda>r. pending_state r \<and> dr_turn_id r = turn) log w
     | Inl e \<Rightarrow> dw_requests w = log)"
  unfolding create_record_def
proof (rule task_triple_bind)
  let ?P = "\<lambda>w. ledger_ok (tables_of w) \<and> dw_requests w = log"
  show "triple ?P (fresh (de_new_id E)) (\<lambda>res w. \<exists>i \<in> range (de_new_id E). res = Inr i \<and> ?P w)"
    by (auto simp: triple_def fresh_def)
  fix i
  show "triple (\<lambda>w. \<exists>j \<in> range (de_new_id E). Inr i = Inr j \<and> ?P w) (task_bind (fresh (de_now E)) (\<lambda>now.
      db_query E (create_delivery i now (td_bot_id E) (td_chat_id E) kind turn)))
    (\<lambda>res w. case res of
       Inr i \<Rightarrow> i \<in> range (de_new_id E) \<and> row_at i (\<lambda>r. pending_state r \<and> dr_turn_id r = turn) log w
     | Inl e \<Rightarrow> dw_requests w = log)"
  proof (rule triple_smooth_bind)
    show "smooth (\<lambda>w. \<exists>j \<in> range (de_new_id E). Inr i = Inr j \<and> ?P w) (fresh (de_now E))"
      by (rule smooth_fresh) auto
    fix now
    let ?m = "create_delivery i now (td_bot_id E) (td_chat_id E) kind turn"
    show "triple (\<lambda>w. \<exists>j \<in> range (de_new_id E). Inr i = Inr j \<and> ?P w) (db_query E ?m)
      (\<lambda>res w. case res of
         Inr i \<Rightarrow> i \<in> range (de_new_id E) \<and> row_at i (\<lambda>r. pending_state r \<and> dr_turn_id r = turn) log w
       | Inl e \<Rightarrow> dw_requests w = log)"
      unfolding triple_def
    proof (intro allI impI)
      fix w w' :: "'a delivery_world" and res
      assume "\<exists>j \<in> range (de_new_id E). Inr i = Inr j \<and> ?P w" and run: "db_query E ?m w = (Finished res, w')"
      then have w: "i \<in> range (de_new_id E)" "ledger_ok (tables_of w)" "dw_requests w = log" by auto
      obtain db where db: "?m (dw_db (others E w)) = (res, db)" "w' = others E w\<lparr>dw_db := db\<rparr>"
        using run by (auto simp: db_query_def split: prod.splits)
      have "ledger_ok (db_tables db)"
        using sql_evolvesD [OF evolves_create db(1)] others_ok [OF assms w(2)] by (rule ledger_ok_follows)
      moreover have "\<exists>r \<in> set (dt_deliveries (db_tables db)). dr_id r = j \<and> pending_state r \<and> dr_turn_id r = turn \<and> j = i"
        if "res = Inr j" for j
        using created_row [OF db(1) [unfolded that]] by (auto simp: state_defs)
      ultimately show "case res of
          Inr i \<Rightarrow> i \<in> range (de_new_id E) \<and> row_at i (\<lambda>r. pending_state r \<and> dr_turn_id r = turn) log w'
        | Inl e \<Rightarrow> dw_requests w' = log"
        using w unfolding db(2) by (auto simp: row_at_def row_in_def split: sum.split)
    qed
  qed
qed auto

text \<open>How the row of a delivery and the result of a send agree with the answer of the service.\<close>

definition recorded :: "http_reply \<Rightarrow> delivery_row \<Rightarrow> i64 app_result \<Rightarrow> bool" where
  "recorded reply row res \<longleftrightarrow> (case res of
      Inr mid \<Rightarrow> accepted reply = Some mid \<and> sent_state mid row
    | Inl e \<Rightarrow>
        if accepted reply = None
        then dr_status row \<in> {''sending'', ''unknown'', ''retry_pending'', ''failed''}
          \<and> (dr_status row = ''retry_pending'' \<longrightarrow> limited reply) \<and> (dr_status row = ''failed'' \<longrightarrow> refused reply)
        else dr_status row \<in> {''sending'', ''unknown''} \<and> app_code e \<in> {UNKNOWN_CODE, ''INTERNAL_ERROR''})"

definition send_recorded_as :: "'r delivery_env \<Rightarrow> string \<Rightarrow> json option \<Rightarrow> string option \<Rightarrow> string
    \<Rightarrow> (string \<times> json \<times> http_reply) list \<Rightarrow> i64 app_result \<Rightarrow> 'r delivery_world \<Rightarrow> bool" where
  "send_recorded_as E message markup turn i log res w \<longleftrightarrow>
     (\<exists>reply. row_at i (\<lambda>r. recorded reply r res \<and> dr_turn_id r = turn)
        (log @ [(''sendMessage'', message_body (td_chat_id E) message markup, reply)]) w)"

lemma row_at_mono: "row_at i C log w \<Longrightarrow> (\<And>r. C r \<Longrightarrow> D r) \<Longrightarrow> row_at i D log w"
  by (auto simp: row_at_def row_in_def)

lemma triple_ex: "(\<And>x. triple (P x) m Q) \<Longrightarrow> triple (\<lambda>w. \<exists>x. P x w) m Q"
  by (auto simp: triple_def)

lemma triple_given: "(c \<Longrightarrow> triple P m Q) \<Longrightarrow> triple (\<lambda>w. P w \<and> c) m Q"
  by (auto simp: triple_def)

lemma recordedI:
  "row_at i (\<lambda>r. C r \<and> dr_turn_id r = turn) (log @ [(''sendMessage'', message_body (td_chat_id E) message markup, reply)]) w \<Longrightarrow>
   (\<And>r. C r \<Longrightarrow> recorded reply r res) \<Longrightarrow> send_recorded_as E message markup turn i log res w"
  unfolding send_recorded_as_def by (blast intro: row_at_mono)

lemma recorded_states:
  "accepted reply = Some mid \<Longrightarrow> sent_state mid r \<Longrightarrow> recorded reply r (Inr mid)"
  "accepted reply = None \<Longrightarrow> sending_state r \<Longrightarrow> recorded reply r (Inl e)"
  by (simp_all add: recorded_def state_defs)

lemma triple_confirm:
  assumes E: "others_follow E" "others_leave E i" and reply: "answers reply (Inr mid)"
  shows "triple (row_at i (\<lambda>r. sending_state r \<and> dr_turn_id r = turn)
      (log @ [(''sendMessage'', message_body (td_chat_id E) message markup, reply)]))
    (or_unknown E i (mark_sent_result E i mid) (\<lambda>_. task_return mid))
    (send_recorded_as E message markup turn i log)"
  unfolding or_unknown_def
proof (rule triple_try [OF moves_marks(2) [OF E, unfolded moves_def, rule_format]])
  fix r :: "unit app_result"
  let ?log = "log @ [(''sendMessage'', message_body (td_chat_id E) message markup, reply)]"
  show "triple (\<lambda>w. r = Inr () \<and> row_at i (\<lambda>r. sent_state mid r \<and> dr_turn_id r = turn) ?log w
        \<or> (\<exists>e. r = Inl e \<and> row_at i (\<lambda>r. sending_state r \<and> dr_turn_id r = turn) ?log w))
      (case r of Inl err \<Rightarrow> fail_unknown E i err | Inr a \<Rightarrow> task_return mid) (send_recorded_as E message markup turn i log)"
  proof (cases r)
    case (Inl err)
    have "triple (row_at i (\<lambda>r. sending_state r \<and> dr_turn_id r = turn) ?log) (fail_unknown E i err) (send_recorded_as E message markup turn i log)"
      using triple_fail_unknown [OF E]
      by (rule triple_post) (use reply in \<open>auto elim!: recordedI simp: recorded_def answers_def state_defs\<close>)
    with Inl show ?thesis by (simp add: triple_def)
  next
    case (Inr u)
    then show ?thesis
      using reply by (auto intro!: triple_lift elim!: recordedI simp: answers_def recorded_states)
  qed
qed

lemma triple_send_error:
  assumes E: "others_follow E" "others_leave E i" and reply: "answers reply (Inl err)"
  shows "triple (row_at i (\<lambda>r. sending_state r \<and> dr_turn_id r = turn)
      (log @ [(''sendMessage'', message_body (td_chat_id E) message markup, reply)]))
    (task_bind (mark_send_error E i err) (\<lambda>_. task_lift (Inl err)))
    (send_recorded_as E message markup turn i log)"
proof -
  let ?log = "log @ [(''sendMessage'', message_body (td_chat_id E) message markup, reply)]"
  let ?S = "\<lambda>r. sending_state r \<and> dr_turn_id r = turn"
  have step: "triple (row_at i ?S ?log) (task_bind m (\<lambda>_. task_lift (Inl err))) (send_recorded_as E message markup turn i log)"
    if "moves E i ?S (\<lambda>r. dr_status r = st \<and> dr_turn_id r = turn) m"
      "st = ''unknown'' \<or> (st = ''retry_pending'' \<and> limited reply) \<or> (st = ''failed'' \<and> refused reply)" for m st
  proof (rule task_triple_bind [OF that(1) [unfolded moves_def, rule_format]])
    have acc: "accepted reply = None" using reply by (simp add: answers_def)
    show "triple (\<lambda>w. Inr a = Inr () \<and> row_at i (\<lambda>r. dr_status r = st \<and> dr_turn_id r = turn) ?log w
        \<or> (\<exists>e. Inr a = Inl e \<and> row_at i ?S ?log w)) (task_lift (Inl err)) (send_recorded_as E message markup turn i log)" for a
      using that(2) acc by (intro triple_lift) (auto elim!: recordedI simp: recorded_def state_defs)
    show "send_recorded_as E message markup turn i log (Inl e) w"
      if "Inl e = Inr () \<and> row_at i (\<lambda>r. dr_status r = st \<and> dr_turn_id r = turn) ?log w
        \<or> (\<exists>ea. Inl e = Inl ea \<and> row_at i ?S ?log w)" for e w
      using that acc by (auto elim!: recordedI simp: recorded_states)
  qed
  show ?thesis
    unfolding mark_send_error_def
    using reply step [OF moves_marks(3) [OF E]] step [OF moves_marks(4) [OF E]] step [OF moves_marks(5) [OF E]]
    by (auto simp: answers_def)
qed

lemma triple_send_confirmed:
  assumes E: "others_follow E" "others_leave E i"
  shows "triple (row_at i (\<lambda>r. sending_state r \<and> dr_turn_id r = turn) log)
    (send_recorded E i message markup (\<lambda>mid. or_unknown E i (mark_sent_result E i mid) (\<lambda>_. task_return mid)))
    (send_recorded_as E message markup turn i log)"
  unfolding send_recorded_def
  by (rule triple_try [OF triple_send_message [OF E]], rule triple_ex, rule triple_given)
     (auto intro: triple_confirm [OF E] triple_send_error [OF E] split: sum.split)

text \<open>C8. One message, one record: \<^verbatim>\<open>send_single_reply_result\<close> makes at most one request, and then the row of its
  delivery agrees with the answer. It succeeds only when the service accepted the message, and the
  row then holds the message id. An accepted message is never left to be sent again and never
  recorded as failed; a row that waits for a retry belongs to a message the service refused for its
  rate, a failed one to a message it refused.\<close>

theorem delivery_record_sound:
  fixes E :: "'r delivery_env"
  assumes others: "others_follow E" "\<forall>n. others_leave E (de_new_id E n)"
    and start: "ledger_ok (tables_of w)"
    and run: "send_single_reply_result E turn message markup w = (Finished res, w')"
  shows "(\<exists>e. res = Inl e \<and> dw_requests w' = dw_requests w)
    \<or> (\<exists>reply row. dw_requests w' = dw_requests w @ [(''sendMessage'', message_body (td_chat_id E) message markup, reply)]
        \<and> row \<in> set (dt_deliveries (tables_of w')) \<and> dr_id row \<in> range (de_new_id E) \<and> dr_turn_id row = turn
        \<and> recorded reply row res)"
proof -
  let ?log = "dw_requests w"
  let ?Q = "\<lambda>res w'. (\<exists>e. res = Inl e \<and> dw_requests w' = ?log)
    \<or> (\<exists>i \<in> range (de_new_id E). send_recorded_as E message markup turn i ?log res w')"
  have "triple (\<lambda>w. ledger_ok (tables_of w) \<and> dw_requests w = ?log) (send_single_reply_result E turn message markup) ?Q"
    unfolding send_single_reply_result_def
  proof (rule task_triple_bind [OF triple_create [OF others(1)]])
    fix i
    show "triple (\<lambda>w. case Inr i of Inl e \<Rightarrow> dw_requests w = ?log
        | Inr i \<Rightarrow> i \<in> range (de_new_id E) \<and> row_at i (\<lambda>r. pending_state r \<and> dr_turn_id r = turn) ?log w)
      (task_bind (start_sending E i) (\<lambda>_. send_recorded E i message markup
         (\<lambda>mid. or_unknown E i (mark_sent_result E i mid) (\<lambda>_. task_return mid)))) ?Q"
    proof (cases "i \<in> range (de_new_id E)")
      case True
      then have i: "others_leave E i" using others(2) by auto
      have "triple (row_at i (\<lambda>r. pending_state r \<and> dr_turn_id r = turn) ?log)
        (task_bind (start_sending E i) (\<lambda>_. send_recorded E i message markup
           (\<lambda>mid. or_unknown E i (mark_sent_result E i mid) (\<lambda>_. task_return mid)))) ?Q"
      proof (rule task_triple_bind [OF moves_marks(1) [OF others(1) i, unfolded moves_def, rule_format]])
        show "triple (\<lambda>w. Inr a = Inr () \<and> row_at i (\<lambda>r. sending_state r \<and> dr_turn_id r = turn) ?log w
            \<or> (\<exists>e. Inr a = Inl e \<and> row_at i (\<lambda>r. pending_state r \<and> dr_turn_id r = turn) ?log w))
          (send_recorded E i message markup (\<lambda>mid. or_unknown E i (mark_sent_result E i mid) (\<lambda>_. task_return mid))) ?Q" for a
        proof -
          have "triple (row_at i (\<lambda>r. sending_state r \<and> dr_turn_id r = turn) ?log)
            (send_recorded E i message markup (\<lambda>mid. or_unknown E i (mark_sent_result E i mid) (\<lambda>_. task_return mid))) ?Q"
            using triple_send_confirmed [OF others(1) i] by (rule triple_post) (use True in blast)
          then show ?thesis by (rule triple_pre) auto
        qed
      qed (auto simp: row_at_def)
      with True show ?thesis by (simp add: triple_def)
    qed (simp add: triple_def)
  qed auto
  from tripleD [OF this _ run] start have "?Q res w'" by simp
  then show ?thesis
    by (auto simp: send_recorded_as_def row_at_def row_in_def)
qed

section \<open>The requests a reply makes\<close>

definition sent_messages :: "json list \<Rightarrow> http_reply list \<Rightarrow> (string \<times> json \<times> http_reply) list" where
  "sent_messages bodies replies = map (\<lambda>(b, r). (''sendMessage'', b, r)) (zip bodies replies)"

text \<open>However the task ends, it has sent a prefix of the bodies; when it returns a value it has sent them
  all, and \<open>V\<close> relates the value to the answers.\<close>

definition sends :: "json list \<Rightarrow> ('a \<Rightarrow> http_reply list \<Rightarrow> bool) \<Rightarrow> ('r, 'a) task \<Rightarrow> bool" where
  "sends bodies V m \<longleftrightarrow> (\<forall>w x w'. m w = (x, w') \<longrightarrow> (\<exists>replies. length replies \<le> length bodies
     \<and> dw_requests w' = dw_requests w @ sent_messages bodies replies
     \<and> (\<forall>a. x = Finished (Inr a) \<longrightarrow> length replies = length bodies \<and> V a replies)))"

lemma sendsE:
  assumes "sends bodies V m" "m w = (x, w')"
  obtains replies where "length replies \<le> length bodies" "dw_requests w' = dw_requests w @ sent_messages bodies replies"
    "\<forall>a. x = Finished (Inr a) \<longrightarrow> length replies = length bodies \<and> V a replies"
  using assms(1) [unfolded sends_def, rule_format, OF assms(2)] that by (elim exE conjE)

abbreviation quiet :: "('r, 'a) task \<Rightarrow> bool" where
  "quiet m \<equiv> sends [] (\<lambda>_ _. True) m"

definition quiet_failure :: "('r, 'a) task \<Rightarrow> bool" where
  "quiet_failure m \<longleftrightarrow> (\<forall>w x w'. m w = (x, w') \<longrightarrow> dw_requests w' = dw_requests w \<and> (\<forall>a. x \<noteq> Finished (Inr a)))"

lemma quiet_iff: "quiet m \<longleftrightarrow> (\<forall>w. dw_requests (snd (m w)) = dw_requests w)"
proof
  assume "quiet m"
  then show "\<forall>w. dw_requests (snd (m w)) = dw_requests w"
    by (auto simp: sends_def sent_messages_def) (metis surj_pair snd_conv)
qed (auto simp: sends_def sent_messages_def, metis snd_conv)

lemma quiet_basic [intro!]:
  "quiet (task_lift r)" "quiet (task_call c)" "quiet (fresh f)" "quiet (pause E)" "quiet (db_query E m)" "quiet (on_queue E g)"
  by (auto simp: quiet_iff task_lift_def task_call_def fresh_def pause_def db_query_def on_queue_def Let_def
      split: call.split prod.split)

lemma quiet_failure_lift [intro!]: "quiet_failure (task_lift (Inl e))"
  by (simp add: quiet_failure_def task_lift_def)

lemma sends_stops:
  assumes "sends bodies V m" "m w = (x, w')" "\<And>a. x \<noteq> Finished (Inr a)"
  shows "\<exists>replies. length replies \<le> length (bodies @ cs) \<and> dw_requests w' = dw_requests w @ sent_messages (bodies @ cs) replies"
proof -
  obtain replies where "length replies \<le> length bodies" "dw_requests w' = dw_requests w @ sent_messages bodies replies"
    using sendsE [OF assms(1,2)] by metis
  then show ?thesis
    by (intro exI [of _ replies]) (simp add: sent_messages_def zip_append1)
qed

lemma sends_try:
  assumes m: "sends bodies V m" and ok: "\<And>a. sends cs (U a) (f (Inr a))" and err: "\<And>e. quiet_failure (f (Inl e))"
    and VU: "\<And>a b rs ss. V a rs \<Longrightarrow> U a b ss \<Longrightarrow> length rs = length bodies \<Longrightarrow> length ss = length cs \<Longrightarrow> W b (rs @ ss)"
  shows "sends (bodies @ cs) W (task_try m f)"
  unfolding sends_def
proof (intro allI impI)
  fix w x w'
  assume run: "task_try m f w = (x, w')"
  obtain y w1 where y: "m w = (y, w1)" by fastforce
  show "\<exists>replies. length replies \<le> length (bodies @ cs) \<and> dw_requests w' = dw_requests w @ sent_messages (bodies @ cs) replies
     \<and> (\<forall>a. x = Finished (Inr a) \<longrightarrow> length replies = length (bodies @ cs) \<and> W a replies)"
  proof (cases "\<exists>a. y = Finished (Inr a)")
    case True
    then obtain a where a: "y = Finished (Inr a)" by blast
    with y run have "f (Inr a) w1 = (x, w')" by (simp add: task_try_def)
    moreover obtain rs where rs: "length rs = length bodies" "dw_requests w1 = dw_requests w @ sent_messages bodies rs" "V a rs"
      using sendsE [OF m y] a by metis
    ultimately obtain ss where ss: "length ss \<le> length cs" "dw_requests w' = dw_requests w1 @ sent_messages cs ss"
      "\<forall>b. x = Finished (Inr b) \<longrightarrow> length ss = length cs \<and> U a b ss"
      using sendsE [OF ok [of a]] by metis
    with rs VU show ?thesis
      by (intro exI [of _ "rs @ ss"]) (auto simp: sent_messages_def)
  next
    case False
    then have "dw_requests w' = dw_requests w1 \<and> (\<forall>a. x \<noteq> Finished (Inr a))"
      using run y err by (auto simp: task_try_def quiet_failure_def split: outcome.splits sum.splits) (metis sum.exhaust)+
    with sends_stops [OF m y, of cs] False show ?thesis by auto
  qed
qed

lemma sends_bind:
  assumes "sends bodies V m" "\<And>a. sends cs (U a) (f a)"
    and "\<And>a b rs ss. V a rs \<Longrightarrow> U a b ss \<Longrightarrow> length rs = length bodies \<Longrightarrow> length ss = length cs \<Longrightarrow> W b (rs @ ss)"
  shows "sends (bodies @ cs) W (task_bind m f)"
  unfolding task_bind_def by (rule sends_try [OF assms(1), where U = U]) (use assms(2,3) in auto)

text \<open>Quiet steps before and after.\<close>

lemma sends_after: "quiet m \<Longrightarrow> (\<And>a. sends cs W (f a)) \<Longrightarrow> sends cs W (task_bind m f)"
  using sends_bind [of "[]" "\<lambda>_ _. True" m cs "\<lambda>_. W" f W] by simp

lemma quiet_bind [intro!]: "quiet m \<Longrightarrow> (\<And>a. quiet (f a)) \<Longrightarrow> quiet (task_bind m f)"
  by (rule sends_after)

lemma quiet_try [intro!]: "quiet m \<Longrightarrow> (\<And>r. quiet (f r)) \<Longrightarrow> quiet (task_try m f)"
  unfolding quiet_iff task_try_def by (auto split: prod.split outcome.split) (metis snd_conv)+

lemma quiet_failure_bind: "quiet m \<Longrightarrow> (\<And>a. quiet_failure (f a)) \<Longrightarrow> quiet_failure (task_bind m f)"
  unfolding quiet_iff quiet_failure_def task_bind_def task_try_def task_lift_def
  by (auto split: prod.splits outcome.splits sum.splits) (metis snd_conv)+

lemma quiet_if [intro!]: "quiet m \<Longrightarrow> quiet n \<Longrightarrow> quiet (if c then m else n)"
  by simp

lemma quiet_tasks [intro!]:
  "quiet (create_record E kind turn)" "quiet (start_sending E i)" "quiet (mark_sent_result E i mid)" "quiet (mark_send_error E i err)"
  "quiet (mark_unknown_after_persistence_failure E i err)"
  "quiet (record_scoped_turn_message_with_revision E meta chunk mid message status version)"
  unfolding create_record_def start_sending_def mark_sent_result_def mark_send_error_def mark_retry_pending_def retry_at_rfc3339_def
    mark_delivery_unknown_def mark_delivery_failed_def queue_forget_def queue_enqueue_def mark_unknown_after_persistence_failure_def
    record_scoped_turn_message_with_revision_def
  by auto

lemma quiet_wait [intro!]: "quiet (wait_for_cooldown E)"
proof -
  have "dw_requests ((others E ^^ n) w) = dw_requests w" for n w
    by (induction n) simp_all
  then show ?thesis
    by (auto simp: quiet_iff wait_for_cooldown_def simp del: funpow.simps split: option.split)
qed

lemma sends_mono: "sends cs V m \<Longrightarrow> (\<And>a rs. V a rs \<Longrightarrow> W a rs) \<Longrightarrow> sends cs W m"
  unfolding sends_def by metis

lemma sends_or_unknown: "quiet m \<Longrightarrow> (\<And>a. sends cs W (f a)) \<Longrightarrow> sends cs W (or_unknown E i m f)"
  unfolding or_unknown_def fail_unknown_def
  using sends_try [of "[]" "\<lambda>_ _. True" m cs "\<lambda>_. W" "\<lambda>r. case r of Inl err \<Rightarrow> task_bind (mark_unknown_after_persistence_failure E i err) (\<lambda>e. task_lift (Inl e)) | Inr a \<Rightarrow> f a" W]
  by (auto intro: quiet_failure_bind)

lemma quiet_read_reply: "quiet (read_reply E reply)"
  unfolding read_reply_def set_cooldown_def by (cases reply) (auto split del: if_split)

lemma sends_read_reply: "sends [] (\<lambda>v _. call_answers reply (Inr v)) (read_reply E reply)"
  unfolding sends_def
proof (intro allI impI exI conjI)
  fix w x w'
  assume run: "read_reply E reply w = (x, w')"
  show "dw_requests w' = dw_requests w @ sent_messages [] []"
    using quiet_read_reply [of E reply] run by (auto simp: quiet_iff sent_messages_def) (metis snd_conv)
  fix a
  assume "x = Finished (Inr a)"
  with run tripleD [OF triple_read_reply [where P = "\<lambda>_. True" and E = E and reply = reply], of w "Inr a" w']
  show "call_answers reply (Inr a)" by simp
qed simp_all

lemma sends_post: "sends [body] (\<lambda>reply rs. rs = [reply]) (post E ''sendMessage'' body)"
  unfolding sends_def
proof (intro allI impI)
  fix w x w'
  assume run: "post E ''sendMessage'' body w = (x, w')"
  obtain reply y where "de_post E (api_url E ''sendMessage'') body (dw_remote w) = (reply, y)" by fastforce
  with run show "\<exists>rs. length rs \<le> length [body] \<and> dw_requests w' = dw_requests w @ sent_messages [body] rs
    \<and> (\<forall>a. x = Finished (Inr a) \<longrightarrow> length rs = length [body] \<and> rs = [a])"
    by (intro exI [of _ "[reply]"]) (auto simp: post_def sent_messages_def)
qed

abbreviation accepts :: "i64 \<Rightarrow> http_reply list \<Rightarrow> bool" where
  "accepts mid rs \<equiv> map accepted rs = [Some mid]"

lemma sends_message: "sends [message_body (td_chat_id E) message markup] accepts (send_message E message markup)"
proof -
  let ?b = "message_body (td_chat_id E) message markup"
  have call: "sends ([?b] @ []) (\<lambda>v rs. \<exists>r. rs = [r] \<and> call_answers r (Inr v)) (api_call E ''sendMessage'' ?b)"
    unfolding api_call_def
    by (intro sends_after quiet_wait sends_bind [OF sends_post sends_read_reply]) auto
  have "sends ([?b] @ []) accepts (send_message E message markup)"
    unfolding send_message_def
  proof (rule sends_bind [OF call [simplified]])
    show "sends [] (\<lambda>mid _. message_id_of v = Inr mid) (task_lift (message_id_of v))" for v
      by (auto simp: sends_def task_lift_def sent_messages_def)
  qed (auto dest!: answers_message_id simp: answers_def)
  then show ?thesis by simp
qed

lemma sends_return: "sends [] (\<lambda>b _. b = a) (task_return a)"
  by (auto simp: sends_def task_lift_def sent_messages_def)

lemma sends_recorded:
  assumes "\<And>mid. sends [] (\<lambda>a _. a = mid) (f mid)"
  shows "sends [message_body (td_chat_id E) message markup] accepts (send_recorded E i message markup f)"
proof -
  have "sends ([message_body (td_chat_id E) message markup] @ []) accepts (send_recorded E i message markup f)"
    unfolding send_recorded_def
    by (rule sends_try [OF sends_message, where U = "\<lambda>mid a _. a = mid"]) (auto intro: quiet_failure_bind assms)
  then show ?thesis by simp
qed

lemma sends_single:
  "sends [message_body (td_chat_id E) message markup] accepts (send_single_reply_result E turn message markup)"
  "sends [message_body (td_chat_id E) message markup] accepts
     (send_single_scoped_result_with_revision E meta chunk message markup version)"
  unfolding send_single_reply_result_def send_single_scoped_result_with_revision_def
  by (intro sends_after quiet_tasks sends_recorded sends_or_unknown sends_return)+

lemma sends_error: "sends bs V (task_lift (Inl e))"
  by (auto simp: sends_def task_lift_def sent_messages_def intro: exI [of _ "[]"])

text \<open>The bodies of the messages of a reply: only the first has the markup.\<close>

fun reply_bodies :: "i64 \<Rightarrow> json option \<Rightarrow> string list \<Rightarrow> json list" where
  "reply_bodies chat markup [] = []"
| "reply_bodies chat markup (c # cs) = message_body chat c markup # map (\<lambda>c. message_body chat c None) cs"

lemma reply_bodies_None: "reply_bodies chat None cs = map (\<lambda>c. message_body chat c None) cs"
  by (cases cs) simp_all

lemma sends_chunks:
  assumes "\<And>i c m. sends [message_body (td_chat_id E) c m] accepts (send i c m)"
  shows "sends (reply_bodies (td_chat_id E) markup cs) (\<lambda>ids rs. map accepted rs = map Some ids) (send_chunks E send i markup cs)"
proof (induction cs arbitrary: i markup)
  case Nil
  then show ?case by (auto simp: sends_def task_lift_def sent_messages_def)
next
  case (Cons c cs)
  let ?rest = "map (\<lambda>c. message_body (td_chat_id E) c None) cs"
  have rest: "sends (?rest @ []) (\<lambda>ids rs. \<exists>as. ids = a # as \<and> map accepted rs = map Some as)
      (task_bind (send_chunks E send (Suc i) None cs) (\<lambda>as. task_return (a # as)))" for a
    by (rule sends_bind [OF Cons.IH [of None "Suc i", unfolded reply_bodies_None] sends_return]) auto
  have "sends ([message_body (td_chat_id E) c markup] @ ?rest) (\<lambda>ids rs. map accepted rs = map Some ids)
      (task_bind (send i c markup) (\<lambda>a. task_bind (send_chunks E send (Suc i) None cs) (\<lambda>as. task_return (a # as))))"
    by (rule sends_bind [OF assms rest [simplified]]) auto
  then show ?case
    by (auto intro!: sends_after split del: if_split)
qed

text \<open>C15. The messages of a text are sent in order and at most once each, however the method ends: the
  requests it adds are for a prefix of the chunks, the first with the markup. When it succeeds all
  chunks were sent and the service accepted every one; \<^verbatim>\<open>send_business_reply\<close> and
  \<^verbatim>\<open>send_reply_with_turn_ids\<close> return the ids the service gave, in this order.\<close>

theorem chunks_sent_in_order:
  fixes E :: "'r delivery_env"
  assumes "chunk_text message (chunk_size (td_policy E)) = Some cs"
  shows "sends (reply_bodies (td_chat_id E) markup cs) (\<lambda>_ rs. None \<notin> set (map accepted rs)) (send_reply E message markup)
    \<and> sends (reply_bodies (td_chat_id E) markup cs) (\<lambda>_ rs. None \<notin> set (map accepted rs)) (send_operation_reply E oid message markup)
    \<and> sends (reply_bodies (td_chat_id E) markup cs) (\<lambda>ids rs. map accepted rs = map Some ids) (send_reply_with_turn_ids E turn message markup)
    \<and> sends (reply_bodies (td_chat_id E) markup cs) (\<lambda>ids rs. map accepted rs = map Some ids) (send_business_reply E meta message markup)"
proof (intro conjI)
  let ?bs = "reply_bodies (td_chat_id E) markup cs"
  have with_cs: "with_chunks E message f = f cs" for f :: "string list \<Rightarrow> ('r, 'a) task"
    using assms by (auto simp: with_chunks_def)
  have unit: "sends (?bs @ []) (\<lambda>_ rs. None \<notin> set (map accepted rs))
      (task_bind (send_chunks E (\<lambda>_ c m. send_single_reply_result E turn c m) 0 markup cs) (\<lambda>_. task_return ()))" for turn
    by (rule sends_bind [OF sends_chunks [OF sends_single(1)] sends_return]) auto
  then show "sends ?bs (\<lambda>_ rs. None \<notin> set (map accepted rs)) (send_reply E message markup)"
    by (simp add: send_reply_def with_cs)
  from unit show "sends ?bs (\<lambda>_ rs. None \<notin> set (map accepted rs)) (send_operation_reply E oid message markup)"
    by (simp add: send_operation_reply_def with_cs sends_error)
  show "sends ?bs (\<lambda>ids rs. map accepted rs = map Some ids) (send_reply_with_turn_ids E turn message markup)"
    "sends ?bs (\<lambda>ids rs. map accepted rs = map Some ids) (send_business_reply E meta message markup)"
    unfolding send_reply_with_turn_ids_def send_business_reply_def with_cs
    by (intro sends_chunks sends_single)+
qed

section \<open>Markup, retries and revoked turns\<close>

lemma collect_results_map: "(\<And>x. x \<in> set xs \<Longrightarrow> f (g x) = Inr x) \<Longrightarrow> collect_results f (map g xs) = Inr xs"
  by (induction xs) simp_all

text \<open>The markup a panel is sent with is read back by \<^verbatim>\<open>keyboard_from_markup\<close> to the same keyboard.\<close>

theorem panel_markup_roundtrip: "keyboard_from_markup (panel_markup kb) = Inr kb"
proof -
  have "button_from_markup (button_markup b) = Inr b" for b
    by (cases b) (simp add: button_from_markup_def button_markup_def get_str_def ok_or_def)
  then have "row_from_markup (JArray (map button_markup row)) = Inr row" for row
    by (simp add: row_from_markup_def ok_or_def collect_results_map)
  then show ?thesis
    by (simp add: keyboard_from_markup_def panel_markup_def ok_or_def collect_results_map)
qed

lemma split_str_acc_first:
  "(\<And>j. j < length x \<Longrightarrow> \<not> starts_with (drop j (x @ p @ y)) p) \<Longrightarrow> p \<noteq> [] \<Longrightarrow>
   split_str_acc p acc (x @ p @ y) = (acc @ x) # split_str_acc p [] y"
proof (induction x arbitrary: acc)
  case Nil
  then obtain c q where "p = c # q" by (cases p) auto
  then show ?case by (simp add: starts_with_iff)
next
  case (Cons c x)
  have "\<not> starts_with (drop j (x @ p @ y)) p" if "j < length x" for j
    using Cons.prems(1) [of "Suc j"] that by simp
  moreover have "\<not> starts_with (c # x @ p @ y) p"
    using Cons.prems(1) [of 0] by simp
  ultimately show ?case
    using Cons.IH [of "acc @ [c]"] Cons.prems(2) by simp
qed

lemma split_str_acc_none:
  "(\<And>j. j < length y \<Longrightarrow> \<not> starts_with (drop j y) p) \<Longrightarrow> split_str_acc p acc y = [acc @ y]"
proof (induction y arbitrary: acc)
  case (Cons c y)
  have "\<not> starts_with (drop j y) p" if "j < length y" for j
    using Cons.prems [of "Suc j"] that by simp
  then show ?case
    using Cons.IH [of "acc @ [c]"] Cons.prems [of 0] by simp
qed simp

lemma ws_len_digit: "is_ascii_digit c \<Longrightarrow> ws_len (c # s) = 0"
  by (cases s; cases "tl s") (auto simp: ws_len_def is_ascii_digit_def)

lemma first_word_digits:
  assumes "\<forall>c \<in> set s. is_ascii_digit c" "s \<noteq> []"
  shows "first_word s = Some s"
proof -
  have no_ws: "ws_len (drop j s) = 0" if "j < length s" for j
    using assms(1) that by (simp add: Cons_nth_drop_Suc [symmetric] ws_len_digit)
  have "trim_start s = s"
    using no_ws [of 0] assms(2) by (subst trim_start.simps) simp
  moreover have "find_at (\<lambda>u. 0 < ws_len u) s = None"
    using no_ws by (simp add: find_at_None)
  ultimately show ?thesis using assms(2) by (simp add: first_word_def)
qed

lemma no_pattern_before:
  assumes "\<not> contains_str d p" "e \<notin> set p" "f \<notin> set p" "p \<noteq> []" "j < length (d @ [e, f])"
  shows "\<not> starts_with (drop j (d @ [e, f] @ t)) p"
proof
  assume "starts_with (drop j (d @ [e, f] @ t)) p"
  then obtain u where u: "drop j (d @ [e, f] @ t) = p @ u" by (auto simp: starts_with_iff)
  consider "j + length p \<le> length d" | "length d < j + length p" by linarith
  then show False
  proof cases
    case 1
    with u have "drop j d @ [e, f] @ t = p @ u" by simp
    then have "take (length p) (drop j d) = p"
      using 1 by (metis add_le_imp_le_diff append_eq_append_conv_if length_drop take_all_iff add.commute append_eq_conv_conj append_same_eq)
    then have "starts_with (drop j d) p" unfolding starts_with_iff by (metis append_take_drop_id)
    moreover have "j < length d" using 1 assms(4) by (cases p) auto
    ultimately show False using assms(1) by (auto simp: contains_str_def find_str_def find_at_None)
  next
    case 2
    let ?k = "if j \<le> length d then length d - j else 0"
    have "?k < length p" using 2 assms(4) by auto
    then have "p ! ?k = drop j (d @ [e, f] @ t) ! ?k" unfolding u by (simp add: nth_append)
    also have "\<dots> \<in> {e, f}"
    proof (cases "j \<le> length d")
      case False
      then have "j = Suc (length d)" using assms(5) by simp
      then show ?thesis by simp
    qed (simp add: nth_append)
    finally show False using assms(2,3) \<open>?k < length p\<close> by (metis insert_iff nth_mem singletonD)
  qed
qed

text \<open>The waiting time the service asks for reaches the retry: \<^verbatim>\<open>retry_after_seconds\<close> reads from the message
  of the error the number \<^verbatim>\<open>call\<close> has put there, unless the description itself contains the marker.\<close>

theorem retry_after_read_back:
  assumes "\<not> contains_str description ''retry_after=''" "n \<le> usize_max"
  shows "retry_after_seconds (rate_limit_error description n) = n"
proof -
  let ?p = "''retry_after=''" and ?y = "nat_to_string n"
  have digits: "\<forall>c \<in> set ?y. is_ascii_digit c" using nat_to_string_bytes by blast
  have "split_str_acc ?p [] ((description @ ''; '') @ ?p @ ?y) = ([] @ description @ ''; '') # split_str_acc ?p [] ?y"
    by (rule split_str_acc_first) (use no_pattern_before [OF assms(1)] in simp_all)
  moreover have "split_str_acc ?p [] ?y = [[] @ ?y]"
  proof (rule split_str_acc_none)
    fix j
    assume "j < length ?y"
    then obtain c z where "drop j ?y = c # z" "c \<in> set ?y" by (metis Cons_nth_drop_Suc nth_mem)
    with digits show "\<not> starts_with (drop j ?y) ?p" by (auto simp: starts_with_iff is_ascii_digit_def)
  qed
  ultimately have "split_str ?p (description @ ''; retry_after='' @ ?y) = [description @ ''; '', ?y]"
    by (simp add: split_str_def)
  then show ?thesis
    using assms(2) first_word_digits [OF digits] by (simp add: retry_after_seconds_def rate_limit_error_def app_error_defs)
qed

end
