(* ===== verification/Delivery_Effects.thy ===== *)
theory Delivery_Effects
  imports Delivery_Safety
begin

text \<open>
  Revoked turns and streamed replies of \<^verbatim>\<open>src/modules/telegram/delivery.rs\<close>: every message of a revoked turn is
  accounted for, a streamed reply is finished once, and instances of the theorems on sending.
\<close>

section \<open>Revoked turns\<close>

definition requests_are :: "(string \<times> json \<times> http_reply) list \<Rightarrow> 'r delivery_world \<Rightarrow> bool" where
  "requests_are log w \<longleftrightarrow> dw_requests w = log"

lemma triple_call_log:
  "triple (requests_are log) (api_call E meth body) (\<lambda>res w. \<exists>reply. requests_are (log @ [(meth, body, reply)]) w \<and> call_answers reply res)"
  by (rule triple_api_call) (auto simp: requests_are_def)





definition edit_ok :: "http_reply \<Rightarrow> bool" where
  "edit_ok reply \<longleftrightarrow> (case reply_result reply of
      Returns (Inr _) \<Rightarrow> True | Returns (Inl e) \<Rightarrow> contains_str (app_message e) ''message is not modified'' | Panicked \<Rightarrow> False)"








definition edit_body :: "i64 \<Rightarrow> i64 \<Rightarrow> string \<Rightarrow> json" where
  "edit_body chat mid message =
     JObject [(''chat_id'', json_i64 chat), (''message_id'', json_i64 mid), (''text'', JString message)]"

lemma triple_edit:
  "triple (requests_are log) (edit_message E mid message)
     (\<lambda>res w. \<exists>reply. requests_are (log @ [(''editMessageText'', edit_body (td_chat_id E) mid message, reply)]) w
        \<and> edit_ok reply = (res = Inr ()))"
  unfolding edit_message_def unmodified_is_ok_def edit_body_def
  by (rule triple_try [OF triple_call_log]) (auto intro!: triple_lift simp: call_answers_def edit_ok_def split: sum.split)


section \<open>Streamed replies\<close>

text \<open>Tasks that do not touch the progress of a streamed reply.\<close>

definition same_progress :: "'r delivery_world \<Rightarrow> 'r delivery_world \<Rightarrow> bool" where
  "same_progress w w' \<longleftrightarrow> dw_progress w' = dw_progress w"

interpretation progress_kept: task_order same_progress
  by unfold_locales (simp_all add: same_progress_def)

abbreviation unstreamed :: "('r, 'a) task \<Rightarrow> bool" where
  "unstreamed m \<equiv> task_keeps same_progress m"

lemma others_progress [simp]: "dw_progress (others E w) = dw_progress w"
  by (simp add: others_def split: prod.split)

lemma unstreamed_basic:
  "unstreamed (fresh f)" "unstreamed (pause E)" "unstreamed (db_query E m)" "unstreamed (on_queue E g)" "unstreamed (post E meth body)"
  by (auto simp: task_keeps_def same_progress_def fresh_def pause_def db_query_def on_queue_def Let_def post_def split: prod.split)

lemma unstreamed_wait: "unstreamed (wait_for_cooldown E)"
proof -
  have "dw_progress ((others E ^^ n) w) = dw_progress w" for n w
    by (induction n) simp_all
  then show ?thesis
    by (auto simp: task_keeps_def same_progress_def wait_for_cooldown_def simp del: funpow.simps split: option.split)
qed

lemma unstreamed_reply:
  "unstreamed a \<Longrightarrow> (\<And>s. unstreamed (b s)) \<Longrightarrow> (\<And>n j. unstreamed (c n j)) \<Longrightarrow> unstreamed (case_http_reply a b c reply)"
  by (cases reply) auto

lemmas unstreamed_rules = progress_kept.keeps_rules progress_kept.keeps_bind unstreamed_basic unstreamed_wait unstreamed_reply

lemma unstreamed_edit: "unstreamed (edit_message E mid message)"
  unfolding edit_message_def unmodified_is_ok_def api_call_def read_reply_def set_cooldown_def
  by (intro unstreamed_rules)

lemma unstreamed_update: "unstreamed (update_turn_chunk E s revision turn chunk mid message)"
  unfolding update_turn_chunk_def by (intro unstreamed_rules)

lemma unstreamed_chunk: "unstreamed (send_turn_chunk_scoped E meta revision chunk message)"
  unfolding send_turn_chunk_scoped_def send_single_scoped_result_with_revision_def create_record_def start_sending_def send_recorded_def
    send_message_def api_call_def read_reply_def set_cooldown_def mark_send_error_def mark_retry_pending_def retry_at_rfc3339_def
    mark_delivery_unknown_def mark_delivery_failed_def queue_forget_def queue_enqueue_def or_unknown_def fail_unknown_def
    mark_unknown_after_persistence_failure_def record_scoped_turn_message_with_revision_def mark_sent_result_def
  by (intro unstreamed_rules)

text \<open>The progress after a successful step.\<close>

definition at_version :: "nat \<Rightarrow> 'r delivery_world \<Rightarrow> bool" where
  "at_version v w \<longleftrightarrow> pg_finalized (dw_progress w) \<and> unat (pg_render_version (dw_progress w)) = v"

lemma triple_unstreamed: "unstreamed m \<Longrightarrow> triple (at_version v) m (\<lambda>_. at_version v)"
  unfolding triple_def at_version_def by (metis same_progress_def task_keepsD)

text \<open>Reading the version, using it and adding one to it.\<close>

lemma triple_get_version:
  assumes "\<And>x. unat x = v \<Longrightarrow> triple (at_version v) (f x) Q"
  shows "triple (at_version v) (task_bind (progress_get pg_render_version) f) Q"
  unfolding triple_def
proof (intro allI impI)
  fix w w' :: "'a delivery_world" and r
  assume "at_version v w" and "task_bind (progress_get pg_render_version) f w = (Finished r, w')"
  then show "Q r w'"
    using assms [of "pg_render_version (dw_progress w)"]
    by (simp add: task_bind_def task_try_def progress_get_def at_version_def triple_def)
qed

lemma triple_bump:
  assumes "unat x = v" "triple (at_version (Suc v)) m Q" "\<And>e w. Q (Inl e) w"
  shows "triple (at_version v) (task_bind (bump_version x) (\<lambda>_. m)) Q"
proof (rule task_triple_bind)
  show "triple (at_version v) (bump_version x) (\<lambda>r w. r = Inr () \<longrightarrow> at_version (Suc v) w)"
    unfolding bump_version_def using assms(1)
    by (auto simp: triple_def task_bind_def task_try_def task_lift_def progress_set_def at_version_def next_revision_def ok_or_def
        split: option.splits dest!: checked_add_u64_Some)
qed (use assms(2,3) in auto)

text \<open>An error of a step of \<^verbatim>\<open>finalize\<close> ends it with an error.\<close>

lemma quiet_failure_fail: "quiet_failure (fail_unknown E i err)"
  unfolding fail_unknown_def by (intro quiet_failure_bind quiet_tasks quiet_failure_lift)

lemma triple_sink_marked:
  assumes "triple P m (\<lambda>r w. \<forall>a. r = Inr a \<longrightarrow> R w)" "\<And>a. triple R (f a) Q" "\<And>e w. Q (Inl e) w"
  shows "triple P (sink_marked E K m f) Q"
  unfolding sink_marked_def
proof (rule triple_try [OF assms(1)])
  fix r
  have err: "triple (\<lambda>_. True) n Q" if "quiet_failure n" for n
    using that assms(3) unfolding triple_def quiet_failure_def by (metis sum.exhaust)
  have "triple (\<lambda>_. True) (case sk_delivery_id K of Some i \<Rightarrow> fail_unknown E i e | None \<Rightarrow> task_lift (Inl e)) Q" for e
    by (rule err) (auto split: option.split intro: quiet_failure_fail)
  with assms(2) show "triple (\<lambda>w. \<forall>a. r = Inr a \<longrightarrow> R w) (case r of Inr a \<Rightarrow> f a
      | Inl err \<Rightarrow> (case sk_delivery_id K of Some i \<Rightarrow> fail_unknown E i err | None \<Rightarrow> task_lift (Inl err))) Q"
    by (cases r) (auto intro: triple_pre)
qed

lemma triple_versions: "unstreamed m \<Longrightarrow> triple (at_version v) m (\<lambda>r w. \<forall>a. r = Inr a \<longrightarrow> at_version v w)"
  by (rule triple_post [OF triple_unstreamed]) auto

lemma triple_finalize_rest:
  "triple (at_version v) (finalize_rest E K i cs) (\<lambda>r w. r = Inr () \<longrightarrow> at_version (v + length cs) w)"
proof (induction cs arbitrary: v i)
  case Nil
  show ?case by (auto intro: triple_lift)
next
  case (Cons c cs)
  have pause: "triple (at_version v) (pause E) (\<lambda>_. at_version v)"
    by (rule triple_unstreamed) (rule unstreamed_basic)
  have chunk: "triple (at_version v) (send_turn_chunk_scoped E (sk_metadata K) x i c) (\<lambda>_. at_version v)" for x
    by (rule triple_unstreamed) (rule unstreamed_chunk)
  have rest: "triple (at_version (Suc v)) (finalize_rest E K (Suc i) cs) (\<lambda>r w. r = Inr () \<longrightarrow> at_version (v + length (c # cs)) w)"
    using Cons.IH [of "Suc v" "Suc i"] by simp
  show ?case
    unfolding finalize_rest.simps
    by (rule task_triple_bind [OF pause], rule triple_get_version, rule task_triple_bind [OF chunk], rule triple_bump, assumption, rule rest) auto
qed

lemma triple_finalize_version:
  "triple (at_version v) (finalize_chunks E K (first # rest)) (\<lambda>r w. r = Inr () \<longrightarrow> at_version (v + Suc (length rest)) w)"
proof -
  have tail: "triple (at_version (Suc v)) (finalize_rest E K 1 rest) (\<lambda>r w. r = Inr () \<longrightarrow> at_version (v + Suc (length rest)) w)"
    using triple_finalize_rest [of "Suc v" E K 1 rest] by simp
  show ?thesis
    unfolding finalize_chunks_def list.case
  proof (rule task_triple_bind)
    show "triple (at_version v) (task_lift r) (\<lambda>_. at_version v)" for r :: "i64 app_result"
      by (rule triple_lift)
    fix mid
    show "triple (at_version v) (sink_marked E K (edit_message E mid first) (\<lambda>_.
          task_bind (progress_get pg_render_version) (\<lambda>expected.
          sink_marked E K (update_turn_chunk E (tm_scope (sk_metadata K)) expected (tm_turn_id (sk_metadata K)) 0 mid first) (\<lambda>_.
          task_bind (bump_version expected) (\<lambda>_. finalize_rest E K 1 rest)))))
      (\<lambda>r w. r = Inr () \<longrightarrow> at_version (v + Suc (length rest)) w)"
      by (rule triple_sink_marked [OF triple_versions [OF unstreamed_edit]], rule triple_get_version,
          rule triple_sink_marked [OF triple_versions [OF unstreamed_update]], rule triple_bump, assumption, rule tail) auto
  qed auto
qed

text \<open>The requests of a finished stream.\<close>

lemma quiet_progress [intro!]: "quiet (progress_get g)" "quiet (progress_set h)" "quiet (bump_version x)"
  unfolding bump_version_def by (auto simp: quiet_iff progress_get_def progress_set_def task_bind_def task_try_def task_lift_def
      split: sum.split)

lemma sends_finalize_rest:
  "sends (map (\<lambda>c. message_body (td_chat_id E) c None) cs) (\<lambda>_ rs. None \<notin> set (map accepted rs)) (finalize_rest E K i cs)"
proof (induction cs arbitrary: i)
  case Nil
  show ?case by (auto simp: sends_def task_lift_def sent_messages_def)
next
  case (Cons c cs)
  have one: "sends [message_body (td_chat_id E) c None] accepts (send_turn_chunk_scoped E (sk_metadata K) x i c)" for x
    unfolding send_turn_chunk_scoped_def by (intro sends_after quiet_basic sends_single)
  have rest: "sends (map (\<lambda>c. message_body (td_chat_id E) c None) cs) (\<lambda>_ rs. None \<notin> set (map accepted rs))
      (task_bind (bump_version x) (\<lambda>_. finalize_rest E K (Suc i) cs))" for x
    by (intro sends_after quiet_progress Cons.IH)
  have "sends ([message_body (td_chat_id E) c None] @ map (\<lambda>c. message_body (td_chat_id E) c None) cs) (\<lambda>_ rs. None \<notin> set (map accepted rs))
      (task_bind (send_turn_chunk_scoped E (sk_metadata K) x i c) (\<lambda>_. task_bind (bump_version x) (\<lambda>_. finalize_rest E K (Suc i) cs)))" for x
    by (rule sends_bind [OF one rest]) (auto simp: map_eq_Cons_conv)
  then show ?case
    unfolding finalize_rest.simps
    by (intro sends_after [OF quiet_basic(4)] sends_after [OF quiet_progress(1)]) simp
qed

definition finished_requests :: "i64 \<Rightarrow> i64 \<Rightarrow> string \<Rightarrow> string list \<Rightarrow> (string \<times> json \<times> http_reply) list \<Rightarrow> bool" where
  "finished_requests chat mid first rest reqs \<longleftrightarrow> (\<exists>reply rs.
     reqs = (''editMessageText'', edit_body chat mid first, reply) # sent_messages (map (\<lambda>c. message_body chat c None) rest) rs
     \<and> edit_ok reply \<and> length rs = length rest \<and> None \<notin> set (map accepted rs))"

lemma task_bind_return: "task_bind (task_return a) f = f a"
  by (auto simp: task_bind_def task_try_def task_lift_def)

lemma triple_finalize_requests:
  assumes "sk_message_id K = Some mid"
  shows "triple (requests_are log) (finalize_chunks E K (first # rest))
    (\<lambda>r w. r = Inr () \<longrightarrow> (\<exists>reqs. dw_requests w = log @ reqs \<and> finished_requests (td_chat_id E) mid first rest reqs))"
    (is "triple _ _ ?Q")
proof -
  let ?edited = "\<lambda>w. \<exists>reply. requests_are (log @ [(''editMessageText'', edit_body (td_chat_id E) mid first, reply)]) w \<and> edit_ok reply"
  have quiet_step: "triple ?edited m (\<lambda>_. ?edited)" if "quiet m" for m :: "('a, 'b) task"
    using that unfolding triple_def quiet_iff requests_are_def by (metis snd_conv)
  have tail: "triple ?edited (finalize_rest E K 1 rest) ?Q"
    unfolding triple_def
  proof (intro allI impI)
    fix w w' :: "'a delivery_world" and r
    assume w: "?edited w" and run: "finalize_rest E K 1 rest w = (Finished r, w')" and r: "r = Inr ()"
    obtain reply where reply: "dw_requests w = log @ [(''editMessageText'', edit_body (td_chat_id E) mid first, reply)]" "edit_ok reply"
      using w by (auto simp: requests_are_def)
    obtain rs where "dw_requests w' = dw_requests w @ sent_messages (map (\<lambda>c. message_body (td_chat_id E) c None) rest) rs"
      "length rs = length rest" "None \<notin> set (map accepted rs)"
      using sendsE [OF sends_finalize_rest run] r by (metis length_map)
    with reply show "\<exists>reqs. dw_requests w' = log @ reqs \<and> finished_requests (td_chat_id E) mid first rest reqs"
      by (auto simp: finished_requests_def)
  qed
  have upd: "quiet (update_turn_chunk E s v turn chunk mid message)" for s v turn chunk message
    unfolding update_turn_chunk_def by auto
  have "triple (requests_are log) (sink_marked E K (edit_message E mid first) (\<lambda>_.
          task_bind (progress_get pg_render_version) (\<lambda>expected.
          sink_marked E K (update_turn_chunk E (tm_scope (sk_metadata K)) expected (tm_turn_id (sk_metadata K)) 0 mid first) (\<lambda>_.
          task_bind (bump_version expected) (\<lambda>_. finalize_rest E K 1 rest))))) ?Q"
  proof (rule triple_sink_marked)
    show "triple (requests_are log) (edit_message E mid first) (\<lambda>r w. \<forall>a. r = Inr a \<longrightarrow> ?edited w)"
      by (rule triple_post [OF triple_edit]) auto
    have marked: "triple ?edited (update_turn_chunk E s v turn chunk mid message) (\<lambda>r w. \<forall>a. r = Inr a \<longrightarrow> ?edited w)" for s v turn chunk message
      by (rule triple_post [OF quiet_step [OF upd]]) auto
    have bump: "triple ?edited (task_bind (bump_version v) (\<lambda>_. finalize_rest E K 1 rest)) ?Q" for v
      by (rule task_triple_bind [OF quiet_step [OF quiet_progress(3)] tail]) simp
    show "triple ?edited (task_bind (progress_get pg_render_version) (\<lambda>expected.
          sink_marked E K (update_turn_chunk E (tm_scope (sk_metadata K)) expected (tm_turn_id (sk_metadata K)) 0 mid first) (\<lambda>_.
          task_bind (bump_version expected) (\<lambda>_. finalize_rest E K 1 rest)))) ?Q"
      by (rule task_triple_bind [OF quiet_step [OF quiet_progress(1)]], rule triple_sink_marked [OF marked bump]) simp_all
  qed simp
  then show ?thesis
    unfolding finalize_chunks_def list.case by (simp add: assms ok_or_def task_bind_return)
qed

text \<open>C21. A streamed reply is finished once. When the first \<^verbatim>\<open>finalize\<close> of a stream that has a placeholder
  message succeeds with a text that is not blank, the placeholder was edited to the first chunk, which
  the service accepted or had already shown, and the other chunks were sent behind it in order, each
  accepted by the service; nothing else was asked; the rendered version has grown by the number of
  chunks; and every later \<^verbatim>\<open>finalize\<close>, whatever its text, does nothing.\<close>

theorem stream_finalized_once:
  fixes E :: "'r delivery_env"
  assumes chunks: "chunk_text message (chunk_size (td_policy E)) = Some (first # rest)" "trim message \<noteq> []"
    and sink: "sk_message_id K = Some mid" "\<not> pg_finalized (dw_progress w)"
    and run: "finalize E K message w = (Finished (Inr ()), w')"
  shows "(\<exists>reqs. dw_requests w' = dw_requests w @ reqs \<and> finished_requests (td_chat_id E) mid first rest reqs)
    \<and> unat (pg_render_version (dw_progress w')) = unat (pg_render_version (dw_progress w)) + Suc (length rest)
    \<and> (\<forall>m. finalize E K m w' = (Finished (Inr ()), w'))"
proof -
  let ?now = "de_instant E (dw_tick w)"
  let ?w = "w\<lparr>dw_tick := Suc (dw_tick w), dw_progress := dw_progress w\<lparr>pg_finalized := True,
      pg_stream := snd (force_final message ?now (pg_stream (dw_progress w)))\<rparr>\<rparr>"
  have run': "finalize_chunks E K (first # rest) ?w = (Finished (Inr ()), w')"
    using run sink(2) chunks
    by (simp add: finalize_def task_bind_def task_try_def progress_get_def progress_set_def fresh_def with_chunks_def)
  have v: "at_version (unat (pg_render_version (dw_progress w))) ?w" by (simp add: at_version_def)
  have "at_version (unat (pg_render_version (dw_progress w)) + Suc (length rest)) w'"
    using tripleD [OF triple_finalize_version v run'] by simp
  moreover have "requests_are (dw_requests w) ?w" by (simp add: requests_are_def)
  from tripleD [OF triple_finalize_requests [OF sink(1)] this run']
  have "\<exists>reqs. dw_requests w' = dw_requests w @ reqs \<and> finished_requests (td_chat_id E) mid first rest reqs" by simp
  ultimately show ?thesis
    by (auto simp: at_version_def finalize_def task_bind_def task_try_def progress_get_def task_lift_def)
qed

section \<open>Instances\<close>

text \<open>A service that accepts everything and numbers the messages, or one that cannot be reached, and
  no other tasks.\<close>

definition demo_reply :: "nat \<Rightarrow> http_reply" where
  "demo_reply n = Response 200 (JObject [(''ok'', JBool True), (''result'', JObject [(''message_id'', JNumber (PosInt n))])])"

definition demo_env :: "bool \<Rightarrow> nat delivery_env" where
  "demo_env reachable =
     \<lparr> td_token = ''k'', td_api_base = ''u'', td_bot_id = ''b1'', td_numeric_bot_id = 7, td_chat_id = 42,
       td_inter_message_delay = 0, td_policy = stream_policy_default, de_now = (\<lambda>_. ''now''), de_new_id = nat_to_string,
       de_instant = (\<lambda>n. n), de_instant_max = 0,
       de_cooldown_clock = (\<lambda>n. \<lparr> ck_until = n, ck_fallback = n, ck_insert = (\<lambda>_. n), ck_retain = (\<lambda>_. n) \<rparr>),
       de_retry_time = (\<lambda>_ _. Timestamp ''later''), de_sha256_hex = (\<lambda>s. s), de_sql_error = ''disk'',
       de_post = (\<lambda>_ _ n. if reachable then (demo_reply (Suc n), Suc n) else (Request_failed, n)),
       de_iter = (\<lambda>_ ps. ps), de_probe = (\<lambda>n _. (False, n)), de_others = (\<lambda>_ t q. (t, q)) \<rparr>"

definition demo_turn :: turn_row where
  "demo_turn = \<lparr> tr_id = 1, tr_scope = Some demo_scope, tr_turn_id = ''t1'', tr_operation_id = ''op'', tr_chunk_index = 0,
     tr_message_id = 9, tr_content_hash = ''h'', tr_render_version = 1, tr_status = ''sent'', tr_lifecycle = Some ''active'',
     tr_terminal_at = None, tr_created_at = ''now'', tr_updated_at = ''now'' \<rparr>"

definition demo_chat_world :: "nat delivery_world" where
  "demo_chat_world =
     \<lparr> dw_db = \<lparr> db_tables = demo_ledger\<lparr>dt_turns := [demo_turn]\<rparr>, db_faults = [] \<rparr>, dw_queue = delivery_coordinator_default,
       dw_remote = 0, dw_requests = [], dw_progress = new_progress, dw_tick = 0 \<rparr>"

definition demo_sink :: progress_sink where
  "demo_sink = \<lparr> sk_delivery_id = None, sk_message_id = Some 9,
     sk_metadata = \<lparr> tm_scope = demo_scope, tm_turn_id = ''t1'', tm_operation_id = ''op'' \<rparr> \<rparr>"

lemma demo_others: "others (demo_env b) w = w\<lparr>dw_tick := Suc (dw_tick w)\<rparr>"
  by (simp add: others_def demo_env_def)

lemma demo_follow: "others_follow (demo_env b)"
  by (simp add: others_follow_def demo_env_def ledger.refl)

lemma demo_leave: "others_leave (demo_env b) i"
  by (simp add: others_leave_def demo_env_def)

lemma demo_wait:
  assumes "dc_states (dw_queue w) = (\<lambda>_. None)"
  shows "wait_for_cooldown (demo_env b) w = (Finished (Inr ()), w\<lparr>dw_tick := Suc (dw_tick w)\<rparr>)"
  using assms
  by (simp add: wait_for_cooldown_def cooldown_view_def wait_loop.simps demo_others wait_time_def until_or_def Let_def)

lemma demo_call:
  assumes "dc_states (dw_queue w) = (\<lambda>_. None)"
  shows "api_call (demo_env True) meth body w
      = (Finished (Inr (JObject [(''message_id'', JNumber (PosInt (Suc (dw_remote w))))])),
         w\<lparr>dw_tick := dw_tick w + 2, dw_remote := Suc (dw_remote w),
           dw_requests := dw_requests w @ [(meth, body, demo_reply (Suc (dw_remote w)))]\<rparr>)"
    and "api_call (demo_env False) meth body w
      = (Finished (Inl (bad_gateway ''TELEGRAM_REQUEST_FAILED'' ''Telegram request failed'')),
         w\<lparr>dw_tick := dw_tick w + 2, dw_requests := dw_requests w @ [(meth, body, Request_failed)]\<rparr>)"
proof -
  have post: "de_post (demo_env b) u j n = (if b then (demo_reply (Suc n), Suc n) else (Request_failed, n))" for b u j n
    by (simp add: demo_env_def)
  show "api_call (demo_env True) meth body w
      = (Finished (Inr (JObject [(''message_id'', JNumber (PosInt (Suc (dw_remote w))))])),
         w\<lparr>dw_tick := dw_tick w + 2, dw_remote := Suc (dw_remote w),
           dw_requests := dw_requests w @ [(meth, body, demo_reply (Suc (dw_remote w)))]\<rparr>)"
    using assms
    by (simp add: api_call_def task_bind_def task_try_def demo_wait post_def post demo_others read_reply_def demo_reply_def
        is_rate_limited_def get_i64_def get_bool_def task_lift_def)
  show "api_call (demo_env False) meth body w
      = (Finished (Inl (bad_gateway ''TELEGRAM_REQUEST_FAILED'' ''Telegram request failed'')),
         w\<lparr>dw_tick := dw_tick w + 2, dw_requests := dw_requests w @ [(meth, body, Request_failed)]\<rparr>)"
    using assms
    by (simp add: api_call_def task_bind_def task_try_def demo_wait post_def post demo_others read_reply_def task_lift_def)
qed

theorem delivery_methods_follow_ledger_witness:
  "guarded (send_reply (demo_env True) ''hi'' None) \<and> guarded (emit (demo_env True) demo_sink (Ev_Done ''hi''))"
  using delivery_methods_follow_ledger [OF demo_follow [of True], where message = "''hi''" and markup = None and K = demo_sink
      and ev = "Ev_Done ''hi''"]
  by simp

lemma demo_chunks: "chunk_text ''hi'' 3200 = Some [''hi'']" "trim ''hi'' \<noteq> []"
  by code_simp+

theorem chunks_sent_in_order_witness:
  "sends (reply_bodies 42 None [''hi'']) (\<lambda>_ rs. None \<notin> set (map accepted rs)) (send_reply (demo_env True) ''hi'' None)"
proof -
  have "chunk_text ''hi'' (chunk_size (td_policy (demo_env True))) = Some [''hi'']" "td_chat_id (demo_env True) = 42"
    using demo_chunks by (simp_all add: demo_env_def stream_policy_default_def)
  with chunks_sent_in_order [of "''hi''" "demo_env True" "[''hi'']" None] show ?thesis by metis
qed

theorem retry_after_read_back_witness: "retry_after_seconds (rate_limit_error ''slow down'' 30) = 30"
proof (rule retry_after_read_back)
  show "\<not> contains_str ''slow down'' ''retry_after=''" by code_simp
  show "30 \<le> usize_max" by (simp add: usize_max_def)
qed

lemma demo_send:
  "\<exists>w'. send_single_reply_result (demo_env True) None ''hi'' None demo_chat_world = (Finished (Inr 1), w')"
proof -
  have E: "td_chat_id (demo_env True) = 42" "td_bot_id (demo_env True) = ''b1''" "de_new_id (demo_env True) = nat_to_string"
    "de_now (demo_env True) = (\<lambda>_. ''now'')"
    by (simp_all add: demo_env_def)
  show ?thesis
    by (simp add: send_single_reply_result_def create_record_def start_sending_def send_recorded_def send_message_def or_unknown_def
        mark_sent_result_def queue_forget_def on_queue_def Let_def task_bind_def task_try_def task_lift_def fresh_def db_query_def
        demo_others E create_delivery_def mark_sending_def mark_sent_row_def one_row_def update_deliveries_def
        sql_bind_def Sql_Monad.sql_stmt_def sql_return_def sql_update_def demo_chat_world_def demo_ledger_def pending_row_def
        demo_call delivery_coordinator_default_def delivery_coordinator_new_def message_id_of_def ok_or_def i64_max_def)
qed

theorem delivery_record_sound_witness:
  "\<exists>reply row w'. send_single_reply_result (demo_env True) None ''hi'' None demo_chat_world = (Finished (Inr 1), w')
    \<and> dw_requests w' = [(''sendMessage'', message_body 42 ''hi'' None, reply)] \<and> row \<in> set (dt_deliveries (tables_of w'))
    \<and> recorded reply row (Inr 1)"
proof -
  obtain w' where run: "send_single_reply_result (demo_env True) None ''hi'' None demo_chat_world = (Finished (Inr 1), w')"
    using demo_send by blast
  have "ledger_ok (tables_of demo_chat_world)" by (simp add: demo_chat_world_def demo_ledger_def ledger_ok_def)
  from delivery_record_sound [OF demo_follow allI [OF demo_leave] this run]
  have "\<exists>reply row. dw_requests w' = dw_requests demo_chat_world @ [(''sendMessage'', message_body (td_chat_id (demo_env True)) ''hi'' None, reply)]
      \<and> row \<in> set (dt_deliveries (tables_of w')) \<and> recorded reply row (Inr 1)"
    by auto
  with run show ?thesis by (auto simp: demo_chat_world_def demo_env_def)
qed


theorem stream_finalized_once_witness:
  "\<exists>w'. finalize (demo_env True) demo_sink ''hi'' demo_chat_world = (Finished (Inr ()), w')
    \<and> unat (pg_render_version (dw_progress w')) = 2 \<and> (\<forall>m. finalize (demo_env True) demo_sink m w' = (Finished (Inr ()), w'))"
proof -
  have E: "td_chat_id (demo_env True) = 42" "td_policy (demo_env True) = stream_policy_default" "de_now (demo_env True) = (\<lambda>_. ''now'')"
    "de_sha256_hex (demo_env True) = (\<lambda>s. s)" "de_instant (demo_env True) = (\<lambda>n. n)"
    by (simp_all add: demo_env_def)
  have c: "chunk_text ''hi'' (chunk_size (td_policy (demo_env True))) = Some [''hi'']"
    using demo_chunks by (simp add: E stream_policy_default_def)
  have "\<exists>w'. finalize (demo_env True) demo_sink ''hi'' demo_chat_world = (Finished (Inr ()), w')"
    by (simp add: finalize_def finalize_chunks_def sink_marked_def bump_version_def with_chunks_def c [unfolded E(2)] demo_chunks(2) demo_sink_def
        demo_chat_world_def new_progress_def progress_get_def progress_set_def task_bind_def task_try_def task_lift_def fresh_def E
        edit_message_def unmodified_is_ok_def demo_call delivery_coordinator_default_def delivery_coordinator_new_def ok_or_def
        update_turn_chunk_def db_query_def demo_others update_turn_chunk_scoped_def next_revision_def revision_i64_def to_i64_def
        encode_chunk_index_def checked_add_u64_def i64_max_def one_row_def update_turns_def sql_bind_def Sql_Monad.sql_stmt_def
        sql_lift_def sql_return_def sql_update_def demo_ledger_def demo_turn_def turn_chunk_at_def live_def)
  then obtain w' where run: "finalize (demo_env True) demo_sink ''hi'' demo_chat_world = (Finished (Inr ()), w')" by blast
  have "sk_message_id demo_sink = Some 9" "\<not> pg_finalized (dw_progress demo_chat_world)"
    by (simp_all add: demo_sink_def demo_chat_world_def new_progress_def)
  from stream_finalized_once [OF c demo_chunks(2) this run] run show ?thesis
    by (auto simp: demo_chat_world_def new_progress_def)
qed

end
