(* ===== verification/Spec2Isabelle.thy ===== *)
theory Spec2Isabelle
  imports Operation_Recovery Telegram_Inbox Lock_Table Sse_Decoder Connector_Hmac Text_Split Engine_Query
    Engine_Redelivery Card_Png Delivery_Queue Panel_Store
    Delivery_Effects
begin

text \<open>
  A verification development for im-bridge-rs, a service that connects Telegram bots with
  SillyTavern: a Telegram update becomes a durable bridge operation, the operation is executed
  against SillyTavern through a connector, and its outcome is recorded so that it is applied
  at most once and can be recovered after a crash.

  \<^bold>\<open>Parts of the program and the theories that model them\<close> (paths below \<^verbatim>\<open>src/src/\<close>)

  \<^item> \<open>Bridge_Prelude\<close>: byte strings, results, decimal and length-prefixed encodings, the update
    of a table by a SQL statement, and the lemmas the other theories share.
  \<^item> \<open>Redaction\<close>: \<^verbatim>\<open>modules/bridge/redaction.rs\<close>, the filter every error detail passes.
  \<^item> \<open>Bridge_Errors\<close>: \<^verbatim>\<open>modules/bridge/errors.rs\<close> and \<^verbatim>\<open>error.rs\<close>, codes and error values.
  \<^item> \<open>Json_Value\<close>: \<^verbatim>\<open>serde_json::Value\<close> as far as the bridge uses it.
  \<^item> \<open>St_Domain\<close>: \<^verbatim>\<open>domain/st.rs\<close>, \<^verbatim>\<open>domain/locator.rs\<close> and \<^verbatim>\<open>st_readiness.rs\<close>, the write gate,
    fences, locators, mutations and the write switch.
  \<^item> \<open>Error_Mapper\<close>: \<^verbatim>\<open>modules/bridge/error_mapper.rs\<close>, failures as error values.
  \<^item> \<open>Operations\<close>: \<^verbatim>\<open>modules/bridge/operations.rs\<close>, the status machine of an operation, recovery
    payloads and the authenticated data that binds them to an operation.
  \<^item> \<open>Operation_Store\<close>: \<^verbatim>\<open>modules/bridge/operation_store.rs\<close>, the ledger as operations on the
    tables of the database, one definition per method; every SQL statement may fail.
  \<^item> \<open>Operation_Ledger\<close>: the invariant of that database, the contract of a ledger as the locales
    \<open>ledger\<close> and \<open>payload_ledger\<close>, and their interpretation by the store.
  \<^item> \<open>Store_Evolution\<close>: the same contract for a database that other tasks use at the same time.
  \<^item> \<open>Operation_Journal\<close>: \<^verbatim>\<open>seams/st_operation_journal.rs\<close> and
    \<^verbatim>\<open>modules/bridge/connector_journal.rs\<close> with the locale \<open>verdict_journal\<close>.
  \<^item> \<open>Operation_Payload\<close>: \<^verbatim>\<open>modules/bridge/operation_payload.rs\<close>, payload encryption and keys.
  \<^item> \<open>Poller_Ownership\<close>: \<^verbatim>\<open>modules/bridge/poller_ownership.rs\<close>, epochs, runtime bindings and
    guards, with the locale \<open>fencing_registry\<close> for the registry in memory, and the registry of
    \<^verbatim>\<open>adapters/st/connector.rs\<close> that asks the plugin.
  \<^item> \<open>Operation_Coordinator\<close>: \<^verbatim>\<open>modules/bridge/operation_coordinator.rs\<close>, commits and replays
    across the ledger and the backend.
  \<^item> \<open>Operation_Recovery\<close>: \<^verbatim>\<open>modules/bridge/operation_recovery.rs\<close>, recovery after a restart.
  \<^item> \<open>Lock_Table\<close>: \<^verbatim>\<open>lock_table.rs\<close> and the locator, delivery and conversation locks, with the
    locale \<open>keyed_locks\<close> for a table that hands out one mutex per key.
  \<^item> \<open>Telegram_Inbox\<close>: the durable inbox of \<^verbatim>\<open>modules/telegram/mod.rs\<close>: batches, offsets, claims,
    retries and recovery, with the locale \<open>acknowledged_queue\<close>.
  \<^item> \<open>Text_Split\<close>: \<^verbatim>\<open>split_text\<close> of \<^verbatim>\<open>modules/telegram/mod.rs\<close>, replies cut into messages.
  \<^item> \<open>Chat_Prompt\<close>, \<open>St_Ops\<close>: \<^verbatim>\<open>modules/chat/prompt.rs\<close> and \<^verbatim>\<open>modules/bridge/st_ops.rs\<close>, prompts and the
    mutations derived from a chat.
  \<^item> \<open>Channel_Context\<close>: \<^verbatim>\<open>modules/bridge/channel_context.rs\<close>, what a chat channel has selected.
  \<^item> \<open>Bridge_Engine\<close>: \<^verbatim>\<open>modules/bridge/engine.rs\<close> with the types of \<^verbatim>\<open>seams/st_bridge_engine.rs\<close> and
    \<^verbatim>\<open>domain/identity.rs\<close>: every command from its lock to its commit.
  \<^item> \<open>Engine_Query\<close>: the queries of the same engine.
  \<^item> \<open>Engine_Safety\<close>, \<open>Engine_Frame\<close>, \<open>Engine_Redelivery\<close>: what a command guarantees with the
    coordinator, the ledger and the ownership registry: triples for what a success reports,
    frames for what a command leaves alone.
  \<^item> \<open>Sql_Monad\<close>: computations on tables with failing statements and transactions, and the locale
    \<open>table_order\<close> for what they preserve.
  \<^item> \<open>Callback_Action\<close>, \<open>Callback_Store\<close>: \<^verbatim>\<open>modules/telegram/callback.rs\<close>, the actions behind buttons and the
    single-use tokens that stand for them.
  \<^item> \<open>Telegram_Panel\<close>, \<open>Panel_Store\<close>: \<^verbatim>\<open>modules/telegram/panel.rs\<close>, \<^verbatim>\<open>modules/telegram/panel_store.rs\<close> and the
    binding of buttons in \<^verbatim>\<open>modules/telegram/mod.rs\<close>: rendered panels, their slots and effects.
  \<^item> \<open>Delivery_Queue\<close>: \<^verbatim>\<open>modules/telegram/delivery_queue.rs\<close> and the throttle of \<^verbatim>\<open>modules/telegram/stream.rs\<close>.
  \<^item> \<open>Delivery_Ledger\<close>, \<open>Telegram_Delivery\<close>: \<^verbatim>\<open>modules/telegram/delivery.rs\<close>, the tables of deliveries, turn messages
    and frozen targets, and the methods that send, edit, retry and stream messages.
  \<^item> \<open>Delivery_Safety\<close>, \<open>Delivery_Effects\<close>: what these methods guarantee while other tasks run, with the
    locale \<open>task_order\<close> for relations that every task keeps and triples for what a result says.
  \<^item> \<open>Card_Png\<close>: \<^verbatim>\<open>modules/characters/card_png.rs\<close>, character cards in PNG files.
  \<^item> \<open>Sse_Decoder\<close>: \<^verbatim>\<open>adapters/st/sse.rs\<close>, the incremental decoder of generation streams, and the
    loop of \<^verbatim>\<open>adapters/st/backend.rs\<close> that feeds it.
  \<^item> \<open>Connector_Hmac\<close>: \<^verbatim>\<open>modules/bridge/connector_hmac.rs\<close>, signed requests and their nonces.

  \<^bold>\<open>State and effects.\<close> The database is a record of tables with a schedule of failing
  statements; a store operation is a function from a database to a result and a database. A
  \<open>world\<close> adds the state of the external parties. The backend, the connector journal, the
  secret vault, the AEAD, SHA-256, JSON printing and parsing, clock readings and random
  identifiers are arguments; a backend call may change the database in every way other tasks
  could. Whoever checks an ownership guard takes the answers of the registry's \<^verbatim>\<open>assert_fence\<close> as an
  argument, so that what is shown of the engine and of recovery holds for every registry; the answer is
  that of one instant. A call that may unwind has the outcome \<open>Panicked\<close>.

  \<^bold>\<open>What the theorems show.\<close> The ledger keeps its invariant and its life cycle under every
  sequence of operations and failures; an applied commit is final; a claim happens once; leases
  are exclusive; a coordinator's success is durable and an applied mutation is never reported
  as not applied; reconciliation needs evidence; recovery reports only applied operations; a
  stale or foreign guard is fenced off; payloads open only under the identity they were sealed
  for; redaction removes every token-like run. No update is lost between Telegram and the inbox,
  and none is tried more than three times; one client at a time holds the lock of a key whatever
  the table evicts; a stream decodes the same however it is cut; a signed request is accepted
  once; a command of the engine that reports a write is durably applied, one whose operation has
  left its initial status never writes again, and an engine without ownership writes nothing;
  splitting a reply terminates and keeps its text when the limit is at least two. A button's token is
  consumed once, all or nothing and only in its scope, and what it queues is its own action; every
  rendered button whose names are short and free of colons is bound; a saved panel is the active one of its chat; a delivery is handed out once
  and waits for its cooldown; the record of a delivery agrees with the answer of the service, chunks
  are sent in order and at most once, a streamed reply is finished once, a revoked turn is accounted for message by message and a frozen
  target cannot be exchanged by any run of the ledger's operations; an exported card is read back. A
  guard that its registry rejects recovers nothing.

  \<^bold>\<open>Loops.\<close> Loops over collections are structural recursion. \<open>split_loop\<close>, which need not end, is a
  partial function whose \<open>None\<close> means divergence. Message interleavings (lock clients, the poller
  and the Telegram server) are inductive step relations.

  \<^bold>\<open>Not modelled.\<close> The HTTP surface, configuration, start-up, migrations and the native chat engine
  are not modelled; where a modelled operation calls into them, the call is an argument.
\<close>

section \<open>Properties across components\<close>

text \<open>What a refused recovery may have done: taken and given back leases, and used up the schedule of
  failing statements. Every other table and the state of the external parties are as they were.\<close>

definition only_leases_changed :: "'w world \<Rightarrow> 'w world \<Rightarrow> bool" where
  "only_leases_changed w w' \<longleftrightarrow>
     w_ext w' = w_ext w \<and> w_db w' = (w_db w)\<lparr>leases := leases (w_db w'), faults := faults (w_db w')\<rparr>"

lemma only_leases_refl: "only_leases_changed w w"
  by (simp add: only_leases_changed_def)

lemma only_leases_trans: "only_leases_changed w1 w2 \<Longrightarrow> only_leases_changed w2 w3 \<Longrightarrow> only_leases_changed w1 w3"
  by (cases "w_db w1"; cases "w_db w2"; cases "w_db w3") (auto simp: only_leases_changed_def)

lemma only_leases_ops:
  assumes "only_leases_changed w w'"
  shows "ops (w_db w') = ops (w_db w)"
proof -
  have "ops (w_db w') = ops ((w_db w)\<lparr>leases := leases (w_db w'), faults := faults (w_db w')\<rparr>)"
    using assms unfolding only_leases_changed_def by (elim conjE) (rule arg_cong [where f = ops])
  also have "\<dots> = ops (w_db w)" by simp
  finally show ?thesis .
qed

lemma only_leases_store:
  assumes "\<And>db. snd (m db) = db\<lparr>leases := leases (snd (m db)), faults := faults (snd (m db))\<rparr>"
    and "on_store m w = (r, w')"
  shows "only_leases_changed w w'"
  using assms(1) [of "w_db w"] assms(2) by (auto simp: on_store_eq only_leases_changed_def)

lemma only_leases_candidates:
  "on_store (list_recovery_candidates_for_bot b limit) w = (r, w') \<Longrightarrow> only_leases_changed w w'"
  by (erule only_leases_store [rotated])
     (auto simp: list_recovery_candidates_for_bot_def select_ops_def app_sql_def store_map_err_def store_bind_def store_lift_def
      Operation_Store.sql_stmt_def split: list.splits prod.splits sum.splits)

lemma only_leases_acquire:
  "on_store (try_acquire_execution_lease now i b inst until) w = (r, w') \<Longrightarrow> only_leases_changed w w'"
  by (erule only_leases_store [rotated])
     (auto simp: try_acquire_execution_lease_def upsert_lease_def lease_upsert_def app_sql_def store_map_err_def store_bind_def store_lift_def
      Operation_Store.sql_stmt_def Let_def split: list.splits prod.splits sum.splits option.splits if_splits)

lemma only_leases_release: "release_lease l w = (r, w') \<Longrightarrow> only_leases_changed w w'"
proof -
  have "only_leases_changed v v'" if "on_store (release_execution_lease l) v = (x, v')" for v x v'
    by (rule only_leases_store [OF _ that])
       (auto simp: release_execution_lease_def app_sql_def store_map_err_def store_bind_def store_lift_def
        Operation_Store.sql_stmt_def Let_def split: list.splits prod.splits sum.splits)
  then show "release_lease l w = (r, w') \<Longrightarrow> only_leases_changed w w'"
    by (auto simp: release_lease_def app_bind_def app_fail_def app_return_def split: prod.splits sum.splits if_splits)
qed

lemmas only_leases = only_leases_refl only_leases_candidates only_leases_acquire only_leases_release

lemma recover_loop_fenced:
  assumes "assert_commit_fence g (reg (w_ext w)) \<noteq> Inr ()"
    and "recover_loop K reg clk uid g b fence until n rs w = (out, w')"
  shows "only_leases_changed w w' \<and> (\<exists>x. out = Returns x \<and> (\<forall>ids. x = Inr ids \<longrightarrow> ids = []))"
  using assms
proof (induction rs arbitrary: n w out w')
  case Nil
  then show ?case by (auto simp: only_leases_refl)
next
  case (Cons r rs)
  have refused: "\<exists>e. recover_record K reg c u g b fence r v = (Returns (Inl e), v)"
    if "assert_commit_fence g (reg (w_ext v)) \<noteq> Inr ()" for c u v
    using that by (cases "assert_commit_fence g (reg (w_ext v))") (auto simp: recover_record_def)
  have still: "assert_commit_fence g (reg (w_ext v)) \<noteq> Inr ()" if "only_leases_changed w v" for v
    using that Cons.prems(1) by (simp add: only_leases_changed_def)
  obtain l w1 where acq: "on_store (try_acquire_execution_lease (clk n 0) (rec_id r) b (g_runtime_instance_id g) until) w = (l, w1)"
    by force
  note w1 = only_leases_acquire [OF acq]
  consider e where "l = Inl e" | "l = Inr None" | lease where "l = Inr (Some lease)" by (metis old.sum.exhaust option.exhaust)
  then show ?case
  proof cases
    case 1
    with acq Cons.prems(2) w1 show ?thesis by auto
  next
    case 2
    with acq Cons.prems(2) have "recover_loop K reg clk uid g b fence until (Suc n) rs w1 = (out, w')" by simp
    from Cons.IH [OF still [OF w1] this] w1 show ?thesis using only_leases_trans by blast
  next
    case (3 lease)
    obtain e where rec: "recover_record K reg (\<lambda>m. clk n (Suc m)) (uid n) g b fence r w1 = (Returns (Inl e), w1)"
      using refused [OF still [OF w1]] by blast
    obtain x w3 where rel: "release_lease lease w1 = (x, w3)" by force
    have w3: "only_leases_changed w w3" using only_leases_trans [OF w1 only_leases_release [OF rel]] .
    obtain out4 w4 where loop: "recover_loop K reg clk uid g b fence until (Suc n) rs w3 = (out4, w4)" by force
    from Cons.IH [OF still [OF w3] loop] obtain y
      where y: "only_leases_changed w3 w4" "out4 = Returns y" "\<forall>ids. y = Inr ids \<longrightarrow> ids = []" by blast
    from Cons.prems(2) 3 acq rec rel loop y(2) show ?thesis
      using w3 only_leases_trans [OF w3 y(1)] y(3) by (auto split: sum.splits)
  qed
qed

text \<open>C33. A runtime whose guard its registry rejects recovers nothing through \<^verbatim>\<open>recover_for_bot\<close>, which is
  the recovery every poller runs when it starts. Whatever the registry (in memory, or the plugin behind
  the connector), whatever operations are left and whichever statements fail, the call does not reach
  the backend, the journal or the vault, changes no table but the leases it takes and gives back, does
  not panic and, if it succeeds, reports no operation as recovered. Nothing is claimed of
  \<^verbatim>\<open>recover_generated_operations\<close>, which no other code calls: it replays under the fence of its guard
  without asking the registry.\<close>

theorem stale_guard_recovers_nothing:
  assumes "assert_commit_fence g (reg (w_ext w)) \<noteq> Inr ()"
    and "recover_for_bot K reg clk uid deadline g bot_id w = (out, w')"
  shows "only_leases_changed w w' \<and> (\<exists>x. out = Returns x \<and> (\<forall>ids. x = Inr ids \<longrightarrow> ids = []))"
proof -
  consider e where "out = Returns (Inl e)" "w' = w"
    | e where "out = Returns (Inl e)" "on_store (list_recovery_candidates_for_bot bot_id 128) w = (Inl e, w')"
    | fence until rs w1 where "on_store (list_recovery_candidates_for_bot bot_id 128) w = (Inr rs, w1)"
        "recover_loop K reg clk uid g bot_id fence until 0 rs w1 = (out, w')"
    using assms(2) by (auto simp: recover_for_bot_def split: if_splits option.splits prod.splits sum.splits)
  then show ?thesis
  proof cases
    case (3 fence until rs w1)
    note w1 = only_leases_candidates [OF 3(1)]
    then have "assert_commit_fence g (reg (w_ext w1)) \<noteq> Inr ()" using assms(1) by (simp add: only_leases_changed_def)
    from recover_loop_fenced [OF this 3(2)] w1 show ?thesis using only_leases_trans by blast
  qed (auto simp: only_leases_refl dest: only_leases_candidates)
qed

text \<open>The registry has handed the bot over to another owner while an operation of it was left
  committing; the guard still carries the old epoch.\<close>

theorem stale_guard_recovers_nothing_witness:
  "\<exists>w'. recover_for_bot demo_recovery (\<lambda>_. memory_fence (snd (transfer 42 RustBridge 2 LegacyPlugin demo_ownership)))
     (\<lambda>_ _. ''10'') (\<lambda>_ _. (''rq'', ''tr'')) (Some ''20'') (demo_guard ''one'' 2) ''bot'' (demo_world 5 [])
   = (Returns (Inr []), w') \<and> ops (w_db w') = ops (w_db (demo_world 5 []))"
proof -
  let ?t = "transfer 42 RustBridge 2 LegacyPlugin demo_ownership"
  let ?c = "recover_for_bot demo_recovery (\<lambda>_. memory_fence (snd ?t)) (\<lambda>_ _. ''10'') (\<lambda>_ _. (''rq'', ''tr''))
      (Some ''20'') (demo_guard ''one'' 2) ''bot'' (demo_world 5 [])"
  have "(case fst ?c of Returns (Inr ids) \<Rightarrow> True | _ \<Rightarrow> False)" by code_simp
  then obtain ids where c: "?c = (Returns (Inr ids), snd ?c)"
    by (cases ?c) (auto split: call.splits sum.splits)
  have "\<exists>u. ?t = (Inr u, snd ?t)" by (simp add: demo_ownership_def registry_eval)
  then obtain u where u: "?t = (Inr u, snd ?t)" ..
  have stale: "assert_commit_fence (demo_guard ''one'' 2) (memory_fence (snd ?t)) \<noteq> Inr ()"
    using fenced_after_transfer [OF u, where as = "[]"]
    by (simp add: demo_guard_def new_with_binding_def binding_running_def binding_new_def)
  from stale_guard_recovers_nothing [where reg = "\<lambda>_. memory_fence (snd ?t)", OF stale c]
  have "ids = []" and same: "only_leases_changed (demo_world 5 []) (snd ?c)" by simp_all
  moreover note only_leases_ops [OF same]
  ultimately show ?thesis using c by auto
qed

end
